(* ===== verification/Hostap_Prelude.thy ===== *)
theory Hostap_Prelude
  imports Main "HOL-Library.Word"
begin

text \<open>
  Shared vocabulary of the development: the machine types of the C sources
  (\<^verbatim>\<open>u8\<close>, \<^verbatim>\<open>u16\<close>, \<^verbatim>\<open>u32\<close>, \<^verbatim>\<open>size_t\<close>; the targets of this tree are 32-bit
  SoCs, so \<^verbatim>\<open>size_t\<close> and \<^verbatim>\<open>unsigned int\<close> are 32 bits wide), byte buffers, C strings,
  the lemma collections the component theories use, generic facts on lists and words,
  and two interfaces: \<open>codec\<close> (an encoder with its decoder) and \<open>step_inv\<close>
  (a system with an invariant kept by each of its steps).
\<close>

unbundle bit_operations_syntax

section \<open>Types\<close>

type_synonym u8 = "8 word"
type_synonym u16 = "16 word"
type_synonym u32 = "32 word"
type_synonym u64 = "64 word"
type_synonym size_t = "32 word"
type_synonym bytes = "u8 list"
type_synonym macaddr = "u8 list"

named_theorems byte_defs "definitions of the byte order macros"
named_theorems sm_entry_defs "entry actions of the state machines"
named_theorems sm_step_defs "step functions of the state machines"

section \<open>Memory and C strings\<close>

text \<open>A store of \<open>src\<close> at offset \<open>off\<close> of a memory area, as \<^verbatim>\<open>os_memcpy(dst + off, src, n)\<close>
  performs it when the whole range lies in the area.\<close>

definition memput :: "bytes \<Rightarrow> nat \<Rightarrow> bytes \<Rightarrow> bytes" where
  "memput dst off src = take off dst @ src @ drop (off + length src) dst"

lemma length_memput [simp]:
  "off + length src \<le> length dst \<Longrightarrow> length (memput dst off src) = length dst"
  by (simp add: memput_def)

lemma take_memput [simp]:
  "off + length src \<le> length dst \<Longrightarrow> take (off + length src) (memput dst off src) = take off dst @ src"
  by (simp add: memput_def)

lemma take_memput_le:
  "n \<le> off \<Longrightarrow> off \<le> length dst \<Longrightarrow> take n (memput dst off src) = take n dst"
  by (simp add: memput_def min_def)

lemma memput_Nil [simp]: "memput dst off [] = dst"
  by (simp add: memput_def)

text \<open>The character at the read position of a C string: the text is the list of the bytes
  before the terminating NUL, and the byte read at its end is that NUL.\<close>

definition peek :: "bytes \<Rightarrow> u8" where
  "peek s = (case s of [] \<Rightarrow> 0 | c # _ \<Rightarrow> c)"

lemma peek_simps [simp]: "peek [] = 0" "peek (c # cs) = c"
  by (simp_all add: peek_def)

text \<open>The text held by a memory area: the bytes before its first NUL.\<close>

definition cstr :: "bytes \<Rightarrow> bytes" where
  "cstr m = takeWhile (\<lambda>c. c \<noteq> 0) m"

section \<open>Numeric value of a big-endian byte list\<close>

fun be_val :: "bytes \<Rightarrow> nat" where
  "be_val [] = 0"
| "be_val (b # bs) = unat b * 256 ^ length bs + be_val bs"

lemma be_val_append: "be_val (xs @ ys) = be_val xs * 256 ^ length ys + be_val ys"
  by (induction xs) (auto simp: algebra_simps power_add)

lemma unat_u8_less [simp]: "unat (b :: u8) < 256"
  using unsigned_less[of b, where ?'a = nat] by simp

lemma be_val_bound: "be_val bs < 256 ^ length bs"
proof (induction bs)
  case (Cons b bs)
  have "unat b * 256 ^ length bs + be_val bs < (unat b + 1) * 256 ^ length bs"
    using Cons by simp
  also have "\<dots> \<le> 256 * 256 ^ length bs"
    using unat_u8_less[of b] by (intro mult_right_mono) (auto simp: Suc_le_eq simp del: unat_u8_less)
  finally show ?case by simp
qed simp

lemma be_val_inj: "length xs = length ys \<Longrightarrow> be_val xs = be_val ys \<Longrightarrow> xs = ys"
proof (induction xs ys rule: list_induct2)
  case (Cons x xs y ys)
  have bx: "be_val xs < 256 ^ length xs" and by': "be_val ys < 256 ^ length xs"
    using be_val_bound[of xs] be_val_bound[of ys] Cons.hyps by simp_all
  from Cons.prems Cons.hyps
  have eq: "unat x * 256 ^ length xs + be_val xs = unat y * 256 ^ length xs + be_val ys" by simp
  have "unat x = (unat x * 256 ^ length xs + be_val xs) div 256 ^ length xs"
    using bx by simp
  also have "\<dots> = unat y" using by' by (simp add: eq)
  finally have "x = y" by (simp add: word_unat_eq_iff)
  with eq Cons.IH show ?case by simp
qed simp

section \<open>Words seen byte by byte\<close>

lemma ff_mask: "(0xff :: 'a::len word) = mask 8"
  by (simp add: mask_eq_exp_minus_1)

lemma byte_wordI:
  fixes v w :: "'a::len word"
  assumes "\<And>k. k < 8 \<Longrightarrow> k < LENGTH('a) \<Longrightarrow> bit v k = bit w k"
    and "\<And>k. k < 8 \<Longrightarrow> 8 + k < LENGTH('a) \<Longrightarrow> bit v (8 + k) = bit w (8 + k)"
    and "\<And>k. k < 8 \<Longrightarrow> 16 + k < LENGTH('a) \<Longrightarrow> bit v (16 + k) = bit w (16 + k)"
    and "\<And>k. k < 8 \<Longrightarrow> 24 + k < LENGTH('a) \<Longrightarrow> bit v (24 + k) = bit w (24 + k)"
    and "LENGTH('a) \<le> 32"
  shows "v = w"
proof (rule bit_word_eqI)
  fix n assume n: "n < LENGTH('a)"
  then have "n < 8 \<or> n = 8 + (n - 8) \<and> n - 8 < 8 \<or> n = 16 + (n - 16) \<and> n - 16 < 8
      \<or> n = 24 + (n - 24) \<and> n - 24 < 8"
    using assms(5) by arith
  then show "bit v n = bit w n" using n assms(1-4) by metis
qed

section \<open>Interface: an encoder with its decoder\<close>

text \<open>The contract a printer and the parser of its output share: what was encoded is decoded
  to itself, so the encoder loses nothing. The byte order macros, the hexadecimal printer,
  the Base64 routines and the information element formats each provide it.\<close>

locale codec =
  fixes enc :: "'a \<Rightarrow> 'b" and dec :: "'b \<Rightarrow> 'a option" and ok :: "'a \<Rightarrow> bool"
  assumes dec_enc: "ok x \<Longrightarrow> dec (enc x) = Some x"
begin

lemma enc_inj: "ok x \<Longrightarrow> ok y \<Longrightarrow> enc x = enc y \<Longrightarrow> x = y"
  using dec_enc by (metis option.inject)

lemma inj_on_enc: "inj_on enc {x. ok x}"
  by (auto intro!: inj_onI dest: enc_inj)

end

section \<open>Interface: a system whose steps keep an invariant\<close>

text \<open>A component seen from outside: a state, the events it handles and an invariant that
  every handler keeps. What a run of any list of events keeps follows once and for all.\<close>

fun run_events :: "('e \<Rightarrow> 's \<Rightarrow> 's) \<Rightarrow> 'e list \<Rightarrow> 's \<Rightarrow> 's" where
  "run_events step [] s = s"
| "run_events step (e # es) s = run_events step es (step e s)"

lemma run_events_append:
  "run_events step (xs @ ys) s = run_events step ys (run_events step xs s)"
  by (induction xs arbitrary: s) auto

locale step_inv =
  fixes step :: "'e \<Rightarrow> 's \<Rightarrow> 's" and inv :: "'s \<Rightarrow> bool"
  assumes step_inv: "inv s \<Longrightarrow> inv (step e s)"
begin

lemma run_inv: "inv s \<Longrightarrow> inv (run_events step es s)"
  by (induction es arbitrary: s) (auto intro: step_inv)

lemma run_prefix_inv: "inv s \<Longrightarrow> inv (run_events step (take n es) s)"
  by (rule run_inv)

end

end
