(* ===== verification/Byte_Utils.thy ===== *)
theory Byte_Utils
  imports Hostap_Prelude
begin

text \<open>
  The byte level helpers of \<^verbatim>\<open>src/athr-hostap/src/utils/common.h\<close> and \<^verbatim>\<open>common.c\<close>:
  the big and little endian access macros, the hexadecimal reader and printer, the MAC address
  readers, \<^verbatim>\<open>inc_byte_array\<close> (the arithmetic of nonces and replay counters), the NTP time
  stamp and the printable SSID. A C function that fills a buffer returns the bytes it stored next to
  its return value.
\<close>

section \<open>Byte order macros\<close>

definition WPA_GET_BE16 :: "bytes \<Rightarrow> u16" where [byte_defs]:
  "WPA_GET_BE16 a = push_bit 8 (ucast (a ! 0)) OR ucast (a ! 1)"

definition WPA_PUT_BE16 :: "u16 \<Rightarrow> bytes" where [byte_defs]:
  "WPA_PUT_BE16 val = [ucast (drop_bit 8 val), ucast (val AND 0xff)]"

definition WPA_GET_LE16 :: "bytes \<Rightarrow> u16" where [byte_defs]:
  "WPA_GET_LE16 a = push_bit 8 (ucast (a ! 1)) OR ucast (a ! 0)"

definition WPA_PUT_LE16 :: "u16 \<Rightarrow> bytes" where [byte_defs]:
  "WPA_PUT_LE16 val = [ucast (val AND 0xff), ucast (drop_bit 8 val)]"

definition WPA_GET_BE24 :: "bytes \<Rightarrow> u32" where [byte_defs]:
  "WPA_GET_BE24 a = push_bit 16 (ucast (a ! 0)) OR push_bit 8 (ucast (a ! 1)) OR ucast (a ! 2)"

definition WPA_PUT_BE24 :: "u32 \<Rightarrow> bytes" where [byte_defs]:
  "WPA_PUT_BE24 val = [ucast (drop_bit 16 val AND 0xff), ucast (drop_bit 8 val AND 0xff),
     ucast (val AND 0xff)]"

definition WPA_GET_BE32 :: "bytes \<Rightarrow> u32" where [byte_defs]:
  "WPA_GET_BE32 a = push_bit 24 (ucast (a ! 0)) OR push_bit 16 (ucast (a ! 1)) OR
     push_bit 8 (ucast (a ! 2)) OR ucast (a ! 3)"

definition WPA_PUT_BE32 :: "u32 \<Rightarrow> bytes" where [byte_defs]:
  "WPA_PUT_BE32 val = [ucast (drop_bit 24 val AND 0xff), ucast (drop_bit 16 val AND 0xff),
     ucast (drop_bit 8 val AND 0xff), ucast (val AND 0xff)]"

definition WPA_GET_LE32 :: "bytes \<Rightarrow> u32" where [byte_defs]:
  "WPA_GET_LE32 a = push_bit 24 (ucast (a ! 3)) OR push_bit 16 (ucast (a ! 2)) OR
     push_bit 8 (ucast (a ! 1)) OR ucast (a ! 0)"

definition WPA_PUT_LE32 :: "u32 \<Rightarrow> bytes" where [byte_defs]:
  "WPA_PUT_LE32 val = [ucast (val AND 0xff), ucast (drop_bit 8 val AND 0xff),
     ucast (drop_bit 16 val AND 0xff), ucast (drop_bit 24 val AND 0xff)]"

lemma length_PUT [simp]:
  "length (WPA_PUT_BE16 v) = 2" "length (WPA_PUT_LE16 v) = 2" "length (WPA_PUT_BE24 w) = 3"
  "length (WPA_PUT_BE32 w) = 4" "length (WPA_PUT_LE32 w) = 4"
  by (simp_all add: byte_defs)

lemma GET_PUT_BE16 [simp]: "WPA_GET_BE16 (WPA_PUT_BE16 v) = v"
  unfolding byte_defs ff_mask by (rule byte_wordI) (auto simp: bit_simps)

lemma GET_PUT_LE16 [simp]: "WPA_GET_LE16 (WPA_PUT_LE16 v) = v"
  unfolding byte_defs ff_mask by (rule byte_wordI) (auto simp: bit_simps)

lemma GET_PUT_BE32 [simp]: "WPA_GET_BE32 (WPA_PUT_BE32 v) = v"
  unfolding byte_defs ff_mask by (rule byte_wordI) (auto simp: bit_simps)

lemma GET_PUT_LE32 [simp]: "WPA_GET_LE32 (WPA_PUT_LE32 v) = v"
  unfolding byte_defs ff_mask by (rule byte_wordI) (auto simp: bit_simps)

lemma GET_PUT_BE24: "WPA_GET_BE24 (WPA_PUT_BE24 v) = v AND mask 24"
  unfolding byte_defs ff_mask by (rule byte_wordI) (auto simp: bit_simps)

lemma bit_u8_ge: "\<not> bit (b :: u8) (8 + k)"
  by (rule notI) (drule bit_imp_le_length, simp)

lemma PUT_GET_BE16: "WPA_PUT_BE16 (WPA_GET_BE16 [a, b]) = [a, b]"
  unfolding byte_defs ff_mask by (auto intro!: byte_wordI simp: bit_simps bit_u8_ge)

lemma PUT_GET_LE16: "WPA_PUT_LE16 (WPA_GET_LE16 [a, b]) = [a, b]"
  unfolding byte_defs ff_mask by (auto intro!: byte_wordI simp: bit_simps bit_u8_ge)

lemma GET_append [simp]:
  "length a = 2 \<Longrightarrow> WPA_GET_BE16 (a @ r) = WPA_GET_BE16 a"
  "length a = 2 \<Longrightarrow> WPA_GET_LE16 (a @ r) = WPA_GET_LE16 a"
  "length a = 4 \<Longrightarrow> WPA_GET_BE32 (a @ r) = WPA_GET_BE32 a"
  "length a = 4 \<Longrightarrow> WPA_GET_LE32 (a @ r) = WPA_GET_LE32 a"
  by (simp_all add: byte_defs nth_append)

interpretation be16: codec WPA_PUT_BE16 "\<lambda>b. if length b = 2 then Some (WPA_GET_BE16 b) else None"
    "\<lambda>_. True"
  by unfold_locales simp

interpretation le16: codec WPA_PUT_LE16 "\<lambda>b. if length b = 2 then Some (WPA_GET_LE16 b) else None"
    "\<lambda>_. True"
  by unfold_locales simp

interpretation be32: codec WPA_PUT_BE32 "\<lambda>b. if length b = 4 then Some (WPA_GET_BE32 b) else None"
    "\<lambda>_. True"
  by unfold_locales simp

interpretation le32: codec WPA_PUT_LE32 "\<lambda>b. if length b = 4 then Some (WPA_GET_LE32 b) else None"
    "\<lambda>_. True"
  by unfold_locales simp

section \<open>Hexadecimal text\<close>

definition hex2num :: "u8 \<Rightarrow> int" where
  "hex2num c =
     (if 0x30 \<le> c \<and> c \<le> 0x39 then uint c - 0x30
      else if 0x61 \<le> c \<and> c \<le> 0x66 then uint c - 0x61 + 10
      else if 0x41 \<le> c \<and> c \<le> 0x46 then uint c - 0x41 + 10
      else -1)"

definition hex2byte :: "bytes \<Rightarrow> int" where
  "hex2byte hex =
     (let a = hex2num (peek hex) in
      if a < 0 then -1
      else let b = hex2num (peek (tl hex)) in
      if b < 0 then -1
      else push_bit 4 a OR b)"

fun hexstr2bin :: "bytes \<Rightarrow> nat \<Rightarrow> int \<times> bytes" where
  "hexstr2bin hex 0 = (0, [])"
| "hexstr2bin hex (Suc n) =
     (let a = hex2byte hex in
      if a < 0 then (-1, [])
      else let (r, bs) = hexstr2bin (drop 2 hex) n in (r, word_of_int a # bs))"

text \<open>One round of the address readers: two digits give one byte of the address.\<close>

definition hex_pair :: "bytes \<Rightarrow> (u8 \<times> bytes) option" where
  "hex_pair txt =
     (let a = hex2num (peek txt) in
      if a < 0 then None
      else let b = hex2num (peek (tl txt)) in
      if b < 0 then None
      else Some (word_of_int (push_bit 4 a OR b), drop 2 txt))"

fun hwaddr_aton_loop :: "nat \<Rightarrow> bytes \<Rightarrow> int \<times> bytes" where
  "hwaddr_aton_loop 0 txt = (0, [])"
| "hwaddr_aton_loop (Suc n) txt =
     (case hex_pair txt of
        None \<Rightarrow> (-1, [])
      | Some (v, rest) \<Rightarrow>
          if n = 0 then (0, [v])
          else if peek rest \<noteq> 0x3a then (-1, [v])
          else let (r, bs) = hwaddr_aton_loop n (tl rest) in (r, v # bs))"

definition hwaddr_aton :: "bytes \<Rightarrow> int \<times> bytes" where
  "hwaddr_aton txt = hwaddr_aton_loop 6 txt"

fun hwaddr_compact_loop :: "nat \<Rightarrow> bytes \<Rightarrow> int \<times> bytes" where
  "hwaddr_compact_loop 0 txt = (0, [])"
| "hwaddr_compact_loop (Suc n) txt =
     (case hex_pair txt of
        None \<Rightarrow> (-1, [])
      | Some (v, rest) \<Rightarrow> let (r, bs) = hwaddr_compact_loop n rest in (r, v # bs))"

definition hwaddr_compact_aton :: "bytes \<Rightarrow> int \<times> bytes" where
  "hwaddr_compact_aton txt = hwaddr_compact_loop 6 txt"

fun skip_delim :: "bytes \<Rightarrow> bytes" where
  "skip_delim [] = []"
| "skip_delim (c # cs) = (if c = 0x3a \<or> c = 0x2e \<or> c = 0x2d then skip_delim cs else c # cs)"

text \<open>\<^verbatim>\<open>hwaddr_aton2\<close> returns the number of characters read; the recursion passes the text that
  is left.\<close>

fun hwaddr_aton2_loop :: "nat \<Rightarrow> bytes \<Rightarrow> (bytes option) \<times> bytes" where
  "hwaddr_aton2_loop 0 pos = (Some pos, [])"
| "hwaddr_aton2_loop (Suc n) pos =
     (case hex_pair (skip_delim pos) of
        None \<Rightarrow> (None, [])
      | Some (v, rest) \<Rightarrow> let (r, bs) = hwaddr_aton2_loop n rest in (r, v # bs))"

definition hwaddr_aton2 :: "bytes \<Rightarrow> int \<times> bytes" where
  "hwaddr_aton2 txt =
     (case hwaddr_aton2_loop 6 txt of
        (None, bs) \<Rightarrow> (-1, bs)
      | (Some rest, bs) \<Rightarrow> (int (length txt) - int (length rest), bs))"

text \<open>The printer. \<open>hex_chars\<close> is what the conversions \<^verbatim>\<open>%02x\<close> and \<^verbatim>\<open>%02X\<close> of
  \<^verbatim>\<open>snprintf\<close> produce for one byte; \<open>snprintf_hex\<close> stores at most \<open>n\<close> bytes of it,
  the last of them NUL.\<close>

definition hexdigit :: "bool \<Rightarrow> nat \<Rightarrow> u8" where
  "hexdigit upper d = (if d < 10 then of_nat (0x30 + d)
     else if upper then of_nat (0x41 + (d - 10)) else of_nat (0x61 + (d - 10)))"

definition hex_chars :: "bool \<Rightarrow> u8 \<Rightarrow> bytes" where
  "hex_chars upper b = [hexdigit upper (unat b div 16), hexdigit upper (unat b mod 16)]"

definition snprintf_hex :: "bool \<Rightarrow> nat \<Rightarrow> u8 \<Rightarrow> bytes" where
  "snprintf_hex upper n b = (if n = 0 then [] else take (n - 1) (hex_chars upper b) @ [0])"

fun wpa_snprintf_hex_loop :: "bool \<Rightarrow> bytes \<Rightarrow> nat \<Rightarrow> bytes \<Rightarrow> nat \<times> bytes" where
  "wpa_snprintf_hex_loop upper buf pos [] = (pos, buf[length buf - 1 := 0])"
| "wpa_snprintf_hex_loop upper buf pos (d # ds) =
     (let room = length buf - pos;
          buf' = memput buf pos (snprintf_hex upper room d)
      in if 2 \<ge> room then (pos, buf'[length buf - 1 := 0])
         else wpa_snprintf_hex_loop upper buf' (pos + 2) ds)"

definition wpa_snprintf_hex' :: "bool \<Rightarrow> bytes \<Rightarrow> bytes \<Rightarrow> nat \<times> bytes" where
  "wpa_snprintf_hex' upper buf data =
     (if length buf = 0 then (0, buf) else wpa_snprintf_hex_loop upper buf 0 data)"

definition wpa_snprintf_hex :: "bytes \<Rightarrow> bytes \<Rightarrow> nat \<times> bytes" where
  "wpa_snprintf_hex buf data = wpa_snprintf_hex' False buf data"

definition wpa_snprintf_hex_uppercase :: "bytes \<Rightarrow> bytes \<Rightarrow> nat \<times> bytes" where
  "wpa_snprintf_hex_uppercase buf data = wpa_snprintf_hex' True buf data"

section \<open>Counters, time stamps and SSID text\<close>

text \<open>The loop of \<^verbatim>\<open>inc_byte_array\<close>; the argument is \<^verbatim>\<open>pos + 1\<close>.\<close>

fun inc_byte_array_loop :: "bytes \<Rightarrow> nat \<Rightarrow> bytes" where
  "inc_byte_array_loop counter 0 = counter"
| "inc_byte_array_loop counter (Suc pos) =
     (let counter' = counter[pos := counter ! pos + 1]
      in if counter' ! pos \<noteq> 0 then counter' else inc_byte_array_loop counter' pos)"

definition inc_byte_array :: "bytes \<Rightarrow> bytes" where
  "inc_byte_array counter = inc_byte_array_loop counter (length counter)"

definition wpa_get_ntp_timestamp :: "u32 \<Rightarrow> u32 \<Rightarrow> bytes" where
  "wpa_get_ntp_timestamp now_sec now_usec =
     (let sec = now_sec + 2208988800;
          usec = 4295 * now_usec - drop_bit 5 now_usec - drop_bit 9 now_usec
      in WPA_PUT_BE32 sec @ WPA_PUT_BE32 usec)"

definition wpa_ssid_txt :: "bytes \<Rightarrow> bytes" where
  "wpa_ssid_txt ssid =
     map (\<lambda>c. if c < 32 \<or> c \<ge> 127 then 0x5f else c) (cstr (take 32 ssid))"

section \<open>Properties\<close>

subsection \<open>Counters\<close>

lemma length_inc_byte_array_loop [simp]: "length (inc_byte_array_loop c n) = length c"
  by (induction c n rule: inc_byte_array_loop.induct) (auto simp: Let_def)

lemma length_inc_byte_array [simp]: "length (inc_byte_array c) = length c"
  by (simp add: inc_byte_array_def)

lemma unat_u8_inc: "unat (b + 1 :: u8) = (unat b + 1) mod 256"
  by (simp add: unat_word_ariths)

lemma inc_byte_array_loop_snoc:
  "inc_byte_array_loop (c @ b # r) (Suc (length c)) =
     (if b + 1 \<noteq> 0 then c @ (b + 1) # r else inc_byte_array_loop (c @ 0 # r) (length c))"
  by (simp add: Let_def list_update_append nth_append)

text \<open>The bytes behind the position of the loop are not read any more.\<close>

lemma inc_byte_array_loop_frame:
  "inc_byte_array_loop (c @ r) (length c) = inc_byte_array_loop c (length c) @ r"
proof (induction c arbitrary: r rule: rev_induct)
  case (snoc b c)
  show ?case
    using inc_byte_array_loop_snoc[of c b r] inc_byte_array_loop_snoc[of c b "[]"]
      snoc.IH[of "0 # r"] snoc.IH[of "[0]"]
    by simp
qed simp

lemma inc_byte_array_snoc:
  "inc_byte_array (c @ [b]) = (if b + 1 \<noteq> 0 then c @ [b + 1] else inc_byte_array c @ [0])"
  using inc_byte_array_loop_snoc[of c b "[]"] inc_byte_array_loop_frame[of c "[0]"]
  by (simp add: inc_byte_array_def)

lemma be_val_inc: "be_val (inc_byte_array c) = (be_val c + 1) mod 256 ^ length c"
proof (induction c rule: rev_induct)
  case Nil
  then show ?case by (simp add: inc_byte_array_def)
next
  case (snoc b c)
  have bound: "be_val c < 256 ^ length c" by (rule be_val_bound)
  show ?case
  proof (cases "b + 1 = 0")
    case True
    then have b: "unat b = 255"
      using unat_u8_inc[of b] unat_u8_less[of b] by (simp add: mod_Suc split: if_splits)
    have "(be_val c + 1) mod 256 ^ length c * 256 = (256 * (be_val c + 1)) mod (256 * 256 ^ length c)"
      by (simp only: mult_mod_right mult.commute)
    with True b snoc show ?thesis
      by (simp add: inc_byte_array_snoc be_val_append algebra_simps)
  next
    case False
    then have "unat (b + 1) = unat b + 1" and "unat b \<noteq> 255"
      using unat_u8_inc[of b] unat_u8_less[of b] unat_eq_zero[of "b + 1"]
      by (auto simp: mod_Suc split: if_splits)
    then have b: "unat (b + 1) = unat b + 1" and lt: "unat b < 255"
      using unat_u8_less[of b] by linarith+
    have "be_val c * 256 + unat b + 1 < (be_val c + 1) * 256" using lt by simp
    also have "\<dots> \<le> 256 ^ length c * 256" using bound by (intro mult_right_mono) auto
    finally show ?thesis using False b
      by (simp add: inc_byte_array_snoc be_val_append algebra_simps)
  qed
qed

subsection \<open>Hexadecimal text\<close>

lemma hex2num_range: "-1 \<le> hex2num c \<and> hex2num c < 16"
  by (auto simp: hex2num_def word_le_def)

lemma hex2num_hexdigit_table:
  "list_all (\<lambda>d. hex2num (hexdigit True d) = int d \<and> hex2num (hexdigit False d) = int d) [0..<16]"
  by code_simp

lemma hex2num_hexdigit: "d < 16 \<Longrightarrow> hex2num (hexdigit upper d) = int d"
  using hex2num_hexdigit_table by (cases upper) (auto simp: list_all_iff)

lemma hexdigit_nz: "d < 16 \<Longrightarrow> hexdigit upper d \<noteq> 0"
  using hex2num_hexdigit[of d upper] by (auto simp: hex2num_def)

lemma nibbles: "push_bit 4 (int (unat b div 16)) OR int (unat b mod 16) = uint (b :: u8)"
proof -
  have "push_bit 4 (int (unat b div 16)) OR int (unat b mod 16)
      = int (push_bit 4 (drop_bit 4 (unat b)) OR take_bit 4 (unat b))"
    by (simp add: of_nat_push_bit of_nat_or_eq drop_bit_eq_div take_bit_eq_mod)
  also have "push_bit 4 (drop_bit 4 (unat b)) OR take_bit 4 (unat b) = unat b"
    by (rule bit_eqI) (auto simp: bit_simps)
  finally show ?thesis by simp
qed

lemma hex_pair_chars [simp]: "hex_pair (hex_chars upper b @ r) = Some (b, r)"
  by (simp add: hex_pair_def hex_chars_def hex2num_hexdigit nibbles less_mult_imp_div_less)

lemma hex2byte_chars [simp]: "hex2byte (hex_chars upper b @ r) = uint b"
  by (simp add: hex2byte_def hex_chars_def hex2num_hexdigit nibbles less_mult_imp_div_less)

definition hex_text :: "bool \<Rightarrow> bytes \<Rightarrow> bytes" where
  "hex_text upper data = concat (map (hex_chars upper) data)"

lemma hex_text_simps [simp]:
  "hex_text upper [] = []" "hex_text upper (d # ds) = hex_chars upper d @ hex_text upper ds"
  by (simp_all add: hex_text_def)

lemma length_hex_chars [simp]: "length (hex_chars upper b) = 2"
  by (simp add: hex_chars_def)

lemma length_hex_text [simp]: "length (hex_text upper data) = 2 * length data"
  by (induction data) auto

lemma hexstr2bin_text [simp]: "hexstr2bin (hex_text upper data @ r) (length data) = (0, data)"
  by (induction data) (auto simp: Let_def)

lemma hex_text_nz: "c \<in> set (hex_text upper data) \<Longrightarrow> c \<noteq> 0"
  by (induction data) (auto simp: hex_chars_def hexdigit_nz less_mult_imp_div_less)

lemma length_snprintf_hex: "length (snprintf_hex upper n b) \<le> n"
  by (auto simp: snprintf_hex_def)

lemma snprintf_hex_room: "2 < n \<Longrightarrow> snprintf_hex upper n b = hex_chars upper b @ [0]"
  by (auto simp: snprintf_hex_def)

text \<open>The printer stays inside its buffer whatever the sizes are.\<close>

lemma length_wpa_snprintf_hex_loop:
  "pos \<le> length buf \<Longrightarrow> length (snd (wpa_snprintf_hex_loop upper buf pos ds)) = length buf"
proof (induction ds arbitrary: buf pos)
  case (Cons d ds)
  have "pos + length (snprintf_hex upper (length buf - pos) d) \<le> length buf"
    using length_snprintf_hex[of upper "length buf - pos" d] Cons.prems by simp
  then show ?case using Cons by (simp add: Let_def)
qed simp

lemma memput_hex_end:
  assumes "pos + 3 \<le> length buf"
  shows "take (pos + 2) (memput buf pos (hex_chars upper d @ [0])) = take pos buf @ hex_chars upper d"
    and "memput buf pos (hex_chars upper d @ [0]) ! (pos + 2) = 0"
  using assms by (simp_all add: memput_def hex_chars_def nth_append min_def)

lemma wpa_snprintf_hex_loop_ok:
  assumes "pos + 2 * length ds < length buf"
  shows "\<exists>out. wpa_snprintf_hex_loop upper buf pos ds = (pos + 2 * length ds, out)
     \<and> take (pos + 2 * length ds) out = take pos buf @ hex_text upper ds
     \<and> (ds \<noteq> [] \<or> buf ! pos = 0 \<longrightarrow> out ! (pos + 2 * length ds) = 0)"
  using assms
proof (induction ds arbitrary: buf pos)
  case Nil
  then show ?case by (auto simp: nth_list_update)
next
  case (Cons d ds)
  let ?buf = "memput buf pos (hex_chars upper d @ [0])"
  have len: "length ?buf = length buf" using Cons.prems by simp
  from Cons.prems have "pos + 2 + 2 * length ds < length ?buf" by (simp add: len)
  from Cons.IH[OF this] memput_hex_end[of pos buf upper d] Cons.prems show ?case
    by (auto simp: Let_def snprintf_hex_room)
qed

lemma cstr_take:
  assumes "n < length m" "m ! n = 0" "\<forall>c \<in> set (take n m). c \<noteq> 0"
  shows "cstr m = take n m"
proof -
  have "m = take n m @ 0 # drop (Suc n) m"
    using id_take_nth_drop[OF assms(1)] assms(2) by simp
  then have "cstr m = takeWhile (\<lambda>c. c \<noteq> 0) (take n m @ 0 # drop (Suc n) m)"
    by (simp add: cstr_def)
  also have "\<dots> = take n m" using assms(3) by (subst takeWhile_append2) auto
  finally show ?thesis .
qed

lemma wpa_snprintf_hex'_ok:
  assumes "data \<noteq> []" and "2 * length data < length buf"
  shows "\<exists>out. wpa_snprintf_hex' upper buf data = (2 * length data, out)
     \<and> length out = length buf \<and> cstr out = hex_text upper data"
proof -
  from wpa_snprintf_hex_loop_ok[of 0 data buf upper] assms
  obtain out where out: "wpa_snprintf_hex_loop upper buf 0 data = (2 * length data, out)"
      "take (2 * length data) out = hex_text upper data" "out ! (2 * length data) = 0"
    by auto
  moreover have len: "length out = length buf"
    using length_wpa_snprintf_hex_loop[of 0 buf upper data] out by simp
  moreover have "cstr out = take (2 * length data) out"
    using out assms len by (intro cstr_take) (auto dest: hex_text_nz)
  ultimately show ?thesis using assms by (auto simp: wpa_snprintf_hex'_def)
qed

subsection \<open>MAC addresses\<close>

text \<open>The text of \<^verbatim>\<open>MACSTR\<close>: byte pairs joined by colons.\<close>

fun mac_text :: "bool \<Rightarrow> bytes \<Rightarrow> bytes" where
  "mac_text upper [] = []"
| "mac_text upper [b] = hex_chars upper b"
| "mac_text upper (b # bs) = hex_chars upper b @ 0x3a # mac_text upper bs"

lemma hwaddr_aton_loop_text:
  "n = length addr \<Longrightarrow> hwaddr_aton_loop n (mac_text upper addr @ r) = (0, addr)"
proof (induction upper addr arbitrary: n rule: mac_text.induct)
  case (2 upper b)
  then show ?case by simp
next
  case (3 upper b v va)
  then show ?case by (simp add: Let_def)
qed simp

lemma hex2num_delim: "c = 0x3a \<or> c = 0x2e \<or> c = 0x2d \<Longrightarrow> hex2num c = -1"
  by (auto simp: hex2num_def)

lemma hex_pair_skip: "hex_pair s = Some x \<Longrightarrow> skip_delim s = s"
  by (cases s) (auto simp: hex_pair_def hex2num_delim Let_def split: if_splits)

lemma hex_pair_length: "hex_pair s = Some (v, r) \<Longrightarrow> length s = length r + 2"
proof -
  assume h: "hex_pair s = Some (v, r)"
  have z: "hex2num 0 = -1" by (simp add: hex2num_def)
  from h z obtain a s' where "s = a # s'" by (cases s) (auto simp: hex_pair_def)
  moreover from h z this obtain b s'' where "s' = b # s''"
    by (cases s') (auto simp: hex_pair_def Let_def split: if_splits)
  ultimately show ?thesis using h by (auto simp: hex_pair_def Let_def split: if_splits)
qed

lemma hwaddr_aton2_loop_delim:
  "c = 0x3a \<Longrightarrow> hwaddr_aton2_loop (Suc n) (c # cs) = hwaddr_aton2_loop (Suc n) cs"
  by simp

lemma hwaddr_aton_loop_aton2:
  "hwaddr_aton_loop (Suc n) s = (0, addr) \<Longrightarrow>
     \<exists>rest. hwaddr_aton2_loop (Suc n) s = (Some rest, addr) \<and> length rest < length s"
proof (induction n arbitrary: s addr)
  case 0
  then show ?case by (auto simp: hex_pair_skip dest: hex_pair_length split: option.splits)
next
  case (Suc n)
  have un: "hwaddr_aton_loop (Suc (Suc n)) s = (case hex_pair s of None \<Rightarrow> (-1, [])
      | Some (v, rest) \<Rightarrow> if peek rest \<noteq> 0x3a then (-1, [v])
          else let (r, bs) = hwaddr_aton_loop (Suc n) (tl rest) in (r, v # bs))"
    by (subst hwaddr_aton_loop.simps(2)) (simp split: option.split)
  from Suc.prems[unfolded un] obtain v rest where hp0: "hex_pair s = Some (v, rest)"
      and pk: "peek rest = 0x3a"
    by (auto split: option.splits if_splits)
  then obtain cs where hp: "hex_pair s = Some (v, rest)" "rest = 0x3a # cs"
    by (cases rest) auto
  with Suc.prems[unfolded un] obtain bs
    where bs: "hwaddr_aton_loop (Suc n) cs = (0, bs)" "addr = v # bs"
    by (auto simp: Let_def simp del: hwaddr_aton_loop.simps split: prod.splits)
  from Suc.IH[OF bs(1)] obtain rest' where
    "hwaddr_aton2_loop (Suc n) rest = (Some rest', bs)" "length rest' < length cs"
    using hp(2) hwaddr_aton2_loop_delim by metis
  moreover have "hwaddr_aton2_loop (Suc (Suc n)) s =
      (let (r, bs) = hwaddr_aton2_loop (Suc n) rest in (r, v # bs))"
    using hp(1) by (subst hwaddr_aton2_loop.simps(2)) (simp add: hex_pair_skip[OF hp(1)])
  ultimately show ?case using hp bs(2) hex_pair_length[OF hp(1)] by simp
qed


section \<open>Claims\<close>

text \<open>\<^verbatim>\<open>inc_byte_array\<close>, which advances the WPA global counter and the EAPOL-Key replay
  counters, adds one to the big-endian number in the array, modulo the size of the array, and keeps
  the array's length.\<close>

theorem inc_byte_array_adds_one:
  "be_val (inc_byte_array counter) = (be_val counter + 1) mod 256 ^ length counter
   \<and> length (inc_byte_array counter) = length counter"
  by (simp add: be_val_inc)

text \<open>Printing a non-empty byte string with \<^verbatim>\<open>wpa_snprintf_hex\<close> (lower case) or
  \<^verbatim>\<open>wpa_snprintf_hex_uppercase\<close> into a buffer with room for two digits per byte and the NUL
  returns the number of digits, keeps the buffer's size, and leaves a C string from which
  \<^verbatim>\<open>hexstr2bin\<close> reads the same bytes back.\<close>

theorem wpa_snprintf_hex_roundtrip:
  assumes "data \<noteq> []" and "2 * length data < length buf"
    and "print = wpa_snprintf_hex \<or> print = wpa_snprintf_hex_uppercase"
  shows "\<exists>out. print buf data = (2 * length data, out) \<and> length out = length buf
     \<and> hexstr2bin (cstr out) (length data) = (0, data)"
  using assms wpa_snprintf_hex'_ok[of data buf] hexstr2bin_text[of _ data "[]"]
  by (auto simp: wpa_snprintf_hex_def wpa_snprintf_hex_uppercase_def) metis+

theorem wpa_snprintf_hex_roundtrip_witness:
  "\<exists>out. wpa_snprintf_hex (replicate 7 0x55) [0xde, 0x0f, 0xa3] = (6, out) \<and> length out = 7
     \<and> hexstr2bin (cstr out) 3 = (0, [0xde, 0x0f, 0xa3])"
  using wpa_snprintf_hex_roundtrip[of "[0xde, 0x0f, 0xa3]" "replicate 7 0x55" wpa_snprintf_hex]
  by (simp add: eval_nat_numeral del: hexstr2bin.simps)

text \<open>Every text that \<^verbatim>\<open>hwaddr_aton\<close> accepts as a MAC address is accepted by
  \<^verbatim>\<open>hwaddr_aton2\<close>, which also allows other delimiters, with the same address and a positive
  number of characters read.\<close>

theorem hwaddr_aton2_extends_hwaddr_aton:
  assumes "hwaddr_aton s = (0, addr)"
  shows "\<exists>n. hwaddr_aton2 s = (n, addr) \<and> 0 < n \<and> n \<le> int (length s)"
proof -
  have "hwaddr_aton_loop (Suc 5) s = (0, addr)"
    using assms by (simp add: hwaddr_aton_def del: hwaddr_aton_loop.simps)
  from hwaddr_aton_loop_aton2[OF this] show ?thesis
    by (auto simp: hwaddr_aton2_def simp del: hwaddr_aton2_loop.simps)
qed

theorem hwaddr_aton2_extends_hwaddr_aton_witness:
  "\<exists>n. hwaddr_aton2 (mac_text False [0, 0x03, 0x7f, 0xa0, 0x1b, 0xff] @ [0x20]) = (n, [0, 0x03, 0x7f, 0xa0, 0x1b, 0xff])
     \<and> 0 < n \<and> n \<le> int (length (mac_text False [0, 0x03, 0x7f, 0xa0, 0x1b, 0xff] @ [0x20]))"
  by (rule hwaddr_aton2_extends_hwaddr_aton)
     (simp add: hwaddr_aton_def hwaddr_aton_loop_text del: hwaddr_aton_loop.simps mac_text.simps)

end
