(* ===== verification/Eapol_Auth.thy ===== *)
theory Eapol_Auth
  imports Byte_Utils
begin

text \<open>
  The IEEE 802.1X authenticator of \<^verbatim>\<open>src/athr-hostap/src/eapol_auth/eapol_auth_sm.c\<close>: per
  station six state machines (Authenticator PAE, Backend Authentication, Reauthentication Timer,
  Key Transmit, Key Receive, Controlled Directions), written there with the macros of
  \<^verbatim>\<open>utils/state_machine.h\<close> and run together by \<^verbatim>\<open>eapol_sm_step_run\<close>.

  State. \<open>eapol_state_machine\<close> is the C struct; the statistics counters are a record of their
  own and a \<^verbatim>\<open>struct wpabuf *\<close> is the optional byte string it holds. The field \<open>out\<close> is a
  ghost: the calls made through the callback table and to the event loop, oldest first;
  \<open>Wpa_authorized\<close> notes in it the port decisions of the WPA authenticator, which reach the
  owner without a call of these machines.

  Environment. The callback table \<^verbatim>\<open>struct eapol_auth_cb\<close> holds function pointers of the
  owner (\<^verbatim>\<open>ap/ieee802_1x.c\<close>), which reach back into the state machine. It is the argument
  \<open>eapol_env\<close>: \<open>env_cb\<close> is the effect of a callback on the state, \<open>env_alive\<close> is
  \<^verbatim>\<open>sta_entry_alive\<close> and \<open>env_eap_step\<close> is \<^verbatim>\<open>eap_server_sm_step\<close>, which sees and
  writes the EAP server's own state and the shared interface \<open>eap_eapol_interface\<close>. What the
  machines rely on is the interface \<open>eapol_owner\<close>.
\<close>

section \<open>Data\<close>

text \<open>\<^verbatim>\<open>os_zalloc\<close> leaves the two port variables at 0, which is none of their enumerators; the
  last constructor of each type is that value.\<close>

datatype PortTypes = ForceUnauthorized | ForceAuthorized | Auto | PortTypes_0
datatype PortState = Unauthorized | Authorized | PortState_0
datatype ControlledDirection = Both | In_dir

datatype auth_pae =
    AUTH_PAE_INITIALIZE | AUTH_PAE_DISCONNECTED | AUTH_PAE_CONNECTING
  | AUTH_PAE_AUTHENTICATING | AUTH_PAE_AUTHENTICATED | AUTH_PAE_ABORTING
  | AUTH_PAE_HELD | AUTH_PAE_FORCE_AUTH | AUTH_PAE_FORCE_UNAUTH | AUTH_PAE_RESTART

datatype be_auth =
    BE_AUTH_REQUEST | BE_AUTH_RESPONSE | BE_AUTH_SUCCESS | BE_AUTH_FAIL
  | BE_AUTH_TIMEOUT | BE_AUTH_IDLE | BE_AUTH_INITIALIZE | BE_AUTH_IGNORE

datatype reauth_timer = REAUTH_TIMER_INITIALIZE | REAUTH_TIMER_REAUTHENTICATE
datatype auth_key_tx = AUTH_KEY_TX_NO_KEY_TRANSMIT | AUTH_KEY_TX_KEY_TRANSMIT
datatype key_rx = KEY_RX_NO_KEY_RECEIVE | KEY_RX_KEY_RECEIVE
datatype ctrl_dir = CTRL_DIR_FORCE_BOTH | CTRL_DIR_IN_OR_BOTH

datatype eapol_event = EAPOL_AUTH_SM_CHANGE | EAPOL_AUTH_REAUTHENTICATE

datatype eapol_act =
    Set_port_authorized bool
  | Eapol_send u8 bytes
  | Aaa_send bytes
  | Finished bool bool
  | Abort_auth
  | Tx_key
  | Eapol_event eapol_event
  | Register_step
  | Register_tick
  | Cancel_tick
  | Cancel_step
  | Wpa_authorized bool

record eap_eapol_interface =
  eapResp :: bool
  eapRespData :: "bytes option"
  portEnabled :: bool
  retransWhile :: int
  eapRestart :: bool
  eapSRTT :: int
  eapRTTVAR :: int
  eapReq :: bool
  eapNoReq :: bool
  eapSuccess :: bool
  eapFail :: bool
  eapTimeout :: bool
  eapReqData :: "bytes option"
  eapKeyData :: "bytes option"
  eapKeyAvailable :: bool
  aaaEapReq :: bool
  aaaEapNoReq :: bool
  aaaSuccess :: bool
  aaaFail :: bool
  aaaEapReqData :: "bytes option"
  aaaEapKeyData :: "bytes option"
  aaaEapKeyAvailable :: bool
  aaaMethodTimeout :: int
  aaaEapResp :: bool
  aaaEapRespData :: "bytes option"
  aaaTimeout :: bool

record eapol_counters =
  authEntersConnecting :: u32
  authEapLogoffsWhileConnecting :: u32
  authEntersAuthenticating :: u32
  authAuthSuccessesWhileAuthenticating :: u32
  authAuthTimeoutsWhileAuthenticating :: u32
  authAuthFailWhileAuthenticating :: u32
  authAuthEapStartsWhileAuthenticating :: u32
  authAuthEapLogoffWhileAuthenticating :: u32
  authAuthReauthsWhileAuthenticated :: u32
  authAuthEapStartsWhileAuthenticated :: u32
  authAuthEapLogoffWhileAuthenticated :: u32
  backendResponses :: u32
  backendAccessChallenges :: u32
  backendOtherRequestsToSupplicant :: u32
  backendAuthSuccesses :: u32
  backendAuthFails :: u32
  dot1xAuthEapolFramesRx :: u32
  dot1xAuthEapolFramesTx :: u32
  dot1xAuthEapolStartFramesRx :: u32
  dot1xAuthEapolLogoffFramesRx :: u32
  dot1xAuthEapolRespIdFramesRx :: u32
  dot1xAuthEapolRespFramesRx :: u32
  dot1xAuthEapolReqIdFramesTx :: u32
  dot1xAuthEapolReqFramesTx :: u32
  dot1xAuthInvalidEapolFramesRx :: u32
  dot1xAuthEapLengthErrorFramesRx :: u32
  dot1xAuthLastEapolFrameVersion :: u32

record 'e eapol_state_machine =
  aWhile :: int
  quietWhile :: int
  reAuthWhen :: int
  authAbort :: bool
  authFail :: bool
  authPortStatus :: PortState
  authStart :: bool
  authTimeout :: bool
  authSuccess :: bool
  eapolEap :: bool
  initialize :: bool
  keyDone :: bool
  keyRun :: bool
  keyTxEnabled :: bool
  portControl :: PortTypes
  portValid :: bool
  reAuthenticate :: bool
  auth_pae_state :: auth_pae
  eapolLogoff :: bool
  eapolStart :: bool
  portMode :: PortTypes
  reAuthCount :: u32
  quietPeriod :: u32
  reAuthMax :: u32
  be_auth_state :: be_auth
  serverTimeout :: u32
  reauth_timer_state :: reauth_timer
  reAuthPeriod :: u32
  reAuthEnabled :: bool
  auth_key_tx_state :: auth_key_tx
  key_rx_state :: key_rx
  rxKey :: bool
  ctrl_dir_state :: ctrl_dir
  adminControlledDirections :: ControlledDirection
  operControlledDirections :: ControlledDirection
  operEdge :: bool
  ctrs :: eapol_counters
  addr :: macaddr
  flags :: u32
  eap_if :: eap_eapol_interface
  radius_identifier :: int
  last_eap_id :: u8
  identity :: "bytes option"
  eap_type_authsrv :: u8
  eap_type_supp :: u8
  radius_class :: "bytes list"
  eapol_key_sign :: "bytes option"
  eapol_key_crypt :: "bytes option"
  eap :: "'e option"
  initializing :: bool
  changed :: bool
  out :: "eapol_act list"

record 'e eapol_env =
  env_cb :: "eapol_act \<Rightarrow> 'e eapol_state_machine \<Rightarrow> 'e eapol_state_machine"
  env_alive :: "'e eapol_state_machine \<Rightarrow> bool"
  env_eap_step :: "'e \<Rightarrow> eap_eapol_interface \<Rightarrow> bool \<times> 'e \<times> eap_eapol_interface"

definition EAPOL_SM_PREAUTH :: u32 where "EAPOL_SM_PREAUTH = 1"
definition EAPOL_SM_WAIT_START :: u32 where "EAPOL_SM_WAIT_START = 2"
definition EAPOL_SM_USES_WPA :: u32 where "EAPOL_SM_USES_WPA = 4"
definition EAPOL_SM_FROM_PMKSA_CACHE :: u32 where "EAPOL_SM_FROM_PMKSA_CACHE = 8"

definition has_flag :: "u32 \<Rightarrow> 'e eapol_state_machine \<Rightarrow> bool" where
  "has_flag f sm \<longleftrightarrow> flags sm AND f \<noteq> 0"

text \<open>Writes to the two sub-structures.\<close>

abbreviation upd_if :: "(eap_eapol_interface \<Rightarrow> eap_eapol_interface) \<Rightarrow> 'e eapol_state_machine \<Rightarrow> 'e eapol_state_machine" where
  "upd_if f sm \<equiv> sm\<lparr>eap_if := f (eap_if sm)\<rparr>"

abbreviation upd_ctr :: "(eapol_counters \<Rightarrow> eapol_counters) \<Rightarrow> 'e eapol_state_machine \<Rightarrow> 'e eapol_state_machine" where
  "upd_ctr f sm \<equiv> sm\<lparr>ctrs := f (ctrs sm)\<rparr>"

text \<open>A call through the callback table, and a call of the event loop.\<close>

definition emit :: "'e eapol_env \<Rightarrow> eapol_act \<Rightarrow> 'e eapol_state_machine \<Rightarrow> 'e eapol_state_machine" where
  "emit E a sm = env_cb E a (sm\<lparr>out := out sm @ [a]\<rparr>)"

definition eloop :: "eapol_act \<Rightarrow> 'e eapol_state_machine \<Rightarrow> 'e eapol_state_machine" where
  "eloop a sm = sm\<lparr>out := out sm @ [a]\<rparr>"

section \<open>Frames to the supplicant\<close>

definition eap_get_id :: "bytes \<Rightarrow> u8" where
  "eap_get_id msg = (if length msg < 4 then 0 else msg ! 1)"

definition eap_get_type :: "bytes \<Rightarrow> u8" where
  "eap_get_type msg = (if length msg < 5 then 0 else msg ! 4)"

definition eapol_auth_tx_canned_eap :: "'e eapol_env \<Rightarrow> bool \<Rightarrow> 'e eapol_state_machine \<Rightarrow> 'e eapol_state_machine" where
  "eapol_auth_tx_canned_eap E success sm =
     (let sm = sm\<lparr>last_eap_id := last_eap_id sm + 1\<rparr>;
          hdr = [if success then 3 else 4, last_eap_id sm] @ WPA_PUT_BE16 4;
          sm = emit E (Eapol_send 0 hdr) sm
      in upd_ctr (\<lambda>c. c\<lparr>dot1xAuthEapolFramesTx := dot1xAuthEapolFramesTx c + 1\<rparr>) sm)"

definition eapol_auth_tx_req :: "'e eapol_env \<Rightarrow> 'e eapol_state_machine \<Rightarrow> 'e eapol_state_machine" where
  "eapol_auth_tx_req E sm =
     (case eapReqData (eap_if sm) of
        None \<Rightarrow> sm
      | Some d \<Rightarrow>
          if length d < 4 then sm
          else if has_flag EAPOL_SM_WAIT_START sm then sm
          else let sm = sm\<lparr>last_eap_id := eap_get_id d\<rparr>;
                   sm = emit E (Eapol_send 0 d) sm;
                   sm = upd_ctr (\<lambda>c. c\<lparr>dot1xAuthEapolFramesTx := dot1xAuthEapolFramesTx c + 1\<rparr>) sm
               in if (case eapReqData (eap_if sm) of None \<Rightarrow> 0 | Some d' \<Rightarrow> eap_get_type d') = 1
                  then upd_ctr (\<lambda>c. c\<lparr>dot1xAuthEapolReqIdFramesTx := dot1xAuthEapolReqIdFramesTx c + 1\<rparr>) sm
                  else upd_ctr (\<lambda>c. c\<lparr>dot1xAuthEapolReqFramesTx := dot1xAuthEapolReqFramesTx c + 1\<rparr>) sm)"

section \<open>Authenticator PAE state machine\<close>

text \<open>\<^verbatim>\<open>SM_ENTRY_MA\<close>: note a change, unless a global rule re-enters the present state, and
  enter the state. The argument \<open>global\<close> tells \<^verbatim>\<open>SM_ENTER_GLOBAL\<close> from \<^verbatim>\<open>SM_ENTER\<close>.\<close>

definition auth_pae_entry :: "bool \<Rightarrow> auth_pae \<Rightarrow> 'e eapol_state_machine \<Rightarrow> 'e eapol_state_machine" where [sm_entry_defs]:
  "auth_pae_entry global st sm =
     sm\<lparr>changed := changed sm \<or> \<not> global \<or> auth_pae_state sm \<noteq> st, auth_pae_state := st\<rparr>"

definition sm_AUTH_PAE_INITIALIZE :: "bool \<Rightarrow> 'e eapol_state_machine \<Rightarrow> 'e eapol_state_machine" where [sm_entry_defs]:
  "sm_AUTH_PAE_INITIALIZE global sm = (auth_pae_entry global AUTH_PAE_INITIALIZE sm)\<lparr>portMode := Auto\<rparr>"

definition sm_AUTH_PAE_DISCONNECTED :: "'e eapol_env \<Rightarrow> bool \<Rightarrow> 'e eapol_state_machine \<Rightarrow> 'e eapol_state_machine" where [sm_entry_defs]:
  "sm_AUTH_PAE_DISCONNECTED E global sm =
     (let from_initialize = (auth_pae_state sm = AUTH_PAE_INITIALIZE);
          sm = (if eapolLogoff sm then
                  if auth_pae_state sm = AUTH_PAE_CONNECTING then
                    upd_ctr (\<lambda>c. c\<lparr>authEapLogoffsWhileConnecting := authEapLogoffsWhileConnecting c + 1\<rparr>) sm
                  else if auth_pae_state sm = AUTH_PAE_AUTHENTICATED then
                    upd_ctr (\<lambda>c. c\<lparr>authAuthEapLogoffWhileAuthenticated := authAuthEapLogoffWhileAuthenticated c + 1\<rparr>) sm
                  else sm
                else sm);
          sm = auth_pae_entry global AUTH_PAE_DISCONNECTED sm;
          sm = emit E (Set_port_authorized False) (sm\<lparr>authPortStatus := Unauthorized\<rparr>);
          sm = sm\<lparr>reAuthCount := 0, eapolLogoff := False\<rparr>
      in if \<not> from_initialize then emit E (Finished False (has_flag EAPOL_SM_PREAUTH sm)) sm else sm)"

definition sm_AUTH_PAE_RESTART :: "bool \<Rightarrow> 'e eapol_state_machine \<Rightarrow> 'e eapol_state_machine" where [sm_entry_defs]:
  "sm_AUTH_PAE_RESTART global sm =
     (let sm = (if auth_pae_state sm = AUTH_PAE_AUTHENTICATED then
                  let sm = (if reAuthenticate sm then upd_ctr (\<lambda>c. c\<lparr>authAuthReauthsWhileAuthenticated := authAuthReauthsWhileAuthenticated c + 1\<rparr>) sm else sm);
                      sm = (if eapolStart sm then upd_ctr (\<lambda>c. c\<lparr>authAuthEapStartsWhileAuthenticated := authAuthEapStartsWhileAuthenticated c + 1\<rparr>) sm else sm)
                  in (if eapolLogoff sm then upd_ctr (\<lambda>c. c\<lparr>authAuthEapLogoffWhileAuthenticated := authAuthEapLogoffWhileAuthenticated c + 1\<rparr>) sm else sm)
                else sm);
          sm = auth_pae_entry global AUTH_PAE_RESTART sm
      in upd_if (\<lambda>i. i\<lparr>eapRestart := True\<rparr>) sm)"

definition sm_AUTH_PAE_CONNECTING :: "bool \<Rightarrow> 'e eapol_state_machine \<Rightarrow> 'e eapol_state_machine" where [sm_entry_defs]:
  "sm_AUTH_PAE_CONNECTING global sm =
     (let sm = (if auth_pae_state sm \<noteq> AUTH_PAE_CONNECTING
                then upd_ctr (\<lambda>c. c\<lparr>authEntersConnecting := authEntersConnecting c + 1\<rparr>) sm else sm);
          sm = auth_pae_entry global AUTH_PAE_CONNECTING sm
      in sm\<lparr>reAuthenticate := False, reAuthCount := reAuthCount sm + 1\<rparr>)"

definition sm_AUTH_PAE_HELD :: "'e eapol_env \<Rightarrow> bool \<Rightarrow> 'e eapol_state_machine \<Rightarrow> 'e eapol_state_machine" where [sm_entry_defs]:
  "sm_AUTH_PAE_HELD E global sm =
     (let sm = (if auth_pae_state sm = AUTH_PAE_AUTHENTICATING \<and> authFail sm
                then upd_ctr (\<lambda>c. c\<lparr>authAuthFailWhileAuthenticating := authAuthFailWhileAuthenticating c + 1\<rparr>) sm else sm);
          sm = auth_pae_entry global AUTH_PAE_HELD sm;
          sm = emit E (Set_port_authorized False) (sm\<lparr>authPortStatus := Unauthorized\<rparr>);
          sm = sm\<lparr>quietWhile := sint (quietPeriod sm), eapolLogoff := False\<rparr>
      in emit E (Finished False (has_flag EAPOL_SM_PREAUTH sm)) sm)"

definition sm_AUTH_PAE_AUTHENTICATED :: "'e eapol_env \<Rightarrow> bool \<Rightarrow> 'e eapol_state_machine \<Rightarrow> 'e eapol_state_machine" where [sm_entry_defs]:
  "sm_AUTH_PAE_AUTHENTICATED E global sm =
     (let sm = (if auth_pae_state sm = AUTH_PAE_AUTHENTICATING \<and> authSuccess sm
                then upd_ctr (\<lambda>c. c\<lparr>authAuthSuccessesWhileAuthenticating := authAuthSuccessesWhileAuthenticating c + 1\<rparr>) sm else sm);
          sm = auth_pae_entry global AUTH_PAE_AUTHENTICATED sm;
          sm = emit E (Set_port_authorized True) (sm\<lparr>authPortStatus := Authorized\<rparr>);
          sm = sm\<lparr>reAuthCount := 0\<rparr>
      in emit E (Finished True (has_flag EAPOL_SM_PREAUTH sm)) sm)"

definition sm_AUTH_PAE_AUTHENTICATING :: "bool \<Rightarrow> 'e eapol_state_machine \<Rightarrow> 'e eapol_state_machine" where [sm_entry_defs]:
  "sm_AUTH_PAE_AUTHENTICATING global sm =
     (auth_pae_entry global AUTH_PAE_AUTHENTICATING sm)\<lparr>eapolStart := False, authSuccess := False,
       authFail := False, authTimeout := False, authStart := True, keyRun := False, keyDone := False\<rparr>"

definition sm_AUTH_PAE_ABORTING :: "bool \<Rightarrow> 'e eapol_state_machine \<Rightarrow> 'e eapol_state_machine" where [sm_entry_defs]:
  "sm_AUTH_PAE_ABORTING global sm =
     (let sm = (if auth_pae_state sm = AUTH_PAE_AUTHENTICATING then
                  let sm = (if authTimeout sm then upd_ctr (\<lambda>c. c\<lparr>authAuthTimeoutsWhileAuthenticating := authAuthTimeoutsWhileAuthenticating c + 1\<rparr>) sm else sm);
                      sm = (if eapolStart sm then upd_ctr (\<lambda>c. c\<lparr>authAuthEapStartsWhileAuthenticating := authAuthEapStartsWhileAuthenticating c + 1\<rparr>) sm else sm)
                  in (if eapolLogoff sm then upd_ctr (\<lambda>c. c\<lparr>authAuthEapLogoffWhileAuthenticating := authAuthEapLogoffWhileAuthenticating c + 1\<rparr>) sm else sm)
                else sm);
          sm = auth_pae_entry global AUTH_PAE_ABORTING sm
      in sm\<lparr>authAbort := True, keyRun := False, keyDone := False\<rparr>)"

definition sm_AUTH_PAE_FORCE_AUTH :: "'e eapol_env \<Rightarrow> bool \<Rightarrow> 'e eapol_state_machine \<Rightarrow> 'e eapol_state_machine" where [sm_entry_defs]:
  "sm_AUTH_PAE_FORCE_AUTH E global sm =
     (let sm = auth_pae_entry global AUTH_PAE_FORCE_AUTH sm;
          sm = emit E (Set_port_authorized True) (sm\<lparr>authPortStatus := Authorized\<rparr>);
          sm = sm\<lparr>portMode := ForceAuthorized, eapolStart := False\<rparr>
      in eapol_auth_tx_canned_eap E True sm)"

definition sm_AUTH_PAE_FORCE_UNAUTH :: "'e eapol_env \<Rightarrow> bool \<Rightarrow> 'e eapol_state_machine \<Rightarrow> 'e eapol_state_machine" where [sm_entry_defs]:
  "sm_AUTH_PAE_FORCE_UNAUTH E global sm =
     (let sm = auth_pae_entry global AUTH_PAE_FORCE_UNAUTH sm;
          sm = emit E (Set_port_authorized False) (sm\<lparr>authPortStatus := Unauthorized\<rparr>);
          sm = sm\<lparr>portMode := ForceUnauthorized, eapolStart := False\<rparr>
      in eapol_auth_tx_canned_eap E False sm)"

definition sm_AUTH_PAE_Step :: "'e eapol_env \<Rightarrow> 'e eapol_state_machine \<Rightarrow> 'e eapol_state_machine" where [sm_step_defs]:
  "sm_AUTH_PAE_Step E sm =
     (if (portControl sm = Auto \<and> portMode sm \<noteq> portControl sm) \<or> initialize sm \<or> \<not> portEnabled (eap_if sm)
      then sm_AUTH_PAE_INITIALIZE True sm
      else if portControl sm = ForceAuthorized \<and> portMode sm \<noteq> portControl sm \<and>
        \<not> (initialize sm \<or> \<not> portEnabled (eap_if sm))
      then sm_AUTH_PAE_FORCE_AUTH E True sm
      else if portControl sm = ForceUnauthorized \<and> portMode sm \<noteq> portControl sm \<and>
        \<not> (initialize sm \<or> \<not> portEnabled (eap_if sm))
      then sm_AUTH_PAE_FORCE_UNAUTH E True sm
      else case auth_pae_state sm of
        AUTH_PAE_INITIALIZE \<Rightarrow> sm_AUTH_PAE_DISCONNECTED E False sm
      | AUTH_PAE_DISCONNECTED \<Rightarrow> sm_AUTH_PAE_RESTART False sm
      | AUTH_PAE_RESTART \<Rightarrow>
          (if \<not> eapRestart (eap_if sm) then sm_AUTH_PAE_CONNECTING False sm else sm)
      | AUTH_PAE_HELD \<Rightarrow> (if quietWhile sm = 0 then sm_AUTH_PAE_RESTART False sm else sm)
      | AUTH_PAE_CONNECTING \<Rightarrow>
          (if eapolLogoff sm \<or> reAuthCount sm > reAuthMax sm then sm_AUTH_PAE_DISCONNECTED E False sm
           else if (eapReq (eap_if sm) \<and> reAuthCount sm \<le> reAuthMax sm) \<or> eapSuccess (eap_if sm) \<or>
             eapFail (eap_if sm)
           then sm_AUTH_PAE_AUTHENTICATING False sm else sm)
      | AUTH_PAE_AUTHENTICATED \<Rightarrow>
          (if eapolStart sm \<or> reAuthenticate sm then sm_AUTH_PAE_RESTART False sm
           else if eapolLogoff sm \<or> \<not> portValid sm then sm_AUTH_PAE_DISCONNECTED E False sm else sm)
      | AUTH_PAE_AUTHENTICATING \<Rightarrow>
          (if authSuccess sm \<and> portValid sm then sm_AUTH_PAE_AUTHENTICATED E False sm
           else if authFail sm \<or> (keyDone sm \<and> \<not> portValid sm) then sm_AUTH_PAE_HELD E False sm
           else if eapolStart sm \<or> eapolLogoff sm \<or> authTimeout sm then sm_AUTH_PAE_ABORTING False sm
           else sm)
      | AUTH_PAE_ABORTING \<Rightarrow>
          (if eapolLogoff sm \<and> \<not> authAbort sm then sm_AUTH_PAE_DISCONNECTED E False sm
           else if \<not> eapolLogoff sm \<and> \<not> authAbort sm then sm_AUTH_PAE_RESTART False sm else sm)
      | AUTH_PAE_FORCE_AUTH \<Rightarrow> (if eapolStart sm then sm_AUTH_PAE_FORCE_AUTH E False sm else sm)
      | AUTH_PAE_FORCE_UNAUTH \<Rightarrow> (if eapolStart sm then sm_AUTH_PAE_FORCE_UNAUTH E False sm else sm))"

section \<open>Backend Authentication state machine\<close>

definition be_auth_entry :: "bool \<Rightarrow> be_auth \<Rightarrow> 'e eapol_state_machine \<Rightarrow> 'e eapol_state_machine" where [sm_entry_defs]:
  "be_auth_entry global st sm =
     sm\<lparr>changed := changed sm \<or> \<not> global \<or> be_auth_state sm \<noteq> st, be_auth_state := st\<rparr>"

definition sm_BE_AUTH_INITIALIZE :: "'e eapol_env \<Rightarrow> bool \<Rightarrow> 'e eapol_state_machine \<Rightarrow> 'e eapol_state_machine" where [sm_entry_defs]:
  "sm_BE_AUTH_INITIALIZE E global sm =
     (let sm = emit E Abort_auth (be_auth_entry global BE_AUTH_INITIALIZE sm)
      in (upd_if (\<lambda>i. i\<lparr>eapNoReq := False\<rparr>) sm)\<lparr>authAbort := False\<rparr>)"

definition sm_BE_AUTH_REQUEST :: "'e eapol_env \<Rightarrow> bool \<Rightarrow> 'e eapol_state_machine \<Rightarrow> 'e eapol_state_machine" where [sm_entry_defs]:
  "sm_BE_AUTH_REQUEST E global sm =
     (let sm = eapol_auth_tx_req E (be_auth_entry global BE_AUTH_REQUEST sm);
          sm = upd_if (\<lambda>i. i\<lparr>eapReq := False\<rparr>) sm;
          sm = upd_ctr (\<lambda>c. c\<lparr>backendOtherRequestsToSupplicant := backendOtherRequestsToSupplicant c + 1\<rparr>) sm
      in sm\<lparr>eapolEap := False\<rparr>)"

definition sm_BE_AUTH_RESPONSE :: "bool \<Rightarrow> 'e eapol_state_machine \<Rightarrow> 'e eapol_state_machine" where [sm_entry_defs]:
  "sm_BE_AUTH_RESPONSE global sm =
     (let sm = (be_auth_entry global BE_AUTH_RESPONSE sm)\<lparr>authTimeout := False, eapolEap := False\<rparr>;
          sm = upd_if (\<lambda>i. i\<lparr>eapNoReq := False\<rparr>) sm;
          sm = sm\<lparr>aWhile := sint (serverTimeout sm)\<rparr>;
          sm = upd_if (\<lambda>i. i\<lparr>eapResp := True\<rparr>) sm
      in upd_ctr (\<lambda>c. c\<lparr>backendResponses := backendResponses c + 1\<rparr>) sm)"

definition sm_BE_AUTH_SUCCESS :: "'e eapol_env \<Rightarrow> bool \<Rightarrow> 'e eapol_state_machine \<Rightarrow> 'e eapol_state_machine" where [sm_entry_defs]:
  "sm_BE_AUTH_SUCCESS E global sm =
     (eapol_auth_tx_req E (be_auth_entry global BE_AUTH_SUCCESS sm))\<lparr>authSuccess := True, keyRun := True\<rparr>"

definition sm_BE_AUTH_FAIL :: "'e eapol_env \<Rightarrow> bool \<Rightarrow> 'e eapol_state_machine \<Rightarrow> 'e eapol_state_machine" where [sm_entry_defs]:
  "sm_BE_AUTH_FAIL E global sm =
     (eapol_auth_tx_req E (be_auth_entry global BE_AUTH_FAIL sm))\<lparr>authFail := True\<rparr>"

definition sm_BE_AUTH_TIMEOUT :: "bool \<Rightarrow> 'e eapol_state_machine \<Rightarrow> 'e eapol_state_machine" where [sm_entry_defs]:
  "sm_BE_AUTH_TIMEOUT global sm = (be_auth_entry global BE_AUTH_TIMEOUT sm)\<lparr>authTimeout := True\<rparr>"

definition sm_BE_AUTH_IDLE :: "bool \<Rightarrow> 'e eapol_state_machine \<Rightarrow> 'e eapol_state_machine" where [sm_entry_defs]:
  "sm_BE_AUTH_IDLE global sm = (be_auth_entry global BE_AUTH_IDLE sm)\<lparr>authStart := False\<rparr>"

definition sm_BE_AUTH_IGNORE :: "bool \<Rightarrow> 'e eapol_state_machine \<Rightarrow> 'e eapol_state_machine" where [sm_entry_defs]:
  "sm_BE_AUTH_IGNORE global sm =
     upd_if (\<lambda>i. i\<lparr>eapNoReq := False\<rparr>) (be_auth_entry global BE_AUTH_IGNORE sm)"

definition sm_BE_AUTH_Step :: "'e eapol_env \<Rightarrow> 'e eapol_state_machine \<Rightarrow> 'e eapol_state_machine" where [sm_step_defs]:
  "sm_BE_AUTH_Step E sm =
     (if portControl sm \<noteq> Auto \<or> initialize sm \<or> authAbort sm then sm_BE_AUTH_INITIALIZE E True sm
      else case be_auth_state sm of
        BE_AUTH_INITIALIZE \<Rightarrow> sm_BE_AUTH_IDLE False sm
      | BE_AUTH_REQUEST \<Rightarrow>
          (if eapolEap sm then sm_BE_AUTH_RESPONSE False sm
           else if eapReq (eap_if sm) then sm_BE_AUTH_REQUEST E False sm
           else if eapTimeout (eap_if sm) then sm_BE_AUTH_TIMEOUT False sm else sm)
      | BE_AUTH_RESPONSE \<Rightarrow>
          (let sm = (if eapNoReq (eap_if sm) then sm_BE_AUTH_IGNORE False sm else sm)
           in if eapReq (eap_if sm) then
                sm_BE_AUTH_REQUEST E False
                  (upd_ctr (\<lambda>c. c\<lparr>backendAccessChallenges := backendAccessChallenges c + 1\<rparr>) sm)
              else if aWhile sm = 0 then sm_BE_AUTH_TIMEOUT False sm
              else if eapFail (eap_if sm) then
                sm_BE_AUTH_FAIL E False
                  (upd_ctr (\<lambda>c. c\<lparr>backendAuthFails := backendAuthFails c + 1\<rparr>) sm)
              else if eapSuccess (eap_if sm) then
                sm_BE_AUTH_SUCCESS E False
                  (upd_ctr (\<lambda>c. c\<lparr>backendAuthSuccesses := backendAuthSuccesses c + 1\<rparr>) sm)
              else sm)
      | BE_AUTH_SUCCESS \<Rightarrow> sm_BE_AUTH_IDLE False sm
      | BE_AUTH_FAIL \<Rightarrow> sm_BE_AUTH_IDLE False sm
      | BE_AUTH_TIMEOUT \<Rightarrow> sm_BE_AUTH_IDLE False sm
      | BE_AUTH_IDLE \<Rightarrow>
          (if eapFail (eap_if sm) \<and> authStart sm then sm_BE_AUTH_FAIL E False sm
           else if eapReq (eap_if sm) \<and> authStart sm then sm_BE_AUTH_REQUEST E False sm
           else if eapSuccess (eap_if sm) \<and> authStart sm then sm_BE_AUTH_SUCCESS E False sm else sm)
      | BE_AUTH_IGNORE \<Rightarrow>
          (if eapolEap sm then sm_BE_AUTH_RESPONSE False sm
           else if eapReq (eap_if sm) then sm_BE_AUTH_REQUEST E False sm
           else if eapTimeout (eap_if sm) then sm_BE_AUTH_TIMEOUT False sm else sm))"

section \<open>Reauthentication timer, key transmit, key receive, controlled directions\<close>

definition reauth_timer_entry :: "bool \<Rightarrow> reauth_timer \<Rightarrow> 'e eapol_state_machine \<Rightarrow> 'e eapol_state_machine" where [sm_entry_defs]:
  "reauth_timer_entry global st sm =
     sm\<lparr>changed := changed sm \<or> \<not> global \<or> reauth_timer_state sm \<noteq> st, reauth_timer_state := st\<rparr>"

definition sm_REAUTH_TIMER_INITIALIZE :: "bool \<Rightarrow> 'e eapol_state_machine \<Rightarrow> 'e eapol_state_machine" where [sm_entry_defs]:
  "sm_REAUTH_TIMER_INITIALIZE global sm =
     (reauth_timer_entry global REAUTH_TIMER_INITIALIZE sm)\<lparr>reAuthWhen := sint (reAuthPeriod sm)\<rparr>"

definition sm_REAUTH_TIMER_REAUTHENTICATE :: "'e eapol_env \<Rightarrow> bool \<Rightarrow> 'e eapol_state_machine \<Rightarrow> 'e eapol_state_machine" where [sm_entry_defs]:
  "sm_REAUTH_TIMER_REAUTHENTICATE E global sm =
     emit E (Eapol_event EAPOL_AUTH_REAUTHENTICATE)
       ((reauth_timer_entry global REAUTH_TIMER_REAUTHENTICATE sm)\<lparr>reAuthenticate := True\<rparr>)"

definition sm_REAUTH_TIMER_Step :: "'e eapol_env \<Rightarrow> 'e eapol_state_machine \<Rightarrow> 'e eapol_state_machine" where [sm_step_defs]:
  "sm_REAUTH_TIMER_Step E sm =
     (if portControl sm \<noteq> Auto \<or> initialize sm \<or> authPortStatus sm = Unauthorized \<or> \<not> reAuthEnabled sm
      then sm_REAUTH_TIMER_INITIALIZE True sm
      else case reauth_timer_state sm of
        REAUTH_TIMER_INITIALIZE \<Rightarrow>
          (if reAuthWhen sm = 0 then sm_REAUTH_TIMER_REAUTHENTICATE E False sm else sm)
      | REAUTH_TIMER_REAUTHENTICATE \<Rightarrow> sm_REAUTH_TIMER_INITIALIZE False sm)"

definition auth_key_tx_entry :: "bool \<Rightarrow> auth_key_tx \<Rightarrow> 'e eapol_state_machine \<Rightarrow> 'e eapol_state_machine" where [sm_entry_defs]:
  "auth_key_tx_entry global st sm =
     sm\<lparr>changed := changed sm \<or> \<not> global \<or> auth_key_tx_state sm \<noteq> st, auth_key_tx_state := st\<rparr>"

definition sm_AUTH_KEY_TX_NO_KEY_TRANSMIT :: "bool \<Rightarrow> 'e eapol_state_machine \<Rightarrow> 'e eapol_state_machine" where [sm_entry_defs]:
  "sm_AUTH_KEY_TX_NO_KEY_TRANSMIT global sm = auth_key_tx_entry global AUTH_KEY_TX_NO_KEY_TRANSMIT sm"

definition sm_AUTH_KEY_TX_KEY_TRANSMIT :: "'e eapol_env \<Rightarrow> bool \<Rightarrow> 'e eapol_state_machine \<Rightarrow> 'e eapol_state_machine" where [sm_entry_defs]:
  "sm_AUTH_KEY_TX_KEY_TRANSMIT E global sm =
     (let sm = emit E Tx_key (auth_key_tx_entry global AUTH_KEY_TX_KEY_TRANSMIT sm)
      in (upd_if (\<lambda>i. i\<lparr>eapKeyAvailable := False\<rparr>) sm)\<lparr>keyDone := True\<rparr>)"

definition sm_AUTH_KEY_TX_Step :: "'e eapol_env \<Rightarrow> 'e eapol_state_machine \<Rightarrow> 'e eapol_state_machine" where [sm_step_defs]:
  "sm_AUTH_KEY_TX_Step E sm =
     (if initialize sm \<or> portControl sm \<noteq> Auto then sm_AUTH_KEY_TX_NO_KEY_TRANSMIT True sm
      else case auth_key_tx_state sm of
        AUTH_KEY_TX_NO_KEY_TRANSMIT \<Rightarrow>
          (if keyTxEnabled sm \<and> eapKeyAvailable (eap_if sm) \<and> keyRun sm \<and> \<not> has_flag EAPOL_SM_USES_WPA sm
           then sm_AUTH_KEY_TX_KEY_TRANSMIT E False sm else sm)
      | AUTH_KEY_TX_KEY_TRANSMIT \<Rightarrow>
          (if \<not> keyTxEnabled sm \<or> \<not> keyRun sm then sm_AUTH_KEY_TX_NO_KEY_TRANSMIT False sm
           else if eapKeyAvailable (eap_if sm) then sm_AUTH_KEY_TX_KEY_TRANSMIT E False sm else sm))"

definition key_rx_entry :: "bool \<Rightarrow> key_rx \<Rightarrow> 'e eapol_state_machine \<Rightarrow> 'e eapol_state_machine" where [sm_entry_defs]:
  "key_rx_entry global st sm =
     sm\<lparr>changed := changed sm \<or> \<not> global \<or> key_rx_state sm \<noteq> st, key_rx_state := st\<rparr>"

definition sm_KEY_RX_NO_KEY_RECEIVE :: "bool \<Rightarrow> 'e eapol_state_machine \<Rightarrow> 'e eapol_state_machine" where [sm_entry_defs]:
  "sm_KEY_RX_NO_KEY_RECEIVE global sm = key_rx_entry global KEY_RX_NO_KEY_RECEIVE sm"

definition sm_KEY_RX_KEY_RECEIVE :: "bool \<Rightarrow> 'e eapol_state_machine \<Rightarrow> 'e eapol_state_machine" where [sm_entry_defs]:
  "sm_KEY_RX_KEY_RECEIVE global sm = (key_rx_entry global KEY_RX_KEY_RECEIVE sm)\<lparr>rxKey := False\<rparr>"

definition sm_KEY_RX_Step :: "'e eapol_state_machine \<Rightarrow> 'e eapol_state_machine" where [sm_step_defs]:
  "sm_KEY_RX_Step sm =
     (if initialize sm \<or> \<not> portEnabled (eap_if sm) then sm_KEY_RX_NO_KEY_RECEIVE True sm
      else case key_rx_state sm of
        KEY_RX_NO_KEY_RECEIVE \<Rightarrow> (if rxKey sm then sm_KEY_RX_KEY_RECEIVE False sm else sm)
      | KEY_RX_KEY_RECEIVE \<Rightarrow> (if rxKey sm then sm_KEY_RX_KEY_RECEIVE False sm else sm))"

definition ctrl_dir_entry :: "bool \<Rightarrow> ctrl_dir \<Rightarrow> 'e eapol_state_machine \<Rightarrow> 'e eapol_state_machine" where [sm_entry_defs]:
  "ctrl_dir_entry global st sm =
     sm\<lparr>changed := changed sm \<or> \<not> global \<or> ctrl_dir_state sm \<noteq> st, ctrl_dir_state := st\<rparr>"

definition sm_CTRL_DIR_FORCE_BOTH :: "bool \<Rightarrow> 'e eapol_state_machine \<Rightarrow> 'e eapol_state_machine" where [sm_entry_defs]:
  "sm_CTRL_DIR_FORCE_BOTH global sm =
     (ctrl_dir_entry global CTRL_DIR_FORCE_BOTH sm)\<lparr>operControlledDirections := Both\<rparr>"

definition sm_CTRL_DIR_IN_OR_BOTH :: "bool \<Rightarrow> 'e eapol_state_machine \<Rightarrow> 'e eapol_state_machine" where [sm_entry_defs]:
  "sm_CTRL_DIR_IN_OR_BOTH global sm =
     (ctrl_dir_entry global CTRL_DIR_IN_OR_BOTH sm)\<lparr>operControlledDirections := adminControlledDirections sm\<rparr>"

definition sm_CTRL_DIR_Step :: "'e eapol_state_machine \<Rightarrow> 'e eapol_state_machine" where [sm_step_defs]:
  "sm_CTRL_DIR_Step sm =
     (if initialize sm then sm_CTRL_DIR_IN_OR_BOTH True sm
      else case ctrl_dir_state sm of
        CTRL_DIR_FORCE_BOTH \<Rightarrow>
          (if portEnabled (eap_if sm) \<and> operEdge sm then sm_CTRL_DIR_IN_OR_BOTH False sm else sm)
      | CTRL_DIR_IN_OR_BOTH \<Rightarrow>
          (let sm = (if operControlledDirections sm \<noteq> adminControlledDirections sm
                     then sm_CTRL_DIR_IN_OR_BOTH False sm else sm)
           in if \<not> portEnabled (eap_if sm) \<or> \<not> operEdge sm then sm_CTRL_DIR_FORCE_BOTH False sm else sm))"

section \<open>Running the state machines\<close>

text \<open>\<^verbatim>\<open>eapol_auth_step\<close> does not run the machines; it asks the event loop to do so.\<close>

definition eapol_auth_step :: "'e eapol_state_machine \<Rightarrow> 'e eapol_state_machine" where
  "eapol_auth_step sm = eloop Register_step sm"

text \<open>One round of the loop of \<^verbatim>\<open>eapol_sm_step_run\<close>: each machine after the first runs only while
  the station entry is alive or the machines are being initialised.\<close>

definition guarded :: "'e eapol_env \<Rightarrow> ('e eapol_state_machine \<Rightarrow> 'e eapol_state_machine) \<Rightarrow> 'e eapol_state_machine \<Rightarrow> 'e eapol_state_machine" where
  "guarded E f sm = (if initializing sm \<or> env_alive E sm then f sm else sm)"

definition eapol_sm_pass :: "'e eapol_env \<Rightarrow> 'e eapol_state_machine \<Rightarrow> 'e eapol_state_machine" where
  "eapol_sm_pass E sm =
     (let sm = sm_AUTH_PAE_Step E sm;
          sm = guarded E (sm_BE_AUTH_Step E) sm;
          sm = guarded E (sm_REAUTH_TIMER_Step E) sm;
          sm = guarded E (sm_AUTH_KEY_TX_Step E) sm;
          sm = guarded E sm_KEY_RX_Step sm
      in guarded E sm_CTRL_DIR_Step sm)"

definition states_differ :: "'e eapol_state_machine \<Rightarrow> 'e eapol_state_machine \<Rightarrow> bool" where
  "states_differ a b \<longleftrightarrow>
     auth_pae_state a \<noteq> auth_pae_state b \<or> be_auth_state a \<noteq> be_auth_state b \<or>
     reauth_timer_state a \<noteq> reauth_timer_state b \<or> auth_key_tx_state a \<noteq> auth_key_tx_state b \<or>
     key_rx_state a \<noteq> key_rx_state b \<or> ctrl_dir_state a \<noteq> ctrl_dir_state b"

definition eap_server_sm_step :: "'e eapol_env \<Rightarrow> 'e \<Rightarrow> 'e eapol_state_machine \<Rightarrow> bool \<times> 'e eapol_state_machine" where
  "eap_server_sm_step E e sm =
     (let (r, e', i) = env_eap_step E e (eap_if sm) in (r, sm\<lparr>eap := Some e', eap_if := i\<rparr>))"

text \<open>The tail of \<^verbatim>\<open>eapol_sm_step_run\<close> once neither the machines nor the EAP server change.\<close>

definition eapol_sm_change_event :: "'e eapol_env \<Rightarrow> 'e eapol_state_machine \<Rightarrow> 'e eapol_state_machine" where
  "eapol_sm_change_event E sm =
     (if env_alive E sm then emit E (Eapol_event EAPOL_AUTH_SM_CHANGE) sm else sm)"

definition eapol_sm_aaa_tail :: "'e eapol_env \<Rightarrow> 'e eapol_state_machine \<Rightarrow> 'e eapol_state_machine" where
  "eapol_sm_aaa_tail E sm =
     (if aaaEapResp (eap_if sm) then
        let sm = upd_if (\<lambda>i. i\<lparr>aaaEapResp := False\<rparr>) sm
        in case aaaEapRespData (eap_if sm) of
             None \<Rightarrow> sm
           | Some d \<Rightarrow> eapol_sm_change_event E (emit E (Aaa_send d) sm)
      else eapol_sm_change_event E sm)"

text \<open>The loop itself. The argument is the source's own \<^verbatim>\<open>max_steps\<close>, so no fuel is added.\<close>

fun eapol_sm_step_loop :: "'e eapol_env \<Rightarrow> nat \<Rightarrow> 'e eapol_state_machine \<Rightarrow> 'e eapol_state_machine" where
  "eapol_sm_step_loop E 0 sm = eapol_auth_step sm"
| "eapol_sm_step_loop E (Suc n) sm =
     (let sm' = eapol_sm_pass E sm
      in if states_differ sm sm' then eapol_sm_step_loop E n sm'
         else case (if env_alive E sm' then eap sm' else None) of
             None \<Rightarrow> eapol_sm_change_event E sm'
           | Some e \<Rightarrow>
               (let (r, sm'') = eap_server_sm_step E e sm'
                in if r then eapol_sm_step_loop E n sm'' else eapol_sm_aaa_tail E sm''))"

definition eapol_sm_step_run :: "'e eapol_env \<Rightarrow> 'e eapol_state_machine \<Rightarrow> 'e eapol_state_machine" where
  "eapol_sm_step_run E sm = eapol_sm_step_loop E 100 sm"

definition eapol_sm_step_cb :: "'e eapol_env \<Rightarrow> 'e eapol_state_machine \<Rightarrow> 'e eapol_state_machine" where
  "eapol_sm_step_cb E sm = eapol_sm_step_run E sm"

definition dec_timer :: "int \<Rightarrow> int" where
  "dec_timer t = (if t > 0 then t - 1 else t)"

definition eapol_port_timers_tick :: "'e eapol_env \<Rightarrow> 'e eapol_state_machine \<Rightarrow> 'e eapol_state_machine" where
  "eapol_port_timers_tick E sm =
     (let sm = sm\<lparr>aWhile := dec_timer (aWhile sm), quietWhile := dec_timer (quietWhile sm),
                 reAuthWhen := dec_timer (reAuthWhen sm)\<rparr>;
          sm = upd_if (\<lambda>i. i\<lparr>retransWhile := dec_timer (retransWhile i)\<rparr>) sm;
          sm = eapol_sm_step_run E sm
      in eloop Register_tick sm)"

definition eapol_auth_initialize :: "'e eapol_env \<Rightarrow> 'e eapol_state_machine \<Rightarrow> 'e eapol_state_machine" where
  "eapol_auth_initialize E sm =
     (let sm = sm\<lparr>initializing := True, initialize := True\<rparr>;
          sm = eapol_sm_step_run E sm;
          sm = eapol_sm_step_run E (sm\<lparr>initialize := False\<rparr>);
          sm = sm\<lparr>initializing := False\<rparr>
      in eloop Register_tick (eloop Cancel_tick sm))"


section \<open>Allocation and release\<close>

record eapol_auth_config =
  eap_reauth_period :: int
  conf_wpa :: int
  individual_wep_key_len :: int

record eapol_authenticator =
  ea_conf :: eapol_auth_config
  default_wep_key :: "bytes option"
  default_wep_key_idx :: u8

definition zero_counters :: eapol_counters where
  "zero_counters =
     \<lparr>authEntersConnecting = 0, authEapLogoffsWhileConnecting = 0, authEntersAuthenticating = 0,
      authAuthSuccessesWhileAuthenticating = 0, authAuthTimeoutsWhileAuthenticating = 0,
      authAuthFailWhileAuthenticating = 0, authAuthEapStartsWhileAuthenticating = 0,
      authAuthEapLogoffWhileAuthenticating = 0, authAuthReauthsWhileAuthenticated = 0,
      authAuthEapStartsWhileAuthenticated = 0, authAuthEapLogoffWhileAuthenticated = 0,
      backendResponses = 0, backendAccessChallenges = 0, backendOtherRequestsToSupplicant = 0,
      backendAuthSuccesses = 0, backendAuthFails = 0, dot1xAuthEapolFramesRx = 0,
      dot1xAuthEapolFramesTx = 0, dot1xAuthEapolStartFramesRx = 0, dot1xAuthEapolLogoffFramesRx = 0,
      dot1xAuthEapolRespIdFramesRx = 0, dot1xAuthEapolRespFramesRx = 0,
      dot1xAuthEapolReqIdFramesTx = 0, dot1xAuthEapolReqFramesTx = 0,
      dot1xAuthInvalidEapolFramesRx = 0, dot1xAuthEapLengthErrorFramesRx = 0,
      dot1xAuthLastEapolFrameVersion = 0\<rparr>"

text \<open>The assignments of \<^verbatim>\<open>eapol_auth_alloc\<close> on the zeroed struct, up to the call of
  \<^verbatim>\<open>eap_server_sm_init\<close>, and its result: the EAP server instance and the interface that
  belongs to it.\<close>

definition eapol_auth_fresh :: "eapol_authenticator \<Rightarrow> macaddr \<Rightarrow> u32 \<Rightarrow> 'e \<Rightarrow> eap_eapol_interface \<Rightarrow> 'e eapol_state_machine" where
  "eapol_auth_fresh eapol a fl e i =
     \<lparr>aWhile = 0, quietWhile = 0, reAuthWhen = 0, authAbort = False, authFail = False,
      authPortStatus = PortState_0, authStart = False, authTimeout = False, authSuccess = False,
      eapolEap = False, initialize = False, keyDone = False, keyRun = False,
      keyTxEnabled = (conf_wpa (ea_conf eapol) = 0 \<and>
        (default_wep_key eapol \<noteq> None \<or> individual_wep_key_len (ea_conf eapol) > 0)),
      portControl = Auto, portValid = (conf_wpa (ea_conf eapol) = 0), reAuthenticate = False,
      auth_pae_state = AUTH_PAE_INITIALIZE, eapolLogoff = False, eapolStart = False,
      portMode = PortTypes_0, reAuthCount = 0, quietPeriod = 60, reAuthMax = 2,
      be_auth_state = BE_AUTH_INITIALIZE, serverTimeout = 30,
      reauth_timer_state = REAUTH_TIMER_INITIALIZE,
      reAuthPeriod = word_of_int (eap_reauth_period (ea_conf eapol)),
      reAuthEnabled = (eap_reauth_period (ea_conf eapol) > 0),
      auth_key_tx_state = AUTH_KEY_TX_NO_KEY_TRANSMIT, key_rx_state = KEY_RX_NO_KEY_RECEIVE,
      rxKey = False, ctrl_dir_state = CTRL_DIR_IN_OR_BOTH, adminControlledDirections = Both,
      operControlledDirections = Both, operEdge = False, ctrs = zero_counters, addr = a, flags = fl,
      eap_if = i, radius_identifier = -1, last_eap_id = 0, identity = None, eap_type_authsrv = 0,
      eap_type_supp = 0, radius_class = [], eapol_key_sign = None, eapol_key_crypt = None,
      eap = Some e, initializing = False, changed = False, out = []\<rparr>"

text \<open>\<open>mem\<close> tells whether \<^verbatim>\<open>os_zalloc\<close> succeeds, \<open>eap_init\<close> is the result of
  \<^verbatim>\<open>eap_server_sm_init\<close>.\<close>

definition eapol_auth_alloc ::
    "'e eapol_env \<Rightarrow> eapol_authenticator option \<Rightarrow> bool \<Rightarrow> ('e \<times> eap_eapol_interface) option \<Rightarrow>
     macaddr \<Rightarrow> u32 \<Rightarrow> 'e eapol_state_machine option" where
  "eapol_auth_alloc E eapol mem eap_init a fl =
     (case eapol of
        None \<Rightarrow> None
      | Some eapol \<Rightarrow>
          if \<not> mem then None
          else case eap_init of
            None \<Rightarrow> None
          | Some (e, i) \<Rightarrow> Some (eapol_auth_initialize E (eapol_auth_fresh eapol a fl e i)))"

text \<open>\<^verbatim>\<open>eapol_auth_free\<close> leaves no state machine, only the calls that cancel its timers.\<close>

definition eapol_auth_free :: "'e eapol_state_machine option \<Rightarrow> eapol_act list" where
  "eapol_auth_free sm = (case sm of None \<Rightarrow> [] | Some _ \<Rightarrow> [Cancel_tick, Cancel_step])"

text \<open>\<^verbatim>\<open>eapol_auth_eap_pending_cb\<close>; \<open>is_mine\<close> is the comparison of the context pointer with
  \<^verbatim>\<open>sm->eap\<close>, and \<open>pend\<close> is \<^verbatim>\<open>eap_sm_pending_cb\<close>.\<close>

definition eapol_auth_eap_pending_cb ::
    "('e \<Rightarrow> 'e) \<Rightarrow> bool \<Rightarrow> 'e eapol_state_machine option \<Rightarrow> int \<times> 'e eapol_state_machine option" where
  "eapol_auth_eap_pending_cb pend is_mine sm =
     (case sm of
        None \<Rightarrow> (-1, None)
      | Some s \<Rightarrow>
          if \<not> is_mine then (-1, sm)
          else (0, Some (eapol_auth_step (s\<lparr>eap := map_option pend (eap s)\<rparr>))))"

definition eapol_auth_init :: "bool \<Rightarrow> eapol_auth_config option \<Rightarrow> eapol_authenticator option" where
  "eapol_auth_init mem cloned =
     (if \<not> mem then None
      else case cloned of
        None \<Rightarrow> None
      | Some c \<Rightarrow> Some \<lparr>ea_conf = c, default_wep_key = None,
          default_wep_key_idx = (if individual_wep_key_len c > 0 then 1 else 0)\<rparr>)"

end
