(* ===== verification/Eapol_Auth_Props.thy ===== *)
theory Eapol_Auth_Props
  imports Eapol_Auth
begin

text \<open>
  Invariants of the 802.1X authenticator. The interface \<open>eapol_owner\<close> states what the callback
  table may do to a state machine; under it the theory shows how the port status, the PAE state and
  the calls made to the owner stay in step, and when the port can be opened.
\<close>

section \<open>The port as its owner sees it\<close>

fun ports :: "eapol_act list \<Rightarrow> bool list" where
  "ports [] = []"
| "ports (Set_port_authorized b # as) = b # ports as"
| "ports (_ # as) = ports as"

lemma ports_append [simp]: "ports (xs @ ys) = ports xs @ ports ys"
  by (induction xs rule: ports.induct) auto

lemma ports_Cons: "ports (a # as) = ports [a] @ ports as"
  using ports_append[of "[a]" as] by simp

section \<open>Interface: the owner of the state machines\<close>

text \<open>The callbacks of \<^verbatim>\<open>ap/ieee802_1x.c\<close> and, through the EAPOL events, of
  \<^verbatim>\<open>ap/wpa_auth_glue.c\<close> write \<^verbatim>\<open>keyRun\<close>, \<^verbatim>\<open>keyDone\<close>, \<^verbatim>\<open>portControl\<close>,
  \<^verbatim>\<open>portValid\<close>, the identity, the RADIUS identifier, variables of the EAP interface and
  counters, may ask the event loop for another run of the machines, and do nothing else to a state
  machine.\<close>

locale eapol_owner =
  fixes E :: "'e eapol_env"
  assumes owner_writes: "\<exists>kr kd pc pv i c idt rid xs. env_cb E a s =
    s\<lparr>keyRun := kr, keyDone := kd, portControl := pc, portValid := pv, ctrs := c, eap_if := i,
      identity := idt, radius_identifier := rid, out := out s @ xs\<rparr> \<and> ports xs = []"
begin

lemma emit_form: "\<exists>kr kd pc pv i c idt rid xs. emit E a s =
    s\<lparr>keyRun := kr, keyDone := kd, portControl := pc, portValid := pv, ctrs := c, eap_if := i,
      identity := idt, radius_identifier := rid, out := out s @ a # xs\<rparr> \<and> ports xs = []"
proof -
  obtain kr kd pc pv i c idt rid xs where "env_cb E a (s\<lparr>out := out s @ [a]\<rparr>) =
      s\<lparr>out := out s @ [a]\<rparr>\<lparr>keyRun := kr, keyDone := kd, portControl := pc, portValid := pv, ctrs := c,
        eap_if := i, identity := idt, radius_identifier := rid, out := out (s\<lparr>out := out s @ [a]\<rparr>) @ xs\<rparr>" and xs: "ports xs = []"
    using owner_writes[of a "s\<lparr>out := out s @ [a]\<rparr>"] by blast
  then have "emit E a s = s\<lparr>keyRun := kr, keyDone := kd, portControl := pc, portValid := pv, ctrs := c,
      eap_if := i, identity := idt, radius_identifier := rid, out := out s @ a # xs\<rparr>"
    by (simp add: emit_def)
  with xs show ?thesis by blast
qed

lemma emit_frame [simp]:
  "auth_pae_state (emit E a s) = auth_pae_state s"
  "be_auth_state (emit E a s) = be_auth_state s"
  "reauth_timer_state (emit E a s) = reauth_timer_state s"
  "auth_key_tx_state (emit E a s) = auth_key_tx_state s"
  "key_rx_state (emit E a s) = key_rx_state s"
  "ctrl_dir_state (emit E a s) = ctrl_dir_state s"
  "authPortStatus (emit E a s) = authPortStatus s"
  "portMode (emit E a s) = portMode s"
  "reAuthCount (emit E a s) = reAuthCount s"
  "reAuthMax (emit E a s) = reAuthMax s"
  "authSuccess (emit E a s) = authSuccess s"
  "authFail (emit E a s) = authFail s"
  "authStart (emit E a s) = authStart s"
  "initialize (emit E a s) = initialize s"
  "initializing (emit E a s) = initializing s"
  "quietWhile (emit E a s) = quietWhile s"
  "reAuthWhen (emit E a s) = reAuthWhen s"
  "flags (emit E a s) = flags s"
  "keyTxEnabled (emit E a s) = keyTxEnabled s"
  "ports (out (emit E a s)) = ports (out s @ [a])"
proof -
  obtain kr kd pc pv i c idt rid xs where eq: "emit E a s =
      s\<lparr>keyRun := kr, keyDone := kd, portControl := pc, portValid := pv, ctrs := c, eap_if := i,
        identity := idt, radius_identifier := rid, out := out s @ a # xs\<rparr>" and xs: "ports xs = []"
    using emit_form[of a s] by blast
  show "auth_pae_state (emit E a s) = auth_pae_state s"
    "be_auth_state (emit E a s) = be_auth_state s"
    "reauth_timer_state (emit E a s) = reauth_timer_state s"
    "auth_key_tx_state (emit E a s) = auth_key_tx_state s"
    "key_rx_state (emit E a s) = key_rx_state s"
    "ctrl_dir_state (emit E a s) = ctrl_dir_state s"
    "authPortStatus (emit E a s) = authPortStatus s"
    "portMode (emit E a s) = portMode s"
    "reAuthCount (emit E a s) = reAuthCount s"
    "reAuthMax (emit E a s) = reAuthMax s"
    "authSuccess (emit E a s) = authSuccess s"
    "authFail (emit E a s) = authFail s"
    "authStart (emit E a s) = authStart s"
    "initialize (emit E a s) = initialize s"
    "initializing (emit E a s) = initializing s"
    "quietWhile (emit E a s) = quietWhile s"
    "reAuthWhen (emit E a s) = reAuthWhen s"
    "flags (emit E a s) = flags s"
    "keyTxEnabled (emit E a s) = keyTxEnabled s"
    "ports (out (emit E a s)) = ports (out s @ [a])"
    unfolding eq by (simp_all add: ports_Cons[of a xs] xs)
qed

end

section \<open>The invariant of the PAE machine\<close>

text \<open>What the invariant speaks about: the PAE state, the port status, the port mode, the
  reauthentication counter with its limit, and the port decisions told to the owner.\<close>

type_synonym pae_view = "auth_pae \<times> PortState \<times> PortTypes \<times> u32 \<times> u32 \<times> bool list"

definition pae_view :: "'e eapol_state_machine \<Rightarrow> pae_view" where
  "pae_view s = (auth_pae_state s, authPortStatus s, portMode s, reAuthCount s, reAuthMax s, ports (out s))"

lemma pae_view_other [simp]:
  "pae_view (s\<lparr>ctrs := x0\<rparr>) = pae_view s"
  "pae_view (s\<lparr>initialize := x1\<rparr>) = pae_view s"
  "pae_view (s\<lparr>initializing := x2\<rparr>) = pae_view s"
  "pae_view (s\<lparr>eap_if := x3\<rparr>) = pae_view s"
  "pae_view (s\<lparr>aWhile := x4\<rparr>) = pae_view s"
  "pae_view (s\<lparr>quietWhile := x5\<rparr>) = pae_view s"
  "pae_view (s\<lparr>reAuthWhen := x6\<rparr>) = pae_view s"
  "pae_view (s\<lparr>eapolStart := x7\<rparr>) = pae_view s"
  "pae_view (s\<lparr>eapolLogoff := x8\<rparr>) = pae_view s"
  "pae_view (s\<lparr>eapolEap := x9\<rparr>) = pae_view s"
  "pae_view (s\<lparr>portValid := x10\<rparr>) = pae_view s"
  "pae_view (s\<lparr>portControl := x11\<rparr>) = pae_view s"
  "pae_view (s\<lparr>keyRun := x12\<rparr>) = pae_view s"
  "pae_view (s\<lparr>keyDone := x13\<rparr>) = pae_view s"
  "pae_view (s\<lparr>reAuthenticate := x14\<rparr>) = pae_view s"
  "pae_view (s\<lparr>flags := x15\<rparr>) = pae_view s"
  "pae_view (s\<lparr>eap := x16\<rparr>) = pae_view s"
  "pae_view (s\<lparr>authSuccess := x17\<rparr>) = pae_view s"
  "pae_view (s\<lparr>be_auth_state := x18\<rparr>) = pae_view s"
  "pae_view (s\<lparr>eap_type_supp := x19\<rparr>) = pae_view s"
  by (simp_all add: pae_view_def)

definition port_told :: "bool list \<Rightarrow> PortState" where
  "port_told bs = (if bs = [] then PortState_0 else if last bs then Authorized else Unauthorized)"

lemma port_told_snoc [simp]: "port_told (bs @ [b]) = (if b then Authorized else Unauthorized)"
  by (simp add: port_told_def)

fun port_ok :: "pae_view \<Rightarrow> bool" where
  "port_ok (st, port, mode, count, limit, told) \<longleftrightarrow>
     (st = AUTH_PAE_AUTHENTICATED \<or> st = AUTH_PAE_FORCE_AUTH \<longrightarrow> port = Authorized) \<and>
     (st = AUTH_PAE_DISCONNECTED \<or> st = AUTH_PAE_HELD \<or> st = AUTH_PAE_FORCE_UNAUTH \<longrightarrow> port = Unauthorized) \<and>
     port = port_told told \<and>
     (mode = ForceAuthorized \<longleftrightarrow> st = AUTH_PAE_FORCE_AUTH) \<and>
     (mode = ForceUnauthorized \<longleftrightarrow> st = AUTH_PAE_FORCE_UNAUTH)"

fun count_ok :: "pae_view \<Rightarrow> bool" where
  "count_ok (st, port, mode, count, limit, told) \<longleftrightarrow>
     unat limit + 1 < 2 ^ 32 \<and>
     unat count \<le> unat limit +
       (if st = AUTH_PAE_INITIALIZE \<or> st = AUTH_PAE_CONNECTING \<or> st = AUTH_PAE_FORCE_AUTH
          \<or> st = AUTH_PAE_FORCE_UNAUTH then 1 else 0)"

definition port_inv :: "'e eapol_state_machine \<Rightarrow> bool" where
  "port_inv s \<longleftrightarrow> port_ok (pae_view s)"

definition count_inv :: "'e eapol_state_machine \<Rightarrow> bool" where
  "count_inv s \<longleftrightarrow> count_ok (pae_view s)"

section \<open>Induction over a run\<close>

text \<open>What every machine keeps, a round keeps; what a round and the calls around it keep, a run, a
  timer tick and the initialisation keep.\<close>

lemma pass_keeps:
  assumes "\<And>s. P s \<Longrightarrow> P (sm_AUTH_PAE_Step E s)" "\<And>s. P s \<Longrightarrow> P (sm_BE_AUTH_Step E s)"
    "\<And>s. P s \<Longrightarrow> P (sm_REAUTH_TIMER_Step E s)" "\<And>s. P s \<Longrightarrow> P (sm_AUTH_KEY_TX_Step E s)"
    "\<And>s. P s \<Longrightarrow> P (sm_KEY_RX_Step s)" "\<And>s. P s \<Longrightarrow> P (sm_CTRL_DIR_Step s)" "P s"
  shows "P (eapol_sm_pass E s)"
  using assms by (simp add: eapol_sm_pass_def Let_def guarded_def)

lemma loop_keeps:
  assumes "\<And>s. P s \<Longrightarrow> P (eapol_sm_pass E s)"
    and "\<And>s e r t. P s \<Longrightarrow> eap_server_sm_step E e s = (r, t) \<Longrightarrow> P t"
    and "\<And>s. P s \<Longrightarrow> P (eapol_sm_change_event E s)" "\<And>s. P s \<Longrightarrow> P (eapol_sm_aaa_tail E s)"
    and "\<And>s. P s \<Longrightarrow> P (eapol_auth_step s)" "P s"
  shows "P (eapol_sm_step_loop E n s)"
  using assms(6)
proof (induction n arbitrary: s)
  case 0
  then show ?case by (simp add: assms(5))
next
  case (Suc n)
  let ?t = "eapol_sm_pass E s"
  have t: "P ?t" using Suc.prems by (rule assms(1))
  show ?case
  proof (cases "states_differ s ?t \<or> (if env_alive E ?t then eap ?t else None) = None")
    case True
    then show ?thesis using Suc.IH[OF t] assms(3)[OF t] by (auto simp: Let_def)
  next
    case False
    then obtain e where e: "(if env_alive E ?t then eap ?t else None) = Some e" by auto
    obtain r u where u: "eap_server_sm_step E e ?t = (r, u)" by force
    then have "P u" using t assms(2) by blast
    then show ?thesis using False e u Suc.IH assms(4) by (simp add: Let_def)
  qed
qed

lemma tick_keeps:
  assumes "\<And>n s. P s \<Longrightarrow> P (eapol_sm_step_loop E n s)"
    and "\<And>s x y z w. P s \<Longrightarrow> P (upd_if (\<lambda>i. i\<lparr>retransWhile := w\<rparr>) (s\<lparr>aWhile := x, quietWhile := y, reAuthWhen := z\<rparr>))"
    and "\<And>s. P s \<Longrightarrow> P (eloop Register_tick s)" "P s"
  shows "P (eapol_port_timers_tick E s)"
  using assms(1)[OF assms(2)[OF assms(4)]] assms(3)
  by (simp add: eapol_port_timers_tick_def Let_def eapol_sm_step_run_def)

lemma initialize_keeps:
  assumes "\<And>n s. P s \<Longrightarrow> P (eapol_sm_step_loop E n s)"
    and "\<And>s x y. P s \<Longrightarrow> P (s\<lparr>initializing := x, initialize := y\<rparr>)"
    and "\<And>s. P s \<Longrightarrow> P (s\<lparr>initialize := False\<rparr>)" "\<And>s. P s \<Longrightarrow> P (s\<lparr>initializing := False\<rparr>)"
    and "\<And>s. P s \<Longrightarrow> P (eloop Register_tick (eloop Cancel_tick s))" "P s"
  shows "P (eapol_auth_initialize E s)"
  using assms by (simp add: eapol_auth_initialize_def Let_def eapol_sm_step_run_def)

lemma pae_view_loop [simp]: "ports [a] = [] \<Longrightarrow> pae_view (eloop a s) = pae_view s"
  by (simp add: eloop_def pae_view_def)

context eapol_owner
begin

lemma tx_canned_frame [simp]:
  "auth_pae_state (eapol_auth_tx_canned_eap E b s) = auth_pae_state s"
  "be_auth_state (eapol_auth_tx_canned_eap E b s) = be_auth_state s"
  "reauth_timer_state (eapol_auth_tx_canned_eap E b s) = reauth_timer_state s"
  "auth_key_tx_state (eapol_auth_tx_canned_eap E b s) = auth_key_tx_state s"
  "key_rx_state (eapol_auth_tx_canned_eap E b s) = key_rx_state s"
  "ctrl_dir_state (eapol_auth_tx_canned_eap E b s) = ctrl_dir_state s"
  "authPortStatus (eapol_auth_tx_canned_eap E b s) = authPortStatus s"
  "portMode (eapol_auth_tx_canned_eap E b s) = portMode s"
  "reAuthCount (eapol_auth_tx_canned_eap E b s) = reAuthCount s"
  "reAuthMax (eapol_auth_tx_canned_eap E b s) = reAuthMax s"
  "authSuccess (eapol_auth_tx_canned_eap E b s) = authSuccess s"
  "authFail (eapol_auth_tx_canned_eap E b s) = authFail s"
  "authStart (eapol_auth_tx_canned_eap E b s) = authStart s"
  "initialize (eapol_auth_tx_canned_eap E b s) = initialize s"
  "initializing (eapol_auth_tx_canned_eap E b s) = initializing s"
  "quietWhile (eapol_auth_tx_canned_eap E b s) = quietWhile s"
  "reAuthWhen (eapol_auth_tx_canned_eap E b s) = reAuthWhen s"
  "flags (eapol_auth_tx_canned_eap E b s) = flags s"
  "keyTxEnabled (eapol_auth_tx_canned_eap E b s) = keyTxEnabled s"
  "ports (out (eapol_auth_tx_canned_eap E b s)) = ports (out s)"
  by (simp_all add: eapol_auth_tx_canned_eap_def Let_def)

lemma tx_req_frame [simp]:
  "auth_pae_state (eapol_auth_tx_req E s) = auth_pae_state s"
  "be_auth_state (eapol_auth_tx_req E s) = be_auth_state s"
  "reauth_timer_state (eapol_auth_tx_req E s) = reauth_timer_state s"
  "auth_key_tx_state (eapol_auth_tx_req E s) = auth_key_tx_state s"
  "key_rx_state (eapol_auth_tx_req E s) = key_rx_state s"
  "ctrl_dir_state (eapol_auth_tx_req E s) = ctrl_dir_state s"
  "authPortStatus (eapol_auth_tx_req E s) = authPortStatus s"
  "portMode (eapol_auth_tx_req E s) = portMode s"
  "reAuthCount (eapol_auth_tx_req E s) = reAuthCount s"
  "reAuthMax (eapol_auth_tx_req E s) = reAuthMax s"
  "authSuccess (eapol_auth_tx_req E s) = authSuccess s"
  "authFail (eapol_auth_tx_req E s) = authFail s"
  "authStart (eapol_auth_tx_req E s) = authStart s"
  "initialize (eapol_auth_tx_req E s) = initialize s"
  "initializing (eapol_auth_tx_req E s) = initializing s"
  "quietWhile (eapol_auth_tx_req E s) = quietWhile s"
  "reAuthWhen (eapol_auth_tx_req E s) = reAuthWhen s"
  "flags (eapol_auth_tx_req E s) = flags s"
  "keyTxEnabled (eapol_auth_tx_req E s) = keyTxEnabled s"
  "ports (out (eapol_auth_tx_req E s)) = ports (out s)"
  by (simp_all add: eapol_auth_tx_req_def Let_def split: option.split)

text \<open>The machines other than the PAE machine do not touch what its invariant speaks about.\<close>

lemma BE_AUTH_entry_view [simp]:
  "pae_view (sm_BE_AUTH_INITIALIZE E g s) = pae_view s"
  "pae_view (sm_BE_AUTH_REQUEST E g s) = pae_view s"
  "pae_view (sm_BE_AUTH_RESPONSE g s) = pae_view s"
  "pae_view (sm_BE_AUTH_SUCCESS E g s) = pae_view s"
  "pae_view (sm_BE_AUTH_FAIL E g s) = pae_view s"
  "pae_view (sm_BE_AUTH_TIMEOUT g s) = pae_view s"
  "pae_view (sm_BE_AUTH_IDLE g s) = pae_view s"
  "pae_view (sm_BE_AUTH_IGNORE g s) = pae_view s"
  by (simp_all add: pae_view_def sm_entry_defs Let_def)

lemma BE_AUTH_Step_view [simp]: "pae_view (sm_BE_AUTH_Step E s) = pae_view s"
  by (simp add: sm_BE_AUTH_Step_def Let_def split: be_auth.split)

lemma REAUTH_TIMER_Step_view [simp]: "pae_view (sm_REAUTH_TIMER_Step E s) = pae_view s"
  by (simp add: sm_REAUTH_TIMER_Step_def sm_entry_defs pae_view_def Let_def split: reauth_timer.split)

lemma AUTH_KEY_TX_Step_view [simp]: "pae_view (sm_AUTH_KEY_TX_Step E s) = pae_view s"
  by (simp add: sm_AUTH_KEY_TX_Step_def sm_entry_defs pae_view_def Let_def split: auth_key_tx.split)

lemma KEY_RX_Step_view [simp]: "pae_view (sm_KEY_RX_Step s) = pae_view s"
  by (simp add: sm_KEY_RX_Step_def sm_entry_defs pae_view_def Let_def split: key_rx.split)

lemma CTRL_DIR_Step_view [simp]: "pae_view (sm_CTRL_DIR_Step s) = pae_view s"
  by (simp add: sm_CTRL_DIR_Step_def sm_entry_defs pae_view_def Let_def split: ctrl_dir.split)

lemma guarded_view: "(\<And>s. pae_view (f s) = pae_view s) \<Longrightarrow> pae_view (guarded E f s) = pae_view s"
  by (simp add: guarded_def)

lemma pass_view: "pae_view (eapol_sm_pass E s) = pae_view (sm_AUTH_PAE_Step E s)"
  by (simp add: eapol_sm_pass_def Let_def guarded_view)

text \<open>What the entry actions of the PAE machine do to it.\<close>

lemma AUTH_PAE_entry_view:
  "pae_view (sm_AUTH_PAE_INITIALIZE g s) =
     (AUTH_PAE_INITIALIZE, authPortStatus s, Auto, reAuthCount s, reAuthMax s, ports (out s))"
  "pae_view (sm_AUTH_PAE_DISCONNECTED E g s) =
     (AUTH_PAE_DISCONNECTED, Unauthorized, portMode s, 0, reAuthMax s, ports (out s) @ [False])"
  "pae_view (sm_AUTH_PAE_RESTART g s) =
     (AUTH_PAE_RESTART, authPortStatus s, portMode s, reAuthCount s, reAuthMax s, ports (out s))"
  "pae_view (sm_AUTH_PAE_CONNECTING g s) =
     (AUTH_PAE_CONNECTING, authPortStatus s, portMode s, reAuthCount s + 1, reAuthMax s, ports (out s))"
  "pae_view (sm_AUTH_PAE_HELD E g s) =
     (AUTH_PAE_HELD, Unauthorized, portMode s, reAuthCount s, reAuthMax s, ports (out s) @ [False])"
  "pae_view (sm_AUTH_PAE_AUTHENTICATED E g s) =
     (AUTH_PAE_AUTHENTICATED, Authorized, portMode s, 0, reAuthMax s, ports (out s) @ [True])"
  "pae_view (sm_AUTH_PAE_AUTHENTICATING g s) =
     (AUTH_PAE_AUTHENTICATING, authPortStatus s, portMode s, reAuthCount s, reAuthMax s, ports (out s))"
  "pae_view (sm_AUTH_PAE_ABORTING g s) =
     (AUTH_PAE_ABORTING, authPortStatus s, portMode s, reAuthCount s, reAuthMax s, ports (out s))"
  "pae_view (sm_AUTH_PAE_FORCE_AUTH E g s) =
     (AUTH_PAE_FORCE_AUTH, Authorized, ForceAuthorized, reAuthCount s, reAuthMax s, ports (out s) @ [True])"
  "pae_view (sm_AUTH_PAE_FORCE_UNAUTH E g s) =
     (AUTH_PAE_FORCE_UNAUTH, Unauthorized, ForceUnauthorized, reAuthCount s, reAuthMax s, ports (out s) @ [False])"
  by (simp_all add: pae_view_def sm_entry_defs Let_def)

lemma unat_count_step: "unat (c :: u32) \<le> unat m \<Longrightarrow> unat m < 4294967295 \<Longrightarrow> unat (c + 1) \<le> Suc (unat m)"
  by (simp add: unat_word_ariths)

lemma AUTH_PAE_Step_port: "port_inv s \<Longrightarrow> port_inv (sm_AUTH_PAE_Step E s)"
  unfolding port_inv_def
  by (cases "auth_pae_state s")
     (auto simp: sm_AUTH_PAE_Step_def AUTH_PAE_entry_view pae_view_def[of s])

lemma AUTH_PAE_Step_count: "count_inv s \<Longrightarrow> count_inv (sm_AUTH_PAE_Step E s)"
  unfolding count_inv_def
  by (cases "auth_pae_state s")
     (auto simp: sm_AUTH_PAE_Step_def AUTH_PAE_entry_view pae_view_def[of s] word_le_nat_alt
        word_less_nat_alt intro: unat_count_step)

lemma change_event_view [simp]: "pae_view (eapol_sm_change_event E s) = pae_view s"
  by (simp add: eapol_sm_change_event_def pae_view_def)

lemma aaa_tail_view [simp]: "pae_view (eapol_sm_aaa_tail E s) = pae_view s"
  by (simp add: eapol_sm_aaa_tail_def eapol_sm_change_event_def pae_view_def Let_def split: option.split)

lemma auth_step_view [simp]: "pae_view (eapol_auth_step s) = pae_view s"
  by (simp add: eapol_auth_step_def eloop_def pae_view_def)

lemma eap_step_view: "eap_server_sm_step E e s = (r, t) \<Longrightarrow> pae_view t = pae_view s"
  by (auto simp: eap_server_sm_step_def pae_view_def Let_def split: prod.splits)

text \<open>A property of the view that the PAE machine keeps holds throughout a run.\<close>

lemma view_loop:
  assumes "\<And>s. Q (pae_view s) \<Longrightarrow> Q (pae_view (sm_AUTH_PAE_Step E s))" "Q (pae_view s)"
  shows "Q (pae_view (eapol_sm_step_loop E n s))"
  using assms by (intro loop_keeps[of "\<lambda>s. Q (pae_view s)"]) (simp_all add: pass_view eap_step_view)

lemma view_tick:
  assumes "\<And>s. Q (pae_view s) \<Longrightarrow> Q (pae_view (sm_AUTH_PAE_Step E s))" "Q (pae_view s)"
  shows "Q (pae_view (eapol_port_timers_tick E s))"
  using assms view_loop[of Q] by (intro tick_keeps[of "\<lambda>s. Q (pae_view s)"]) simp_all

lemma view_initialize:
  assumes "\<And>s. Q (pae_view s) \<Longrightarrow> Q (pae_view (sm_AUTH_PAE_Step E s))" "Q (pae_view s)"
  shows "Q (pae_view (eapol_auth_initialize E s))"
  using assms view_loop[of Q] by (intro initialize_keeps[of "\<lambda>s. Q (pae_view s)"]) simp_all

lemma port_runs:
  assumes "port_inv s"
  shows "port_inv (eapol_sm_step_run E s)" "port_inv (eapol_port_timers_tick E s)"
    "port_inv (eapol_auth_initialize E s)"
  using assms view_loop[of port_ok] view_tick[of port_ok] view_initialize[of port_ok] AUTH_PAE_Step_port
  by (auto simp: port_inv_def eapol_sm_step_run_def)

lemma count_runs:
  assumes "count_inv s"
  shows "count_inv (eapol_sm_step_run E s)" "count_inv (eapol_port_timers_tick E s)"
    "count_inv (eapol_auth_initialize E s)"
  using assms view_loop[of count_ok] view_tick[of count_ok] view_initialize[of count_ok] AUTH_PAE_Step_count
  by (auto simp: count_inv_def eapol_sm_step_run_def)

end


section \<open>A port that stays closed\<close>

text \<open>The owner in a BSS that never forces a port open or closed: its callbacks leave the port under
  automatic control and do not report EAP success in the EAP server's place.\<close>

locale eapol_auto_owner = eapol_owner +
  assumes owner_auto: "portControl s = Auto \<Longrightarrow> portControl (env_cb E a s) = Auto"
    and owner_eap: "eapSuccess (eap_if (env_cb E a s)) = eapSuccess (eap_if s)"

text \<open>The port is under automatic control, and the PAE machine has noticed.\<close>

definition auto_mode :: "'e eapol_state_machine \<Rightarrow> bool" where
  "auto_mode s \<longleftrightarrow> portControl s = Auto \<and> portMode s \<noteq> ForceAuthorized \<and> portMode s \<noteq> ForceUnauthorized \<and>
     auth_pae_state s \<notin> {AUTH_PAE_FORCE_AUTH, AUTH_PAE_FORCE_UNAUTH}"

text \<open>The port is under automatic control, no machine is in a state with an open port, and the port
  was never opened.\<close>

definition port_closed :: "'e eapol_state_machine \<Rightarrow> bool" where
  "port_closed s \<longleftrightarrow>
     auto_mode s \<and> auth_pae_state s \<noteq> AUTH_PAE_AUTHENTICATED \<and>
     True \<notin> set (ports (out s)) \<and> Wpa_authorized True \<notin> set (out s)"

text \<open>Nobody has reported success: neither the EAP server nor the backend machine.\<close>

definition no_success :: "'e eapol_state_machine \<Rightarrow> bool" where
  "no_success s \<longleftrightarrow> port_closed s \<and> \<not> authSuccess s \<and> \<not> eapSuccess (eap_if s)"

text \<open>The WPA authenticator has not declared the port valid.\<close>

definition not_valid :: "'e eapol_state_machine \<Rightarrow> bool" where
  "not_valid s \<longleftrightarrow> port_closed s \<and> \<not> portValid s"

context eapol_auto_owner
begin

lemma emit_auto [simp]:
  "portControl s = Auto \<Longrightarrow> portControl (emit E a s) = Auto"
  "eapSuccess (eap_if (emit E a s)) = eapSuccess (eap_if s)"
  by (simp_all add: emit_def owner_auto owner_eap)

lemma tx_auto [simp]:
  "portControl s = Auto \<Longrightarrow> portControl (eapol_auth_tx_canned_eap E b s) = Auto"
  "eapSuccess (eap_if (eapol_auth_tx_canned_eap E b s)) = eapSuccess (eap_if s)"
  "portControl s = Auto \<Longrightarrow> portControl (eapol_auth_tx_req E s) = Auto"
  "eapSuccess (eap_if (eapol_auth_tx_req E s)) = eapSuccess (eap_if s)"
  by (simp_all add: eapol_auth_tx_canned_eap_def eapol_auth_tx_req_def Let_def split: option.split)

lemmas auto_defs = auto_mode_def sm_entry_defs Let_def

lemma auto_mode_steps:
  assumes "auto_mode s"
  shows "auto_mode (sm_AUTH_PAE_Step E s)" "auto_mode (sm_BE_AUTH_Step E s)"
    "auto_mode (sm_REAUTH_TIMER_Step E s)" "auto_mode (sm_AUTH_KEY_TX_Step E s)"
    "auto_mode (sm_KEY_RX_Step s)" "auto_mode (sm_CTRL_DIR_Step s)"
proof -
  show "auto_mode (sm_AUTH_PAE_Step E s)"
    using assms by (cases "auth_pae_state s") (simp_all add: sm_AUTH_PAE_Step_def auto_defs)
  show "auto_mode (sm_BE_AUTH_Step E s)"
    using assms by (cases "be_auth_state s") (simp_all add: sm_BE_AUTH_Step_def auto_defs)
qed (use assms in \<open>simp_all add: sm_step_defs auto_defs
        split: reauth_timer.split auth_key_tx.split key_rx.split ctrl_dir.split\<close>)

lemma auto_mode_loop: "auto_mode s \<Longrightarrow> auto_mode (eapol_sm_step_loop E n s)"
proof (rule loop_keeps[of auto_mode])
  show "auto_mode (eapol_sm_pass E s)" if "auto_mode s" for s
    using that by (intro pass_keeps[of auto_mode]) (auto intro: auto_mode_steps)
  show "auto_mode t" if "auto_mode s" "eap_server_sm_step E e s = (r, t)" for s e r t
    using that by (auto simp: eap_server_sm_step_def auto_mode_def Let_def split: prod.splits)
qed (simp_all add: eapol_sm_change_event_def eapol_sm_aaa_tail_def eapol_auth_step_def eloop_def auto_defs
      split: option.split)

lemma auto_mode_runs:
  assumes "auto_mode s"
  shows "auto_mode (eapol_sm_step_run E s)" "auto_mode (eapol_port_timers_tick E s)"
    "auto_mode (eapol_auth_initialize E s)"
proof -
  show "auto_mode (eapol_sm_step_run E s)" using auto_mode_loop assms by (simp add: eapol_sm_step_run_def)
  show "auto_mode (eapol_port_timers_tick E s)"
    by (rule tick_keeps[of auto_mode, OF auto_mode_loop _ _ assms]) (simp_all add: auto_defs eloop_def)
  show "auto_mode (eapol_auth_initialize E s)"
    by (rule initialize_keeps[of auto_mode, OF auto_mode_loop _ _ _ _ assms]) (simp_all add: auto_defs eloop_def)
qed

end

text \<open>The owner while the WPA authenticator does not open the port on its own.\<close>

locale eapol_quiet_owner = eapol_auto_owner +
  assumes owner_quiet: "Wpa_authorized True \<notin> set (out s) \<Longrightarrow> Wpa_authorized True \<notin> set (out (env_cb E a s))"
begin

lemma emit_quiet [simp]:
  "Wpa_authorized True \<notin> set (out s) \<Longrightarrow> a \<noteq> Wpa_authorized True \<Longrightarrow>
     Wpa_authorized True \<notin> set (out (emit E a s))"
  by (simp add: emit_def owner_quiet)

lemma tx_quiet [simp]:
  "Wpa_authorized True \<notin> set (out s) \<Longrightarrow> Wpa_authorized True \<notin> set (out (eapol_auth_tx_canned_eap E b s))"
  "Wpa_authorized True \<notin> set (out s) \<Longrightarrow> Wpa_authorized True \<notin> set (out (eapol_auth_tx_req E s))"
  by (simp_all add: eapol_auth_tx_canned_eap_def eapol_auth_tx_req_def Let_def split: option.split)

lemmas closed_defs = no_success_def port_closed_def auto_mode_def sm_entry_defs Let_def

lemma no_success_PAE: "no_success s \<Longrightarrow> no_success (sm_AUTH_PAE_Step E s)"
  by (cases "auth_pae_state s") (simp_all add: sm_AUTH_PAE_Step_def closed_defs)

lemma no_success_BE: "no_success s \<Longrightarrow> no_success (sm_BE_AUTH_Step E s)"
  by (cases "be_auth_state s") (simp_all add: sm_BE_AUTH_Step_def closed_defs)

lemma no_success_others:
  assumes "no_success s"
  shows "no_success (sm_REAUTH_TIMER_Step E s)" "no_success (sm_AUTH_KEY_TX_Step E s)"
    "no_success (sm_KEY_RX_Step s)" "no_success (sm_CTRL_DIR_Step s)"
  using assms
  by (simp_all add: sm_step_defs closed_defs split: reauth_timer.split auth_key_tx.split key_rx.split ctrl_dir.split)

lemma no_success_calls:
  assumes "no_success s"
  shows "no_success (eapol_sm_change_event E s)" "no_success (eapol_sm_aaa_tail E s)" "no_success (eapol_auth_step s)"
  using assms
  by (simp_all add: eapol_sm_change_event_def eapol_sm_aaa_tail_def eapol_auth_step_def eloop_def closed_defs
      split: option.split)

text \<open>An EAP server that does not report success keeps the port closed.\<close>

lemma no_success_loop:
  assumes "\<And>e i. \<not> eapSuccess i \<Longrightarrow> \<not> eapSuccess (snd (snd (env_eap_step E e i)))" and "no_success s"
  shows "no_success (eapol_sm_step_loop E n s)"
proof (rule loop_keeps[of no_success, OF _ _ no_success_calls assms(2)])
  show "no_success (eapol_sm_pass E s)" if "no_success s" for s
    using that by (intro pass_keeps[of no_success]) (auto intro: no_success_PAE no_success_BE no_success_others)
  show "no_success t" if "no_success s" "eap_server_sm_step E e s = (r, t)" for s e r t
    using that assms(1)[of "eap_if s" e]
    by (auto simp: eap_server_sm_step_def no_success_def port_closed_def auto_mode_def Let_def split: prod.splits)
qed auto

lemma no_success_runs:
  assumes "\<And>e i. \<not> eapSuccess i \<Longrightarrow> \<not> eapSuccess (snd (snd (env_eap_step E e i)))" and "no_success s"
  shows "no_success (eapol_sm_step_run E s)" "no_success (eapol_port_timers_tick E s)"
    "no_success (eapol_auth_initialize E s)"
proof -
  note loop = no_success_loop[OF assms(1)]
  show "no_success (eapol_sm_step_run E s)" using loop assms(2) by (simp add: eapol_sm_step_run_def)
  show "no_success (eapol_port_timers_tick E s)"
    by (rule tick_keeps[of no_success, OF loop _ _ assms(2)]) (simp_all add: closed_defs eloop_def)
  show "no_success (eapol_auth_initialize E s)"
    by (rule initialize_keeps[of no_success, OF loop _ _ _ _ assms(2)]) (simp_all add: closed_defs eloop_def)
qed

end


text \<open>The owner while the WPA authenticator withholds its approval.\<close>

locale eapol_invalid_owner = eapol_quiet_owner +
  assumes owner_valid: "\<not> portValid s \<Longrightarrow> \<not> portValid (env_cb E a s)"
begin

lemma emit_valid [simp]: "\<not> portValid s \<Longrightarrow> \<not> portValid (emit E a s)"
  by (simp add: emit_def owner_valid)

lemma tx_valid [simp]:
  "\<not> portValid s \<Longrightarrow> \<not> portValid (eapol_auth_tx_canned_eap E b s)"
  "\<not> portValid s \<Longrightarrow> \<not> portValid (eapol_auth_tx_req E s)"
  by (simp_all add: eapol_auth_tx_canned_eap_def eapol_auth_tx_req_def Let_def split: option.split)

lemmas invalid_defs = not_valid_def port_closed_def auto_mode_def sm_entry_defs Let_def

lemma not_valid_PAE: "not_valid s \<Longrightarrow> not_valid (sm_AUTH_PAE_Step E s)"
  by (cases "auth_pae_state s") (simp_all add: sm_AUTH_PAE_Step_def invalid_defs)

lemma not_valid_BE: "not_valid s \<Longrightarrow> not_valid (sm_BE_AUTH_Step E s)"
  by (cases "be_auth_state s") (simp_all add: sm_BE_AUTH_Step_def invalid_defs)

lemma not_valid_others:
  assumes "not_valid s"
  shows "not_valid (sm_REAUTH_TIMER_Step E s)" "not_valid (sm_AUTH_KEY_TX_Step E s)"
    "not_valid (sm_KEY_RX_Step s)" "not_valid (sm_CTRL_DIR_Step s)"
  using assms
  by (simp_all add: sm_step_defs invalid_defs split: reauth_timer.split auth_key_tx.split key_rx.split ctrl_dir.split)

lemma not_valid_calls:
  assumes "not_valid s"
  shows "not_valid (eapol_sm_change_event E s)" "not_valid (eapol_sm_aaa_tail E s)" "not_valid (eapol_auth_step s)"
  using assms
  by (simp_all add: eapol_sm_change_event_def eapol_sm_aaa_tail_def eapol_auth_step_def eloop_def invalid_defs
      split: option.split)

lemma not_valid_loop:
  assumes "not_valid s"
  shows "not_valid (eapol_sm_step_loop E n s)"
proof (rule loop_keeps[of not_valid, OF _ _ not_valid_calls assms])
  show "not_valid (eapol_sm_pass E s)" if "not_valid s" for s
    using that by (intro pass_keeps[of not_valid]) (auto intro: not_valid_PAE not_valid_BE not_valid_others)
  show "not_valid t" if "not_valid s" "eap_server_sm_step E e s = (r, t)" for s e r t
    using that by (auto simp: eap_server_sm_step_def not_valid_def port_closed_def auto_mode_def Let_def split: prod.splits)
qed auto

lemma not_valid_runs:
  assumes "not_valid s"
  shows "not_valid (eapol_sm_step_run E s)" "not_valid (eapol_port_timers_tick E s)"
    "not_valid (eapol_auth_initialize E s)"
proof -
  show "not_valid (eapol_sm_step_run E s)" using not_valid_loop assms by (simp add: eapol_sm_step_run_def)
  show "not_valid (eapol_port_timers_tick E s)"
    by (rule tick_keeps[of not_valid, OF not_valid_loop _ _ assms]) (simp_all add: invalid_defs eloop_def)
  show "not_valid (eapol_auth_initialize E s)"
    by (rule initialize_keeps[of not_valid, OF not_valid_loop _ _ _ _ assms]) (simp_all add: invalid_defs eloop_def)
qed

end

end
