(* ===== verification/Wpa_Defs.thy ===== *)
theory Wpa_Defs
  imports Byte_Utils
begin

text \<open>
  The bit values and predicates of \<^verbatim>\<open>src/athr-hostap/src/common/defs.h\<close> that the WPA code
  shares: cipher suites, authentication and key management suites, protocol versions.
\<close>

definition WPA_CIPHER_NONE :: int where "WPA_CIPHER_NONE = 1"
definition WPA_CIPHER_WEP40 :: int where "WPA_CIPHER_WEP40 = 2"
definition WPA_CIPHER_WEP104 :: int where "WPA_CIPHER_WEP104 = 4"
definition WPA_CIPHER_TKIP :: int where "WPA_CIPHER_TKIP = 8"
definition WPA_CIPHER_CCMP :: int where "WPA_CIPHER_CCMP = 16"

definition WPA_KEY_MGMT_IEEE8021X :: int where "WPA_KEY_MGMT_IEEE8021X = 1"
definition WPA_KEY_MGMT_PSK :: int where "WPA_KEY_MGMT_PSK = 2"
definition WPA_KEY_MGMT_NONE :: int where "WPA_KEY_MGMT_NONE = 4"
definition WPA_KEY_MGMT_IEEE8021X_NO_WPA :: int where "WPA_KEY_MGMT_IEEE8021X_NO_WPA = 8"
definition WPA_KEY_MGMT_WPA_NONE :: int where "WPA_KEY_MGMT_WPA_NONE = 16"
definition WPA_KEY_MGMT_FT_IEEE8021X :: int where "WPA_KEY_MGMT_FT_IEEE8021X = 32"
definition WPA_KEY_MGMT_FT_PSK :: int where "WPA_KEY_MGMT_FT_PSK = 64"
definition WPA_KEY_MGMT_IEEE8021X_SHA256 :: int where "WPA_KEY_MGMT_IEEE8021X_SHA256 = 128"
definition WPA_KEY_MGMT_PSK_SHA256 :: int where "WPA_KEY_MGMT_PSK_SHA256 = 256"

definition WPA_PROTO_WPA :: int where "WPA_PROTO_WPA = 1"
definition WPA_PROTO_RSN :: int where "WPA_PROTO_RSN = 2"

lemmas wpa_const_defs =
  WPA_CIPHER_NONE_def WPA_CIPHER_WEP40_def WPA_CIPHER_WEP104_def WPA_CIPHER_TKIP_def
  WPA_CIPHER_CCMP_def WPA_KEY_MGMT_IEEE8021X_def WPA_KEY_MGMT_PSK_def WPA_KEY_MGMT_NONE_def
  WPA_KEY_MGMT_IEEE8021X_NO_WPA_def WPA_KEY_MGMT_WPA_NONE_def WPA_KEY_MGMT_FT_IEEE8021X_def
  WPA_KEY_MGMT_FT_PSK_def WPA_KEY_MGMT_IEEE8021X_SHA256_def WPA_KEY_MGMT_PSK_SHA256_def
  WPA_PROTO_WPA_def WPA_PROTO_RSN_def

definition wpa_key_mgmt_wpa_ieee8021x :: "int \<Rightarrow> bool" where
  "wpa_key_mgmt_wpa_ieee8021x akm \<longleftrightarrow> akm = WPA_KEY_MGMT_IEEE8021X \<or>
     akm = WPA_KEY_MGMT_FT_IEEE8021X \<or> akm = WPA_KEY_MGMT_IEEE8021X_SHA256"

definition wpa_key_mgmt_wpa_psk :: "int \<Rightarrow> bool" where
  "wpa_key_mgmt_wpa_psk akm \<longleftrightarrow> akm = WPA_KEY_MGMT_PSK \<or> akm = WPA_KEY_MGMT_FT_PSK \<or>
     akm = WPA_KEY_MGMT_PSK_SHA256"

definition wpa_key_mgmt_ft :: "int \<Rightarrow> bool" where
  "wpa_key_mgmt_ft akm \<longleftrightarrow> akm = WPA_KEY_MGMT_FT_PSK \<or> akm = WPA_KEY_MGMT_FT_IEEE8021X"

definition wpa_key_mgmt_sha256 :: "int \<Rightarrow> bool" where
  "wpa_key_mgmt_sha256 akm \<longleftrightarrow> akm = WPA_KEY_MGMT_PSK_SHA256 \<or> akm = WPA_KEY_MGMT_IEEE8021X_SHA256"

definition wpa_key_mgmt_wpa :: "int \<Rightarrow> bool" where
  "wpa_key_mgmt_wpa akm \<longleftrightarrow> wpa_key_mgmt_wpa_ieee8021x akm \<or> wpa_key_mgmt_wpa_psk akm"

lemmas wpa_key_mgmt_defs =
  wpa_key_mgmt_wpa_ieee8021x_def wpa_key_mgmt_wpa_psk_def wpa_key_mgmt_ft_def
  wpa_key_mgmt_sha256_def wpa_key_mgmt_wpa_def wpa_const_defs

lemma psk_not_ieee8021x: "wpa_key_mgmt_wpa_psk akm \<Longrightarrow> \<not> wpa_key_mgmt_wpa_ieee8021x akm"
  by (auto simp: wpa_key_mgmt_defs)

end
