(* ===== verification/Pmksa_Cache.thy ===== *)
theory Pmksa_Cache
  imports Wpa_Defs Eapol_Auth
begin

text \<open>
  The authenticator's cache of pairwise master keys,
  \<^verbatim>\<open>src/athr-hostap/src/ap/pmksa_cache_auth.c\<close>.

  An entry lives at an address; the two chains through \<^verbatim>\<open>next\<close> and \<^verbatim>\<open>hnext\<close> are the lists
  of addresses they run through: \<open>pmksa\<close> (all entries, by expiration time) and the 128 buckets of
  \<open>pmkid_tab\<close> (hashed by PMKID). \<open>heap\<close> maps the addresses of live entries to their contents,
  \<open>timer\<close> is the time out registered with the event loop and \<open>freed\<close> is a ghost with the
  calls of \<^verbatim>\<open>free_cb\<close>. Times are unbounded integers (\<^verbatim>\<open>os_time_t\<close> is a signed long). The
  PMKID derivation \<^verbatim>\<open>rsn_pmkid\<close> and the results of the allocator are arguments.
\<close>

section \<open>Data\<close>

record rsn_pmksa_cache_entry =
  e_pmkid :: bytes
  e_pmk :: bytes
  e_expiration :: int
  e_akmp :: int
  e_spa :: macaddr
  e_identity :: "bytes option"
  e_radius_class :: "bytes list"
  e_eap_type_authsrv :: u8
  e_vlan_id :: int
  e_opportunistic :: bool

type_synonym eaddr = nat

record rsn_pmksa_cache =
  pmkid_tab :: "eaddr list list"
  pmksa :: "eaddr list"
  pmksa_count :: int
  heap :: "eaddr \<rightharpoonup> rsn_pmksa_cache_entry"
  timer :: "int option"
  freed :: "eaddr list"

definition pmksa_cache_max_entries :: int where "pmksa_cache_max_entries = 1024"
definition PMKID_HASH_SIZE :: nat where "PMKID_HASH_SIZE = 128"
definition dot11RSNAConfigPMKLifetime :: int where "dot11RSNAConfigPMKLifetime = 43200"

definition PMKID_HASH :: "bytes \<Rightarrow> nat" where
  "PMKID_HASH pmkid = unat (pmkid ! 0 AND 0x7f)"

text \<open>What the allocator answers: the address of a new entry, whether the copy of the identity is
  allocated, and how many allocations of \<^verbatim>\<open>radius_copy_class\<close> succeed.\<close>

record pmksa_mem =
  m_entry :: "eaddr option"
  m_identity :: bool
  m_class :: nat

definition deref :: "rsn_pmksa_cache \<Rightarrow> eaddr \<Rightarrow> rsn_pmksa_cache_entry" where
  "deref c a = the (heap c a)"

section \<open>Removing entries\<close>

text \<open>The loop that unlinks an entry from one of the chains.\<close>

fun unlink :: "eaddr \<Rightarrow> eaddr list \<Rightarrow> eaddr list" where
  "unlink entry [] = []"
| "unlink entry (pos # rest) = (if pos = entry then rest else pos # unlink entry rest)"

definition pmksa_cache_free_entry :: "rsn_pmksa_cache \<Rightarrow> eaddr \<Rightarrow> rsn_pmksa_cache" where
  "pmksa_cache_free_entry c entry =
     (let h = PMKID_HASH (e_pmkid (deref c entry))
      in c\<lparr>pmksa_count := pmksa_count c - 1,
           freed := freed c @ [entry],
           pmkid_tab := (pmkid_tab c)[h := unlink entry (pmkid_tab c ! h)],
           pmksa := unlink entry (pmksa c),
           heap := (heap c)(entry := None)\<rparr>)"

definition pmksa_cache_set_expiration :: "int \<Rightarrow> rsn_pmksa_cache \<Rightarrow> rsn_pmksa_cache" where
  "pmksa_cache_set_expiration now c =
     (case pmksa c of
        [] \<Rightarrow> c\<lparr>timer := None\<rparr>
      | first # _ \<Rightarrow>
          (let sec = e_expiration (deref c first) - now;
               sec = (if sec < 0 then 0 else sec)
           in c\<lparr>timer := Some (sec + 1)\<rparr>))"

text \<open>The loop of \<^verbatim>\<open>pmksa_cache_expire\<close> ends since every round takes the head off the list.\<close>

lemma length_unlink: "length (unlink entry xs) \<le> length xs"
  by (induction xs) auto

lemma pmksa_free_entry: "pmksa (pmksa_cache_free_entry c entry) = unlink entry (pmksa c)"
  by (simp add: pmksa_cache_free_entry_def Let_def)

function pmksa_cache_expire_loop :: "int \<Rightarrow> rsn_pmksa_cache \<Rightarrow> rsn_pmksa_cache" where
  "pmksa_cache_expire_loop now c =
     (case pmksa c of
        [] \<Rightarrow> c
      | entry # next \<Rightarrow>
          if e_expiration (deref c entry) \<le> now
          then pmksa_cache_expire_loop now (pmksa_cache_free_entry (c\<lparr>pmksa := next\<rparr>) entry)
          else c)"
  by pat_completeness auto

termination
  by (relation "measure (\<lambda>(now, c). length (pmksa c))")
     (auto simp: pmksa_free_entry less_Suc_eq_le length_unlink)

declare pmksa_cache_expire_loop.simps [simp del]

definition pmksa_cache_expire :: "int \<Rightarrow> rsn_pmksa_cache \<Rightarrow> rsn_pmksa_cache" where
  "pmksa_cache_expire now c = pmksa_cache_set_expiration now (pmksa_cache_expire_loop now c)"

section \<open>Copies between a cache entry and a state machine\<close>

definition radius_copy_class :: "nat \<Rightarrow> bytes list \<Rightarrow> bytes list" where
  "radius_copy_class mem src = take mem src"

definition pmksa_cache_from_eapol_data ::
    "pmksa_mem \<Rightarrow> rsn_pmksa_cache_entry \<Rightarrow> ('e eapol_state_machine \<times> int) option \<Rightarrow> rsn_pmksa_cache_entry" where
  "pmksa_cache_from_eapol_data mem entry eapol =
     (case eapol of
        None \<Rightarrow> entry
      | Some (sm, vlan) \<Rightarrow>
          entry\<lparr>e_identity := (if identity sm \<noteq> None \<and> m_identity mem then identity sm else e_identity entry),
                e_radius_class := (if radius_class sm = [] then e_radius_class entry
                   else radius_copy_class (m_class mem) (radius_class sm)),
                e_eap_type_authsrv := eap_type_authsrv sm,
                e_vlan_id := vlan\<rparr>)"

text \<open>The result is the state machine and the station's VLAN.\<close>

definition pmksa_cache_to_eapol_data ::
    "pmksa_mem \<Rightarrow> rsn_pmksa_cache_entry \<Rightarrow> 'e eapol_state_machine \<Rightarrow> 'e eapol_state_machine \<times> int" where
  "pmksa_cache_to_eapol_data mem entry sm =
     (sm\<lparr>identity := (if e_identity entry \<noteq> None
                     then (if m_identity mem then e_identity entry else None) else identity sm),
         radius_class := radius_copy_class (m_class mem) (e_radius_class entry),
         eap_type_authsrv := e_eap_type_authsrv entry\<rparr>,
      e_vlan_id entry)"

section \<open>Adding and finding entries\<close>

fun insert_by_expiration :: "(eaddr \<Rightarrow> int) \<Rightarrow> eaddr \<Rightarrow> int \<Rightarrow> eaddr list \<Rightarrow> eaddr list" where
  "insert_by_expiration expi entry t [] = [entry]"
| "insert_by_expiration expi entry t (pos # rest) =
     (if expi pos > t then entry # pos # rest else pos # insert_by_expiration expi entry t rest)"

definition pmksa_cache_link_entry :: "rsn_pmksa_cache \<Rightarrow> eaddr \<Rightarrow> rsn_pmksa_cache_entry \<Rightarrow> rsn_pmksa_cache" where
  "pmksa_cache_link_entry c a entry =
     (let h = PMKID_HASH (e_pmkid entry)
      in c\<lparr>pmksa := insert_by_expiration (\<lambda>p. e_expiration (deref c p)) a (e_expiration entry) (pmksa c),
           pmkid_tab := (pmkid_tab c)[h := a # pmkid_tab c ! h],
           heap := (heap c)(a \<mapsto> entry),
           pmksa_count := pmksa_count c + 1\<rparr>)"

definition entry_matches :: "macaddr option \<Rightarrow> bytes option \<Rightarrow> rsn_pmksa_cache_entry \<Rightarrow> bool" where
  "entry_matches spa pmkid e \<longleftrightarrow>
     (case spa of None \<Rightarrow> True | Some s \<Rightarrow> e_spa e = s) \<and>
     (case pmkid of None \<Rightarrow> True | Some p \<Rightarrow> e_pmkid e = p)"

fun find_entry :: "rsn_pmksa_cache \<Rightarrow> macaddr option \<Rightarrow> bytes option \<Rightarrow> eaddr list \<Rightarrow> eaddr option" where
  "find_entry c spa pmkid [] = None"
| "find_entry c spa pmkid (a # rest) =
     (if entry_matches spa pmkid (deref c a) then Some a else find_entry c spa pmkid rest)"

definition pmksa_cache_auth_get :: "rsn_pmksa_cache \<Rightarrow> macaddr option \<Rightarrow> bytes option \<Rightarrow> eaddr option" where
  "pmksa_cache_auth_get c spa pmkid =
     find_entry c spa pmkid
       (case pmkid of Some p \<Rightarrow> pmkid_tab c ! PMKID_HASH p | None \<Rightarrow> pmksa c)"

text \<open>The derivation of the PMKID: key, authenticator address, supplicant address, use of SHA-256.\<close>

type_synonym pmkid_fn = "bytes \<Rightarrow> macaddr \<Rightarrow> macaddr \<Rightarrow> bool \<Rightarrow> bytes"

definition new_entry ::
    "pmkid_fn \<Rightarrow> pmksa_mem \<Rightarrow> int \<Rightarrow> bytes \<Rightarrow> macaddr \<Rightarrow> macaddr \<Rightarrow> int \<Rightarrow>
     ('e eapol_state_machine \<times> int) option \<Rightarrow> int \<Rightarrow> rsn_pmksa_cache_entry" where
  "new_entry rsn_pmkid mem now pmk aa spa session_timeout eapol akmp =
     pmksa_cache_from_eapol_data mem
       \<lparr>e_pmkid = rsn_pmkid pmk aa spa (wpa_key_mgmt_sha256 akmp), e_pmk = pmk,
        e_expiration = now + (if session_timeout > 0 then session_timeout else dot11RSNAConfigPMKLifetime),
        e_akmp = akmp, e_spa = spa, e_identity = None, e_radius_class = [], e_eap_type_authsrv = 0,
        e_vlan_id = 0, e_opportunistic = False\<rparr> eapol"

definition pmksa_cache_auth_add ::
    "pmkid_fn \<Rightarrow> pmksa_mem \<Rightarrow> int \<Rightarrow> rsn_pmksa_cache \<Rightarrow> bytes \<Rightarrow> macaddr \<Rightarrow> macaddr \<Rightarrow> int \<Rightarrow>
     ('e eapol_state_machine \<times> int) option \<Rightarrow> int \<Rightarrow> eaddr option \<times> rsn_pmksa_cache" where
  "pmksa_cache_auth_add rsn_pmkid mem now c pmk aa spa session_timeout eapol akmp =
     (if length pmk > 32 then (None, c)
      else case m_entry mem of
        None \<Rightarrow> (None, c)
      | Some a \<Rightarrow>
          (let entry = new_entry rsn_pmkid mem now pmk aa spa session_timeout eapol akmp;
               c = (case pmksa_cache_auth_get c (Some spa) None of
                      Some pos \<Rightarrow> pmksa_cache_free_entry c pos | None \<Rightarrow> c);
               c = (if pmksa_count c \<ge> pmksa_cache_max_entries \<and> pmksa c \<noteq> []
                    then pmksa_cache_free_entry c (hd (pmksa c)) else c)
           in (Some a, pmksa_cache_link_entry c a entry)))"

definition pmksa_cache_add_okc ::
    "pmksa_mem \<Rightarrow> rsn_pmksa_cache \<Rightarrow> rsn_pmksa_cache_entry \<Rightarrow> bytes \<Rightarrow> eaddr option \<times> rsn_pmksa_cache" where
  "pmksa_cache_add_okc mem c old_entry pmkid =
     (case m_entry mem of
        None \<Rightarrow> (None, c)
      | Some a \<Rightarrow>
          (Some a, pmksa_cache_link_entry c a
             \<lparr>e_pmkid = pmkid, e_pmk = e_pmk old_entry, e_expiration = e_expiration old_entry,
              e_akmp = e_akmp old_entry, e_spa = e_spa old_entry,
              e_identity = (if m_identity mem then e_identity old_entry else None),
              e_radius_class = radius_copy_class (m_class mem) (e_radius_class old_entry),
              e_eap_type_authsrv = e_eap_type_authsrv old_entry,
              e_vlan_id = e_vlan_id old_entry, e_opportunistic = True\<rparr>))"

text \<open>\<^verbatim>\<open>pmksa_cache_get_okc\<close>: \<^verbatim>\<open>continue\<close> goes back to the test of the loop without moving to
  the next entry. A result \<^term>\<open>None\<close> is a call that does not return.\<close>

partial_function (option) okc_loop ::
    "pmkid_fn \<Rightarrow> rsn_pmksa_cache \<Rightarrow> macaddr \<Rightarrow> macaddr \<Rightarrow> bytes \<Rightarrow> eaddr list \<Rightarrow> eaddr option option" where
  "okc_loop rsn_pmkid c aa spa pmkid entries =
     (case entries of
        [] \<Rightarrow> Some None
      | entry # rest \<Rightarrow>
          if e_spa (deref c entry) \<noteq> spa then okc_loop rsn_pmkid c aa spa pmkid entries
          else if rsn_pmkid (e_pmk (deref c entry)) aa spa (wpa_key_mgmt_sha256 (e_akmp (deref c entry))) = pmkid
          then Some (Some entry)
          else okc_loop rsn_pmkid c aa spa pmkid rest)"

definition pmksa_cache_get_okc ::
    "pmkid_fn \<Rightarrow> rsn_pmksa_cache \<Rightarrow> macaddr \<Rightarrow> macaddr \<Rightarrow> bytes \<Rightarrow> eaddr option option" where
  "pmksa_cache_get_okc rsn_pmkid c aa spa pmkid = okc_loop rsn_pmkid c aa spa pmkid (pmksa c)"

section \<open>Life time of the cache\<close>

definition pmksa_cache_auth_init :: "bool \<Rightarrow> rsn_pmksa_cache option" where
  "pmksa_cache_auth_init mem =
     (if mem then Some \<lparr>pmkid_tab = replicate PMKID_HASH_SIZE [], pmksa = [], pmksa_count = 0,
        heap = Map.empty, timer = None, freed = []\<rparr> else None)"

text \<open>\<^verbatim>\<open>pmksa_cache_auth_deinit\<close> releases the entries of the list, in order, without \<^verbatim>\<open>free_cb\<close>,
  and the time out; the result is the memory still in use.\<close>

fun deinit_loop :: "eaddr list \<Rightarrow> (eaddr \<rightharpoonup> rsn_pmksa_cache_entry) \<Rightarrow> (eaddr \<rightharpoonup> rsn_pmksa_cache_entry)" where
  "deinit_loop [] h = h"
| "deinit_loop (prev # entry) h = deinit_loop entry (h(prev := None))"

definition pmksa_cache_auth_deinit :: "rsn_pmksa_cache option \<Rightarrow> (eaddr \<rightharpoonup> rsn_pmksa_cache_entry) \<times> int option" where
  "pmksa_cache_auth_deinit pm =
     (case pm of None \<Rightarrow> (Map.empty, None) | Some c \<Rightarrow> (deinit_loop (pmksa c) (heap c), None))"

end
