(* ===== verification/Ieee8021x.thy ===== *)
theory Ieee8021x
  imports Eapol_Auth_Props Pmksa_Cache
begin

text \<open>
  The owner of the 802.1X machines in hostapd: \<^verbatim>\<open>src/athr-hostap/src/ap/ieee802_1x.c\<close> and the
  glue of \<^verbatim>\<open>ap/wpa_auth_glue.c\<close> through which the WPA authenticator reads and writes their
  variables.

  \<open>sta_info\<close> holds what these files keep per station; its field \<open>acts\<close> is a ghost with the calls
  that leave the modelled code (driver, accounting, WPA authenticator). \<open>hapd\<close> is the BSS
  configuration with, as fields, the results of the code outside: the allocator, the EAP server, the
  RADIUS client, and what the WPA authenticator (\<^verbatim>\<open>ap/wpa_auth.c\<close>) answers to an EAPOL event, as the
  list of \<^verbatim>\<open>set_eapol\<close> calls it makes. The build is the one of \<^verbatim>\<open>hostapd/defconfig\<close>: no
  \<^verbatim>\<open>CONFIG_WPS\<close>, no \<^verbatim>\<open>CONFIG_IEEE80211R\<close>.
\<close>

section \<open>Data\<close>

datatype wpa_eapol_variable =
    WPA_EAPOL_portEnabled | WPA_EAPOL_portValid | WPA_EAPOL_authorized
  | WPA_EAPOL_portControl_Auto | WPA_EAPOL_keyRun | WPA_EAPOL_keyAvailable
  | WPA_EAPOL_keyDone | WPA_EAPOL_inc_EapolFramesTx

text \<open>The part of \<^verbatim>\<open>struct wpa_state_machine\<close> these files look at.\<close>

record wpa_view =
  wv_key_mgmt :: int
  wv_pmksa :: "rsn_pmksa_cache_entry option"
  wv_pairwise_set :: bool

datatype sta_act =
    Send_eapol bytes bool
  | Preauth_send bytes
  | Set_authorized bool
  | Accounting_start
  | Accounting_stop
  | Sta_finished bool bool
  | Wpa_receive bytes
  | Wpa_reauth_eapol
  | Bind_vlan int

record 'e sta_info =
  sta_flags :: u32
  sta_addr :: macaddr
  eapol_sm :: "'e eapol_state_machine option"
  wpa_sm :: "wpa_view option"
  vlan_id :: int
  acct_terminate_cause :: int
  acts :: "sta_act list"

record hostapd_bss_config =
  hc_ieee802_1x :: int
  hc_wpa :: int
  hc_wps_state :: int
  hc_eapol_version :: u8
  hc_dynamic_vlan :: int

record 'e hapd =
  conf :: hostapd_bss_config
  eapol_auth :: "eapol_authenticator option"
  zalloc_ok :: bool
  eap_init :: "('e \<times> eap_eapol_interface) option"
  eap_step :: "'e \<Rightarrow> eap_eapol_interface \<Rightarrow> bool \<times> 'e \<times> eap_eapol_interface"
  eap_identity :: "'e \<Rightarrow> bytes option"
  eap_clear_identity :: "'e \<Rightarrow> 'e"
  eap_notify_cached :: "'e \<Rightarrow> 'e"
  radius_id :: int
  tx_key_frames :: nat
  wpa_calls :: "eapol_event \<Rightarrow> 'e eapol_state_machine \<Rightarrow> (wpa_eapol_variable \<times> bool) list"
  alive :: "'e eapol_state_machine \<Rightarrow> bool"
  pm_mem :: pmksa_mem

definition WLAN_STA_ASSOC :: u32 where "WLAN_STA_ASSOC = 0x2"
definition WLAN_STA_AUTHORIZED :: u32 where "WLAN_STA_AUTHORIZED = 0x20"
definition WLAN_STA_PREAUTH :: u32 where "WLAN_STA_PREAUTH = 0x100"
definition WLAN_STA_WPS :: u32 where "WLAN_STA_WPS = 0x1000"
definition WLAN_STA_MAYBE_WPS :: u32 where "WLAN_STA_MAYBE_WPS = 0x2000"

definition sta_has :: "u32 \<Rightarrow> 'e sta_info \<Rightarrow> bool" where
  "sta_has f sta \<longleftrightarrow> sta_flags sta AND f \<noteq> 0"

abbreviation log_act :: "sta_act \<Rightarrow> 'e sta_info \<Rightarrow> 'e sta_info" where
  "log_act a sta \<equiv> sta\<lparr>acts := acts sta @ [a]\<rparr>"

abbreviation upd_sm :: "('e eapol_state_machine \<Rightarrow> 'e eapol_state_machine) \<Rightarrow> 'e sta_info \<Rightarrow> 'e sta_info" where
  "upd_sm f sta \<equiv> sta\<lparr>eapol_sm := map_option f (eapol_sm sta)\<rparr>"

section \<open>Access to the WPA state machine\<close>

definition wpa_auth_sta_key_mgmt :: "wpa_view option \<Rightarrow> int" where
  "wpa_auth_sta_key_mgmt sm = (case sm of None \<Rightarrow> -1 | Some w \<Rightarrow> wv_key_mgmt w)"

definition wpa_auth_sta_get_pmksa :: "wpa_view option \<Rightarrow> rsn_pmksa_cache_entry option" where
  "wpa_auth_sta_get_pmksa sm = (case sm of None \<Rightarrow> None | Some w \<Rightarrow> wv_pmksa w)"

definition wpa_auth_sta_clear_pmksa :: "wpa_view option \<Rightarrow> rsn_pmksa_cache_entry \<Rightarrow> int \<times> wpa_view option" where
  "wpa_auth_sta_clear_pmksa sm entry =
     (case sm of
        None \<Rightarrow> (-1, None)
      | Some w \<Rightarrow> if wv_pmksa w \<noteq> Some entry then (-1, sm) else (0, Some (w\<lparr>wv_pmksa := None\<rparr>)))"

definition wpa_auth_pairwise_set :: "wpa_view option \<Rightarrow> bool" where
  "wpa_auth_pairwise_set sm = (case sm of None \<Rightarrow> False | Some w \<Rightarrow> wv_pairwise_set w)"

section \<open>Frames and port status\<close>

definition ieee802_1x_send :: "'e hapd \<Rightarrow> 'e sta_info \<Rightarrow> u8 \<Rightarrow> bytes \<Rightarrow> 'e sta_info" where
  "ieee802_1x_send H sta type data =
     (if \<not> zalloc_ok H then sta
      else let buf = [hc_eapol_version (conf H), type] @ WPA_PUT_BE16 (of_nat (length data)) @ data
           in if sta_has WLAN_STA_PREAUTH sta then log_act (Preauth_send buf) sta
              else log_act (Send_eapol buf (wpa_auth_pairwise_set (wpa_sm sta))) sta)"

definition ap_sta_set_authorized :: "bool \<Rightarrow> 'e sta_info \<Rightarrow> 'e sta_info" where
  "ap_sta_set_authorized authorized sta =
     (if authorized = sta_has WLAN_STA_AUTHORIZED sta then sta
      else if authorized then sta\<lparr>sta_flags := sta_flags sta OR WLAN_STA_AUTHORIZED\<rparr>
      else sta\<lparr>sta_flags := sta_flags sta AND NOT WLAN_STA_AUTHORIZED\<rparr>)"

definition ieee802_1x_set_sta_authorized :: "bool \<Rightarrow> 'e sta_info \<Rightarrow> 'e sta_info" where
  "ieee802_1x_set_sta_authorized authorized sta =
     (if sta_has WLAN_STA_PREAUTH sta then sta
      else let sta = log_act (Set_authorized authorized) (ap_sta_set_authorized authorized sta)
           in if authorized then log_act Accounting_start sta else sta)"

section \<open>Callbacks of the state machines\<close>

definition ieee802_1x_learn_identity :: "'e hapd \<Rightarrow> 'e eapol_state_machine \<Rightarrow> bytes \<Rightarrow> 'e eapol_state_machine" where
  "ieee802_1x_learn_identity H sm eap_pkt =
     (if length eap_pkt \<le> 4 \<or> eap_pkt ! 4 \<noteq> 1 then sm
      else case Option.bind (eap sm) (eap_identity H) of
        None \<Rightarrow> sm
      | Some ident \<Rightarrow>
          if \<not> zalloc_ok H then sm\<lparr>identity := None\<rparr>
          else upd_ctr (\<lambda>c. c\<lparr>dot1xAuthEapolRespIdFramesRx := dot1xAuthEapolRespIdFramesRx c + 1\<rparr>)
                 (sm\<lparr>identity := Some ident\<rparr>))"

text \<open>The effect of \<^verbatim>\<open>ieee802_1x_encapsulate_radius\<close> on the state machine; the message itself is
  built from RADIUS attributes.\<close>

definition ieee802_1x_aaa_send :: "'e hapd \<Rightarrow> 'e eapol_state_machine \<Rightarrow> bytes \<Rightarrow> 'e eapol_state_machine" where
  "ieee802_1x_aaa_send H sm data = (ieee802_1x_learn_identity H sm data)\<lparr>radius_identifier := radius_id H\<rparr>"

definition ieee802_1x_abort_auth :: "'e eapol_state_machine \<Rightarrow> 'e eapol_state_machine" where
  "ieee802_1x_abort_auth sm =
     (if eapTimeout (eap_if sm) then upd_if (\<lambda>i. i\<lparr>portEnabled := False\<rparr>) sm else sm)"

definition ieee802_1x_notify_port_enabled :: "bool \<Rightarrow> 'e eapol_state_machine \<Rightarrow> 'e eapol_state_machine" where
  "ieee802_1x_notify_port_enabled enabled sm =
     eapol_auth_step (upd_if (\<lambda>i. i\<lparr>portEnabled := enabled\<rparr>) sm)"

definition ieee802_1x_notify_port_valid :: "bool \<Rightarrow> 'e eapol_state_machine \<Rightarrow> 'e eapol_state_machine" where
  "ieee802_1x_notify_port_valid valid sm = eapol_auth_step (sm\<lparr>portValid := valid\<rparr>)"

definition ieee802_1x_notify_pre_auth :: "bool \<Rightarrow> 'e eapol_state_machine \<Rightarrow> 'e eapol_state_machine" where
  "ieee802_1x_notify_pre_auth pre_auth sm =
     (if pre_auth then sm\<lparr>flags := flags sm OR EAPOL_SM_PREAUTH\<rparr>
      else sm\<lparr>flags := flags sm AND NOT EAPOL_SM_PREAUTH\<rparr>)"

text \<open>\<^verbatim>\<open>hostapd_wpa_auth_set_eapol\<close> on the state machine of the station; the decision on the port
  that goes to the station itself is noted in the ghost.\<close>

fun set_eapol_sm :: "wpa_eapol_variable \<times> bool \<Rightarrow> 'e eapol_state_machine \<Rightarrow> 'e eapol_state_machine" where
  "set_eapol_sm (WPA_EAPOL_portEnabled, value) sm = ieee802_1x_notify_port_enabled value sm"
| "set_eapol_sm (WPA_EAPOL_portValid, value) sm = ieee802_1x_notify_port_valid value sm"
| "set_eapol_sm (WPA_EAPOL_authorized, value) sm = sm\<lparr>out := out sm @ [Wpa_authorized value]\<rparr>"
| "set_eapol_sm (WPA_EAPOL_portControl_Auto, value) sm = sm\<lparr>portControl := Auto\<rparr>"
| "set_eapol_sm (WPA_EAPOL_keyRun, value) sm = sm\<lparr>keyRun := value\<rparr>"
| "set_eapol_sm (WPA_EAPOL_keyAvailable, value) sm = upd_if (\<lambda>i. i\<lparr>eapKeyAvailable := value\<rparr>) sm"
| "set_eapol_sm (WPA_EAPOL_keyDone, value) sm = sm\<lparr>keyDone := value\<rparr>"
| "set_eapol_sm (WPA_EAPOL_inc_EapolFramesTx, value) sm =
     upd_ctr (\<lambda>c. c\<lparr>dot1xAuthEapolFramesTx := dot1xAuthEapolFramesTx c + 1\<rparr>) sm"

definition hostapd_wpa_auth_get_eapol :: "'e sta_info option \<Rightarrow> wpa_eapol_variable \<Rightarrow> int" where
  "hostapd_wpa_auth_get_eapol sta var =
     (case Option.bind sta eapol_sm of
        None \<Rightarrow> -1
      | Some sm \<Rightarrow>
          (case var of
             WPA_EAPOL_keyRun \<Rightarrow> if keyRun sm then 1 else 0
           | WPA_EAPOL_keyAvailable \<Rightarrow> if eapKeyAvailable (eap_if sm) then 1 else 0
           | _ \<Rightarrow> -1))"

definition ieee802_1x_eapol_event :: "'e hapd \<Rightarrow> eapol_event \<Rightarrow> 'e eapol_state_machine \<Rightarrow> 'e eapol_state_machine" where
  "ieee802_1x_eapol_event H type sm = fold set_eapol_sm (wpa_calls H type sm) sm"

text \<open>The callback table that \<^verbatim>\<open>ieee802_1x_init\<close> installs, as far as it acts on the machines.\<close>

fun ieee802_1x_cb :: "'e hapd \<Rightarrow> eapol_act \<Rightarrow> 'e eapol_state_machine \<Rightarrow> 'e eapol_state_machine" where
  "ieee802_1x_cb H (Aaa_send data) sm = ieee802_1x_aaa_send H sm data"
| "ieee802_1x_cb H Abort_auth sm = ieee802_1x_abort_auth sm"
| "ieee802_1x_cb H Tx_key sm =
     (if eapKeyData (eap_if sm) = None then sm
      else upd_ctr (\<lambda>c. c\<lparr>dot1xAuthEapolFramesTx := dot1xAuthEapolFramesTx c + of_nat (tx_key_frames H)\<rparr>) sm)"
| "ieee802_1x_cb H (Eapol_event type) sm = ieee802_1x_eapol_event H type sm"
| "ieee802_1x_cb H _ sm = sm"

definition hostapd_env :: "'e hapd \<Rightarrow> 'e eapol_env" where
  "hostapd_env H = \<lparr>env_cb = ieee802_1x_cb H, env_alive = alive H, env_eap_step = eap_step H\<rparr>"

text \<open>While a state machine is allocated the station does not point to it yet: the callbacks find
  none, and the station entry counts as not alive.\<close>

definition alloc_env :: "'e hapd \<Rightarrow> 'e eapol_env" where
  "alloc_env H = \<lparr>env_cb = \<lambda>a sm. sm, env_alive = \<lambda>sm. False, env_eap_step = eap_step H\<rparr>"

text \<open>The calls that reached the station during a run of the machines, in their order.\<close>

fun sta_call :: "'e hapd \<Rightarrow> eapol_act \<Rightarrow> 'e sta_info \<Rightarrow> 'e sta_info" where
  "sta_call H (Set_port_authorized b) sta = ieee802_1x_set_sta_authorized b sta"
| "sta_call H (Wpa_authorized b) sta = ieee802_1x_set_sta_authorized b sta"
| "sta_call H (Eapol_send type data) sta = ieee802_1x_send H sta type data"
| "sta_call H (Finished success preauth) sta = log_act (Sta_finished success preauth) sta"
| "sta_call H _ sta = sta"

definition new_calls :: "'e eapol_state_machine \<Rightarrow> 'e eapol_state_machine \<Rightarrow> eapol_act list" where
  "new_calls before later = drop (length (out before)) (out later)"

text \<open>A run of the machines of a station by the event loop.\<close>

definition run_sm :: "'e hapd \<Rightarrow> ('e eapol_state_machine \<Rightarrow> 'e eapol_state_machine) \<Rightarrow> 'e sta_info \<Rightarrow> 'e sta_info" where
  "run_sm H f sta =
     (case eapol_sm sta of
        None \<Rightarrow> sta
      | Some sm \<Rightarrow> fold (sta_call H) (new_calls sm (f sm)) (sta\<lparr>eapol_sm := Some (f sm)\<rparr>))"

definition hostapd_wpa_auth_set_eapol :: "'e hapd \<Rightarrow> wpa_eapol_variable \<times> bool \<Rightarrow> 'e sta_info \<Rightarrow> 'e sta_info" where
  "hostapd_wpa_auth_set_eapol H vv sta =
     (if fst vv = WPA_EAPOL_authorized then ieee802_1x_set_sta_authorized (snd vv) sta
      else upd_sm (set_eapol_sm vv) sta)"

section \<open>Frames from the supplicant\<close>

definition handle_eap_response :: "'e sta_info \<Rightarrow> bytes \<Rightarrow> 'e sta_info" where
  "handle_eap_response sta eap_pkt =
     (if eapol_sm sta = None \<or> length eap_pkt < 5 then sta
      else upd_sm (\<lambda>sm. (upd_if (\<lambda>i. i\<lparr>eapRespData := Some eap_pkt\<rparr>)
             (upd_ctr (\<lambda>c. c\<lparr>dot1xAuthEapolRespFramesRx := dot1xAuthEapolRespFramesRx c + 1\<rparr>)
                (sm\<lparr>eap_type_supp := eap_pkt ! 4\<rparr>)))\<lparr>eapolEap := True\<rparr>) sta)"

definition handle_eap :: "'e sta_info \<Rightarrow> bytes \<Rightarrow> 'e sta_info" where
  "handle_eap sta buf =
     (if length buf < 4 then sta
      else let eap_len = unat (WPA_GET_BE16 (drop 2 buf))
           in if eap_len < 4 then sta
              else if eap_len > length buf then sta
              else if buf ! 0 = 2 then handle_eap_response sta (take eap_len buf)
              else sta)"

definition ieee802_1x_alloc_eapol_sm :: "'e hapd \<Rightarrow> 'e sta_info \<Rightarrow> 'e eapol_state_machine option" where
  "ieee802_1x_alloc_eapol_sm H sta =
     (let fl = (if sta_has WLAN_STA_PREAUTH sta then EAPOL_SM_PREAUTH else 0) OR
               (if wpa_sm sta \<noteq> None then EAPOL_SM_USES_WPA OR
                  (if wpa_auth_sta_get_pmksa (wpa_sm sta) \<noteq> None then EAPOL_SM_FROM_PMKSA_CACHE else 0)
                else 0)
      in eapol_auth_alloc (alloc_env H) (eapol_auth H) (zalloc_ok H) (eap_init H) (sta_addr sta) fl)"

text \<open>The station after the allocation, with the calls made meanwhile; \<^term>\<open>None\<close> on failure.\<close>

definition alloc_into :: "'e hapd \<Rightarrow> 'e sta_info \<Rightarrow> 'e sta_info option" where
  "alloc_into H sta =
     map_option (\<lambda>sm. fold (sta_call H) (out sm) (sta\<lparr>eapol_sm := Some sm\<rparr>)) (ieee802_1x_alloc_eapol_sm H sta)"

text \<open>The switch on the frame type; the payload is what follows the header.\<close>

definition rx_dispatch :: "'e hapd \<Rightarrow> u8 \<Rightarrow> bytes \<Rightarrow> 'e sta_info \<Rightarrow> 'e sta_info" where
  "rx_dispatch H type payload sta =
     (if type = 0 then handle_eap sta payload
      else if type = 1 then
        (let sta = upd_sm (\<lambda>sm. sm\<lparr>flags := flags sm AND NOT EAPOL_SM_WAIT_START\<rparr>) sta;
             sta = (case wpa_auth_sta_get_pmksa (wpa_sm sta) of
                      None \<Rightarrow> sta
                    | Some e \<Rightarrow> sta\<lparr>wpa_sm := snd (wpa_auth_sta_clear_pmksa (wpa_sm sta) e)\<rparr>);
             sta = upd_sm (\<lambda>sm. (upd_ctr (\<lambda>c. c\<lparr>dot1xAuthEapolStartFramesRx := dot1xAuthEapolStartFramesRx c + 1\<rparr>)
                     (sm\<lparr>eapolStart := True\<rparr>))\<lparr>eap := map_option (eap_clear_identity H) (eap sm)\<rparr>) sta
         in log_act Wpa_reauth_eapol sta)
      else if type = 2 then
        (let sta = log_act Accounting_stop (sta\<lparr>acct_terminate_cause := 1\<rparr>)
         in upd_sm (\<lambda>sm. (upd_ctr (\<lambda>c. c\<lparr>dot1xAuthEapolLogoffFramesRx := dot1xAuthEapolLogoffFramesRx c + 1\<rparr>)
              (sm\<lparr>eapolLogoff := True\<rparr>))\<lparr>eap := map_option (eap_clear_identity H) (eap sm)\<rparr>) sta)
      else if type = 3 \<or> type = 4 then sta
      else upd_sm (upd_ctr (\<lambda>c. c\<lparr>dot1xAuthInvalidEapolFramesRx := dot1xAuthInvalidEapolFramesRx c + 1\<rparr>)) sta)"

text \<open>A station without state machine gets one, with its port enabled.\<close>

definition rx_ensure_sm :: "'e hapd \<Rightarrow> 'e sta_info \<Rightarrow> 'e sta_info option" where
  "rx_ensure_sm H sta =
     (if eapol_sm sta \<noteq> None then Some sta
      else map_option (upd_sm (upd_if (\<lambda>i. i\<lparr>portEnabled := True\<rparr>))) (alloc_into H sta))"

definition ieee802_1x_receive :: "'e hapd \<Rightarrow> bytes \<Rightarrow> 'e sta_info option \<Rightarrow> 'e sta_info option" where
  "ieee802_1x_receive H buf sta_opt =
     (if hc_ieee802_1x (conf H) = 0 \<and> hc_wpa (conf H) = 0 \<and> hc_wps_state (conf H) = 0 then sta_opt
      else case sta_opt of
        None \<Rightarrow> None
      | Some sta \<Rightarrow>
          if \<not> sta_has (WLAN_STA_ASSOC OR WLAN_STA_PREAUTH) sta then Some sta
          else if length buf < 4 then Some sta
          else let datalen = unat (WPA_GET_BE16 (drop 2 buf)); type = buf ! 1 in
            if length buf - 4 < datalen then
              Some (upd_sm (upd_ctr (\<lambda>c. c\<lparr>dot1xAuthEapLengthErrorFramesRx := dot1xAuthEapLengthErrorFramesRx c + 1\<rparr>)) sta)
            else let
              sta = upd_sm (upd_ctr (\<lambda>c. c\<lparr>dot1xAuthLastEapolFrameVersion := ucast (buf ! 0),
                      dot1xAuthEapolFramesRx := dot1xAuthEapolFramesRx c + 1\<rparr>)) sta;
              payload = take datalen (drop 4 buf)
            in if datalen \<ge> 44 \<and> type = 3 \<and> (payload ! 0 = 254 \<or> payload ! 0 = 2) then
                 Some (log_act (Wpa_receive (take (4 + datalen) buf)) sta)
               else if (hc_ieee802_1x (conf H) = 0 \<and> \<not> sta_has (WLAN_STA_WPS OR WLAN_STA_MAYBE_WPS) sta) \<or>
                 wpa_key_mgmt_wpa_psk (wpa_auth_sta_key_mgmt (wpa_sm sta)) then Some sta
               else case rx_ensure_sm H sta of
                 None \<Rightarrow> Some sta
               | Some sta \<Rightarrow> Some (upd_sm eapol_auth_step (rx_dispatch H type payload sta)))"

section \<open>Stations coming and going\<close>

text \<open>The machines as set up for a station with a cached key.\<close>

definition skip_to_success :: "'e hapd \<Rightarrow> 'e eapol_state_machine \<Rightarrow> 'e eapol_state_machine" where
  "skip_to_success H sm =
     (upd_if (\<lambda>i. i\<lparr>eapKeyAvailable := True\<rparr>) (sm\<lparr>keyRun := True\<rparr>))
       \<lparr>auth_pae_state := AUTH_PAE_AUTHENTICATING, be_auth_state := BE_AUTH_SUCCESS, authSuccess := True,
        eap := map_option (eap_notify_cached H) (eap sm)\<rparr>"

text \<open>\<^verbatim>\<open>ieee802_1x_new_station\<close> once the station has a state machine.\<close>

definition new_station_start :: "'e hapd \<Rightarrow> bool \<Rightarrow> 'e sta_info \<Rightarrow> 'e sta_info" where
  "new_station_start H reassoc sta =
     (let sta = upd_sm (upd_if (\<lambda>i. i\<lparr>portEnabled := True\<rparr>)) sta
      in case wpa_auth_sta_get_pmksa (wpa_sm sta) of
           Some entry \<Rightarrow>
             let old_vlanid = vlan_id sta;
                 sta = upd_sm (\<lambda>sm. fst (pmksa_cache_to_eapol_data (pm_mem H) entry (skip_to_success H sm))) sta;
                 sta = sta\<lparr>vlan_id := (if hc_dynamic_vlan (conf H) = 0 then 0 else e_vlan_id entry)\<rparr>
             in log_act (Bind_vlan old_vlanid) sta
         | None \<Rightarrow>
             upd_sm (\<lambda>sm. eapol_auth_step (if reassoc then sm\<lparr>reAuthenticate := True\<rparr> else sm)) sta)"

definition ieee802_1x_new_station :: "'e hapd \<Rightarrow> 'e sta_info \<Rightarrow> 'e sta_info" where
  "ieee802_1x_new_station H sta =
     (if hc_ieee802_1x (conf H) = 0 \<or> wpa_key_mgmt_wpa_psk (wpa_auth_sta_key_mgmt (wpa_sm sta)) then sta
      else if eapol_sm sta \<noteq> None then new_station_start H True sta
      else case alloc_into H sta of None \<Rightarrow> sta | Some sta \<Rightarrow> new_station_start H False sta)"

definition ieee802_1x_free_station :: "'e sta_info \<Rightarrow> 'e sta_info" where
  "ieee802_1x_free_station sta = sta\<lparr>eapol_sm := None\<rparr>"

section \<open>Reading the state\<close>

definition ieee802_1x_get_identity :: "'e eapol_state_machine option \<Rightarrow> bytes option" where
  "ieee802_1x_get_identity sm = Option.bind sm identity"

definition ieee802_1x_get_radius_class :: "'e eapol_state_machine option \<Rightarrow> int \<Rightarrow> bytes option" where
  "ieee802_1x_get_radius_class sm idx =
     (case sm of
        None \<Rightarrow> None
      | Some s \<Rightarrow> if radius_class s = [] \<or> idx \<ge> int (length (radius_class s)) then None
                  else Some (radius_class s ! nat idx))"

definition ieee802_1x_get_key :: "'e eapol_state_machine option \<Rightarrow> bytes option" where
  "ieee802_1x_get_key sm = Option.bind sm (\<lambda>s. eapKeyData (eap_if s))"

definition ieee802_1x_tx_status :: "'e sta_info option \<Rightarrow> bytes \<Rightarrow> int" where
  "ieee802_1x_tx_status sta buf =
     (if sta = None then -1
      else if length buf < 24 + 6 + 2 + 4 then 0
      else if take 6 (drop 24 buf) \<noteq> [0xaa, 0xaa, 0x03, 0, 0, 0] then 0
      else if WPA_GET_BE16 (drop 30 buf) \<noteq> 0x888e then 0
      else 1)"

section \<open>A station under the event loop\<close>

datatype sta_event =
    Rx_frame bytes
  | New_station
  | Run_step
  | Run_tick
  | Wpa_set wpa_eapol_variable bool
  | Notify_pre_auth bool
  | Free_station

fun sta_step :: "'e hapd \<times> sta_event \<Rightarrow> 'e sta_info \<Rightarrow> 'e sta_info" where
  "sta_step (H, Rx_frame buf) sta = the (ieee802_1x_receive H buf (Some sta))"
| "sta_step (H, New_station) sta = ieee802_1x_new_station H sta"
| "sta_step (H, Run_step) sta = run_sm H (eapol_sm_step_cb (hostapd_env H)) sta"
| "sta_step (H, Run_tick) sta = run_sm H (eapol_port_timers_tick (hostapd_env H)) sta"
| "sta_step (H, Wpa_set var value) sta = hostapd_wpa_auth_set_eapol H (var, value) sta"
| "sta_step (H, Notify_pre_auth b) sta = upd_sm (ieee802_1x_notify_pre_auth b) sta"
| "sta_step (H, Free_station) sta = ieee802_1x_free_station sta"

end
