(* ===== verification/Ieee8021x_Props.thy ===== *)
theory Ieee8021x_Props
  imports Ieee8021x
begin

text \<open>
  hostapd as the owner of the 802.1X machines: its callbacks meet the interfaces of
  \<open>Eapol_Auth_Props\<close>, so what the machines promise holds for every station under every sequence of
  frames, timer ticks, WPA decisions and associations.
\<close>

section \<open>The callbacks of hostapd\<close>

text \<open>The writes the interface allows, as a relation that composes.\<close>

definition owner_form :: "'e eapol_state_machine \<Rightarrow> 'e eapol_state_machine \<Rightarrow> bool" where
  "owner_form s t \<longleftrightarrow>
     t = s\<lparr>keyRun := keyRun t, keyDone := keyDone t, portControl := portControl t, portValid := portValid t,
           ctrs := ctrs t, eap_if := eap_if t, identity := identity t,
           radius_identifier := radius_identifier t, out := out t\<rparr>
     \<and> (\<exists>xs. out t = out s @ xs \<and> ports xs = [])"

lemma owner_form_refl: "owner_form s s"
  by (simp add: owner_form_def)

lemma owner_form_trans:
  assumes "owner_form s t" "owner_form t u"
  shows "owner_form s u"
proof -
  let ?w = "\<lambda>s t. s\<lparr>keyRun := keyRun t, keyDone := keyDone t, portControl := portControl t,
      portValid := portValid t, ctrs := ctrs t, eap_if := eap_if t, identity := identity t,
      radius_identifier := radius_identifier t, out := out t\<rparr>"
  have t: "t = ?w s t" and u: "u = ?w t u" using assms by (simp_all add: owner_form_def)
  have "u = ?w (?w s t) u" using t u by simp
  then have "u = ?w s u" by simp
  moreover have "\<exists>xs. out u = out s @ xs \<and> ports xs = []"
    using assms by (auto simp: owner_form_def)
  ultimately show ?thesis by (simp add: owner_form_def)
qed

lemma set_eapol_form: "owner_form s (set_eapol_sm vv s)"
proof (cases vv)
  case (Pair var b)
  show ?thesis unfolding Pair
    by (cases var) (simp_all add: owner_form_def ieee802_1x_notify_port_enabled_def
      ieee802_1x_notify_port_valid_def eapol_auth_step_def eloop_def)
qed

lemma fold_set_eapol_form: "owner_form s (fold set_eapol_sm vvs s)"
proof (induction vvs arbitrary: s)
  case Nil
  then show ?case by (simp add: owner_form_refl)
next
  case (Cons vv vvs)
  show ?case using owner_form_trans[OF set_eapol_form Cons.IH] by simp
qed

lemma ieee802_1x_cb_form: "owner_form s (ieee802_1x_cb H a s)"
proof (cases a)
  case (Aaa_send data)
  then show ?thesis
    by (simp add: owner_form_def ieee802_1x_aaa_send_def ieee802_1x_learn_identity_def split: option.split)
next
  case (Eapol_event type)
  then show ?thesis by (simp add: ieee802_1x_eapol_event_def fold_set_eapol_form)
qed (simp_all add: owner_form_def ieee802_1x_abort_auth_def)

lemma owner_form_ex:
  "owner_form s t \<Longrightarrow> \<exists>kr kd pc pv i c idt rid xs. t =
    s\<lparr>keyRun := kr, keyDone := kd, portControl := pc, portValid := pv, ctrs := c, eap_if := i,
      identity := idt, radius_identifier := rid, out := out s @ xs\<rparr> \<and> ports xs = []"
  unfolding owner_form_def by (elim conjE exE) metis

lemma set_eapol_auto:
  "portControl s = Auto \<Longrightarrow> portControl (set_eapol_sm vv s) = Auto"
  "eapSuccess (eap_if (set_eapol_sm vv s)) = eapSuccess (eap_if s)"
  by (cases "(vv, s)" rule: set_eapol_sm.cases; simp add: ieee802_1x_notify_port_enabled_def
      ieee802_1x_notify_port_valid_def eapol_auth_step_def eloop_def)+

lemma fold_set_eapol_auto:
  "portControl s = Auto \<Longrightarrow> portControl (fold set_eapol_sm vvs s) = Auto"
  "eapSuccess (eap_if (fold set_eapol_sm vvs s)) = eapSuccess (eap_if s)"
  by (induction vvs arbitrary: s) (simp_all add: set_eapol_auto)

lemma ieee802_1x_cb_auto:
  "portControl s = Auto \<Longrightarrow> portControl (ieee802_1x_cb H a s) = Auto"
  "eapSuccess (eap_if (ieee802_1x_cb H a s)) = eapSuccess (eap_if s)"
  by (cases a; simp add: ieee802_1x_aaa_send_def ieee802_1x_learn_identity_def ieee802_1x_abort_auth_def
      ieee802_1x_eapol_event_def fold_set_eapol_auto split: option.split)+

interpretation hostapd: eapol_auto_owner "hostapd_env H"
  by unfold_locales
     (simp_all add: hostapd_env_def owner_form_ex[OF ieee802_1x_cb_form] ieee802_1x_cb_auto)

interpretation alloc: eapol_invalid_owner "alloc_env H"
  by unfold_locales (simp_all add: alloc_env_def owner_form_ex[OF owner_form_refl])

text \<open>A WPA authenticator that never opens the port on its own, and one that never approves it.\<close>

definition wpa_quiet :: "'e hapd \<Rightarrow> bool" where
  "wpa_quiet H \<longleftrightarrow> (\<forall>ev sm. (WPA_EAPOL_authorized, True) \<notin> set (wpa_calls H ev sm))"

definition wpa_withholds :: "'e hapd \<Rightarrow> bool" where
  "wpa_withholds H \<longleftrightarrow> wpa_quiet H \<and> (\<forall>ev sm. (WPA_EAPOL_portValid, True) \<notin> set (wpa_calls H ev sm))"

lemma set_eapol_quiet:
  "(WPA_EAPOL_authorized, True) \<noteq> vv \<Longrightarrow> Wpa_authorized True \<notin> set (out s) \<Longrightarrow>
     Wpa_authorized True \<notin> set (out (set_eapol_sm vv s))"
  "(WPA_EAPOL_portValid, True) \<noteq> vv \<Longrightarrow> \<not> portValid s \<Longrightarrow> \<not> portValid (set_eapol_sm vv s)"
  by (cases "(vv, s)" rule: set_eapol_sm.cases; simp add: ieee802_1x_notify_port_enabled_def
      ieee802_1x_notify_port_valid_def eapol_auth_step_def eloop_def)+

lemma fold_set_eapol_quiet:
  "(WPA_EAPOL_authorized, True) \<notin> set vvs \<Longrightarrow> Wpa_authorized True \<notin> set (out s) \<Longrightarrow>
     Wpa_authorized True \<notin> set (out (fold set_eapol_sm vvs s))"
  "(WPA_EAPOL_portValid, True) \<notin> set vvs \<Longrightarrow> \<not> portValid s \<Longrightarrow> \<not> portValid (fold set_eapol_sm vvs s)"
  by (induction vvs arbitrary: s) (simp_all add: set_eapol_quiet)

lemma ieee802_1x_cb_quiet:
  "wpa_quiet H \<Longrightarrow> Wpa_authorized True \<notin> set (out s) \<Longrightarrow> Wpa_authorized True \<notin> set (out (ieee802_1x_cb H a s))"
  "wpa_withholds H \<Longrightarrow> \<not> portValid s \<Longrightarrow> \<not> portValid (ieee802_1x_cb H a s)"
  by (cases a; simp add: ieee802_1x_aaa_send_def ieee802_1x_learn_identity_def ieee802_1x_abort_auth_def
      ieee802_1x_eapol_event_def wpa_quiet_def wpa_withholds_def fold_set_eapol_quiet split: option.split)+

lemma quiet_owner: "wpa_quiet H \<Longrightarrow> eapol_quiet_owner (hostapd_env H)"
  by unfold_locales (simp_all add: hostapd_env_def ieee802_1x_cb_quiet)

lemma invalid_owner: "wpa_withholds H \<Longrightarrow> eapol_invalid_owner (hostapd_env H)"
  by (intro eapol_invalid_owner.intro eapol_invalid_owner_axioms.intro quiet_owner)
     (simp_all add: hostapd_env_def ieee802_1x_cb_quiet wpa_withholds_def)

section \<open>What the operations on a station leave alone\<close>

definition sm_view :: "'e eapol_state_machine \<Rightarrow> pae_view \<times> PortTypes \<times> bool \<times> bool \<times> bool \<times> bool" where
  "sm_view s = (pae_view s, portControl s, portValid s, authSuccess s, eapSuccess (eap_if s),
     Wpa_authorized True \<in> set (out s))"

abbreviation sta_view :: "'e sta_info \<Rightarrow> (pae_view \<times> PortTypes \<times> bool \<times> bool \<times> bool \<times> bool) option" where
  "sta_view sta \<equiv> map_option sm_view (eapol_sm sta)"

lemma sta_call_sm [simp]: "eapol_sm (sta_call H a sta) = eapol_sm sta" "wpa_sm (sta_call H a sta) = wpa_sm sta"
  by (cases a; simp add: ieee802_1x_set_sta_authorized_def ap_sta_set_authorized_def ieee802_1x_send_def Let_def)+

lemma fold_sta_call_sm [simp]:
  "eapol_sm (fold (sta_call H) as sta) = eapol_sm sta" "wpa_sm (fold (sta_call H) as sta) = wpa_sm sta"
  by (induction as arbitrary: sta) simp_all

lemma rx_dispatch_view: "sta_view (rx_dispatch H type payload sta) = sta_view sta"
  by (cases "eapol_sm sta")
     (simp_all add: rx_dispatch_def handle_eap_def handle_eap_response_def Let_def sm_view_def pae_view_def
       split: option.split)

lemma auth_step_sm_view [simp]: "sm_view (eapol_auth_step sm) = sm_view sm"
  by (simp add: sm_view_def pae_view_def eapol_auth_step_def eloop_def)

lemma sm_view_other [simp]:
  "sm_view (s\<lparr>ctrs := x1\<rparr>) = sm_view s" "sm_view (s\<lparr>flags := x2\<rparr>) = sm_view s"
  "sm_view (upd_if (\<lambda>i. i\<lparr>portEnabled := b\<rparr>) s) = sm_view s" "sm_view (s\<lparr>reAuthenticate := x3\<rparr>) = sm_view s"
  by (simp_all add: sm_view_def)

text \<open>A property of the view, for a station that may have no state machine.\<close>

definition sta_ok :: "(pae_view \<times> PortTypes \<times> bool \<times> bool \<times> bool \<times> bool \<Rightarrow> bool) \<Rightarrow> 'e sta_info \<Rightarrow> bool" where
  "sta_ok Q sta \<longleftrightarrow> (case sta_view sta of None \<Rightarrow> True | Some v \<Rightarrow> Q v)"

lemma sta_ok_cong: "sta_view u = sta_view v \<Longrightarrow> sta_ok Q u = sta_ok Q v"
  by (simp add: sta_ok_def)

lemma sta_ok_upd [simp]:
  "sta_ok Q (sta\<lparr>acts := x1\<rparr>) = sta_ok Q sta" "sta_ok Q (sta\<lparr>vlan_id := x2\<rparr>) = sta_ok Q sta"
  "sta_ok Q (fold (sta_call H) as sta) = sta_ok Q sta"
  by (cases "eapol_sm sta"; simp add: sta_ok_def)+

lemma sta_ok_upd_sm [simp]:
  "(\<And>s. sm_view (g s) = sm_view s) \<Longrightarrow> sta_ok Q (upd_sm g sta) = sta_ok Q sta"
  by (cases "eapol_sm sta") (simp_all add: sta_ok_def)

lemma sta_ok_dispatch [simp]: "sta_ok Q (rx_dispatch H type payload sta) = sta_ok Q sta"
  by (rule sta_ok_cong) (rule rx_dispatch_view)

text \<open>What holds of every newly allocated machine and before a frame holds after it.\<close>

definition allocs_ok :: "(pae_view \<times> PortTypes \<times> bool \<times> bool \<times> bool \<times> bool \<Rightarrow> bool) \<Rightarrow> 'e hapd \<Rightarrow> bool" where
  "allocs_ok Q H \<longleftrightarrow> (\<forall>u sm. ieee802_1x_alloc_eapol_sm H u = Some sm \<longrightarrow> Q (sm_view sm))"

lemma alloc_into_ok: "allocs_ok Q H \<Longrightarrow> alloc_into H sta = Some u \<Longrightarrow> sta_ok Q u"
  by (auto simp: alloc_into_def allocs_ok_def) (simp add: sta_ok_def)

lemma ensure_ok: "allocs_ok Q H \<Longrightarrow> sta_ok Q sta \<Longrightarrow> rx_ensure_sm H sta = Some u \<Longrightarrow> sta_ok Q u"
  by (auto simp: rx_ensure_sm_def alloc_into_ok split: if_splits)

lemma rx_ok:
  assumes "allocs_ok Q H" "sta_ok Q sta"
  shows "sta_ok Q (the (ieee802_1x_receive H buf (Some sta)))"
proof -
  have "sta_ok Q u" if "rx_ensure_sm H (upd_sm (upd_ctr f) sta) = Some u" for f u
    using that by (rule ensure_ok[OF assms(1), rotated]) (simp add: assms(2))
  then show ?thesis
    using assms(2) by (simp add: ieee802_1x_receive_def Let_def split: option.split)
qed

lemma to_eapol_data_view [simp]: "sm_view (fst (pmksa_cache_to_eapol_data m e s)) = sm_view s"
  by (simp add: pmksa_cache_to_eapol_data_def sm_view_def pae_view_def)

text \<open>An association keeps what the shortcut for a cached key keeps.\<close>

definition skips_ok :: "(pae_view \<times> PortTypes \<times> bool \<times> bool \<times> bool \<times> bool \<Rightarrow> bool) \<Rightarrow> 'e hapd \<Rightarrow> 'e sta_info \<Rightarrow> bool" where
  "skips_ok Q H sta \<longleftrightarrow> wpa_auth_sta_get_pmksa (wpa_sm sta) = None \<or>
     (\<forall>sm. Q (sm_view sm) \<longrightarrow> Q (sm_view (skip_to_success H sm)))"

lemma new_station_start_ok:
  "sta_ok Q sta \<Longrightarrow> skips_ok Q H sta \<Longrightarrow> sta_ok Q (new_station_start H b sta)"
  by (cases "eapol_sm sta")
     (auto simp: new_station_start_def sta_ok_def skips_ok_def Let_def split: option.split)

lemma new_station_ok:
  assumes "allocs_ok Q H" "sta_ok Q sta" "skips_ok Q H sta"
  shows "sta_ok Q (ieee802_1x_new_station H sta)"
proof -
  have "skips_ok Q H u" if "alloc_into H sta = Some u" for u
    using that assms(3) by (auto simp: alloc_into_def skips_ok_def)
  then show ?thesis
    using assms alloc_into_ok[OF assms(1)]
    by (auto simp: ieee802_1x_new_station_def new_station_start_ok split: option.split)
qed


section \<open>A station under any sequence of events\<close>

text \<open>What the machines themselves keep.\<close>

definition runs_ok :: "(pae_view \<times> PortTypes \<times> bool \<times> bool \<times> bool \<times> bool \<Rightarrow> bool) \<Rightarrow> 'e hapd \<Rightarrow> bool" where
  "runs_ok Q H \<longleftrightarrow> (\<forall>sm. Q (sm_view sm) \<longrightarrow> Q (sm_view (eapol_sm_step_run (hostapd_env H) sm)) \<and>
     Q (sm_view (eapol_port_timers_tick (hostapd_env H) sm)))"

text \<open>What a WPA decision does to the view.\<close>

fun set_view :: "wpa_eapol_variable \<times> bool \<Rightarrow> pae_view \<times> PortTypes \<times> bool \<times> bool \<times> bool \<times> bool \<Rightarrow>
    pae_view \<times> PortTypes \<times> bool \<times> bool \<times> bool \<times> bool" where
  "set_view (WPA_EAPOL_portValid, b) (v, pc, pv, r) = (v, pc, b, r)"
| "set_view (WPA_EAPOL_portControl_Auto, b) (v, pc, pv, r) = (v, Auto, pv, r)"
| "set_view _ w = w"

lemma set_eapol_view:
  "var \<noteq> WPA_EAPOL_authorized \<Longrightarrow> sm_view (set_eapol_sm (var, b) s) = set_view (var, b) (sm_view s)"
  by (cases var) (simp_all add: sm_view_def pae_view_def ieee802_1x_notify_port_enabled_def
      ieee802_1x_notify_port_valid_def eapol_auth_step_def eloop_def)

definition wpa_sets_ok :: "(pae_view \<times> PortTypes \<times> bool \<times> bool \<times> bool \<times> bool \<Rightarrow> bool) \<Rightarrow> sta_event \<Rightarrow> bool" where
  "wpa_sets_ok Q e \<longleftrightarrow> (\<forall>var b v. e = Wpa_set var b \<longrightarrow> Q v \<longrightarrow> Q (set_view (var, b) v))"

lemma run_sm_ok: "sta_ok Q sta \<Longrightarrow> (\<And>sm. Q (sm_view sm) \<Longrightarrow> Q (sm_view (f sm))) \<Longrightarrow> sta_ok Q (run_sm H f sta)"
  by (cases "eapol_sm sta") (simp_all add: run_sm_def sta_ok_def)

lemma set_authorized_sm [simp]:
  "eapol_sm (ieee802_1x_set_sta_authorized b sta) = eapol_sm sta"
  "wpa_sm (ieee802_1x_set_sta_authorized b sta) = wpa_sm sta"
  using sta_call_sm[of H "Set_port_authorized b" sta for H] by simp_all

lemma wpa_set_ok:
  assumes "wpa_sets_ok Q (Wpa_set var b)" "sta_ok Q sta"
  shows "sta_ok Q (hostapd_wpa_auth_set_eapol H (var, b) sta)"
  using assms
  by (cases "eapol_sm sta")
     (simp_all add: hostapd_wpa_auth_set_eapol_def sta_ok_def wpa_sets_ok_def set_eapol_view
       del: split_paired_All)

lemma sta_step_ok:
  assumes "allocs_ok Q H" "runs_ok Q H" "skips_ok Q H sta" "wpa_sets_ok Q e" "sta_ok Q sta"
  shows "sta_ok Q (sta_step (H, e) sta)"
proof (cases e)
  case (Rx_frame buf)
  then show ?thesis using rx_ok[OF assms(1,5)] by simp
next
  case New_station
  then show ?thesis using new_station_ok[OF assms(1,5,3)] by simp
next
  case Run_step
  have "sta_ok Q (run_sm H (eapol_sm_step_cb (hostapd_env H)) sta)"
    using assms(2) by (intro run_sm_ok assms(5)) (simp add: runs_ok_def eapol_sm_step_cb_def)
  with Run_step show ?thesis by simp
next
  case Run_tick
  have "sta_ok Q (run_sm H (eapol_port_timers_tick (hostapd_env H)) sta)"
    using assms(2) by (intro run_sm_ok assms(5)) (simp add: runs_ok_def)
  with Run_tick show ?thesis by simp
next
  case (Wpa_set var b)
  then show ?thesis using wpa_set_ok assms(4,5) by simp
next
  case (Notify_pre_auth b)
  then show ?thesis using assms(5) by (simp add: ieee802_1x_notify_pre_auth_def)
next
  case Free_station
  then show ?thesis by (simp add: ieee802_1x_free_station_def sta_ok_def)
qed

lemma no_pmksa_step:
  assumes "wpa_auth_sta_get_pmksa (wpa_sm sta) = None"
  shows "wpa_auth_sta_get_pmksa (wpa_sm (sta_step (H, e) sta)) = None"
proof -
  have d: "wpa_sm (rx_dispatch H t p u) = wpa_sm u" if "wpa_auth_sta_get_pmksa (wpa_sm u) = None" for t p and u :: "'a sta_info"
    using that by (simp add: rx_dispatch_def handle_eap_def handle_eap_response_def Let_def)
  have al: "wpa_sm u = wpa_sm v" if "alloc_into H v = Some u" for u v
    using that by (auto simp: alloc_into_def)
  have en: "wpa_sm u = wpa_sm v" if "rx_ensure_sm H v = Some u" for u v
    using that al by (auto simp: rx_ensure_sm_def split: if_splits)
  show ?thesis
  proof (cases e)
    case (Rx_frame buf)
    then show ?thesis using assms en
      by (auto simp: ieee802_1x_receive_def Let_def d split: option.split)
  next
    case New_station
    then show ?thesis using assms al
      by (auto simp: ieee802_1x_new_station_def new_station_start_def Let_def split: option.split)
  qed (use assms in \<open>auto simp: run_sm_def hostapd_wpa_auth_set_eapol_def ieee802_1x_free_station_def
        split: option.split\<close>)
qed


subsection \<open>The three invariants\<close>

type_synonym sview = "pae_view \<times> PortTypes \<times> bool \<times> bool \<times> bool \<times> bool"

fun view_auto :: "sview \<Rightarrow> bool" where
  "view_auto ((st, port, mode, count, limit, told), pc, pv, succ, esucc, w) \<longleftrightarrow>
     pc = Auto \<and> mode \<noteq> ForceAuthorized \<and> mode \<noteq> ForceUnauthorized \<and>
     st \<notin> {AUTH_PAE_FORCE_AUTH, AUTH_PAE_FORCE_UNAUTH}"

fun view_closed :: "sview \<Rightarrow> bool" where
  "view_closed ((st, port, mode, count, limit, told), pc, pv, succ, esucc, w) \<longleftrightarrow>
     st \<noteq> AUTH_PAE_AUTHENTICATED \<and> True \<notin> set told \<and> \<not> w"

definition Q_port :: "sview \<Rightarrow> bool" where
  "Q_port v \<longleftrightarrow> view_auto v \<and> port_ok (fst v)"

definition Q_success :: "sview \<Rightarrow> bool" where
  "Q_success v \<longleftrightarrow> view_auto v \<and> view_closed v \<and> (case v of (_, _, _, succ, esucc, _) \<Rightarrow> \<not> succ \<and> \<not> esucc)"

definition Q_valid :: "sview \<Rightarrow> bool" where
  "Q_valid v \<longleftrightarrow> view_auto v \<and> view_closed v \<and> (case v of (_, _, pv, _) \<Rightarrow> \<not> pv)"

lemma view_auto_iff: "view_auto (sm_view s) \<longleftrightarrow> auto_mode s"
  by (simp add: sm_view_def pae_view_def auto_mode_def)

lemma Q_iffs:
  "Q_port (sm_view s) \<longleftrightarrow> auto_mode s \<and> port_inv s"
  "Q_success (sm_view s) \<longleftrightarrow> no_success s"
  "Q_valid (sm_view s) \<longleftrightarrow> not_valid s"
  unfolding Q_port_def Q_success_def Q_valid_def view_auto_iff no_success_def not_valid_def port_closed_def
  by (simp_all add: port_inv_def sm_view_def pae_view_def conj_ac)

lemma alloc_cases:
  assumes "ieee802_1x_alloc_eapol_sm H u = Some sm"
  obtains ea a fl e i where "sm = eapol_auth_initialize (alloc_env H) (eapol_auth_fresh ea a fl e i)"
    "eapol_auth H = Some ea" "eap_init H = Some (e, i)"
proof -
  from assms obtain ea e i where "eapol_auth H = Some ea" "eap_init H = Some (e, i)"
    by (cases "eapol_auth H"; cases "eap_init H")
       (auto simp: ieee802_1x_alloc_eapol_sm_def eapol_auth_alloc_def Let_def split: if_splits)
  moreover from this assms have "\<exists>fl. sm = eapol_auth_initialize (alloc_env H) (eapol_auth_fresh ea (sta_addr u) fl e i)"
    unfolding ieee802_1x_alloc_eapol_sm_def eapol_auth_alloc_def Let_def
    by (cases "zalloc_ok H") auto
  ultimately show ?thesis using that by blast
qed

definition eap_never_succeeds :: "'e hapd \<Rightarrow> bool" where
  "eap_never_succeeds H \<longleftrightarrow> (\<forall>e i. \<not> eapSuccess i \<longrightarrow> \<not> eapSuccess (snd (snd (eap_step H e i)))) \<and>
     (\<forall>e i. eap_init H = Some (e, i) \<longrightarrow> \<not> eapSuccess i)"

definition wpa_configured :: "'e hapd \<Rightarrow> bool" where
  "wpa_configured H \<longleftrightarrow> (\<forall>ea. eapol_auth H = Some ea \<longrightarrow> conf_wpa (ea_conf ea) \<noteq> 0)"

lemma fresh_inv:
  "auto_mode (eapol_auth_fresh ea a fl e i)" "port_inv (eapol_auth_fresh ea a fl e i)"
  "\<not> eapSuccess i \<Longrightarrow> no_success (eapol_auth_fresh ea a fl e i)"
  "conf_wpa (ea_conf ea) \<noteq> 0 \<Longrightarrow> not_valid (eapol_auth_fresh ea a fl e i)"
  by (simp_all add: eapol_auth_fresh_def auto_mode_def port_inv_def pae_view_def port_told_def
      no_success_def not_valid_def port_closed_def)

lemma Q_allocs:
  "allocs_ok Q_port H" "eap_never_succeeds H \<Longrightarrow> allocs_ok Q_success H" "wpa_configured H \<Longrightarrow> allocs_ok Q_valid H"
proof -
  show "allocs_ok Q_port H" unfolding allocs_ok_def Q_iffs
    by (auto elim!: alloc_cases intro: alloc.auto_mode_runs alloc.port_runs fresh_inv)
  show "allocs_ok Q_success H" if "eap_never_succeeds H" unfolding allocs_ok_def Q_iffs
    using that by (auto elim!: alloc_cases intro!: alloc.no_success_runs(3) fresh_inv
        simp: eap_never_succeeds_def alloc_env_def[of H])
  show "allocs_ok Q_valid H" if "wpa_configured H" unfolding allocs_ok_def Q_iffs
    using that by (auto elim!: alloc_cases intro!: alloc.not_valid_runs(3) fresh_inv simp: wpa_configured_def)
qed

lemma hostapd_env_sel [simp]: "env_eap_step (hostapd_env H) = eap_step H"
  by (simp add: hostapd_env_def)

lemma Q_runs:
  "runs_ok Q_port H" "eap_never_succeeds H \<Longrightarrow> wpa_quiet H \<Longrightarrow> runs_ok Q_success H"
  "wpa_withholds H \<Longrightarrow> runs_ok Q_valid H"
proof -
  show "runs_ok Q_port H" unfolding runs_ok_def Q_iffs
    by (auto intro: hostapd.auto_mode_runs hostapd.port_runs)
  show "runs_ok Q_success H" if "eap_never_succeeds H" "wpa_quiet H" unfolding runs_ok_def Q_iffs
    using eapol_quiet_owner.no_success_runs(1,2)[OF quiet_owner[OF that(2)]] that(1)
    by (auto simp: eap_never_succeeds_def)
  show "runs_ok Q_valid H" if "wpa_withholds H" unfolding runs_ok_def Q_iffs
    using eapol_invalid_owner.not_valid_runs(1,2)[OF invalid_owner[OF that]] by auto
qed

lemma Q_skips: "skips_ok Q_port H sta" "skips_ok Q_valid H sta"
  by (auto simp: skips_ok_def Q_port_def Q_valid_def skip_to_success_def sm_view_def pae_view_def)

lemma Q_sets:
  "wpa_sets_ok Q_port e" "wpa_sets_ok Q_success e"
  "e \<noteq> Wpa_set WPA_EAPOL_portValid True \<Longrightarrow> wpa_sets_ok Q_valid e"
proof -
  have "Q_port v \<Longrightarrow> Q_port (set_view vb v)" "Q_success v \<Longrightarrow> Q_success (set_view vb v)"
    "vb \<noteq> (WPA_EAPOL_portValid, True) \<Longrightarrow> Q_valid v \<Longrightarrow> Q_valid (set_view vb v)" for v vb
    by (cases "(vb, v)" rule: set_view.cases; auto simp: Q_port_def Q_success_def Q_valid_def)+
  then show "wpa_sets_ok Q_port e" "wpa_sets_ok Q_success e"
    "e \<noteq> Wpa_set WPA_EAPOL_portValid True \<Longrightarrow> wpa_sets_ok Q_valid e"
    unfolding wpa_sets_ok_def by blast+
qed


subsection \<open>The port of the station\<close>

definition sta_closed :: "'e sta_info \<Rightarrow> bool" where
  "sta_closed sta \<longleftrightarrow> \<not> sta_has WLAN_STA_AUTHORIZED sta \<and> Set_authorized True \<notin> set (acts sta)"

lemma sta_closed_upd [simp]:
  "sta_closed (sta\<lparr>eapol_sm := x1\<rparr>) = sta_closed sta" "sta_closed (sta\<lparr>wpa_sm := x2\<rparr>) = sta_closed sta"
  "sta_closed (sta\<lparr>vlan_id := x3\<rparr>) = sta_closed sta" "sta_closed (sta\<lparr>acct_terminate_cause := x4\<rparr>) = sta_closed sta"
  "a \<noteq> Set_authorized True \<Longrightarrow> acts sta = as \<Longrightarrow> sta_closed (sta\<lparr>acts := as @ [a]\<rparr>) = sta_closed sta"
  by (simp_all add: sta_closed_def sta_has_def)

lemma not_mask: "((f :: u32) AND NOT m) AND m = 0"
  by (simp add: bit_eq_iff bit_simps)

lemma sta_call_closed:
  "sta_closed sta \<Longrightarrow> a \<noteq> Set_port_authorized True \<Longrightarrow> a \<noteq> Wpa_authorized True \<Longrightarrow> sta_closed (sta_call H a sta)"
  by (cases "(H, a, sta)" rule: sta_call.cases)
     (auto simp: ieee802_1x_set_sta_authorized_def ap_sta_set_authorized_def ieee802_1x_send_def Let_def
        sta_closed_def sta_has_def not_mask)

lemma fold_sta_call_closed:
  "sta_closed sta \<Longrightarrow> Set_port_authorized True \<notin> set as \<Longrightarrow> Wpa_authorized True \<notin> set as \<Longrightarrow>
     sta_closed (fold (sta_call H) as sta)"
proof (induction as arbitrary: sta)
  case (Cons a as)
  have "a \<noteq> Set_port_authorized True" "a \<noteq> Wpa_authorized True" using Cons.prems(2,3) by auto
  from Cons.IH[OF sta_call_closed[OF Cons.prems(1) this]] Cons.prems(2,3) show ?case by simp
qed simp

lemma ports_mem: "True \<in> set (ports as) \<longleftrightarrow> Set_port_authorized True \<in> set as"
  by (induction as rule: ports.induct) auto

lemma calls_closed:
  assumes "port_closed sm" "sta_closed sta" "set as \<subseteq> set (out sm)"
  shows "sta_closed (fold (sta_call H) as sta)"
  using assms ports_mem[of "out sm"] by (intro fold_sta_call_closed) (auto simp: port_closed_def)

lemma Q_closed: "Q (sm_view s) \<Longrightarrow> Q \<in> {Q_success, Q_valid} \<Longrightarrow> port_closed s"
  by (auto simp: Q_iffs no_success_def not_valid_def)

lemma run_sm_closed:
  assumes "sta_closed sta" "sta_ok Q (run_sm H f sta)" "Q \<in> {Q_success, Q_valid}"
  shows "sta_closed (run_sm H f sta)"
proof (cases "eapol_sm sta")
  case (Some sm)
  with assms(2,3) have "port_closed (f sm)" by (auto simp: run_sm_def sta_ok_def intro: Q_closed)
  then show ?thesis using Some assms(1)
    by (auto simp: run_sm_def new_calls_def intro!: calls_closed dest: in_set_dropD)
qed (simp add: run_sm_def assms(1))

lemma alloc_into_closed:
  assumes "sta_closed sta" "allocs_ok Q H" "Q \<in> {Q_success, Q_valid}" "alloc_into H sta = Some u"
  shows "sta_closed u"
  using assms Q_closed[of Q] by (auto simp: alloc_into_def allocs_ok_def intro!: calls_closed)

lemma rx_dispatch_closed: "sta_closed sta \<Longrightarrow> sta_closed (rx_dispatch H type payload sta)"
  by (simp add: rx_dispatch_def handle_eap_def handle_eap_response_def Let_def sta_closed_def sta_has_def
      split: option.split)

lemma sta_step_closed:
  assumes "sta_closed sta" "allocs_ok Q H" "Q \<in> {Q_success, Q_valid}" "sta_ok Q (sta_step (H, e) sta)"
    and "e \<noteq> Wpa_set WPA_EAPOL_authorized True"
  shows "sta_closed (sta_step (H, e) sta)"
proof (cases e)
  case (Rx_frame buf)
  have "sta_closed u" if "rx_ensure_sm H (upd_sm f sta) = Some u" for f u
    using that assms(1) alloc_into_closed[OF _ assms(2,3), of "upd_sm f sta"]
    by (auto simp: rx_ensure_sm_def split: if_splits)
  then show ?thesis using assms(1) Rx_frame
    by (simp add: ieee802_1x_receive_def Let_def rx_dispatch_closed split: option.split)
next
  case New_station
  have st: "sta_closed (new_station_start H b u)" if "sta_closed u" for b u
    using that by (simp add: new_station_start_def Let_def sta_closed_def sta_has_def split: option.split)
  show ?thesis using assms(1) New_station alloc_into_closed[OF assms(1-3)]
    by (simp add: ieee802_1x_new_station_def st split: option.split)
next
  case Run_step
  then show ?thesis using assms run_sm_closed[of sta Q H] by simp
next
  case Run_tick
  then show ?thesis using assms run_sm_closed[of sta Q H] by simp
next
  case (Wpa_set var b)
  then show ?thesis using assms(1,5) sta_call_closed[OF assms(1), of "Set_port_authorized b" H]
    by (auto simp: hostapd_wpa_auth_set_eapol_def)
next
  case (Notify_pre_auth b)
  then show ?thesis using assms(1) by simp
next
  case Free_station
  then show ?thesis using assms(1) by (simp add: ieee802_1x_free_station_def)
qed


subsection \<open>Runs\<close>

lemma run_port_ok:
  assumes "sta_ok Q_port sta"
  shows "sta_ok Q_port (run_events sta_step evs sta)"
  using assms
proof (induction evs arbitrary: sta)
  case (Cons ev evs)
  obtain H e where ev: "ev = (H, e)" by force
  have "sta_ok Q_port (sta_step (H, e) sta)"
    by (rule sta_step_ok[OF Q_allocs(1) Q_runs(1) Q_skips(1) Q_sets(1) Cons.prems])
  then show ?case using Cons.IH ev by simp
qed simp

text \<open>The events of a run in which nobody reports success, and in which the WPA authenticator does
  not approve the port.\<close>

fun without_success :: "'e hapd \<times> sta_event \<Rightarrow> bool" where
  "without_success (H, e) \<longleftrightarrow> eap_never_succeeds H \<and> wpa_quiet H \<and> e \<noteq> Wpa_set WPA_EAPOL_authorized True"

fun without_approval :: "'e hapd \<times> sta_event \<Rightarrow> bool" where
  "without_approval (H, e) \<longleftrightarrow> wpa_configured H \<and> wpa_withholds H \<and>
     e \<noteq> Wpa_set WPA_EAPOL_authorized True \<and> e \<noteq> Wpa_set WPA_EAPOL_portValid True"

lemma run_success_ok:
  assumes "list_all without_success evs" "sta_ok Q_success sta" "sta_closed sta"
    and "wpa_auth_sta_get_pmksa (wpa_sm sta) = None"
  shows "sta_closed (run_events sta_step evs sta)"
  using assms
proof (induction evs arbitrary: sta)
  case (Cons ev evs)
  obtain H e where ev: "ev = (H, e)" by force
  have h: "eap_never_succeeds H" "wpa_quiet H" "e \<noteq> Wpa_set WPA_EAPOL_authorized True" "list_all without_success evs"
    using Cons.prems(1) by (simp_all add: ev)
  have ok: "sta_ok Q_success (sta_step (H, e) sta)"
    by (rule sta_step_ok[OF Q_allocs(2)[OF h(1)] Q_runs(2)[OF h(1,2)] _ Q_sets(2) Cons.prems(2)])
       (simp add: skips_ok_def Cons.prems(4))
  have "sta_closed (sta_step (H, e) sta)"
    using sta_step_closed[OF Cons.prems(3) Q_allocs(2)[OF h(1)] _ ok h(3)] by simp
  from Cons.IH[OF h(4) ok this no_pmksa_step[OF Cons.prems(4)]] show ?case by (simp add: ev)
qed simp

lemma run_approval_ok:
  assumes "list_all without_approval evs" "sta_ok Q_valid sta" "sta_closed sta"
  shows "sta_closed (run_events sta_step evs sta)"
  using assms
proof (induction evs arbitrary: sta)
  case (Cons ev evs)
  obtain H e where ev: "ev = (H, e)" by force
  have h: "wpa_configured H" "wpa_withholds H" "e \<noteq> Wpa_set WPA_EAPOL_authorized True"
    "e \<noteq> Wpa_set WPA_EAPOL_portValid True" "list_all without_approval evs"
    using Cons.prems(1) by (simp_all add: ev)
  have ok: "sta_ok Q_valid (sta_step (H, e) sta)"
    by (rule sta_step_ok[OF Q_allocs(3)[OF h(1)] Q_runs(3)[OF h(2)] Q_skips(2) Q_sets(3)[OF h(4)] Cons.prems(2)])
  have "sta_closed (sta_step (H, e) sta)"
    using sta_step_closed[OF Cons.prems(3) Q_allocs(3)[OF h(1)] _ ok h(3)] by simp
  from Cons.IH[OF h(5) ok this] show ?case by (simp add: ev)
qed simp

lemma no_sm_ok: "eapol_sm sta = None \<Longrightarrow> sta_ok Q sta"
  by (simp add: sta_ok_def)

section \<open>Claims\<close>

text \<open>A BSS with an EAP server that never moves, for the examples.\<close>

definition idle_if :: eap_eapol_interface where
  "idle_if = \<lparr>eapResp = False, eapRespData = None, portEnabled = False, retransWhile = 0, eapRestart = False,
     eapSRTT = 0, eapRTTVAR = 0, eapReq = False, eapNoReq = False, eapSuccess = False, eapFail = False,
     eapTimeout = False, eapReqData = None, eapKeyData = None, eapKeyAvailable = False, aaaEapReq = False,
     aaaEapNoReq = False, aaaSuccess = False, aaaFail = False, aaaEapReqData = None, aaaEapKeyData = None,
     aaaEapKeyAvailable = False, aaaMethodTimeout = 0, aaaEapResp = False, aaaEapRespData = None,
     aaaTimeout = False\<rparr>"

definition idle_hapd :: "unit hapd" where
  "idle_hapd = \<lparr>conf = \<lparr>hc_ieee802_1x = 1, hc_wpa = 2, hc_wps_state = 0, hc_eapol_version = 2, hc_dynamic_vlan = 0\<rparr>,
     eapol_auth = Some \<lparr>ea_conf = \<lparr>eap_reauth_period = 3600, conf_wpa = 1, individual_wep_key_len = 0\<rparr>,
       default_wep_key = None, default_wep_key_idx = 0\<rparr>,
     zalloc_ok = True, eap_init = Some ((), idle_if), eap_step = (\<lambda>e i. (False, e, i)),
     eap_identity = (\<lambda>e. None), eap_clear_identity = id, eap_notify_cached = id, radius_id = 0,
     tx_key_frames = 0, wpa_calls = (\<lambda>ev sm. []), alive = (\<lambda>sm. True),
     pm_mem = \<lparr>m_entry = None, m_identity = True, m_class = 0\<rparr>\<rparr>"

definition idle_sta :: "unit sta_info" where
  "idle_sta = \<lparr>sta_flags = 2, sta_addr = [0, 3, 0x7f, 0, 0, 1], eapol_sm = None,
     wpa_sm = Some \<lparr>wv_key_mgmt = 1, wv_pmksa = None, wv_pairwise_set = False\<rparr>, vlan_id = 0,
     acct_terminate_cause = 0, acts = []\<rparr>"



text \<open>C27. No access without authentication: as long as the EAP server does not report success, no cached
  key is attached to the station and the WPA authenticator does not authorize it on its own, no sequence
  of frames and events gets the station authorized: its flag stays clear and the driver is never told
  to open the port.\<close>

theorem no_port_without_success:
  assumes "list_all without_success evs"
    and "eapol_sm sta = None" and "wpa_auth_sta_get_pmksa (wpa_sm sta) = None"
    and "\<not> sta_has WLAN_STA_AUTHORIZED sta" and "Set_authorized True \<notin> set (acts sta)"
  shows "\<not> sta_has WLAN_STA_AUTHORIZED (run_events sta_step evs sta) \<and>
    Set_authorized True \<notin> set (acts (run_events sta_step evs sta))"
  using run_success_ok[OF assms(1) no_sm_ok[OF assms(2)] _ assms(3)] assms(4,5)
  by (simp add: sta_closed_def)

theorem no_port_without_success_witness:
  "\<not> sta_has WLAN_STA_AUTHORIZED (run_events sta_step
      [(idle_hapd, New_station), (idle_hapd, Run_step), (idle_hapd, Rx_frame [1, 1, 0, 0]), (idle_hapd, Run_tick)] idle_sta) \<and>
    Set_authorized True \<notin> set (acts (run_events sta_step
      [(idle_hapd, New_station), (idle_hapd, Run_step), (idle_hapd, Rx_frame [1, 1, 0, 0]), (idle_hapd, Run_tick)] idle_sta))"
  by (rule no_port_without_success)
     (simp_all add: eap_never_succeeds_def wpa_quiet_def idle_hapd_def idle_if_def idle_sta_def
       wpa_auth_sta_get_pmksa_def sta_has_def WLAN_STA_AUTHORIZED_def)

text \<open>C28. In a WPA network the success of EAP, or a cached key, is not enough: as long as the WPA
  authenticator has neither declared the port valid nor authorized the station, no sequence of frames
  and events gets the station authorized.\<close>

theorem no_port_without_wpa_approval:
  assumes "list_all without_approval evs" and "eapol_sm sta = None"
    and "\<not> sta_has WLAN_STA_AUTHORIZED sta" and "Set_authorized True \<notin> set (acts sta)"
  shows "\<not> sta_has WLAN_STA_AUTHORIZED (run_events sta_step evs sta) \<and>
    Set_authorized True \<notin> set (acts (run_events sta_step evs sta))"
  using run_approval_ok[OF assms(1) no_sm_ok[OF assms(2)]] assms(3,4) by (simp add: sta_closed_def)

theorem no_port_without_wpa_approval_witness:
  "\<not> sta_has WLAN_STA_AUTHORIZED (run_events sta_step
      [(idle_hapd, New_station), (idle_hapd, Run_step), (idle_hapd, Wpa_set WPA_EAPOL_keyRun True)] idle_sta) \<and>
    Set_authorized True \<notin> set (acts (run_events sta_step
      [(idle_hapd, New_station), (idle_hapd, Run_step), (idle_hapd, Wpa_set WPA_EAPOL_keyRun True)] idle_sta))"
  by (rule no_port_without_wpa_approval)
     (simp_all add: wpa_configured_def wpa_withholds_def wpa_quiet_def idle_hapd_def idle_sta_def
       sta_has_def WLAN_STA_AUTHORIZED_def)

text \<open>The retry counter of the authenticator never wraps around: runs, ticks and initialisation keep
  \<^verbatim>\<open>reAuthCount\<close> at most one above the limit \<^verbatim>\<open>reAuthMax\<close>, and above the limit only in the
  states from which the machine gives up or starts over.\<close>

theorem reauth_count_bounded:
  assumes "count_inv s"
  shows "count_inv (eapol_sm_step_run (hostapd_env H) s) \<and> count_inv (eapol_port_timers_tick (hostapd_env H) s) \<and>
    count_inv (eapol_auth_initialize (hostapd_env H) s)"
  using hostapd.count_runs[OF assms] by blast

theorem reauth_count_bounded_witness:
  "count_inv (eapol_sm_step_run (hostapd_env idle_hapd) (eapol_auth_fresh (the (eapol_auth idle_hapd)) [] 0 () idle_if)) \<and>
   count_inv (eapol_port_timers_tick (hostapd_env idle_hapd) (eapol_auth_fresh (the (eapol_auth idle_hapd)) [] 0 () idle_if)) \<and>
   count_inv (eapol_auth_initialize (hostapd_env idle_hapd) (eapol_auth_fresh (the (eapol_auth idle_hapd)) [] 0 () idle_if))"
  by (rule reauth_count_bounded) (simp add: count_inv_def pae_view_def eapol_auth_fresh_def)

end
