(* ===== verification/Pmksa_Cache_Props.thy ===== *)
theory Pmksa_Cache_Props
  imports Pmksa_Cache
begin

text \<open>
  The invariant of the PMKSA cache and what it gives: the expiration list and the hash chains hold
  exactly the live entries, a lookup through a hash chain finds an entry whenever the cache has one,
  expiry removes exactly the entries whose time has come, and a new key is found afterwards.
\<close>

section \<open>Chains of addresses\<close>

lemma unlink_remove1: "unlink a xs = remove1 a xs"
  by (induction xs) auto

lemma set_insert_by_expiration [simp]: "set (insert_by_expiration f a t xs) = insert a (set xs)"
  by (induction xs) auto

lemma length_insert_by_expiration [simp]: "length (insert_by_expiration f a t xs) = Suc (length xs)"
  by (induction xs) auto

lemma distinct_insert_by_expiration:
  "a \<notin> set xs \<Longrightarrow> distinct (insert_by_expiration f a t xs) = distinct xs"
  by (induction xs) auto

lemma sorted_insert_by_expiration:
  "a \<notin> set xs \<Longrightarrow> sorted (map f xs) \<Longrightarrow> sorted (map (f(a := t)) (insert_by_expiration f a t xs))"
proof (induction xs)
  case (Cons p ps)
  have upd: "map (f(a := t)) ps = map f ps" using Cons.prems(1) by auto
  have le: "\<forall>x \<in> set ps. f p \<le> f x" using Cons.prems(2) by auto
  show ?case
  proof (cases "f p > t")
    case True
    have "map (f(a := t)) (a # p # ps) = t # f p # map f ps" using Cons.prems(1) upd by auto
    moreover have "sorted (t # f p # map f ps)" using True Cons.prems(2) le by auto
    ultimately show ?thesis using True by (simp only: insert_by_expiration.simps if_True)
  next
    case False
    then show ?thesis using Cons le by auto
  qed
qed simp

lemma sorted_map_remove1: "sorted (map f xs) \<Longrightarrow> sorted (map f (remove1 a xs))"
proof (induction xs)
  case (Cons x xs)
  then show ?case by (auto dest: notin_set_remove1 set_remove1_subset[THEN subsetD])
qed simp

section \<open>Invariant\<close>

definition expiration_of :: "rsn_pmksa_cache \<Rightarrow> eaddr \<Rightarrow> int" where
  "expiration_of c a = e_expiration (deref c a)"

definition hash_of :: "rsn_pmksa_cache \<Rightarrow> eaddr \<Rightarrow> nat" where
  "hash_of c a = PMKID_HASH (e_pmkid (deref c a))"

definition pmksa_wf :: "rsn_pmksa_cache \<Rightarrow> bool" where
  "pmksa_wf c \<longleftrightarrow>
     distinct (pmksa c) \<and> set (pmksa c) = dom (heap c) \<and>
     sorted (map (expiration_of c) (pmksa c)) \<and>
     pmksa_count c = int (length (pmksa c)) \<and>
     length (pmkid_tab c) = PMKID_HASH_SIZE \<and>
     (\<forall>h < PMKID_HASH_SIZE. distinct (pmkid_tab c ! h) \<and>
        set (pmkid_tab c ! h) = {a \<in> dom (heap c). hash_of c a = h})"

lemma PMKID_HASH_less [simp]: "PMKID_HASH p < PMKID_HASH_SIZE"
proof -
  have "unat (p ! 0 AND 0x7f) = unat (p ! 0) mod 2 ^ 7"
    using take_bit_eq_mask[of 7 "p ! 0"] unsigned_take_bit_eq[of 7 "p ! 0", where ?'a = nat]
    by (simp add: mask_eq_exp_minus_1 take_bit_eq_mod)
  then show ?thesis by (simp add: PMKID_HASH_def PMKID_HASH_SIZE_def)
qed

lemma hash_of_less [simp]: "hash_of c a < PMKID_HASH_SIZE"
  by (simp add: hash_of_def)

lemma pmksa_wfD:
  assumes "pmksa_wf c"
  shows "distinct (pmksa c)" "set (pmksa c) = dom (heap c)" "sorted (map (expiration_of c) (pmksa c))"
    "pmksa_count c = int (length (pmksa c))" "length (pmkid_tab c) = PMKID_HASH_SIZE"
    "\<And>h. h < PMKID_HASH_SIZE \<Longrightarrow> distinct (pmkid_tab c ! h)"
    "\<And>h. h < PMKID_HASH_SIZE \<Longrightarrow> set (pmkid_tab c ! h) = {a \<in> dom (heap c). hash_of c a = h}"
  using assms by (auto simp: pmksa_wf_def)

subsection \<open>Removing an entry\<close>

lemma free_entry_fields [simp]:
  "pmksa (pmksa_cache_free_entry c a) = remove1 a (pmksa c)"
  "heap (pmksa_cache_free_entry c a) = (heap c)(a := None)"
  "pmksa_count (pmksa_cache_free_entry c a) = pmksa_count c - 1"
  "timer (pmksa_cache_free_entry c a) = timer c"
  "freed (pmksa_cache_free_entry c a) = freed c @ [a]"
  "pmkid_tab (pmksa_cache_free_entry c a) =
     (pmkid_tab c)[hash_of c a := remove1 a (pmkid_tab c ! hash_of c a)]"
  by (simp_all add: pmksa_cache_free_entry_def Let_def unlink_remove1 hash_of_def)

lemma deref_free [simp]: "b \<noteq> a \<Longrightarrow> deref (pmksa_cache_free_entry c a) b = deref c b"
  by (simp add: deref_def)

lemma of_free [simp]:
  "b \<noteq> a \<Longrightarrow> expiration_of (pmksa_cache_free_entry c a) b = expiration_of c b"
  "b \<noteq> a \<Longrightarrow> hash_of (pmksa_cache_free_entry c a) b = hash_of c b"
  by (simp_all add: expiration_of_def hash_of_def)

lemma free_entry_wf:
  assumes wf: "pmksa_wf c" and a: "a \<in> dom (heap c)"
  shows "pmksa_wf (pmksa_cache_free_entry c a)"
proof -
  note D = pmksa_wfD[OF wf]
  let ?c = "pmksa_cache_free_entry c a"
  have mem: "a \<in> set (pmksa c)" using a D(2) by simp
  have "map (expiration_of ?c) (remove1 a (pmksa c)) = map (expiration_of c) (remove1 a (pmksa c))"
    using D(1) by (intro map_cong) (auto simp: set_remove1_eq)
  then have s: "sorted (map (expiration_of ?c) (pmksa ?c))"
    using sorted_map_remove1[OF D(3), of a] by (simp only: free_entry_fields)
  have cnt: "pmksa_count ?c = int (length (pmksa ?c))"
    using D(4) mem length_pos_if_in_set[OF mem] by (simp add: length_remove1 of_nat_diff Suc_leI)
  have tab: "distinct (pmkid_tab ?c ! h) \<and> set (pmkid_tab ?c ! h) = {b \<in> dom (heap ?c). hash_of ?c b = h}"
    if h: "h < PMKID_HASH_SIZE" for h
  proof -
    have "set (pmkid_tab ?c ! h) = set (pmkid_tab c ! h) - {a}"
      using D(5-7) h by (auto simp: nth_list_update set_remove1_eq)
    also have "\<dots> = {b \<in> dom (heap ?c). hash_of ?c b = h}"
      unfolding D(7)[OF h] by (auto simp del: free_entry_fields(6))
    finally show ?thesis using D(5,6) h by (simp add: nth_list_update distinct_remove1)
  qed
  show ?thesis unfolding pmksa_wf_def
    using D s cnt tab by (simp add: distinct_remove1 set_remove1_eq)
qed

subsection \<open>Linking an entry\<close>

lemma link_entry_fields [simp]:
  "pmksa (pmksa_cache_link_entry c a e) =
     insert_by_expiration (expiration_of c) a (e_expiration e) (pmksa c)"
  "heap (pmksa_cache_link_entry c a e) = (heap c)(a \<mapsto> e)"
  "pmksa_count (pmksa_cache_link_entry c a e) = pmksa_count c + 1"
  "timer (pmksa_cache_link_entry c a e) = timer c"
  "freed (pmksa_cache_link_entry c a e) = freed c"
  "pmkid_tab (pmksa_cache_link_entry c a e) =
     (pmkid_tab c)[PMKID_HASH (e_pmkid e) := a # pmkid_tab c ! PMKID_HASH (e_pmkid e)]"
  by (simp_all add: pmksa_cache_link_entry_def Let_def expiration_of_def[abs_def])

lemma deref_link [simp]:
  "deref (pmksa_cache_link_entry c a e) a = e"
  "b \<noteq> a \<Longrightarrow> deref (pmksa_cache_link_entry c a e) b = deref c b"
  by (simp_all add: deref_def)

lemma of_link:
  "expiration_of (pmksa_cache_link_entry c a e) = (expiration_of c)(a := e_expiration e)"
  "hash_of (pmksa_cache_link_entry c a e) = (hash_of c)(a := PMKID_HASH (e_pmkid e))"
  by (auto simp: expiration_of_def hash_of_def)

lemma link_entry_wf:
  assumes wf: "pmksa_wf c" and a: "a \<notin> dom (heap c)"
  shows "pmksa_wf (pmksa_cache_link_entry c a e)"
proof -
  note D = pmksa_wfD[OF wf]
  let ?c = "pmksa_cache_link_entry c a e"
  have nm: "a \<notin> set (pmksa c)" using a D(2) by simp
  have tab: "distinct (pmkid_tab ?c ! h) \<and> set (pmkid_tab ?c ! h) = {b \<in> dom (heap ?c). hash_of ?c b = h}"
    if h: "h < PMKID_HASH_SIZE" for h
  proof -
    have "a \<notin> set (pmkid_tab c ! h)" using D(7)[OF h] a by simp
    then have "distinct (pmkid_tab ?c ! h)" using D(5,6) h by (simp add: nth_list_update)
    moreover have "set (pmkid_tab ?c ! h) = {b \<in> dom (heap ?c). hash_of ?c b = h}"
      using D(5) D(7)[OF h] a h by (auto simp: nth_list_update of_link)
    ultimately show ?thesis ..
  qed
  show ?thesis unfolding pmksa_wf_def
    using D nm tab sorted_insert_by_expiration[OF nm D(3)]
    by (simp add: distinct_insert_by_expiration of_link(1))
qed


section \<open>Lookup\<close>

lemma find_entry_find: "find_entry c spa pmkid xs = List.find (\<lambda>a. entry_matches spa pmkid (deref c a)) xs"
  by (induction xs) auto

lemma find_entry_Some:
  "find_entry c spa pmkid xs = Some a \<Longrightarrow> a \<in> set xs \<and> entry_matches spa pmkid (deref c a)"
  by (auto simp: find_entry_find find_Some_iff)

lemma find_entry_None:
  "find_entry c spa pmkid xs = None \<longleftrightarrow> (\<forall>a \<in> set xs. \<not> entry_matches spa pmkid (deref c a))"
  by (auto simp: find_entry_find find_None_iff)

text \<open>The chain a lookup walks, and that it holds every entry the lookup can match.\<close>

definition chain :: "rsn_pmksa_cache \<Rightarrow> bytes option \<Rightarrow> eaddr list" where
  "chain c pmkid = (case pmkid of Some p \<Rightarrow> pmkid_tab c ! PMKID_HASH p | None \<Rightarrow> pmksa c)"

lemma set_chain:
  "pmksa_wf c \<Longrightarrow> set (chain c pmkid) =
     {a \<in> dom (heap c). case pmkid of None \<Rightarrow> True | Some p \<Rightarrow> hash_of c a = PMKID_HASH p}"
  by (simp add: chain_def pmksa_wfD split: option.split)

lemma matches_in_chain:
  assumes "pmksa_wf c" "a \<in> dom (heap c)" "entry_matches spa pmkid (deref c a)"
  shows "a \<in> set (chain c pmkid)"
  using assms by (auto simp: set_chain entry_matches_def hash_of_def split: option.splits)

lemma get_Some:
  assumes "pmksa_wf c" "pmksa_cache_auth_get c spa pmkid = Some a"
  shows "a \<in> dom (heap c) \<and> entry_matches spa pmkid (deref c a)"
  using find_entry_Some[of c spa pmkid "chain c pmkid" a] assms set_chain[OF assms(1), of pmkid]
  by (simp add: pmksa_cache_auth_get_def chain_def)

lemma get_None:
  assumes "pmksa_wf c"
  shows "pmksa_cache_auth_get c spa pmkid = None \<longleftrightarrow>
    (\<forall>a \<in> dom (heap c). \<not> entry_matches spa pmkid (deref c a))"
proof -
  have "pmksa_cache_auth_get c spa pmkid = None \<longleftrightarrow>
      (\<forall>a \<in> set (chain c pmkid). \<not> entry_matches spa pmkid (deref c a))"
    by (simp add: pmksa_cache_auth_get_def chain_def find_entry_None)
  also have "\<dots> \<longleftrightarrow> (\<forall>a \<in> dom (heap c). \<not> entry_matches spa pmkid (deref c a))"
    using matches_in_chain[OF assms] set_chain[OF assms, of pmkid] by blast
  finally show ?thesis .
qed

section \<open>Expiry\<close>

lemma free_head:
  "pmksa c = a # rest \<Longrightarrow> a \<notin> set rest \<Longrightarrow>
     pmksa_cache_free_entry (c\<lparr>pmksa := rest\<rparr>) a = pmksa_cache_free_entry c a"
  by (simp add: pmksa_cache_free_entry_def deref_def unlink_remove1 remove1_idem)

lemma expire_loop_ok:
  "pmksa_wf c \<Longrightarrow> pmksa_wf (pmksa_cache_expire_loop now c) \<and>
     heap (pmksa_cache_expire_loop now c) = heap c |` {a. expiration_of c a > now}"
proof (induction now c rule: pmksa_cache_expire_loop.induct)
  case (1 now c)
  note D = pmksa_wfD[OF "1.prems"]
  show ?case
  proof (cases "pmksa c")
    case Nil
    then have "heap c = Map.empty" using D(2) dom_eq_empty_conv[of "heap c"] by simp
    then show ?thesis using Nil "1.prems" by (subst (1 2) pmksa_cache_expire_loop.simps) simp
  next
    case (Cons a rest)
    have a: "a \<in> dom (heap c)" "a \<notin> set rest" using D(1,2) Cons by auto
    let ?c = "pmksa_cache_free_entry c a"
    show ?thesis
    proof (cases "expiration_of c a \<le> now")
      case True
      have un: "pmksa_cache_expire_loop now c = pmksa_cache_expire_loop now ?c"
        using Cons True free_head[OF Cons a(2)]
        by (subst pmksa_cache_expire_loop.simps) (simp add: expiration_of_def)
      have eq: "heap ?c |` {b. now < expiration_of ?c b} = heap c |` {b. now < expiration_of c b}"
        using True by (auto simp: restrict_map_def fun_eq_iff)
      have "e_expiration (deref c a) \<le> now" using True by (simp only: expiration_of_def)
      from "1.IH"[OF Cons this] free_entry_wf[OF "1.prems" a(1)]
      show ?thesis by (simp only: un eq free_head[OF Cons a(2)] simp_thms)
    next
      case False
      have "now < expiration_of c b" if "b \<in> dom (heap c)" for b
      proof -
        have "b = a \<or> b \<in> set rest" using that Cons unfolding D(2)[symmetric] by simp
        then show ?thesis using D(3) Cons False by auto
      qed
      then have "heap c |` {b. now < expiration_of c b} = heap c"
        by (intro ext) (metis domIff mem_Collect_eq restrict_in restrict_out)
      then show ?thesis using Cons False "1.prems"
        by (subst (1 2) pmksa_cache_expire_loop.simps) (simp add: expiration_of_def)
    qed
  qed
qed

lemma set_expiration_same [simp]:
  "heap (pmksa_cache_set_expiration now c) = heap c"
  "pmksa (pmksa_cache_set_expiration now c) = pmksa c"
  "pmksa_count (pmksa_cache_set_expiration now c) = pmksa_count c"
  "pmkid_tab (pmksa_cache_set_expiration now c) = pmkid_tab c"
  by (simp_all add: pmksa_cache_set_expiration_def split: list.split)

lemma set_expiration_wf [simp]: "pmksa_wf (pmksa_cache_set_expiration now c) = pmksa_wf c"
  by (simp add: pmksa_wf_def expiration_of_def[abs_def] hash_of_def deref_def)

lemma expire_exact:
  assumes wf0: "pmksa_wf c" and later_def: "later = pmksa_cache_expire now c"
  shows "heap later = heap c |` {a. e_expiration (deref c a) > now} \<and>
    (case timer later of
       None \<Rightarrow> heap later = Map.empty
     | Some t \<Rightarrow> \<exists>a e. heap later a = Some e \<and> t = e_expiration e - now + 1 \<and>
         \<not> (\<exists>b e'. heap later b = Some e' \<and> e_expiration e' < e_expiration e))"
proof -
  let ?c = "pmksa_cache_expire_loop now c"
  have wf: "pmksa_wf ?c" and hp: "heap ?c = heap c |` {a. expiration_of c a > now}"
    using expire_loop_ok[OF wf0] by auto
  note D = pmksa_wfD[OF wf]
  have deref: "deref ?c a = deref c a \<and> now < e_expiration (deref ?c a)" if "a \<in> dom (heap ?c)" for a
    using that unfolding hp deref_def by (auto simp: hp restrict_map_def expiration_of_def deref_def split: if_splits)
  show ?thesis 
  proof (cases "pmksa ?c")
    case Nil
    then have "heap ?c = Map.empty" using D(2) dom_eq_empty_conv[of "heap ?c"] by simp
    then show ?thesis using Nil hp
      by (simp add: later_def pmksa_cache_expire_def pmksa_cache_set_expiration_def expiration_of_def)
  next
    case (Cons a rest)
    have a: "a \<in> dom (heap ?c)" unfolding D(2)[symmetric] Cons by simp
    have first: "e_expiration (deref ?c a) \<le> e_expiration (deref ?c b)" if "b \<in> dom (heap ?c)" for b
    proof -
      have "b = a \<or> b \<in> set rest" using that Cons unfolding D(2)[symmetric] by simp
      then show ?thesis using D(3) Cons by (auto simp: expiration_of_def)
    qed
    have "timer later = Some (e_expiration (deref ?c a) - now + 1)"
      using Cons deref[OF a] by (auto simp: later_def pmksa_cache_expire_def pmksa_cache_set_expiration_def)
    moreover have "heap ?c a = Some (deref ?c a)" using a by (auto simp: deref_def)
    moreover have "\<not> (\<exists>b e'. heap ?c b = Some e' \<and> e_expiration e' < e_expiration (deref ?c a))"
      using first by (metis deref_def domI leD option.sel)
    moreover have "heap later = heap ?c" by (simp add: later_def pmksa_cache_expire_def)
    ultimately show ?thesis using hp by (auto simp: expiration_of_def)
  qed
qed

section \<open>Adding keys\<close>

text \<open>The cache just before the new entry is linked.\<close>

definition make_room :: "rsn_pmksa_cache \<Rightarrow> macaddr \<Rightarrow> rsn_pmksa_cache" where
  "make_room c spa =
     (let c = (case pmksa_cache_auth_get c (Some spa) None of
                 Some pos \<Rightarrow> pmksa_cache_free_entry c pos | None \<Rightarrow> c)
      in if pmksa_count c \<ge> pmksa_cache_max_entries \<and> pmksa c \<noteq> []
         then pmksa_cache_free_entry c (hd (pmksa c)) else c)"

lemma make_room_wf:
  assumes "pmksa_wf c"
  shows "pmksa_wf (make_room c spa)"
proof -
  let ?c = "case pmksa_cache_auth_get c (Some spa) None of
      Some pos \<Rightarrow> pmksa_cache_free_entry c pos | None \<Rightarrow> c"
  have wf: "pmksa_wf ?c"
    using assms by (auto split: option.split dest: get_Some free_entry_wf)
  then have "hd (pmksa ?c) \<in> dom (heap ?c)" if "pmksa ?c \<noteq> []"
    using pmksa_wfD(2)[OF wf] hd_in_set[OF that] by simp
  then show ?thesis using free_entry_wf[OF wf] wf by (simp add: make_room_def Let_def)
qed

lemma free_entry_dom: "dom (heap (pmksa_cache_free_entry c a)) \<subseteq> dom (heap c)"
  by auto

lemma make_room_dom: "dom (heap (make_room c spa)) \<subseteq> dom (heap c)"
  unfolding make_room_def Let_def by (auto split: option.splits if_splits)

lemma make_room_timer [simp]: "timer (make_room c spa) = timer c"
  by (simp add: make_room_def Let_def split: option.split)

lemma make_room_count:
  assumes "pmksa_wf c" "pmksa_count c \<le> pmksa_cache_max_entries"
  shows "pmksa_count (make_room c spa) < pmksa_cache_max_entries"
  using assms by (auto simp: make_room_def Let_def pmksa_wf_def pmksa_cache_max_entries_def split: option.split)

lemma auth_add_eq:
  assumes "length pmk \<le> 32" "m_entry mem = Some a"
  shows "pmksa_cache_auth_add f mem now c pmk aa spa st eapol akmp =
    (Some a, pmksa_cache_link_entry (make_room c spa) a (new_entry f mem now pmk aa spa st eapol akmp))"
  using assms by (simp add: pmksa_cache_auth_add_def make_room_def Let_def)

lemma new_entry_fields [simp]:
  "e_pmkid (new_entry f mem now pmk aa spa st eapol akmp) = f pmk aa spa (wpa_key_mgmt_sha256 akmp)"
  "e_pmk (new_entry f mem now pmk aa spa st eapol akmp) = pmk"
  "e_spa (new_entry f mem now pmk aa spa st eapol akmp) = spa"
  "e_akmp (new_entry f mem now pmk aa spa st eapol akmp) = akmp"
  "e_expiration (new_entry f mem now pmk aa spa st eapol akmp) =
     now + (if st > 0 then st else dot11RSNAConfigPMKLifetime)"
  by (simp_all add: new_entry_def pmksa_cache_from_eapol_data_def split: option.split prod.split)

lemma get_linked:
  assumes "length (pmkid_tab c) = PMKID_HASH_SIZE" "entry_matches spa (Some p) e"
  shows "pmksa_cache_auth_get (pmksa_cache_link_entry c a e) spa (Some p) = Some a"
  using assms by (auto simp: pmksa_cache_auth_get_def entry_matches_def split: option.splits)

section \<open>Operation sequences\<close>

datatype 'e pmksa_event =
    Ev_add pmksa_mem int bytes macaddr macaddr int "('e eapol_state_machine \<times> int) option" int
  | Ev_okc pmksa_mem rsn_pmksa_cache_entry bytes
  | Ev_expire int

text \<open>The allocator never hands out the address of a live entry; an event that says so cannot
  happen and is skipped.\<close>

definition fresh_mem :: "rsn_pmksa_cache \<Rightarrow> pmksa_mem \<Rightarrow> bool" where
  "fresh_mem c mem \<longleftrightarrow> (case m_entry mem of None \<Rightarrow> True | Some a \<Rightarrow> heap c a = None)"

fun pmksa_step :: "pmkid_fn \<Rightarrow> 'e pmksa_event \<Rightarrow> rsn_pmksa_cache \<Rightarrow> rsn_pmksa_cache" where
  "pmksa_step f (Ev_add mem now pmk aa spa st eapol akmp) c =
     (if fresh_mem c mem then snd (pmksa_cache_auth_add f mem now c pmk aa spa st eapol akmp) else c)"
| "pmksa_step f (Ev_okc mem old pmkid) c =
     (if fresh_mem c mem then snd (pmksa_cache_add_okc mem c old pmkid) else c)"
| "pmksa_step f (Ev_expire now) c = pmksa_cache_expire now c"

lemma auth_add_wf:
  assumes "pmksa_wf c" "fresh_mem c mem"
  shows "pmksa_wf (snd (pmksa_cache_auth_add f mem now c pmk aa spa st eapol akmp))"
proof (cases "length pmk \<le> 32 \<and> m_entry mem \<noteq> None")
  case True
  then obtain a where a: "m_entry mem = Some a" by auto
  then have "a \<notin> dom (heap (make_room c spa))"
    using assms(2) make_room_dom[of c spa] by (auto simp: fresh_mem_def)
  then show ?thesis using True a make_room_wf[OF assms(1)] by (simp add: auth_add_eq link_entry_wf)
next
  case False
  then show ?thesis using assms by (auto simp: pmksa_cache_auth_add_def)
qed

lemma add_okc_wf:
  "pmksa_wf c \<Longrightarrow> fresh_mem c mem \<Longrightarrow> pmksa_wf (snd (pmksa_cache_add_okc mem c old pmkid))"
  by (auto simp: pmksa_cache_add_okc_def fresh_mem_def domIff link_entry_wf split: option.split)

lemma expire_wf: "pmksa_wf c \<Longrightarrow> pmksa_wf (pmksa_cache_expire now c)"
  by (simp add: pmksa_cache_expire_def expire_loop_ok)

lemma init_wf: "pmksa_cache_auth_init True = Some c \<Longrightarrow> pmksa_wf c"
  by (auto simp: pmksa_cache_auth_init_def pmksa_wf_def)

interpretation cache: step_inv "pmksa_step f" pmksa_wf
proof
  fix s :: rsn_pmksa_cache and e :: "'a pmksa_event"
  assume "pmksa_wf s"
  then show "pmksa_wf (pmksa_step f e s)"
    by (cases e) (simp_all add: auth_add_wf add_okc_wf expire_wf)
qed


text \<open>The caches a running authenticator can have: an initialised cache after any operations.\<close>

definition cache_after :: "pmkid_fn \<Rightarrow> 'e pmksa_event list \<Rightarrow> rsn_pmksa_cache" where
  "cache_after f evs = run_events (pmksa_step f) evs (the (pmksa_cache_auth_init True))"

lemma cache_after_wf: "pmksa_wf (cache_after f evs)"
  unfolding cache_after_def
  by (rule cache.run_inv, rule init_wf) (simp add: pmksa_cache_auth_init_def)

subsection \<open>The loop of \<^verbatim>\<open>pmksa_cache_get_okc\<close>\<close>

lemma okc_loop_stuck:
  assumes "okc_loop f c aa spa pmkid entries = Some r"
  shows "entries = [] \<or> e_spa (deref c (hd entries)) = spa"
proof -
  have "case entries of [] \<Rightarrow> True | a # _ \<Rightarrow> e_spa (deref c a) = spa"
    by (rule okc_loop.raw_induct[where P = "\<lambda>f c aa spa pmkid entries r.
          case entries of [] \<Rightarrow> True | a # _ \<Rightarrow> e_spa (deref c a) = spa", OF _ assms])
       (auto split: list.splits if_splits, fastforce)
  then show ?thesis by (cases entries) auto
qed

subsection \<open>Without a limit: opportunistic entries\<close>

definition okc_events :: "rsn_pmksa_cache_entry \<Rightarrow> nat \<Rightarrow> unit pmksa_event list" where
  "okc_events e n = map (\<lambda>i. Ev_okc \<lparr>m_entry = Some i, m_identity = True, m_class = 0\<rparr> e (e_pmkid e)) [0..<n]"

lemma okc_events_count:
  "pmksa_count (cache_after f (okc_events e n)) = int n \<and> dom (heap (cache_after f (okc_events e n))) = {..<n}"
proof (induction n)
  case 0
  then show ?case by (simp add: cache_after_def okc_events_def pmksa_cache_auth_init_def)
next
  case (Suc n)
  let ?c = "cache_after f (okc_events e n)"
  have "cache_after f (okc_events e (Suc n)) = pmksa_step f
      (Ev_okc \<lparr>m_entry = Some n, m_identity = True, m_class = 0\<rparr> e (e_pmkid e) :: unit pmksa_event) ?c"
    by (simp add: cache_after_def okc_events_def run_events_append)
  moreover have "heap ?c n = None"
    using Suc.IH by (metis domIff lessThan_iff less_irrefl)
  ultimately obtain e' where "cache_after f (okc_events e (Suc n)) = pmksa_cache_link_entry ?c n e'"
    by (simp add: fresh_mem_def pmksa_cache_add_okc_def)
  then show ?case
    using Suc.IH by (simp add: lessThan_Suc dom_fun_upd del: fun_upd_apply)
qed

section \<open>Claims\<close>

text \<open>C30. Whatever keys are added, taken over from another BSS or expired, in any order and with any
  allocation failures, the list of the cache holds every live entry once, ordered by expiration time,
  each hash chain holds exactly the entries whose PMKID hashes to it, and the counter is the number of
  entries.\<close>

theorem pmksa_cache_consistent: "pmksa_wf (cache_after f evs)"
  by (rule cache_after_wf)

text \<open>C31. A lookup in such a cache, by PMKID through one hash chain or by address through the list,
  is complete and sound: the entry it returns is live and matches, and it returns NULL only if no
  live entry matches.\<close>

theorem pmksa_cache_auth_get_exact:
  "case pmksa_cache_auth_get (cache_after f evs) spa pmkid of
     Some a \<Rightarrow> \<exists>e. heap (cache_after f evs) a = Some e \<and> entry_matches spa pmkid e
   | None \<Rightarrow> \<not> (\<exists>a e. heap (cache_after f evs) a = Some e \<and> entry_matches spa pmkid e)"
proof (cases "pmksa_cache_auth_get (cache_after f evs) spa pmkid")
  case None
  then show ?thesis using get_None[OF cache_after_wf[of f evs], of spa pmkid]
    by simp (metis deref_def domI option.sel)
next
  case (Some a)
  then show ?thesis using get_Some[OF cache_after_wf[of f evs] Some] by (auto simp: deref_def)
qed

text \<open>C32. \<^verbatim>\<open>pmksa_cache_auth_add\<close> with a key of at most 32 bytes and successful allocation returns the
  new entry; a lookup with the key's PMKID, with or without the supplicant's address, then finds that
  entry, which holds the key and expires after the session time out (12 hours if none is given), and
  the number of entries stays within the limit of 1024.\<close>

theorem pmksa_cache_auth_add_found:
  assumes "length pmk \<le> 32" and "m_entry mem = Some a" and "heap (cache_after f evs) a = None"
    and "pmksa_count (cache_after f evs) \<le> pmksa_cache_max_entries"
    and "who = None \<or> who = Some spa"
  shows "case pmksa_cache_auth_add f mem now (cache_after f evs) pmk aa spa st eapol akmp of (r, c') \<Rightarrow>
    r = Some a \<and>
    pmksa_cache_auth_get c' who (Some (f pmk aa spa (wpa_key_mgmt_sha256 akmp))) = Some a \<and>
    e_pmk (deref c' a) = pmk \<and> e_spa (deref c' a) = spa \<and>
    e_expiration (deref c' a) = now + (if st > 0 then st else 43200) \<and>
    pmksa_count c' \<le> pmksa_cache_max_entries"
proof -
  let ?c = "make_room (cache_after f evs) spa"
  let ?e = "new_entry f mem now pmk aa spa st eapol akmp"
  have wf: "pmksa_wf ?c" by (rule make_room_wf[OF cache_after_wf])
  have "entry_matches who (Some (f pmk aa spa (wpa_key_mgmt_sha256 akmp))) ?e"
    using assms(5) by (auto simp: entry_matches_def)
  from get_linked[OF pmksa_wfD(5)[OF wf] this, of a] make_room_count[OF cache_after_wf assms(4), of spa]
  show ?thesis
    by (simp add: auth_add_eq[OF assms(1,2)] dot11RSNAConfigPMKLifetime_def)
qed

theorem pmksa_cache_auth_add_found_witness:
  "case pmksa_cache_auth_add (\<lambda>pmk aa spa s. take 16 pmk) \<lparr>m_entry = Some 7, m_identity = True, m_class = 0\<rparr> 1000
      (cache_after (\<lambda>pmk aa spa s. take 16 pmk) ([] :: unit pmksa_event list)) (replicate 32 5) [] [1,2,3,4,5,6] 0
      (None :: (unit eapol_state_machine \<times> int) option) 1 of (r, c') \<Rightarrow>
    r = Some 7 \<and> pmksa_cache_auth_get c' None (Some (take 16 (replicate 32 5))) = Some 7 \<and>
    e_pmk (deref c' 7) = replicate 32 5 \<and> e_spa (deref c' 7) = [1,2,3,4,5,6] \<and>
    e_expiration (deref c' 7) = 1000 + (if (0::int) > 0 then 0 else 43200) \<and>
    pmksa_count c' \<le> pmksa_cache_max_entries"
  by (rule pmksa_cache_auth_add_found)
     (simp_all add: cache_after_def pmksa_cache_auth_init_def pmksa_cache_max_entries_def)

text \<open>\<^verbatim>\<open>pmksa_cache_expire\<close> removes exactly the entries whose expiration time has come and keeps
  the others; it leaves no time out registered if and only if the cache is empty, and otherwise one
  for the second after the earliest expiration.\<close>

theorem pmksa_cache_expire_exact:
  "let later = pmksa_cache_expire now (cache_after f evs) in
    heap later = heap (cache_after f evs) |` {a. e_expiration (deref (cache_after f evs) a) > now} \<and>
    (case timer later of
       None \<Rightarrow> heap later = Map.empty
     | Some t \<Rightarrow> \<exists>a e. heap later a = Some e \<and> t = e_expiration e - now + 1 \<and>
         \<not> (\<exists>b e'. heap later b = Some e' \<and> e_expiration e' < e_expiration e))"
  unfolding Let_def by (rule expire_exact[OF cache_after_wf refl])

text \<open>C38. Adding keys never registers the expiry time out: only a run of \<^verbatim>\<open>pmksa_cache_expire\<close> does,
  and only the time out runs it. In a cache that was initialised and had any keys added the time out
  is not registered, so its entries are never removed for their age.\<close>

theorem pmksa_cache_expiry_never_armed:
  assumes "\<not> (\<exists>now. Ev_expire now \<in> set evs)"
  shows "timer (cache_after f evs) = None"
proof -
  have "timer (run_events (pmksa_step f) evs c) = timer c" for c
    using assms
  proof (induction evs arbitrary: c)
    case (Cons e evs)
    have "timer (pmksa_step f e c) = timer c"
      using Cons.prems
      by (cases e) (auto simp: pmksa_cache_auth_add_def pmksa_cache_add_okc_def make_room_def Let_def split: option.split)
    then show ?case using Cons by auto
  qed simp
  then show ?thesis by (simp add: cache_after_def pmksa_cache_auth_init_def)
qed

theorem pmksa_cache_expiry_never_armed_witness:
  "timer (cache_after (\<lambda>pmk aa spa s. take 16 pmk)
     [Ev_add \<lparr>m_entry = Some 7, m_identity = True, m_class = 0\<rparr> 1000 (replicate 32 5) [] [1,2,3,4,5,6] 0
        (None :: (unit eapol_state_machine \<times> int) option) 1]) = None"
  by (rule pmksa_cache_expiry_never_armed) simp

text \<open>C39. \<^verbatim>\<open>pmksa_cache_get_okc\<close> does not return when the first entry of the cache belongs to another
  station than the one asked for: the loop goes on with \<^verbatim>\<open>continue\<close> without moving to the next
  entry.\<close>

theorem pmksa_cache_get_okc_hangs:
  assumes "pmksa c \<noteq> []" and "e_spa (deref c (hd (pmksa c))) \<noteq> spa"
  shows "pmksa_cache_get_okc f c aa spa pmkid = None"
  using assms okc_loop_stuck[of f c aa spa pmkid "pmksa c"]
  by (cases "okc_loop f c aa spa pmkid (pmksa c)") (auto simp: pmksa_cache_get_okc_def)

theorem pmksa_cache_get_okc_hangs_witness:
  "pmksa_cache_get_okc (\<lambda>pmk aa spa s. take 16 pmk)
     (snd (pmksa_cache_auth_add (\<lambda>pmk aa spa s. take 16 pmk) \<lparr>m_entry = Some 7, m_identity = True, m_class = 0\<rparr> 1000
        (the (pmksa_cache_auth_init True)) (replicate 32 5) [] [1,2,3,4,5,6] 0
        (None :: (unit eapol_state_machine \<times> int) option) 1)) [] [9,9,9,9,9,9] [] = None"
  by (rule pmksa_cache_get_okc_hangs)
     (simp_all add: auth_add_eq make_room_def pmksa_cache_auth_init_def pmksa_cache_auth_get_def
       pmksa_cache_max_entries_def Let_def)

text \<open>C40. Entries taken over with opportunistic key caching do not count against the limit: the cache
  can grow beyond 1024 entries.\<close>

theorem pmksa_cache_okc_exceeds_limit:
  "\<exists>evs :: unit pmksa_event list. pmksa_count (cache_after f evs) > pmksa_cache_max_entries"
  using okc_events_count[of f e 1025]
  by (intro exI[of _ "okc_events e 1025"]) (simp add: pmksa_cache_max_entries_def)

end
