(* ===== verification/Wpabuf.thy ===== *)
theory Wpabuf
  imports Byte_Utils
begin

text \<open>
  Dynamic buffers, \<^verbatim>\<open>src/athr-hostap/src/utils/wpabuf.c\<close> and \<^verbatim>\<open>wpabuf.h\<close> (without
  \<^verbatim>\<open>WPA_TRACE\<close>). \<open>size\<close> and \<open>used\<close> are 32-bit words and their arithmetic wraps as in C;
  \<open>mem\<close> is the memory area the data lives in, behind the struct or at \<^verbatim>\<open>ext_data\<close>. A call of
  \<^verbatim>\<open>abort\<close> is the result \<open>Abort\<close>, an access outside the area is \<open>Bad\<close>. The argument \<open>ok\<close>
  tells whether the allocator succeeds.
\<close>

section \<open>Data\<close>

datatype 'a outcome = Ok 'a | Abort | Bad

fun bind_outcome :: "'a outcome \<Rightarrow> ('a \<Rightarrow> 'b outcome) \<Rightarrow> 'b outcome" where
  "bind_outcome (Ok x) f = f x"
| "bind_outcome Abort f = Abort"
| "bind_outcome Bad f = Bad"

record wpabuf =
  wb_size :: size_t
  wb_used :: size_t
  wb_ext :: bool
  wb_mem :: bytes

text \<open>\<^verbatim>\<open>sizeof(struct wpabuf)\<close>: three words of four bytes.\<close>

definition sizeof_wpabuf :: size_t where "sizeof_wpabuf = 12"

section \<open>Operations\<close>

definition wpabuf_alloc :: "bool \<Rightarrow> size_t \<Rightarrow> wpabuf option" where
  "wpabuf_alloc ok len =
     (if ok then Some \<lparr>wb_size = len, wb_used = 0, wb_ext = False,
        wb_mem = replicate (unat (sizeof_wpabuf + len) - unat sizeof_wpabuf) 0\<rparr>
      else None)"

definition wpabuf_alloc_ext_data :: "bool \<Rightarrow> bytes \<Rightarrow> size_t \<Rightarrow> wpabuf option" where
  "wpabuf_alloc_ext_data ok data len =
     (if ok then Some \<lparr>wb_size = len, wb_used = len, wb_ext = True, wb_mem = data\<rparr> else None)"

definition wpabuf_size :: "wpabuf \<Rightarrow> size_t" where "wpabuf_size buf = wb_size buf"

definition wpabuf_len :: "wpabuf \<Rightarrow> size_t" where "wpabuf_len buf = wb_used buf"

definition wpabuf_tailroom :: "wpabuf \<Rightarrow> size_t" where "wpabuf_tailroom buf = wb_size buf - wb_used buf"

text \<open>The offset of the reserved bytes and the buffer.\<close>

definition wpabuf_put :: "wpabuf \<Rightarrow> size_t \<Rightarrow> (nat \<times> wpabuf) outcome" where
  "wpabuf_put buf len =
     (let pos = unat (wpabuf_len buf);
          buf' = buf\<lparr>wb_used := wb_used buf + len\<rparr>
      in if wb_used buf' > wb_size buf' then Abort else Ok (pos, buf'))"

definition store :: "nat \<Rightarrow> bytes \<Rightarrow> wpabuf \<Rightarrow> wpabuf outcome" where
  "store pos data buf =
     (if pos + length data \<le> length (wb_mem buf) then Ok (buf\<lparr>wb_mem := memput (wb_mem buf) pos data\<rparr>) else Bad)"

definition put_bytes :: "wpabuf \<Rightarrow> bytes \<Rightarrow> wpabuf outcome" where
  "put_bytes buf data = bind_outcome (wpabuf_put buf (of_nat (length data))) (\<lambda>(pos, buf). store pos data buf)"

definition wpabuf_put_u8 :: "wpabuf \<Rightarrow> u8 \<Rightarrow> wpabuf outcome" where
  "wpabuf_put_u8 buf data = put_bytes buf [data]"

definition wpabuf_put_le16 :: "wpabuf \<Rightarrow> u16 \<Rightarrow> wpabuf outcome" where
  "wpabuf_put_le16 buf data = put_bytes buf (WPA_PUT_LE16 data)"

definition wpabuf_put_le32 :: "wpabuf \<Rightarrow> u32 \<Rightarrow> wpabuf outcome" where
  "wpabuf_put_le32 buf data = put_bytes buf (WPA_PUT_LE32 data)"

definition wpabuf_put_be16 :: "wpabuf \<Rightarrow> u16 \<Rightarrow> wpabuf outcome" where
  "wpabuf_put_be16 buf data = put_bytes buf (WPA_PUT_BE16 data)"

definition wpabuf_put_be24 :: "wpabuf \<Rightarrow> u32 \<Rightarrow> wpabuf outcome" where
  "wpabuf_put_be24 buf data = put_bytes buf (WPA_PUT_BE24 data)"

definition wpabuf_put_be32 :: "wpabuf \<Rightarrow> u32 \<Rightarrow> wpabuf outcome" where
  "wpabuf_put_be32 buf data = put_bytes buf (WPA_PUT_BE32 data)"

text \<open>A null pointer is \<^term>\<open>None\<close>.\<close>

definition wpabuf_put_data :: "wpabuf \<Rightarrow> bytes option \<Rightarrow> wpabuf outcome" where
  "wpabuf_put_data buf data = (case data of None \<Rightarrow> Ok buf | Some d \<Rightarrow> put_bytes buf d)"

text \<open>The bytes at the head of a buffer.\<close>

definition wpabuf_head :: "wpabuf \<Rightarrow> bytes" where
  "wpabuf_head buf = wb_mem buf"

definition wpabuf_put_buf :: "wpabuf \<Rightarrow> wpabuf \<Rightarrow> wpabuf outcome" where
  "wpabuf_put_buf dst src =
     (if unat (wpabuf_len src) \<le> length (wpabuf_head src)
      then wpabuf_put_data dst (Some (take (unat (wpabuf_len src)) (wpabuf_head src))) else Bad)"

definition wpabuf_put_str :: "wpabuf \<Rightarrow> bytes \<Rightarrow> wpabuf outcome" where
  "wpabuf_put_str dst str = wpabuf_put_data dst (Some (cstr str))"

definition wpabuf_set :: "bytes \<Rightarrow> size_t \<Rightarrow> wpabuf" where
  "wpabuf_set data len = \<lparr>wb_size = len, wb_used = len, wb_ext = True, wb_mem = data\<rparr>"

definition wpabuf_alloc_copy :: "bool \<Rightarrow> bytes \<Rightarrow> wpabuf option outcome" where
  "wpabuf_alloc_copy ok data =
     (case wpabuf_alloc ok (of_nat (length data)) of
        None \<Rightarrow> Ok None
      | Some buf \<Rightarrow> bind_outcome (wpabuf_put_data buf (Some data)) (\<lambda>b. Ok (Some b)))"

definition wpabuf_dup :: "bool \<Rightarrow> wpabuf \<Rightarrow> wpabuf option outcome" where
  "wpabuf_dup ok src =
     (case wpabuf_alloc ok (wpabuf_len src) of
        None \<Rightarrow> Ok None
      | Some buf \<Rightarrow> bind_outcome (wpabuf_put_buf buf src) (\<lambda>b. Ok (Some b)))"

text \<open>\<^verbatim>\<open>wpabuf_resize\<close>: the return value and the buffer. The reallocated area keeps the data in use
  and the new bytes are cleared; the area is as large as the wrapped sum of the sizes says.\<close>

definition wpabuf_resize :: "bool \<Rightarrow> wpabuf option \<Rightarrow> size_t \<Rightarrow> (int \<times> wpabuf option) outcome" where
  "wpabuf_resize ok buf_opt add_len =
     (case buf_opt of
        None \<Rightarrow> (case wpabuf_alloc ok add_len of None \<Rightarrow> Ok (-1, None) | Some b \<Rightarrow> Ok (0, Some b))
      | Some buf \<Rightarrow>
          if wb_used buf + add_len > wb_size buf then
            if \<not> ok then Ok (-1, Some buf)
            else let area = (if wb_ext buf then unat (wb_used buf + add_len)
                             else unat (sizeof_wpabuf + wb_used buf + add_len) - unat sizeof_wpabuf)
                 in if area < unat (wb_used buf) + unat add_len \<or> length (wb_mem buf) < unat (wb_used buf) then Bad
                    else Ok (0, Some (buf\<lparr>wb_mem := take (unat (wb_used buf)) (wb_mem buf) @ replicate (unat add_len) 0,
                                          wb_size := wb_used buf + add_len\<rparr>))
          else Ok (0, Some buf))"

definition wpabuf_concat :: "bool \<Rightarrow> wpabuf option \<Rightarrow> wpabuf option \<Rightarrow> wpabuf option outcome" where
  "wpabuf_concat ok a b =
     (case b of
        None \<Rightarrow> Ok a
      | Some b' \<Rightarrow>
          let len = (case a of None \<Rightarrow> 0 | Some a' \<Rightarrow> wpabuf_len a') + wpabuf_len b'
          in case wpabuf_alloc ok len of
               None \<Rightarrow> Ok None
             | Some n \<Rightarrow>
                 bind_outcome (case a of None \<Rightarrow> Ok n | Some a' \<Rightarrow> wpabuf_put_buf n a')
                   (\<lambda>n. bind_outcome (wpabuf_put_buf n b') (\<lambda>n. Ok (Some n))))"

definition wpabuf_zeropad :: "bool \<Rightarrow> wpabuf option \<Rightarrow> size_t \<Rightarrow> wpabuf option outcome" where
  "wpabuf_zeropad ok buf_opt len =
     (case buf_opt of
        None \<Rightarrow> Ok None
      | Some buf \<Rightarrow>
          let blen = wpabuf_len buf
          in if blen \<ge> len then Ok (Some buf)
             else case wpabuf_alloc ok len of
                    None \<Rightarrow> Ok None
                  | Some ret \<Rightarrow>
                      bind_outcome (put_bytes ret (replicate (unat (len - blen)) 0))
                        (\<lambda>ret. bind_outcome (wpabuf_put_buf ret buf) (\<lambda>ret. Ok (Some ret))))"

text \<open>\<open>txt\<close> is the formatted text; \<^verbatim>\<open>vsnprintf\<close> stores as much of it as fits, with a NUL.\<close>

definition wpabuf_printf :: "wpabuf \<Rightarrow> bytes \<Rightarrow> wpabuf outcome" where
  "wpabuf_printf buf str =
     (let room = unat (wb_size buf - wb_used buf);
          stored = (if room = 0 then [] else take (room - 1) str @ [0])
      in bind_outcome (store (unat (wpabuf_len buf)) stored buf)
           (\<lambda>buf. if length str \<ge> room then Abort else Ok (buf\<lparr>wb_used := wb_used buf + of_nat (length str)\<rparr>)))"

section \<open>Invariant and contents\<close>

definition wpabuf_ok :: "wpabuf \<Rightarrow> bool" where
  "wpabuf_ok buf \<longleftrightarrow> wb_used buf \<le> wb_size buf \<and> unat (wb_size buf) \<le> length (wb_mem buf)"

definition content :: "wpabuf \<Rightarrow> bytes" where
  "content buf = take (unat (wb_used buf)) (wb_mem buf)"

lemma length_content [simp]: "wpabuf_ok buf \<Longrightarrow> length (content buf) = unat (wb_used buf)"
  by (simp add: content_def wpabuf_ok_def word_le_nat_alt)

lemma unat_add_no_wrap: "unat (a :: size_t) + n < 2 ^ 32 \<Longrightarrow> unat (a + of_nat n) = unat a + n"
  by (simp add: unat_word_ariths unat_of_nat)

text \<open>A write appends its bytes when they fit and aborts when they do not; it never leaves the area
  unless the sum of the sizes wraps.\<close>

lemma put_bytes_cases:
  assumes "wpabuf_ok buf" "unat (wb_used buf) + length data < 2 ^ 32"
  shows "if unat (wb_used buf) + length data \<le> unat (wb_size buf)
    then \<exists>buf'. put_bytes buf data = Ok buf' \<and> wpabuf_ok buf' \<and> content buf' = content buf @ data \<and>
      wb_size buf' = wb_size buf \<and> unat (wb_used buf') = unat (wb_used buf) + length data
    else put_bytes buf data = Abort"
proof -
  have u: "unat (wb_used buf + of_nat (length data)) = unat (wb_used buf) + length data"
    by (rule unat_add_no_wrap[OF assms(2)])
  show ?thesis
  proof (cases "unat (wb_used buf) + length data \<le> unat (wb_size buf)")
    case True
    let ?b = "buf\<lparr>wb_used := wb_used buf + of_nat (length data), wb_mem := memput (wb_mem buf) (unat (wb_used buf)) data\<rparr>"
    have room: "unat (wb_used buf) + length data \<le> length (wb_mem buf)"
      using True assms(1) by (simp add: wpabuf_ok_def)
    then have "put_bytes buf data = Ok ?b"
      using True u by (simp add: put_bytes_def wpabuf_put_def wpabuf_len_def store_def word_less_nat_alt Let_def)
    moreover have "wpabuf_ok ?b" using True u room assms(1) by (simp add: wpabuf_ok_def word_le_nat_alt)
    moreover have "content ?b = content buf @ data" using u room by (simp add: content_def)
    ultimately show ?thesis using True u by auto
  next
    case False
    then show ?thesis using u
      by (simp add: put_bytes_def wpabuf_put_def word_less_nat_alt Let_def)
  qed
qed

lemma put_bytes_ok:
  assumes "wpabuf_ok buf" "unat (wb_used buf) + length data \<le> unat (wb_size buf)"
  obtains buf' where "put_bytes buf data = Ok buf'" "wpabuf_ok buf'" "content buf' = content buf @ data"
    "wb_size buf' = wb_size buf" "unat (wb_used buf') = unat (wb_used buf) + length data"
proof -
  have "unat (wb_used buf) + length data < 2 ^ 32"
    using assms(2) unsigned_less[of "wb_size buf", where ?'a = nat] by simp
  from put_bytes_cases[OF assms(1) this] assms(2) that show ?thesis by auto
qed

lemma alloc_ok:
  assumes "unat len + 12 < 2 ^ 32"
  obtains buf where "wpabuf_alloc True len = Some buf" "wpabuf_ok buf" "content buf = []" "wb_size buf = len" "wb_used buf = 0"
proof -
  have "unat (sizeof_wpabuf + len) = 12 + unat len"
    using assms by (simp add: sizeof_wpabuf_def unat_word_ariths)
  then show ?thesis
    using that by (simp add: wpabuf_alloc_def wpabuf_ok_def content_def sizeof_wpabuf_def)
qed

lemma put_buf_eq:
  "wpabuf_ok src \<Longrightarrow> wpabuf_put_buf dst src = put_bytes dst (content src)"
  by (simp add: wpabuf_put_buf_def wpabuf_put_data_def wpabuf_len_def wpabuf_head_def content_def
      wpabuf_ok_def word_le_nat_alt)


section \<open>Interface: a sink for bytes with limited room\<close>

fun put_all :: "('s \<Rightarrow> bytes \<Rightarrow> 's outcome) \<Rightarrow> 's \<Rightarrow> bytes list \<Rightarrow> 's outcome" where
  "put_all put s [] = Ok s"
| "put_all put s (d # ds) = bind_outcome (put s d) (\<lambda>s. put_all put s ds)"

text \<open>What the code that builds messages relies on: bytes that fit are appended, and bytes that do
  not fit stop the program.\<close>

locale byte_sink =
  fixes put :: "'s \<Rightarrow> bytes \<Rightarrow> 's outcome" and inv :: "'s \<Rightarrow> bool" and contents :: "'s \<Rightarrow> bytes"
    and room :: "'s \<Rightarrow> nat" and addressable :: "'s \<Rightarrow> bytes \<Rightarrow> bool"
  assumes put_fits: "inv s \<Longrightarrow> length d \<le> room s \<Longrightarrow>
      \<exists>s'. put s d = Ok s' \<and> inv s' \<and> contents s' = contents s @ d \<and> room s' = room s - length d"
    and put_full: "inv s \<Longrightarrow> room s < length d \<Longrightarrow> addressable s d \<Longrightarrow> put s d = Abort"
begin

lemma put_all_fits:
  "inv s \<Longrightarrow> length (concat ds) \<le> room s \<Longrightarrow>
     \<exists>s'. put_all put s ds = Ok s' \<and> inv s' \<and> contents s' = contents s @ concat ds \<and>
       room s' = room s - length (concat ds)"
proof (induction ds arbitrary: s)
  case (Cons d ds)
  from Cons.prems obtain s' where s': "put s d = Ok s'" "inv s'" "contents s' = contents s @ d"
      "room s' = room s - length d"
    using put_fits[of s d] by auto
  from Cons.IH[OF s'(2)] Cons.prems(2) s' show ?case by auto
qed simp

lemma put_total: "inv s \<Longrightarrow> addressable s d \<Longrightarrow> put s d \<noteq> Bad"
  using put_fits[of s d] put_full[of s d] by (cases "length d \<le> room s") auto

end

interpretation wb: byte_sink put_bytes wpabuf_ok content "\<lambda>b. unat (wb_size b) - unat (wb_used b)"
    "\<lambda>b d. unat (wb_used b) + length d < 2 ^ 32"
proof
  fix s and d :: bytes assume ok: "wpabuf_ok s" and len: "length d \<le> unat (wb_size s) - unat (wb_used s)"
  then have "unat (wb_used s) + length d \<le> unat (wb_size s)"
    unfolding wpabuf_ok_def word_le_nat_alt by linarith
  from put_bytes_ok[OF ok this] show "\<exists>s'. put_bytes s d = Ok s' \<and> wpabuf_ok s' \<and> content s' = content s @ d \<and>
      unat (wb_size s') - unat (wb_used s') = unat (wb_size s) - unat (wb_used s) - length d"
    by (metis diff_diff_left)
next
  fix s and d :: bytes assume "wpabuf_ok s" "unat (wb_size s) - unat (wb_used s) < length d" "unat (wb_used s) + length d < 2 ^ 32"
  then show "put_bytes s d = Abort"
    using put_bytes_cases[of s d] by (auto simp: wpabuf_ok_def word_le_nat_alt)
qed

section \<open>Claims\<close>



text \<open>A message built in a new buffer by any series of writes holds exactly the bytes written, in
  order, when the buffer was allocated large enough for all of them.\<close>

theorem wpabuf_built_message:
  assumes "length (concat ds) \<le> unat len" and "unat len + 12 < 2 ^ 32"
  shows "\<exists>buf buf'. wpabuf_alloc True len = Some buf \<and> put_all put_bytes buf ds = Ok buf' \<and>
    content buf' = concat ds \<and> wpabuf_ok buf'"
proof -
  from alloc_ok[OF assms(2)] obtain buf where
    "wpabuf_alloc True len = Some buf" "wpabuf_ok buf" "content buf = []" "wb_size buf = len" "wb_used buf = 0" by blast
  with wb.put_all_fits[of buf ds] assms(1) show ?thesis by auto
qed

theorem wpabuf_built_message_witness:
  "\<exists>buf buf'. wpabuf_alloc True 6 = Some buf \<and> put_all put_bytes buf [WPA_PUT_BE16 0x104a, WPA_PUT_BE16 1, [0x10]] = Ok buf' \<and>
    content buf' = concat [WPA_PUT_BE16 0x104a, WPA_PUT_BE16 1, [0x10]] \<and> wpabuf_ok buf'"
  by (rule wpabuf_built_message) simp_all

text \<open>\<^verbatim>\<open>wpabuf_concat\<close> of two well-formed buffers (a missing first buffer counts as empty) gives a
  buffer with the first data followed by the second, or no buffer when the allocation fails; it
  neither aborts nor leaves a buffer's memory.\<close>

theorem wpabuf_concat_appends:
  assumes "case a of None \<Rightarrow> True | Some a' \<Rightarrow> wpabuf_ok a'" and "wpabuf_ok b"
    and "(case a of None \<Rightarrow> 0 | Some a' \<Rightarrow> unat (wb_used a')) + unat (wb_used b) + 12 < 2 ^ 32"
  shows "wpabuf_concat False a (Some b) = Ok None \<and>
    (\<exists>n. wpabuf_concat True a (Some b) = Ok (Some n) \<and> wpabuf_ok n \<and>
       content n = (case a of None \<Rightarrow> [] | Some a' \<Rightarrow> content a') @ content b)"
proof
  show "wpabuf_concat False a (Some b) = Ok None" by (simp add: wpabuf_concat_def wpabuf_alloc_def)
  show "\<exists>n. wpabuf_concat True a (Some b) = Ok (Some n) \<and> wpabuf_ok n \<and>
       content n = (case a of None \<Rightarrow> [] | Some a' \<Rightarrow> content a') @ content b"
  proof (cases a)
    case None
    from alloc_ok[of "wb_used b"] assms(3) None obtain n0 where n0: "wpabuf_alloc True (wb_used b) = Some n0"
      "wpabuf_ok n0" "content n0 = []" "wb_size n0 = wb_used b" "wb_used n0 = 0" by auto
    obtain n where "put_bytes n0 (content b) = Ok n" "wpabuf_ok n" "content n = content n0 @ content b"
      by (rule put_bytes_ok[OF n0(2), of "content b"]) (simp_all add: n0 assms(2))
    with n0 None show ?thesis
      by (simp add: wpabuf_concat_def wpabuf_len_def put_buf_eq assms(2) Let_def)
  next
    case (Some a')
    have a: "wpabuf_ok a'" using assms(1) Some by simp
    have len: "unat (wb_used a' + wb_used b) = unat (wb_used a') + unat (wb_used b)"
      using assms(3) Some by (simp add: unat_word_ariths)
    obtain n0 where n0: "wpabuf_alloc True (wb_used a' + wb_used b) = Some n0"
      "wpabuf_ok n0" "content n0 = []" "wb_size n0 = wb_used a' + wb_used b" "wb_used n0 = 0"
      using alloc_ok[of "wb_used a' + wb_used b"] assms(3) Some len by auto
    obtain n1 where n1: "put_bytes n0 (content a') = Ok n1" "wpabuf_ok n1" "content n1 = content a'"
      "wb_size n1 = wb_size n0" "unat (wb_used n1) = unat (wb_used a')"
      by (rule put_bytes_ok[OF n0(2), of "content a'"]) (use n0 len a in simp_all)
    obtain n2 where "put_bytes n1 (content b) = Ok n2" "wpabuf_ok n2" "content n2 = content n1 @ content b"
      by (rule put_bytes_ok[OF n1(2), of "content b"]) (use n0 n1 len assms(2) in simp_all)
    with n0 n1 Some show ?thesis
      by (simp add: wpabuf_concat_def wpabuf_len_def put_buf_eq a assms(2) Let_def)
  qed
qed

theorem wpabuf_concat_appends_witness:
  "wpabuf_concat False (Some \<lparr>wb_size = 3, wb_used = 1, wb_ext = False, wb_mem = [7, 0, 0]\<rparr>)
      (Some \<lparr>wb_size = 2, wb_used = 2, wb_ext = True, wb_mem = [8, 9]\<rparr>) = Ok None \<and>
   (\<exists>n. wpabuf_concat True (Some \<lparr>wb_size = 3, wb_used = 1, wb_ext = False, wb_mem = [7, 0, 0]\<rparr>)
      (Some \<lparr>wb_size = 2, wb_used = 2, wb_ext = True, wb_mem = [8, 9]\<rparr>) = Ok (Some n) \<and> wpabuf_ok n \<and>
       content n = (case Some \<lparr>wb_size = 3, wb_used = 1, wb_ext = False, wb_mem = [7, 0, 0]\<rparr> of
         None \<Rightarrow> [] | Some a' \<Rightarrow> content a') @ content \<lparr>wb_size = 2, wb_used = 2, wb_ext = True, wb_mem = [8, 9]\<rparr>)"
  by (rule wpabuf_concat_appends) (simp_all add: wpabuf_ok_def)

text \<open>\<^verbatim>\<open>wpabuf_resize\<close> of a well-formed buffer, when the new size stays within the address space:
  if memory runs out the buffer is unchanged and the result is -1; otherwise the result is 0, the
  contents are unchanged, the buffer is well-formed and has room for at least the bytes asked for.\<close>

theorem wpabuf_resize_makes_room:
  assumes "wpabuf_ok buf" and "unat (wb_used buf) + unat add_len + 12 < 2 ^ 32"
  shows "case wpabuf_resize ok (Some buf) add_len of
      Ok (r, Some buf') \<Rightarrow> r = 0 \<and> wpabuf_ok buf' \<and> content buf' = content buf \<and>
          unat add_len \<le> unat (wpabuf_tailroom buf') \<or> \<not> ok \<and> r = -1 \<and> buf' = buf
    | _ \<Rightarrow> False"
proof -
  have u: "unat (wb_used buf + add_len) = unat (wb_used buf) + unat add_len"
    using assms(2) by (simp add: unat_word_ariths)
  have v: "unat (sizeof_wpabuf + wb_used buf + add_len) = 12 + unat (wb_used buf) + unat add_len"
    using assms(2) by (simp add: sizeof_wpabuf_def unat_word_ariths)
  have used: "unat (wb_used buf) \<le> length (wb_mem buf)" "wb_used buf \<le> wb_size buf"
    using assms(1) by (simp_all add: wpabuf_ok_def word_le_nat_alt)
  show ?thesis
  proof (cases "wb_used buf + add_len > wb_size buf")
    case True
    then show ?thesis using used u v
      by (simp add: wpabuf_resize_def wpabuf_ok_def content_def wpabuf_tailroom_def word_le_nat_alt
          sizeof_wpabuf_def Let_def)
  next
    case False
    have "unat (wb_size buf - wb_used buf) = unat (wb_size buf) - unat (wb_used buf)"
      using used(2) by (simp add: unat_sub)
    then show ?thesis using False assms(1) u
      by (simp add: wpabuf_resize_def wpabuf_tailroom_def word_less_nat_alt)
  qed
qed

theorem wpabuf_resize_makes_room_witness:
  "case wpabuf_resize True (Some \<lparr>wb_size = 3, wb_used = 2, wb_ext = False, wb_mem = [7, 8, 0]\<rparr>) 5 of
      Ok (r, Some buf') \<Rightarrow> r = 0 \<and> wpabuf_ok buf' \<and>
          content buf' = content \<lparr>wb_size = 3, wb_used = 2, wb_ext = False, wb_mem = [7, 8, 0]\<rparr> \<and>
          unat (5 :: size_t) \<le> unat (wpabuf_tailroom buf') \<or>
        \<not> True \<and> r = -1 \<and> buf' = \<lparr>wb_size = 3, wb_used = 2, wb_ext = False, wb_mem = [7, 8, 0]\<rparr>
    | _ \<Rightarrow> False"
  by (rule wpabuf_resize_makes_room) (simp_all add: wpabuf_ok_def)

text \<open>The overflow check of \<^verbatim>\<open>wpabuf_put\<close> comes after the addition: a length that makes the sum
  wrap around passes the check, so that a request for almost the whole address space is granted by a
  buffer of a few bytes.\<close>

theorem wpabuf_put_check_wraps:
  "\<exists>buf len. wpabuf_ok buf \<and> unat len > unat (wb_size buf) \<and>
     (\<exists>pos buf'. wpabuf_put buf len = Ok (pos, buf') \<and> wpabuf_ok buf')"
proof -
  let ?buf = "\<lparr>wb_size = 3, wb_used = 2, wb_ext = False, wb_mem = [7, 8, 0]\<rparr>"
  have "wpabuf_ok ?buf \<and> unat (0xffffffff :: size_t) > unat (wb_size ?buf) \<and>
      (\<exists>pos buf'. wpabuf_put ?buf 0xffffffff = Ok (pos, buf') \<and> wpabuf_ok buf')"
    by (simp add: wpabuf_ok_def wpabuf_put_def wpabuf_len_def)
  then show ?thesis by blast
qed

end
