(* ===== verification/Ieee80211_Elems.thy ===== *)
theory Ieee80211_Elems
  imports Wpabuf
begin

text \<open>
  Information elements of management frames,
  \<^verbatim>\<open>src/athr-hostap/src/common/ieee802_11_common.c\<close>. A pointer into the buffer and its length
  (\<^verbatim>\<open>elems->ssid\<close>, \<^verbatim>\<open>elems->ssid_len\<close>) are the bytes they delimit, a null pointer is
  \<^term>\<open>None\<close>. \<open>pos\<close> is the list of the bytes from the read position to the end of the buffer.
\<close>

section \<open>Data\<close>

record ieee802_11_elems =
  e_ssid :: "bytes option"
  e_supp_rates :: "bytes option"
  e_fh_params :: "bytes option"
  e_ds_params :: "bytes option"
  e_cf_params :: "bytes option"
  e_tim :: "bytes option"
  e_ibss_params :: "bytes option"
  e_challenge :: "bytes option"
  e_erp_info :: "bytes option"
  e_ext_supp_rates :: "bytes option"
  e_wpa_ie :: "bytes option"
  e_rsn_ie :: "bytes option"
  e_wmm :: "bytes option"
  e_wmm_tspec :: "bytes option"
  e_wps_ie :: "bytes option"
  e_power_cap :: "bytes option"
  e_supp_channels :: "bytes option"
  e_mdie :: "bytes option"
  e_ftie :: "bytes option"
  e_timeout_int :: "bytes option"
  e_ht_capabilities :: "bytes option"
  e_ht_operation :: "bytes option"
  e_vendor_ht_cap :: "bytes option"
  e_p2p :: "bytes option"
  e_link_id :: "bytes option"

text \<open>The structure after \<^verbatim>\<open>os_memset(elems, 0, sizeof(*elems))\<close>.\<close>

definition no_elems :: ieee802_11_elems where
  "no_elems = \<lparr>e_ssid = None, e_supp_rates = None, e_fh_params = None, e_ds_params = None,
     e_cf_params = None, e_tim = None, e_ibss_params = None, e_challenge = None, e_erp_info = None,
     e_ext_supp_rates = None, e_wpa_ie = None, e_rsn_ie = None, e_wmm = None, e_wmm_tspec = None,
     e_wps_ie = None, e_power_cap = None, e_supp_channels = None, e_mdie = None, e_ftie = None,
     e_timeout_int = None, e_ht_capabilities = None, e_ht_operation = None, e_vendor_ht_cap = None,
     e_p2p = None, e_link_id = None\<rparr>"

datatype ParseRes = ParseOK | ParseUnknown | ParseFailed

definition WLAN_EID_SSID :: u8 where "WLAN_EID_SSID = 0"
definition WLAN_EID_SUPP_RATES :: u8 where "WLAN_EID_SUPP_RATES = 1"
definition WLAN_EID_FH_PARAMS :: u8 where "WLAN_EID_FH_PARAMS = 2"
definition WLAN_EID_DS_PARAMS :: u8 where "WLAN_EID_DS_PARAMS = 3"
definition WLAN_EID_CF_PARAMS :: u8 where "WLAN_EID_CF_PARAMS = 4"
definition WLAN_EID_TIM :: u8 where "WLAN_EID_TIM = 5"
definition WLAN_EID_IBSS_PARAMS :: u8 where "WLAN_EID_IBSS_PARAMS = 6"
definition WLAN_EID_CHALLENGE :: u8 where "WLAN_EID_CHALLENGE = 16"
definition WLAN_EID_PWR_CAPABILITY :: u8 where "WLAN_EID_PWR_CAPABILITY = 33"
definition WLAN_EID_SUPPORTED_CHANNELS :: u8 where "WLAN_EID_SUPPORTED_CHANNELS = 36"
definition WLAN_EID_ERP_INFO :: u8 where "WLAN_EID_ERP_INFO = 42"
definition WLAN_EID_HT_CAP :: u8 where "WLAN_EID_HT_CAP = 45"
definition WLAN_EID_RSN :: u8 where "WLAN_EID_RSN = 48"
definition WLAN_EID_EXT_SUPP_RATES :: u8 where "WLAN_EID_EXT_SUPP_RATES = 50"
definition WLAN_EID_MOBILITY_DOMAIN :: u8 where "WLAN_EID_MOBILITY_DOMAIN = 54"
definition WLAN_EID_FAST_BSS_TRANSITION :: u8 where "WLAN_EID_FAST_BSS_TRANSITION = 55"
definition WLAN_EID_TIMEOUT_INTERVAL :: u8 where "WLAN_EID_TIMEOUT_INTERVAL = 56"
definition WLAN_EID_HT_OPERATION :: u8 where "WLAN_EID_HT_OPERATION = 61"
definition WLAN_EID_LINK_ID :: u8 where "WLAN_EID_LINK_ID = 101"
definition WLAN_EID_VENDOR_SPECIFIC :: u8 where "WLAN_EID_VENDOR_SPECIFIC = 221"

lemmas eid_defs =
  WLAN_EID_SSID_def WLAN_EID_SUPP_RATES_def WLAN_EID_FH_PARAMS_def WLAN_EID_DS_PARAMS_def
  WLAN_EID_CF_PARAMS_def WLAN_EID_TIM_def WLAN_EID_IBSS_PARAMS_def WLAN_EID_CHALLENGE_def
  WLAN_EID_PWR_CAPABILITY_def WLAN_EID_SUPPORTED_CHANNELS_def WLAN_EID_ERP_INFO_def
  WLAN_EID_HT_CAP_def WLAN_EID_RSN_def WLAN_EID_EXT_SUPP_RATES_def WLAN_EID_MOBILITY_DOMAIN_def
  WLAN_EID_FAST_BSS_TRANSITION_def WLAN_EID_TIMEOUT_INTERVAL_def WLAN_EID_HT_OPERATION_def
  WLAN_EID_LINK_ID_def WLAN_EID_VENDOR_SPECIFIC_def

definition OUI_MICROSOFT :: u32 where "OUI_MICROSOFT = 0x0050f2"
definition OUI_WFA :: u32 where "OUI_WFA = 0x506f9a"
definition OUI_BROADCOM :: u32 where "OUI_BROADCOM = 0x00904c"

section \<open>Parsing\<close>

text \<open>The element and whether it was ignored (\<^verbatim>\<open>return -1\<close>). The types are \<^verbatim>\<open>WMM_OUI_TYPE\<close> 2,
  \<^verbatim>\<open>P2P_OUI_TYPE\<close> 9 and \<^verbatim>\<open>VENDOR_HT_CAPAB_OUI_TYPE\<close> 0x33; the WMM subtypes are information 0,
  parameter 1 and TSPEC 2.\<close>

definition ieee802_11_parse_vendor_specific :: "bytes \<Rightarrow> ieee802_11_elems \<Rightarrow> bool \<times> ieee802_11_elems" where
  "ieee802_11_parse_vendor_specific pos elems =
     (if length pos < 4 then (True, elems)
      else let oui = WPA_GET_BE24 pos in
        if oui = OUI_MICROSOFT then
          if pos ! 3 = 1 then (False, elems\<lparr>e_wpa_ie := Some pos\<rparr>)
          else if pos ! 3 = 2 then
            if length pos < 5 then (True, elems)
            else if pos ! 4 = 0 \<or> pos ! 4 = 1 then (False, elems\<lparr>e_wmm := Some pos\<rparr>)
            else if pos ! 4 = 2 then (False, elems\<lparr>e_wmm_tspec := Some pos\<rparr>)
            else (True, elems)
          else if pos ! 3 = 4 then (False, elems\<lparr>e_wps_ie := Some pos\<rparr>)
          else (True, elems)
        else if oui = OUI_WFA then
          if pos ! 3 = 9 then (False, elems\<lparr>e_p2p := Some pos\<rparr>) else (True, elems)
        else if oui = OUI_BROADCOM then
          if pos ! 3 = 0x33 then (False, elems\<lparr>e_vendor_ht_cap := Some pos\<rparr>) else (True, elems)
        else (True, elems))"

text \<open>The body of the \<^verbatim>\<open>switch\<close> of \<^verbatim>\<open>ieee802_11_parse_elems\<close>, with whether the element is unknown.\<close>

definition parse_elem :: "u8 \<Rightarrow> bytes \<Rightarrow> ieee802_11_elems \<Rightarrow> bool \<times> ieee802_11_elems" where
  "parse_elem eid pos elems =
     (if eid = WLAN_EID_SSID then (False, elems\<lparr>e_ssid := Some pos\<rparr>)
      else if eid = WLAN_EID_SUPP_RATES then (False, elems\<lparr>e_supp_rates := Some pos\<rparr>)
      else if eid = WLAN_EID_FH_PARAMS then (False, elems\<lparr>e_fh_params := Some pos\<rparr>)
      else if eid = WLAN_EID_DS_PARAMS then (False, elems\<lparr>e_ds_params := Some pos\<rparr>)
      else if eid = WLAN_EID_CF_PARAMS then (False, elems\<lparr>e_cf_params := Some pos\<rparr>)
      else if eid = WLAN_EID_TIM then (False, elems\<lparr>e_tim := Some pos\<rparr>)
      else if eid = WLAN_EID_IBSS_PARAMS then (False, elems\<lparr>e_ibss_params := Some pos\<rparr>)
      else if eid = WLAN_EID_CHALLENGE then (False, elems\<lparr>e_challenge := Some pos\<rparr>)
      else if eid = WLAN_EID_ERP_INFO then (False, elems\<lparr>e_erp_info := Some pos\<rparr>)
      else if eid = WLAN_EID_EXT_SUPP_RATES then (False, elems\<lparr>e_ext_supp_rates := Some pos\<rparr>)
      else if eid = WLAN_EID_VENDOR_SPECIFIC then ieee802_11_parse_vendor_specific pos elems
      else if eid = WLAN_EID_RSN then (False, elems\<lparr>e_rsn_ie := Some pos\<rparr>)
      else if eid = WLAN_EID_PWR_CAPABILITY then (False, elems\<lparr>e_power_cap := Some pos\<rparr>)
      else if eid = WLAN_EID_SUPPORTED_CHANNELS then (False, elems\<lparr>e_supp_channels := Some pos\<rparr>)
      else if eid = WLAN_EID_MOBILITY_DOMAIN then (False, elems\<lparr>e_mdie := Some pos\<rparr>)
      else if eid = WLAN_EID_FAST_BSS_TRANSITION then (False, elems\<lparr>e_ftie := Some pos\<rparr>)
      else if eid = WLAN_EID_TIMEOUT_INTERVAL then (False, elems\<lparr>e_timeout_int := Some pos\<rparr>)
      else if eid = WLAN_EID_HT_CAP then (False, elems\<lparr>e_ht_capabilities := Some pos\<rparr>)
      else if eid = WLAN_EID_HT_OPERATION then (False, elems\<lparr>e_ht_operation := Some pos\<rparr>)
      else if eid = WLAN_EID_LINK_ID then
        if length pos < 18 then (False, elems) else (False, elems\<lparr>e_link_id := Some pos\<rparr>)
      else (True, elems))"

fun parse_elems_loop :: "bytes \<Rightarrow> nat \<Rightarrow> ieee802_11_elems \<Rightarrow> ParseRes \<times> ieee802_11_elems" where
  "parse_elems_loop (eid # elen # pos) unknown elems =
     (if unat elen > length pos then (ParseFailed, elems)
      else case parse_elem eid (take (unat elen) pos) elems of
        (ignored, elems) \<Rightarrow>
          parse_elems_loop (drop (unat elen) pos) (if ignored then unknown + 1 else unknown) elems)"
| "parse_elems_loop [x] unknown elems = (ParseFailed, elems)"
| "parse_elems_loop [] unknown elems = (if unknown = 0 then ParseOK else ParseUnknown, elems)"

definition ieee802_11_parse_elems :: "bytes \<Rightarrow> ParseRes \<times> ieee802_11_elems" where
  "ieee802_11_parse_elems start = parse_elems_loop start 0 no_elems"

fun ie_count_loop :: "bytes \<Rightarrow> nat \<Rightarrow> nat" where
  "ie_count_loop (eid # elen # pos) count =
     (if unat elen > length pos then count else ie_count_loop (drop (unat elen) pos) (count + 1))"
| "ie_count_loop pos count = count"

definition ieee802_11_ie_count :: "bytes option \<Rightarrow> nat" where
  "ieee802_11_ie_count ies = (case ies of None \<Rightarrow> 0 | Some pos \<Rightarrow> ie_count_loop pos 0)"

section \<open>Vendor elements\<close>

definition vendor_match :: "u32 \<Rightarrow> u8 \<Rightarrow> u8 \<Rightarrow> bytes \<Rightarrow> bool" where
  "vendor_match oui_type eid elen pos \<longleftrightarrow>
     eid = WLAN_EID_VENDOR_SPECIFIC \<and> elen \<ge> 4 \<and> WPA_GET_BE32 pos = oui_type"

text \<open>The first loop of \<^verbatim>\<open>ieee802_11_vendor_ie_concat\<close>: the position of the first matching element.\<close>

fun find_vendor_ie :: "u32 \<Rightarrow> bytes \<Rightarrow> bytes option" where
  "find_vendor_ie oui_type (eid # elen # pos) =
     (if unat elen > length pos then None
      else if vendor_match oui_type eid elen pos then Some (eid # elen # pos)
      else find_vendor_ie oui_type (drop (unat elen) pos))"
| "find_vendor_ie oui_type pos = None"

fun vendor_concat_loop :: "u32 \<Rightarrow> bytes \<Rightarrow> wpabuf \<Rightarrow> wpabuf outcome" where
  "vendor_concat_loop oui_type (eid # elen # pos) buf =
     (if unat elen > length pos then Ok buf
      else bind_outcome
        (if vendor_match oui_type eid elen pos
         then wpabuf_put_data buf (Some (take (unat elen - 4) (drop 4 pos))) else Ok buf)
        (vendor_concat_loop oui_type (drop (unat elen) pos)))"
| "vendor_concat_loop oui_type pos buf = Ok buf"

definition ieee802_11_vendor_ie_concat :: "bool \<Rightarrow> bytes \<Rightarrow> u32 \<Rightarrow> wpabuf option outcome" where
  "ieee802_11_vendor_ie_concat ok ies oui_type =
     (case find_vendor_ie oui_type ies of
        None \<Rightarrow> Ok None
      | Some pos \<Rightarrow>
          (case wpabuf_alloc ok (of_nat (length ies)) of
             None \<Rightarrow> Ok None
           | Some buf \<Rightarrow> bind_outcome (vendor_concat_loop oui_type pos buf) (\<lambda>buf. Ok (Some buf))))"

section \<open>The list of elements in a buffer\<close>

text \<open>The format the standard defines: an element is an identifier, a length and that many bytes.\<close>

type_synonym elem = "u8 \<times> bytes"

definition elem_ok :: "elem \<Rightarrow> bool" where "elem_ok e \<longleftrightarrow> length (snd e) < 256"

lemma elem_ok_pair [simp]: "elem_ok (eid, d) \<longleftrightarrow> length d < 256"
  by (simp add: elem_ok_def)

fun put_elems :: "elem list \<Rightarrow> bytes" where
  "put_elems [] = []"
| "put_elems ((eid, d) # es) = eid # of_nat (length d) # d @ put_elems es"

text \<open>The complete elements at the front of a buffer, and the bytes behind them.\<close>

fun split_elems :: "bytes \<Rightarrow> elem list \<times> bytes" where
  "split_elems (eid # elen # pos) =
     (if unat elen > length pos then ([], eid # elen # pos)
      else case split_elems (drop (unat elen) pos) of
        (es, rest) \<Rightarrow> ((eid, take (unat elen) pos) # es, rest))"
| "split_elems pos = ([], pos)"

definition get_elems :: "bytes \<Rightarrow> elem list option" where
  "get_elems b = (case split_elems b of (es, rest) \<Rightarrow> if rest = [] then Some es else None)"

lemma unat_len_u8 [simp]: "n < 256 \<Longrightarrow> unat (of_nat n :: u8) = n"
  by (simp add: unat_of_nat)

lemma split_put: "list_all elem_ok es \<Longrightarrow> split_elems (put_elems es) = (es, [])"
  by (induction es rule: put_elems.induct) (auto simp: elem_ok_def)

lemma split_front:
  "split_elems b = (es, rest) \<Longrightarrow> b = put_elems es @ rest \<and> list_all elem_ok es"
proof (induction b arbitrary: es rule: split_elems.induct)
  case (1 eid elen pos)
  show ?case
  proof (cases "unat elen > length pos")
    case False
    obtain es' where es': "split_elems (drop (unat elen) pos) = (es', rest)"
        "es = (eid, take (unat elen) pos) # es'"
      using 1 False by (auto split: prod.splits)
    from 1(1)[OF False es'(1)] have d: "drop (unat elen) pos = put_elems es' @ rest" and ok: "list_all elem_ok es'"
      by auto
    have "pos = take (unat elen) pos @ put_elems es' @ rest"
      using append_take_drop_id[of "unat elen" pos] by (simp add: d)
    then show ?thesis using False ok unfolding es'(2) by (simp add: min_def)
  qed (use 1 in auto)
qed auto

interpretation tlv: codec put_elems get_elems "list_all elem_ok"
  by unfold_locales (simp add: get_elems_def split_put)

lemma get_elems_iff: "get_elems b = Some es \<longleftrightarrow> list_all elem_ok es \<and> b = put_elems es"
proof
  assume "get_elems b = Some es"
  then have "split_elems b = (es, [])" unfolding get_elems_def by (simp split: prod.splits if_splits)
  then show "list_all elem_ok es \<and> b = put_elems es" using split_front by fastforce
qed (simp add: tlv.dec_enc)

section \<open>Each loop follows that list\<close>

definition apply_elems :: "elem list \<Rightarrow> ieee802_11_elems \<Rightarrow> ieee802_11_elems" where
  "apply_elems es elems = fold (\<lambda>(eid, d) el. snd (parse_elem eid d el)) es elems"

definition known_elem :: "elem \<Rightarrow> bool" where
  "known_elem e \<longleftrightarrow> \<not> fst (parse_elem (fst e) (snd e) no_elems)"

lemma vendor_unknown_same:
  "fst (ieee802_11_parse_vendor_specific d el) = fst (ieee802_11_parse_vendor_specific d no_elems)"
  by (simp add: ieee802_11_parse_vendor_specific_def Let_def)

lemma parse_elem_unknown: "fst (parse_elem eid d el) = (\<not> known_elem (eid, d))"
  using vendor_unknown_same[of d el] by (simp add: known_elem_def parse_elem_def)

lemma parse_loop_split:
  "parse_elems_loop b unknown el =
     (case split_elems b of (es, rest) \<Rightarrow>
        (if rest \<noteq> [] then ParseFailed
         else if unknown = 0 \<and> list_all known_elem es then ParseOK else ParseUnknown, apply_elems es el))"
proof (induction b unknown el rule: parse_elems_loop.induct)
  case (1 eid elen pos unknown el)
  show ?case
  proof (cases "unat elen > length pos")
    case False
    obtain ign el' where p: "parse_elem eid (take (unat elen) pos) el = (ign, el')" by fastforce
    obtain es rest where s: "split_elems (drop (unat elen) pos) = (es, rest)" by fastforce
    have "ign = (\<not> known_elem (eid, take (unat elen) pos))"
      using parse_elem_unknown[of eid "take (unat elen) pos" el] by (simp add: p)
    with 1[OF False p[symmetric]] False p s show ?thesis by (simp add: apply_elems_def)
  qed (simp add: apply_elems_def)
qed (auto simp: apply_elems_def)

lemma ie_count_split: "ie_count_loop b n = n + length (fst (split_elems b))"
  by (induction b n rule: ie_count_loop.induct) (auto split: prod.splits)

text \<open>The last element of a kind.\<close>

definition last_elem :: "(elem \<Rightarrow> bool) \<Rightarrow> elem list \<Rightarrow> bytes option" where
  "last_elem P es = (if \<exists>e \<in> set es. P e then Some (snd (last (filter P es))) else None)"

lemma last_elem_Nil [simp]: "last_elem P [] = None"
  by (simp add: last_elem_def)

lemma last_elem_snoc [simp]:
  "last_elem P (es @ [e]) = (if P e then Some (snd e) else last_elem P es)"
  by (auto simp: last_elem_def)

lemma apply_field:
  assumes "\<And>eid d el. f (snd (parse_elem eid d el)) = (if P (eid, d) then Some d else f el)"
    and "f no_elems = None"
  shows "f (apply_elems es no_elems) = last_elem P es"
  by (induction es rule: rev_induct) (auto simp: apply_elems_def assms split: prod.splits)

definition vendor_elem :: "u32 \<Rightarrow> u8 \<Rightarrow> elem \<Rightarrow> bool" where
  "vendor_elem oui type e \<longleftrightarrow> fst e = WLAN_EID_VENDOR_SPECIFIC \<and> 4 \<le> length (snd e) \<and>
     WPA_GET_BE24 (snd e) = oui \<and> snd e ! 3 = type"

lemma parse_elem_fields:
  "e_ssid (snd (parse_elem eid d el)) = (if fst (eid, d) = WLAN_EID_SSID then Some d else e_ssid el)"
  "e_rsn_ie (snd (parse_elem eid d el)) = (if fst (eid, d) = WLAN_EID_RSN then Some d else e_rsn_ie el)"
  "e_mdie (snd (parse_elem eid d el)) = (if fst (eid, d) = WLAN_EID_MOBILITY_DOMAIN then Some d else e_mdie el)"
  "e_ftie (snd (parse_elem eid d el)) = (if fst (eid, d) = WLAN_EID_FAST_BSS_TRANSITION then Some d else e_ftie el)"
  "e_supp_rates (snd (parse_elem eid d el)) = (if fst (eid, d) = WLAN_EID_SUPP_RATES then Some d else e_supp_rates el)"
  "e_wpa_ie (snd (parse_elem eid d el)) = (if vendor_elem OUI_MICROSOFT 1 (eid, d) then Some d else e_wpa_ie el)"
  "e_wps_ie (snd (parse_elem eid d el)) = (if vendor_elem OUI_MICROSOFT 4 (eid, d) then Some d else e_wps_ie el)"
  "e_p2p (snd (parse_elem eid d el)) = (if vendor_elem OUI_WFA 9 (eid, d) then Some d else e_p2p el)"
  by (simp_all add: parse_elem_def ieee802_11_parse_vendor_specific_def vendor_elem_def eid_defs
      OUI_MICROSOFT_def OUI_WFA_def OUI_BROADCOM_def Let_def)

lemma apply_fields:
  "e_ssid (apply_elems es no_elems) = last_elem (\<lambda>e. fst e = WLAN_EID_SSID) es"
  "e_supp_rates (apply_elems es no_elems) = last_elem (\<lambda>e. fst e = WLAN_EID_SUPP_RATES) es"
  "e_rsn_ie (apply_elems es no_elems) = last_elem (\<lambda>e. fst e = WLAN_EID_RSN) es"
  "e_mdie (apply_elems es no_elems) = last_elem (\<lambda>e. fst e = WLAN_EID_MOBILITY_DOMAIN) es"
  "e_ftie (apply_elems es no_elems) = last_elem (\<lambda>e. fst e = WLAN_EID_FAST_BSS_TRANSITION) es"
  "e_wpa_ie (apply_elems es no_elems) = last_elem (vendor_elem OUI_MICROSOFT 1) es"
  "e_wps_ie (apply_elems es no_elems) = last_elem (vendor_elem OUI_MICROSOFT 4) es"
  "e_p2p (apply_elems es no_elems) = last_elem (vendor_elem OUI_WFA 9) es"
  using apply_field[of e_ssid "\<lambda>e. fst e = WLAN_EID_SSID" es]
    apply_field[of e_supp_rates "\<lambda>e. fst e = WLAN_EID_SUPP_RATES" es]
    apply_field[of e_rsn_ie "\<lambda>e. fst e = WLAN_EID_RSN" es]
    apply_field[of e_mdie "\<lambda>e. fst e = WLAN_EID_MOBILITY_DOMAIN" es]
    apply_field[of e_ftie "\<lambda>e. fst e = WLAN_EID_FAST_BSS_TRANSITION" es]
    apply_field[of e_wpa_ie "vendor_elem OUI_MICROSOFT 1" es]
    apply_field[of e_wps_ie "vendor_elem OUI_MICROSOFT 4" es]
    apply_field[of e_p2p "vendor_elem OUI_WFA 9" es]
  by (simp_all add: parse_elem_fields no_elems_def)

section \<open>Vendor elements in a buffer\<close>

definition vendor_sel :: "u32 \<Rightarrow> elem \<Rightarrow> bool" where
  "vendor_sel oui_type e \<longleftrightarrow> fst e = WLAN_EID_VENDOR_SPECIFIC \<and> 4 \<le> length (snd e) \<and>
     WPA_GET_BE32 (snd e) = oui_type"

definition vendor_data :: "u32 \<Rightarrow> bytes \<Rightarrow> bytes list" where
  "vendor_data oui_type b = map (\<lambda>e. drop 4 (snd e)) (filter (vendor_sel oui_type) (fst (split_elems b)))"

lemma vendor_match_sel:
  "unat elen \<le> length pos \<Longrightarrow> vendor_match oui eid elen pos = vendor_sel oui (eid, take (unat elen) pos)"
  by (auto simp: vendor_match_def vendor_sel_def word_le_nat_alt WPA_GET_BE32_def)

lemma vendor_data_simps:
  "unat elen \<le> length pos \<Longrightarrow> vendor_data oui (eid # elen # pos) =
     (if vendor_match oui eid elen pos then [take (unat elen - 4) (drop 4 pos)] else []) @ vendor_data oui (drop (unat elen) pos)"
  "\<not> unat elen \<le> length pos \<Longrightarrow> vendor_data oui (eid # elen # pos) = []"
  "vendor_data oui [] = []" "vendor_data oui [x] = []"
  by (simp_all add: vendor_data_def vendor_match_sel drop_take split: prod.splits)

lemma vendor_data_length: "length (concat (vendor_data oui b)) \<le> length b"
proof (induction b rule: split_elems.induct)
  case (1 eid elen pos)
  then show ?case by (cases "unat elen \<le> length pos") (auto simp: vendor_data_simps)
qed (simp_all add: vendor_data_simps)

lemma find_vendor_ie_data:
  "(case find_vendor_ie oui b of None \<Rightarrow> vendor_data oui b = []
    | Some p \<Rightarrow> vendor_data oui b \<noteq> [] \<and> vendor_data oui p = vendor_data oui b)"
proof (induction oui b rule: find_vendor_ie.induct)
  case (1 oui eid elen pos)
  then show ?case by (cases "unat elen \<le> length pos") (auto simp: vendor_data_simps split: option.splits)
qed (simp_all add: vendor_data_simps)

lemma vendor_concat_loop_data:
  "vendor_concat_loop oui b buf = put_all put_bytes buf (vendor_data oui b)"
proof (induction oui b buf rule: vendor_concat_loop.induct)
  case (1 oui eid elen pos buf)
  show ?case
  proof (cases "unat elen \<le> length pos")
    case True
    have "vendor_concat_loop oui (drop (unat elen) pos) = (\<lambda>b. put_all put_bytes b (vendor_data oui (drop (unat elen) pos)))"
      using 1 True by (intro ext) simp
    with True show ?thesis by (simp add: vendor_data_simps wpabuf_put_data_def)
  qed (simp add: vendor_data_simps)
qed (simp_all add: vendor_data_simps)

section \<open>Claims\<close>


text \<open>The elements a sender wrote one after the other, none longer than 255 bytes, are counted by
  \<^verbatim>\<open>ieee802_11_ie_count\<close>, and any bytes that follow without making a complete element do not count.\<close>

theorem ieee802_11_ie_count_exact:
  "split_elems ies = (es, rest) \<Longrightarrow> ieee802_11_ie_count (Some ies) = length es \<and>
     ies = put_elems es @ rest \<and> list_all elem_ok es"
  using split_front[of ies es rest] by (simp add: ieee802_11_ie_count_def ie_count_split)

theorem ieee802_11_ie_count_exact_witness:
  "ieee802_11_ie_count (Some [0, 2, 97, 98, 48, 0, 1, 7]) = length [(0 :: u8, [97, 98 :: u8]), (48, [])] \<and>
   [0, 2, 97, 98, 48, 0, 1, 7] = put_elems [(0, [97, 98]), (48, [])] @ [1, 7] \<and>
   list_all elem_ok [(0, [97, 98]), (48, [])]"
  by (rule ieee802_11_ie_count_exact) simp

text \<open>C34. \<^verbatim>\<open>ieee802_11_vendor_ie_concat\<close> on any buffer, well-formed or not: the buffer it allocates is
  always large enough, so it neither aborts nor writes outside; it returns NULL if no complete element
  has the wanted OUI and type, and otherwise the bodies of all such elements in order, without their
  OUI and type bytes.\<close>

theorem ieee802_11_vendor_ie_concat_exact:
  assumes "length ies + 12 < 2 ^ 32"
  shows "if vendor_data oui_type ies = [] then ieee802_11_vendor_ie_concat True ies oui_type = Ok None
    else \<exists>buf. ieee802_11_vendor_ie_concat True ies oui_type = Ok (Some buf) \<and> wpabuf_ok buf \<and>
      content buf = concat (vendor_data oui_type ies)"
proof (cases "find_vendor_ie oui_type ies")
  case None
  then show ?thesis using find_vendor_ie_data[of oui_type ies] by (simp add: ieee802_11_vendor_ie_concat_def)
next
  case (Some p)
  have p: "vendor_data oui_type ies \<noteq> []" "vendor_data oui_type p = vendor_data oui_type ies"
    using find_vendor_ie_data[of oui_type ies] by (simp_all add: Some)
  have len: "unat (of_nat (length ies) :: size_t) = length ies" using assms by (simp add: unat_of_nat)
  then have "unat (of_nat (length ies) :: size_t) + 12 < 2 ^ 32" using assms by simp
  then obtain buf where b: "wpabuf_alloc True (of_nat (length ies)) = Some buf" "wpabuf_ok buf" "content buf = []"
      "wb_size buf = of_nat (length ies)" "wb_used buf = 0"
    by (rule alloc_ok)
  have "length (concat (vendor_data oui_type p)) \<le> unat (wb_size buf) - unat (wb_used buf)"
    using vendor_data_length[of oui_type ies] len b by (simp add: p)
  from wb.put_all_fits[OF b(2) this] obtain buf' where
    "put_all put_bytes buf (vendor_data oui_type ies) = Ok buf'" "wpabuf_ok buf'"
    "content buf' = concat (vendor_data oui_type ies)"
    using b p by auto
  then show ?thesis
    using p b by (simp add: ieee802_11_vendor_ie_concat_def Some vendor_concat_loop_data)
qed

theorem ieee802_11_vendor_ie_concat_exact_witness:
  "if vendor_data 0x0050f204 [221, 6, 0x00, 0x50, 0xf2, 4, 1, 2, 221, 5, 0x00, 0x50, 0xf2, 4, 3, 9] = []
   then ieee802_11_vendor_ie_concat True [221, 6, 0x00, 0x50, 0xf2, 4, 1, 2, 221, 5, 0x00, 0x50, 0xf2, 4, 3, 9] 0x0050f204 = Ok None
   else \<exists>buf. ieee802_11_vendor_ie_concat True [221, 6, 0x00, 0x50, 0xf2, 4, 1, 2, 221, 5, 0x00, 0x50, 0xf2, 4, 3, 9] 0x0050f204
      = Ok (Some buf) \<and> wpabuf_ok buf \<and>
      content buf = concat (vendor_data 0x0050f204 [221, 6, 0x00, 0x50, 0xf2, 4, 1, 2, 221, 5, 0x00, 0x50, 0xf2, 4, 3, 9])"
  by (rule ieee802_11_vendor_ie_concat_exact) simp

end
