(* ===== verification/Wpa_Ie.thy ===== *)
theory Wpa_Ie
  imports Wpa_Defs Ieee80211_Elems
begin

text \<open>
  WPA and RSN information elements and the key data of EAPOL-Key frames:
  \<^verbatim>\<open>src/athr-hostap/src/common/wpa_common.c\<close> and \<^verbatim>\<open>src/athr-hostap/src/ap/wpa_auth_ie.c\<close>, in the
  build without \<^verbatim>\<open>CONFIG_IEEE80211R\<close>, \<^verbatim>\<open>CONFIG_IEEE80211W\<close>, \<^verbatim>\<open>CONFIG_PEERKEY\<close> and
  \<^verbatim>\<open>CONFIG_RSN_TESTING\<close>. The parsers read the list of the bytes that are left, so \<^verbatim>\<open>left\<close> is its
  length; the hash functions are arguments.
\<close>

section \<open>Constants\<close>

text \<open>\<^verbatim>\<open>RSN_SELECTOR(a, b, c, d)\<close> is the big-endian number with these bytes.\<close>

definition WPA_AUTH_KEY_MGMT_NONE :: u32 where "WPA_AUTH_KEY_MGMT_NONE = 0x0050f200"
definition WPA_AUTH_KEY_MGMT_UNSPEC_802_1X :: u32 where "WPA_AUTH_KEY_MGMT_UNSPEC_802_1X = 0x0050f201"
definition WPA_AUTH_KEY_MGMT_PSK_OVER_802_1X :: u32 where "WPA_AUTH_KEY_MGMT_PSK_OVER_802_1X = 0x0050f202"
definition WPA_CIPHER_SUITE_NONE :: u32 where "WPA_CIPHER_SUITE_NONE = 0x0050f200"
definition WPA_CIPHER_SUITE_WEP40 :: u32 where "WPA_CIPHER_SUITE_WEP40 = 0x0050f201"
definition WPA_CIPHER_SUITE_TKIP :: u32 where "WPA_CIPHER_SUITE_TKIP = 0x0050f202"
definition WPA_CIPHER_SUITE_CCMP :: u32 where "WPA_CIPHER_SUITE_CCMP = 0x0050f204"
definition WPA_CIPHER_SUITE_WEP104 :: u32 where "WPA_CIPHER_SUITE_WEP104 = 0x0050f205"
definition RSN_AUTH_KEY_MGMT_UNSPEC_802_1X :: u32 where "RSN_AUTH_KEY_MGMT_UNSPEC_802_1X = 0x000fac01"
definition RSN_AUTH_KEY_MGMT_PSK_OVER_802_1X :: u32 where "RSN_AUTH_KEY_MGMT_PSK_OVER_802_1X = 0x000fac02"
definition RSN_CIPHER_SUITE_NONE :: u32 where "RSN_CIPHER_SUITE_NONE = 0x000fac00"
definition RSN_CIPHER_SUITE_WEP40 :: u32 where "RSN_CIPHER_SUITE_WEP40 = 0x000fac01"
definition RSN_CIPHER_SUITE_TKIP :: u32 where "RSN_CIPHER_SUITE_TKIP = 0x000fac02"
definition RSN_CIPHER_SUITE_CCMP :: u32 where "RSN_CIPHER_SUITE_CCMP = 0x000fac04"
definition RSN_CIPHER_SUITE_WEP104 :: u32 where "RSN_CIPHER_SUITE_WEP104 = 0x000fac05"
definition RSN_KEY_DATA_GROUPKEY :: u32 where "RSN_KEY_DATA_GROUPKEY = 0x000fac01"
definition RSN_KEY_DATA_MAC_ADDR :: u32 where "RSN_KEY_DATA_MAC_ADDR = 0x000fac03"
definition RSN_KEY_DATA_PMKID :: u32 where "RSN_KEY_DATA_PMKID = 0x000fac04"
definition WPA_OUI_TYPE :: u32 where "WPA_OUI_TYPE = 0x0050f201"

lemmas selector_defs =
  WPA_AUTH_KEY_MGMT_NONE_def WPA_AUTH_KEY_MGMT_UNSPEC_802_1X_def WPA_AUTH_KEY_MGMT_PSK_OVER_802_1X_def
  WPA_CIPHER_SUITE_NONE_def WPA_CIPHER_SUITE_WEP40_def WPA_CIPHER_SUITE_TKIP_def WPA_CIPHER_SUITE_CCMP_def
  WPA_CIPHER_SUITE_WEP104_def RSN_AUTH_KEY_MGMT_UNSPEC_802_1X_def RSN_AUTH_KEY_MGMT_PSK_OVER_802_1X_def
  RSN_CIPHER_SUITE_NONE_def RSN_CIPHER_SUITE_WEP40_def RSN_CIPHER_SUITE_TKIP_def RSN_CIPHER_SUITE_CCMP_def
  RSN_CIPHER_SUITE_WEP104_def RSN_KEY_DATA_GROUPKEY_def RSN_KEY_DATA_MAC_ADDR_def RSN_KEY_DATA_PMKID_def
  WPA_OUI_TYPE_def

definition WPA_CAPABILITY_PREAUTH :: int where "WPA_CAPABILITY_PREAUTH = 1"
definition WPA_CAPABILITY_PEERKEY_ENABLED :: int where "WPA_CAPABILITY_PEERKEY_ENABLED = 512"
definition PMKID_LEN :: nat where "PMKID_LEN = 16"
definition RSN_VERSION :: u16 where "RSN_VERSION = 1"
definition WPA_VERSION :: u16 where "WPA_VERSION = 1"

section \<open>Data\<close>

record wpa_ie_data =
  d_proto :: int
  d_pairwise_cipher :: int
  d_group_cipher :: int
  d_key_mgmt :: int
  d_capabilities :: int
  d_num_pmkid :: nat
  d_pmkid :: "bytes option"
  d_mgmt_group_cipher :: int

record wpa_auth_config =
  c_wpa :: int
  c_wpa_key_mgmt :: int
  c_wpa_pairwise :: int
  c_wpa_group :: int
  c_wpa_group_rekey :: int
  c_wpa_strict_rekey :: bool
  c_wpa_gmk_rekey :: int
  c_wpa_ptk_rekey :: int
  c_rsn_pairwise :: int
  c_rsn_preauth :: bool
  c_eapol_version :: u8
  c_peerkey :: bool
  c_wmm_enabled :: bool
  c_wmm_uapsd :: int
  c_okc :: bool

text \<open>The key data of an EAPOL-Key frame. The elements are kept with their two header bytes, the key
  data encapsulations without header and selector.\<close>

record wpa_eapol_ie_parse =
  k_wpa_ie :: "bytes option"
  k_rsn_ie :: "bytes option"
  k_pmkid :: "bytes option"
  k_gtk :: "bytes option"
  k_mac_addr :: "bytes option"

section \<open>Parsing\<close>

definition rsn_selector_to_bitfield :: "bytes \<Rightarrow> int" where
  "rsn_selector_to_bitfield s =
     (if WPA_GET_BE32 s = RSN_CIPHER_SUITE_NONE then WPA_CIPHER_NONE
      else if WPA_GET_BE32 s = RSN_CIPHER_SUITE_WEP40 then WPA_CIPHER_WEP40
      else if WPA_GET_BE32 s = RSN_CIPHER_SUITE_TKIP then WPA_CIPHER_TKIP
      else if WPA_GET_BE32 s = RSN_CIPHER_SUITE_CCMP then WPA_CIPHER_CCMP
      else if WPA_GET_BE32 s = RSN_CIPHER_SUITE_WEP104 then WPA_CIPHER_WEP104
      else 0)"

definition rsn_key_mgmt_to_bitfield :: "bytes \<Rightarrow> int" where
  "rsn_key_mgmt_to_bitfield s =
     (if WPA_GET_BE32 s = RSN_AUTH_KEY_MGMT_UNSPEC_802_1X then WPA_KEY_MGMT_IEEE8021X
      else if WPA_GET_BE32 s = RSN_AUTH_KEY_MGMT_PSK_OVER_802_1X then WPA_KEY_MGMT_PSK
      else 0)"

definition wpa_selector_to_bitfield :: "bytes \<Rightarrow> int" where
  "wpa_selector_to_bitfield s =
     (if WPA_GET_BE32 s = WPA_CIPHER_SUITE_NONE then WPA_CIPHER_NONE
      else if WPA_GET_BE32 s = WPA_CIPHER_SUITE_WEP40 then WPA_CIPHER_WEP40
      else if WPA_GET_BE32 s = WPA_CIPHER_SUITE_TKIP then WPA_CIPHER_TKIP
      else if WPA_GET_BE32 s = WPA_CIPHER_SUITE_CCMP then WPA_CIPHER_CCMP
      else if WPA_GET_BE32 s = WPA_CIPHER_SUITE_WEP104 then WPA_CIPHER_WEP104
      else 0)"

definition wpa_key_mgmt_to_bitfield :: "bytes \<Rightarrow> int" where
  "wpa_key_mgmt_to_bitfield s =
     (if WPA_GET_BE32 s = WPA_AUTH_KEY_MGMT_UNSPEC_802_1X then WPA_KEY_MGMT_IEEE8021X
      else if WPA_GET_BE32 s = WPA_AUTH_KEY_MGMT_PSK_OVER_802_1X then WPA_KEY_MGMT_PSK
      else if WPA_GET_BE32 s = WPA_AUTH_KEY_MGMT_NONE then WPA_KEY_MGMT_WPA_NONE
      else 0)"

text \<open>The loop \<^verbatim>\<open>for (i = 0; i < count; i++)\<close> over a list of suites.\<close>

fun suites_loop :: "(bytes \<Rightarrow> int) \<Rightarrow> nat \<Rightarrow> int \<Rightarrow> bytes \<Rightarrow> int \<times> bytes" where
  "suites_loop conv 0 acc pos = (acc, pos)"
| "suites_loop conv (Suc n) acc pos = suites_loop conv n (acc OR conv pos) (drop 4 pos)"

text \<open>One of the two blocks for a counted list of suites: the error or 0, the bits and the bytes left.
  The bits are cleared before the count is checked; without the block they keep their default.\<close>

definition parse_suites :: "(bytes \<Rightarrow> int) \<Rightarrow> int \<Rightarrow> int \<Rightarrow> int \<Rightarrow> bytes \<Rightarrow> int \<times> int \<times> bytes" where
  "parse_suites conv e_count e_short dflt pos =
     (if length pos \<ge> 2 then
        let count = unat (WPA_GET_LE16 pos); pos = drop 2 pos in
        if count = 0 \<or> length pos < count * 4 then (e_count, 0, pos)
        else case suites_loop conv count 0 pos of (bits, pos) \<Rightarrow> (0, bits, pos)
      else if length pos = 1 then (e_short, dflt, pos)
      else (0, dflt, pos))"

definition rsn_ie_defaults :: wpa_ie_data where
  "rsn_ie_defaults = \<lparr>d_proto = WPA_PROTO_RSN, d_pairwise_cipher = WPA_CIPHER_CCMP,
     d_group_cipher = WPA_CIPHER_CCMP, d_key_mgmt = WPA_KEY_MGMT_IEEE8021X, d_capabilities = 0,
     d_num_pmkid = 0, d_pmkid = None, d_mgmt_group_cipher = 0\<rparr>"

text \<open>Capabilities and PMKID list.\<close>

definition parse_rsn_tail :: "bytes \<Rightarrow> wpa_ie_data \<Rightarrow> int \<times> wpa_ie_data" where
  "parse_rsn_tail pos data =
     (let (data, pos) =
        (if length pos \<ge> 2 then (data\<lparr>d_capabilities := uint (WPA_GET_LE16 pos)\<rparr>, drop 2 pos) else (data, pos))
      in if length pos \<ge> 2 then
           let n = unat (WPA_GET_LE16 pos); pos = drop 2 pos in
           if length pos < n * PMKID_LEN then (-9, data\<lparr>d_num_pmkid := 0\<rparr>)
           else (0, data\<lparr>d_num_pmkid := n, d_pmkid := Some (take (n * PMKID_LEN) pos)\<rparr>)
         else (0, data))"

text \<open>The suites and what follows, of both kinds of element: \<open>tail\<close> parses what follows the suites.\<close>

definition parse_suite_fields ::
  "(bytes \<Rightarrow> int) \<Rightarrow> (bytes \<Rightarrow> int) \<Rightarrow> (bytes \<Rightarrow> wpa_ie_data \<Rightarrow> int \<times> wpa_ie_data) \<Rightarrow>
   bytes \<Rightarrow> wpa_ie_data \<Rightarrow> int \<times> wpa_ie_data" where
  "parse_suite_fields cipher akm tail pos data =
     (if 0 < length pos \<and> length pos < 4 then (-3, data)
      else
        let (data, pos) = (if length pos \<ge> 4 then (data\<lparr>d_group_cipher := cipher pos\<rparr>, drop 4 pos) else (data, pos))
        in case parse_suites cipher (-4) (-5) (d_pairwise_cipher data) pos of
          (err, bits, pos) \<Rightarrow>
            let data = data\<lparr>d_pairwise_cipher := bits\<rparr> in
            if err \<noteq> 0 then (err, data)
            else case parse_suites akm (-6) (-7) (d_key_mgmt data) pos of
              (err, bits, pos) \<Rightarrow>
                let data = data\<lparr>d_key_mgmt := bits\<rparr> in
                if err \<noteq> 0 then (err, data) else tail pos data)"

definition wpa_parse_wpa_ie_rsn :: "bytes \<Rightarrow> int \<times> wpa_ie_data" where
  "wpa_parse_wpa_ie_rsn rsn_ie =
     (if length rsn_ie < 4 then (-1, rsn_ie_defaults)
      else if rsn_ie ! 0 \<noteq> WLAN_EID_RSN \<or> unat (rsn_ie ! 1) \<noteq> length rsn_ie - 2 \<or>
        WPA_GET_LE16 (drop 2 rsn_ie) \<noteq> RSN_VERSION then (-2, rsn_ie_defaults)
      else parse_suite_fields rsn_selector_to_bitfield rsn_key_mgmt_to_bitfield parse_rsn_tail
        (drop 4 rsn_ie) rsn_ie_defaults)"

definition wpa_ie_defaults :: wpa_ie_data where
  "wpa_ie_defaults = \<lparr>d_proto = WPA_PROTO_WPA, d_pairwise_cipher = WPA_CIPHER_TKIP,
     d_group_cipher = WPA_CIPHER_TKIP, d_key_mgmt = WPA_KEY_MGMT_IEEE8021X, d_capabilities = 0,
     d_num_pmkid = 0, d_pmkid = None, d_mgmt_group_cipher = 0\<rparr>"

definition parse_wpa_tail :: "bytes \<Rightarrow> wpa_ie_data \<Rightarrow> int \<times> wpa_ie_data" where
  "parse_wpa_tail pos data =
     (if length pos \<ge> 2 then (0, data\<lparr>d_capabilities := uint (WPA_GET_LE16 pos)\<rparr>) else (0, data))"

definition wpa_parse_wpa_ie_wpa :: "bytes \<Rightarrow> int \<times> wpa_ie_data" where
  "wpa_parse_wpa_ie_wpa wpa_ie =
     (if length wpa_ie < 8 then (-1, wpa_ie_defaults)
      else if wpa_ie ! 0 \<noteq> WLAN_EID_VENDOR_SPECIFIC \<or> unat (wpa_ie ! 1) \<noteq> length wpa_ie - 2 \<or>
        WPA_GET_BE32 (drop 2 wpa_ie) \<noteq> WPA_OUI_TYPE \<or> WPA_GET_LE16 (drop 6 wpa_ie) \<noteq> WPA_VERSION
      then (-2, wpa_ie_defaults)
      else parse_suite_fields wpa_selector_to_bitfield wpa_key_mgmt_to_bitfield parse_wpa_tail
        (drop 8 wpa_ie) wpa_ie_defaults)"

text \<open>0 if the elements are the same, -1 if not.\<close>

definition wpa_compare_rsn_ie :: "bytes option \<Rightarrow> bytes option \<Rightarrow> int" where
  "wpa_compare_rsn_ie ie1 ie2 =
     (case (ie1, ie2) of (Some a, Some b) \<Rightarrow> if a = b then 0 else -1 | _ \<Rightarrow> -1)"

section \<open>Writing\<close>

definition group_selector :: "(u32 \<times> u32 \<times> u32 \<times> u32) \<Rightarrow> int \<Rightarrow> u32 option" where
  "group_selector = (\<lambda>(ccmp, tkip, wep104, wep40) cipher.
     if cipher = WPA_CIPHER_CCMP then Some ccmp
     else if cipher = WPA_CIPHER_TKIP then Some tkip
     else if cipher = WPA_CIPHER_WEP104 then Some wep104
     else if cipher = WPA_CIPHER_WEP40 then Some wep40
     else None)"

definition rsn_cipher_table :: "(int \<times> u32) list" where
  "rsn_cipher_table = [(WPA_CIPHER_CCMP, RSN_CIPHER_SUITE_CCMP), (WPA_CIPHER_TKIP, RSN_CIPHER_SUITE_TKIP),
     (WPA_CIPHER_NONE, RSN_CIPHER_SUITE_NONE)]"

definition rsn_akm_table :: "(int \<times> u32) list" where
  "rsn_akm_table = [(WPA_KEY_MGMT_IEEE8021X, RSN_AUTH_KEY_MGMT_UNSPEC_802_1X),
     (WPA_KEY_MGMT_PSK, RSN_AUTH_KEY_MGMT_PSK_OVER_802_1X)]"

definition wpa_cipher_table :: "(int \<times> u32) list" where
  "wpa_cipher_table = [(WPA_CIPHER_CCMP, WPA_CIPHER_SUITE_CCMP), (WPA_CIPHER_TKIP, WPA_CIPHER_SUITE_TKIP),
     (WPA_CIPHER_NONE, WPA_CIPHER_SUITE_NONE)]"

definition wpa_akm_table :: "(int \<times> u32) list" where
  "wpa_akm_table = [(WPA_KEY_MGMT_IEEE8021X, WPA_AUTH_KEY_MGMT_UNSPEC_802_1X),
     (WPA_KEY_MGMT_PSK, WPA_AUTH_KEY_MGMT_PSK_OVER_802_1X)]"

definition rsn_group_table :: "u32 \<times> u32 \<times> u32 \<times> u32" where
  "rsn_group_table = (RSN_CIPHER_SUITE_CCMP, RSN_CIPHER_SUITE_TKIP, RSN_CIPHER_SUITE_WEP104, RSN_CIPHER_SUITE_WEP40)"

definition wpa_group_table :: "u32 \<times> u32 \<times> u32 \<times> u32" where
  "wpa_group_table = (WPA_CIPHER_SUITE_CCMP, WPA_CIPHER_SUITE_TKIP, WPA_CIPHER_SUITE_WEP104, WPA_CIPHER_SUITE_WEP40)"

lemmas suite_tables = rsn_cipher_table_def rsn_akm_table_def wpa_cipher_table_def wpa_akm_table_def
  rsn_group_table_def wpa_group_table_def

text \<open>The selectors written for the bits of \<open>flags\<close>, in the order of the code.\<close>

definition chosen :: "(int \<times> u32) list \<Rightarrow> int \<Rightarrow> u32 list" where
  "chosen table flags = map snd (filter (\<lambda>(flag, sel). flags AND flag \<noteq> 0) table)"

definition put_suites :: "u32 list \<Rightarrow> bytes" where
  "put_suites sels = WPA_PUT_LE16 (of_nat (length sels)) @ concat (map WPA_PUT_BE32 sels)"

definition wpa_write_wpa_ie :: "wpa_auth_config \<Rightarrow> bytes option" where
  "wpa_write_wpa_ie conf =
     (case group_selector wpa_group_table
         (c_wpa_group conf) of
        None \<Rightarrow> None
      | Some gsel \<Rightarrow>
          let pairwise = chosen wpa_cipher_table (c_wpa_pairwise conf);
              akm = chosen wpa_akm_table (c_wpa_key_mgmt conf);
              body = WPA_PUT_BE32 WPA_OUI_TYPE @ WPA_PUT_LE16 WPA_VERSION @ WPA_PUT_BE32 gsel @
                put_suites pairwise @ put_suites akm
          in if pairwise = [] then None else if akm = [] then None
             else Some (WLAN_EID_VENDOR_SPECIFIC # of_nat (length body) # body))"

definition rsn_capab :: "wpa_auth_config \<Rightarrow> int" where
  "rsn_capab conf =
     (let capab = 0;
          capab = (if c_rsn_preauth conf then capab OR WPA_CAPABILITY_PREAUTH else capab);
          capab = (if c_peerkey conf then capab OR WPA_CAPABILITY_PEERKEY_ENABLED else capab);
          capab = (if c_wmm_enabled conf then capab OR push_bit 2 3 else capab)
      in capab)"

definition wpa_write_rsn_ie :: "wpa_auth_config \<Rightarrow> nat \<Rightarrow> bytes option \<Rightarrow> bytes option" where
  "wpa_write_rsn_ie conf len pmkid =
     (case group_selector rsn_group_table
         (c_wpa_group conf) of
        None \<Rightarrow> None
      | Some gsel \<Rightarrow>
          let pairwise = chosen rsn_cipher_table (c_rsn_pairwise conf);
              akm = chosen rsn_akm_table (c_wpa_key_mgmt conf);
              body = WPA_PUT_LE16 RSN_VERSION @ WPA_PUT_BE32 gsel @ put_suites pairwise @ put_suites akm @
                WPA_PUT_LE16 (of_int (rsn_capab conf))
          in if pairwise = [] then None else if akm = [] then None
             else case pmkid of
               None \<Rightarrow> Some (WLAN_EID_RSN # of_nat (length body) # body)
             | Some pid \<Rightarrow>
                 if 2 + length body + 2 + PMKID_LEN > len then None
                 else let body = body @ WPA_PUT_LE16 1 @ take PMKID_LEN pid
                      in Some (WLAN_EID_RSN # of_nat (length body) # body))"

text \<open>The element that \<^verbatim>\<open>wpa_auth_gen_wpa_ie\<close> stores, or \<^term>\<open>None\<close> if it fails. Its buffer has
  128 bytes; \<open>ok\<close> tells whether the allocation succeeds.\<close>

definition wpa_auth_gen_wpa_ie :: "bool \<Rightarrow> wpa_auth_config \<Rightarrow> bytes option" where
  "wpa_auth_gen_wpa_ie ok conf =
     (case (if c_wpa conf AND WPA_PROTO_RSN \<noteq> 0 then wpa_write_rsn_ie conf 128 None else Some []) of
        None \<Rightarrow> None
      | Some rsn \<Rightarrow>
          (case (if c_wpa conf AND WPA_PROTO_WPA \<noteq> 0 then wpa_write_wpa_ie conf else Some []) of
             None \<Rightarrow> None
           | Some wpa \<Rightarrow> if ok then Some (rsn @ wpa) else None))"

text \<open>The bytes \<^verbatim>\<open>wpa_add_kde\<close> writes.\<close>

definition wpa_add_kde :: "u32 \<Rightarrow> bytes \<Rightarrow> bytes \<Rightarrow> bytes" where
  "wpa_add_kde kde data data2 =
     WLAN_EID_VENDOR_SPECIFIC # of_nat (4 + length data + length data2) # WPA_PUT_BE32 kde @ data @ data2"

section \<open>Key data\<close>

definition no_kde :: wpa_eapol_ie_parse where
  "no_kde = \<lparr>k_wpa_ie = None, k_rsn_ie = None, k_pmkid = None, k_gtk = None, k_mac_addr = None\<rparr>"

text \<open>\<open>pos\<close> is the rest of the key data from the element on; the first result tells whether the end
  mark was found.\<close>

definition wpa_parse_generic :: "bytes \<Rightarrow> wpa_eapol_ie_parse \<Rightarrow> bool \<times> wpa_eapol_ie_parse" where
  "wpa_parse_generic pos ie =
     (let n = unat (pos ! 1); body = take n (drop 2 pos); kde = take (n - 4) (drop 6 pos) in
      if n = 0 then (True, ie)
      else if n \<ge> 6 \<and> WPA_GET_BE32 body = WPA_OUI_TYPE \<and> pos ! 6 = 1 \<and> pos ! 7 = 0
        then (False, ie\<lparr>k_wpa_ie := Some (take (n + 2) pos)\<rparr>)
      else if 5 < length pos \<and> n \<ge> 4 + PMKID_LEN \<and> WPA_GET_BE32 body = RSN_KEY_DATA_PMKID
        then (False, ie\<lparr>k_pmkid := Some (take PMKID_LEN kde)\<rparr>)
      else if n > 4 + 2 \<and> WPA_GET_BE32 body = RSN_KEY_DATA_GROUPKEY
        then (False, ie\<lparr>k_gtk := Some kde\<rparr>)
      else if n > 4 + 2 \<and> WPA_GET_BE32 body = RSN_KEY_DATA_MAC_ADDR
        then (False, ie\<lparr>k_mac_addr := Some kde\<rparr>)
      else (False, ie))"

fun parse_kde_loop :: "bytes \<Rightarrow> wpa_eapol_ie_parse \<Rightarrow> int \<times> wpa_eapol_ie_parse" where
  "parse_kde_loop (eid # elen # pos) ie =
     (if eid = 0xdd \<and> elen = 0 then (0, ie)
      else if unat elen > length pos then (-1, ie)
      else if eid = WLAN_EID_RSN then
        parse_kde_loop (drop (unat elen) pos) (ie\<lparr>k_rsn_ie := Some (eid # elen # take (unat elen) pos)\<rparr>)
      else if eid = WLAN_EID_VENDOR_SPECIFIC then
        (case wpa_parse_generic (eid # elen # pos) ie of
           (stop, ie) \<Rightarrow> if stop then (0, ie) else parse_kde_loop (drop (unat elen) pos) ie)
      else parse_kde_loop (drop (unat elen) pos) ie)"
| "parse_kde_loop pos ie = (0, ie)"

definition wpa_parse_kde_ies :: "bytes \<Rightarrow> int \<times> wpa_eapol_ie_parse" where
  "wpa_parse_kde_ies buf = parse_kde_loop buf no_kde"

section \<open>Keys\<close>

text \<open>\<^verbatim>\<open>os_memcmp\<close> on areas of the same length, as a sign.\<close>

fun memcmp :: "bytes \<Rightarrow> bytes \<Rightarrow> int" where
  "memcmp (a # as) (b # bs) = (if a < b then -1 else if b < a then 1 else memcmp as bs)"
| "memcmp _ _ = 0"

text \<open>\<open>sha1_prf\<close> is the pseudo random function.\<close>

definition wpa_pmk_to_ptk ::
  "(bytes \<Rightarrow> bytes \<Rightarrow> bytes \<Rightarrow> nat \<Rightarrow> bytes) \<Rightarrow> bytes \<Rightarrow> bytes \<Rightarrow> macaddr \<Rightarrow> macaddr \<Rightarrow> bytes \<Rightarrow> bytes \<Rightarrow> nat \<Rightarrow> bytes" where
  "wpa_pmk_to_ptk sha1_prf pmk label addr1 addr2 nonce1 nonce2 ptk_len =
     (let addrs = (if memcmp addr1 addr2 < 0 then addr1 @ addr2 else addr2 @ addr1);
          nonces = (if memcmp nonce1 nonce2 < 0 then nonce1 @ nonce2 else nonce2 @ nonce1)
      in sha1_prf pmk label (addrs @ nonces) ptk_len)"

text \<open>The MIC, or \<^term>\<open>None\<close> for an error.\<close>

definition wpa_eapol_key_mic ::
  "(bytes \<Rightarrow> bytes \<Rightarrow> bytes option) \<Rightarrow> (bytes \<Rightarrow> bytes \<Rightarrow> bytes option) \<Rightarrow> bytes \<Rightarrow> u16 \<Rightarrow> bytes \<Rightarrow> bytes option" where
  "wpa_eapol_key_mic hmac_md5 hmac_sha1 key ver buf =
     (if ver = 1 then hmac_md5 key buf
      else if ver = 2 then map_option (take 16) (hmac_sha1 key buf)
      else None)"

definition rsn_pmkid :: "(bytes \<Rightarrow> bytes \<Rightarrow> bytes) \<Rightarrow> bytes \<Rightarrow> macaddr \<Rightarrow> macaddr \<Rightarrow> bytes" where
  "rsn_pmkid hmac_sha1 pmk aa spa =
     take PMKID_LEN (hmac_sha1 pmk ([0x50, 0x4d, 0x4b, 0x20, 0x4e, 0x61, 0x6d, 0x65] @ aa @ spa))"

definition wpa_cipher_txt :: "int \<Rightarrow> string" where
  "wpa_cipher_txt cipher =
     (if cipher = WPA_CIPHER_NONE then ''NONE'' else if cipher = WPA_CIPHER_WEP40 then ''WEP-40''
      else if cipher = WPA_CIPHER_WEP104 then ''WEP-104'' else if cipher = WPA_CIPHER_TKIP then ''TKIP''
      else if cipher = WPA_CIPHER_CCMP then ''CCMP''
      else if cipher = WPA_CIPHER_CCMP OR WPA_CIPHER_TKIP then ''CCMP+TKIP'' else ''UNKNOWN'')"

definition wpa_key_mgmt_txt :: "int \<Rightarrow> int \<Rightarrow> string" where
  "wpa_key_mgmt_txt key_mgmt proto =
     (if key_mgmt = WPA_KEY_MGMT_IEEE8021X then
        if proto = WPA_PROTO_RSN OR WPA_PROTO_WPA then ''WPA2+WPA/IEEE 802.1X/EAP''
        else if proto = WPA_PROTO_RSN then ''WPA2/IEEE 802.1X/EAP'' else ''WPA/IEEE 802.1X/EAP''
      else if key_mgmt = WPA_KEY_MGMT_PSK then
        if proto = WPA_PROTO_RSN OR WPA_PROTO_WPA then ''WPA2-PSK+WPA-PSK''
        else if proto = WPA_PROTO_RSN then ''WPA2-PSK'' else ''WPA-PSK''
      else if key_mgmt = WPA_KEY_MGMT_NONE then ''NONE''
      else if key_mgmt = WPA_KEY_MGMT_IEEE8021X_NO_WPA then ''IEEE 802.1X (no WPA)''
      else ''UNKNOWN'')"

section \<open>Written elements are parsed back\<close>

lemma to_bitfield_put [simp]:
  "rsn_selector_to_bitfield (WPA_PUT_BE32 s @ x) = rsn_selector_to_bitfield (WPA_PUT_BE32 s)"
  "rsn_key_mgmt_to_bitfield (WPA_PUT_BE32 s @ x) = rsn_key_mgmt_to_bitfield (WPA_PUT_BE32 s)"
  "wpa_selector_to_bitfield (WPA_PUT_BE32 s @ x) = wpa_selector_to_bitfield (WPA_PUT_BE32 s)"
  "wpa_key_mgmt_to_bitfield (WPA_PUT_BE32 s @ x) = wpa_key_mgmt_to_bitfield (WPA_PUT_BE32 s)"
  by (simp_all add: rsn_selector_to_bitfield_def rsn_key_mgmt_to_bitfield_def
      wpa_selector_to_bitfield_def wpa_key_mgmt_to_bitfield_def)

definition prefix_conv :: "(bytes \<Rightarrow> int) \<Rightarrow> bool" where
  "prefix_conv conv \<longleftrightarrow> (\<forall>s x. conv (WPA_PUT_BE32 s @ x) = conv (WPA_PUT_BE32 s))"

lemma prefix_convs [simp]:
  "prefix_conv rsn_selector_to_bitfield" "prefix_conv rsn_key_mgmt_to_bitfield"
  "prefix_conv wpa_selector_to_bitfield" "prefix_conv wpa_key_mgmt_to_bitfield"
  by (simp_all add: prefix_conv_def)

definition suite_bits :: "(bytes \<Rightarrow> int) \<Rightarrow> u32 list \<Rightarrow> int" where
  "suite_bits conv sels = fold (\<lambda>s a. a OR conv (WPA_PUT_BE32 s)) sels 0"

lemma suites_loop_put:
  assumes "prefix_conv conv"
  shows "suites_loop conv (length sels) acc (concat (map WPA_PUT_BE32 sels) @ rest) =
    (fold (\<lambda>s a. a OR conv (WPA_PUT_BE32 s)) sels acc, rest)"
  by (induction sels arbitrary: acc) (use assms in \<open>simp_all add: prefix_conv_def\<close>)

lemma length_suites: "length (concat (map WPA_PUT_BE32 sels)) = 4 * length sels"
  by (induction sels) simp_all

lemma parse_suites_put:
  assumes "prefix_conv conv" "sels \<noteq> []" "length sels < 2 ^ 16"
  shows "parse_suites conv e1 e2 d (put_suites sels @ rest) = (0, suite_bits conv sels, rest)"
proof -
  have n: "unat (of_nat (length sels) :: u16) = length sels" using assms(3) by (simp add: unat_of_nat)
  show ?thesis
    using assms(2) by (simp add: parse_suites_def put_suites_def n length_suites suites_loop_put[OF assms(1)] suite_bits_def)
qed

lemma and_one_bit: "flags AND 2 ^ k = (if bit flags k then 2 ^ k else 0)" for flags :: int
  by (rule bit_eqI) (auto simp: bit_simps)

lemma and_bits:
  fixes flags :: int
  shows "flags AND 1 = (if bit flags 0 then 1 else 0)" "flags AND 2 = (if bit flags 1 then 2 else 0)"
    "flags AND 8 = (if bit flags 3 then 8 else 0)" "flags AND 16 = (if bit flags 4 then 16 else 0)"
  using and_one_bit[of flags 0] and_one_bit[of flags 1] and_one_bit[of flags 3] and_one_bit[of flags 4]
  by (simp_all split: if_splits)

lemma and_25: "flags AND 25 = (flags AND 16) OR (flags AND 8) OR (flags AND 1)" for flags :: int
proof -
  have "(25 :: int) = 16 OR 8 OR 1" by simp
  then show ?thesis by (simp only: bit.conj_disj_distrib)
qed

lemma and_3: "flags AND 3 = (flags AND 1) OR (flags AND 2)" for flags :: int
proof -
  have "(3 :: int) = 1 OR 2" by simp
  then show ?thesis by (simp only: bit.conj_disj_distrib)
qed

lemmas conv_defs = rsn_selector_to_bitfield_def rsn_key_mgmt_to_bitfield_def
  wpa_selector_to_bitfield_def wpa_key_mgmt_to_bitfield_def selector_defs wpa_const_defs

lemma chosen_bits:
  "suite_bits rsn_selector_to_bitfield (chosen rsn_cipher_table flags) = flags AND 25"
  "suite_bits wpa_selector_to_bitfield (chosen wpa_cipher_table flags) = flags AND 25"
  "suite_bits rsn_key_mgmt_to_bitfield (chosen rsn_akm_table flags) = flags AND 3"
  "suite_bits wpa_key_mgmt_to_bitfield (chosen wpa_akm_table flags) = flags AND 3"
  unfolding and_25 and_3 by (simp_all add: suite_bits_def chosen_def and_bits suite_tables conv_defs)

lemma chosen_length:
  "length (chosen rsn_cipher_table flags) \<le> 3" "length (chosen wpa_cipher_table flags) \<le> 3"
  "length (chosen rsn_akm_table flags) \<le> 2" "length (chosen wpa_akm_table flags) \<le> 2"
  by (simp_all add: chosen_def suite_tables)

lemma chosen_less [simp]:
  "length (chosen rsn_cipher_table flags) < 65536" "length (chosen wpa_cipher_table flags) < 65536"
  "length (chosen rsn_akm_table flags) < 65536" "length (chosen wpa_akm_table flags) < 65536"
  using chosen_length[of flags] by simp_all

lemma parse_suite_fields_put:
  assumes "prefix_conv cipher" "prefix_conv akm" "p \<noteq> []" "a \<noteq> []" "length p < 2 ^ 16" "length a < 2 ^ 16"
  shows "parse_suite_fields cipher akm tail (WPA_PUT_BE32 g @ put_suites p @ put_suites a @ rest) data =
    tail rest (data\<lparr>d_group_cipher := cipher (WPA_PUT_BE32 g), d_pairwise_cipher := suite_bits cipher p,
      d_key_mgmt := suite_bits akm a\<rparr>)"
  using assms(1)
  by (simp add: parse_suite_fields_def parse_suites_put[OF assms(1,3,5)] parse_suites_put[OF assms(2,4,6)]
      prefix_conv_def)

lemma length_put_suites: "length (put_suites sels) = 2 + 4 * length sels"
  by (simp add: put_suites_def length_suites)

lemma group_selector_inv:
  "group_selector rsn_group_table c = Some g \<Longrightarrow> rsn_selector_to_bitfield (WPA_PUT_BE32 g) = c"
  "group_selector wpa_group_table c = Some g \<Longrightarrow> wpa_selector_to_bitfield (WPA_PUT_BE32 g) = c"
  by (auto simp: group_selector_def suite_tables conv_defs split: if_splits)

lemma capab_range: "0 \<le> rsn_capab conf \<and> rsn_capab conf < 2 ^ 16"
  by (simp add: rsn_capab_def WPA_CAPABILITY_PREAUTH_def WPA_CAPABILITY_PEERKEY_ENABLED_def)

lemma uint_capab [simp]: "uint (of_int (rsn_capab conf) :: u16) = rsn_capab conf"
  using capab_range[of conf] by (simp add: uint_word_of_int_eq take_bit_int_eq_self)

text \<open>A header and a body of known length.\<close>

lemma rsn_hdr_parse:
  assumes "length body < 254"
  shows "wpa_parse_wpa_ie_rsn (WLAN_EID_RSN # of_nat (2 + length body) # WPA_PUT_LE16 RSN_VERSION @ body) =
    parse_suite_fields rsn_selector_to_bitfield rsn_key_mgmt_to_bitfield parse_rsn_tail body rsn_ie_defaults"
proof -
  have "unat (2 + of_nat (length body) :: u8) = 2 + length body"
    using unat_len_u8[of "2 + length body"] assms by simp
  then show ?thesis by (simp add: wpa_parse_wpa_ie_rsn_def)
qed

lemma wpa_hdr_parse:
  assumes "length body < 250"
  shows "wpa_parse_wpa_ie_wpa (WLAN_EID_VENDOR_SPECIFIC # of_nat (6 + length body) #
      WPA_PUT_BE32 WPA_OUI_TYPE @ WPA_PUT_LE16 WPA_VERSION @ body) =
    parse_suite_fields wpa_selector_to_bitfield wpa_key_mgmt_to_bitfield parse_wpa_tail body wpa_ie_defaults"
proof -
  have "unat (6 + of_nat (length body) :: u8) = 6 + length body"
    using unat_len_u8[of "6 + length body"] assms by simp
  then show ?thesis by (simp add: wpa_parse_wpa_ie_wpa_def)
qed

definition cipher_mask :: int where "cipher_mask = WPA_CIPHER_CCMP OR WPA_CIPHER_TKIP OR WPA_CIPHER_NONE"
definition akm_mask :: int where "akm_mask = WPA_KEY_MGMT_IEEE8021X OR WPA_KEY_MGMT_PSK"

lemma suite_masks: "cipher_mask = 25" "akm_mask = 3"
  by (simp_all add: cipher_mask_def akm_mask_def wpa_const_defs)

lemma rsn_ie_shape:
  assumes "wpa_write_rsn_ie conf len pmkid = Some ie" and "\<forall>p \<in> set_option pmkid. length p = PMKID_LEN"
  obtains g body rest where "group_selector rsn_group_table (c_wpa_group conf) = Some g"
    "chosen rsn_cipher_table (c_rsn_pairwise conf) \<noteq> []" "chosen rsn_akm_table (c_wpa_key_mgmt conf) \<noteq> []"
    "rest = WPA_PUT_LE16 (of_int (rsn_capab conf)) @ (case pmkid of None \<Rightarrow> [] | Some p \<Rightarrow> WPA_PUT_LE16 1 @ p)"
    "body = WPA_PUT_BE32 g @ put_suites (chosen rsn_cipher_table (c_rsn_pairwise conf)) @
       put_suites (chosen rsn_akm_table (c_wpa_key_mgmt conf)) @ rest"
    "ie = WLAN_EID_RSN # of_nat (2 + length body) # WPA_PUT_LE16 RSN_VERSION @ body" "length body \<le> 48"
proof -
  obtain g where g: "group_selector rsn_group_table (c_wpa_group conf) = Some g" 
      "chosen rsn_cipher_table (c_rsn_pairwise conf) \<noteq> []" "chosen rsn_akm_table (c_wpa_key_mgmt conf) \<noteq> []"
    using assms(1) by (auto simp: wpa_write_rsn_ie_def Let_def split: option.splits if_splits)
  define rest where rest: "rest = WPA_PUT_LE16 (of_int (rsn_capab conf)) @
    (case pmkid of None \<Rightarrow> [] | Some p \<Rightarrow> WPA_PUT_LE16 1 @ p)"
  define body where body: "body = WPA_PUT_BE32 g @ put_suites (chosen rsn_cipher_table (c_rsn_pairwise conf)) @
       put_suites (chosen rsn_akm_table (c_wpa_key_mgmt conf)) @ rest"
  have "length rest \<le> 20" using assms(2) by (auto simp: rest PMKID_LEN_def split: option.splits)
  then have len: "length body \<le> 48"
    using chosen_length(1)[of "c_rsn_pairwise conf"] chosen_length(3)[of "c_wpa_key_mgmt conf"]
    by (simp add: body length_put_suites)
  have "ie = WLAN_EID_RSN # of_nat (2 + length body) # WPA_PUT_LE16 RSN_VERSION @ body"
    using assms g by (auto simp: wpa_write_rsn_ie_def Let_def body rest algebra_simps split: option.splits if_splits)
  from that[OF g rest body this len] show ?thesis .
qed

lemma wpa_ie_shape:
  assumes "wpa_write_wpa_ie conf = Some ie"
  obtains g body where "group_selector wpa_group_table (c_wpa_group conf) = Some g"
    "chosen wpa_cipher_table (c_wpa_pairwise conf) \<noteq> []" "chosen wpa_akm_table (c_wpa_key_mgmt conf) \<noteq> []"
    "body = WPA_PUT_BE32 g @ put_suites (chosen wpa_cipher_table (c_wpa_pairwise conf)) @
       put_suites (chosen wpa_akm_table (c_wpa_key_mgmt conf)) @ []"
    "ie = WLAN_EID_VENDOR_SPECIFIC # of_nat (6 + length body) # WPA_PUT_BE32 WPA_OUI_TYPE @ WPA_PUT_LE16 WPA_VERSION @ body"
    "length body \<le> 28"
proof -
  obtain g where g: "group_selector wpa_group_table (c_wpa_group conf) = Some g" 
      "chosen wpa_cipher_table (c_wpa_pairwise conf) \<noteq> []" "chosen wpa_akm_table (c_wpa_key_mgmt conf) \<noteq> []"
    using assms by (auto simp: wpa_write_wpa_ie_def Let_def split: option.splits if_splits)
  define body where body: "body = WPA_PUT_BE32 g @ put_suites (chosen wpa_cipher_table (c_wpa_pairwise conf)) @
       put_suites (chosen wpa_akm_table (c_wpa_key_mgmt conf)) @ []"
  have "ie = WLAN_EID_VENDOR_SPECIFIC # of_nat (6 + length body) # WPA_PUT_BE32 WPA_OUI_TYPE @ WPA_PUT_LE16 WPA_VERSION @ body"
    using assms g by (auto simp: wpa_write_wpa_ie_def Let_def body algebra_simps)
  moreover have "length body \<le> 28"
    using chosen_length(2)[of "c_wpa_pairwise conf"] chosen_length(4)[of "c_wpa_key_mgmt conf"]
    by (simp add: body length_put_suites)
  ultimately show ?thesis by (rule that[OF g body])
qed

section \<open>Key data and key derivation\<close>

definition key_data_pad :: "bytes \<Rightarrow> bool" where
  "key_data_pad pad \<longleftrightarrow> pad = [] \<or> (\<exists>n. pad = 0xdd # replicate n 0)"

lemma parse_kde_pad: "key_data_pad pad \<Longrightarrow> parse_kde_loop pad ie = (0, ie)"
proof -
  have "parse_kde_loop (0xdd # replicate n 0) ie = (0, ie)" for n by (cases n) simp_all
  then show "key_data_pad pad \<Longrightarrow> parse_kde_loop pad ie = (0, ie)" by (auto simp: key_data_pad_def)
qed

lemma parse_kde_rsn:
  "length rsn < 256 \<Longrightarrow> parse_kde_loop (WLAN_EID_RSN # of_nat (length rsn) # rsn @ pos) ie =
     parse_kde_loop pos (ie\<lparr>k_rsn_ie := Some (WLAN_EID_RSN # of_nat (length rsn) # rsn)\<rparr>)"
  by (simp add: eid_defs)

lemma parse_kde_gtk:
  assumes "length key < 252" "2 < length key"
  shows "parse_kde_loop (WLAN_EID_VENDOR_SPECIFIC # of_nat (4 + length key) # WPA_PUT_BE32 RSN_KEY_DATA_GROUPKEY @ key @ pos) ie =
     parse_kde_loop pos (ie\<lparr>k_gtk := Some key\<rparr>)"
proof -
  have n: "unat (4 + of_nat (length key) :: u8) = 4 + length key"
    using unat_len_u8[of "4 + length key"] assms(1) by simp
  then have "(4 + of_nat (length key) :: u8) \<noteq> 0" by (metis add_is_0 unat_0 zero_neq_numeral)
  with n assms(2) show ?thesis
    by (simp add: wpa_parse_generic_def Let_def eid_defs selector_defs)
qed

lemma memcmp_sym: "length a = length b \<Longrightarrow> memcmp b a = - memcmp a b"
  by (induction a b rule: memcmp.induct) auto

lemma memcmp_eq0: "length a = length b \<Longrightarrow> memcmp a b = 0 \<Longrightarrow> a = b"
  by (induction a b rule: memcmp.induct) (auto split: if_splits)

section \<open>Claims\<close>

text \<open>A mixed WPA/WPA2 personal network with TKIP and CCMP.\<close>

definition sample_conf :: wpa_auth_config where
  "sample_conf = \<lparr>c_wpa = 3, c_wpa_key_mgmt = 2, c_wpa_pairwise = 8, c_wpa_group = 8, c_wpa_group_rekey = 600,
     c_wpa_strict_rekey = False, c_wpa_gmk_rekey = 86400, c_wpa_ptk_rekey = 0, c_rsn_pairwise = 24,
     c_rsn_preauth = False, c_eapol_version = 2, c_peerkey = False, c_wmm_enabled = True, c_wmm_uapsd = 0,
     c_okc = False\<rparr>"

text \<open>C35. An RSN element written from a configuration (for the beacon or for a message) is parsed
  without error, and the parser finds the configured group cipher, exactly the configured pairwise
  ciphers and key management suites that the writer knows, the capabilities and the PMKID.\<close>

theorem wpa_write_rsn_ie_roundtrip:
  assumes "wpa_write_rsn_ie conf len pmkid = Some ie" and "\<forall>p \<in> set_option pmkid. length p = PMKID_LEN"
  shows "\<exists>data. wpa_parse_wpa_ie_rsn ie = (0, data) \<and> d_group_cipher data = c_wpa_group conf \<and>
    d_pairwise_cipher data = c_rsn_pairwise conf AND cipher_mask \<and>
    d_key_mgmt data = c_wpa_key_mgmt conf AND akm_mask \<and>
    d_capabilities data = rsn_capab conf \<and> d_pmkid data = pmkid"
proof -
  obtain g body rest where s: "group_selector rsn_group_table (c_wpa_group conf) = Some g"
    "chosen rsn_cipher_table (c_rsn_pairwise conf) \<noteq> []" "chosen rsn_akm_table (c_wpa_key_mgmt conf) \<noteq> []"
    "rest = WPA_PUT_LE16 (of_int (rsn_capab conf)) @ (case pmkid of None \<Rightarrow> [] | Some p \<Rightarrow> WPA_PUT_LE16 1 @ p)"
    "body = WPA_PUT_BE32 g @ put_suites (chosen rsn_cipher_table (c_rsn_pairwise conf)) @
       put_suites (chosen rsn_akm_table (c_wpa_key_mgmt conf)) @ rest"
    "ie = WLAN_EID_RSN # of_nat (2 + length body) # WPA_PUT_LE16 RSN_VERSION @ body" "length body \<le> 48"
    by (rule rsn_ie_shape[OF assms])
  have "wpa_parse_wpa_ie_rsn ie = parse_suite_fields rsn_selector_to_bitfield rsn_key_mgmt_to_bitfield
      parse_rsn_tail body rsn_ie_defaults"
    unfolding s(6) by (rule rsn_hdr_parse) (use s(7) in simp)
  also have "\<dots> = parse_rsn_tail rest (rsn_ie_defaults\<lparr>d_group_cipher := c_wpa_group conf,
      d_pairwise_cipher := c_rsn_pairwise conf AND 25, d_key_mgmt := c_wpa_key_mgmt conf AND 3\<rparr>)"
    unfolding s(5) using s(2,3) by (subst parse_suite_fields_put) (simp_all add: chosen_bits group_selector_inv(1)[OF s(1)])
  finally show ?thesis
    using assms(2) unfolding s(4)
    by (auto simp: parse_rsn_tail_def suite_masks PMKID_LEN_def rsn_ie_defaults_def split: option.splits)
qed

theorem wpa_write_rsn_ie_roundtrip_witness:
  "\<exists>data. wpa_parse_wpa_ie_rsn [48, 24, 1, 0, 0, 0x0f, 0xac, 2, 2, 0, 0, 0x0f, 0xac, 4, 0, 0x0f, 0xac, 2, 1, 0, 0, 0x0f, 0xac, 2, 0x0c, 0] = (0, data) \<and>
    d_group_cipher data = c_wpa_group sample_conf \<and>
    d_pairwise_cipher data = c_rsn_pairwise sample_conf AND cipher_mask \<and>
    d_key_mgmt data = c_wpa_key_mgmt sample_conf AND akm_mask \<and>
    d_capabilities data = rsn_capab sample_conf \<and> d_pmkid data = None"
  by (rule wpa_write_rsn_ie_roundtrip[where len = 128]) (code_simp, simp)

text \<open>The same for the WPA element, which carries no capabilities.\<close>

theorem wpa_write_wpa_ie_roundtrip:
  assumes "wpa_write_wpa_ie conf = Some ie"
  shows "\<exists>data. wpa_parse_wpa_ie_wpa ie = (0, data) \<and> d_group_cipher data = c_wpa_group conf \<and>
    d_pairwise_cipher data = c_wpa_pairwise conf AND cipher_mask \<and>
    d_key_mgmt data = c_wpa_key_mgmt conf AND akm_mask \<and> d_capabilities data = 0"
proof -
  obtain g body where s: "group_selector wpa_group_table (c_wpa_group conf) = Some g"
    "chosen wpa_cipher_table (c_wpa_pairwise conf) \<noteq> []" "chosen wpa_akm_table (c_wpa_key_mgmt conf) \<noteq> []"
    "body = WPA_PUT_BE32 g @ put_suites (chosen wpa_cipher_table (c_wpa_pairwise conf)) @
       put_suites (chosen wpa_akm_table (c_wpa_key_mgmt conf)) @ []"
    "ie = WLAN_EID_VENDOR_SPECIFIC # of_nat (6 + length body) # WPA_PUT_BE32 WPA_OUI_TYPE @ WPA_PUT_LE16 WPA_VERSION @ body"
    "length body \<le> 28"
    by (rule wpa_ie_shape[OF assms])
  have "wpa_parse_wpa_ie_wpa ie = parse_suite_fields wpa_selector_to_bitfield wpa_key_mgmt_to_bitfield
      parse_wpa_tail body wpa_ie_defaults"
    unfolding s(5) by (rule wpa_hdr_parse) (use s(6) in simp)
  also have "\<dots> = parse_wpa_tail [] (wpa_ie_defaults\<lparr>d_group_cipher := c_wpa_group conf,
      d_pairwise_cipher := c_wpa_pairwise conf AND 25, d_key_mgmt := c_wpa_key_mgmt conf AND 3\<rparr>)"
    unfolding s(4) using s(2,3) by (subst parse_suite_fields_put) (simp_all add: chosen_bits group_selector_inv(2)[OF s(1)])
  finally show ?thesis by (simp add: parse_wpa_tail_def suite_masks wpa_ie_defaults_def)
qed

theorem wpa_write_wpa_ie_roundtrip_witness:
  "\<exists>data. wpa_parse_wpa_ie_wpa [221, 22, 0, 0x50, 0xf2, 1, 1, 0, 0, 0x50, 0xf2, 2, 1, 0, 0, 0x50, 0xf2, 2, 1, 0, 0, 0x50, 0xf2, 2] = (0, data) \<and>
    d_group_cipher data = c_wpa_group sample_conf \<and>
    d_pairwise_cipher data = c_wpa_pairwise sample_conf AND cipher_mask \<and>
    d_key_mgmt data = c_wpa_key_mgmt sample_conf AND akm_mask \<and> d_capabilities data = 0"
  by (rule wpa_write_wpa_ie_roundtrip) code_simp

text \<open>The 128 byte buffer of \<^verbatim>\<open>wpa_auth_gen_wpa_ie\<close>, which the writers do not check, is large
  enough for every configuration.\<close>

theorem wpa_auth_gen_wpa_ie_fits: "wpa_auth_gen_wpa_ie ok conf = Some ie \<Longrightarrow> length ie \<le> 128"
proof -
  have r: "length ie \<le> 52" if "wpa_write_rsn_ie conf n None = Some ie" for ie n
    by (rule rsn_ie_shape[OF that]) (simp_all del: of_nat_add)
  have w: "length ie \<le> 36" if "wpa_write_wpa_ie conf = Some ie" for ie
    by (rule wpa_ie_shape[OF that]) (simp_all del: of_nat_add)
  assume "wpa_auth_gen_wpa_ie ok conf = Some ie"
  then show ?thesis
    by (auto simp: wpa_auth_gen_wpa_ie_def split: option.splits if_splits dest!: r w)
qed

theorem wpa_auth_gen_wpa_ie_fits_witness:
  "length (the (wpa_auth_gen_wpa_ie True sample_conf)) \<le> 128"
proof (rule wpa_auth_gen_wpa_ie_fits)
  show "wpa_auth_gen_wpa_ie True sample_conf = Some (the (wpa_auth_gen_wpa_ie True sample_conf))" by code_simp
qed

text \<open>The key data of message 3/4 as the authenticator builds it (an RSN element and a group key
  encapsulation, padded for the key wrap) is parsed by \<^verbatim>\<open>wpa_parse_kde_ies\<close> into exactly that element
  and that key; the padding is ignored.\<close>

theorem wpa_parse_kde_ies_roundtrip:
  assumes "length rsn < 256" "gtk \<noteq> []" "length gtk \<le> 32" "key_data_pad pad"
  shows "wpa_parse_kde_ies ((WLAN_EID_RSN # of_nat (length rsn) # rsn) @ wpa_add_kde RSN_KEY_DATA_GROUPKEY [keyid, 0] gtk @ pad) =
    (0, no_kde\<lparr>k_rsn_ie := Some (WLAN_EID_RSN # of_nat (length rsn) # rsn), k_gtk := Some ([keyid, 0] @ gtk)\<rparr>)"
proof -
  have "wpa_add_kde RSN_KEY_DATA_GROUPKEY [keyid, 0] gtk @ pad =
      WLAN_EID_VENDOR_SPECIFIC # of_nat (4 + length ([keyid, 0] @ gtk)) # WPA_PUT_BE32 RSN_KEY_DATA_GROUPKEY @ ([keyid, 0] @ gtk) @ pad"
    by (simp add: wpa_add_kde_def)
  moreover have "length ([keyid, 0] @ gtk) < 252" "2 < length ([keyid, 0] @ gtk)" using assms by auto
  ultimately show ?thesis
    using parse_kde_rsn[OF assms(1)] parse_kde_gtk[of "[keyid, 0] @ gtk"] parse_kde_pad[OF assms(4)]
    by (simp add: wpa_parse_kde_ies_def del: of_nat_add length_append of_nat_Suc)
qed

theorem wpa_parse_kde_ies_roundtrip_witness:
  "wpa_parse_kde_ies ((WLAN_EID_RSN # of_nat (length [1 :: u8, 0]) # [1, 0]) @
      wpa_add_kde RSN_KEY_DATA_GROUPKEY [1, 0] [7, 8, 9, 10, 11] @ [0xdd, 0, 0]) =
    (0, no_kde\<lparr>k_rsn_ie := Some (WLAN_EID_RSN # of_nat (length [1 :: u8, 0]) # [1, 0]), k_gtk := Some ([1, 0] @ [7, 8, 9, 10, 11])\<rparr>)"
proof -
  have "key_data_pad [0xdd, 0, 0]" unfolding key_data_pad_def by (intro disjI2 exI[of _ 2]) (simp add: numeral_2_eq_2)
  then show ?thesis by (intro wpa_parse_kde_ies_roundtrip) simp_all
qed

text \<open>Both ends derive the same pairwise key: exchanging the two addresses and the two nonces does
  not change the result of \<^verbatim>\<open>wpa_pmk_to_ptk\<close>, whatever the pseudo random function.\<close>

theorem wpa_pmk_to_ptk_agree:
  assumes "length a1 = length a2" "length n1 = length n2"
  shows "wpa_pmk_to_ptk prf pmk label a1 a2 n1 n2 len = wpa_pmk_to_ptk prf pmk label a2 a1 n2 n1 len"
  using memcmp_sym[OF assms(1)] memcmp_sym[OF assms(2)] memcmp_eq0[OF assms(1)] memcmp_eq0[OF assms(2)]
  by (auto simp: wpa_pmk_to_ptk_def Let_def)

theorem wpa_pmk_to_ptk_agree_witness:
  "wpa_pmk_to_ptk (\<lambda>key label data n. take n (key @ data)) [5] [6] [1, 2] [1, 3] [9] [4] 6 =
   wpa_pmk_to_ptk (\<lambda>key label data n. take n (key @ data)) [5] [6] [1, 3] [1, 2] [4] [9] 6"
  by (rule wpa_pmk_to_ptk_agree) simp_all

text \<open>The data that \<^verbatim>\<open>wpa_pmk_to_ptk\<close> feeds to the pseudo random function determines the pair of
  addresses and the pair of nonces: keys of different peers or different handshakes come from
  different inputs.\<close>

theorem wpa_pmk_to_ptk_inputs:
  assumes "length a1 = 6" "length a2 = 6" "length b1 = 6" "length b2 = 6"
    and "length n1 = 32" "length n2 = 32" "length m1 = 32" "length m2 = 32"
    and "wpa_pmk_to_ptk (\<lambda>key label data n. data) pmk label a1 a2 n1 n2 len =
      wpa_pmk_to_ptk (\<lambda>key label data n. data) pmk label b1 b2 m1 m2 len"
  shows "{a1, a2} = {b1, b2} \<and> {n1, n2} = {m1, m2}"
  using assms by (auto simp: wpa_pmk_to_ptk_def Let_def split: if_splits)

theorem wpa_pmk_to_ptk_inputs_witness:
  "{replicate 6 (1 :: u8), replicate 6 2} = {replicate 6 2, replicate 6 1} \<and>
   {replicate 32 (3 :: u8), replicate 32 4} = {replicate 32 4, replicate 32 3}"
proof (rule wpa_pmk_to_ptk_inputs)
  show "wpa_pmk_to_ptk (\<lambda>key label data n. data) [] [] (replicate 6 1) (replicate 6 2) (replicate 32 3) (replicate 32 4) 0 =
    wpa_pmk_to_ptk (\<lambda>key label data n. data) [] [] (replicate 6 2) (replicate 6 1) (replicate 32 4) (replicate 32 3) 0"
    by code_simp
qed simp_all

end
