(* ===== verification/Wpa_Auth.thy ===== *)
theory Wpa_Auth
  imports Wpa_Ie Ieee8021x
begin

text \<open>
  The WPA authenticator, \<^verbatim>\<open>src/athr-hostap/src/ap/wpa_auth.c\<close>: the pairwise key machine with the
  four-way handshake, the machine of the group key handshake of a station, the group key machine, and
  the handlers that drive them, in the build without \<^verbatim>\<open>CONFIG_IEEE80211R\<close>, \<^verbatim>\<open>CONFIG_IEEE80211W\<close>
  and \<^verbatim>\<open>CONFIG_PEERKEY\<close>.

  State. \<open>wpa_state_machine\<close> and \<open>wpa_group\<close> are the C structs; a pointer to a group is its index
  in the order of creation, a pointer to a PMKSA entry its address in the cache. \<open>wpa_ctx\<close> is what an
  entry action of a station can reach: the station, its group, the authenticator and the trace. The
  next theory has the world with all stations and groups. The trace is a ghost with the calls of the callbacks and the
  event loop, in order.

  The code outside is an argument \<open>E\<close>: what the callbacks, the random pool and the allocator answer,
  each a function of the trace so far, and the cryptographic primitives.
\<close>

section \<open>Data\<close>

datatype wpa_ptk_st =
    WPA_PTK_INITIALIZE | WPA_PTK_DISCONNECT | WPA_PTK_DISCONNECTED | WPA_PTK_AUTHENTICATION
  | WPA_PTK_AUTHENTICATION2 | WPA_PTK_INITPMK | WPA_PTK_INITPSK | WPA_PTK_PTKSTART
  | WPA_PTK_PTKCALCNEGOTIATING | WPA_PTK_PTKCALCNEGOTIATING2 | WPA_PTK_PTKINITNEGOTIATING
  | WPA_PTK_PTKINITDONE

datatype wpa_ptk_group_st =
    WPA_PTK_GROUP_IDLE | WPA_PTK_GROUP_REKEYNEGOTIATING | WPA_PTK_GROUP_REKEYESTABLISHED
  | WPA_PTK_GROUP_KEYERROR

datatype wpa_group_st = WPA_GROUP_GTK_INIT | WPA_GROUP_SETKEYS | WPA_GROUP_SETKEYSDONE

datatype wpa_version = WPA_VERSION_NO_WPA | WPA_VERSION_WPA | WPA_VERSION_WPA2

datatype wpa_alg = WPA_ALG_NONE | WPA_ALG_WEP | WPA_ALG_TKIP | WPA_ALG_CCMP | WPA_ALG_IGTK | WPA_ALG_PMK

record replay_slot =
  rs_counter :: bytes
  rs_valid :: bool

text \<open>\<^verbatim>\<open>struct wpa_ptk\<close> is its bytes: KCK, KEK, TK1 and TK2 of 16 bytes each.\<close>

definition kck :: "bytes \<Rightarrow> bytes" where "kck ptk = take 16 ptk"
definition kek :: "bytes \<Rightarrow> bytes" where "kek ptk = take 16 (drop 16 ptk)"

record wpa_state_machine =
  sm_group :: nat
  sm_addr :: macaddr
  sm_ptk_state :: wpa_ptk_st
  sm_ptk_group_state :: wpa_ptk_group_st
  sm_Init :: bool
  sm_DeauthenticationRequest :: bool
  sm_AuthenticationRequest :: bool
  sm_ReAuthenticationRequest :: bool
  sm_Disconnect :: bool
  sm_TimeoutCtr :: int
  sm_GTimeoutCtr :: int
  sm_TimeoutEvt :: bool
  sm_EAPOLKeyReceived :: bool
  sm_EAPOLKeyPairwise :: bool
  sm_EAPOLKeyRequest :: bool
  sm_MICVerified :: bool
  sm_GUpdateStationKeys :: bool
  sm_ANonce :: bytes
  sm_SNonce :: bytes
  sm_PMK :: bytes
  sm_PTK :: bytes
  sm_PTK_valid :: bool
  sm_pairwise_set :: bool
  sm_keycount :: int
  sm_Pair :: bool
  sm_key_replay :: "replay_slot list"
  sm_PInitAKeys :: bool
  sm_PTKRequest :: bool
  sm_has_GTK :: bool
  sm_PtkGroupInit :: bool
  sm_last_rx_eapol_key :: bytes
  sm_changed :: bool
  sm_in_step_loop :: bool
  sm_pending_deinit :: bool
  sm_started :: bool
  sm_req_replay_counter :: bytes
  sm_req_replay_counter_used :: bool
  sm_wpa_ie :: "bytes option"
  sm_wpa :: wpa_version
  sm_pairwise :: int
  sm_wpa_key_mgmt :: int
  sm_pmksa :: "eaddr option"
  sm_LocalMICFailures :: u32
  sm_RemoteMICFailures :: u32

record wpa_group =
  g_vlan_id :: int
  g_GInit :: bool
  g_GKeyDoneStations :: int
  g_GTKReKey :: bool
  g_GTK_len :: nat
  g_GN :: nat
  g_GM :: nat
  g_GTKAuthenticator :: bool
  g_Counter :: bytes
  g_state :: wpa_group_st
  g_GMK :: bytes
  g_GTK :: "bytes list"
  g_GNonce :: bytes
  g_changed :: bool
  g_first_sta_seen :: bool
  g_reject_4way_hs_for_entropy :: bool

record wpa_authenticator =
  a_conf :: wpa_auth_config
  a_addr :: macaddr
  a_wpa_ie :: bytes
  a_pmksa :: rsn_pmksa_cache
  a_RemoteMICFailures :: u32
  a_AuthenticationSuiteSelected :: u32
  a_PairwiseCipherSelected :: u32
  a_GroupCipherSelected :: u32
  a_PMKIDUsed :: bytes
  a_CounterMeasuresInvoked :: u32
  a_4WayHandshakeFailures :: u32

datatype wpa_timeout =
    T_send_eapol macaddr | T_call_step macaddr | T_rekey_ptk macaddr | T_rekey_gtk | T_rekey_gmk
  | T_countermeasures_stop

datatype wpa_act =
    A_set_eapol macaddr wpa_eapol_variable bool
  | A_disconnect macaddr
  | A_mic_failure macaddr
  | A_countermeasures bool
  | A_drv_deauth macaddr
  | A_set_unauthorized macaddr
  | A_drv_remove macaddr
  | A_set_key int wpa_alg macaddr nat bytes
  | A_send_eapol macaddr bytes bool
  | A_register wpa_timeout int
  | A_cancel wpa_timeout
  | A_malloc
  | A_random nat
  | A_add_randomness bytes
  | A_mark_pool_ready

record wpa_env =
  E_get_eapol :: "wpa_act list \<Rightarrow> macaddr \<Rightarrow> wpa_eapol_variable \<Rightarrow> int"
  E_psks :: "macaddr \<Rightarrow> bytes list"
  E_get_msk :: "wpa_act list \<Rightarrow> macaddr \<Rightarrow> bytes option"
  E_set_key :: "wpa_act list \<Rightarrow> int"
  E_get_seqnum :: "wpa_act list \<Rightarrow> nat \<Rightarrow> bytes option"
  E_malloc :: "wpa_act list \<Rightarrow> bool"
  E_random :: "wpa_act list \<Rightarrow> nat \<Rightarrow> bool \<times> bytes"
  E_pool_ready :: "wpa_act list \<Rightarrow> bool"
  E_now :: "u32 \<times> u32"
  E_time :: int
  E_ptr :: bytes
  E_stack :: bytes
  E_sha1_prf :: "bytes \<Rightarrow> bytes \<Rightarrow> bytes \<Rightarrow> nat \<Rightarrow> bytes option"
  E_hmac_md5 :: "bytes \<Rightarrow> bytes \<Rightarrow> bytes option"
  E_hmac_sha1 :: "bytes \<Rightarrow> bytes \<Rightarrow> bytes option"
  E_aes_wrap :: "bytes \<Rightarrow> bytes \<Rightarrow> bytes option"
  E_rc4_skip :: "bytes \<Rightarrow> nat \<Rightarrow> bytes \<Rightarrow> bytes"

record wpa_ctx =
  cx_sm :: wpa_state_machine
  cx_gr :: wpa_group
  cx_au :: wpa_authenticator
  cx_tr :: "wpa_act list"

definition dot11RSNAConfigGroupUpdateCount :: int where "dot11RSNAConfigGroupUpdateCount = 4"
definition dot11RSNAConfigPairwiseUpdateCount :: int where "dot11RSNAConfigPairwiseUpdateCount = 4"
definition eapol_key_timeout_first :: int where "eapol_key_timeout_first = 100"
definition eapol_key_timeout_subseq :: int where "eapol_key_timeout_subseq = 1000"
definition RSNA_MAX_EAPOL_RETRIES :: nat where "RSNA_MAX_EAPOL_RETRIES = 4"

definition WPA_KEY_INFO_TYPE_MASK :: u16 where "WPA_KEY_INFO_TYPE_MASK = 7"
definition WPA_KEY_INFO_TYPE_HMAC_MD5_RC4 :: u16 where "WPA_KEY_INFO_TYPE_HMAC_MD5_RC4 = 1"
definition WPA_KEY_INFO_TYPE_HMAC_SHA1_AES :: u16 where "WPA_KEY_INFO_TYPE_HMAC_SHA1_AES = 2"
definition WPA_KEY_INFO_KEY_TYPE :: u16 where "WPA_KEY_INFO_KEY_TYPE = 0x8"
definition WPA_KEY_INFO_INSTALL :: u16 where "WPA_KEY_INFO_INSTALL = 0x40"
definition WPA_KEY_INFO_ACK :: u16 where "WPA_KEY_INFO_ACK = 0x80"
definition WPA_KEY_INFO_MIC :: u16 where "WPA_KEY_INFO_MIC = 0x100"
definition WPA_KEY_INFO_SECURE :: u16 where "WPA_KEY_INFO_SECURE = 0x200"
definition WPA_KEY_INFO_ERROR :: u16 where "WPA_KEY_INFO_ERROR = 0x400"
definition WPA_KEY_INFO_REQUEST :: u16 where "WPA_KEY_INFO_REQUEST = 0x800"
definition WPA_KEY_INFO_ENCR_KEY_DATA :: u16 where "WPA_KEY_INFO_ENCR_KEY_DATA = 0x1000"
definition WPA_KEY_INFO_SMK_MESSAGE :: u16 where "WPA_KEY_INFO_SMK_MESSAGE = 0x2000"

definition info_has :: "u16 \<Rightarrow> u16 \<Rightarrow> bool" where "info_has info f \<longleftrightarrow> info AND f \<noteq> 0"

definition upd_s :: "(wpa_state_machine \<Rightarrow> wpa_state_machine) \<Rightarrow> wpa_ctx \<Rightarrow> wpa_ctx" where
  "upd_s f c = c\<lparr>cx_sm := f (cx_sm c)\<rparr>"

definition upd_g :: "(wpa_group \<Rightarrow> wpa_group) \<Rightarrow> wpa_ctx \<Rightarrow> wpa_ctx" where
  "upd_g f c = c\<lparr>cx_gr := f (cx_gr c)\<rparr>"

definition act :: "wpa_act \<Rightarrow> wpa_ctx \<Rightarrow> wpa_ctx" where
  "act a c = c\<lparr>cx_tr := cx_tr c @ [a]\<rparr>"

text \<open>The callbacks, with the address of the station.\<close>

definition wpa_auth_set_eapol :: "wpa_eapol_variable \<Rightarrow> bool \<Rightarrow> wpa_ctx \<Rightarrow> wpa_ctx" where
  "wpa_auth_set_eapol var val c = act (A_set_eapol (sm_addr (cx_sm c)) var val) c"

definition wpa_sta_disconnect :: "wpa_ctx \<Rightarrow> wpa_ctx" where
  "wpa_sta_disconnect c = act (A_disconnect (sm_addr (cx_sm c))) c"

definition wpa_auth_get_eapol :: "wpa_env \<Rightarrow> wpa_eapol_variable \<Rightarrow> wpa_ctx \<Rightarrow> int" where
  "wpa_auth_get_eapol E var c = E_get_eapol E (cx_tr c) (sm_addr (cx_sm c)) var"

definition wpa_auth_set_key :: "wpa_env \<Rightarrow> int \<Rightarrow> wpa_alg \<Rightarrow> macaddr \<Rightarrow> nat \<Rightarrow> bytes \<Rightarrow> wpa_act list \<Rightarrow> int \<times> wpa_act list" where
  "wpa_auth_set_key E vlan alg da idx key tr =
     (let tr = tr @ [A_set_key vlan alg da idx key] in (E_set_key E tr, tr))"

text \<open>An allocation; the request is recorded, so that each may have an answer of its own.\<close>

definition os_malloc :: "wpa_env \<Rightarrow> wpa_ctx \<Rightarrow> bool \<times> wpa_ctx" where
  "os_malloc E c = (let c = act A_malloc c in (E_malloc E (cx_tr c), c))"

definition random_get_bytes :: "wpa_env \<Rightarrow> nat \<Rightarrow> wpa_act list \<Rightarrow> bool \<times> bytes \<times> wpa_act list" where
  "random_get_bytes E n tr =
     (let tr = tr @ [A_random n] in case E_random E tr n of (ok, bs) \<Rightarrow> (ok, bs, tr))"

definition ascii :: "string \<Rightarrow> bytes" where "ascii s = map of_char s"

section \<open>EAPOL-Key frames\<close>

text \<open>The fields of a received frame, \<^verbatim>\<open>struct ieee802_1x_hdr\<close> and \<^verbatim>\<open>struct wpa_eapol_key\<close>.\<close>

definition EAPOL_KEY_LEN :: nat where "EAPOL_KEY_LEN = 99"
definition key_type :: "bytes \<Rightarrow> u8" where "key_type data = data ! 4"
definition key_info_of :: "bytes \<Rightarrow> u16" where "key_info_of data = WPA_GET_BE16 (drop 5 data)"
definition key_replay_counter :: "bytes \<Rightarrow> bytes" where "key_replay_counter data = take 8 (drop 9 data)"
definition key_nonce :: "bytes \<Rightarrow> bytes" where "key_nonce data = take 32 (drop 17 data)"
definition key_mic :: "bytes \<Rightarrow> bytes" where "key_mic data = take 16 (drop 81 data)"
definition key_data_length :: "bytes \<Rightarrow> nat" where "key_data_length data = unat (WPA_GET_BE16 (drop 97 data))"
definition key_data :: "bytes \<Rightarrow> bytes" where "key_data data = take (key_data_length data) (drop 99 data)"

text \<open>\<^verbatim>\<open>wpa_verify_key_mic\<close>: whether the MIC is right (the C function returns 0).\<close>

definition wpa_verify_key_mic :: "wpa_env \<Rightarrow> bytes \<Rightarrow> bytes \<Rightarrow> bool" where
  "wpa_verify_key_mic E ptk data \<longleftrightarrow> \<not> length data < EAPOL_KEY_LEN \<and>
     (case wpa_eapol_key_mic (E_hmac_md5 E) (E_hmac_sha1 E) (kck ptk) (key_info_of data AND WPA_KEY_INFO_TYPE_MASK)
         (memput data 81 (replicate 16 0)) of
        None \<Rightarrow> False
      | Some mic \<Rightarrow> key_mic data = mic)"

fun replay_counter_loop :: "bytes \<Rightarrow> replay_slot list \<Rightarrow> bool" where
  "replay_counter_loop counter [] = False"
| "replay_counter_loop counter (slot # slots) =
     (if \<not> rs_valid slot then False
      else if counter = rs_counter slot then True
      else replay_counter_loop counter slots)"

definition wpa_replay_counter_valid :: "wpa_state_machine \<Rightarrow> bytes \<Rightarrow> bool" where
  "wpa_replay_counter_valid sm counter = replay_counter_loop counter (sm_key_replay sm)"

text \<open>The pending counters after a frame is sent: shifted by one, with the next counter in front.\<close>

definition next_key_replay :: "replay_slot list \<Rightarrow> replay_slot list" where
  "next_key_replay slots =
     \<lparr>rs_counter = inc_byte_array (rs_counter (hd slots)), rs_valid = True\<rparr> # butlast slots"

definition key_length_of :: "int \<Rightarrow> u16" where
  "key_length_of alg =
     (if alg = WPA_CIPHER_CCMP then 16 else if alg = WPA_CIPHER_TKIP then 32
      else if alg = WPA_CIPHER_WEP40 then 5 else if alg = WPA_CIPHER_WEP104 then 13 else 0)"

text \<open>A frame without its MIC.\<close>

definition eapol_key_frame ::
  "u8 \<Rightarrow> u8 \<Rightarrow> u16 \<Rightarrow> u16 \<Rightarrow> bytes \<Rightarrow> bytes \<Rightarrow> bytes \<Rightarrow> bytes \<Rightarrow> bytes \<Rightarrow> bytes" where
  "eapol_key_frame version type info key_len counter nonce iv rsc data =
     [version, 3] @ WPA_PUT_BE16 (of_nat (95 + length data)) @
     [type] @ WPA_PUT_BE16 info @ WPA_PUT_BE16 key_len @ counter @ nonce @ iv @ rsc @ replicate 8 0 @
     replicate 16 0 @ WPA_PUT_BE16 (of_nat (length data)) @ data"

text \<open>The key data of the frame and its IV, or \<^term>\<open>None\<close> if the allocation or the key wrap fails;
  the RC4 variant takes its IV from the group counter and advances it.\<close>

definition protect_key_data :: "wpa_env \<Rightarrow> u16 \<Rightarrow> bytes \<Rightarrow> wpa_ctx \<Rightarrow> (bytes \<times> bytes) option \<times> wpa_ctx" where
  "protect_key_data E version kde c =
     (case os_malloc E c of (ok, c) \<Rightarrow>
      if \<not> ok then (None, c)
      else if version = WPA_KEY_INFO_TYPE_HMAC_SHA1_AES then
        let rem = length kde mod 8;
            pad_len = (if rem = 0 then 0 else 8 - rem);
            buf = kde @ (if pad_len = 0 then [] else 0xdd # replicate (pad_len - 1) 0)
        in case E_aes_wrap E (kek (sm_PTK (cx_sm c))) buf of
             None \<Rightarrow> (None, c)
           | Some data \<Rightarrow> (Some (data, replicate 16 0), c)
      else
        let iv = drop 16 (g_Counter (cx_gr c))
        in (Some (E_rc4_skip E (iv @ kek (sm_PTK (cx_sm c))) 256 kde, iv),
            upd_g (\<lambda>g. g\<lparr>g_Counter := inc_byte_array (g_Counter g)\<rparr>) c))"

definition wpa_send_frame ::
  "wpa_env \<Rightarrow> u16 \<Rightarrow> bytes option \<Rightarrow> bytes option \<Rightarrow> bytes \<Rightarrow> nat \<Rightarrow> bool \<Rightarrow> wpa_ctx \<Rightarrow> wpa_ctx" where
  "wpa_send_frame E key_info key_rsc nonce kde keyidx encr c =
     (let sm = cx_sm c;
          version = (if sm_pairwise sm = WPA_CIPHER_CCMP then WPA_KEY_INFO_TYPE_HMAC_SHA1_AES
                     else WPA_KEY_INFO_TYPE_HMAC_MD5_RC4)
      in case os_malloc E c of (ok, c) \<Rightarrow>
         if \<not> ok then c
         else
           let type = (if sm_wpa sm = WPA_VERSION_WPA2 then 2 else 254);
               info = key_info OR version;
               info = (if encr \<and> sm_wpa sm = WPA_VERSION_WPA2 then info OR WPA_KEY_INFO_ENCR_KEY_DATA else info);
               info = (if sm_wpa sm \<noteq> WPA_VERSION_WPA2 then info OR push_bit 4 (of_nat keyidx) else info);
               alg = (if info_has key_info WPA_KEY_INFO_KEY_TYPE then sm_pairwise sm else c_wpa_group (a_conf (cx_au c)));
               c = upd_s (\<lambda>s. s\<lparr>sm_key_replay := next_key_replay (sm_key_replay s)\<rparr>) c
           in case (if encr then protect_key_data E version kde c else (Some (kde, replicate 16 0), c)) of
                (None, c) \<Rightarrow> c
              | (Some (data, iv), c) \<Rightarrow>
                  if info_has info WPA_KEY_INFO_MIC \<and> \<not> sm_PTK_valid (cx_sm c) then c
                  else
                    let frame = eapol_key_frame (c_eapol_version (a_conf (cx_au c))) type info (key_length_of alg)
                          (rs_counter (hd (sm_key_replay (cx_sm c)))) (case nonce of None \<Rightarrow> replicate 32 0 | Some n \<Rightarrow> n) iv
                          (case key_rsc of None \<Rightarrow> replicate 8 0 | Some r \<Rightarrow> r) data;
                        frame = (if info_has info WPA_KEY_INFO_MIC then
                            case wpa_eapol_key_mic (E_hmac_md5 E) (E_hmac_sha1 E) (kck (sm_PTK (cx_sm c))) version frame of
                              None \<Rightarrow> frame | Some mic \<Rightarrow> memput frame 81 mic
                          else frame)
                    in act (A_send_eapol (sm_addr (cx_sm c)) frame (sm_pairwise_set (cx_sm c)))
                         (wpa_auth_set_eapol WPA_EAPOL_inc_EapolFramesTx True c))"

definition wpa_send_eapol ::
  "wpa_env \<Rightarrow> u16 \<Rightarrow> bytes option \<Rightarrow> bytes option \<Rightarrow> bytes \<Rightarrow> nat \<Rightarrow> bool \<Rightarrow> wpa_ctx \<Rightarrow> wpa_ctx" where
  "wpa_send_eapol E key_info key_rsc nonce kde keyidx encr c =
     (let c = wpa_send_frame E key_info key_rsc nonce kde keyidx encr c;
          ctr = (if info_has key_info WPA_KEY_INFO_KEY_TYPE then sm_TimeoutCtr (cx_sm c) else sm_GTimeoutCtr (cx_sm c));
          timeout_ms = (if ctr = 1 then eapol_key_timeout_first else eapol_key_timeout_subseq)
      in act (A_register (T_send_eapol (sm_addr (cx_sm c))) timeout_ms) c)"

section \<open>Group keys\<close>

definition wpa_group_set_key_len :: "int \<Rightarrow> wpa_group \<Rightarrow> wpa_group" where
  "wpa_group_set_key_len cipher g =
     (if cipher = WPA_CIPHER_CCMP then g\<lparr>g_GTK_len := 16\<rparr>
      else if cipher = WPA_CIPHER_TKIP then g\<lparr>g_GTK_len := 32\<rparr>
      else if cipher = WPA_CIPHER_WEP104 then g\<lparr>g_GTK_len := 13\<rparr>
      else if cipher = WPA_CIPHER_WEP40 then g\<lparr>g_GTK_len := 5\<rparr>
      else g)"

definition wpa_group_init_gmk_and_counter ::
  "wpa_env \<Rightarrow> wpa_authenticator \<Rightarrow> wpa_group \<Rightarrow> wpa_act list \<Rightarrow> int \<times> wpa_group \<times> wpa_act list" where
  "wpa_group_init_gmk_and_counter E au g tr =
     (case random_get_bytes E 32 tr of (ok, gmk, tr) \<Rightarrow>
        let g = g\<lparr>g_GMK := gmk\<rparr> in
        if \<not> ok then (-1, g, tr)
        else
          let buf = a_addr au @ wpa_get_ntp_timestamp (fst (E_now E)) (snd (E_now E)) @ E_ptr E
          in case random_get_bytes E 32 tr of (ok, rkey, tr) \<Rightarrow>
               if \<not> ok then (-1, g, tr)
               else case E_sha1_prf E rkey (ascii ''Init Counter'') buf 32 of
                 None \<Rightarrow> (-1, g, tr)
               | Some ctr \<Rightarrow> (0, g\<lparr>g_Counter := ctr\<rparr>, tr))"

text \<open>The return value, the key (\<^term>\<open>None\<close> if the derivation fails) and the trace.\<close>

definition wpa_gmk_to_gtk ::
  "wpa_env \<Rightarrow> bytes \<Rightarrow> bytes \<Rightarrow> macaddr \<Rightarrow> bytes \<Rightarrow> nat \<Rightarrow> wpa_act list \<Rightarrow> int \<times> bytes option \<times> wpa_act list" where
  "wpa_gmk_to_gtk E gmk label da gnonce gtk_len tr =
     (case random_get_bytes E 16 tr of (ok, rnd, tr) \<Rightarrow>
        let data = da @ gnonce @ wpa_get_ntp_timestamp (fst (E_now E)) (snd (E_now E)) @ rnd
        in case E_sha1_prf E gmk label data gtk_len of
             None \<Rightarrow> (-1, None, tr)
           | Some gtk \<Rightarrow> (if ok then 0 else -1, Some gtk, tr))"

definition wpa_gtk_update ::
  "wpa_env \<Rightarrow> wpa_authenticator \<Rightarrow> wpa_group \<Rightarrow> wpa_act list \<Rightarrow> int \<times> wpa_group \<times> wpa_act list" where
  "wpa_gtk_update E au g tr =
     (let g = g\<lparr>g_GNonce := g_Counter g\<rparr>;
          g = g\<lparr>g_Counter := inc_byte_array (g_Counter g)\<rparr>
      in case wpa_gmk_to_gtk E (g_GMK g) (ascii ''Group key expansion'') (a_addr au) (g_GNonce g) (g_GTK_len g) tr of
           (ret, gtk, tr) \<Rightarrow>
             (ret, (case gtk of None \<Rightarrow> g
                | Some k \<Rightarrow> g\<lparr>g_GTK := (g_GTK g)[g_GN g - 1 := memput (g_GTK g ! (g_GN g - 1)) 0 k]\<rparr>), tr))"

definition wpa_alg_enum :: "int \<Rightarrow> wpa_alg" where
  "wpa_alg_enum alg =
     (if alg = WPA_CIPHER_CCMP then WPA_ALG_CCMP else if alg = WPA_CIPHER_TKIP then WPA_ALG_TKIP
      else if alg = WPA_CIPHER_WEP104 \<or> alg = WPA_CIPHER_WEP40 then WPA_ALG_WEP else WPA_ALG_NONE)"

definition current_gtk :: "wpa_group \<Rightarrow> bytes" where
  "current_gtk g = take (g_GTK_len g) (g_GTK g ! (g_GN g - 1))"

definition wpa_group_config_group_keys ::
  "wpa_env \<Rightarrow> wpa_authenticator \<Rightarrow> wpa_group \<Rightarrow> wpa_act list \<Rightarrow> int \<times> wpa_act list" where
  "wpa_group_config_group_keys E au g tr =
     (case wpa_auth_set_key E (g_vlan_id g) (wpa_alg_enum (c_wpa_group (a_conf au))) (replicate 6 0xff) (g_GN g)
         (current_gtk g) tr of
        (r, tr) \<Rightarrow> (if r < 0 then -1 else 0, tr))"

definition wpa_group_first_station :: "wpa_env \<Rightarrow> wpa_ctx \<Rightarrow> wpa_ctx" where
  "wpa_group_first_station E c =
     (let g = (if E_pool_ready E (cx_tr c) then cx_gr c else (cx_gr c)\<lparr>g_reject_4way_hs_for_entropy := True\<rparr>)
      in case wpa_group_init_gmk_and_counter E (cx_au c) g (cx_tr c) of (_, g, tr) \<Rightarrow>
         case wpa_gtk_update E (cx_au c) g tr of (_, g, tr) \<Rightarrow>
         case wpa_group_config_group_keys E (cx_au c) g tr of (_, tr) \<Rightarrow> c\<lparr>cx_gr := g, cx_tr := tr\<rparr>)"

section \<open>The pairwise key machine\<close>

text \<open>\<^verbatim>\<open>SM_ENTRY_MA\<close>: all states are entered with \<^verbatim>\<open>SM_ENTER\<close>, so \<^verbatim>\<open>changed\<close> is always set.\<close>

definition ptk_entry :: "wpa_ptk_st \<Rightarrow> wpa_ctx \<Rightarrow> wpa_ctx" where
  "ptk_entry st c = upd_s (\<lambda>s. s\<lparr>sm_changed := True, sm_ptk_state := st\<rparr>) c"

definition zero_ptk :: bytes where "zero_ptk = replicate 64 0"

definition wpa_remove_ptk :: "wpa_env \<Rightarrow> wpa_ctx \<Rightarrow> wpa_ctx" where
  "wpa_remove_ptk E c =
     (let c = upd_s (\<lambda>s. s\<lparr>sm_PTK_valid := False, sm_PTK := zero_ptk\<rparr>) c;
          c = c\<lparr>cx_tr := snd (wpa_auth_set_key E 0 WPA_ALG_NONE (sm_addr (cx_sm c)) 0 [] (cx_tr c))\<rparr>;
          c = upd_s (\<lambda>s. s\<lparr>sm_pairwise_set := False\<rparr>) c
      in act (A_cancel (T_rekey_ptk (sm_addr (cx_sm c)))) c)"

text \<open>\<^verbatim>\<open>if (sm->GUpdateStationKeys) sm->group->GKeyDoneStations--; sm->GUpdateStationKeys = FALSE\<close>.\<close>

definition group_update_done :: "wpa_ctx \<Rightarrow> wpa_ctx" where
  "group_update_done c =
     upd_s (\<lambda>s. s\<lparr>sm_GUpdateStationKeys := False\<rparr>)
       (if sm_GUpdateStationKeys (cx_sm c)
        then upd_g (\<lambda>g. g\<lparr>g_GKeyDoneStations := g_GKeyDoneStations g - 1\<rparr>) c else c)"

definition sm_WPA_PTK_INITIALIZE :: "wpa_env \<Rightarrow> wpa_ctx \<Rightarrow> wpa_ctx" where
  "sm_WPA_PTK_INITIALIZE E c =
     (let c = ptk_entry WPA_PTK_INITIALIZE c;
          c = (if sm_Init (cx_sm c) then upd_s (\<lambda>s. s\<lparr>sm_changed := False\<rparr>) c else c);
          c = upd_s (\<lambda>s. s\<lparr>sm_keycount := 0\<rparr>) c;
          c = group_update_done c;
          c = (if sm_wpa (cx_sm c) = WPA_VERSION_WPA then upd_s (\<lambda>s. s\<lparr>sm_PInitAKeys := False\<rparr>) c else c);
          c = upd_s (\<lambda>s. s\<lparr>sm_Pair := True\<rparr>) c;
          c = wpa_auth_set_eapol WPA_EAPOL_portEnabled False c;
          c = wpa_remove_ptk E c;
          c = wpa_auth_set_eapol WPA_EAPOL_portValid False c;
          c = upd_s (\<lambda>s. s\<lparr>sm_TimeoutCtr := 0\<rparr>) c
      in if wpa_key_mgmt_wpa_psk (sm_wpa_key_mgmt (cx_sm c)) then wpa_auth_set_eapol WPA_EAPOL_authorized False c else c)"

definition sm_WPA_PTK_DISCONNECT :: "wpa_ctx \<Rightarrow> wpa_ctx" where
  "sm_WPA_PTK_DISCONNECT c =
     wpa_sta_disconnect (upd_s (\<lambda>s. s\<lparr>sm_Disconnect := False\<rparr>) (ptk_entry WPA_PTK_DISCONNECT c))"

definition sm_WPA_PTK_DISCONNECTED :: "wpa_ctx \<Rightarrow> wpa_ctx" where
  "sm_WPA_PTK_DISCONNECTED c =
     upd_s (\<lambda>s. s\<lparr>sm_DeauthenticationRequest := False\<rparr>) (ptk_entry WPA_PTK_DISCONNECTED c)"

definition sm_WPA_PTK_AUTHENTICATION :: "wpa_ctx \<Rightarrow> wpa_ctx" where
  "sm_WPA_PTK_AUTHENTICATION c =
     (let c = ptk_entry WPA_PTK_AUTHENTICATION c;
          c = upd_s (\<lambda>s. s\<lparr>sm_PTK := zero_ptk, sm_PTK_valid := False\<rparr>) c;
          c = wpa_auth_set_eapol WPA_EAPOL_portControl_Auto True c;
          c = wpa_auth_set_eapol WPA_EAPOL_portEnabled True c
      in upd_s (\<lambda>s. s\<lparr>sm_AuthenticationRequest := False\<rparr>) c)"

definition sm_WPA_PTK_AUTHENTICATION2 :: "wpa_env \<Rightarrow> wpa_ctx \<Rightarrow> wpa_ctx" where
  "sm_WPA_PTK_AUTHENTICATION2 E c =
     (let c = ptk_entry WPA_PTK_AUTHENTICATION2 c;
          c = (if \<not> g_first_sta_seen (cx_gr c)
               then upd_g (\<lambda>g. g\<lparr>g_first_sta_seen := True\<rparr>) (wpa_group_first_station E c) else c);
          c = upd_s (\<lambda>s. s\<lparr>sm_ANonce := g_Counter (cx_gr c)\<rparr>) c;
          c = upd_g (\<lambda>g. g\<lparr>g_Counter := inc_byte_array (g_Counter g)\<rparr>) c
      in upd_s (\<lambda>s. s\<lparr>sm_ReAuthenticationRequest := False, sm_TimeoutCtr := 0\<rparr>) c)"

definition sm_WPA_PTK_INITPMK :: "wpa_env \<Rightarrow> wpa_ctx \<Rightarrow> wpa_ctx" where
  "sm_WPA_PTK_INITPMK E c =
     (let c = ptk_entry WPA_PTK_INITPMK c;
          c = (case sm_pmksa (cx_sm c) of
                 Some e \<Rightarrow> upd_s (\<lambda>s. s\<lparr>sm_PMK := e_pmk (deref (a_pmksa (cx_au c)) e)\<rparr>) c
               | None \<Rightarrow> (case E_get_msk E (cx_tr c) (sm_addr (cx_sm c)) of
                   Some msk \<Rightarrow> upd_s (\<lambda>s. s\<lparr>sm_PMK := take 32 msk\<rparr>) c
                 | None \<Rightarrow> c));
          c = upd_s (\<lambda>s. s\<lparr>sm_req_replay_counter_used := False\<rparr>) c
      in wpa_auth_set_eapol WPA_EAPOL_keyRun False c)"

definition sm_WPA_PTK_INITPSK :: "wpa_env \<Rightarrow> wpa_ctx \<Rightarrow> wpa_ctx" where
  "sm_WPA_PTK_INITPSK E c =
     (let c = ptk_entry WPA_PTK_INITPSK c;
          c = (case E_psks E (sm_addr (cx_sm c)) of [] \<Rightarrow> c | psk # _ \<Rightarrow> upd_s (\<lambda>s. s\<lparr>sm_PMK := psk\<rparr>) c)
      in upd_s (\<lambda>s. s\<lparr>sm_req_replay_counter_used := False\<rparr>) c)"

text \<open>The PMKID encapsulation of message 1/4.\<close>

definition pmkid_kde :: "wpa_env \<Rightarrow> wpa_ctx \<Rightarrow> bytes" where
  "pmkid_kde E c =
     (let sm = cx_sm c in
      if sm_wpa sm = WPA_VERSION_WPA2 \<and> wpa_key_mgmt_wpa_ieee8021x (sm_wpa_key_mgmt sm) then
        [WLAN_EID_VENDOR_SPECIFIC, 20] @ WPA_PUT_BE32 RSN_KEY_DATA_PMKID @
        (case sm_pmksa sm of
           Some e \<Rightarrow> e_pmkid (deref (a_pmksa (cx_au c)) e)
         | None \<Rightarrow> rsn_pmkid (\<lambda>key d. case E_hmac_sha1 E key d of Some h \<Rightarrow> h | None \<Rightarrow> E_stack E)
             (sm_PMK sm) (a_addr (cx_au c)) (sm_addr sm))
      else [])"

definition sm_WPA_PTK_PTKSTART :: "wpa_env \<Rightarrow> wpa_ctx \<Rightarrow> wpa_ctx" where
  "sm_WPA_PTK_PTKSTART E c =
     (let c = ptk_entry WPA_PTK_PTKSTART c;
          c = upd_s (\<lambda>s. s\<lparr>sm_PTKRequest := False, sm_TimeoutEvt := False, sm_TimeoutCtr := sm_TimeoutCtr s + 1\<rparr>) c
      in if sm_TimeoutCtr (cx_sm c) > dot11RSNAConfigPairwiseUpdateCount then c
         else wpa_send_eapol E (WPA_KEY_INFO_ACK OR WPA_KEY_INFO_KEY_TYPE) None (Some (sm_ANonce (cx_sm c)))
                (pmkid_kde E c) 0 False c)"

definition wpa_derive_ptk :: "wpa_env \<Rightarrow> wpa_ctx \<Rightarrow> bytes \<Rightarrow> bytes" where
  "wpa_derive_ptk E c pmk =
     (let sm = cx_sm c; ptk_len = (if sm_pairwise sm = WPA_CIPHER_CCMP then 48 else 64)
      in memput (E_stack E) 0
           (wpa_pmk_to_ptk (\<lambda>key label d n. case E_sha1_prf E key label d n of Some k \<Rightarrow> k | None \<Rightarrow> [])
              pmk (ascii ''Pairwise key expansion'') (a_addr (cx_au c)) (sm_addr sm) (sm_ANonce sm) (sm_SNonce sm) ptk_len))"

text \<open>The loop over the possible master keys: the first that explains the MIC.\<close>

fun find_pmk :: "wpa_env \<Rightarrow> wpa_ctx \<Rightarrow> bytes list \<Rightarrow> bytes option" where
  "find_pmk E c [] = None"
| "find_pmk E c (pmk # rest) =
     (if wpa_verify_key_mic E (wpa_derive_ptk E c pmk) (sm_last_rx_eapol_key (cx_sm c)) then Some pmk
      else find_pmk E c rest)"

definition sm_WPA_PTK_PTKCALCNEGOTIATING :: "wpa_env \<Rightarrow> wpa_ctx \<Rightarrow> wpa_ctx" where
  "sm_WPA_PTK_PTKCALCNEGOTIATING E c =
     (let c = ptk_entry WPA_PTK_PTKCALCNEGOTIATING c;
          c = upd_s (\<lambda>s. s\<lparr>sm_EAPOLKeyReceived := False\<rparr>) c;
          psk = wpa_key_mgmt_wpa_psk (sm_wpa_key_mgmt (cx_sm c))
      in case find_pmk E c (if psk then E_psks E (sm_addr (cx_sm c)) else [sm_PMK (cx_sm c)]) of
           None \<Rightarrow> c
         | Some pmk \<Rightarrow>
             let PTK = wpa_derive_ptk E c pmk;
                 c = act (A_cancel (T_send_eapol (sm_addr (cx_sm c)))) c;
                 c = (if psk then upd_s (\<lambda>s. s\<lparr>sm_PMK := pmk\<rparr>) c else c)
             in upd_s (\<lambda>s. s\<lparr>sm_MICVerified := True, sm_PTK := PTK, sm_PTK_valid := True\<rparr>) c)"

definition sm_WPA_PTK_PTKCALCNEGOTIATING2 :: "wpa_ctx \<Rightarrow> wpa_ctx" where
  "sm_WPA_PTK_PTKCALCNEGOTIATING2 c =
     upd_s (\<lambda>s. s\<lparr>sm_TimeoutCtr := 0\<rparr>) (ptk_entry WPA_PTK_PTKCALCNEGOTIATING2 c)"

text \<open>The own element sent in message 3/4: a WPA station gets the WPA element only.\<close>

definition own_wpa_ie :: "wpa_ctx \<Rightarrow> bytes" where
  "own_wpa_ie c =
     (let wpa_ie = a_wpa_ie (cx_au c) in
      if sm_wpa (cx_sm c) = WPA_VERSION_WPA \<and> c_wpa (a_conf (cx_au c)) AND WPA_PROTO_RSN \<noteq> 0 \<and>
        length wpa_ie > unat (wpa_ie ! 1) + 2 \<and> wpa_ie ! 0 = WLAN_EID_RSN
      then let wpa_ie = drop (unat (wpa_ie ! 1) + 2) wpa_ie in take (unat (wpa_ie ! 1) + 2) wpa_ie
      else wpa_ie)"

definition gtk_kde :: "wpa_group \<Rightarrow> bytes" where
  "gtk_kde g = wpa_add_kde RSN_KEY_DATA_GROUPKEY [of_nat (g_GN g) AND 0x03, 0] (current_gtk g)"

definition group_rsc :: "wpa_env \<Rightarrow> wpa_ctx \<Rightarrow> bytes" where
  "group_rsc E c = (case E_get_seqnum E (cx_tr c) (g_GN (cx_gr c)) of None \<Rightarrow> replicate 8 0 | Some r \<Rightarrow> r)"

definition sm_WPA_PTK_PTKINITNEGOTIATING :: "wpa_env \<Rightarrow> wpa_ctx \<Rightarrow> wpa_ctx" where
  "sm_WPA_PTK_PTKINITNEGOTIATING E c =
     (let c = ptk_entry WPA_PTK_PTKINITNEGOTIATING c;
          c = upd_s (\<lambda>s. s\<lparr>sm_TimeoutEvt := False, sm_TimeoutCtr := sm_TimeoutCtr s + 1\<rparr>) c
      in if sm_TimeoutCtr (cx_sm c) > dot11RSNAConfigPairwiseUpdateCount then c
         else
           let rsc = group_rsc E c; wpa2 = (sm_wpa (cx_sm c) = WPA_VERSION_WPA2)
           in case os_malloc E c of (ok, c) \<Rightarrow>
              if \<not> ok then c
              else wpa_send_eapol E
                ((if wpa2 then WPA_KEY_INFO_SECURE else 0) OR WPA_KEY_INFO_MIC OR WPA_KEY_INFO_ACK OR
                  WPA_KEY_INFO_INSTALL OR WPA_KEY_INFO_KEY_TYPE)
                (if wpa2 then Some rsc else None) (Some (sm_ANonce (cx_sm c)))
                (own_wpa_ie c @ (if wpa2 then gtk_kde (cx_gr c) else []))
                (if wpa2 then g_GN (cx_gr c) else 0) wpa2 c)"

definition sm_WPA_PTK_PTKINITDONE :: "wpa_env \<Rightarrow> wpa_ctx \<Rightarrow> wpa_ctx" where
  "sm_WPA_PTK_PTKINITDONE E c =
     (let c = ptk_entry WPA_PTK_PTKINITDONE c;
          c = upd_s (\<lambda>s. s\<lparr>sm_EAPOLKeyReceived := False\<rparr>) c;
          (failed, c) =
            (if sm_Pair (cx_sm c) then
               let tkip = (sm_pairwise (cx_sm c) = WPA_CIPHER_TKIP)
               in case wpa_auth_set_key E 0 (if tkip then WPA_ALG_TKIP else WPA_ALG_CCMP) (sm_addr (cx_sm c)) 0
                      (take (if tkip then 32 else 16) (drop 32 (sm_PTK (cx_sm c)))) (cx_tr c) of
                    (r, tr) \<Rightarrow>
                      let c = c\<lparr>cx_tr := tr\<rparr> in
                      if r \<noteq> 0 then (True, wpa_sta_disconnect c)
                      else
                        let c = upd_s (\<lambda>s. s\<lparr>sm_pairwise_set := True\<rparr>) c;
                            c = (if c_wpa_ptk_rekey (a_conf (cx_au c)) \<noteq> 0
                                 then act (A_register (T_rekey_ptk (sm_addr (cx_sm c))) (1000 * c_wpa_ptk_rekey (a_conf (cx_au c))))
                                   (act (A_cancel (T_rekey_ptk (sm_addr (cx_sm c)))) c) else c);
                            c = (if wpa_key_mgmt_wpa_psk (sm_wpa_key_mgmt (cx_sm c))
                                 then wpa_auth_set_eapol WPA_EAPOL_authorized True c else c)
                        in (False, c)
             else (False, c))
      in if failed then c
         else
           let c = wpa_auth_set_eapol WPA_EAPOL_portValid True c;
               c = wpa_auth_set_eapol WPA_EAPOL_keyAvailable False c;
               c = wpa_auth_set_eapol WPA_EAPOL_keyDone True c
           in if sm_wpa (cx_sm c) = WPA_VERSION_WPA then upd_s (\<lambda>s. s\<lparr>sm_PInitAKeys := True\<rparr>) c
              else upd_s (\<lambda>s. s\<lparr>sm_has_GTK := True\<rparr>) c)"

definition count_4way_failure :: "wpa_ctx \<Rightarrow> wpa_ctx" where
  "count_4way_failure c = c\<lparr>cx_au := (cx_au c)\<lparr>a_4WayHandshakeFailures := a_4WayHandshakeFailures (cx_au c) + 1\<rparr>\<rparr>"

text \<open>\<^verbatim>\<open>EAPOLKeyReceived && !EAPOLKeyRequest && EAPOLKeyPairwise\<close>.\<close>

definition pairwise_reply :: "wpa_state_machine \<Rightarrow> bool" where
  "pairwise_reply s \<longleftrightarrow> sm_EAPOLKeyReceived s \<and> \<not> sm_EAPOLKeyRequest s \<and> sm_EAPOLKeyPairwise s"

definition sm_WPA_PTK_Step :: "wpa_env \<Rightarrow> wpa_ctx \<Rightarrow> wpa_ctx" where
  "sm_WPA_PTK_Step E c =
     (let s = cx_sm c in
      if sm_Init s then sm_WPA_PTK_INITIALIZE E c
      else if sm_Disconnect s then sm_WPA_PTK_DISCONNECT c
      else if sm_DeauthenticationRequest s then sm_WPA_PTK_DISCONNECTED c
      else if sm_AuthenticationRequest s then sm_WPA_PTK_AUTHENTICATION c
      else if sm_ReAuthenticationRequest s then sm_WPA_PTK_AUTHENTICATION2 E c
      else if sm_PTKRequest s then sm_WPA_PTK_PTKSTART E c
      else case sm_ptk_state s of
        WPA_PTK_INITIALIZE \<Rightarrow> c
      | WPA_PTK_DISCONNECT \<Rightarrow> sm_WPA_PTK_DISCONNECTED c
      | WPA_PTK_DISCONNECTED \<Rightarrow> sm_WPA_PTK_INITIALIZE E c
      | WPA_PTK_AUTHENTICATION \<Rightarrow> sm_WPA_PTK_AUTHENTICATION2 E c
      | WPA_PTK_AUTHENTICATION2 \<Rightarrow>
          if wpa_key_mgmt_wpa_ieee8021x (sm_wpa_key_mgmt s) \<and> wpa_auth_get_eapol E WPA_EAPOL_keyRun c > 0
          then sm_WPA_PTK_INITPMK E c
          else if wpa_key_mgmt_wpa_psk (sm_wpa_key_mgmt s) then sm_WPA_PTK_INITPSK E c
          else c
      | WPA_PTK_INITPMK \<Rightarrow>
          if wpa_auth_get_eapol E WPA_EAPOL_keyAvailable c > 0 then sm_WPA_PTK_PTKSTART E c
          else sm_WPA_PTK_DISCONNECT (count_4way_failure c)
      | WPA_PTK_INITPSK \<Rightarrow>
          if E_psks E (sm_addr s) \<noteq> [] then sm_WPA_PTK_PTKSTART E c
          else sm_WPA_PTK_DISCONNECT (count_4way_failure c)
      | WPA_PTK_PTKSTART \<Rightarrow>
          if pairwise_reply s then sm_WPA_PTK_PTKCALCNEGOTIATING E c
          else if sm_TimeoutCtr s > dot11RSNAConfigPairwiseUpdateCount then sm_WPA_PTK_DISCONNECT (count_4way_failure c)
          else if sm_TimeoutEvt s then sm_WPA_PTK_PTKSTART E c
          else c
      | WPA_PTK_PTKCALCNEGOTIATING \<Rightarrow>
          if sm_MICVerified s then sm_WPA_PTK_PTKCALCNEGOTIATING2 c
          else if pairwise_reply s then sm_WPA_PTK_PTKCALCNEGOTIATING E c
          else if sm_TimeoutEvt s then sm_WPA_PTK_PTKSTART E c
          else c
      | WPA_PTK_PTKCALCNEGOTIATING2 \<Rightarrow> sm_WPA_PTK_PTKINITNEGOTIATING E c
      | WPA_PTK_PTKINITNEGOTIATING \<Rightarrow>
          if pairwise_reply s \<and> sm_MICVerified s then sm_WPA_PTK_PTKINITDONE E c
          else if sm_TimeoutCtr s > dot11RSNAConfigPairwiseUpdateCount then sm_WPA_PTK_DISCONNECT (count_4way_failure c)
          else if sm_TimeoutEvt s then sm_WPA_PTK_PTKINITNEGOTIATING E c
          else c
      | WPA_PTK_PTKINITDONE \<Rightarrow> c)"

section \<open>The group key handshake of a station\<close>

definition ptk_group_entry :: "wpa_ptk_group_st \<Rightarrow> wpa_ctx \<Rightarrow> wpa_ctx" where
  "ptk_group_entry st c = upd_s (\<lambda>s. s\<lparr>sm_changed := True, sm_ptk_group_state := st\<rparr>) c"

definition sm_WPA_PTK_GROUP_IDLE :: "wpa_ctx \<Rightarrow> wpa_ctx" where
  "sm_WPA_PTK_GROUP_IDLE c =
     (let c = ptk_group_entry WPA_PTK_GROUP_IDLE c;
          c = (if sm_Init (cx_sm c) then upd_s (\<lambda>s. s\<lparr>sm_changed := False\<rparr>) c else c)
      in upd_s (\<lambda>s. s\<lparr>sm_GTimeoutCtr := 0\<rparr>) c)"

definition sm_WPA_PTK_GROUP_REKEYNEGOTIATING :: "wpa_env \<Rightarrow> wpa_ctx \<Rightarrow> wpa_ctx" where
  "sm_WPA_PTK_GROUP_REKEYNEGOTIATING E c =
     (let c = ptk_group_entry WPA_PTK_GROUP_REKEYNEGOTIATING c;
          c = upd_s (\<lambda>s. s\<lparr>sm_GTimeoutCtr := sm_GTimeoutCtr s + 1\<rparr>) c
      in if sm_GTimeoutCtr (cx_sm c) > dot11RSNAConfigGroupUpdateCount then c
         else
           let c = (if sm_wpa (cx_sm c) = WPA_VERSION_WPA then upd_s (\<lambda>s. s\<lparr>sm_PInitAKeys := False\<rparr>) c else c);
               c = upd_s (\<lambda>s. s\<lparr>sm_TimeoutEvt := False\<rparr>) c;
               rsc = (if g_state (cx_gr c) = WPA_GROUP_SETKEYSDONE then group_rsc E c else replicate 8 0);
               wpa2 = (sm_wpa (cx_sm c) = WPA_VERSION_WPA2)
           in case (if wpa2 then os_malloc E c else (True, c)) of (ok, c) \<Rightarrow>
              if \<not> ok then c
              else wpa_send_eapol E
                (WPA_KEY_INFO_SECURE OR WPA_KEY_INFO_MIC OR WPA_KEY_INFO_ACK OR
                  (if \<not> sm_Pair (cx_sm c) then WPA_KEY_INFO_INSTALL else 0))
                (Some rsc) (Some (g_GNonce (cx_gr c)))
                (if wpa2 then gtk_kde (cx_gr c) else current_gtk (cx_gr c)) (g_GN (cx_gr c)) True c)"

definition sm_WPA_PTK_GROUP_REKEYESTABLISHED :: "wpa_ctx \<Rightarrow> wpa_ctx" where
  "sm_WPA_PTK_GROUP_REKEYESTABLISHED c =
     (let c = ptk_group_entry WPA_PTK_GROUP_REKEYESTABLISHED c;
          c = upd_s (\<lambda>s. s\<lparr>sm_EAPOLKeyReceived := False\<rparr>) c;
          c = group_update_done c
      in upd_s (\<lambda>s. s\<lparr>sm_GTimeoutCtr := 0, sm_has_GTK := True\<rparr>) c)"

definition sm_WPA_PTK_GROUP_KEYERROR :: "wpa_ctx \<Rightarrow> wpa_ctx" where
  "sm_WPA_PTK_GROUP_KEYERROR c =
     upd_s (\<lambda>s. s\<lparr>sm_Disconnect := True\<rparr>) (group_update_done (ptk_group_entry WPA_PTK_GROUP_KEYERROR c))"

definition sm_WPA_PTK_GROUP_Step :: "wpa_env \<Rightarrow> wpa_ctx \<Rightarrow> wpa_ctx" where
  "sm_WPA_PTK_GROUP_Step E c =
     (let s = cx_sm c in
      if sm_Init s \<or> sm_PtkGroupInit s
      then upd_s (\<lambda>s. s\<lparr>sm_PtkGroupInit := False\<rparr>) (sm_WPA_PTK_GROUP_IDLE c)
      else case sm_ptk_group_state s of
        WPA_PTK_GROUP_IDLE \<Rightarrow>
          if sm_GUpdateStationKeys s \<or> sm_wpa s = WPA_VERSION_WPA \<and> sm_PInitAKeys s
          then sm_WPA_PTK_GROUP_REKEYNEGOTIATING E c else c
      | WPA_PTK_GROUP_REKEYNEGOTIATING \<Rightarrow>
          if sm_EAPOLKeyReceived s \<and> \<not> sm_EAPOLKeyRequest s \<and> \<not> sm_EAPOLKeyPairwise s \<and> sm_MICVerified s
          then sm_WPA_PTK_GROUP_REKEYESTABLISHED c
          else if sm_GTimeoutCtr s > dot11RSNAConfigGroupUpdateCount then sm_WPA_PTK_GROUP_KEYERROR c
          else if sm_TimeoutEvt s then sm_WPA_PTK_GROUP_REKEYNEGOTIATING E c
          else c
      | WPA_PTK_GROUP_KEYERROR \<Rightarrow> sm_WPA_PTK_GROUP_IDLE c
      | WPA_PTK_GROUP_REKEYESTABLISHED \<Rightarrow> sm_WPA_PTK_GROUP_IDLE c)"

end
