(* ===== verification/Wpa_Auth_Run.thy ===== *)
theory Wpa_Auth_Run
  imports Wpa_Auth
begin

text \<open>
  The WPA authenticator as a whole, \<^verbatim>\<open>src/athr-hostap/src/ap/wpa_auth.c\<close>: all stations and groups,
  the group key machine, the loop \<^verbatim>\<open>wpa_sm_step\<close> and the handlers of received frames, events, time
  outs and calls from hostapd. The loops carry fuel; a world in which a loop ran out of fuel is marked
  by the ghost \<open>w_stuck\<close>, and the theory on termination shows that this does not happen with the fuel
  chosen there.
\<close>

section \<open>The world\<close>

text \<open>\<open>w_list\<close> is the owner's list of stations that have a state machine, \<open>w_groups\<close> the groups in the
  order of creation; group 0 is \<^verbatim>\<open>wpa_auth->group\<close>.\<close>

text \<open>The fields of \<^verbatim>\<open>struct hostapd_data\<close> for the TKIP countermeasures.\<close>

record tkip_state =
  h_michael_mic_failure :: int
  h_michael_mic_failures :: int
  h_tkip_countermeasures :: bool

record wpa_world =
  w_sm :: "nat \<Rightarrow> wpa_state_machine option"
  w_list :: "nat list"
  w_groups :: "wpa_group list"
  w_au :: wpa_authenticator
  w_hapd :: tkip_state
  w_tr :: "wpa_act list"
  w_stuck :: bool

definition sta :: "wpa_world \<Rightarrow> nat \<Rightarrow> wpa_state_machine" where "sta w i = the (w_sm w i)"

definition load :: "nat \<Rightarrow> wpa_world \<Rightarrow> wpa_ctx" where
  "load i w = \<lparr>cx_sm = sta w i, cx_gr = w_groups w ! sm_group (sta w i), cx_au = w_au w, cx_tr = w_tr w\<rparr>"

definition save :: "nat \<Rightarrow> wpa_ctx \<Rightarrow> wpa_world \<Rightarrow> wpa_world" where
  "save i c w = w\<lparr>w_sm := (w_sm w)(i \<mapsto> cx_sm c), w_groups := (w_groups w)[sm_group (cx_sm c) := cx_gr c],
     w_au := cx_au c, w_tr := cx_tr c\<rparr>"

definition on_sta :: "nat \<Rightarrow> (wpa_ctx \<Rightarrow> wpa_ctx) \<Rightarrow> wpa_world \<Rightarrow> wpa_world" where
  "on_sta i f w = save i (f (load i w)) w"

definition set_sta :: "nat \<Rightarrow> (wpa_state_machine \<Rightarrow> wpa_state_machine) \<Rightarrow> wpa_world \<Rightarrow> wpa_world" where
  "set_sta i f w = w\<lparr>w_sm := (w_sm w)(i \<mapsto> f (sta w i))\<rparr>"

definition set_group :: "nat \<Rightarrow> (wpa_group \<Rightarrow> wpa_group) \<Rightarrow> wpa_world \<Rightarrow> wpa_world" where
  "set_group g f w = w\<lparr>w_groups := (w_groups w)[g := f (w_groups w ! g)]\<rparr>"

abbreviation w_act :: "wpa_act \<Rightarrow> wpa_world \<Rightarrow> wpa_world" where
  "w_act a w \<equiv> w\<lparr>w_tr := w_tr w @ [a]\<rparr>"

section \<open>The group key machine\<close>

definition wpa_group_gtk_init ::
  "wpa_env \<Rightarrow> wpa_authenticator \<Rightarrow> wpa_group \<Rightarrow> wpa_act list \<Rightarrow> wpa_group \<times> wpa_act list" where
  "wpa_group_gtk_init E au g tr =
     (let g = g\<lparr>g_changed := False, g_state := WPA_GROUP_GTK_INIT, g_GTK := replicate 2 (replicate 32 0),
            g_GN := 1, g_GM := 2\<rparr>
      in case wpa_gtk_update E au g tr of (_, g, tr) \<Rightarrow> (g, tr))"

definition wpa_group_setkeysdone ::
  "wpa_env \<Rightarrow> wpa_authenticator \<Rightarrow> wpa_group \<Rightarrow> wpa_act list \<Rightarrow> wpa_group \<times> wpa_act list" where
  "wpa_group_setkeysdone E au g tr =
     (let g = g\<lparr>g_changed := True, g_state := WPA_GROUP_SETKEYSDONE\<rparr>
      in (g, snd (wpa_group_config_group_keys E au g tr)))"

definition on_group ::
  "(wpa_authenticator \<Rightarrow> wpa_group \<Rightarrow> wpa_act list \<Rightarrow> wpa_group \<times> wpa_act list) \<Rightarrow> nat \<Rightarrow> wpa_world \<Rightarrow> wpa_world" where
  "on_group f g w =
     (case f (w_au w) (w_groups w ! g) (w_tr w) of (gr, tr) \<Rightarrow> w\<lparr>w_groups := (w_groups w)[g := gr], w_tr := tr\<rparr>)"

text \<open>\<open>step\<close> is \<^verbatim>\<open>wpa_sm_step\<close>.\<close>

definition flag_station :: "nat \<Rightarrow> wpa_world \<Rightarrow> wpa_world" where
  "flag_station i w =
     (let w = set_group (sm_group (sta w i)) (\<lambda>g. g\<lparr>g_GKeyDoneStations := g_GKeyDoneStations g + 1\<rparr>) w
      in set_sta i (\<lambda>s. s\<lparr>sm_GUpdateStationKeys := True\<rparr>) w)"

definition wpa_group_update_sta :: "(nat \<Rightarrow> wpa_world \<Rightarrow> wpa_world) \<Rightarrow> nat \<Rightarrow> wpa_world \<Rightarrow> wpa_world" where
  "wpa_group_update_sta step i w =
     (if sm_ptk_state (sta w i) \<noteq> WPA_PTK_PTKINITDONE
      then set_sta i (\<lambda>s. s\<lparr>sm_GUpdateStationKeys := False\<rparr>) w
      else step i (flag_station i w))"

text \<open>\<^verbatim>\<open>wpa_group_setkeys\<close> before it goes through the stations.\<close>

definition setkeys_start :: "wpa_env \<Rightarrow> nat \<Rightarrow> wpa_world \<Rightarrow> wpa_world" where
  "setkeys_start E g w =
     (let w = set_group g (\<lambda>gr. gr\<lparr>g_changed := True, g_state := WPA_GROUP_SETKEYS, g_GTKReKey := False,
                g_GM := g_GN gr, g_GN := g_GM gr\<rparr>) w;
          w = on_group (\<lambda>au gr tr. snd (wpa_gtk_update E au gr tr)) g w
      in if g_GKeyDoneStations (w_groups w ! g) \<noteq> 0 then set_group g (\<lambda>gr. gr\<lparr>g_GKeyDoneStations := 0\<rparr>) w else w)"

definition wpa_group_setkeys :: "wpa_env \<Rightarrow> (nat \<Rightarrow> wpa_world \<Rightarrow> wpa_world) \<Rightarrow> nat \<Rightarrow> wpa_world \<Rightarrow> wpa_world" where
  "wpa_group_setkeys E step g w =
     (let w = setkeys_start E g w in fold (wpa_group_update_sta step) (w_list w) w)"

definition wpa_group_sm_step :: "wpa_env \<Rightarrow> (nat \<Rightarrow> wpa_world \<Rightarrow> wpa_world) \<Rightarrow> nat \<Rightarrow> wpa_world \<Rightarrow> wpa_world" where
  "wpa_group_sm_step E step g w =
     (let gr = w_groups w ! g in
      if g_GInit gr then on_group (wpa_group_gtk_init E) g w
      else if g_state gr = WPA_GROUP_GTK_INIT \<and> g_GTKAuthenticator gr then on_group (wpa_group_setkeysdone E) g w
      else if g_state gr = WPA_GROUP_SETKEYSDONE \<and> g_GTKReKey gr then wpa_group_setkeys E step g w
      else if g_state gr = WPA_GROUP_SETKEYS then
        if g_GKeyDoneStations gr = 0 then on_group (wpa_group_setkeysdone E) g w
        else if g_GTKReKey gr then wpa_group_setkeys E step g w
        else w
      else w)"

section \<open>Running the machines of a station\<close>

definition wpa_free_sta_sm :: "nat \<Rightarrow> wpa_world \<Rightarrow> wpa_world" where
  "wpa_free_sta_sm i w =
     (let w = (if sm_GUpdateStationKeys (sta w i)
               then set_group (sm_group (sta w i)) (\<lambda>g. g\<lparr>g_GKeyDoneStations := g_GKeyDoneStations g - 1\<rparr>) w else w)
      in w\<lparr>w_sm := (w_sm w)(i := None), w_list := filter (\<lambda>j. j \<noteq> i) (w_list w)\<rparr>)"

text \<open>\<^verbatim>\<open>wpa_sm_step\<close> around its loop.\<close>

definition sm_step_with :: "(nat \<Rightarrow> wpa_world \<Rightarrow> wpa_world) \<Rightarrow> nat \<Rightarrow> wpa_world \<Rightarrow> wpa_world" where
  "sm_step_with loop i w =
     (if sm_in_step_loop (sta w i) then w
      else
        let w = set_sta i (\<lambda>s. s\<lparr>sm_in_step_loop := True\<rparr>) w;
            w = loop i w;
            w = set_sta i (\<lambda>s. s\<lparr>sm_in_step_loop := False\<rparr>) w
        in if sm_pending_deinit (sta w i) then wpa_free_sta_sm i w else w)"

definition clear_changed :: "nat \<Rightarrow> wpa_world \<Rightarrow> wpa_world" where
  "clear_changed i w = set_group 0 (\<lambda>g. g\<lparr>g_changed := False\<rparr>) (set_sta i (\<lambda>s. s\<lparr>sm_changed := False\<rparr>) w)"

fun wpa_sm_loop :: "wpa_env \<Rightarrow> nat \<Rightarrow> nat \<Rightarrow> wpa_world \<Rightarrow> wpa_world" where
  "wpa_sm_loop E 0 i w = w\<lparr>w_stuck := True\<rparr>"
| "wpa_sm_loop E (Suc n) i w =
     (if sm_pending_deinit (sta w i) then w
      else
        let w = on_sta i (sm_WPA_PTK_Step E) (clear_changed i w)
        in if sm_pending_deinit (sta w i) then w
           else
             let w = on_sta i (sm_WPA_PTK_GROUP_Step E) w
             in if sm_pending_deinit (sta w i) then w
                else
                  let w = wpa_group_sm_step E (sm_step_with (wpa_sm_loop E n)) (sm_group (sta w i)) w
                  in if sm_changed (sta w i) \<or> g_changed (w_groups w ! 0) then wpa_sm_loop E n i w else w)"

definition wpa_sm_step :: "wpa_env \<Rightarrow> nat \<Rightarrow> nat \<Rightarrow> wpa_world \<Rightarrow> wpa_world" where
  "wpa_sm_step E n i w = (case w_sm w i of None \<Rightarrow> w | Some _ \<Rightarrow> sm_step_with (wpa_sm_loop E n) i w)"

section \<open>Group key updates\<close>

fun group_loop :: "wpa_env \<Rightarrow> nat \<Rightarrow> nat \<Rightarrow> wpa_world \<Rightarrow> wpa_world" where
  "group_loop E 0 g w = w\<lparr>w_stuck := True\<rparr>"
| "group_loop E (Suc n) g w =
     (let w = set_group g (\<lambda>gr. gr\<lparr>g_changed := False\<rparr>) w;
          w = wpa_group_sm_step E (sm_step_with (wpa_sm_loop E n)) g w
      in if g_changed (w_groups w ! g) then group_loop E n g w else w)"

text \<open>The groups in the order of the list: the first, then the later ones, the newest first.\<close>

definition group_order :: "wpa_world \<Rightarrow> nat list" where
  "group_order w = (case w_groups w of [] \<Rightarrow> [] | _ \<Rightarrow> 0 # rev [1..<length (w_groups w)])"

definition wpa_rekey_gtk :: "wpa_env \<Rightarrow> nat \<Rightarrow> wpa_world \<Rightarrow> wpa_world" where
  "wpa_rekey_gtk E n w =
     (let w = fold (\<lambda>g w. group_loop E n g (set_group g (\<lambda>gr. gr\<lparr>g_GTKReKey := True\<rparr>) w)) (group_order w) w
      in if c_wpa_group_rekey (a_conf (w_au w)) \<noteq> 0
         then w_act (A_register T_rekey_gtk (1000 * c_wpa_group_rekey (a_conf (w_au w)))) w else w)"

definition wpa_rekey_gmk :: "wpa_env \<Rightarrow> wpa_world \<Rightarrow> wpa_world" where
  "wpa_rekey_gmk E w =
     (let w = on_group (\<lambda>au g tr. case random_get_bytes E 32 tr of (_, gmk, tr) \<Rightarrow> (g\<lparr>g_GMK := gmk\<rparr>, tr)) 0 w
      in if c_wpa_gmk_rekey (a_conf (w_au w)) \<noteq> 0
         then w_act (A_register T_rekey_gmk (1000 * c_wpa_gmk_rekey (a_conf (w_au w)))) w else w)"

definition wpa_request_new_ptk :: "wpa_state_machine \<Rightarrow> wpa_state_machine" where
  "wpa_request_new_ptk s = s\<lparr>sm_PTKRequest := True, sm_PTK_valid := False\<rparr>"

definition wpa_rekey_ptk :: "wpa_env \<Rightarrow> nat \<Rightarrow> nat \<Rightarrow> wpa_world \<Rightarrow> wpa_world" where
  "wpa_rekey_ptk E n i w =
     (case w_sm w i of None \<Rightarrow> w | Some _ \<Rightarrow> wpa_sm_step E n i (set_sta i wpa_request_new_ptk w))"

text \<open>\<^verbatim>\<open>wpa_gtk_rekey\<close>: both keys of the first group are renewed.\<close>

definition wpa_gtk_rekey :: "wpa_env \<Rightarrow> wpa_world \<Rightarrow> wpa_world" where
  "wpa_gtk_rekey E w =
     (let one = (\<lambda>au gr tr. snd (wpa_gtk_update E au (gr\<lparr>g_GM := g_GN gr, g_GN := g_GM gr\<rparr>) tr))
      in on_group one 0 (on_group one 0 w))"

section \<open>TKIP countermeasures\<close>

text \<open>\<^verbatim>\<open>src/athr-hostap/src/ap/tkip_countermeasures.c\<close>. The loop over the stations is over those with a
  state machine.\<close>

definition wpa_auth_sta_local_mic_failure_report :: "nat \<Rightarrow> wpa_world \<Rightarrow> wpa_world" where
  "wpa_auth_sta_local_mic_failure_report i w =
     (case w_sm w i of None \<Rightarrow> w
      | Some _ \<Rightarrow> set_sta i (\<lambda>s. s\<lparr>sm_LocalMICFailures := sm_LocalMICFailures s + 1\<rparr>) w)"

definition wpa_auth_countermeasures_start :: "wpa_world \<Rightarrow> wpa_world" where
  "wpa_auth_countermeasures_start w =
     w\<lparr>w_au := (w_au w)\<lparr>a_CounterMeasuresInvoked := a_CounterMeasuresInvoked (w_au w) + 1\<rparr>\<rparr>"

definition ieee80211_tkip_countermeasures_stop :: "wpa_world \<Rightarrow> wpa_world" where
  "ieee80211_tkip_countermeasures_stop w =
     w_act (A_countermeasures False) (w\<lparr>w_hapd := (w_hapd w)\<lparr>h_tkip_countermeasures := False\<rparr>\<rparr>)"

definition countermeasures_drop :: "macaddr \<Rightarrow> wpa_world \<Rightarrow> wpa_world" where
  "countermeasures_drop spa w = w_act (A_drv_remove spa) (w_act (A_set_unauthorized spa) (w_act (A_drv_deauth spa) w))"

definition ieee80211_tkip_countermeasures_start :: "wpa_env \<Rightarrow> wpa_world \<Rightarrow> wpa_world" where
  "ieee80211_tkip_countermeasures_start E w =
     (let w = wpa_auth_countermeasures_start w;
          w = w\<lparr>w_hapd := (w_hapd w)\<lparr>h_tkip_countermeasures := True\<rparr>\<rparr>;
          w = w_act (A_countermeasures True) w;
          w = wpa_gtk_rekey E w;
          w = w_act (A_register T_countermeasures_stop 60000) (w_act (A_cancel T_countermeasures_stop) w)
      in fold (\<lambda>i w. countermeasures_drop (sm_addr (sta w i)) w) (w_list w) w)"

text \<open>\<open>local\<close> is the station of the address if the failure was detected here; an address with no station
  is then ignored.\<close>

definition michael_mic_failure :: "wpa_env \<Rightarrow> nat option option \<Rightarrow> wpa_world \<Rightarrow> wpa_world" where
  "michael_mic_failure E local w =
     (if local = Some None then w
      else
        let w = (case local of Some (Some i) \<Rightarrow> wpa_auth_sta_local_mic_failure_report i w | _ \<Rightarrow> w);
            now = E_time E;
            h = w_hapd w;
            w = (if now > h_michael_mic_failure h + 60 then w\<lparr>w_hapd := h\<lparr>h_michael_mic_failures := 1\<rparr>\<rparr>
                 else
                   let w = w\<lparr>w_hapd := h\<lparr>h_michael_mic_failures := h_michael_mic_failures h + 1\<rparr>\<rparr>
                   in if h_michael_mic_failures (w_hapd w) > 1 then ieee80211_tkip_countermeasures_start E w else w)
        in w\<lparr>w_hapd := (w_hapd w)\<lparr>h_michael_mic_failure := now\<rparr>\<rparr>)"

section \<open>Reception of EAPOL-Key frames\<close>

datatype eapol_msg = PAIRWISE_2 | PAIRWISE_4 | GROUP_2 | REQUEST | SMK_M1 | SMK_M3 | SMK_ERROR

definition rx_msg :: "bytes \<Rightarrow> eapol_msg" where
  "rx_msg data =
     (let key_info = key_info_of data in
      if info_has key_info WPA_KEY_INFO_SMK_MESSAGE \<and> info_has key_info WPA_KEY_INFO_REQUEST then
        if info_has key_info WPA_KEY_INFO_ERROR then SMK_ERROR else SMK_M1
      else if info_has key_info WPA_KEY_INFO_SMK_MESSAGE then SMK_M3
      else if info_has key_info WPA_KEY_INFO_REQUEST then REQUEST
      else if \<not> info_has key_info WPA_KEY_INFO_KEY_TYPE then GROUP_2
      else if key_data_length data = 0 then PAIRWISE_4
      else PAIRWISE_2)"

text \<open>The checks up to the replay counter; they change nothing.\<close>

definition rx_header_ok :: "wpa_state_machine \<Rightarrow> bytes \<Rightarrow> bool" where
  "rx_header_ok sm data \<longleftrightarrow>
     \<not> length data < EAPOL_KEY_LEN \<and>
     \<not> key_data_length data > length data - EAPOL_KEY_LEN \<and>
     (if sm_wpa sm = WPA_VERSION_WPA2 then key_type data = 2 else key_type data = 254) \<and>
     \<not> (rx_msg data \<in> {REQUEST, PAIRWISE_2, PAIRWISE_4, GROUP_2} \<and> sm_pairwise sm = WPA_CIPHER_CCMP \<and>
       key_info_of data AND WPA_KEY_INFO_TYPE_MASK \<noteq> WPA_KEY_INFO_TYPE_HMAC_SHA1_AES) \<and>
     \<not> (info_has (key_info_of data) WPA_KEY_INFO_REQUEST \<and> sm_req_replay_counter_used sm \<and>
       memcmp (key_replay_counter data) (sm_req_replay_counter sm) \<le> 0) \<and>
     (info_has (key_info_of data) WPA_KEY_INFO_REQUEST \<or> wpa_replay_counter_valid sm (key_replay_counter data))"

text \<open>Message 2/4: whether processing goes on.\<close>

definition rx_pairwise_2 :: "bytes \<Rightarrow> wpa_ctx \<Rightarrow> bool \<times> wpa_ctx" where
  "rx_pairwise_2 data c =
     (if sm_ptk_state (cx_sm c) \<noteq> WPA_PTK_PTKSTART \<and> sm_ptk_state (cx_sm c) \<noteq> WPA_PTK_PTKCALCNEGOTIATING then (False, c)
      else
        let c = act (A_add_randomness (key_nonce data)) c in
        if g_reject_4way_hs_for_entropy (cx_gr c) then
          let c = upd_g (\<lambda>g. g\<lparr>g_reject_4way_hs_for_entropy := False\<rparr>) c;
              c = act A_mark_pool_ready c;
              c = upd_g (\<lambda>g. g\<lparr>g_first_sta_seen := False\<rparr>) c
          in (False, wpa_sta_disconnect c)
        else case wpa_parse_kde_ies (key_data data) of
          (res, kde) \<Rightarrow>
            if res < 0 then (False, c)
            else
              let ie = (case k_rsn_ie kde of Some r \<Rightarrow> Some r | None \<Rightarrow> k_wpa_ie kde) in
              if sm_wpa_ie (cx_sm c) = None \<or> wpa_compare_rsn_ie (sm_wpa_ie (cx_sm c)) ie \<noteq> 0
              then (False, wpa_sta_disconnect c)
              else (True, c))"

definition rx_state_check :: "bytes \<Rightarrow> wpa_ctx \<Rightarrow> bool \<times> wpa_ctx" where
  "rx_state_check data c =
     (case rx_msg data of
        PAIRWISE_2 \<Rightarrow> rx_pairwise_2 data c
      | PAIRWISE_4 \<Rightarrow> (sm_ptk_state (cx_sm c) = WPA_PTK_PTKINITNEGOTIATING \<and> sm_PTK_valid (cx_sm c), c)
      | GROUP_2 \<Rightarrow> (sm_ptk_group_state (cx_sm c) = WPA_PTK_GROUP_REKEYNEGOTIATING \<and> sm_PTK_valid (cx_sm c), c)
      | REQUEST \<Rightarrow> (True, c)
      | _ \<Rightarrow> (False, c))"

definition rx_mic :: "wpa_env \<Rightarrow> bytes \<Rightarrow> wpa_ctx \<Rightarrow> bool \<times> wpa_ctx" where
  "rx_mic E data c =
     (if info_has (key_info_of data) WPA_KEY_INFO_ACK then (False, c)
      else if \<not> info_has (key_info_of data) WPA_KEY_INFO_MIC then (False, c)
      else
        let c = upd_s (\<lambda>s. s\<lparr>sm_MICVerified := False\<rparr>) c in
        if sm_PTK_valid (cx_sm c) then
          if \<not> wpa_verify_key_mic E (sm_PTK (cx_sm c)) data then (False, c)
          else (True, act (A_cancel (T_send_eapol (sm_addr (cx_sm c)))) (upd_s (\<lambda>s. s\<lparr>sm_MICVerified := True\<rparr>) c))
        else (True, c))"

text \<open>Requests and replies: the frame is dropped, stored, or stored after the keys of the groups are
  renewed or after a report of a Michael MIC failure.\<close>

datatype rx_next = RX_drop | RX_store | RX_rekey_gtk | RX_mic_failure

definition rx_request :: "bytes \<Rightarrow> wpa_ctx \<Rightarrow> rx_next \<times> wpa_ctx" where
  "rx_request data c =
     (if info_has (key_info_of data) WPA_KEY_INFO_REQUEST then
        if \<not> sm_MICVerified (cx_sm c) then (RX_drop, c)
        else
          let c = upd_s (\<lambda>s. s\<lparr>sm_req_replay_counter_used := True, sm_req_replay_counter := key_replay_counter data\<rparr>) c in
          if info_has (key_info_of data) WPA_KEY_INFO_ERROR then (RX_mic_failure, act (A_mic_failure (sm_addr (cx_sm c))) c)
          else if info_has (key_info_of data) WPA_KEY_INFO_KEY_TYPE then (RX_store, upd_s wpa_request_new_ptk c)
          else if key_data_length data > 0 \<and> fst (wpa_parse_kde_ies (key_data data)) = 0 \<and>
            k_mac_addr (snd (wpa_parse_kde_ies (key_data data))) \<noteq> None then (RX_store, c)
          else (RX_rekey_gtk, act (A_cancel T_rekey_gtk) c)
      else (RX_store, upd_s (\<lambda>s. s\<lparr>sm_key_replay := (sm_key_replay s)[0 := (sm_key_replay s ! 0)\<lparr>rs_valid := False\<rparr>]\<rparr>) c))"

text \<open>After the report of the failure.\<close>

definition rx_error_report :: "wpa_ctx \<Rightarrow> wpa_ctx" where
  "rx_error_report c =
     (let c = upd_s (\<lambda>s. s\<lparr>sm_RemoteMICFailures := sm_RemoteMICFailures s + 1\<rparr>) c;
          c = c\<lparr>cx_au := (cx_au c)\<lparr>a_RemoteMICFailures := a_RemoteMICFailures (cx_au c) + 1\<rparr>\<rparr>
      in upd_s wpa_request_new_ptk c)"

text \<open>The copy of the frame; the empty list is the null pointer that a failed allocation leaves.\<close>

definition rx_store :: "wpa_env \<Rightarrow> bytes \<Rightarrow> wpa_ctx \<Rightarrow> bool \<times> wpa_ctx" where
  "rx_store E data c =
     (case os_malloc E c of (ok, c) \<Rightarrow>
      if \<not> ok then (False, upd_s (\<lambda>s. s\<lparr>sm_last_rx_eapol_key := []\<rparr>) c)
      else (True, upd_s (\<lambda>s. s\<lparr>sm_last_rx_eapol_key := data, sm_EAPOLKeyReceived := True,
          sm_EAPOLKeyPairwise := info_has (key_info_of data) WPA_KEY_INFO_KEY_TYPE,
          sm_EAPOLKeyRequest := info_has (key_info_of data) WPA_KEY_INFO_REQUEST,
          sm_SNonce := key_nonce data\<rparr>) c))"

text \<open>The part of \<^verbatim>\<open>wpa_receive\<close> before the group rekey.\<close>

definition rx_front :: "wpa_env \<Rightarrow> bytes \<Rightarrow> wpa_ctx \<Rightarrow> rx_next \<times> wpa_ctx" where
  "rx_front E data c =
     (if \<not> rx_header_ok (cx_sm c) data then (RX_drop, c)
      else case rx_state_check data c of
        (go, c) \<Rightarrow> if \<not> go then (RX_drop, c)
          else case rx_mic E data c of
            (go, c) \<Rightarrow> if \<not> go then (RX_drop, c) else rx_request data c)"

text \<open>What a request makes the authenticator do before the frame is stored.\<close>

definition rx_side :: "wpa_env \<Rightarrow> nat \<Rightarrow> nat \<Rightarrow> rx_next \<Rightarrow> wpa_world \<Rightarrow> wpa_world" where
  "rx_side E n i what w =
     (case what of
        RX_rekey_gtk \<Rightarrow> wpa_rekey_gtk E n w
      | RX_mic_failure \<Rightarrow> on_sta i rx_error_report (michael_mic_failure E None w)
      | _ \<Rightarrow> w)"

definition wpa_receive :: "wpa_env \<Rightarrow> nat \<Rightarrow> nat \<Rightarrow> bytes \<Rightarrow> wpa_world \<Rightarrow> wpa_world" where
  "wpa_receive E n i data w =
     (if c_wpa (a_conf (w_au w)) = 0 \<or> w_sm w i = None then w
      else case rx_front E data (load i w) of
        (what, c) \<Rightarrow>
          let w = save i c w in
          if what = RX_drop then w
          else
            let w = rx_side E n i what w
            in case rx_store E data (load i w) of
                 (go, c) \<Rightarrow> let w = save i c w in if go then wpa_sm_step E n i w else w)"

section \<open>Stations\<close>

definition fresh_sm :: "macaddr \<Rightarrow> wpa_state_machine" where
  "fresh_sm da = \<lparr>sm_group = 0, sm_addr = da, sm_ptk_state = WPA_PTK_INITIALIZE,
     sm_ptk_group_state = WPA_PTK_GROUP_IDLE, sm_Init = False, sm_DeauthenticationRequest = False,
     sm_AuthenticationRequest = False, sm_ReAuthenticationRequest = False, sm_Disconnect = False,
     sm_TimeoutCtr = 0, sm_GTimeoutCtr = 0, sm_TimeoutEvt = False, sm_EAPOLKeyReceived = False,
     sm_EAPOLKeyPairwise = False, sm_EAPOLKeyRequest = False, sm_MICVerified = False,
     sm_GUpdateStationKeys = False, sm_ANonce = replicate 32 0, sm_SNonce = replicate 32 0,
     sm_PMK = replicate 32 0, sm_PTK = zero_ptk, sm_PTK_valid = False, sm_pairwise_set = False,
     sm_keycount = 0, sm_Pair = False,
     sm_key_replay = replicate RSNA_MAX_EAPOL_RETRIES \<lparr>rs_counter = replicate 8 0, rs_valid = False\<rparr>,
     sm_PInitAKeys = False, sm_PTKRequest = False, sm_has_GTK = False, sm_PtkGroupInit = False,
     sm_last_rx_eapol_key = [], sm_changed = False, sm_in_step_loop = False, sm_pending_deinit = False,
     sm_started = False, sm_req_replay_counter = replicate 8 0, sm_req_replay_counter_used = False,
     sm_wpa_ie = None, sm_wpa = WPA_VERSION_NO_WPA, sm_pairwise = 0, sm_wpa_key_mgmt = 0, sm_pmksa = None,
     sm_LocalMICFailures = 0, sm_RemoteMICFailures = 0\<rparr>"

text \<open>\<open>mem\<close> is the address of the new state machine, unused before, or \<^term>\<open>None\<close>.\<close>

definition wpa_auth_sta_init :: "nat option \<Rightarrow> macaddr \<Rightarrow> wpa_world \<Rightarrow> wpa_world" where
  "wpa_auth_sta_init mem da w =
     (case mem of
        None \<Rightarrow> w
      | Some i \<Rightarrow> if w_sm w i \<noteq> None then w
          else w\<lparr>w_sm := (w_sm w)(i \<mapsto> fresh_sm da), w_list := i # w_list w\<rparr>)"

text \<open>Starting the machines: \<^verbatim>\<open>Init\<close>, a step, then the request for authentication.\<close>

definition start_sm :: "wpa_env \<Rightarrow> nat \<Rightarrow> nat \<Rightarrow> wpa_world \<Rightarrow> wpa_world" where
  "start_sm E n i w =
     (let w = wpa_sm_step E n i (set_sta i (\<lambda>s. s\<lparr>sm_started := True, sm_Init := True\<rparr>) w)
      in case w_sm w i of
           None \<Rightarrow> w
         | Some _ \<Rightarrow> set_sta i (\<lambda>s. s\<lparr>sm_Init := False, sm_AuthenticationRequest := True\<rparr>) w)"

definition wpa_auth_sta_associated :: "wpa_env \<Rightarrow> nat \<Rightarrow> nat \<Rightarrow> wpa_world \<Rightarrow> wpa_world" where
  "wpa_auth_sta_associated E n i w =
     (if c_wpa (a_conf (w_au w)) = 0 \<or> w_sm w i = None then w
      else if sm_started (sta w i) then
        wpa_sm_step E n i (set_sta i (\<lambda>s. s\<lparr>sm_key_replay := sm_key_replay (fresh_sm []), sm_ReAuthenticationRequest := True\<rparr>) w)
      else wpa_sm_step E n i (start_sm E n i w))"

definition wpa_auth_sta_no_wpa :: "nat \<Rightarrow> wpa_world \<Rightarrow> wpa_world" where
  "wpa_auth_sta_no_wpa i w =
     (case w_sm w i of None \<Rightarrow> w | Some _ \<Rightarrow> set_sta i (\<lambda>s. s\<lparr>sm_wpa_key_mgmt := 0\<rparr>) w)"

definition wpa_auth_sta_deinit :: "nat \<Rightarrow> wpa_world \<Rightarrow> wpa_world" where
  "wpa_auth_sta_deinit i w =
     (case w_sm w i of
        None \<Rightarrow> w
      | Some s \<Rightarrow>
          let w = (if c_wpa_strict_rekey (a_conf (w_au w)) \<and> sm_has_GTK s
                   then w_act (A_register T_rekey_gtk 500) (w_act (A_cancel T_rekey_gtk) w) else w);
              w = w_act (A_cancel (T_rekey_ptk (sm_addr s)))
                    (w_act (A_cancel (T_call_step (sm_addr s))) (w_act (A_cancel (T_send_eapol (sm_addr s))) w))
          in if sm_in_step_loop s then set_sta i (\<lambda>s. s\<lparr>sm_pending_deinit := True\<rparr>) w else wpa_free_sta_sm i w)"

datatype wpa_event = WPA_AUTH | WPA_ASSOC | WPA_DISASSOC | WPA_DEAUTH | WPA_REAUTH | WPA_REAUTH_EAPOL | WPA_ASSOC_FT

definition wpa_auth_sm_event :: "wpa_env \<Rightarrow> nat \<Rightarrow> nat \<Rightarrow> wpa_event \<Rightarrow> wpa_world \<Rightarrow> wpa_world" where
  "wpa_auth_sm_event E n i event w =
     (if w_sm w i = None then w
      else
        let w = (if event = WPA_DEAUTH \<or> event = WPA_DISASSOC
                 then set_sta i (\<lambda>s. s\<lparr>sm_DeauthenticationRequest := True\<rparr>) w
                 else if event = WPA_REAUTH \<or> event = WPA_REAUTH_EAPOL then
                   if \<not> sm_started (sta w i) then start_sm E n i w
                   else
                     let w = (if sm_GUpdateStationKeys (sta w i)
                              then on_sta i (\<lambda>c. upd_s (\<lambda>s. s\<lparr>sm_PtkGroupInit := True\<rparr>) (group_update_done c)) w else w)
                     in set_sta i (\<lambda>s. s\<lparr>sm_ReAuthenticationRequest := True\<rparr>) w
                 else w)
        in case w_sm w i of
             None \<Rightarrow> w
           | Some _ \<Rightarrow>
               let w = set_sta i (\<lambda>s. s\<lparr>sm_PTK_valid := False, sm_PTK := zero_ptk\<rparr>) w;
                   w = (if event \<noteq> WPA_REAUTH_EAPOL then on_sta i (wpa_remove_ptk E) w else w)
               in wpa_sm_step E n i w)"

definition wpa_send_eapol_timeout :: "wpa_env \<Rightarrow> nat \<Rightarrow> nat \<Rightarrow> wpa_world \<Rightarrow> wpa_world" where
  "wpa_send_eapol_timeout E n i w =
     (case w_sm w i of None \<Rightarrow> w | Some _ \<Rightarrow> wpa_sm_step E n i (set_sta i (\<lambda>s. s\<lparr>sm_TimeoutEvt := True\<rparr>) w))"

definition wpa_auth_sm_notify :: "nat \<Rightarrow> wpa_world \<Rightarrow> wpa_world" where
  "wpa_auth_sm_notify i w =
     (case w_sm w i of None \<Rightarrow> w | Some s \<Rightarrow> w_act (A_register (T_call_step (sm_addr s)) 0) w)"

section \<open>The authenticator\<close>

definition zero_group :: "int \<Rightarrow> wpa_group" where
  "zero_group vid = \<lparr>g_vlan_id = vid, g_GInit = False, g_GKeyDoneStations = 0, g_GTKReKey = False,
     g_GTK_len = 0, g_GN = 0, g_GM = 0, g_GTKAuthenticator = True, g_Counter = replicate 32 0,
     g_state = WPA_GROUP_GTK_INIT, g_GMK = replicate 32 0, g_GTK = replicate 2 (replicate 32 0),
     g_GNonce = replicate 32 0, g_changed = False, g_first_sta_seen = False,
     g_reject_4way_hs_for_entropy = False\<rparr>"

text \<open>The two calls of \<^verbatim>\<open>wpa_group_sm_step\<close> take the new group through \<^verbatim>\<open>GTK_INIT\<close> to
  \<^verbatim>\<open>SETKEYSDONE\<close>.\<close>

definition wpa_group_init ::
  "wpa_env \<Rightarrow> bool \<Rightarrow> wpa_authenticator \<Rightarrow> int \<Rightarrow> wpa_act list \<Rightarrow> wpa_group option \<times> wpa_act list" where
  "wpa_group_init E ok au vid tr =
     (if \<not> ok then (None, tr)
      else
        let g = wpa_group_set_key_len (c_wpa_group (a_conf au)) (zero_group vid)
        in case wpa_group_init_gmk_and_counter E au g tr of (ret, g, tr) \<Rightarrow>
           if ret < 0 then (None, tr)
           else
             let g = g\<lparr>g_GInit := True\<rparr>
             in case wpa_group_gtk_init E au g tr of (g, tr) \<Rightarrow>
                let g = g\<lparr>g_GInit := False\<rparr>
                in case wpa_group_setkeysdone E au g tr of (g, tr) \<Rightarrow> (Some g, tr))"

definition wpa_init ::
  "wpa_env \<Rightarrow> bool \<Rightarrow> macaddr \<Rightarrow> wpa_auth_config \<Rightarrow> wpa_world option" where
  "wpa_init E ok da wconf =
     (if \<not> ok then None
      else case wpa_auth_gen_wpa_ie ok wconf of
        None \<Rightarrow> None
      | Some ie \<Rightarrow>
          (case pmksa_cache_auth_init ok of
             None \<Rightarrow> None
           | Some cache \<Rightarrow>
               let au = \<lparr>a_conf = wconf, a_addr = da, a_wpa_ie = ie, a_pmksa = cache, a_RemoteMICFailures = 0,
                     a_AuthenticationSuiteSelected = 0, a_PairwiseCipherSelected = 0, a_GroupCipherSelected = 0,
                     a_PMKIDUsed = replicate 16 0, a_CounterMeasuresInvoked = 0, a_4WayHandshakeFailures = 0\<rparr>
               in case wpa_group_init E ok au 0 [] of
                    (None, tr) \<Rightarrow> None
                  | (Some g, tr) \<Rightarrow>
                      let w = \<lparr>w_sm = (\<lambda>i. None), w_list = [], w_groups = [g], w_au = au,
                            w_hapd = \<lparr>h_michael_mic_failure = 0, h_michael_mic_failures = 0, h_tkip_countermeasures = False\<rparr>,
                            w_tr = tr, w_stuck = False\<rparr>;
                          w = (if c_wpa_gmk_rekey wconf \<noteq> 0 then w_act (A_register T_rekey_gmk (1000 * c_wpa_gmk_rekey wconf)) w else w);
                          w = (if c_wpa_group_rekey wconf \<noteq> 0 then w_act (A_register T_rekey_gtk (1000 * c_wpa_group_rekey wconf)) w else w)
                      in Some w))"

definition wpa_reconfig :: "wpa_env \<Rightarrow> bool \<Rightarrow> nat \<Rightarrow> wpa_auth_config \<Rightarrow> wpa_world \<Rightarrow> wpa_world" where
  "wpa_reconfig E ok n wconf w =
     (let w = w\<lparr>w_au := (w_au w)\<lparr>a_conf := wconf\<rparr>\<rparr>
      in case wpa_auth_gen_wpa_ie ok wconf of
           None \<Rightarrow> w
         | Some ie \<Rightarrow>
             let w = w\<lparr>w_au := (w_au w)\<lparr>a_wpa_ie := ie\<rparr>\<rparr>;
                 step = sm_step_with (wpa_sm_loop E n);
                 w = set_group 0 (\<lambda>g. (wpa_group_set_key_len (c_wpa_group wconf) g)\<lparr>g_GInit := True\<rparr>) w;
                 w = wpa_group_sm_step E step 0 w;
                 w = set_group 0 (\<lambda>g. g\<lparr>g_GInit := False\<rparr>) w
             in wpa_group_sm_step E step 0 w)"

text \<open>The first group of the list with the VLAN.\<close>

definition find_group :: "int \<Rightarrow> wpa_world \<Rightarrow> nat option" where
  "find_group vid w = List.find (\<lambda>g. g_vlan_id (w_groups w ! g) = vid) (group_order w)"

definition wpa_auth_sta_set_vlan :: "wpa_env \<Rightarrow> bool \<Rightarrow> nat \<Rightarrow> int \<Rightarrow> wpa_world \<Rightarrow> wpa_world" where
  "wpa_auth_sta_set_vlan E ok i vid w =
     (if w_sm w i = None then w
      else case find_group vid w of
        Some g \<Rightarrow> set_sta i (\<lambda>s. s\<lparr>sm_group := g\<rparr>) w
      | None \<Rightarrow>
          (case wpa_group_init E ok (w_au w) vid (w_tr w) of
             (None, tr) \<Rightarrow> w\<lparr>w_tr := tr\<rparr>
           | (Some g, tr) \<Rightarrow>
               set_sta i (\<lambda>s. s\<lparr>sm_group := length (w_groups w)\<rparr>) (w\<lparr>w_groups := w_groups w @ [g], w_tr := tr\<rparr>)))"

section \<open>PMKSA cache\<close>

text \<open>\<^verbatim>\<open>wpa_auth_pmksa_free_cb\<close>: no station keeps a pointer to a freed entry.\<close>

definition wpa_auth_pmksa_clear_cb :: "eaddr \<Rightarrow> wpa_state_machine \<Rightarrow> wpa_state_machine" where
  "wpa_auth_pmksa_clear_cb entry s = (if sm_pmksa s = Some entry then s\<lparr>sm_pmksa := None\<rparr> else s)"

definition wpa_auth_pmksa_free_cb :: "eaddr \<Rightarrow> wpa_world \<Rightarrow> wpa_world" where
  "wpa_auth_pmksa_free_cb entry w = fold (\<lambda>i. set_sta i (wpa_auth_pmksa_clear_cb entry)) (w_list w) w"

text \<open>An operation on the cache with the callbacks it makes.\<close>

definition set_cache :: "rsn_pmksa_cache \<Rightarrow> wpa_world \<Rightarrow> wpa_world" where
  "set_cache cache w =
     (let old = a_pmksa (w_au w);
          w = w\<lparr>w_au := (w_au w)\<lparr>a_pmksa := cache\<rparr>\<rparr>
      in fold wpa_auth_pmksa_free_cb (drop (length (freed old)) (freed cache)) w)"

definition env_pmkid :: "wpa_env \<Rightarrow> pmkid_fn" where
  "env_pmkid E pmk aa spa sha256 =
     rsn_pmkid (\<lambda>key d. case E_hmac_sha1 E key d of Some h \<Rightarrow> h | None \<Rightarrow> E_stack E) pmk aa spa"

definition wpa_auth_pmksa_add ::
  "wpa_env \<Rightarrow> pmksa_mem \<Rightarrow> int \<Rightarrow> nat \<Rightarrow> bytes \<Rightarrow> int \<Rightarrow> ('e eapol_state_machine \<times> int) option \<Rightarrow> wpa_world \<Rightarrow> wpa_world" where
  "wpa_auth_pmksa_add E mem now i pmk session_timeout eapol w =
     (case w_sm w i of
        None \<Rightarrow> w
      | Some s \<Rightarrow>
          if sm_wpa s \<noteq> WPA_VERSION_WPA2 then w
          else set_cache (snd (pmksa_cache_auth_add (env_pmkid E) mem now (a_pmksa (w_au w)) pmk (a_addr (w_au w))
                 (sm_addr s) session_timeout eapol (sm_wpa_key_mgmt s))) w)"

definition wpa_auth_pmksa_add_preauth ::
  "wpa_env \<Rightarrow> pmksa_mem \<Rightarrow> int \<Rightarrow> bytes \<Rightarrow> macaddr \<Rightarrow> int \<Rightarrow> ('e eapol_state_machine \<times> int) option \<Rightarrow> wpa_world \<Rightarrow> wpa_world" where
  "wpa_auth_pmksa_add_preauth E mem now pmk spa session_timeout eapol w =
     set_cache (snd (pmksa_cache_auth_add (env_pmkid E) mem now (a_pmksa (w_au w)) pmk (a_addr (w_au w))
       spa session_timeout eapol WPA_KEY_MGMT_IEEE8021X)) w"

definition pmksa_expire_timeout :: "int \<Rightarrow> wpa_world \<Rightarrow> wpa_world" where
  "pmksa_expire_timeout now w = set_cache (pmksa_cache_expire now (a_pmksa (w_au w))) w"

end
