(* ===== verification/Wpa_Auth_Events.thy ===== *)
theory Wpa_Auth_Events
  imports Wpa_Auth_Run
begin

text \<open>
  The element a station sends in its association request, \<^verbatim>\<open>wpa_validate_wpa_ie\<close> of
  \<^verbatim>\<open>src/athr-hostap/src/ap/wpa_auth_ie.c\<close>, and the authenticator as a machine that takes one
  input at a time: every call hostapd makes into \<^verbatim>\<open>wpa_auth.c\<close> and every time out it registers.
\<close>

section \<open>Validation of the element of a station\<close>

datatype wpa_validate_result =
    WPA_IE_OK | WPA_INVALID_IE | WPA_INVALID_GROUP | WPA_INVALID_PAIRWISE | WPA_INVALID_AKMP
  | WPA_NOT_ENABLED | WPA_ALLOC_FAIL | WPA_MGMT_FRAME_PROTECTION_VIOLATION
  | WPA_INVALID_MGMT_GROUP_CIPHER | WPA_INVALID_MDIE | WPA_INVALID_PROTO

text \<open>The selectors kept for the MIB.\<close>

definition rsn_cipher_selected :: "int \<Rightarrow> u32" where
  "rsn_cipher_selected ciphers =
     (if ciphers AND WPA_CIPHER_CCMP \<noteq> 0 then RSN_CIPHER_SUITE_CCMP
      else if ciphers AND WPA_CIPHER_TKIP \<noteq> 0 then RSN_CIPHER_SUITE_TKIP
      else if ciphers AND WPA_CIPHER_WEP104 \<noteq> 0 then RSN_CIPHER_SUITE_WEP104
      else if ciphers AND WPA_CIPHER_WEP40 \<noteq> 0 then RSN_CIPHER_SUITE_WEP40
      else if ciphers AND WPA_CIPHER_NONE \<noteq> 0 then RSN_CIPHER_SUITE_NONE
      else RSN_CIPHER_SUITE_CCMP)"

definition wpa_cipher_selected :: "int \<Rightarrow> u32" where
  "wpa_cipher_selected ciphers =
     (if ciphers AND WPA_CIPHER_CCMP \<noteq> 0 then WPA_CIPHER_SUITE_CCMP
      else if ciphers AND WPA_CIPHER_TKIP \<noteq> 0 then WPA_CIPHER_SUITE_TKIP
      else if ciphers AND WPA_CIPHER_WEP104 \<noteq> 0 then WPA_CIPHER_SUITE_WEP104
      else if ciphers AND WPA_CIPHER_WEP40 \<noteq> 0 then WPA_CIPHER_SUITE_WEP40
      else if ciphers AND WPA_CIPHER_NONE \<noteq> 0 then WPA_CIPHER_SUITE_NONE
      else WPA_CIPHER_SUITE_TKIP)"

definition validate_selected :: "bool \<Rightarrow> wpa_ie_data \<Rightarrow> wpa_authenticator \<Rightarrow> wpa_authenticator" where
  "validate_selected rsn data au =
     (if rsn then
        au\<lparr>a_AuthenticationSuiteSelected :=
             (if d_key_mgmt data AND WPA_KEY_MGMT_IEEE8021X \<noteq> 0 then RSN_AUTH_KEY_MGMT_UNSPEC_802_1X
              else if d_key_mgmt data AND WPA_KEY_MGMT_PSK \<noteq> 0 then RSN_AUTH_KEY_MGMT_PSK_OVER_802_1X
              else RSN_AUTH_KEY_MGMT_UNSPEC_802_1X),
           a_PairwiseCipherSelected := rsn_cipher_selected (d_pairwise_cipher data),
           a_GroupCipherSelected := rsn_cipher_selected (d_group_cipher data)\<rparr>
      else
        au\<lparr>a_AuthenticationSuiteSelected :=
             (if d_key_mgmt data AND WPA_KEY_MGMT_IEEE8021X \<noteq> 0 then WPA_AUTH_KEY_MGMT_UNSPEC_802_1X
              else if d_key_mgmt data AND WPA_KEY_MGMT_PSK \<noteq> 0 then WPA_AUTH_KEY_MGMT_PSK_OVER_802_1X
              else WPA_AUTH_KEY_MGMT_UNSPEC_802_1X),
           a_PairwiseCipherSelected := wpa_cipher_selected (d_pairwise_cipher data),
           a_GroupCipherSelected := wpa_cipher_selected (d_group_cipher data)\<rparr>)"

definition pmkid_list :: "wpa_ie_data \<Rightarrow> bytes list" where
  "pmkid_list data =
     (case d_pmkid data of None \<Rightarrow> []
      | Some p \<Rightarrow> map (\<lambda>i. take PMKID_LEN (drop (i * PMKID_LEN) p)) [0..<d_num_pmkid data])"

fun find_pmksa :: "rsn_pmksa_cache \<Rightarrow> macaddr \<Rightarrow> bytes list \<Rightarrow> eaddr option" where
  "find_pmksa cache spa [] = None"
| "find_pmksa cache spa (p # ps) =
     (case pmksa_cache_auth_get cache (Some spa) (Some p) of Some e \<Rightarrow> Some e | None \<Rightarrow> find_pmksa cache spa ps)"

text \<open>\<^verbatim>\<open>wpa_auth_for_each_auth(wpa_auth, wpa_auth_okc_iter, &idata)\<close> over the caches of all
  authenticators, and the loop around it over the PMKIDs. The outer option is a call that returns.\<close>

fun okc_iter :: "pmkid_fn \<Rightarrow> macaddr \<Rightarrow> macaddr \<Rightarrow> bytes \<Rightarrow> rsn_pmksa_cache list \<Rightarrow> rsn_pmksa_cache_entry option option" where
  "okc_iter f aa spa p [] = Some None"
| "okc_iter f aa spa p (cache # caches) =
     (case pmksa_cache_get_okc f cache aa spa p of
        None \<Rightarrow> None
      | Some (Some e) \<Rightarrow> Some (Some (deref cache e))
      | Some None \<Rightarrow> okc_iter f aa spa p caches)"

fun okc_pmkids ::
  "pmkid_fn \<Rightarrow> macaddr \<Rightarrow> macaddr \<Rightarrow> rsn_pmksa_cache list \<Rightarrow> bytes list \<Rightarrow> (rsn_pmksa_cache_entry \<times> bytes) option option" where
  "okc_pmkids f aa spa caches [] = Some None"
| "okc_pmkids f aa spa caches (p # ps) =
     (case okc_iter f aa spa p caches of
        None \<Rightarrow> None
      | Some (Some e) \<Rightarrow> Some (Some (e, p))
      | Some None \<Rightarrow> okc_pmkids f aa spa caches ps)"

text \<open>The search for a cached master key. \<open>before\<close> and \<open>after\<close> are the caches of the other
  authenticators, on both sides of this one in the order of the iteration.\<close>

definition validate_pmksa ::
  "wpa_env \<Rightarrow> pmksa_mem \<Rightarrow> rsn_pmksa_cache list \<Rightarrow> rsn_pmksa_cache list \<Rightarrow> wpa_ie_data \<Rightarrow> wpa_ctx \<Rightarrow> wpa_ctx option" where
  "validate_pmksa E mem before after data c =
     (let cache = a_pmksa (cx_au c); aa = a_addr (cx_au c); spa = sm_addr (cx_sm c); ids = pmkid_list data;
          used = (\<lambda>p c. c\<lparr>cx_au := (cx_au c)\<lparr>a_PMKIDUsed := p\<rparr>\<rparr>);
          c = upd_s (\<lambda>s. s\<lparr>sm_pmksa := find_pmksa cache spa ids\<rparr>) c
      in case find_pmksa cache spa ids of
           Some e \<Rightarrow> Some (used (e_pmkid (deref cache e)) c)
         | None \<Rightarrow>
             if \<not> c_okc (a_conf (cx_au c)) then Some c
             else case okc_pmkids (env_pmkid E) aa spa (before @ cache # after) ids of
               None \<Rightarrow> None
             | Some None \<Rightarrow> Some c
             | Some (Some (old, p)) \<Rightarrow>
                 (case pmksa_cache_add_okc mem cache old p of
                    (None, _) \<Rightarrow> Some c
                  | (Some e, cache) \<Rightarrow>
                      let c = c\<lparr>cx_au := (cx_au c)\<lparr>a_pmksa := cache\<rparr>\<rparr>
                      in Some (used p (upd_s (\<lambda>s. s\<lparr>sm_pmksa := Some e\<rparr>) c))))"

definition validate_store :: "wpa_env \<Rightarrow> bytes \<Rightarrow> wpa_ctx \<Rightarrow> wpa_validate_result \<times> wpa_ctx" where
  "validate_store E wpa_ie c =
     (let grow = (case sm_wpa_ie (cx_sm c) of None \<Rightarrow> True | Some old \<Rightarrow> length old < length wpa_ie)
      in case (if grow then os_malloc E c else (True, c)) of (ok, c) \<Rightarrow>
         if ok then (WPA_IE_OK, upd_s (\<lambda>s. s\<lparr>sm_wpa_ie := Some wpa_ie\<rparr>) c)
         else (WPA_ALLOC_FAIL, upd_s (\<lambda>s. s\<lparr>sm_wpa_ie := None\<rparr>) c))"

definition validate_body ::
  "wpa_env \<Rightarrow> pmksa_mem \<Rightarrow> rsn_pmksa_cache list \<Rightarrow> rsn_pmksa_cache list \<Rightarrow> bytes \<Rightarrow> wpa_ctx \<Rightarrow>
   (wpa_validate_result \<times> wpa_ctx) option" where
  "validate_body E mem before after wpa_ie c =
     (let conf' = a_conf (cx_au c);
          rsn = (wpa_ie ! 0 = WLAN_EID_RSN);
          version = (if rsn then WPA_PROTO_RSN else WPA_PROTO_WPA)
      in if c_wpa conf' AND version = 0 then Some (WPA_INVALID_PROTO, c)
         else case (if rsn then wpa_parse_wpa_ie_rsn wpa_ie else wpa_parse_wpa_ie_wpa wpa_ie) of (res, data) \<Rightarrow>
           let c = c\<lparr>cx_au := validate_selected rsn data (cx_au c)\<rparr> in
           if res \<noteq> 0 then Some (WPA_INVALID_IE, c)
           else if d_group_cipher data \<noteq> c_wpa_group conf' then Some (WPA_INVALID_GROUP, c)
           else let key_mgmt = d_key_mgmt data AND c_wpa_key_mgmt conf' in
           if key_mgmt = 0 then Some (WPA_INVALID_AKMP, c)
           else let c = upd_s (\<lambda>s. s\<lparr>sm_wpa_key_mgmt :=
                      (if key_mgmt AND WPA_KEY_MGMT_IEEE8021X \<noteq> 0 then WPA_KEY_MGMT_IEEE8021X else WPA_KEY_MGMT_PSK)\<rparr>) c;
                    ciphers = d_pairwise_cipher data AND (if rsn then c_rsn_pairwise conf' else c_wpa_pairwise conf') in
           if ciphers = 0 then Some (WPA_INVALID_PAIRWISE, c)
           else let c = upd_s (\<lambda>s. s\<lparr>sm_pairwise := (if ciphers AND WPA_CIPHER_CCMP \<noteq> 0 then WPA_CIPHER_CCMP else WPA_CIPHER_TKIP),
                      sm_wpa := (if rsn then WPA_VERSION_WPA2 else WPA_VERSION_WPA)\<rparr>) c in
           map_option (validate_store E wpa_ie) (validate_pmksa E mem before after data c))"

definition wpa_validate_wpa_ie ::
  "wpa_env \<Rightarrow> pmksa_mem \<Rightarrow> rsn_pmksa_cache list \<Rightarrow> rsn_pmksa_cache list \<Rightarrow> nat \<Rightarrow> bytes option \<Rightarrow> wpa_world \<Rightarrow>
   (wpa_validate_result \<times> wpa_world) option" where
  "wpa_validate_wpa_ie E mem before after i wpa_ie w =
     (if w_sm w i = None then Some (WPA_NOT_ENABLED, w)
      else case wpa_ie of
        None \<Rightarrow> Some (WPA_INVALID_IE, w)
      | Some ie \<Rightarrow>
          if length ie < 1 then Some (WPA_INVALID_IE, w)
          else map_option (\<lambda>(r, c). (r, save i c w)) (validate_body E mem before after ie (load i w)))"

definition wpa_auth_sta_clear_pmksa :: "nat \<Rightarrow> eaddr option \<Rightarrow> wpa_world \<Rightarrow> int \<times> wpa_world" where
  "wpa_auth_sta_clear_pmksa i entry w =
     (case w_sm w i of
        None \<Rightarrow> (-1, w)
      | Some s \<Rightarrow> if sm_pmksa s \<noteq> entry then (-1, w) else (0, set_sta i (\<lambda>s. s\<lparr>sm_pmksa := None\<rparr>) w))"

section \<open>The authenticator as a machine\<close>

text \<open>The calls of hostapd and the time outs. A station is given by its state machine; the event loop
  runs one of them to its end before the next.\<close>

datatype 'e wpa_input =
    In_sta_init "nat option" macaddr
  | In_validate pmksa_mem "rsn_pmksa_cache list" "rsn_pmksa_cache list" nat "bytes option"
  | In_associated nat
  | In_no_wpa nat
  | In_deinit nat
  | In_receive nat bytes
  | In_event nat wpa_event
  | In_send_eapol_timeout nat
  | In_call_step nat
  | In_notify nat
  | In_rekey_ptk nat
  | In_rekey_gtk
  | In_rekey_gmk
  | In_mic_failure "nat option"
  | In_countermeasures_stop
  | In_reconfig bool wpa_auth_config
  | In_set_vlan bool nat int
  | In_pmksa_add pmksa_mem int nat bytes int "('e eapol_state_machine \<times> int) option"
  | In_pmksa_add_preauth pmksa_mem int bytes macaddr int "('e eapol_state_machine \<times> int) option"
  | In_pmksa_expire int
  | In_clear_pmksa nat "eaddr option"

text \<open>\<open>n\<close> is the fuel of the loops; \<^term>\<open>None\<close> is a call that does not return.\<close>

fun wpa_step :: "wpa_env \<Rightarrow> nat \<Rightarrow> 'e wpa_input \<Rightarrow> wpa_world \<Rightarrow> wpa_world option" where
  "wpa_step E n (In_sta_init mem da) w = Some (wpa_auth_sta_init mem da w)"
| "wpa_step E n (In_validate mem before after i ie) w =
     map_option snd (wpa_validate_wpa_ie E mem before after i ie w)"
| "wpa_step E n (In_associated i) w = Some (wpa_auth_sta_associated E n i w)"
| "wpa_step E n (In_no_wpa i) w = Some (wpa_auth_sta_no_wpa i w)"
| "wpa_step E n (In_deinit i) w = Some (wpa_auth_sta_deinit i w)"
| "wpa_step E n (In_receive i data) w = Some (wpa_receive E n i data w)"
| "wpa_step E n (In_event i event) w = Some (wpa_auth_sm_event E n i event w)"
| "wpa_step E n (In_send_eapol_timeout i) w = Some (wpa_send_eapol_timeout E n i w)"
| "wpa_step E n (In_call_step i) w = Some (wpa_sm_step E n i w)"
| "wpa_step E n (In_notify i) w = Some (wpa_auth_sm_notify i w)"
| "wpa_step E n (In_rekey_ptk i) w = Some (wpa_rekey_ptk E n i w)"
| "wpa_step E n In_rekey_gtk w = Some (wpa_rekey_gtk E n w)"
| "wpa_step E n In_rekey_gmk w = Some (wpa_rekey_gmk E w)"
| "wpa_step E n (In_mic_failure i) w = Some (michael_mic_failure E (Some i) w)"
| "wpa_step E n In_countermeasures_stop w = Some (ieee80211_tkip_countermeasures_stop w)"
| "wpa_step E n (In_reconfig ok wconf) w = Some (wpa_reconfig E ok n wconf w)"
| "wpa_step E n (In_set_vlan ok i vid) w = Some (wpa_auth_sta_set_vlan E ok i vid w)"
| "wpa_step E n (In_pmksa_add mem now i pmk timeout eapol) w = Some (wpa_auth_pmksa_add E mem now i pmk timeout eapol w)"
| "wpa_step E n (In_pmksa_add_preauth mem now pmk spa timeout eapol) w =
     Some (wpa_auth_pmksa_add_preauth E mem now pmk spa timeout eapol w)"
| "wpa_step E n (In_pmksa_expire now) w = Some (pmksa_expire_timeout now w)"
| "wpa_step E n (In_clear_pmksa i entry) w = Some (snd (wpa_auth_sta_clear_pmksa i entry w))"

end
