(* ===== verification/Wpa_Auth_Lemmas.thy ===== *)
theory Wpa_Auth_Lemmas
  imports Wpa_Auth_Events
begin

text \<open>
  What the entry actions of the machines of a station do to the station, its group and the trace. The
  parts that no proof looks into (the slots of the replay counters after a frame, the random data)
  are kept closed by \<open>sm_of\<close> and \<open>gr_of\<close>, so that the equations below rewrite every state after
  an action to an update of the state before.
\<close>

definition sm_of :: "(wpa_ctx \<Rightarrow> wpa_ctx) \<Rightarrow> wpa_ctx \<Rightarrow> wpa_state_machine" where "sm_of f c = cx_sm (f c)"
definition gr_of :: "(wpa_ctx \<Rightarrow> wpa_ctx) \<Rightarrow> wpa_ctx \<Rightarrow> wpa_group" where "gr_of f c = cx_gr (f c)"

text \<open>The calls that open the port: \<^verbatim>\<open>portValid\<close> or \<^verbatim>\<open>authorized\<close> set.\<close>

definition opens :: "wpa_act \<Rightarrow> bool" where
  "opens a \<longleftrightarrow> (\<exists>da. a = A_set_eapol da WPA_EAPOL_portValid True \<or> a = A_set_eapol da WPA_EAPOL_authorized True)"

definition opened :: "wpa_act list \<Rightarrow> wpa_act list" where "opened tr = filter opens tr"

lemma opened_append [simp]: "opened (xs @ ys) = opened xs @ opened ys"
  by (simp add: opened_def)

lemma opened_simps [simp]: "opened [] = []" "opened (a # as) = (if opens a then a # opened as else opened as)"
  by (simp_all add: opened_def)

lemma opens_simps [simp]:
  "opens (A_set_eapol da v b) \<longleftrightarrow> b \<and> (v = WPA_EAPOL_portValid \<or> v = WPA_EAPOL_authorized)"
  "\<not> opens (A_disconnect da)" "\<not> opens (A_mic_failure da)" "\<not> opens (A_countermeasures b)"
  "\<not> opens (A_drv_deauth da)" "\<not> opens (A_set_unauthorized da)" "\<not> opens (A_drv_remove da)"
  "\<not> opens (A_set_key vl alg da k key)" "\<not> opens (A_send_eapol da frame b)"
  "\<not> opens (A_register t ms)" "\<not> opens (A_cancel t)" "\<not> opens A_malloc" "\<not> opens (A_random n)"
  "\<not> opens (A_add_randomness bs)" "\<not> opens A_mark_pool_ready"
  by (auto simp: opens_def)

section \<open>Helpers\<close>

lemma ctx_simps [simp]:
  "cx_sm (upd_s f c) = f (cx_sm c)" "cx_gr (upd_s f c) = cx_gr c" "cx_au (upd_s f c) = cx_au c" "cx_tr (upd_s f c) = cx_tr c"
  "cx_sm (upd_g h c) = cx_sm c" "cx_gr (upd_g h c) = h (cx_gr c)" "cx_au (upd_g h c) = cx_au c" "cx_tr (upd_g h c) = cx_tr c"
  "cx_sm (act a c) = cx_sm c" "cx_gr (act a c) = cx_gr c" "cx_au (act a c) = cx_au c" "cx_tr (act a c) = cx_tr c @ [a]"
  by (simp_all add: upd_s_def upd_g_def act_def)

lemma callback_simps [simp]:
  "cx_sm (wpa_auth_set_eapol v b c) = cx_sm c" "cx_gr (wpa_auth_set_eapol v b c) = cx_gr c"
  "cx_au (wpa_auth_set_eapol v b c) = cx_au c"
  "cx_tr (wpa_auth_set_eapol v b c) = cx_tr c @ [A_set_eapol (sm_addr (cx_sm c)) v b]"
  "cx_sm (wpa_sta_disconnect c) = cx_sm c" "cx_gr (wpa_sta_disconnect c) = cx_gr c"
  "cx_au (wpa_sta_disconnect c) = cx_au c" "cx_tr (wpa_sta_disconnect c) = cx_tr c @ [A_disconnect (sm_addr (cx_sm c))]"
  by (simp_all add: wpa_auth_set_eapol_def wpa_sta_disconnect_def)

lemma os_malloc_eq: "os_malloc E c = (E_malloc E (cx_tr c @ [A_malloc]), act A_malloc c)"
  by (simp add: os_malloc_def)

lemma random_get_bytes_eq:
  "random_get_bytes E n tr = (fst (E_random E (tr @ [A_random n]) n), snd (E_random E (tr @ [A_random n]) n), tr @ [A_random n])"
  by (simp add: random_get_bytes_def Let_def split: prod.split)

lemma set_key_eq: "wpa_auth_set_key E vl alg da k key tr =
    (E_set_key E (tr @ [A_set_key vl alg da k key]), tr @ [A_set_key vl alg da k key])"
  by (simp add: wpa_auth_set_key_def Let_def)

lemmas callback_defs = os_malloc_eq set_key_eq

section \<open>Sending a frame\<close>

text \<open>What sending leaves behind.\<close>

definition counted :: "wpa_group \<Rightarrow> wpa_group \<Rightarrow> bool" where
  "counted g g' \<longleftrightarrow> (\<exists>ctr \<in> {g_Counter g, inc_byte_array (g_Counter g)}. g' = g\<lparr>g_Counter := ctr\<rparr>)"

definition sent :: "wpa_ctx \<Rightarrow> wpa_ctx \<Rightarrow> bool" where
  "sent c c' \<longleftrightarrow>
     (\<exists>r \<in> {sm_key_replay (cx_sm c), next_key_replay (sm_key_replay (cx_sm c))}. cx_sm c' = (cx_sm c)\<lparr>sm_key_replay := r\<rparr>) \<and>
     counted (cx_gr c) (cx_gr c') \<and> cx_au c' = cx_au c \<and> opened (cx_tr c') = opened (cx_tr c)"

lemma counter_self [simp]: "counted g g"
  by (simp add: counted_def)

lemma counter_back: "counted g g' \<Longrightarrow> g' = g\<lparr>g_Counter := g_Counter g'\<rparr> \<and> g_Counter g' \<in> {g_Counter g, inc_byte_array (g_Counter g)}"
  unfolding counted_def by (elim bexE) simp

lemma replay_back: "s' = s\<lparr>sm_key_replay := r\<rparr> \<Longrightarrow> s' = s\<lparr>sm_key_replay := sm_key_replay s'\<rparr> \<and> sm_key_replay s' = r"
  by (erule ssubst) simp

lemma sent_refl: "sent c c"
  unfolding sent_def
  by (rule conjI, rule bexI[of _ "sm_key_replay (cx_sm c)"]) (simp_all add: counter_self)

lemma sent_quiet: "sent c c' \<Longrightarrow> \<not> opens a \<Longrightarrow> sent c (act a c')"
  by (simp add: sent_def)

lemma sent_if:
  assumes "sent c c2"
  shows "sent c (if P then c2 else act (A_send_eapol da frame b)
    (wpa_auth_set_eapol WPA_EAPOL_inc_EapolFramesTx True c2))"
  using assms by (simp add: sent_def)

lemma protect_key_data_effect:
  "cx_sm (snd (protect_key_data E v kde c)) = cx_sm c" "cx_au (snd (protect_key_data E v kde c)) = cx_au c"
  "opened (cx_tr (snd (protect_key_data E v kde c))) = opened (cx_tr c)"
  "counted (cx_gr c) (cx_gr (snd (protect_key_data E v kde c)))"
proof -
  show "counted (cx_gr c) (cx_gr (snd (protect_key_data E v kde c)))"
    unfolding protect_key_data_def callback_defs Let_def prod.case
    by (cases "E_malloc E (cx_tr c @ [A_malloc]) \<and> v \<noteq> WPA_KEY_INFO_TYPE_HMAC_SHA1_AES")
       (force simp: counted_def, auto split: option.split)
qed (simp_all add: protect_key_data_def callback_defs Let_def split: option.split)

lemma send_frame_sent: "sent c (wpa_send_frame E ki rsc nonce kde k encr c)"
proof (cases "E_malloc E (cx_tr c @ [A_malloc])")
  case False
  then show ?thesis using sent_quiet[OF sent_refl, of A_malloc c]
    by (simp add: wpa_send_frame_def callback_defs Let_def)
next
  case True
  define v where "v = (if sm_pairwise (cx_sm c) = WPA_CIPHER_CCMP then WPA_KEY_INFO_TYPE_HMAC_SHA1_AES else WPA_KEY_INFO_TYPE_HMAC_MD5_RC4)"
  define c1 where "c1 = upd_s (\<lambda>s. s\<lparr>sm_key_replay := next_key_replay (sm_key_replay s)\<rparr>) (act A_malloc c)"
  define p where "p = (if encr then protect_key_data E v kde c1 else (Some (kde, replicate 16 0), c1))"
  have p2: "sent c (snd p)"
  proof (cases encr)
    case True
    then show ?thesis using protect_key_data_effect[where E = E and v = v and kde = kde and c = c1] by (auto simp: sent_def p_def c1_def)
  next
    case False
    then show ?thesis by (simp add: sent_def p_def c1_def counter_self)
  qed
  obtain d c2 where p: "p = (d, c2)" by (cases p)
  have c2: "sent c c2" using p2 p by simp
  show ?thesis
    using True unfolding wpa_send_frame_def Let_def callback_defs prod.case v_def[symmetric] c1_def[symmetric]
      p_def[symmetric] p
    by (cases d) (auto simp only: prod.case option.case not_True_eq_False if_False intro: c2 sent_if)
qed

lemma send_eapol_sent: "sent c (wpa_send_eapol E ki rsc nonce kde k encr c)"
  using sent_quiet[OF send_frame_sent, of "A_register t ms" for t ms] by (simp add: wpa_send_eapol_def Let_def)

lemma sent_back:
  assumes "sent c c'"
  shows "cx_sm c' = (cx_sm c)\<lparr>sm_key_replay := sm_key_replay (cx_sm c')\<rparr>"
    "cx_gr c' = (cx_gr c)\<lparr>g_Counter := g_Counter (cx_gr c')\<rparr>" "cx_au c' = cx_au c" "opened (cx_tr c') = opened (cx_tr c)"
    "sm_key_replay (cx_sm c') \<in> {sm_key_replay (cx_sm c), next_key_replay (sm_key_replay (cx_sm c))}"
    "g_Counter (cx_gr c') \<in> {g_Counter (cx_gr c), inc_byte_array (g_Counter (cx_gr c))}"
proof -
  obtain r where r: "r \<in> {sm_key_replay (cx_sm c), next_key_replay (sm_key_replay (cx_sm c))}"
    and s: "cx_sm c' = (cx_sm c)\<lparr>sm_key_replay := r\<rparr>" and g: "counted (cx_gr c) (cx_gr c')"
    using assms unfolding sent_def by blast
  show "cx_sm c' = (cx_sm c)\<lparr>sm_key_replay := sm_key_replay (cx_sm c')\<rparr>"
    "sm_key_replay (cx_sm c') \<in> {sm_key_replay (cx_sm c), next_key_replay (sm_key_replay (cx_sm c))}"
    using replay_back[OF s] r by (blast, metis)
  show "cx_gr c' = (cx_gr c)\<lparr>g_Counter := g_Counter (cx_gr c')\<rparr>"
    "g_Counter (cx_gr c') \<in> {g_Counter (cx_gr c), inc_byte_array (g_Counter (cx_gr c))}"
    using counter_back[OF g] by (rule conjunct1, rule conjunct2)
  show "cx_au c' = cx_au c" "opened (cx_tr c') = opened (cx_tr c)" using assms unfolding sent_def by blast+
qed

lemma send_eapol_simps [simp]:
  "cx_sm (wpa_send_eapol E ki rsc nonce kde k encr c) =
     (cx_sm c)\<lparr>sm_key_replay := sm_key_replay (sm_of (wpa_send_eapol E ki rsc nonce kde k encr) c)\<rparr>"
  "cx_gr (wpa_send_eapol E ki rsc nonce kde k encr c) =
     (cx_gr c)\<lparr>g_Counter := g_Counter (gr_of (wpa_send_eapol E ki rsc nonce kde k encr) c)\<rparr>"
  "cx_au (wpa_send_eapol E ki rsc nonce kde k encr c) = cx_au c"
  "opened (cx_tr (wpa_send_eapol E ki rsc nonce kde k encr c)) = opened (cx_tr c)"
  unfolding sm_of_def gr_of_def by (rule sent_back[OF send_eapol_sent])+

lemma replay_of_send:
  "sm_key_replay (sm_of (wpa_send_eapol E ki rsc nonce kde k encr) c)
     \<in> {sm_key_replay (cx_sm c), next_key_replay (sm_key_replay (cx_sm c))}"
  unfolding sm_of_def by (rule sent_back[OF send_eapol_sent])

lemma counter_of_send:
  "g_Counter (gr_of (wpa_send_eapol E ki rsc nonce kde k encr) c) \<in> {g_Counter (cx_gr c), inc_byte_array (g_Counter (cx_gr c))}"
  unfolding gr_of_def by (rule sent_back[OF send_eapol_sent])

section \<open>Group keys\<close>

text \<open>The control part of a group: what the machines look at.\<close>

definition g_core :: "wpa_group \<Rightarrow> int \<times> bool \<times> int \<times> bool \<times> bool \<times> wpa_group_st \<times> bool" where
  "g_core g = (g_vlan_id g, g_GInit g, g_GKeyDoneStations g, g_GTKReKey g, g_GTKAuthenticator g, g_state g, g_changed g)"

lemma init_gmk_core:
  "g_core (fst (snd (wpa_group_init_gmk_and_counter E au g tr))) = g_core g"
  "opened (snd (snd (wpa_group_init_gmk_and_counter E au g tr))) = opened tr"
  by (simp_all add: wpa_group_init_gmk_and_counter_def random_get_bytes_eq Let_def g_core_def split: option.split)

lemma gtk_update_core:
  "g_core (fst (snd (wpa_gtk_update E au g tr))) = g_core g"
  "opened (snd (snd (wpa_gtk_update E au g tr))) = opened tr"
  by (simp_all add: wpa_gtk_update_def wpa_gmk_to_gtk_def random_get_bytes_eq Let_def g_core_def split: option.split)

lemma config_group_keys_opened: "opened (snd (wpa_group_config_group_keys E au g tr)) = opened tr"
  by (simp add: wpa_group_config_group_keys_def callback_defs)

lemma first_station_after:
  "cx_sm (wpa_group_first_station E c) = cx_sm c" "cx_au (wpa_group_first_station E c) = cx_au c"
  "g_core (cx_gr (wpa_group_first_station E c)) = g_core (cx_gr c)"
  "opened (cx_tr (wpa_group_first_station E c)) = opened (cx_tr c)"
  using init_gmk_core[of E "cx_au c" "if E_pool_ready E (cx_tr c) then cx_gr c else (cx_gr c)\<lparr>g_reject_4way_hs_for_entropy := True\<rparr>" "cx_tr c"]
    gtk_update_core config_group_keys_opened
  by (simp_all add: wpa_group_first_station_def Let_def case_prod_beta) (auto simp: g_core_def split: if_splits)

section \<open>The pairwise key machine\<close>

lemmas entry_defs = ptk_entry_def ptk_group_entry_def group_update_done_def wpa_remove_ptk_def callback_defs Let_def

lemma remove_ptk_after:
  "cx_sm (wpa_remove_ptk E c) = (cx_sm c)\<lparr>sm_PTK_valid := False, sm_PTK := zero_ptk, sm_pairwise_set := False\<rparr>"
  "cx_gr (wpa_remove_ptk E c) = cx_gr c" "cx_au (wpa_remove_ptk E c) = cx_au c"
  "opened (cx_tr (wpa_remove_ptk E c)) = opened (cx_tr c)"
  by (simp_all add: wpa_remove_ptk_def Let_def callback_defs)

lemma INITIALIZE_sm:
  "cx_sm (sm_WPA_PTK_INITIALIZE E c) = (cx_sm c)\<lparr>sm_changed := \<not> sm_Init (cx_sm c), sm_ptk_state := WPA_PTK_INITIALIZE,
     sm_keycount := 0, sm_GUpdateStationKeys := False,
     sm_PInitAKeys := sm_PInitAKeys (cx_sm c) \<and> sm_wpa (cx_sm c) \<noteq> WPA_VERSION_WPA, sm_Pair := True,
     sm_PTK_valid := False, sm_PTK := zero_ptk, sm_pairwise_set := False, sm_TimeoutCtr := 0\<rparr>"
  by (rule wpa_state_machine.equality) (simp_all add: sm_WPA_PTK_INITIALIZE_def ptk_entry_def group_update_done_def remove_ptk_after Let_def)

lemma INITIALIZE_rest:
  "cx_gr (sm_WPA_PTK_INITIALIZE E c) = (if sm_GUpdateStationKeys (cx_sm c)
     then (cx_gr c)\<lparr>g_GKeyDoneStations := g_GKeyDoneStations (cx_gr c) - 1\<rparr> else cx_gr c)"
  "cx_au (sm_WPA_PTK_INITIALIZE E c) = cx_au c"
  "opened (cx_tr (sm_WPA_PTK_INITIALIZE E c)) = opened (cx_tr c)"
  by (simp_all add: sm_WPA_PTK_INITIALIZE_def ptk_entry_def group_update_done_def remove_ptk_after Let_def)

lemma DISCONNECT_after:
  "cx_sm (sm_WPA_PTK_DISCONNECT c) = (cx_sm c)\<lparr>sm_changed := True, sm_ptk_state := WPA_PTK_DISCONNECT, sm_Disconnect := False\<rparr>"
  "cx_gr (sm_WPA_PTK_DISCONNECT c) = cx_gr c" "cx_au (sm_WPA_PTK_DISCONNECT c) = cx_au c"
  "opened (cx_tr (sm_WPA_PTK_DISCONNECT c)) = opened (cx_tr c)"
  by (simp_all add: sm_WPA_PTK_DISCONNECT_def ptk_entry_def)

lemma DISCONNECTED_after:
  "cx_sm (sm_WPA_PTK_DISCONNECTED c) =
     (cx_sm c)\<lparr>sm_changed := True, sm_ptk_state := WPA_PTK_DISCONNECTED, sm_DeauthenticationRequest := False\<rparr>"
  "cx_gr (sm_WPA_PTK_DISCONNECTED c) = cx_gr c" "cx_au (sm_WPA_PTK_DISCONNECTED c) = cx_au c"
  "opened (cx_tr (sm_WPA_PTK_DISCONNECTED c)) = opened (cx_tr c)"
  by (simp_all add: sm_WPA_PTK_DISCONNECTED_def ptk_entry_def)

lemma AUTHENTICATION_after:
  "cx_sm (sm_WPA_PTK_AUTHENTICATION c) = (cx_sm c)\<lparr>sm_changed := True, sm_ptk_state := WPA_PTK_AUTHENTICATION,
     sm_PTK := zero_ptk, sm_PTK_valid := False, sm_AuthenticationRequest := False\<rparr>"
  "cx_gr (sm_WPA_PTK_AUTHENTICATION c) = cx_gr c" "cx_au (sm_WPA_PTK_AUTHENTICATION c) = cx_au c"
  "opened (cx_tr (sm_WPA_PTK_AUTHENTICATION c)) = opened (cx_tr c)"
  by (simp_all add: sm_WPA_PTK_AUTHENTICATION_def ptk_entry_def Let_def)

lemma AUTHENTICATION2_after:
  "cx_sm (sm_WPA_PTK_AUTHENTICATION2 E c) = (cx_sm c)\<lparr>sm_changed := True, sm_ptk_state := WPA_PTK_AUTHENTICATION2,
     sm_ANonce := sm_ANonce (sm_of (sm_WPA_PTK_AUTHENTICATION2 E) c), sm_ReAuthenticationRequest := False, sm_TimeoutCtr := 0\<rparr>"
  "g_core (cx_gr (sm_WPA_PTK_AUTHENTICATION2 E c)) = g_core (cx_gr c)"
  "cx_au (sm_WPA_PTK_AUTHENTICATION2 E c) = cx_au c"
  "opened (cx_tr (sm_WPA_PTK_AUTHENTICATION2 E c)) = opened (cx_tr c)"
proof -
  show "cx_sm (sm_WPA_PTK_AUTHENTICATION2 E c) = (cx_sm c)\<lparr>sm_changed := True, sm_ptk_state := WPA_PTK_AUTHENTICATION2,
     sm_ANonce := sm_ANonce (sm_of (sm_WPA_PTK_AUTHENTICATION2 E) c), sm_ReAuthenticationRequest := False, sm_TimeoutCtr := 0\<rparr>"
    unfolding sm_of_def by (simp add: sm_WPA_PTK_AUTHENTICATION2_def ptk_entry_def Let_def first_station_after)
qed (use first_station_after(3)[of E "ptk_entry WPA_PTK_AUTHENTICATION2 c"] in
  \<open>simp_all add: sm_WPA_PTK_AUTHENTICATION2_def ptk_entry_def Let_def first_station_after g_core_def\<close>)

lemma INITPMK_after:
  "cx_sm (sm_WPA_PTK_INITPMK E c) = (cx_sm c)\<lparr>sm_changed := True, sm_ptk_state := WPA_PTK_INITPMK,
     sm_PMK := sm_PMK (sm_of (sm_WPA_PTK_INITPMK E) c), sm_req_replay_counter_used := False\<rparr>"
  "cx_gr (sm_WPA_PTK_INITPMK E c) = cx_gr c" "cx_au (sm_WPA_PTK_INITPMK E c) = cx_au c"
  "opened (cx_tr (sm_WPA_PTK_INITPMK E c)) = opened (cx_tr c)"
  unfolding sm_of_def by (simp_all add: sm_WPA_PTK_INITPMK_def ptk_entry_def Let_def split: option.split)

lemma INITPSK_after:
  "cx_sm (sm_WPA_PTK_INITPSK E c) = (cx_sm c)\<lparr>sm_changed := True, sm_ptk_state := WPA_PTK_INITPSK,
     sm_PMK := sm_PMK (sm_of (sm_WPA_PTK_INITPSK E) c), sm_req_replay_counter_used := False\<rparr>"
  "cx_gr (sm_WPA_PTK_INITPSK E c) = cx_gr c" "cx_au (sm_WPA_PTK_INITPSK E c) = cx_au c"
  "opened (cx_tr (sm_WPA_PTK_INITPSK E c)) = opened (cx_tr c)"
  unfolding sm_of_def by (simp_all add: sm_WPA_PTK_INITPSK_def ptk_entry_def Let_def split: list.split)

lemma PTKSTART_after:
  "cx_sm (sm_WPA_PTK_PTKSTART E c) = (cx_sm c)\<lparr>sm_changed := True, sm_ptk_state := WPA_PTK_PTKSTART,
     sm_PTKRequest := False, sm_TimeoutEvt := False, sm_TimeoutCtr := sm_TimeoutCtr (cx_sm c) + 1,
     sm_key_replay := sm_key_replay (sm_of (sm_WPA_PTK_PTKSTART E) c)\<rparr>"
  "g_core (cx_gr (sm_WPA_PTK_PTKSTART E c)) = g_core (cx_gr c)" "cx_au (sm_WPA_PTK_PTKSTART E c) = cx_au c"
  "opened (cx_tr (sm_WPA_PTK_PTKSTART E c)) = opened (cx_tr c)"
  unfolding sm_of_def by (simp_all add: sm_WPA_PTK_PTKSTART_def ptk_entry_def Let_def g_core_def)

lemma PTKCALC_after:
  "cx_sm (sm_WPA_PTK_PTKCALCNEGOTIATING E c) = (cx_sm c)\<lparr>sm_changed := True, sm_ptk_state := WPA_PTK_PTKCALCNEGOTIATING,
     sm_EAPOLKeyReceived := False, sm_PMK := sm_PMK (sm_of (sm_WPA_PTK_PTKCALCNEGOTIATING E) c),
     sm_MICVerified := sm_MICVerified (sm_of (sm_WPA_PTK_PTKCALCNEGOTIATING E) c),
     sm_PTK := sm_PTK (sm_of (sm_WPA_PTK_PTKCALCNEGOTIATING E) c),
     sm_PTK_valid := sm_PTK_valid (sm_of (sm_WPA_PTK_PTKCALCNEGOTIATING E) c)\<rparr>"
  "cx_gr (sm_WPA_PTK_PTKCALCNEGOTIATING E c) = cx_gr c" "cx_au (sm_WPA_PTK_PTKCALCNEGOTIATING E c) = cx_au c"
  "opened (cx_tr (sm_WPA_PTK_PTKCALCNEGOTIATING E c)) = opened (cx_tr c)"
  unfolding sm_of_def by (simp_all add: sm_WPA_PTK_PTKCALCNEGOTIATING_def ptk_entry_def Let_def split: option.split)

text \<open>After message 2/4 the flags are as before, or a key was found that explains the MIC.\<close>

lemma PTKCALC_mic:
  fixes E c
  shows "(sm_MICVerified (sm_of (sm_WPA_PTK_PTKCALCNEGOTIATING E) c) = sm_MICVerified (cx_sm c) \<and>
      sm_PTK_valid (sm_of (sm_WPA_PTK_PTKCALCNEGOTIATING E) c) = sm_PTK_valid (cx_sm c)) \<or>
    (sm_MICVerified (sm_of (sm_WPA_PTK_PTKCALCNEGOTIATING E) c) \<and> sm_PTK_valid (sm_of (sm_WPA_PTK_PTKCALCNEGOTIATING E) c))"
  unfolding sm_of_def by (simp add: sm_WPA_PTK_PTKCALCNEGOTIATING_def ptk_entry_def Let_def split: option.split)

lemma PTKCALC2_after:
  "cx_sm (sm_WPA_PTK_PTKCALCNEGOTIATING2 c) =
     (cx_sm c)\<lparr>sm_changed := True, sm_ptk_state := WPA_PTK_PTKCALCNEGOTIATING2, sm_TimeoutCtr := 0\<rparr>"
  "cx_gr (sm_WPA_PTK_PTKCALCNEGOTIATING2 c) = cx_gr c" "cx_au (sm_WPA_PTK_PTKCALCNEGOTIATING2 c) = cx_au c"
  "opened (cx_tr (sm_WPA_PTK_PTKCALCNEGOTIATING2 c)) = opened (cx_tr c)"
  by (simp_all add: sm_WPA_PTK_PTKCALCNEGOTIATING2_def ptk_entry_def)

lemma PTKINITNEG_after:
  "cx_sm (sm_WPA_PTK_PTKINITNEGOTIATING E c) = (cx_sm c)\<lparr>sm_changed := True, sm_ptk_state := WPA_PTK_PTKINITNEGOTIATING,
     sm_TimeoutEvt := False, sm_TimeoutCtr := sm_TimeoutCtr (cx_sm c) + 1,
     sm_key_replay := sm_key_replay (sm_of (sm_WPA_PTK_PTKINITNEGOTIATING E) c)\<rparr>"
  "g_core (cx_gr (sm_WPA_PTK_PTKINITNEGOTIATING E c)) = g_core (cx_gr c)" "cx_au (sm_WPA_PTK_PTKINITNEGOTIATING E c) = cx_au c"
  "opened (cx_tr (sm_WPA_PTK_PTKINITNEGOTIATING E c)) = opened (cx_tr c)"
  unfolding sm_of_def
  by (simp_all add: sm_WPA_PTK_PTKINITNEGOTIATING_def ptk_entry_def Let_def callback_defs g_core_def)

lemma PTKINITDONE_after:
  "cx_sm (sm_WPA_PTK_PTKINITDONE E c) = (cx_sm c)\<lparr>sm_changed := True, sm_ptk_state := WPA_PTK_PTKINITDONE,
     sm_EAPOLKeyReceived := False, sm_pairwise_set := sm_pairwise_set (sm_of (sm_WPA_PTK_PTKINITDONE E) c),
     sm_PInitAKeys := sm_PInitAKeys (sm_of (sm_WPA_PTK_PTKINITDONE E) c),
     sm_has_GTK := sm_has_GTK (sm_of (sm_WPA_PTK_PTKINITDONE E) c)\<rparr>"
  "cx_gr (sm_WPA_PTK_PTKINITDONE E c) = cx_gr c" "cx_au (sm_WPA_PTK_PTKINITDONE E c) = cx_au c"
  unfolding sm_of_def by (simp_all add: sm_WPA_PTK_PTKINITDONE_def ptk_entry_def Let_def callback_defs)

lemma count_4way_failure_after [simp]:
  "cx_sm (count_4way_failure c) = cx_sm c" "cx_gr (count_4way_failure c) = cx_gr c" "cx_tr (count_4way_failure c) = cx_tr c"
  "a_conf (cx_au (count_4way_failure c)) = a_conf (cx_au c)" "a_pmksa (cx_au (count_4way_failure c)) = a_pmksa (cx_au c)"
  by (simp_all add: count_4way_failure_def)

lemmas ptk_after =
  INITIALIZE_sm INITIALIZE_rest DISCONNECT_after DISCONNECTED_after AUTHENTICATION_after AUTHENTICATION2_after
  INITPMK_after INITPSK_after PTKSTART_after PTKCALC_after PTKCALC2_after PTKINITNEG_after PTKINITDONE_after

section \<open>The group key handshake of a station\<close>

lemma GROUP_IDLE_after:
  "cx_sm (sm_WPA_PTK_GROUP_IDLE c) =
     (cx_sm c)\<lparr>sm_changed := \<not> sm_Init (cx_sm c), sm_ptk_group_state := WPA_PTK_GROUP_IDLE, sm_GTimeoutCtr := 0\<rparr>"
  "cx_gr (sm_WPA_PTK_GROUP_IDLE c) = cx_gr c" "cx_au (sm_WPA_PTK_GROUP_IDLE c) = cx_au c"
  "opened (cx_tr (sm_WPA_PTK_GROUP_IDLE c)) = opened (cx_tr c)"
  by (simp_all add: sm_WPA_PTK_GROUP_IDLE_def ptk_group_entry_def Let_def)

lemma GROUP_REKEYNEG_after:
  "cx_sm (sm_WPA_PTK_GROUP_REKEYNEGOTIATING E c) = (cx_sm c)\<lparr>sm_changed := True, sm_ptk_group_state := WPA_PTK_GROUP_REKEYNEGOTIATING,
     sm_GTimeoutCtr := sm_GTimeoutCtr (cx_sm c) + 1,
     sm_PInitAKeys := sm_PInitAKeys (cx_sm c) \<and> (sm_wpa (cx_sm c) \<noteq> WPA_VERSION_WPA \<or> sm_GTimeoutCtr (cx_sm c) \<ge> 4),
     sm_TimeoutEvt := sm_TimeoutEvt (cx_sm c) \<and> sm_GTimeoutCtr (cx_sm c) \<ge> 4,
     sm_key_replay := sm_key_replay (sm_of (sm_WPA_PTK_GROUP_REKEYNEGOTIATING E) c)\<rparr>"
  "g_core (cx_gr (sm_WPA_PTK_GROUP_REKEYNEGOTIATING E c)) = g_core (cx_gr c)"
  "cx_au (sm_WPA_PTK_GROUP_REKEYNEGOTIATING E c) = cx_au c"
  "opened (cx_tr (sm_WPA_PTK_GROUP_REKEYNEGOTIATING E c)) = opened (cx_tr c)"
  unfolding sm_of_def
  by (simp_all add: sm_WPA_PTK_GROUP_REKEYNEGOTIATING_def ptk_group_entry_def Let_def callback_defs g_core_def
      dot11RSNAConfigGroupUpdateCount_def)

lemma GROUP_REKEYEST_after:
  "cx_sm (sm_WPA_PTK_GROUP_REKEYESTABLISHED c) = (cx_sm c)\<lparr>sm_changed := True,
     sm_ptk_group_state := WPA_PTK_GROUP_REKEYESTABLISHED, sm_EAPOLKeyReceived := False, sm_GUpdateStationKeys := False,
     sm_GTimeoutCtr := 0, sm_has_GTK := True\<rparr>"
  "cx_gr (sm_WPA_PTK_GROUP_REKEYESTABLISHED c) = (if sm_GUpdateStationKeys (cx_sm c)
     then (cx_gr c)\<lparr>g_GKeyDoneStations := g_GKeyDoneStations (cx_gr c) - 1\<rparr> else cx_gr c)"
  "cx_au (sm_WPA_PTK_GROUP_REKEYESTABLISHED c) = cx_au c"
  "opened (cx_tr (sm_WPA_PTK_GROUP_REKEYESTABLISHED c)) = opened (cx_tr c)"
  by (simp_all add: sm_WPA_PTK_GROUP_REKEYESTABLISHED_def ptk_group_entry_def group_update_done_def Let_def)

lemma GROUP_KEYERROR_after:
  "cx_sm (sm_WPA_PTK_GROUP_KEYERROR c) = (cx_sm c)\<lparr>sm_changed := True,
     sm_ptk_group_state := WPA_PTK_GROUP_KEYERROR, sm_GUpdateStationKeys := False, sm_Disconnect := True\<rparr>"
  "cx_gr (sm_WPA_PTK_GROUP_KEYERROR c) = (if sm_GUpdateStationKeys (cx_sm c)
     then (cx_gr c)\<lparr>g_GKeyDoneStations := g_GKeyDoneStations (cx_gr c) - 1\<rparr> else cx_gr c)"
  "cx_au (sm_WPA_PTK_GROUP_KEYERROR c) = cx_au c"
  "opened (cx_tr (sm_WPA_PTK_GROUP_KEYERROR c)) = opened (cx_tr c)"
  by (simp_all add: sm_WPA_PTK_GROUP_KEYERROR_def ptk_group_entry_def group_update_done_def)

lemmas group_after =
  GROUP_IDLE_after GROUP_REKEYNEG_after GROUP_REKEYEST_after GROUP_KEYERROR_after

section \<open>Case analysis of a step\<close>

definition no_request :: "wpa_state_machine \<Rightarrow> bool" where
  "no_request s \<longleftrightarrow> \<not> sm_Init s \<and> \<not> sm_Disconnect s \<and> \<not> sm_DeauthenticationRequest s \<and> \<not> sm_AuthenticationRequest s \<and>
     \<not> sm_ReAuthenticationRequest s \<and> \<not> sm_PTKRequest s"

text \<open>The pairwise machine has nothing to do but wait.\<close>

definition settled :: "wpa_state_machine \<Rightarrow> bool" where
  "settled s \<longleftrightarrow> (sm_Init s \<or> no_request s) \<and> (sm_ptk_state s = WPA_PTK_PTKCALCNEGOTIATING \<longrightarrow> \<not> sm_MICVerified s)"

lemma PTK_Step_cases:
  fixes E c
  assumes "sm_Init (cx_sm c) \<Longrightarrow> P (sm_WPA_PTK_INITIALIZE E c)"
    and "\<not> sm_Init (cx_sm c) \<Longrightarrow> sm_Disconnect (cx_sm c) \<Longrightarrow> P (sm_WPA_PTK_DISCONNECT c)"
    and "\<not> sm_Init (cx_sm c) \<Longrightarrow> sm_DeauthenticationRequest (cx_sm c) \<Longrightarrow> P (sm_WPA_PTK_DISCONNECTED c)"
    and "\<not> sm_Init (cx_sm c) \<Longrightarrow> sm_AuthenticationRequest (cx_sm c) \<Longrightarrow> P (sm_WPA_PTK_AUTHENTICATION c)"
    and "\<not> sm_Init (cx_sm c) \<Longrightarrow> sm_ReAuthenticationRequest (cx_sm c) \<Longrightarrow> P (sm_WPA_PTK_AUTHENTICATION2 E c)"
    and "\<not> sm_Init (cx_sm c) \<Longrightarrow> sm_PTKRequest (cx_sm c) \<Longrightarrow> P (sm_WPA_PTK_PTKSTART E c)"
    and "settled (cx_sm c) \<Longrightarrow> P c"
    and "no_request (cx_sm c) \<Longrightarrow> sm_ptk_state (cx_sm c) = WPA_PTK_DISCONNECT \<Longrightarrow> P (sm_WPA_PTK_DISCONNECTED c)"
    and "no_request (cx_sm c) \<Longrightarrow> sm_ptk_state (cx_sm c) = WPA_PTK_DISCONNECTED \<Longrightarrow> P (sm_WPA_PTK_INITIALIZE E c)"
    and "no_request (cx_sm c) \<Longrightarrow> sm_ptk_state (cx_sm c) = WPA_PTK_AUTHENTICATION \<Longrightarrow> P (sm_WPA_PTK_AUTHENTICATION2 E c)"
    and "no_request (cx_sm c) \<Longrightarrow> sm_ptk_state (cx_sm c) = WPA_PTK_AUTHENTICATION2 \<Longrightarrow> P (sm_WPA_PTK_INITPMK E c)"
    and "no_request (cx_sm c) \<Longrightarrow> sm_ptk_state (cx_sm c) = WPA_PTK_AUTHENTICATION2 \<Longrightarrow> P (sm_WPA_PTK_INITPSK E c)"
    and "no_request (cx_sm c) \<Longrightarrow> sm_ptk_state (cx_sm c) \<in> {WPA_PTK_INITPMK, WPA_PTK_INITPSK} \<Longrightarrow> P (sm_WPA_PTK_PTKSTART E c)"
    and "no_request (cx_sm c) \<Longrightarrow> sm_ptk_state (cx_sm c) \<in> {WPA_PTK_INITPMK, WPA_PTK_INITPSK, WPA_PTK_PTKSTART, WPA_PTK_PTKINITNEGOTIATING}
      \<Longrightarrow> P (sm_WPA_PTK_DISCONNECT (count_4way_failure c))"
    and "no_request (cx_sm c) \<Longrightarrow> sm_ptk_state (cx_sm c) = WPA_PTK_PTKSTART \<or> sm_ptk_state (cx_sm c) = WPA_PTK_PTKCALCNEGOTIATING \<and> \<not> sm_MICVerified (cx_sm c)
      \<Longrightarrow> pairwise_reply (cx_sm c) \<Longrightarrow> P (sm_WPA_PTK_PTKCALCNEGOTIATING E c)"
    and "no_request (cx_sm c) \<Longrightarrow> sm_ptk_state (cx_sm c) = WPA_PTK_PTKSTART \<and> sm_TimeoutCtr (cx_sm c) \<le> 4 \<or> sm_ptk_state (cx_sm c) = WPA_PTK_PTKCALCNEGOTIATING
      \<Longrightarrow> sm_TimeoutEvt (cx_sm c) \<Longrightarrow> P (sm_WPA_PTK_PTKSTART E c)"
    and "no_request (cx_sm c) \<Longrightarrow> sm_ptk_state (cx_sm c) = WPA_PTK_PTKCALCNEGOTIATING \<Longrightarrow> sm_MICVerified (cx_sm c) \<Longrightarrow> P (sm_WPA_PTK_PTKCALCNEGOTIATING2 c)"
    and "no_request (cx_sm c) \<Longrightarrow> sm_ptk_state (cx_sm c) = WPA_PTK_PTKCALCNEGOTIATING2 \<Longrightarrow> P (sm_WPA_PTK_PTKINITNEGOTIATING E c)"
    and "no_request (cx_sm c) \<Longrightarrow> sm_ptk_state (cx_sm c) = WPA_PTK_PTKINITNEGOTIATING \<Longrightarrow> pairwise_reply (cx_sm c) \<Longrightarrow> sm_MICVerified (cx_sm c)
      \<Longrightarrow> P (sm_WPA_PTK_PTKINITDONE E c)"
    and "no_request (cx_sm c) \<Longrightarrow> sm_ptk_state (cx_sm c) = WPA_PTK_PTKINITNEGOTIATING \<Longrightarrow> sm_TimeoutCtr (cx_sm c) \<le> 4 \<Longrightarrow> sm_TimeoutEvt (cx_sm c)
      \<Longrightarrow> P (sm_WPA_PTK_PTKINITNEGOTIATING E c)"
  shows "P (sm_WPA_PTK_Step E c)"
proof (cases "no_request (cx_sm c)")
  case False
  then show ?thesis using assms(1-6) by (auto simp: sm_WPA_PTK_Step_def Let_def no_request_def)
next
  case True
  show ?thesis
    unfolding sm_WPA_PTK_Step_def Let_def
    using True assms(7) assms(8-20)[OF True]
    by (cases "sm_ptk_state (cx_sm c)") (simp_all add: settled_def no_request_def dot11RSNAConfigPairwiseUpdateCount_def)
qed

lemma GROUP_Step_cases:
  fixes E c
  assumes "sm_Init (cx_sm c) \<or> sm_PtkGroupInit (cx_sm c) \<Longrightarrow> P (upd_s (\<lambda>s. s\<lparr>sm_PtkGroupInit := False\<rparr>) (sm_WPA_PTK_GROUP_IDLE c))"
    and "\<not> sm_Init (cx_sm c) \<Longrightarrow> P c"
    and "\<not> sm_Init (cx_sm c) \<Longrightarrow> sm_ptk_group_state (cx_sm c) = WPA_PTK_GROUP_IDLE \<Longrightarrow>
      sm_GUpdateStationKeys (cx_sm c) \<or> sm_wpa (cx_sm c) = WPA_VERSION_WPA \<and> sm_PInitAKeys (cx_sm c) \<Longrightarrow>
      P (sm_WPA_PTK_GROUP_REKEYNEGOTIATING E c)"
    and "\<not> sm_Init (cx_sm c) \<Longrightarrow> sm_ptk_group_state (cx_sm c) = WPA_PTK_GROUP_REKEYNEGOTIATING \<Longrightarrow> sm_EAPOLKeyReceived (cx_sm c) \<Longrightarrow>
      sm_MICVerified (cx_sm c) \<Longrightarrow> P (sm_WPA_PTK_GROUP_REKEYESTABLISHED c)"
    and "\<not> sm_Init (cx_sm c) \<Longrightarrow> sm_ptk_group_state (cx_sm c) = WPA_PTK_GROUP_REKEYNEGOTIATING \<Longrightarrow> P (sm_WPA_PTK_GROUP_KEYERROR c)"
    and "\<not> sm_Init (cx_sm c) \<Longrightarrow> sm_ptk_group_state (cx_sm c) = WPA_PTK_GROUP_REKEYNEGOTIATING \<Longrightarrow> sm_GTimeoutCtr (cx_sm c) \<le> 4 \<Longrightarrow>
      sm_TimeoutEvt (cx_sm c) \<Longrightarrow> P (sm_WPA_PTK_GROUP_REKEYNEGOTIATING E c)"
    and "\<not> sm_Init (cx_sm c) \<Longrightarrow> sm_ptk_group_state (cx_sm c) \<in> {WPA_PTK_GROUP_KEYERROR, WPA_PTK_GROUP_REKEYESTABLISHED} \<Longrightarrow>
      P (sm_WPA_PTK_GROUP_IDLE c)"
  shows "P (sm_WPA_PTK_GROUP_Step E c)"
  using assms unfolding sm_WPA_PTK_GROUP_Step_def Let_def
  by (cases "sm_ptk_group_state (cx_sm c)") (simp_all add: dot11RSNAConfigGroupUpdateCount_def)

end
