(* ===== verification/Wpa_Auth_Lift.thy ===== *)
theory Wpa_Auth_Lift
  imports Wpa_Auth_Lemmas
begin

text \<open>
  From single actions to whole handlers. The interface \<open>station_actions\<close> is a relation between worlds
  that every single action of the machines respects; what follows for the loops of \<^verbatim>\<open>wpa_sm_step\<close> and of
  the group key update is proved once inside it. The instances are in the theories that follow: the
  shape of the world, the weight used for termination, the bounds of the retry counters, the pending
  replay counters, and the calls that open the port.
\<close>

section \<open>The world\<close>

text \<open>The shape of the world between two actions: the stations of the list are those with a state
  machine, each once, their groups exist, no machine is waiting to be freed and no group is being
  initialised.\<close>

definition good :: "wpa_world \<Rightarrow> bool" where
  "good w \<longleftrightarrow> distinct (w_list w) \<and> (\<forall>i. w_sm w i \<noteq> None \<longleftrightarrow> i \<in> set (w_list w)) \<and> w_groups w \<noteq> [] \<and>
     (\<forall>i \<in> set (w_list w). sm_group (sta w i) < length (w_groups w) \<and> \<not> sm_pending_deinit (sta w i)) \<and>
     (\<forall>g \<in> set (w_groups w). \<not> g_GInit g)"

text \<open>What the loops keep.\<close>

definition keeps :: "wpa_world \<Rightarrow> wpa_world \<Rightarrow> bool" where
  "keeps w w' \<longleftrightarrow> w_list w' = w_list w \<and> length (w_groups w') = length (w_groups w) \<and> w_hapd w' = w_hapd w \<and>
     (\<forall>i \<in> set (w_list w). sm_group (sta w' i) = sm_group (sta w i))"

lemma keeps_refl [simp]: "keeps w w" and keeps_trans: "keeps a b \<Longrightarrow> keeps b c \<Longrightarrow> keeps a c"
  by (auto simp: keeps_def)

lemma keeps_list: "keeps w w' \<Longrightarrow> w_list w' = w_list w"
  and keeps_groups: "keeps w w' \<Longrightarrow> length (w_groups w') = length (w_groups w)"
  by (simp_all add: keeps_def)

lemma good_dest:
  "good w \<Longrightarrow> w_groups w \<noteq> []" "good w \<Longrightarrow> distinct (w_list w)"
  "good w \<Longrightarrow> i \<in> set (w_list w) \<Longrightarrow> sm_group (sta w i) < length (w_groups w)"
  "good w \<Longrightarrow> i \<in> set (w_list w) \<Longrightarrow> \<not> sm_pending_deinit (sta w i)"
  "good w \<Longrightarrow> g < length (w_groups w) \<Longrightarrow> \<not> g_GInit (w_groups w ! g)"
  "good w \<Longrightarrow> w_sm w i \<noteq> None \<longleftrightarrow> i \<in> set (w_list w)"
  by (auto simp: good_def)

lemma set_sta_simps [simp]:
  "w_list (set_sta i f w) = w_list w" "w_groups (set_sta i f w) = w_groups w" "w_au (set_sta i f w) = w_au w"
  "w_tr (set_sta i f w) = w_tr w" "w_hapd (set_sta i f w) = w_hapd w" "w_stuck (set_sta i f w) = w_stuck w"
  "sta (set_sta i f w) j = (if j = i then f (sta w i) else sta w j)"
  "w_sm (set_sta i f w) j = None \<longleftrightarrow> j \<noteq> i \<and> w_sm w j = None"
  by (auto simp: set_sta_def sta_def)

lemma set_group_simps [simp]:
  "w_list (set_group g f w) = w_list w" "w_groups (set_group g f w) = (w_groups w)[g := f (w_groups w ! g)]"
  "w_au (set_group g f w) = w_au w" "w_tr (set_group g f w) = w_tr w" "w_hapd (set_group g f w) = w_hapd w"
  "w_stuck (set_group g f w) = w_stuck w" "sta (set_group g f w) j = sta w j" "w_sm (set_group g f w) = w_sm w"
  by (simp_all add: set_group_def sta_def)

lemma on_sta_simps [simp]:
  "w_list (on_sta i f w) = w_list w" "w_groups (on_sta i f w) = (w_groups w)[sm_group (cx_sm (f (load i w))) := cx_gr (f (load i w))]"
  "w_au (on_sta i f w) = cx_au (f (load i w))" "w_tr (on_sta i f w) = cx_tr (f (load i w))" "w_hapd (on_sta i f w) = w_hapd w"
  "w_stuck (on_sta i f w) = w_stuck w" "sta (on_sta i f w) j = (if j = i then cx_sm (f (load i w)) else sta w j)"
  "w_sm (on_sta i f w) j = None \<longleftrightarrow> j \<noteq> i \<and> w_sm w j = None"
  by (auto simp: on_sta_def save_def sta_def)

lemma on_group_simps [simp]:
  "w_list (on_group f g w) = w_list w" "w_au (on_group f g w) = w_au w" "w_hapd (on_group f g w) = w_hapd w"
  "w_groups (on_group f g w) = (w_groups w)[g := fst (f (w_au w) (w_groups w ! g) (w_tr w))]"
  "w_tr (on_group f g w) = snd (f (w_au w) (w_groups w ! g) (w_tr w))"
  "w_stuck (on_group f g w) = w_stuck w" "sta (on_group f g w) j = sta w j" "w_sm (on_group f g w) = w_sm w"
  by (simp_all add: on_group_def sta_def split: prod.split)

lemma load_simps [simp]:
  "cx_sm (load i w) = sta w i" "cx_gr (load i w) = w_groups w ! sm_group (sta w i)" "cx_au (load i w) = w_au w"
  "cx_tr (load i w) = w_tr w"
  by (simp_all add: load_def)

lemma set_list_update_cases: "x \<in> set (xs[i := y]) \<Longrightarrow> x = y \<or> x \<in> set xs"
  using set_update_subset_insert[of xs i y] by auto

text \<open>A new state for a station.\<close>

lemma good_set_sta:
  assumes "good w" "i \<in> set (w_list w)" "sm_group (f (sta w i)) = sm_group (sta w i)"
    "\<not> sm_pending_deinit (f (sta w i))"
  shows "good (set_sta i f w)" "keeps w (set_sta i f w)"
  using assms by (auto simp: good_def keeps_def)

lemma good_set_group:
  assumes "good w" "g < length (w_groups w)" "\<not> g_GInit (f (w_groups w ! g))"
  shows "good (set_group g f w)" "keeps w (set_group g f w)"
  using assms by (auto simp: good_def keeps_def dest!: set_list_update_cases)

lemma good_on_group:
  assumes "good w" "g < length (w_groups w)" "\<not> g_GInit (fst (f (w_au w) (w_groups w ! g) (w_tr w)))"
  shows "good (on_group f g w)" "keeps w (on_group f g w)"
  using assms by (auto simp: good_def keeps_def dest!: set_list_update_cases)

lemma good_on_sta:
  assumes "good w" "i \<in> set (w_list w)" "sm_group (cx_sm (f (load i w))) = sm_group (sta w i)"
    "\<not> sm_pending_deinit (cx_sm (f (load i w)))" "\<not> g_GInit (cx_gr (f (load i w)))"
  shows "good (on_sta i f w)" "keeps w (on_sta i f w)"
  using assms by (auto simp: good_def keeps_def dest!: set_list_update_cases)

section \<open>Single actions\<close>

text \<open>The fields that the machines of a station never change.\<close>

definition sm_fixed :: "wpa_state_machine \<Rightarrow> nat \<times> macaddr \<times> bool \<times> bool \<times> bool \<times> wpa_version \<times> int \<times> int \<times> eaddr option \<times> bytes option" where
  "sm_fixed s = (sm_group s, sm_addr s, sm_in_step_loop s, sm_pending_deinit s, sm_Init s, sm_wpa s, sm_pairwise s,
     sm_wpa_key_mgmt s, sm_pmksa s, sm_wpa_ie s)"

definition g_fixed :: "wpa_group \<Rightarrow> int \<times> bool \<times> bool \<times> bool \<times> wpa_group_st \<times> bool" where
  "g_fixed g = (g_vlan_id g, g_GInit g, g_GTKReKey g, g_GTKAuthenticator g, g_state g, g_changed g)"

definition au_fixed :: "wpa_authenticator \<Rightarrow> wpa_auth_config \<times> macaddr \<times> rsn_pmksa_cache" where
  "au_fixed au = (a_conf au, a_addr au, a_pmksa au)"

lemma g_core_fixed: "g_core g = g_core g' \<Longrightarrow> g_fixed g = g_fixed g' \<and> g_GKeyDoneStations g = g_GKeyDoneStations g'"
  by (simp add: g_core_def g_fixed_def)

lemma g_fixed_GKeyDone [simp]: "g_fixed (g\<lparr>g_GKeyDoneStations := k\<rparr>) = g_fixed g"
  by (simp add: g_fixed_def)

lemma PTK_Step_fixed:
  "sm_fixed (cx_sm (sm_WPA_PTK_Step E c)) = sm_fixed (cx_sm c)"
  by (rule PTK_Step_cases) (simp_all add: sm_fixed_def ptk_after)

lemma PTK_Step_group: "g_fixed (cx_gr (sm_WPA_PTK_Step E c)) = g_fixed (cx_gr c)"
  by (rule PTK_Step_cases)
    (simp_all add: ptk_after AUTHENTICATION2_after(2)[THEN g_core_fixed] PTKSTART_after(2)[THEN g_core_fixed]
      PTKINITNEG_after(2)[THEN g_core_fixed])

lemma PTK_Step_auth: "au_fixed (cx_au (sm_WPA_PTK_Step E c)) = au_fixed (cx_au c)"
  by (rule PTK_Step_cases) (simp_all add: ptk_after au_fixed_def count_4way_failure_def)

lemma GROUP_Step_fixed:
  "sm_fixed (cx_sm (sm_WPA_PTK_GROUP_Step E c)) = sm_fixed (cx_sm c)"
  "g_fixed (cx_gr (sm_WPA_PTK_GROUP_Step E c)) = g_fixed (cx_gr c)"
  "cx_au (sm_WPA_PTK_GROUP_Step E c) = cx_au c"
  "opened (cx_tr (sm_WPA_PTK_GROUP_Step E c)) = opened (cx_tr c)"
  by (rule GROUP_Step_cases; simp add: sm_fixed_def group_after GROUP_REKEYNEG_after(2)[THEN g_core_fixed])+

lemma gtk_update_fixed: "g_fixed (fst (snd (wpa_gtk_update E au g tr))) = g_fixed g"
  "g_GKeyDoneStations (fst (snd (wpa_gtk_update E au g tr))) = g_GKeyDoneStations g"
  using gtk_update_core(1)[THEN g_core_fixed] by blast+

lemma good_ptk: "good w \<Longrightarrow> i \<in> set (w_list w) \<Longrightarrow> good (on_sta i (sm_WPA_PTK_Step E) w)"
  and keeps_ptk: "good w \<Longrightarrow> i \<in> set (w_list w) \<Longrightarrow> keeps w (on_sta i (sm_WPA_PTK_Step E) w)"
  using good_on_sta[of w i "sm_WPA_PTK_Step E"] PTK_Step_fixed[of E "load i w"] PTK_Step_group[of E "load i w"]
    good_dest(3,4)[of w i] good_dest(5)[of w "sm_group (sta w i)"]
  by (simp_all add: sm_fixed_def g_fixed_def)

lemma good_grp: "good w \<Longrightarrow> i \<in> set (w_list w) \<Longrightarrow> good (on_sta i (sm_WPA_PTK_GROUP_Step E) w)"
  and keeps_grp: "good w \<Longrightarrow> i \<in> set (w_list w) \<Longrightarrow> keeps w (on_sta i (sm_WPA_PTK_GROUP_Step E) w)"
  using good_on_sta[of w i "sm_WPA_PTK_GROUP_Step E"] GROUP_Step_fixed[of E "load i w"]
    good_dest(3,4)[of w i] good_dest(5)[of w "sm_group (sta w i)"]
  by (simp_all add: sm_fixed_def g_fixed_def)

lemma good_in_loop:
  "good w \<Longrightarrow> i \<in> set (w_list w) \<Longrightarrow> good (set_sta i (\<lambda>s. s\<lparr>sm_in_step_loop := b\<rparr>) w) \<and> keeps w (set_sta i (\<lambda>s. s\<lparr>sm_in_step_loop := b\<rparr>) w)"
  using good_set_sta[of w i "\<lambda>s. s\<lparr>sm_in_step_loop := b\<rparr>"] good_dest(4)[of w i] by simp

lemma good_clear: "good w \<Longrightarrow> i \<in> set (w_list w) \<Longrightarrow> good (clear_changed i w) \<and> keeps w (clear_changed i w)"
proof -
  assume w: "good w" "i \<in> set (w_list w)"
  let ?w1 = "set_sta i (\<lambda>s. s\<lparr>sm_changed := False\<rparr>) w"
  have 1: "good ?w1" "keeps w ?w1" using w good_set_sta[of w i] good_dest(4)[of w i] by simp_all
  have 2: "0 < length (w_groups ?w1)" "\<not> g_GInit ((w_groups ?w1 ! 0)\<lparr>g_changed := False\<rparr>)"
    using good_dest(1)[OF 1(1)] good_dest(5)[OF 1(1), of 0] by simp_all
  show ?thesis unfolding clear_changed_def
    using good_set_group[OF 1(1) 2(1), of "\<lambda>g. g\<lparr>g_changed := False\<rparr>"] 2(2) keeps_trans[OF 1(2)] by simp
qed

lemma setkeysdone_fst:
  "fst (wpa_group_setkeysdone E au g tr) = g\<lparr>g_changed := True, g_state := WPA_GROUP_SETKEYSDONE\<rparr>"
  "opened (snd (wpa_group_setkeysdone E au g tr)) = opened tr"
  by (simp_all add: wpa_group_setkeysdone_def Let_def config_group_keys_opened)

lemma good_setkeysdone: "good w \<Longrightarrow> g < length (w_groups w) \<Longrightarrow>
    good (on_group (wpa_group_setkeysdone E) g w) \<and> keeps w (on_group (wpa_group_setkeysdone E) g w)"
  using good_on_group[of w g "wpa_group_setkeysdone E"] good_dest(5)[of w g] by (simp add: setkeysdone_fst)

lemma good_flag: "good w \<Longrightarrow> i \<in> set (w_list w) \<Longrightarrow> good (flag_station i w) \<and> keeps w (flag_station i w)"
proof -
  assume w: "good w" "i \<in> set (w_list w)"
  let ?w1 = "set_group (sm_group (sta w i)) (\<lambda>g. g\<lparr>g_GKeyDoneStations := g_GKeyDoneStations g + 1\<rparr>) w"
  have 1: "good ?w1" "keeps w ?w1"
    using good_set_group[OF w(1) good_dest(3)[OF w]] good_dest(5)[OF w(1) good_dest(3)[OF w]] by simp_all
  have 2: "i \<in> set (w_list ?w1)" "\<not> sm_pending_deinit ((sta ?w1 i)\<lparr>sm_GUpdateStationKeys := True\<rparr>)"
    using w good_dest(4)[OF w] by simp_all
  show ?thesis unfolding flag_station_def Let_def
    using good_set_sta[OF 1(1) 2(1), of "\<lambda>s. s\<lparr>sm_GUpdateStationKeys := True\<rparr>"] 2(2) keeps_trans[OF 1(2)] by simp
qed

lemma good_unflag: "good w \<Longrightarrow> i \<in> set (w_list w) \<Longrightarrow>
    good (set_sta i (\<lambda>s. s\<lparr>sm_GUpdateStationKeys := False\<rparr>) w) \<and> keeps w (set_sta i (\<lambda>s. s\<lparr>sm_GUpdateStationKeys := False\<rparr>) w)"
  using good_set_sta[of w i "\<lambda>s. s\<lparr>sm_GUpdateStationKeys := False\<rparr>"] good_dest(4)[of w i] by simp

text \<open>The group of a rekey before the stations are told.\<close>

lemma setkeys_start_simps:
  "w_list (setkeys_start E g w) = w_list w" "sta (setkeys_start E g w) i = sta w i" "w_sm (setkeys_start E g w) = w_sm w"
  "w_au (setkeys_start E g w) = w_au w" "w_hapd (setkeys_start E g w) = w_hapd w" "w_stuck (setkeys_start E g w) = w_stuck w"
  "opened (w_tr (setkeys_start E g w)) = opened (w_tr w)"
  by (simp_all add: setkeys_start_def Let_def gtk_update_core)

lemma setkeys_start_groups:
  assumes "g < length (w_groups w)"
  obtains gr where "w_groups (setkeys_start E g w) = (w_groups w)[g := gr]" "g_vlan_id gr = g_vlan_id (w_groups w ! g)"
    "g_GInit gr = g_GInit (w_groups w ! g)" "g_GKeyDoneStations gr = 0" "\<not> g_GTKReKey gr"
    "g_GTKAuthenticator gr = g_GTKAuthenticator (w_groups w ! g)" "g_state gr = WPA_GROUP_SETKEYS" "g_changed gr"
proof -
  define g0 where "g0 = (w_groups w ! g)\<lparr>g_changed := True, g_state := WPA_GROUP_SETKEYS, g_GTKReKey := False,
    g_GM := g_GN (w_groups w ! g), g_GN := g_GM (w_groups w ! g)\<rparr>"
  define g1 where "g1 = fst (snd (wpa_gtk_update E (w_au w) g0 (w_tr w)))"
  have "g_fixed g1 = g_fixed g0" unfolding g1_def by (rule gtk_update_fixed)
  moreover have "w_groups (setkeys_start E g w) = (w_groups w)[g := (if g_GKeyDoneStations g1 \<noteq> 0 then g1\<lparr>g_GKeyDoneStations := 0\<rparr> else g1)]"
    using assms by (simp add: setkeys_start_def Let_def g0_def[symmetric] g1_def[symmetric])
  ultimately show ?thesis using that by (auto simp: g_fixed_def g0_def)
qed

lemma good_setkeys_start:
  assumes "good w" "g < length (w_groups w)"
  shows "good (setkeys_start E g w) \<and> keeps w (setkeys_start E g w)"
proof -
  obtain gr where gr: "w_groups (setkeys_start E g w) = (w_groups w)[g := gr]" "g_GInit gr = g_GInit (w_groups w ! g)"
    using setkeys_start_groups[OF assms(2), of E] by metis
  then have "\<not> g_GInit gr" using good_dest(5)[OF assms] by simp
  then show ?thesis using assms(1) gr(1)
    by (auto simp: good_def keeps_def setkeys_start_simps dest!: set_list_update_cases)
qed

lemma group_order_members: "set (group_order w) = {..<length (w_groups w)}"
  by (cases "w_groups w") (auto simp: group_order_def)

section \<open>Relations that all actions respect\<close>

locale station_actions =
  fixes E :: wpa_env and T :: "wpa_world \<Rightarrow> wpa_world \<Rightarrow> bool"
  assumes T_refl: "T w w"
    and T_trans: "T w1 w2 \<Longrightarrow> T w2 w3 \<Longrightarrow> T w1 w3"
    and T_stuck: "T w (w\<lparr>w_stuck := True\<rparr>)"
    and T_clear: "good w \<Longrightarrow> i \<in> set (w_list w) \<Longrightarrow> T w (clear_changed i w)"
    and T_in_loop: "good w \<Longrightarrow> i \<in> set (w_list w) \<Longrightarrow> T w (set_sta i (\<lambda>s. s\<lparr>sm_in_step_loop := b\<rparr>) w)"
    and T_ptk: "good w \<Longrightarrow> i \<in> set (w_list w) \<Longrightarrow> T w (on_sta i (sm_WPA_PTK_Step E) w)"
    and T_grp: "good w \<Longrightarrow> i \<in> set (w_list w) \<Longrightarrow> T w (on_sta i (sm_WPA_PTK_GROUP_Step E) w)"
    and T_setkeysdone: "good w \<Longrightarrow> g < length (w_groups w) \<Longrightarrow> T w (on_group (wpa_group_setkeysdone E) g w)"
    and T_setkeys: "good w \<Longrightarrow> g < length (w_groups w) \<Longrightarrow> T w (setkeys_start E g w)"
    and T_flag: "good w \<Longrightarrow> i \<in> set (w_list w) \<Longrightarrow> sm_ptk_state (sta w i) = WPA_PTK_PTKINITDONE \<Longrightarrow> T w (flag_station i w)"
    and T_unflag: "good w \<Longrightarrow> i \<in> set (w_list w) \<Longrightarrow> sm_ptk_state (sta w i) \<noteq> WPA_PTK_PTKINITDONE \<Longrightarrow>
      T w (set_sta i (\<lambda>s. s\<lparr>sm_GUpdateStationKeys := False\<rparr>) w)"
    and T_unchanged: "good w \<Longrightarrow> g < length (w_groups w) \<Longrightarrow> T w (set_group g (\<lambda>gr. gr\<lparr>g_changed := False\<rparr>) w)"
    and T_rekey: "good w \<Longrightarrow> g < length (w_groups w) \<Longrightarrow> T w (set_group g (\<lambda>gr. gr\<lparr>g_GTKReKey := True\<rparr>) w)"
    and T_register: "T w (w_act (A_register t ms) w)"
begin

definition ok :: "wpa_world \<Rightarrow> wpa_world \<Rightarrow> bool" where
  "ok w w' \<longleftrightarrow> good w' \<and> keeps w w' \<and> T w w'"

lemma ok_refl: "good w \<Longrightarrow> ok w w"
  by (simp add: ok_def T_refl)

lemma ok_trans: "ok w1 w2 \<Longrightarrow> ok w2 w3 \<Longrightarrow> ok w1 w3"
  using T_trans keeps_trans unfolding ok_def by blast

lemma ok_member: "ok w w' \<Longrightarrow> good w' \<and> w_list w' = w_list w \<and> length (w_groups w') = length (w_groups w)"
  by (simp add: ok_def keeps_def)

lemma ok_action:
  assumes "good w" "i \<in> set (w_list w)"
  shows "ok w (clear_changed i w)" "ok w (set_sta i (\<lambda>s. s\<lparr>sm_in_step_loop := b\<rparr>) w)"
    "ok w (on_sta i (sm_WPA_PTK_Step E) w)" "ok w (on_sta i (sm_WPA_PTK_GROUP_Step E) w)"
  using assms good_clear good_in_loop good_ptk keeps_ptk good_grp keeps_grp T_clear T_in_loop T_ptk T_grp
  by (simp_all add: ok_def)

lemma ok_group_action:
  assumes "good w" "g < length (w_groups w)"
  shows "ok w (on_group (wpa_group_setkeysdone E) g w)" "ok w (setkeys_start E g w)"
    "ok w (set_group g (\<lambda>gr. gr\<lparr>g_changed := False\<rparr>) w)" "ok w (set_group g (\<lambda>gr. gr\<lparr>g_GTKReKey := True\<rparr>) w)"
  using assms good_setkeysdone good_setkeys_start T_setkeysdone T_setkeys T_unchanged T_rekey good_dest(5)[OF assms]
    good_set_group[OF assms, of "\<lambda>gr. gr\<lparr>g_changed := False\<rparr>"] good_set_group[OF assms, of "\<lambda>gr. gr\<lparr>g_GTKReKey := True\<rparr>"]
  by (simp_all add: ok_def)

text \<open>A function on worlds that may be called for any station.\<close>

definition ok_step :: "(nat \<Rightarrow> wpa_world \<Rightarrow> wpa_world) \<Rightarrow> bool" where
  "ok_step step \<longleftrightarrow> (\<forall>w i. good w \<longrightarrow> i \<in> set (w_list w) \<longrightarrow> ok w (step i w))"

lemma ok_update_sta:
  assumes "ok_step step" "good w" "i \<in> set (w_list w)"
  shows "ok w (wpa_group_update_sta step i w)"
proof (cases "sm_ptk_state (sta w i) = WPA_PTK_PTKINITDONE")
  case True
  have f: "ok w (flag_station i w)" using good_flag T_flag assms True by (simp add: ok_def)
  then have "ok (flag_station i w) (step i (flag_station i w))"
    using assms ok_member[OF f] unfolding ok_step_def by simp
  then show ?thesis using ok_trans[OF f] True by (simp add: wpa_group_update_sta_def)
next
  case False
  then show ?thesis using good_unflag T_unflag assms by (simp add: wpa_group_update_sta_def ok_def)
qed

lemma ok_fold:
  assumes f: "\<And>w i. good w \<Longrightarrow> i \<in> A w \<Longrightarrow> ok w (f i w)" and A: "\<And>w w'. ok w w' \<Longrightarrow> A w' = A w"
    and w: "good w" "set xs \<subseteq> A w"
  shows "ok w (fold f xs w)"
  using w
proof (induction xs arbitrary: w)
  case Nil
  then show ?case by (simp add: ok_refl)
next
  case (Cons x xs)
  have x: "ok w (f x w)" using Cons.prems f by simp
  have "ok (f x w) (fold f xs (f x w))"
    by (rule Cons.IH) (use x A[OF x] ok_member[OF x] Cons.prems in auto)
  then show ?case using ok_trans[OF x] by simp
qed

lemma ok_setkeys:
  assumes "ok_step step" "good w" "g < length (w_groups w)"
  shows "ok w (wpa_group_setkeys E step g w)"
proof -
  let ?w = "setkeys_start E g w"
  have s: "ok w ?w" using ok_group_action(2)[OF assms(2,3)] .
  have "ok ?w (fold (wpa_group_update_sta step) (w_list ?w) ?w)"
    by (rule ok_fold[where A = "\<lambda>w. set (w_list w)"]) (use ok_update_sta[OF assms(1)] ok_member[OF s] ok_member in auto)
  then show ?thesis using ok_trans[OF s] by (simp add: wpa_group_setkeys_def Let_def)
qed

lemma ok_group_sm_step:
  assumes "ok_step step" "good w" "g < length (w_groups w)"
  shows "ok w (wpa_group_sm_step E step g w)"
  using ok_setkeys[OF assms] ok_group_action(1)[OF assms(2,3)] ok_refl[OF assms(2)] good_dest(5)[OF assms(2,3)]
  by (auto simp: wpa_group_sm_step_def Let_def)

lemma ok_step_with:
  assumes "ok_step loop"
  shows "ok_step (sm_step_with loop)"
  unfolding ok_step_def
proof (intro allI impI)
  fix w i assume w: "good w" "i \<in> set (w_list w)"
  let ?w1 = "set_sta i (\<lambda>s. s\<lparr>sm_in_step_loop := True\<rparr>) w"
  let ?w2 = "loop i ?w1"
  let ?w3 = "set_sta i (\<lambda>s. s\<lparr>sm_in_step_loop := False\<rparr>) ?w2"
  have 1: "ok w ?w1" using ok_action(2)[OF w] .
  have 2: "ok ?w1 ?w2" using assms ok_member[OF 1] w by (simp add: ok_step_def)
  have 3: "ok ?w2 ?w3" using ok_action(2) ok_member[OF 1] ok_member[OF 2] w by simp
  have "\<not> sm_pending_deinit (sta ?w3 i)" using good_dest(4) ok_member[OF 1] ok_member[OF 2] ok_member[OF 3] w by metis
  then have "sm_step_with loop i w = (if sm_in_step_loop (sta w i) then w else ?w3)"
    by (simp add: sm_step_with_def Let_def)
  then show "ok w (sm_step_with loop i w)"
    using ok_refl[OF w(1)] ok_trans[OF 1 ok_trans[OF 2 3]] by simp
qed

text \<open>The loop after the first step of the pairwise machine.\<close>

lemma ok_loop_rest:
  assumes "ok_step (wpa_sm_loop E n)" "good w" "i \<in> set (w_list w)"
  shows "ok (on_sta i (sm_WPA_PTK_Step E) (clear_changed i w)) (wpa_sm_loop E (Suc n) i w)"
proof -
  let ?w1 = "on_sta i (sm_WPA_PTK_Step E) (clear_changed i w)"
  let ?w2 = "on_sta i (sm_WPA_PTK_GROUP_Step E) ?w1"
  let ?w3 = "wpa_group_sm_step E (sm_step_with (wpa_sm_loop E n)) (sm_group (sta ?w2 i)) ?w2"
  note w = assms(2,3)
  have c: "ok w (clear_changed i w)" using ok_action(1)[OF w] .
  have 1: "ok w ?w1" using ok_trans[OF c ok_action(3)] ok_member[OF c] w by simp
  have m1: "good ?w1" "i \<in> set (w_list ?w1)" using ok_member[OF 1] w by simp_all
  have 2: "ok ?w1 ?w2" using ok_action(4)[OF m1] .
  have m2: "good ?w2" "i \<in> set (w_list ?w2)" using ok_member[OF 2] m1 by simp_all
  have 3: "ok ?w1 ?w3"
    using ok_trans[OF 2 ok_group_sm_step[OF ok_step_with[OF assms(1)] m2(1) good_dest(3)[OF m2]]] .
  have 4: "ok ?w1 (wpa_sm_loop E n i ?w3)"
    using ok_trans[OF 3] assms(1) ok_member[OF 3] m1(2) unfolding ok_step_def by simp
  have "wpa_sm_loop E (Suc n) i w =
      (if sm_changed (sta ?w3 i) \<or> g_changed (w_groups ?w3 ! 0) then wpa_sm_loop E n i ?w3 else ?w3)"
    using good_dest(4)[OF w] good_dest(4)[OF m1] good_dest(4)[OF m2]
    by (simp only: wpa_sm_loop.simps Let_def if_False)
  then show ?thesis using 3 4 by simp
qed

lemma ok_loop: "ok_step (wpa_sm_loop E n)"
proof (induction n)
  case 0
  show ?case by (auto simp: ok_step_def ok_def T_stuck good_def keeps_def sta_def)
next
  case (Suc n)
  show ?case unfolding ok_step_def
  proof (intro allI impI)
    fix w i assume w: "good w" "i \<in> set (w_list w)"
    have c: "ok w (clear_changed i w)" using ok_action(1)[OF w] .
    have 1: "ok w (on_sta i (sm_WPA_PTK_Step E) (clear_changed i w))"
      using ok_trans[OF c ok_action(3)] ok_member[OF c] w by simp
    show "ok w (wpa_sm_loop E (Suc n) i w)" by (rule ok_trans[OF 1 ok_loop_rest[OF Suc w]])
  qed
qed

text \<open>A call for a station that is not running: its first step, then the rest.\<close>

lemma ok_after_first:
  assumes "good w" "i \<in> set (w_list w)" "\<not> sm_in_step_loop (sta w i)"
  shows "ok (on_sta i (sm_WPA_PTK_Step E) (clear_changed i (set_sta i (\<lambda>s. s\<lparr>sm_in_step_loop := True\<rparr>) w))) (wpa_sm_step E (Suc n) i w)"
proof -
  let ?w1 = "set_sta i (\<lambda>s. s\<lparr>sm_in_step_loop := True\<rparr>) w"
  let ?w2 = "wpa_sm_loop E (Suc n) i ?w1"
  let ?w3 = "set_sta i (\<lambda>s. s\<lparr>sm_in_step_loop := False\<rparr>) ?w2"
  have 1: "ok w ?w1" using ok_action(2)[OF assms(1,2)] .
  have m1: "good ?w1" "i \<in> set (w_list ?w1)" using ok_member[OF 1] assms(2) by simp_all
  note 2 = ok_loop_rest[OF ok_loop m1, of n]
  have "ok ?w1 ?w2" using ok_loop[of "Suc n"] m1 unfolding ok_step_def by blast
  then have m2: "good ?w2" "i \<in> set (w_list ?w2)" using ok_member m1(2) by auto
  have 3: "ok ?w2 ?w3" using ok_action(2)[OF m2] .
  have "\<not> sm_pending_deinit (sta ?w3 i)" using good_dest(4)[of ?w3 i] ok_member[OF 3] m2 by simp
  then have "sm_step_with (wpa_sm_loop E (Suc n)) i w = ?w3"
    using assms(3) by (simp only: sm_step_with_def Let_def if_False)
  moreover have "wpa_sm_step E (Suc n) i w = sm_step_with (wpa_sm_loop E (Suc n)) i w"
    using good_dest(6)[OF assms(1), of i] assms(2) by (auto simp: wpa_sm_step_def)
  ultimately show ?thesis using ok_trans[OF 2 3] by simp
qed

lemma ok_sm_step: "good w \<Longrightarrow> ok w (wpa_sm_step E n i w)"
  using ok_step_with[OF ok_loop, of n] good_dest(6)[of w i] ok_refl[of w]
  by (auto simp: wpa_sm_step_def ok_step_def split: option.split)

lemma ok_group_loop: "good w \<Longrightarrow> g < length (w_groups w) \<Longrightarrow> ok w (group_loop E n g w)"
proof (induction n arbitrary: w)
  case 0
  then show ?case by (auto simp: ok_def T_stuck good_def keeps_def sta_def)
next
  case (Suc n)
  let ?w1 = "set_group g (\<lambda>gr. gr\<lparr>g_changed := False\<rparr>) w"
  let ?w2 = "wpa_group_sm_step E (sm_step_with (wpa_sm_loop E n)) g ?w1"
  have 1: "ok w ?w1" using ok_group_action(3)[OF Suc.prems] .
  have 2: "ok w ?w2"
    using ok_trans[OF 1] ok_group_sm_step[OF ok_step_with[OF ok_loop, of n], of ?w1 g] ok_member[OF 1] Suc.prems by simp
  have 3: "ok w (group_loop E n g ?w2)" using ok_trans[OF 2 Suc.IH[of ?w2]] ok_member[OF 2] Suc.prems by simp
  show ?case using 2 3 by (simp add: Let_def)
qed

lemma ok_rekey_gtk:
  assumes "good w"
  shows "ok w (wpa_rekey_gtk E n w)"
proof -
  let ?f = "\<lambda>g w. group_loop E n g (set_group g (\<lambda>gr. gr\<lparr>g_GTKReKey := True\<rparr>) w)"
  have f: "ok w (?f g w)" if "good w" "g \<in> {..<length (w_groups w)}" for g w
    using ok_trans[OF ok_group_action(4) ok_group_loop, of w g g n] that ok_member[OF ok_group_action(4), of w g] by simp
  have "ok w (fold ?f (group_order w) w)"
    by (rule ok_fold[where A = "\<lambda>w. {..<length (w_groups w)}"]) (use f ok_member group_order_members assms in auto)
  moreover have "ok w' (w_act (A_register t ms) w')" if "good w'" for w' t ms
    using that T_register by (simp add: ok_def good_def keeps_def sta_def)
  ultimately show ?thesis
    using ok_trans ok_member by (simp add: wpa_rekey_gtk_def Let_def)
qed

end

end
