(* ===== verification/Wpa_Auth_Term.thy ===== *)
theory Wpa_Auth_Term
  imports Wpa_Auth_Lift
begin

text \<open>
  The loops of the WPA authenticator end. \<^verbatim>\<open>wpa_sm_step\<close> repeats while a machine has changed and calls
  itself for other stations when group keys are renewed. Each change uses up a part of a weight: a
  request flag, a step towards a resting state of the pairwise machine, an outstanding group key. The
  weight of the world is bounded by the number of stations and groups, which gives the fuel that is
  always enough.
\<close>

section \<open>Weights\<close>

fun ptk_rank :: "wpa_ptk_st \<Rightarrow> nat" where
  "ptk_rank WPA_PTK_INITIALIZE = 0"
| "ptk_rank WPA_PTK_PTKINITDONE = 0"
| "ptk_rank WPA_PTK_DISCONNECTED = 1"
| "ptk_rank WPA_PTK_DISCONNECT = 2"
| "ptk_rank WPA_PTK_PTKSTART = 3"
| "ptk_rank WPA_PTK_PTKINITNEGOTIATING = 3"
| "ptk_rank WPA_PTK_PTKCALCNEGOTIATING2 = 4"
| "ptk_rank WPA_PTK_INITPMK = 4"
| "ptk_rank WPA_PTK_INITPSK = 4"
| "ptk_rank WPA_PTK_AUTHENTICATION2 = 5"
| "ptk_rank WPA_PTK_PTKCALCNEGOTIATING = 5"
| "ptk_rank WPA_PTK_AUTHENTICATION = 6"

fun group_rank :: "wpa_ptk_group_st \<Rightarrow> bool \<Rightarrow> int \<Rightarrow> nat" where
  "group_rank WPA_PTK_GROUP_IDLE update ctr = (if update then 7 else 0)"
| "group_rank WPA_PTK_GROUP_REKEYNEGOTIATING update ctr = (if ctr \<le> 4 then 6 else 5)"
| "group_rank WPA_PTK_GROUP_REKEYESTABLISHED update ctr = 1 + (if update then 7 else 0)"
| "group_rank WPA_PTK_GROUP_KEYERROR update ctr = 1 + (if update then 7 else 0)"

definition flag_weight :: "nat \<Rightarrow> bool \<Rightarrow> nat" where "flag_weight k b = (if b then k else 0)"

definition sm_weight :: "wpa_state_machine \<Rightarrow> nat" where
  "sm_weight s = ptk_rank (sm_ptk_state s) +
     group_rank (sm_ptk_group_state s) (sm_GUpdateStationKeys s) (sm_GTimeoutCtr s) + flag_weight 3 (sm_Disconnect s) +
     flag_weight 2 (sm_DeauthenticationRequest s) + flag_weight 7 (sm_AuthenticationRequest s) +
     flag_weight 6 (sm_ReAuthenticationRequest s) + flag_weight 4 (sm_PTKRequest s) +
     flag_weight 5 (sm_EAPOLKeyReceived s) + flag_weight 1 (sm_TimeoutEvt s) + flag_weight 8 (sm_PtkGroupInit s) +
     flag_weight 7 (sm_wpa s = WPA_VERSION_WPA \<and> sm_PInitAKeys s)"

definition group_weight :: "nat \<Rightarrow> wpa_group \<Rightarrow> nat" where
  "group_weight n g = flag_weight (2 + 7 * n) (g_GTKReKey g) + flag_weight 1 (g_state g \<noteq> WPA_GROUP_SETKEYSDONE)"

definition world_weight :: "wpa_world \<Rightarrow> nat" where
  "world_weight w = (\<Sum>i\<leftarrow>w_list w. sm_weight (sta w i)) + (\<Sum>g\<leftarrow>w_groups w. group_weight (length (w_list w)) g)"

text \<open>Fuel that is always enough.\<close>

definition wpa_fuel :: "wpa_world \<Rightarrow> nat" where
  "wpa_fuel w = 1 + 57 * length (w_list w) + (3 + 7 * length (w_list w)) * length (w_groups w)"

text \<open>An idle group handshake has no retries behind it.\<close>

definition idle_ok :: "wpa_state_machine \<Rightarrow> bool" where
  "idle_ok s \<longleftrightarrow> (sm_ptk_group_state s = WPA_PTK_GROUP_IDLE \<longrightarrow> sm_GTimeoutCtr s = 0)"

lemma flag_weight_simps [simp]: "flag_weight k True = k" "flag_weight k False = 0"
  by (simp_all add: flag_weight_def)

lemma flag_weight_le: "flag_weight k b \<le> k"
  by (simp add: flag_weight_def)

lemma sm_weight_le: "sm_weight s \<le> 57"
proof -
  have "ptk_rank (sm_ptk_state s) \<le> 6" by (cases "sm_ptk_state s") simp_all
  moreover have "group_rank (sm_ptk_group_state s) (sm_GUpdateStationKeys s) (sm_GTimeoutCtr s) \<le> 8"
    by (cases "sm_ptk_group_state s") simp_all
  ultimately show ?thesis
    using flag_weight_le[of 3 "sm_Disconnect s"] flag_weight_le[of 2 "sm_DeauthenticationRequest s"]
      flag_weight_le[of 7 "sm_AuthenticationRequest s"] flag_weight_le[of 6 "sm_ReAuthenticationRequest s"]
      flag_weight_le[of 4 "sm_PTKRequest s"] flag_weight_le[of 5 "sm_EAPOLKeyReceived s"] flag_weight_le[of 1 "sm_TimeoutEvt s"]
      flag_weight_le[of 8 "sm_PtkGroupInit s"] flag_weight_le[of 7 "sm_wpa s = WPA_VERSION_WPA \<and> sm_PInitAKeys s"]
    unfolding sm_weight_def by linarith
qed

section \<open>The machines of a station\<close>

text \<open>A step to \<open>s'\<close> costs weight if it marks the station as changed.\<close>

definition lighter :: "wpa_state_machine \<Rightarrow> wpa_state_machine \<Rightarrow> bool" where
  "lighter s s' \<longleftrightarrow> sm_weight s' \<le> sm_weight s \<and> (sm_changed s' \<longrightarrow> sm_changed s \<or> sm_weight s' < sm_weight s) \<and> idle_ok s'"

lemmas weight_defs = lighter_def sm_weight_def idle_ok_def

lemma flag_weight_mono: "(a \<Longrightarrow> b) \<Longrightarrow> flag_weight k a \<le> flag_weight k b"
  by (simp add: flag_weight_def)

lemma group_rank_mono: "group_rank gs False ctr \<le> group_rank gs b ctr"
  by (cases gs) simp_all

lemma PTKINITDONE_weight:
  "flag_weight 7 (sm_wpa s = WPA_VERSION_WPA \<and> b) < 3 + flag_weight 5 True"
  using flag_weight_le[of 7 "sm_wpa s = WPA_VERSION_WPA \<and> b"] by simp

lemma lighter_ptk:
  assumes "idle_ok (cx_sm c)"
  shows "lighter (cx_sm c) (cx_sm (sm_WPA_PTK_Step E c))"
proof (rule PTK_Step_cases)
  have 1: "flag_weight 7 (sm_wpa (cx_sm c) = WPA_VERSION_WPA \<and> sm_PInitAKeys (cx_sm c) \<and> sm_wpa (cx_sm c) \<noteq> WPA_VERSION_WPA) = 0"
    by (simp add: flag_weight_def)
  note g = group_rank_mono[of "sm_ptk_group_state (cx_sm c)" "sm_GTimeoutCtr (cx_sm c)" "sm_GUpdateStationKeys (cx_sm c)"]
  show "lighter (cx_sm c) (cx_sm (sm_WPA_PTK_INITIALIZE E c))" if "sm_Init (cx_sm c)"
    using assms that 1 g by (simp add: ptk_after weight_defs)
  show "lighter (cx_sm c) (cx_sm (sm_WPA_PTK_INITIALIZE E c))"
    if "no_request (cx_sm c)" "sm_ptk_state (cx_sm c) = WPA_PTK_DISCONNECTED"
    using assms that 1 g by (simp add: ptk_after weight_defs)
  show "lighter (cx_sm c) (cx_sm (sm_WPA_PTK_PTKINITDONE E c))"
    if "sm_ptk_state (cx_sm c) = WPA_PTK_PTKINITNEGOTIATING" "pairwise_reply (cx_sm c)"
    using assms that PTKINITDONE_weight[of "cx_sm c" "sm_PInitAKeys (sm_of (sm_WPA_PTK_PTKINITDONE E) c)"]
    by (simp add: ptk_after weight_defs pairwise_reply_def)
qed (use assms in \<open>auto simp: ptk_after weight_defs pairwise_reply_def\<close>)

text \<open>Once a station is no longer marked as changed, its pairwise machine is waiting.\<close>

lemma settled_ptk: "\<not> sm_changed (cx_sm (sm_WPA_PTK_Step E c)) \<Longrightarrow> settled (cx_sm (sm_WPA_PTK_Step E c))"
proof -
  have "\<not> sm_changed (cx_sm (sm_WPA_PTK_Step E c)) \<longrightarrow> settled (cx_sm (sm_WPA_PTK_Step E c))"
    by (rule PTK_Step_cases) (auto simp: ptk_after settled_def)
  then show "\<not> sm_changed (cx_sm (sm_WPA_PTK_Step E c)) \<Longrightarrow> ?thesis" by blast
qed

lemma init_initialized: "sm_Init (cx_sm c) \<Longrightarrow> settled (cx_sm (sm_WPA_PTK_Step E c))"
  by (simp add: sm_WPA_PTK_Step_def Let_def ptk_after settled_def)

lemma settled_grp:
  assumes "settled (cx_sm c)" "\<not> sm_changed (cx_sm (sm_WPA_PTK_GROUP_Step E c))"
  shows "settled (cx_sm (sm_WPA_PTK_GROUP_Step E c))"
proof -
  have "\<not> sm_changed (cx_sm (sm_WPA_PTK_GROUP_Step E c)) \<longrightarrow> settled (cx_sm (sm_WPA_PTK_GROUP_Step E c))"
    by (rule GROUP_Step_cases) (use assms(1) in \<open>auto simp: group_after settled_def no_request_def\<close>)
  then show ?thesis using assms(2) by blast
qed

lemma changed_grp: "sm_changed (cx_sm c) \<Longrightarrow> sm_Init (cx_sm c) \<or> sm_changed (cx_sm (sm_WPA_PTK_GROUP_Step E c))"
proof -
  assume c: "sm_changed (cx_sm c)"
  show ?thesis by (rule GROUP_Step_cases[where P = "\<lambda>c'. sm_Init (cx_sm c) \<or> sm_changed (cx_sm c')"]) (use c in \<open>auto simp: group_after\<close>)
qed

lemma init_unflagged: "sm_Init (cx_sm c) \<Longrightarrow> \<not> sm_GUpdateStationKeys (cx_sm (sm_WPA_PTK_Step E c))"
  by (simp add: sm_WPA_PTK_Step_def Let_def ptk_after)

lemma lighter_grp:
  assumes "idle_ok (cx_sm c)" "sm_Init (cx_sm c) \<longrightarrow> \<not> sm_GUpdateStationKeys (cx_sm c)"
  shows "lighter (cx_sm c) (cx_sm (sm_WPA_PTK_GROUP_Step E c))"
proof (rule GROUP_Step_cases)
  let ?s = "cx_sm c"
  let ?P = "\<lambda>b. flag_weight 7 (sm_wpa ?s = WPA_VERSION_WPA \<and> b)"
  have T: "flag_weight 1 (sm_TimeoutEvt ?s \<and> b) \<le> flag_weight 1 (sm_TimeoutEvt ?s)" for b
    by (simp add: flag_weight_mono)
  have P: "?P (sm_PInitAKeys ?s \<and> b) \<le> ?P (sm_PInitAKeys ?s)" for b
    by (simp add: flag_weight_mono)
  have P0: "?P (sm_PInitAKeys ?s \<and> sm_wpa ?s \<noteq> WPA_VERSION_WPA) = 0" by (simp add: flag_weight_def)
  have D: "flag_weight 3 b \<le> 3" for b by (rule flag_weight_le)
  show "lighter ?s (cx_sm (upd_s (\<lambda>s. s\<lparr>sm_PtkGroupInit := False\<rparr>) (sm_WPA_PTK_GROUP_IDLE c)))"
    if "sm_Init ?s \<or> sm_PtkGroupInit ?s"
    using that assms(2) by (cases "sm_PtkGroupInit ?s") (simp_all add: group_after weight_defs)
  show "lighter ?s (cx_sm (sm_WPA_PTK_GROUP_REKEYNEGOTIATING E c))"
    if "sm_ptk_group_state ?s = WPA_PTK_GROUP_IDLE" "sm_GUpdateStationKeys ?s \<or> sm_wpa ?s = WPA_VERSION_WPA \<and> sm_PInitAKeys ?s"
    using that assms(1) P0 by (cases "sm_wpa ?s = WPA_VERSION_WPA \<and> sm_PInitAKeys ?s") (simp_all add: group_after weight_defs)
  show "lighter ?s (cx_sm (sm_WPA_PTK_GROUP_KEYERROR c))"
    if "sm_ptk_group_state ?s = WPA_PTK_GROUP_REKEYNEGOTIATING"
    using that assms(1) D by (simp add: group_after weight_defs)
  show "lighter ?s (cx_sm (sm_WPA_PTK_GROUP_REKEYNEGOTIATING E c))"
    if "sm_ptk_group_state ?s = WPA_PTK_GROUP_REKEYNEGOTIATING" "sm_GTimeoutCtr ?s \<le> 4" "sm_TimeoutEvt ?s"
    using that assms(1) P[of "sm_wpa ?s \<noteq> WPA_VERSION_WPA \<or> 4 \<le> sm_GTimeoutCtr ?s"]
    by (cases "4 \<le> sm_GTimeoutCtr ?s") (simp_all add: group_after weight_defs)
qed (use assms in \<open>auto simp: group_after weight_defs\<close>)

section \<open>The weight of the world\<close>

interpretation shape: station_actions E "\<lambda>w w'. True"
  by unfold_locales simp_all

lemmas shape_sm_step = shape.ok_sm_step[unfolded shape.ok_def, simplified]
lemmas shape_rekey_gtk = shape.ok_rekey_gtk[unfolded shape.ok_def, simplified]

definition all_idle :: "wpa_world \<Rightarrow> bool" where
  "all_idle w \<longleftrightarrow> (\<forall>i \<in> set (w_list w). idle_ok (sta w i))"

lemma sum_list_change:
  fixes f h :: "'a \<Rightarrow> nat"
  assumes "distinct xs" "i \<in> set xs" "\<And>j. j \<noteq> i \<Longrightarrow> h j = f j"
  shows "sum_list (map h xs) + f i = sum_list (map f xs) + h i"
  using assms(1,2)
proof (induction xs)
  case (Cons x xs)
  have *: "map h xs = map f xs" if "i \<notin> set xs" using that assms(3) by (metis map_cong)
  show ?case
  proof (cases "x = i")
    case True
    then show ?thesis using arg_cong[OF *, of sum_list] Cons.prems by simp
  next
    case False
    then show ?thesis using Cons assms(3)[of x] by simp
  qed
qed simp

lemma sum_list_list_update:
  fixes f :: "'a \<Rightarrow> nat"
  shows "k < length xs \<Longrightarrow> sum_list (map f (xs[k := x])) + f (xs ! k) = sum_list (map f xs) + f x"
  by (induction xs arbitrary: k) (auto split: nat.split)

text \<open>One station changes, and its group at most in parts that do not count.\<close>

lemma world_weight_station:
  assumes "good w" "i \<in> set (w_list w)" "w_list w' = w_list w" "\<And>j. j \<noteq> i \<Longrightarrow> sta w' j = sta w j"
    "map (group_weight (length (w_list w))) (w_groups w') = map (group_weight (length (w_list w))) (w_groups w)"
  shows "world_weight w' + sm_weight (sta w i) = world_weight w + sm_weight (sta w' i)"
  using sum_list_change[OF good_dest(2)[OF assms(1)] assms(2), of "\<lambda>j. sm_weight (sta w' j)" "\<lambda>j. sm_weight (sta w j)"]
    assms(3-5) by (simp add: world_weight_def)

lemma world_weight_group:
  assumes "w_list w' = w_list w" "\<And>j. sta w' j = sta w j" "g < length (w_groups w)" "w_groups w' = (w_groups w)[g := gr]"
  shows "world_weight w' + group_weight (length (w_list w)) (w_groups w ! g) = world_weight w + group_weight (length (w_list w)) gr"
  using sum_list_list_update[OF assms(3), of "group_weight (length (w_list w))" gr] assms by (simp add: world_weight_def)

lemma group_weight_fixed: "g_fixed g = g_fixed g' \<Longrightarrow> group_weight n g = group_weight n g'"
  by (simp add: g_fixed_def group_weight_def)

lemma map_list_update_same: "k < length xs \<Longrightarrow> f x = f (xs ! k) \<Longrightarrow> map f (xs[k := x]) = map f xs"
  by (simp add: map_update list_update_same_conv)

text \<open>What the pairwise machine looks at, and that it was left alone or ran until it had to wait.\<close>

definition ptk_view ::
  "wpa_state_machine \<Rightarrow> bool \<times> bool \<times> bool \<times> bool \<times> bool \<times> bool \<times> wpa_ptk_st \<times> bool \<times> bool \<times> bool" where
  "ptk_view s = (sm_Init s, sm_Disconnect s, sm_DeauthenticationRequest s, sm_AuthenticationRequest s,
     sm_ReAuthenticationRequest s, sm_PTKRequest s, sm_ptk_state s, sm_MICVerified s, sm_PTK_valid s, pairwise_reply s)"

definition undisturbed :: "wpa_state_machine \<Rightarrow> wpa_state_machine \<Rightarrow> bool" where
  "undisturbed s s' \<longleftrightarrow> settled s' \<or> ptk_view s' = ptk_view s"

lemma settled_view: "ptk_view s = ptk_view s' \<Longrightarrow> settled s = settled s'"
  by (simp add: ptk_view_def settled_def no_request_def)

lemma undisturbed_refl [simp]: "undisturbed s s"
  by (simp add: undisturbed_def)

lemma undisturbed_trans: "undisturbed a b \<Longrightarrow> undisturbed b c \<Longrightarrow> undisturbed a c"
  using settled_view[of c b] unfolding undisturbed_def by argo

lemma undisturbed_settled: "undisturbed s s' \<Longrightarrow> settled s \<Longrightarrow> settled s'"
  using settled_view[of s' s] unfolding undisturbed_def by argo

lemma undisturbed_simps [simp]:
  "undisturbed s (s'\<lparr>sm_GUpdateStationKeys := b\<rparr>) = undisturbed s s'" "undisturbed s (s'\<lparr>sm_in_step_loop := b\<rparr>) = undisturbed s s'"
  "undisturbed (s\<lparr>sm_in_step_loop := b\<rparr>) s' = undisturbed s s'"
  by (simp_all add: undisturbed_def ptk_view_def settled_def no_request_def pairwise_reply_def)

text \<open>What a call for a station keeps, apart from the stations in \<open>X\<close>.\<close>

definition calm :: "nat set \<Rightarrow> wpa_world \<Rightarrow> wpa_world \<Rightarrow> bool" where
  "calm X w w' \<longleftrightarrow> w_stuck w' = w_stuck w \<and> all_idle w' \<and> good w' \<and> keeps w w' \<and>
     (\<forall>j \<in> set (w_list w). sm_in_step_loop (sta w' j) = sm_in_step_loop (sta w j)) \<and>
     (\<forall>j \<in> set (w_list w) - X. sm_in_step_loop (sta w j) \<longrightarrow> sm_changed (sta w' j) = sm_changed (sta w j)) \<and>
     (\<forall>j \<in> set (w_list w) - X. undisturbed (sta w j) (sta w' j))"

lemma calm_refl: "good w \<Longrightarrow> all_idle w \<Longrightarrow> calm X w w"
  by (simp add: calm_def)

lemma calm_trans:
  assumes "calm X w1 w2" "calm X w2 w3"
  shows "calm X w1 w3"
proof -
  have "w_list w2 = w_list w1" using assms(1) by (simp add: calm_def keeps_def)
  then show ?thesis using assms keeps_trans[of w1 w2 w3] undisturbed_trans[of "sta w1 j" "sta w2 j" "sta w3 j" for j]
    unfolding calm_def by simp
qed

lemma calm_mono: "calm {} w w' \<Longrightarrow> calm X w w'"
  by (auto simp: calm_def)

lemma calm_changed: "calm {} w w' \<Longrightarrow> j \<in> set (w_list w) \<Longrightarrow> sm_in_step_loop (sta w j) \<Longrightarrow> sm_changed (sta w' j) = sm_changed (sta w j)"
  and calm_in_loop: "calm X w w' \<Longrightarrow> j \<in> set (w_list w) \<Longrightarrow> sm_in_step_loop (sta w' j) = sm_in_step_loop (sta w j)"
  by (auto simp: calm_def)

lemma calm_dest: "calm X w w' \<Longrightarrow> good w' \<and> all_idle w' \<and> w_list w' = w_list w \<and> length (w_groups w') = length (w_groups w)"
  by (simp add: calm_def keeps_def)

definition ends_step :: "nat \<Rightarrow> (nat \<Rightarrow> wpa_world \<Rightarrow> wpa_world) \<Rightarrow> bool" where
  "ends_step n step \<longleftrightarrow> (\<forall>w i. good w \<longrightarrow> all_idle w \<longrightarrow> i \<in> set (w_list w) \<longrightarrow> world_weight w < n \<longrightarrow>
     calm {} w (step i w) \<and> world_weight (step i w) \<le> world_weight w \<and>
     (\<not> sm_in_step_loop (sta w i) \<longrightarrow> settled (sta (step i w) i)))"

lemma flag_station_weight:
  assumes "good w" "all_idle w" "i \<in> set (w_list w)"
  shows "calm {} w (flag_station i w)" "world_weight (flag_station i w) \<le> world_weight w + 7"
proof -
  let ?s = "sta w i"
  have idle: "idle_ok ?s" using assms by (simp add: all_idle_def)
  have sta': "sta (flag_station i w) j = (if j = i then ?s\<lparr>sm_GUpdateStationKeys := True\<rparr> else sta w j)" for j
    by (simp add: flag_station_def Let_def)
  show "calm {} w (flag_station i w)"
    using good_flag[OF assms(1,3)] assms(2) idle
    by (auto simp: calm_def sta' all_idle_def keeps_def idle_ok_def) (simp_all add: flag_station_def Let_def)
  have gr: "map (group_weight (length (w_list w))) (w_groups (flag_station i w)) = map (group_weight (length (w_list w))) (w_groups w)"
    unfolding flag_station_def Let_def set_sta_simps set_group_simps
    by (rule map_list_update_same) (use good_dest(3)[OF assms(1,3)] in \<open>simp_all add: group_weight_def\<close>)
  have l: "w_list (flag_station i w) = w_list w" by (simp add: flag_station_def Let_def)
  have "sm_weight (?s\<lparr>sm_GUpdateStationKeys := True\<rparr>) \<le> sm_weight ?s + 7"
    by (cases "sm_ptk_group_state ?s") (simp_all add: sm_weight_def)
  then show "world_weight (flag_station i w) \<le> world_weight w + 7"
    using world_weight_station[OF assms(1,3) l _ gr] sta' by simp
qed

lemma unflag_station_weight:
  assumes "good w" "all_idle w" "i \<in> set (w_list w)"
  defines "w' \<equiv> set_sta i (\<lambda>s. s\<lparr>sm_GUpdateStationKeys := False\<rparr>) w"
  shows "calm {} w w'" "world_weight w' \<le> world_weight w"
proof -
  have idle: "idle_ok (sta w i)" using assms by (simp add: all_idle_def)
  show "calm {} w w'" using good_unflag[OF assms(1,3)] assms(2) idle
    by (auto simp: calm_def all_idle_def idle_ok_def w'_def)
  have "sm_weight ((sta w i)\<lparr>sm_GUpdateStationKeys := False\<rparr>) \<le> sm_weight (sta w i)"
    using group_rank_mono[of "sm_ptk_group_state (sta w i)"] by (simp add: sm_weight_def)
  then show "world_weight w' \<le> world_weight w"
    using world_weight_station[OF assms(1,3), of w'] by (simp add: w'_def)
qed

lemma update_sta_weight:
  assumes "ends_step n step" "good w" "all_idle w" "i \<in> set (w_list w)" "world_weight w + 7 < n"
  shows "calm {} w (wpa_group_update_sta step i w) \<and> world_weight (wpa_group_update_sta step i w) \<le> world_weight w + 7"
proof (cases "sm_ptk_state (sta w i) = WPA_PTK_PTKINITDONE")
  case True
  let ?w = "flag_station i w"
  note f = flag_station_weight[OF assms(2-4)]
  have "calm {} ?w (step i ?w) \<and> world_weight (step i ?w) \<le> world_weight ?w"
    using assms(1,4,5) calm_dest[OF f(1)] f(2) unfolding ends_step_def by simp
  then show ?thesis using True f calm_trans[OF f(1)] by (auto simp: wpa_group_update_sta_def)
next
  case False
  then show ?thesis using unflag_station_weight[OF assms(2-4)] by (simp add: wpa_group_update_sta_def)
qed

lemma fold_update_weight:
  assumes "ends_step n step"
  shows "good w \<Longrightarrow> all_idle w \<Longrightarrow> set xs \<subseteq> set (w_list w) \<Longrightarrow> world_weight w + 7 * length xs < n \<Longrightarrow>
    calm {} w (fold (wpa_group_update_sta step) xs w) \<and>
    world_weight (fold (wpa_group_update_sta step) xs w) \<le> world_weight w + 7 * length xs"
proof (induction xs arbitrary: w)
  case Nil
  then show ?case by (simp add: calm_refl)
next
  case (Cons x xs)
  let ?w = "wpa_group_update_sta step x w"
  have 1: "calm {} w ?w \<and> world_weight ?w \<le> world_weight w + 7"
    using update_sta_weight[OF assms Cons.prems(1,2)] Cons.prems(3,4) by simp
  then have "calm {} ?w (fold (wpa_group_update_sta step) xs ?w) \<and>
      world_weight (fold (wpa_group_update_sta step) xs ?w) \<le> world_weight ?w + 7 * length xs"
    using Cons.IH[of ?w] Cons.prems(3,4) calm_dest[of "{}" w ?w] by simp
  then show ?case using 1 calm_trans[of "{}" w ?w] by auto
qed

text \<open>A step of the group machine does nothing or uses up weight.\<close>

lemma setkeysdone_weight:
  fixes E
  assumes "good w" "all_idle w" "g < length (w_groups w)" "g_state (w_groups w ! g) \<noteq> WPA_GROUP_SETKEYSDONE"
  defines "w' \<equiv> on_group (wpa_group_setkeysdone E) g w"
  shows "calm {} w w'" "world_weight w' < world_weight w"
proof -
  show "calm {} w w'" using good_setkeysdone[OF assms(1,3)] assms(2) by (simp add: calm_def all_idle_def w'_def)
  show "world_weight w' < world_weight w"
    using world_weight_group[of w' w g "fst (wpa_group_setkeysdone E (w_au w) (w_groups w ! g) (w_tr w))"] assms(3,4)
    by (simp add: w'_def setkeysdone_fst group_weight_def)
qed

lemma setkeys_weight:
  fixes E
  assumes "ends_step n step" "good w" "all_idle w" "g < length (w_groups w)" "world_weight w \<le> n" "g_GTKReKey (w_groups w ! g)"
  defines "w' \<equiv> wpa_group_setkeys E step g w"
  shows "calm {} w w'" "world_weight w' < world_weight w"
proof -
  let ?w = "setkeys_start E g w" and ?n = "length (w_list w)"
  obtain gr where gr: "w_groups ?w = (w_groups w)[g := gr]" "\<not> g_GTKReKey gr" "g_state gr = WPA_GROUP_SETKEYS"
    using setkeys_start_groups[OF assms(4)] by metis
  have 1: "calm {} w ?w" using good_setkeys_start[OF assms(2,4)] assms(3) by (simp add: calm_def all_idle_def setkeys_start_simps)
  have "world_weight ?w + group_weight ?n (w_groups w ! g) = world_weight w + group_weight ?n gr"
    using world_weight_group[OF _ _ assms(4) gr(1)] by (simp add: setkeys_start_simps)
  then have wt: "world_weight ?w + 7 * ?n + 1 \<le> world_weight w"
    using assms(6) gr(2,3) by (simp add: group_weight_def)
  have 2: "calm {} ?w w' \<and> world_weight w' \<le> world_weight ?w + 7 * ?n"
    using fold_update_weight[OF assms(1), of ?w "w_list w"] calm_dest[OF 1] wt assms(5)
    by (simp add: w'_def wpa_group_setkeys_def Let_def)
  show "calm {} w w'" using calm_trans[OF 1] 2 by blast
  show "world_weight w' < world_weight w" using 2 wt by linarith
qed

lemma group_sm_step_weight:
  fixes E
  assumes "ends_step n step" "good w" "all_idle w" "g < length (w_groups w)" "world_weight w \<le> n"
  defines "w' \<equiv> wpa_group_sm_step E step g w"
  shows "calm {} w w' \<and> (w' = w \<or> world_weight w' < world_weight w)"
  using setkeysdone_weight[OF assms(2-4), where E = E] setkeys_weight[OF assms(1-5), where E = E] good_dest(5)[OF assms(2,4)]
    calm_refl[OF assms(2,3)]
  by (auto simp: w'_def wpa_group_sm_step_def Let_def)

section \<open>The loops end\<close>

lemma station_weight:
  assumes "good w" "all_idle w" "i \<in> set (w_list w)" "sm_fixed (cx_sm (f (load i w))) = sm_fixed (sta w i)"
    "g_fixed (cx_gr (f (load i w))) = g_fixed (w_groups w ! sm_group (sta w i))"
    "lighter (sta w i) (cx_sm (f (load i w)))" "good (on_sta i f w)" "keeps w (on_sta i f w)"
  shows "calm {i} w (on_sta i f w)" "world_weight (on_sta i f w) \<le> world_weight w"
    "sm_changed (sta (on_sta i f w) i) \<Longrightarrow> sm_changed (sta w i) \<or> world_weight (on_sta i f w) < world_weight w"
proof -
  let ?w = "on_sta i f w"
  have g: "sm_group (cx_sm (f (load i w))) = sm_group (sta w i)" "sm_in_step_loop (cx_sm (f (load i w))) = sm_in_step_loop (sta w i)"
    using assms(4) by (simp_all add: sm_fixed_def)
  show "calm {i} w ?w"
    using assms(2,6-8) g by (auto simp: calm_def all_idle_def lighter_def)
  have "map (group_weight (length (w_list w))) (w_groups ?w) = map (group_weight (length (w_list w))) (w_groups w)"
    unfolding on_sta_simps g by (rule map_list_update_same) (use good_dest(3)[OF assms(1,3)] group_weight_fixed[OF assms(5)] in simp_all)
  then have "world_weight ?w + sm_weight (sta w i) = world_weight w + sm_weight (sta ?w i)"
    using world_weight_station[OF assms(1,3), of ?w] by simp
  then show "world_weight ?w \<le> world_weight w"
    "sm_changed (sta ?w i) \<Longrightarrow> sm_changed (sta w i) \<or> world_weight ?w < world_weight w"
    using assms(6) by (auto simp: lighter_def)
qed

lemma clear_changed_weight:
  assumes "good w" "all_idle w" "i \<in> set (w_list w)"
  shows "calm {i} w (clear_changed i w)" "world_weight (clear_changed i w) = world_weight w"
    "\<not> sm_changed (sta (clear_changed i w) i)" "\<not> g_changed (w_groups (clear_changed i w) ! 0)"
proof -
  let ?w = "clear_changed i w"
  have sta': "sta ?w j = (if j = i then (sta w i)\<lparr>sm_changed := False\<rparr> else sta w j)" for j by (simp add: clear_changed_def)
  have grp: "w_groups ?w = (w_groups w)[0 := (w_groups w ! 0)\<lparr>g_changed := False\<rparr>]" "w_list ?w = w_list w" "w_stuck ?w = w_stuck w"
    by (simp_all add: clear_changed_def)
  have 0: "0 < length (w_groups w)" using good_dest(1)[OF assms(1)] by simp
  show "calm {i} w ?w" using good_clear[OF assms(1,3)] assms(2) grp by (auto simp: calm_def all_idle_def sta' idle_ok_def)
  have "map (group_weight (length (w_list w))) (w_groups ?w) = map (group_weight (length (w_list w))) (w_groups w)"
    unfolding grp by (rule map_list_update_same) (use 0 in \<open>simp_all add: group_weight_def\<close>)
  then show "world_weight ?w = world_weight w"
    using world_weight_station[OF assms(1,3), of ?w] grp sta' by (simp add: sm_weight_def)
  show "\<not> sm_changed (sta ?w i)" "\<not> g_changed (w_groups ?w ! 0)" using sta' grp 0 by simp_all
qed

lemma ends_step_with:
  assumes loop: "\<And>w i. good w \<Longrightarrow> all_idle w \<Longrightarrow> i \<in> set (w_list w) \<Longrightarrow> world_weight w < n \<Longrightarrow> sm_in_step_loop (sta w i) \<Longrightarrow>
    calm {i} w (loop i w) \<and> world_weight (loop i w) \<le> world_weight w \<and> settled (sta (loop i w) i)"
  shows "ends_step n (sm_step_with loop)"
  unfolding ends_step_def
proof (intro allI impI)
  fix w i assume w: "good w" "all_idle w" "i \<in> set (w_list w)" "world_weight w < n"
  have set: "good w' \<Longrightarrow> all_idle w' \<Longrightarrow> i \<in> set (w_list w') \<Longrightarrow>
      (let w2 = set_sta i (\<lambda>s. s\<lparr>sm_in_step_loop := b\<rparr>) w' in
       good w2 \<and> all_idle w2 \<and> keeps w' w2 \<and> world_weight w2 = world_weight w')" for b w'
    using good_in_loop[of w' i b] world_weight_station[of w' i "set_sta i (\<lambda>s. s\<lparr>sm_in_step_loop := b\<rparr>) w'"]
    by (auto simp: Let_def all_idle_def idle_ok_def sm_weight_def)
  let ?w1 = "set_sta i (\<lambda>s. s\<lparr>sm_in_step_loop := True\<rparr>) w"
  let ?w2 = "loop i ?w1"
  let ?w3 = "set_sta i (\<lambda>s. s\<lparr>sm_in_step_loop := False\<rparr>) ?w2"
  note 1 = set[OF w(1-3), of True, unfolded Let_def]
  have 2: "calm {i} ?w1 ?w2 \<and> world_weight ?w2 \<le> world_weight ?w1 \<and> settled (sta ?w2 i)" using loop[of ?w1 i] 1 w by simp
  have l2: "good ?w2" "all_idle ?w2" "w_list ?w2 = w_list w" using calm_dest[of "{i}" ?w1 ?w2] 2 by simp_all
  note 3 = set[OF l2(1,2), of False, unfolded Let_def]
  have w3: "good ?w3" "all_idle ?w3" "keeps ?w2 ?w3" "world_weight ?w3 = world_weight ?w2" using 3 l2(3) w(3) by simp_all
  have k: "keeps w ?w3" using keeps_trans[of w ?w1 ?w3] keeps_trans[of ?w1 ?w2 ?w3] 1 2 w3 unfolding calm_def by blast
  have "\<not> sm_pending_deinit (sta ?w3 i)" using good_dest(4)[OF w3(1), of i] l2(3) w(3) by simp
  then have "sm_step_with loop i w = (if sm_in_step_loop (sta w i) then w else ?w3)"
    by (simp add: sm_step_with_def Let_def)
  moreover have "calm {} w ?w3 \<and> world_weight ?w3 \<le> world_weight w \<and> settled (sta ?w3 i)" if "\<not> sm_in_step_loop (sta w i)"
  proof -
    have "settled (sta ?w3 i)" using 2 by (simp add: settled_def no_request_def)
    moreover have "undisturbed (sta w j) (sta ?w3 j)" if "j \<in> set (w_list w)" for j
    proof (cases "j = i")
      case True
      then show ?thesis using \<open>settled (sta ?w3 i)\<close> by (simp add: undisturbed_def)
    next
      case False
      then show ?thesis using conjunct1[OF 2] that by (simp add: calm_def)
    qed
    ultimately show ?thesis using that 1 2 w3 k by (auto simp: calm_def)
  qed
  ultimately show "calm {} w (sm_step_with loop i w) \<and> world_weight (sm_step_with loop i w) \<le> world_weight w \<and>
      (\<not> sm_in_step_loop (sta w i) \<longrightarrow> settled (sta (sm_step_with loop i w) i))"
    using calm_refl[OF w(1,2)] by simp
qed

lemma loop_ends:
  "good w \<Longrightarrow> all_idle w \<Longrightarrow> i \<in> set (w_list w) \<Longrightarrow> world_weight w < n \<Longrightarrow> sm_in_step_loop (sta w i) \<Longrightarrow>
    calm {i} w (wpa_sm_loop E n i w) \<and> world_weight (wpa_sm_loop E n i w) \<le> world_weight w \<and>
    settled (sta (wpa_sm_loop E n i w) i)"
proof (induction n arbitrary: w i)
  case (Suc n)
  define w0 where "w0 = clear_changed i w"
  define w1 where "w1 = on_sta i (sm_WPA_PTK_Step E) w0"
  define w2 where "w2 = on_sta i (sm_WPA_PTK_GROUP_Step E) w1"
  define w3 where "w3 = wpa_group_sm_step E (sm_step_with (wpa_sm_loop E n)) (sm_group (sta w2 i)) w2"
  note w = Suc.prems(1-3)
  note c = clear_changed_weight[OF w, folded w0_def]
  have m0: "good w0" "all_idle w0" "i \<in> set (w_list w0)" using calm_dest[OF c(1)] w by simp_all
  note a1 = station_weight[OF m0 _ _ _ good_ptk[OF m0(1,3)] keeps_ptk[OF m0(1,3)], of E, folded w1_def]
  have l1: "calm {i} w0 w1" "world_weight w1 \<le> world_weight w0"
    "sm_changed (sta w1 i) \<Longrightarrow> sm_changed (sta w0 i) \<or> world_weight w1 < world_weight w0"
    using a1 PTK_Step_fixed[of E "load i w0"] PTK_Step_group[of E "load i w0"] lighter_ptk[of "load i w0" E] m0
    by (simp_all add: all_idle_def)
  have m1: "good w1" "all_idle w1" "i \<in> set (w_list w1)" using calm_dest[OF l1(1)] m0 by simp_all
  have "sm_Init (sta w1 i) \<longrightarrow> \<not> sm_GUpdateStationKeys (sta w1 i)"
    using init_unflagged[of "load i w0" E] PTK_Step_fixed[of E "load i w0"] by (simp add: sm_fixed_def w1_def)
  then have "lighter (sta w1 i) (cx_sm (sm_WPA_PTK_GROUP_Step E (load i w1)))"
    using lighter_grp[of "load i w1" E] m1 unfolding all_idle_def load_simps by blast
  then have l2: "calm {i} w1 w2" "world_weight w2 \<le> world_weight w1"
    "sm_changed (sta w2 i) \<Longrightarrow> sm_changed (sta w1 i) \<or> world_weight w2 < world_weight w1"
    using station_weight[OF m1 _ _ _ good_grp[OF m1(1,3)] keeps_grp[OF m1(1,3)], of E, folded w2_def]
      GROUP_Step_fixed[of E "load i w1"] unfolding load_simps by blast+
  have c2: "calm {i} w w2" using calm_trans[OF c(1) calm_trans[OF l1(1) l2(1)]] .
  have m2: "good w2" "all_idle w2" "i \<in> set (w_list w2)" using calm_dest[OF c2] w by simp_all
  have ih: "ends_step n (sm_step_with (wpa_sm_loop E n))" by (rule ends_step_with) (rule Suc.IH)
  have wt2: "world_weight w2 \<le> n" using l1(2) l2(2) c(2) Suc.prems(4) by linarith
  note g = group_sm_step_weight[OF ih m2(1,2) good_dest(3)[OF m2(1,3)] wt2, where E = E, folded w3_def]
  have c3: "calm {i} w w3" using calm_trans[OF c2 calm_mono[OF conjunct1[OF g]]] .
  have m3: "good w3" "all_idle w3" "i \<in> set (w_list w3)" using calm_dest[OF c3] w by simp_all
  have "sm_in_step_loop (sta w2 i)" using calm_in_loop[OF c2 w(3)] Suc.prems(5) by simp
  then have s3: "sm_changed (sta w3 i) = sm_changed (sta w2 i)" using calm_changed[OF conjunct1[OF g] m2(3)] by simp
  have "g_changed (w_groups w2 ! 0) = g_changed (w_groups w0 ! 0)"
    using PTK_Step_group[of E "load i w0"] PTK_Step_fixed[of E "load i w0"] GROUP_Step_fixed(1,2)[of E "load i w1"]
      good_dest(1)[OF m0(1)] good_dest(3)[OF m0(1,3)]
    by (cases "sm_group (sta w0 i) = 0") (simp_all add: g_fixed_def sm_fixed_def w1_def w2_def)
  then have same: "g_changed (w_groups w2 ! 0) = False" using c(4) by simp
  have le: "world_weight w3 \<le> world_weight w2" "world_weight w2 \<le> world_weight w" using c(2) l1(2) l2(2) g by auto
  have less: "world_weight w3 < world_weight w" if "sm_changed (sta w3 i) \<or> g_changed (w_groups w3 ! 0)"
  proof (cases "w3 = w2")
    case True
    then have "sm_changed (sta w2 i)" using that same by simp
    then show ?thesis using l1(2,3) l2(2,3) c(2,3) True by fastforce
  next
    case False
    then show ?thesis using g le by simp
  qed
  have set: "settled (sta w3 i)" if "\<not> sm_changed (sta w3 i)"
  proof -
    have ch: "\<not> sm_changed (sta w2 i)" using that s3 by simp
    have "settled (sta w1 i)"
    proof (cases "sm_Init (sta w0 i)")
      case True
      then show ?thesis using init_initialized[of "load i w0" E] by (simp add: w1_def)
    next
      case False
      then have "\<not> sm_Init (sta w1 i)" using PTK_Step_fixed[of E "load i w0"] by (simp add: sm_fixed_def w1_def)
      then have "\<not> sm_changed (sta w1 i)" using changed_grp[of "load i w1" E] ch by (auto simp: w2_def)
      then show ?thesis using settled_ptk[of E "load i w0"] by (simp add: w1_def)
    qed
    then have "settled (sta w2 i)" using settled_grp[of "load i w1" E] ch by (simp add: w2_def)
    then show ?thesis using conjunct1[OF g] m2(3) undisturbed_settled[of "sta w2 i" "sta w3 i"] by (simp add: calm_def)
  qed
  have again: "calm {i} w3 (wpa_sm_loop E n i w3) \<and> world_weight (wpa_sm_loop E n i w3) \<le> world_weight w3 \<and>
      settled (sta (wpa_sm_loop E n i w3) i)"
    if "sm_changed (sta w3 i) \<or> g_changed (w_groups w3 ! 0)"
    using Suc.IH[OF m3] less[OF that] Suc.prems(4,5) calm_in_loop[OF c3 w(3)] by simp
  have "wpa_sm_loop E (Suc n) i w =
      (if sm_changed (sta w3 i) \<or> g_changed (w_groups w3 ! 0) then wpa_sm_loop E n i w3 else w3)"
    using good_dest(4)[OF w(1,3)] good_dest(4)[OF m1(1,3)] good_dest(4)[OF m2(1,3)]
    unfolding w1_def w2_def w3_def w0_def by (simp only: wpa_sm_loop.simps Let_def if_False)
  then show ?case using c3 le again calm_trans[OF c3] set by (auto intro: le_trans)
qed simp

lemma wpa_step_ends: "ends_step n (sm_step_with (wpa_sm_loop E n))"
  by (rule ends_step_with) (rule loop_ends)

section \<open>The inputs end\<close>

lemma sum_list_bound: "(\<And>x. x \<in> set xs \<Longrightarrow> f x \<le> (k :: nat)) \<Longrightarrow> sum_list (map f xs) \<le> k * length xs"
  by (induction xs) (auto simp: add_mono)

lemma world_weight_fuel: "world_weight w < wpa_fuel w"
proof -
  have "(\<Sum>i\<leftarrow>w_list w. sm_weight (sta w i)) \<le> 57 * length (w_list w)"
    by (rule sum_list_bound) (rule sm_weight_le)
  moreover have "(\<Sum>g\<leftarrow>w_groups w. group_weight (length (w_list w)) g) \<le> (3 + 7 * length (w_list w)) * length (w_groups w)"
    by (rule sum_list_bound) (simp add: group_weight_def flag_weight_def)
  ultimately show ?thesis unfolding world_weight_def wpa_fuel_def by linarith
qed

text \<open>The world between two inputs.\<close>

definition resting :: "wpa_world \<Rightarrow> bool" where
  "resting w \<longleftrightarrow> good w \<and> all_idle w \<and> (\<forall>i \<in> set (w_list w). \<not> sm_in_step_loop (sta w i))"

definition rests :: "wpa_world \<Rightarrow> wpa_world \<Rightarrow> bool" where
  "rests w w' \<longleftrightarrow> resting w' \<and> w_stuck w' = w_stuck w \<and> w_list w' = w_list w \<and> length (w_groups w') = length (w_groups w)"

lemma rests_trans: "rests w1 w2 \<Longrightarrow> rests w2 w3 \<Longrightarrow> rests w1 w3"
  by (simp add: rests_def)

lemma rests_refl: "resting w \<Longrightarrow> rests w w"
  by (simp add: rests_def)

lemma resting_cong:
  "w_sm w' = w_sm w \<Longrightarrow> w_list w' = w_list w \<Longrightarrow> w_groups w' = w_groups w \<Longrightarrow> resting w' = resting w"
  by (simp add: resting_def good_def all_idle_def sta_def)

lemma rests_w_act: "rests w w' \<Longrightarrow> rests w (w_act a w')"
  using resting_cong[of "w_act a w'" w'] by (simp add: rests_def)

lemma rests_fuel: "rests w w' \<Longrightarrow> wpa_fuel w' = wpa_fuel w"
  by (simp add: rests_def wpa_fuel_def)

lemma calm_rests: "resting w \<Longrightarrow> calm {} w w' \<Longrightarrow> rests w w'"
  by (auto simp: rests_def resting_def calm_def keeps_def)

lemma rests_sm_step:
  assumes "resting w" "wpa_fuel w \<le> n"
  shows "rests w (wpa_sm_step E n i w)"
proof -
  have w: "good w" "all_idle w" using assms by (simp_all add: resting_def)
  have "world_weight w < n" using world_weight_fuel[of w] assms(2) by linarith
  then have "calm {} w (sm_step_with (wpa_sm_loop E n) i w)" if "i \<in> set (w_list w)"
    using wpa_step_ends[of n E] w that by (simp add: ends_step_def)
  then show ?thesis
    using calm_rests[OF assms(1)] rests_refl[OF assms(1)] good_dest(6)[OF w(1), of i]
    by (auto simp: wpa_sm_step_def split: option.split)
qed

lemma settles_sm_step:
  assumes "resting w" "wpa_fuel w \<le> n" "i \<in> set (w_list w)"
  shows "settled (sta (wpa_sm_step E n i w) i)"
    "j \<in> set (w_list w) \<Longrightarrow> undisturbed (sta w j) (sta (wpa_sm_step E n i w) j)"
proof -
  have w: "good w" "all_idle w" "\<not> sm_in_step_loop (sta w i)" using assms by (simp_all add: resting_def)
  have "world_weight w < n" using world_weight_fuel[of w] assms(2) by linarith
  then have "calm {} w (sm_step_with (wpa_sm_loop E n) i w) \<and> settled (sta (sm_step_with (wpa_sm_loop E n) i w) i)"
    using wpa_step_ends[of n E] w assms(3) by (simp add: ends_step_def)
  moreover have "wpa_sm_step E n i w = sm_step_with (wpa_sm_loop E n) i w"
    using good_dest(6)[OF w(1), of i] assms(3) by (auto simp: wpa_sm_step_def)
  ultimately show "settled (sta (wpa_sm_step E n i w) i)"
    "j \<in> set (w_list w) \<Longrightarrow> undisturbed (sta w j) (sta (wpa_sm_step E n i w) j)"
    by (simp_all add: calm_def)
qed

lemma group_loop_ends:
  "good w \<Longrightarrow> all_idle w \<Longrightarrow> g < length (w_groups w) \<Longrightarrow> world_weight w < n \<Longrightarrow> calm {} w (group_loop E n g w)"
proof (induction n arbitrary: w)
  case (Suc n)
  define w1 where "w1 = set_group g (\<lambda>gr. gr\<lparr>g_changed := False\<rparr>) w"
  define w2 where "w2 = wpa_group_sm_step E (sm_step_with (wpa_sm_loop E n)) g w1"
  have 1: "calm {} w w1"
    using good_set_group[OF Suc.prems(1,3), of "\<lambda>gr. gr\<lparr>g_changed := False\<rparr>"] good_dest(5)[OF Suc.prems(1,3)] Suc.prems(2)
    by (simp add: calm_def all_idle_def w1_def)
  have wt: "world_weight w1 = world_weight w"
    using world_weight_group[of w1 w g "(w_groups w ! g)\<lparr>g_changed := False\<rparr>"] Suc.prems(3) by (simp add: w1_def group_weight_def)
  have m1: "good w1" "all_idle w1" "g < length (w_groups w1)" using calm_dest[OF 1] Suc.prems(3) by simp_all
  have u: "\<not> g_changed (w_groups w1 ! g)" using Suc.prems(3) by (simp add: w1_def)
  have 2: "calm {} w1 w2 \<and> (w2 = w1 \<or> world_weight w2 < world_weight w1)"
    unfolding w2_def using group_sm_step_weight[OF wpa_step_ends m1] wt Suc.prems(4) by simp
  have m2: "good w2" "all_idle w2" "g < length (w_groups w2)" using calm_dest[OF conjunct1[OF 2]] m1 by simp_all
  have "calm {} w2 (group_loop E n g w2)" if "g_changed (w_groups w2 ! g)"
    using Suc.IH[OF m2] 2 that u wt Suc.prems(4) by fastforce
  then show ?case
    using calm_trans[OF 1] calm_trans[OF conjunct1[OF 2]] 2 by (simp add: Let_def w1_def[symmetric] w2_def[symmetric])
qed simp

lemma calm_w_act: "calm X w w' \<Longrightarrow> calm X w (w_act a w')"
proof -
  have "sta (w_act a w') j = sta w' j" for j by (simp add: sta_def)
  then show "calm X w w' \<Longrightarrow> ?thesis" by (auto simp: calm_def all_idle_def good_def keeps_def)
qed

lemma calm_rekey_gtk:
  assumes "resting w" "wpa_fuel w \<le> n"
  shows "calm {} w (wpa_rekey_gtk E n w)"
proof -
  let ?f = "\<lambda>g w. group_loop E n g (set_group g (\<lambda>gr. gr\<lparr>g_GTKReKey := True\<rparr>) w)"
  have f: "calm {} w (?f g w)" if "resting w" "wpa_fuel w \<le> n" "g < length (w_groups w)" for g w
  proof -
    let ?w1 = "set_group g (\<lambda>gr. gr\<lparr>g_GTKReKey := True\<rparr>) w"
    have w: "good w" "all_idle w" using that by (simp_all add: resting_def)
    have 1: "calm {} w ?w1"
      using good_set_group[OF w(1) that(3), of "\<lambda>gr. gr\<lparr>g_GTKReKey := True\<rparr>"] good_dest(5)[OF w(1) that(3)] w(2)
      by (simp add: calm_def all_idle_def)
    have "world_weight ?w1 < n"
      using world_weight_fuel[of ?w1] rests_fuel[OF calm_rests[OF that(1) 1]] that(2) by linarith
    then show ?thesis using calm_trans[OF 1 group_loop_ends] calm_dest[OF 1] that(3) by simp
  qed
  have "set gs \<subseteq> {..<length (w_groups w)} \<Longrightarrow> resting w \<Longrightarrow> wpa_fuel w \<le> n \<Longrightarrow> calm {} w (fold ?f gs w)" for gs w
  proof (induction gs arbitrary: w)
    case Nil
    then show ?case by (simp add: calm_refl resting_def)
  next
    case (Cons g gs)
    have 1: "calm {} w (?f g w)" using f Cons.prems by simp
    note r = calm_rests[OF Cons.prems(2) 1]
    have "calm {} (?f g w) (fold ?f gs (?f g w))"
      using Cons.IH[of "?f g w"] Cons.prems rests_fuel[OF r] r by (simp add: rests_def)
    then show ?case using calm_trans[OF 1] by simp
  qed
  then have "calm {} w (fold ?f (group_order w) w)" using assms by (simp add: group_order_members)
  then show ?thesis by (simp add: wpa_rekey_gtk_def Let_def calm_w_act)
qed

lemma rests_rekey_gtk: "resting w \<Longrightarrow> wpa_fuel w \<le> n \<Longrightarrow> rests w (wpa_rekey_gtk E n w)"
  using calm_rests calm_rekey_gtk by blast

end
