(* ===== verification/Wpa_Auth_Inputs.thy ===== *)
theory Wpa_Auth_Inputs
  imports Wpa_Auth_Term
begin

text \<open>
  Every input of the WPA authenticator is handled to its end with the fuel of \<open>wpa_fuel\<close>, and leaves a
  world that is ready for the next one.
\<close>

section \<open>Handlers outside the loops\<close>

text \<open>What the frame handlers and the other direct updates leave alone.\<close>

definition mild :: "wpa_ctx \<Rightarrow> wpa_ctx \<Rightarrow> bool" where
  "mild c c' \<longleftrightarrow> sm_group (cx_sm c') = sm_group (cx_sm c) \<and> sm_pending_deinit (cx_sm c') = sm_pending_deinit (cx_sm c) \<and>
     sm_in_step_loop (cx_sm c') = sm_in_step_loop (cx_sm c) \<and> sm_ptk_group_state (cx_sm c') = sm_ptk_group_state (cx_sm c) \<and>
     sm_GTimeoutCtr (cx_sm c') = sm_GTimeoutCtr (cx_sm c) \<and> g_GInit (cx_gr c') = g_GInit (cx_gr c)"

lemma mild_trans: "mild a b \<Longrightarrow> mild b c \<Longrightarrow> mild a c"
  by (simp add: mild_def)

lemma rests_save:
  assumes "resting w" "i \<in> set (w_list w)" "mild (load i w) c"
  shows "rests w (save i c w)"
proof -
  have g: "good w" using assms(1) by (simp add: resting_def)
  have "on_sta i (\<lambda>_. c) w = save i c w" by (simp add: on_sta_def)
  moreover have "good (on_sta i (\<lambda>_. c) w)"
    by (rule good_on_sta) (use assms(3) g assms(2) good_dest(4)[OF g assms(2)] good_dest(5)[OF g good_dest(3)[OF g assms(2)]]
      in \<open>simp_all add: mild_def\<close>)
  moreover have "sta (on_sta i (\<lambda>_. c) w) j = (if j = i then cx_sm c else sta w j)" for j by simp
  ultimately show ?thesis
    using assms by (auto simp: rests_def resting_def all_idle_def mild_def idle_ok_def save_def)
qed

lemma rests_on_sta: "resting w \<Longrightarrow> i \<in> set (w_list w) \<Longrightarrow> mild (load i w) (f (load i w)) \<Longrightarrow> rests w (on_sta i f w)"
  using rests_save[of w i "f (load i w)"] by (simp add: on_sta_def)

lemma rests_set_sta:
  assumes "resting w" "i \<in> set (w_list w)" "sm_group (f (sta w i)) = sm_group (sta w i)"
    "sm_pending_deinit (f (sta w i)) = sm_pending_deinit (sta w i)" "sm_in_step_loop (f (sta w i)) = sm_in_step_loop (sta w i)"
    "sm_ptk_group_state (f (sta w i)) = sm_ptk_group_state (sta w i)" "sm_GTimeoutCtr (f (sta w i)) = sm_GTimeoutCtr (sta w i)"
  shows "rests w (set_sta i f w)"
proof -
  have g: "good w" using assms(1) by (simp add: resting_def)
  then have "good (set_sta i f w)" using good_set_sta[OF g assms(2)] assms(3,4) good_dest(4)[OF g assms(2)] by simp
  then show ?thesis using assms by (auto simp: rests_def resting_def all_idle_def idle_ok_def)
qed

lemma rests_on_group:
  assumes "resting w" "g < length (w_groups w)" "g_GInit (fst (f (w_au w) (w_groups w ! g) (w_tr w))) = g_GInit (w_groups w ! g)"
  shows "rests w (on_group f g w)"
proof -
  have w: "good w" using assms(1) by (simp add: resting_def)
  then have "good (on_group f g w)" using good_on_group[OF w assms(2)] assms(3) good_dest(5)[OF w assms(2)] by simp
  then show ?thesis using assms(1) by (simp add: rests_def resting_def all_idle_def)
qed

section \<open>Received frames\<close>

lemma rx_mild:
  "mild c (snd (rx_pairwise_2 data c))" "mild c (snd (rx_state_check data c))" "mild c (snd (rx_mic E data c))"
  "mild c (snd (rx_request data c))" "mild c (snd (rx_store E data c))" "mild c (rx_error_report c)"
proof -
  show 2: "mild c (snd (rx_pairwise_2 data c))" for c
    by (simp add: rx_pairwise_2_def Let_def mild_def split: prod.split)
  show "mild c (snd (rx_state_check data c))" using 2[of c] by (cases "rx_msg data") (simp_all add: rx_state_check_def mild_def)
  show "mild c (snd (rx_mic E data c))" by (simp add: rx_mic_def Let_def mild_def)
  show "mild c (snd (rx_request data c))" by (simp add: rx_request_def Let_def mild_def wpa_request_new_ptk_def)
  show "mild c (snd (rx_store E data c))" by (simp add: rx_store_def callback_defs mild_def)
  show "mild c (rx_error_report c)" by (simp add: rx_error_report_def Let_def mild_def wpa_request_new_ptk_def)
qed

lemma rx_front_mild: "mild c (snd (rx_front E data c))"
proof -
  obtain go1 c1 where 1: "rx_state_check data c = (go1, c1)" by (cases "rx_state_check data c")
  obtain go2 c2 where 2: "rx_mic E data c1 = (go2, c2)" by (cases "rx_mic E data c1")
  have "mild c c1" "mild c1 c2" "mild c2 (snd (rx_request data c2))"
    using rx_mild(2)[of c data] rx_mild(3)[of c1 E data] rx_mild(4)[of c2 data] 1 2 by simp_all
  then show ?thesis using 1 2 mild_trans by (auto simp: rx_front_def mild_def)
qed

text \<open>Updates of the other parts of the world.\<close>

lemma rests_other:
  assumes "rests w w'"
  shows "rests w (w'\<lparr>w_hapd := h\<rparr>)" "rests w (w'\<lparr>w_au := au\<rparr>)" "rests w (w_act a w')"
  using assms resting_cong[of "w'\<lparr>w_hapd := h\<rparr>" w'] resting_cong[of "w'\<lparr>w_au := au\<rparr>" w'] rests_w_act[OF assms]
  by (simp_all add: rests_def)

lemma rests_gtk_rekey:
  assumes "resting w"
  shows "rests w (wpa_gtk_rekey E w)"
proof -
  let ?f = "\<lambda>au gr tr. snd (wpa_gtk_update E au (gr\<lparr>g_GM := g_GN gr, g_GN := g_GM gr\<rparr>) tr)"
  have 1: "rests w (on_group ?f 0 w)" if "resting w" for w
  proof (rule rests_on_group[OF that])
    show "0 < length (w_groups w)" using that good_dest(1) by (simp add: resting_def)
  qed (simp add: gtk_update_fixed(1)[unfolded g_fixed_def, simplified])
  have "rests w (on_group ?f 0 (on_group ?f 0 w))"
    using rests_trans[OF 1[OF assms] 1] 1[OF assms] by (simp add: rests_def)
  then show ?thesis by (simp add: wpa_gtk_rekey_def Let_def)
qed

lemma rests_drop: "rests w w' \<Longrightarrow> rests w (countermeasures_drop spa w')"
  unfolding countermeasures_drop_def by (intro rests_other)

lemma rests_countermeasures_start: "resting w \<Longrightarrow> rests w (ieee80211_tkip_countermeasures_start E w)"
proof -
  assume w: "resting w"
  have drop: "rests w w' \<Longrightarrow> rests w (fold (\<lambda>i w. countermeasures_drop (sm_addr (sta w i)) w) xs w')" for w' xs
    by (induction xs arbitrary: w') (simp_all add: rests_drop)
  have 1: "rests w (w_act (A_countermeasures True)
      ((wpa_auth_countermeasures_start w)\<lparr>w_hapd := (w_hapd (wpa_auth_countermeasures_start w))\<lparr>h_tkip_countermeasures := True\<rparr>\<rparr>))"
    using rests_refl[OF w] unfolding wpa_auth_countermeasures_start_def by (intro rests_other)
  show ?thesis
    unfolding ieee80211_tkip_countermeasures_start_def Let_def
    by (intro drop rests_other rests_trans[OF 1 rests_gtk_rekey]) (use 1 in \<open>simp add: rests_def\<close>)
qed

lemma rests_michael_mic_failure: "resting w \<Longrightarrow> rests w (michael_mic_failure E local w)"
proof -
  assume w: "resting w"
  define w1 where "w1 = (case local of Some (Some i) \<Rightarrow> wpa_auth_sta_local_mic_failure_report i w | _ \<Rightarrow> w)"
  have g: "good w" using w by (simp add: resting_def)
  have 1: "rests w w1"
    using rests_refl[OF w] rests_set_sta[OF w] good_dest(6)[OF g]
    by (auto simp: w1_def wpa_auth_sta_local_mic_failure_report_def split: option.split)
  have start: "rests w (ieee80211_tkip_countermeasures_start E w')" if "rests w w'" for w'
    using rests_trans[OF that rests_countermeasures_start] that by (simp add: rests_def)
  show ?thesis
    unfolding michael_mic_failure_def Let_def w1_def[symmetric]
    using rests_refl[OF w] rests_other(1)[OF 1] rests_other(1)[OF rests_other(1)[OF 1]]
      rests_other(1)[OF start[OF rests_other(1)[OF 1]]] by simp
qed

lemma rests_receive:
  assumes "resting w" "wpa_fuel w \<le> n"
  shows "rests w (wpa_receive E n i data w)"
proof (cases "c_wpa (a_conf (w_au w)) = 0 \<or> w_sm w i = None")
  case False
  obtain what c where f: "rx_front E data (load i w) = (what, c)" by (cases "rx_front E data (load i w)")
  have i: "i \<in> set (w_list w)" using False assms(1) good_dest(6) by (auto simp: resting_def)
  define w1 where "w1 = save i c w"
  have 1: "rests w w1" unfolding w1_def using rests_save[OF assms(1) i] rx_front_mild[of "load i w" E data] f by simp
  have r1: "resting w1" "i \<in> set (w_list w1)" "wpa_fuel w1 \<le> n" using 1 i assms(2) rests_fuel[OF 1] by (simp_all add: rests_def)
  define w2 where "w2 = rx_side E n i what w1"
  have m: "rests w1 (on_sta i rx_error_report (michael_mic_failure E None w1))"
    using rests_trans[OF rests_michael_mic_failure[OF r1(1)] rests_on_sta[of _ i rx_error_report]] rx_mild(6)
      rests_michael_mic_failure[OF r1(1), of E None] r1(2) by (simp add: rests_def)
  have "rests w1 w2"
    using m rests_rekey_gtk[OF r1(1,3)] rests_refl[OF r1(1)] by (cases what) (simp_all add: w2_def rx_side_def)
  then have 2: "rests w w2" by (rule rests_trans[OF 1])
  obtain go c' where s: "rx_store E data (load i w2) = (go, c')" by (cases "rx_store E data (load i w2)")
  have 3: "rests w (save i c' w2)"
    using rests_trans[OF 2 rests_save] rx_mild(5)[of "load i w2" E data] s 2 i by (simp add: rests_def)
  have "rests w (wpa_sm_step E n i (save i c' w2))"
    using rests_trans[OF 3 rests_sm_step] 3 rests_fuel[OF 3] assms(2) by (simp add: rests_def)
  then show ?thesis
    using False 1 3 f s rests_refl[OF assms(1)] by (simp add: wpa_receive_def Let_def w1_def[symmetric] w2_def[symmetric])
qed (simp add: wpa_receive_def rests_refl[OF assms(1)])

section \<open>Other inputs\<close>

lemma rests_flagged_step:
  assumes "resting w" "wpa_fuel w \<le> n" "i \<in> set (w_list w)" "rests w (set_sta i f w)"
  shows "rests w (wpa_sm_step E n i (set_sta i f w))"
  using rests_trans[OF assms(4) rests_sm_step] rests_fuel[OF assms(4)] assms(2,4) by (simp add: rests_def)

lemma rests_start_sm:
  assumes "resting w" "wpa_fuel w \<le> n" "i \<in> set (w_list w)"
  shows "rests w (start_sm E n i w)"
proof -
  let ?w1 = "set_sta i (\<lambda>s. s\<lparr>sm_started := True, sm_Init := True\<rparr>) w"
  let ?w2 = "wpa_sm_step E n i ?w1"
  have 2: "rests w ?w2" by (rule rests_flagged_step[OF assms]) (rule rests_set_sta[OF assms(1,3)]; simp)
  have r: "resting ?w2" "i \<in> set (w_list ?w2)" using 2 assms(3) by (simp_all add: rests_def)
  have "rests w (set_sta i (\<lambda>s. s\<lparr>sm_Init := False, sm_AuthenticationRequest := True\<rparr>) ?w2)"
    by (rule rests_trans[OF 2 rests_set_sta[OF r]]) simp_all
  then show ?thesis using 2 by (simp add: start_sm_def Let_def split: option.split)
qed

lemma rests_associated:
  assumes "resting w" "wpa_fuel w \<le> n"
  shows "rests w (wpa_auth_sta_associated E n i w)"
proof (cases "w_sm w i")
  case (Some s)
  then have i: "i \<in> set (w_list w)" using assms(1) good_dest(6)[of w i] by (simp add: resting_def)
  have 1: "rests w (wpa_sm_step E n i (set_sta i (\<lambda>s. s\<lparr>sm_key_replay := sm_key_replay (fresh_sm []), sm_ReAuthenticationRequest := True\<rparr>) w))"
    by (rule rests_flagged_step[OF assms i]) (rule rests_set_sta[OF assms(1) i]; simp)
  note st = rests_start_sm[OF assms i, of E]
  have 2: "rests w (wpa_sm_step E n i (start_sm E n i w))"
    using rests_trans[OF st rests_sm_step] st rests_fuel[OF st] assms(2) by (simp add: rests_def)
  show ?thesis using 1 2 rests_refl[OF assms(1)] Some by (simp add: wpa_auth_sta_associated_def)
qed (simp add: wpa_auth_sta_associated_def rests_refl[OF assms(1)])

lemma rests_sm_event:
  assumes "resting w" "wpa_fuel w \<le> n"
  shows "rests w (wpa_auth_sm_event E n i event w)"
proof (cases "w_sm w i")
  case (Some s)
  then have i: "i \<in> set (w_list w)" using assms(1) good_dest(6)[of w i] by (simp add: resting_def)
  define w1 where "w1 = (if event = WPA_DEAUTH \<or> event = WPA_DISASSOC then set_sta i (\<lambda>s. s\<lparr>sm_DeauthenticationRequest := True\<rparr>) w
    else if event = WPA_REAUTH \<or> event = WPA_REAUTH_EAPOL then
      if \<not> sm_started (sta w i) then start_sm E n i w
      else let w = (if sm_GUpdateStationKeys (sta w i)
             then on_sta i (\<lambda>c. upd_s (\<lambda>s. s\<lparr>sm_PtkGroupInit := True\<rparr>) (group_update_done c)) w else w)
           in set_sta i (\<lambda>s. s\<lparr>sm_ReAuthenticationRequest := True\<rparr>) w
    else w)"
  have upd: "rests w (on_sta i (\<lambda>c. upd_s (\<lambda>s. s\<lparr>sm_PtkGroupInit := True\<rparr>) (group_update_done c)) w)"
    by (rule rests_on_sta[OF assms(1) i]) (simp add: mild_def group_update_done_def)
  have re: "rests w (set_sta i (\<lambda>s. s\<lparr>sm_ReAuthenticationRequest := True\<rparr>) w')" if "rests w w'" for w'
    by (rule rests_trans[OF that rests_set_sta]) (use that i in \<open>simp_all add: rests_def\<close>)
  have de: "rests w (set_sta i (\<lambda>s. s\<lparr>sm_DeauthenticationRequest := True\<rparr>) w)"
    by (rule rests_set_sta[OF assms(1) i]) simp_all
  have 1: "rests w w1"
    using rests_start_sm[OF assms i, of E] de re[OF upd] re[OF rests_refl[OF assms(1)]] rests_refl[OF assms(1)]
    by (simp add: w1_def Let_def)
  let ?w2 = "set_sta i (\<lambda>s. s\<lparr>sm_PTK_valid := False, sm_PTK := zero_ptk\<rparr>) w1"
  have r1: "resting w1" "i \<in> set (w_list w1)" using 1 i by (simp_all add: rests_def)
  have 2: "rests w ?w2" by (rule rests_trans[OF 1 rests_set_sta[OF r1]]) simp_all
  have r2: "resting ?w2" "i \<in> set (w_list ?w2)" using 2 i by (simp_all add: rests_def)
  have 3: "rests w (on_sta i (wpa_remove_ptk E) ?w2)"
    by (rule rests_trans[OF 2 rests_on_sta[OF r2]]) (simp add: mild_def remove_ptk_after)
  have step: "rests w (wpa_sm_step E n i w')" if "rests w w'" for w'
    using rests_trans[OF that rests_sm_step] rests_fuel[OF that] assms(2) that by (simp add: rests_def)
  show ?thesis
    unfolding wpa_auth_sm_event_def Let_def[of "if event = WPA_DEAUTH \<or> event = WPA_DISASSOC then _ else _"] w1_def[symmetric]
    using Some 1 step[OF 2] step[OF 3] rests_refl[OF assms(1)] by (simp add: Let_def split: option.split)
qed (simp add: wpa_auth_sm_event_def rests_refl[OF assms(1)])

lemma rests_pmksa_free: "resting w \<Longrightarrow> rests w (wpa_auth_pmksa_free_cb entry w)"
proof -
  have "set xs \<subseteq> set (w_list w) \<Longrightarrow> resting w \<Longrightarrow> rests w (fold (\<lambda>i. set_sta i (wpa_auth_pmksa_clear_cb entry)) xs w)" for xs w
  proof (induction xs arbitrary: w)
    case (Cons i xs)
    let ?w = "set_sta i (wpa_auth_pmksa_clear_cb entry) w"
    have 1: "rests w ?w"
      by (rule rests_set_sta) (use Cons.prems in \<open>simp_all add: wpa_auth_pmksa_clear_cb_def\<close>)
    then show ?case using rests_trans[OF 1] Cons.IH[of ?w] Cons.prems by (simp add: rests_def)
  qed (simp add: rests_refl)
  then show "resting w \<Longrightarrow> ?thesis" by (simp add: wpa_auth_pmksa_free_cb_def)
qed

lemma rests_set_cache: "resting w \<Longrightarrow> rests w (set_cache cache w)"
proof -
  have "resting w \<Longrightarrow> rests w (fold wpa_auth_pmksa_free_cb es w)" for es w
  proof (induction es arbitrary: w)
    case (Cons e es)
    note 1 = rests_pmksa_free[OF Cons.prems, of e]
    show ?case using rests_trans[OF 1 Cons.IH] 1 by (simp add: rests_def)
  qed (simp add: rests_refl)
  note fold = this
  assume w: "resting w"
  have "rests w (w\<lparr>w_au := (w_au w)\<lparr>a_pmksa := cache\<rparr>\<rparr>)" by (rule rests_other(2)[OF rests_refl[OF w]])
  then show ?thesis
    unfolding set_cache_def Let_def using rests_trans fold by (blast dest: rests_def[THEN iffD1])
qed

lemma validate_mild:
  "validate_pmksa E mem before after data c = Some c' \<Longrightarrow> mild c c'" "mild c (snd (validate_store E ie c))"
  "validate_body E mem before after ie c = Some (r, c') \<Longrightarrow> mild c c'"
proof -
  show 1: "validate_pmksa E mem before after data c = Some c' \<Longrightarrow> mild c c'" for data c c'
    by (auto simp: validate_pmksa_def Let_def mild_def split: option.splits if_splits prod.splits)
  show 2: "mild c (snd (validate_store E ie c))" for c
    by (simp add: validate_store_def Let_def callback_defs mild_def)
  have 3: "validate_store E ie z = (r, c') \<Longrightarrow> mild z c'" for z using 2[of z] by simp
  assume *: "validate_body E mem before after ie c = Some (r, c')"
  obtain res data where p: "(if ie ! 0 = WLAN_EID_RSN then wpa_parse_wpa_ie_rsn ie else wpa_parse_wpa_ie_wpa ie) = (res, data)"
    by (cases "if ie ! 0 = WLAN_EID_RSN then wpa_parse_wpa_ie_rsn ie else wpa_parse_wpa_ie_wpa ie")
  show "mild c c'"
    using * unfolding validate_body_def Let_def p prod.case
    by (auto simp: mild_def split: if_splits dest!: 1 3)
qed

lemma rests_validate:
  assumes "resting w" "wpa_validate_wpa_ie E mem before after i ie w = Some (r, w')"
  shows "rests w w'"
proof -
  have "rests w (save i c w)" if "validate_body E mem before after x (load i w) = Some (r, c)" "w_sm w i \<noteq> None" for x c
    using rests_save[OF assms(1) _ validate_mild(3)[OF that(1)]] that(2) good_dest(6)[of w i] assms(1) by (simp add: resting_def)
  then show ?thesis
    using assms(2) rests_refl[OF assms(1)]
    by (auto simp: wpa_validate_wpa_ie_def split: if_splits option.splits)
qed

section \<open>Stations and groups that come and go\<close>

lemma resting_groups:
  assumes "resting w" "w_sm w' = w_sm w" "w_list w' = w_list w" "w_groups w' = (w_groups w)[g := gr]" "\<not> g_GInit gr"
  shows "resting w'"
  using assms by (auto simp: resting_def good_def all_idle_def sta_def dest!: set_list_update_cases)

lemma resting_sta_init: "resting w \<Longrightarrow> resting (wpa_auth_sta_init mem da w)"
  by (auto simp: wpa_auth_sta_init_def resting_def good_def all_idle_def sta_def fresh_sm_def idle_ok_def split: option.split)

lemma resting_remove:
  "resting w \<Longrightarrow> resting (w\<lparr>w_sm := (w_sm w)(i := None), w_list := filter (\<lambda>j. j \<noteq> i) (w_list w)\<rparr>)"
  by (auto simp: resting_def good_def all_idle_def sta_def)

lemma resting_free:
  assumes "resting w" "i \<in> set (w_list w)"
  shows "resting (wpa_free_sta_sm i w)" "w_stuck (wpa_free_sta_sm i w) = w_stuck w"
proof -
  let ?f = "\<lambda>g. g\<lparr>g_GKeyDoneStations := g_GKeyDoneStations g - 1\<rparr>" and ?g = "sm_group (sta w i)"
  have "\<not> g_GInit (?f (w_groups w ! ?g))" using assms good_dest(3,5)[of w] by (simp add: resting_def)
  then have "resting (set_group ?g ?f w)" using resting_groups[OF assms(1), of "set_group ?g ?f w" ?g] by simp
  then show "resting (wpa_free_sta_sm i w)"
    unfolding wpa_free_sta_sm_def Let_def using resting_remove assms(1) by (simp split: if_split)
qed (simp add: wpa_free_sta_sm_def Let_def)

lemma resting_deinit:
  assumes "resting w"
  shows "resting (wpa_auth_sta_deinit i w)" "w_stuck (wpa_auth_sta_deinit i w) = w_stuck w"
proof -
  have act: "rests w w' \<Longrightarrow> rests w (w_act a w')" for w' a by (rule rests_w_act)
  let ?w = "\<lambda>s. w_act (A_cancel (T_rekey_ptk (sm_addr s))) (w_act (A_cancel (T_call_step (sm_addr s)))
    (w_act (A_cancel (T_send_eapol (sm_addr s)))
      (if c_wpa_strict_rekey (a_conf (w_au w)) \<and> sm_has_GTK s
       then w_act (A_register T_rekey_gtk 500) (w_act (A_cancel T_rekey_gtk) w) else w)))"
  have 1: "rests w (?w s)" for s
  proof -
    have "rests w (if c_wpa_strict_rekey (a_conf (w_au w)) \<and> sm_has_GTK s
       then w_act (A_register T_rekey_gtk 500) (w_act (A_cancel T_rekey_gtk) w) else w)"
      using act[OF act[OF rests_refl[OF assms]]] rests_refl[OF assms] by presburger
    then show ?thesis by (intro act)
  qed
  have i: "i \<in> set (w_list w)" if "w_sm w i = Some s" for s
    using that assms good_dest(6)[of w i] by (simp add: resting_def)
  have l: "\<not> sm_in_step_loop s" if "w_sm w i = Some s" for s
    using that i[OF that] assms by (auto simp: resting_def sta_def)
  have "wpa_auth_sta_deinit i w = (case w_sm w i of None \<Rightarrow> w | Some s \<Rightarrow> wpa_free_sta_sm i (?w s))"
  proof (cases "w_sm w i")
    case (Some s)
    then show ?thesis using l[OF Some] by (simp only: wpa_auth_sta_deinit_def Let_def option.case if_False)
  qed (simp add: wpa_auth_sta_deinit_def)
  moreover have "resting (wpa_free_sta_sm i (?w s)) \<and> w_stuck (wpa_free_sta_sm i (?w s)) = w_stuck w" if "w_sm w i = Some s" for s
    using resting_free[of "?w s" i] 1[of s] i[OF that] unfolding rests_def by metis
  ultimately show "resting (wpa_auth_sta_deinit i w)" "w_stuck (wpa_auth_sta_deinit i w) = w_stuck w"
    using assms by (auto split: option.split)
qed

lemma group_init_fixed: "wpa_group_init E ok au vid tr = (Some g, tr') \<Longrightarrow> \<not> g_GInit g"
  by (auto simp: wpa_group_init_def wpa_group_setkeysdone_def Let_def split: if_splits prod.splits)

lemma resting_set_vlan:
  assumes "resting w"
  shows "resting (wpa_auth_sta_set_vlan E ok i vid w)" "w_stuck (wpa_auth_sta_set_vlan E ok i vid w) = w_stuck w"
proof -
  have 1: "resting (set_sta i (\<lambda>s. s\<lparr>sm_group := g\<rparr>) w')"
    if "resting w'" "i \<in> set (w_list w')" "g < length (w_groups w')" for g w'
    using that by (auto simp: resting_def good_def all_idle_def idle_ok_def)
  have 2: "resting (w\<lparr>w_groups := w_groups w @ [g], w_tr := tr\<rparr>)" if "\<not> g_GInit g" for g tr
    using that assms by (auto simp: resting_def good_def all_idle_def sta_def)
  have 3: "resting (w\<lparr>w_tr := tr\<rparr>)" for tr using assms resting_cong[of "w\<lparr>w_tr := tr\<rparr>" w] by simp
  have i: "i \<in> set (w_list w)" if "w_sm w i \<noteq> None" using that assms good_dest(6)[of w i] by (simp add: resting_def)
  have f: "g < length (w_groups w)" if "find_group vid w = Some g" for g
    using that group_order_members[of w] by (auto simp: find_group_def find_Some_iff)
  show "resting (wpa_auth_sta_set_vlan E ok i vid w)"
    using assms i f 1[OF assms] 3
    by (auto simp: wpa_auth_sta_set_vlan_def split: option.split prod.split dest!: group_init_fixed intro!: 1 2)
  show "w_stuck (wpa_auth_sta_set_vlan E ok i vid w) = w_stuck w"
    by (auto simp: wpa_auth_sta_set_vlan_def split: option.split prod.split)
qed

text \<open>The new configuration reaches the first group: it is initialised, then its keys are set.\<close>

definition reconfig_group :: "wpa_env \<Rightarrow> nat \<Rightarrow> wpa_auth_config \<Rightarrow> wpa_world \<Rightarrow> wpa_world" where
  "reconfig_group E n wconf w =
     set_group 0 (\<lambda>g. g\<lparr>g_GInit := False\<rparr>) (wpa_group_sm_step E (sm_step_with (wpa_sm_loop E n)) 0
       (set_group 0 (\<lambda>g. (wpa_group_set_key_len (c_wpa_group wconf) g)\<lparr>g_GInit := True\<rparr>) w))"

lemma reconfig_group_simps:
  assumes "w_groups w \<noteq> []"
  shows "\<exists>gr. w_groups (reconfig_group E n wconf w) = (w_groups w)[0 := gr] \<and> \<not> g_GInit gr"
    "w_sm (reconfig_group E n wconf w) = w_sm w" "w_list (reconfig_group E n wconf w) = w_list w"
    "w_stuck (reconfig_group E n wconf w) = w_stuck w"
proof -
  let ?w = "set_group 0 (\<lambda>g. (wpa_group_set_key_len (c_wpa_group wconf) g)\<lparr>g_GInit := True\<rparr>) w"
  have g: "g_GInit (w_groups ?w ! 0)" using assms by simp
  have *: "reconfig_group E n wconf w = set_group 0 (\<lambda>g. g\<lparr>g_GInit := False\<rparr>) (on_group (wpa_group_gtk_init E) 0 ?w)"
    unfolding reconfig_group_def wpa_group_sm_step_def Let_def using g by (simp only: if_True)
  define h where "h = fst (wpa_group_gtk_init E (w_au ?w) (w_groups ?w ! 0) (w_tr ?w))"
  have "w_groups (reconfig_group E n wconf w) = (w_groups w)[0 := h\<lparr>g_GInit := False\<rparr>]"
    unfolding * set_group_simps on_group_simps h_def[unfolded set_group_simps, symmetric] using assms by simp
  then show "\<exists>gr. w_groups (reconfig_group E n wconf w) = (w_groups w)[0 := gr] \<and> \<not> g_GInit gr" by (intro exI conjI) (assumption, simp)
  show "w_sm (reconfig_group E n wconf w) = w_sm w" "w_list (reconfig_group E n wconf w) = w_list w"
    "w_stuck (reconfig_group E n wconf w) = w_stuck w" unfolding * by simp_all
qed

lemma rests_reconfig:
  assumes "resting w" "wpa_fuel w \<le> n"
  shows "rests w (wpa_reconfig E ok n wconf w)"
proof -
  have main: "rests w (wpa_group_sm_step E (sm_step_with (wpa_sm_loop E n)) 0 (reconfig_group E n wconf w1))" if w1: "rests w w1" for w1
  proof -
    let ?w = "reconfig_group E n wconf w1"
    have g0: "w_groups w1 \<noteq> []" using w1 good_dest(1)[of w1] by (simp add: rests_def resting_def)
    note s = reconfig_group_simps[OF g0, of E n wconf]
    obtain gr where gr: "w_groups ?w = (w_groups w1)[0 := gr]" "\<not> g_GInit gr" using s(1) by blast
    have "resting ?w" using resting_groups[OF _ s(2,3) gr] w1 by (simp add: rests_def)
    then have 4: "rests w ?w" using w1 s gr by (simp add: rests_def)
    have r4: "good ?w" "all_idle ?w" "resting ?w" using 4 by (simp_all add: rests_def resting_def)
    have l4: "0 < length (w_groups ?w)" using good_dest(1)[OF r4(1)] by blast
    have "world_weight ?w \<le> n" using world_weight_fuel[of ?w] rests_fuel[OF 4] assms(2) by linarith
    then have "calm {} ?w (wpa_group_sm_step E (sm_step_with (wpa_sm_loop E n)) 0 ?w)"
      using group_sm_step_weight[OF wpa_step_ends r4(1,2) l4] by blast
    then show ?thesis using rests_trans[OF 4 calm_rests[OF r4(3)]] by blast
  qed
  have w1: "rests w (w\<lparr>w_au := au\<rparr>)" for au using rests_other(2)[OF rests_refl[OF assms(1)]] .
  show ?thesis
    unfolding wpa_reconfig_def Let_def reconfig_group_def[symmetric]
    using w1 main[OF rests_other(2)[OF w1]] by (cases "wpa_auth_gen_wpa_ie ok wconf") (simp_all only: option.case)
qed

lemma rests_rekey_gmk:
  assumes "resting w"
  shows "rests w (wpa_rekey_gmk E w)"
proof -
  define w1 where "w1 = on_group (\<lambda>au g tr. case random_get_bytes E 32 tr of (_, gmk, tr) \<Rightarrow> (g\<lparr>g_GMK := gmk\<rparr>, tr)) 0 w"
  have "rests w w1" unfolding w1_def
    by (rule rests_on_group[OF assms(1)]) (use assms(1) good_dest(1)[of w] in \<open>simp_all add: resting_def random_get_bytes_eq\<close>)
  then show ?thesis using rests_w_act unfolding wpa_rekey_gmk_def w1_def[symmetric] Let_def by presburger
qed

lemma resting_init: "wpa_init E ok da wconf = Some w \<Longrightarrow> resting w \<and> \<not> w_stuck w"
proof -
  assume "wpa_init E ok da wconf = Some w"
  then obtain au g tr where g: "wpa_group_init E ok au 0 [] = (Some g, tr)" "w_list w = []" "w_groups w = [g]" "w_sm w = (\<lambda>i. None)" "\<not> w_stuck w"
    by (auto simp: wpa_init_def Let_def split: if_splits option.splits prod.splits)
  then show ?thesis using group_init_fixed[OF g(1)] by (simp add: resting_def good_def all_idle_def)
qed

section \<open>Runs\<close>

text \<open>A run of the authenticator: each input with its own answers of the environment. Every input has
  the fuel of \<open>wpa_fuel\<close>.\<close>

fun wpa_run :: "(wpa_env \<times> 'e wpa_input) list \<Rightarrow> wpa_world \<Rightarrow> wpa_world option" where
  "wpa_run [] w = Some w"
| "wpa_run ((E, inp) # inps) w = Option.bind (wpa_step E (wpa_fuel w) inp w) (wpa_run inps)"

lemma wpa_step_resting:
  assumes "resting w" "wpa_fuel w \<le> n" "wpa_step E n inp w = Some w'"
  shows "resting w' \<and> w_stuck w' = w_stuck w"
proof -
  have r: "resting w' \<and> w_stuck w' = w_stuck w" if "rests w w'" using that by (simp add: rests_def)
  have set: "rests w (set_sta i f w)" if "w_sm w i \<noteq> None"
    "\<And>s. sm_group (f s) = sm_group s \<and> sm_pending_deinit (f s) = sm_pending_deinit s \<and> sm_in_step_loop (f s) = sm_in_step_loop s \<and>
      sm_ptk_group_state (f s) = sm_ptk_group_state s \<and> sm_GTimeoutCtr (f s) = sm_GTimeoutCtr s" for i f
    by (rule rests_set_sta[OF assms(1)]) (use that assms(1) good_dest(6)[of w i] in \<open>simp_all add: resting_def\<close>)
  have step: "rests w (wpa_sm_step E n i w1)" if "rests w w1" for i w1
    using rests_trans[OF that rests_sm_step] rests_fuel[OF that] assms(2) that by (simp add: rests_def)
  note refl = rests_refl[OF assms(1)]
  show ?thesis
  proof (cases inp)
    case (In_sta_init mem da)
    then show ?thesis using assms(3) resting_sta_init[OF assms(1), of mem da]
      by (auto simp: wpa_auth_sta_init_def split: option.splits if_splits)
  next
    case (In_validate mem before after i ie)
    then show ?thesis using assms(3) r rests_validate[OF assms(1)] by auto
  next
    case (In_no_wpa i)
    then show ?thesis using assms(3) refl set by (intro r) (auto simp: wpa_auth_sta_no_wpa_def split: option.splits)
  next
    case (In_send_eapol_timeout i)
    then show ?thesis using assms(3) refl step[OF set] by (intro r) (auto simp: wpa_send_eapol_timeout_def split: option.splits)
  next
    case (In_notify i)
    then show ?thesis using assms(3) refl rests_w_act[OF refl] by (intro r) (auto simp: wpa_auth_sm_notify_def split: option.splits)
  next
    case (In_rekey_ptk i)
    then show ?thesis using assms(3) refl step[OF set, of i wpa_request_new_ptk]
      by (intro r) (auto simp: wpa_rekey_ptk_def wpa_request_new_ptk_def split: option.splits)
  next
    case In_countermeasures_stop
    then show ?thesis using assms(3) rests_w_act[OF rests_other(1)[OF refl]]
      by (intro r) (auto simp: ieee80211_tkip_countermeasures_stop_def)
  next
    case (In_pmksa_add mem now i pmk timeout eapol)
    then show ?thesis using assms(3) refl rests_set_cache[OF assms(1)]
      by (intro r) (auto simp: wpa_auth_pmksa_add_def split: option.splits if_splits)
  next
    case (In_clear_pmksa i entry)
    then show ?thesis using assms(3) refl set
      by (intro r) (auto simp: wpa_auth_sta_clear_pmksa_def split: option.splits if_splits)
  qed (use assms(3) r rests_associated[OF assms(1,2)] resting_deinit[OF assms(1)] rests_receive[OF assms(1,2)] rests_sm_event[OF assms(1,2)]
    rests_sm_step[OF assms(1,2)] rests_rekey_gtk[OF assms(1,2)] rests_rekey_gmk[OF assms(1)] rests_michael_mic_failure[OF assms(1)] rests_reconfig[OF assms(1,2)]
    resting_set_vlan[OF assms(1)] rests_set_cache[OF assms(1)] in \<open>auto simp: wpa_auth_pmksa_add_preauth_def pmksa_expire_timeout_def\<close>)
qed

lemma wpa_run_resting: "wpa_run inps w = Some w' \<Longrightarrow> resting w \<Longrightarrow> resting w' \<and> w_stuck w' = w_stuck w"
proof (induction inps arbitrary: w)
  case (Cons x inps)
  obtain E inp where x: "x = (E, inp)" by (cases x)
  with Cons.prems obtain w1 where w1: "wpa_step E (wpa_fuel w) inp w = Some w1" "wpa_run inps w1 = Some w'"
    by (auto simp: bind_eq_Some_conv)
  show ?case using Cons.IH[OF w1(2)] wpa_step_resting[OF Cons.prems(2) order_refl w1(1)] by simp
qed simp

lemma wpa_step_returns: "(\<And>mem before after i ie. inp \<noteq> In_validate mem before after i ie) \<Longrightarrow> \<exists>w'. wpa_step E n inp w = Some w'"
  by (cases inp) (simp only: wpa_step.simps, blast)+

end
