(* ===== verification/Wpa_Auth_Secure.thy ===== *)
theory Wpa_Auth_Secure
  imports Wpa_Auth_Inputs
begin

text \<open>
  Who opens the port. The authenticator tells the 802.1X layer that the port may be opened only when it
  enters \<^verbatim>\<open>PTKINITDONE\<close>. This happens in no other place than the reception of message 4/4 of the
  four-way handshake, protected with the pairwise key that message 2/4 has confirmed.
\<close>

section \<open>Stations that wait for no frame\<close>

lemma sta_other [simp]:
  "sta (w\<lparr>w_stuck := b\<rparr>) i = sta w i" "sta (w\<lparr>w_tr := tr\<rparr>) i = sta w i" "sta (w\<lparr>w_au := au\<rparr>) i = sta w i" "sta (w\<lparr>w_hapd := h\<rparr>) i = sta w i"
  by (simp_all add: sta_def)

text \<open>A reply of the station that was not processed finds no valid key and does not meet the
  handshake half way; a check of message 2/4 that failed has no old key to fall back on.\<close>

definition still :: "wpa_state_machine \<Rightarrow> bool" where
  "still s \<longleftrightarrow>
     (pairwise_reply s \<longrightarrow> \<not> sm_PTK_valid s \<and> sm_ptk_state s \<notin>
       {WPA_PTK_PTKCALCNEGOTIATING, WPA_PTK_PTKCALCNEGOTIATING2, WPA_PTK_PTKINITNEGOTIATING}) \<and>
     (sm_ptk_state s = WPA_PTK_PTKCALCNEGOTIATING \<longrightarrow> sm_MICVerified s \<or> \<not> sm_PTK_valid s)"

text \<open>Between two inputs no request is pending, except one for a new key when no memory was left.\<close>

definition secure :: "wpa_state_machine \<Rightarrow> bool" where
  "secure s \<longleftrightarrow> no_request (s\<lparr>sm_PTKRequest := False\<rparr>) \<and> (sm_PTKRequest s \<longrightarrow> \<not> sm_PTK_valid s) \<and> still s \<and>
     (sm_ptk_state s = WPA_PTK_PTKCALCNEGOTIATING \<longrightarrow> \<not> sm_MICVerified s)"

lemma settled_secure: "settled s \<Longrightarrow> still s \<Longrightarrow> \<not> sm_Init s \<Longrightarrow> secure s"
  by (auto simp: secure_def settled_def no_request_def)

lemma undisturbed_secure:
  assumes "undisturbed s s'" "secure s" "still s'" "\<not> sm_Init s'"
  shows "secure s'"
proof (cases "settled s'")
  case True
  then show ?thesis using settled_secure assms by blast
next
  case False
  then have "ptk_view s' = ptk_view s" using assms(1) by (simp add: undisturbed_def)
  then show ?thesis using assms(2,3) by (simp add: secure_def no_request_def ptk_view_def)
qed

lemma secure_still: "secure s \<Longrightarrow> still s" and secure_init: "secure s \<Longrightarrow> \<not> sm_Init s"
  by (simp_all add: secure_def no_request_def)

lemma still_ptk:
  assumes "still (cx_sm c)"
  shows "still (cx_sm (sm_WPA_PTK_Step E c)) \<and> opened (cx_tr (sm_WPA_PTK_Step E c)) = opened (cx_tr c)"
proof (rule PTK_Step_cases)
  show "still (cx_sm (sm_WPA_PTK_PTKCALCNEGOTIATING E c)) \<and> opened (cx_tr (sm_WPA_PTK_PTKCALCNEGOTIATING E c)) = opened (cx_tr c)"
    if "pairwise_reply (cx_sm c)"
    using assms that PTKCALC_mic[of E c] by (auto simp: ptk_after still_def pairwise_reply_def)
qed (use assms in \<open>simp_all add: ptk_after still_def pairwise_reply_def\<close>)

lemma still_grp: "still (cx_sm c) \<Longrightarrow> still (cx_sm (sm_WPA_PTK_GROUP_Step E c))"
  by (rule GROUP_Step_cases) (auto simp: group_after still_def pairwise_reply_def)

definition keeps_still :: "wpa_world \<Rightarrow> wpa_world \<Rightarrow> bool" where
  "keeps_still w w' \<longleftrightarrow> w_list w' = w_list w \<and> (\<forall>j \<in> set (w_list w). sm_Init (sta w' j) = sm_Init (sta w j)) \<and>
     ((\<forall>j \<in> set (w_list w). still (sta w j)) \<longrightarrow>
       (\<forall>j \<in> set (w_list w). still (sta w' j)) \<and> opened (w_tr w') = opened (w_tr w))"

interpretation quiet: station_actions E keeps_still
proof unfold_locales
  show "keeps_still w (on_sta i (sm_WPA_PTK_Step E) w)" if "good w" "i \<in> set (w_list w)" for w i
    using that still_ptk[of "load i w" E] PTK_Step_fixed[of E "load i w"] by (auto simp: keeps_still_def sm_fixed_def)
  show "keeps_still w (on_sta i (sm_WPA_PTK_GROUP_Step E) w)" if "good w" "i \<in> set (w_list w)" for w i
    using that still_grp[of "load i w" E] GROUP_Step_fixed(1,4)[of E "load i w"] by (auto simp: keeps_still_def sm_fixed_def)
  show "keeps_still w (on_group (wpa_group_setkeysdone E) g w)" for w g
    by (simp add: keeps_still_def setkeysdone_fst)
  show "keeps_still w (setkeys_start E g w)" for w g
    by (simp add: keeps_still_def setkeys_start_simps)
qed (auto simp: keeps_still_def clear_changed_def flag_station_def still_def pairwise_reply_def Let_def)

lemmas quiet_sm_step = quiet.ok_sm_step[unfolded quiet.ok_def, THEN conjunct2, THEN conjunct2]
lemmas quiet_rekey_gtk = quiet.ok_rekey_gtk[unfolded quiet.ok_def, THEN conjunct2, THEN conjunct2]
lemmas quiet_after_first = quiet.ok_after_first[unfolded quiet.ok_def, THEN conjunct2, THEN conjunct2]
lemmas quiet_group_sm_step = quiet.ok_group_sm_step[OF quiet.ok_step_with[OF quiet.ok_loop], unfolded quiet.ok_def, THEN conjunct2, THEN conjunct2]

section \<open>The world between two inputs\<close>

definition secured :: "wpa_world \<Rightarrow> bool" where
  "secured w \<longleftrightarrow> resting w \<and> (\<forall>i \<in> set (w_list w). secure (sta w i))"

definition all_still :: "wpa_world \<Rightarrow> bool" where
  "all_still w \<longleftrightarrow> (\<forall>i \<in> set (w_list w). still (sta w i))"

text \<open>A call of \<^verbatim>\<open>wpa_sm_step\<close> for a station, when the others are waiting.\<close>

lemma secured_sm_step:
  assumes "resting w" "wpa_fuel w \<le> n" "i \<in> set (w_list w)" "all_still w"
    "\<And>j. j \<in> set (w_list w) \<Longrightarrow> j \<noteq> i \<Longrightarrow> secure (sta w j)" "\<not> sm_Init (sta w i)"
  shows "secured (wpa_sm_step E n i w)" "opened (w_tr (wpa_sm_step E n i w)) = opened (w_tr w)"
proof -
  have g: "good w" using assms(1) by (simp add: resting_def)
  note q = quiet_sm_step[OF g, where E = E and n = n and i = i, unfolded keeps_still_def]
  note r = rests_sm_step[OF assms(1,2), of E i]
  note s = settles_sm_step[OF assms(1-3), where E = E]
  show "secured (wpa_sm_step E n i w)"
    unfolding secured_def
  proof (intro conjI ballI)
    show "resting (wpa_sm_step E n i w)" using r by (simp add: rests_def)
    fix j assume "j \<in> set (w_list (wpa_sm_step E n i w))"
    then have j: "j \<in> set (w_list w)" using q by simp
    have st: "still (sta (wpa_sm_step E n i w) j)" using q assms(4) j by (simp add: all_still_def)
    have "sm_Init (sta (wpa_sm_step E n i w) j) = sm_Init (sta w j)" using q j by simp
    then have "\<not> sm_Init (sta (wpa_sm_step E n i w) j)" using assms(5)[OF j] assms(6) secure_init by (cases "j = i") auto
    then show "secure (sta (wpa_sm_step E n i w) j)"
      using s(1) settled_secure[OF _ st] undisturbed_secure[OF s(2)[OF j] assms(5)[OF j] st] by (cases "j = i") auto
  qed
  show "opened (w_tr (wpa_sm_step E n i w)) = opened (w_tr w)" using q assms(4) by (simp add: all_still_def)
qed

lemma secured_dest:
  assumes "secured w"
  shows "resting w" "good w" "all_still w" "j \<in> set (w_list w) \<Longrightarrow> secure (sta w j)" "w_sm w j \<noteq> None \<longleftrightarrow> j \<in> set (w_list w)"
  using assms good_dest(6)[of w j] secure_still unfolding secured_def all_still_def resting_def by auto

text \<open>A handler that only changes one station and then runs its machines.\<close>

lemma secured_set_step:
  assumes "secured w" "wpa_fuel w \<le> n" "i \<in> set (w_list w)" "rests w (set_sta i f w)" "still (f (sta w i))" "\<not> sm_Init (f (sta w i))"
  shows "secured (wpa_sm_step E n i (set_sta i f w))" "opened (w_tr (wpa_sm_step E n i (set_sta i f w))) = opened (w_tr w)"
proof -
  note w = secured_dest[OF assms(1)]
  have r: "resting (set_sta i f w)" "wpa_fuel (set_sta i f w) \<le> n" "i \<in> set (w_list (set_sta i f w))"
    using assms(2,3,4) rests_fuel[OF assms(4)] by (simp_all add: rests_def)
  have a: "all_still (set_sta i f w)" using w(3) assms(5) by (simp add: all_still_def)
  show "secured (wpa_sm_step E n i (set_sta i f w))" "opened (w_tr (wpa_sm_step E n i (set_sta i f w))) = opened (w_tr w)"
    using secured_sm_step[OF r a] w(4) assms(6) by simp_all
qed

section \<open>Received frames\<close>

text \<open>The station after the checks of a frame, and when the frame is used.\<close>

definition used_frame :: "wpa_env \<Rightarrow> wpa_state_machine \<Rightarrow> bytes \<Rightarrow> bool" where
  "used_frame E s data \<longleftrightarrow> rx_header_ok s data \<and>
     (rx_msg data = PAIRWISE_2 \<longrightarrow> sm_ptk_state s = WPA_PTK_PTKSTART \<or> sm_ptk_state s = WPA_PTK_PTKCALCNEGOTIATING) \<and>
     (rx_msg data = PAIRWISE_4 \<longrightarrow> sm_ptk_state s = WPA_PTK_PTKINITNEGOTIATING \<and> sm_PTK_valid s) \<and>
     (rx_msg data = GROUP_2 \<longrightarrow> sm_ptk_group_state s = WPA_PTK_GROUP_REKEYNEGOTIATING \<and> sm_PTK_valid s) \<and>
     rx_msg data \<in> {PAIRWISE_2, PAIRWISE_4, GROUP_2, REQUEST} \<and>
     \<not> info_has (key_info_of data) WPA_KEY_INFO_ACK \<and> info_has (key_info_of data) WPA_KEY_INFO_MIC \<and>
     (sm_PTK_valid s \<longrightarrow> wpa_verify_key_mic E (sm_PTK s) data) \<and>
     (info_has (key_info_of data) WPA_KEY_INFO_REQUEST \<longrightarrow> sm_PTK_valid s)"

lemma rx_state_check_sm:
  "cx_sm (snd (rx_state_check data c)) = cx_sm c" "opened (cx_tr (snd (rx_state_check data c))) = opened (cx_tr c)"
  by (cases "rx_msg data"; simp add: rx_state_check_def rx_pairwise_2_def Let_def split: prod.split)+

lemma rx_state_check_go:
  assumes "fst (rx_state_check data c)"
  shows "rx_msg data = PAIRWISE_2 \<Longrightarrow> sm_ptk_state (cx_sm c) = WPA_PTK_PTKSTART \<or> sm_ptk_state (cx_sm c) = WPA_PTK_PTKCALCNEGOTIATING"
    "rx_msg data = PAIRWISE_4 \<Longrightarrow> sm_ptk_state (cx_sm c) = WPA_PTK_PTKINITNEGOTIATING \<and> sm_PTK_valid (cx_sm c)"
    "rx_msg data = GROUP_2 \<Longrightarrow> sm_ptk_group_state (cx_sm c) = WPA_PTK_GROUP_REKEYNEGOTIATING \<and> sm_PTK_valid (cx_sm c)"
    "rx_msg data \<in> {PAIRWISE_2, PAIRWISE_4, GROUP_2, REQUEST}"
  using assms by (cases "rx_msg data"; auto simp: rx_state_check_def rx_pairwise_2_def Let_def split: prod.splits if_splits)+

definition request_station :: "bytes \<Rightarrow> wpa_state_machine \<Rightarrow> wpa_state_machine" where
  "request_station data s = s\<lparr>sm_MICVerified := True, sm_req_replay_counter_used := True, sm_req_replay_counter := key_replay_counter data\<rparr>"

lemma rx_front_cases:
  fixes E data c
  obtains (drop) c' where "rx_front E data c = (RX_drop, c')" "opened (cx_tr c') = opened (cx_tr c)"
      "cx_sm c' = cx_sm c \<or> cx_sm c' = (cx_sm c)\<lparr>sm_MICVerified := False\<rparr>"
  | (reply) c' where "rx_front E data c = (RX_store, c')" "opened (cx_tr c') = opened (cx_tr c)" "used_frame E (cx_sm c) data"
      "\<not> info_has (key_info_of data) WPA_KEY_INFO_REQUEST"
      "cx_sm c' = (cx_sm c)\<lparr>sm_MICVerified := sm_PTK_valid (cx_sm c),
         sm_key_replay := (sm_key_replay (cx_sm c))[0 := (sm_key_replay (cx_sm c) ! 0)\<lparr>rs_valid := False\<rparr>]\<rparr>"
  | (request) what c' where "rx_front E data c = (what, c')" "what \<noteq> RX_drop" "opened (cx_tr c') = opened (cx_tr c)" "used_frame E (cx_sm c) data"
      "info_has (key_info_of data) WPA_KEY_INFO_REQUEST"
      "cx_sm c' = request_station data (cx_sm c) \<or> cx_sm c' = wpa_request_new_ptk (request_station data (cx_sm c)) \<and> what = RX_store"
proof -
  obtain go1 c1 where 1: "rx_state_check data c = (go1, c1)" by (cases "rx_state_check data c")
  obtain go2 c2 where 2: "rx_mic E data c1 = (go2, c2)" by (cases "rx_mic E data c1")
  have c1: "cx_sm c1 = cx_sm c" "opened (cx_tr c1) = opened (cx_tr c)" using rx_state_check_sm[of data c] 1 by simp_all
  have c2: "opened (cx_tr c2) = opened (cx_tr c)"
    "cx_sm c2 = cx_sm c \<or> cx_sm c2 = (cx_sm c)\<lparr>sm_MICVerified := False\<rparr> \<or> cx_sm c2 = (cx_sm c)\<lparr>sm_MICVerified := True\<rparr> \<and> go2"
    using 2 c1 by (auto simp: rx_mic_def Let_def split: if_splits)
  have go2: "go2 \<Longrightarrow> cx_sm c2 = (cx_sm c)\<lparr>sm_MICVerified := sm_PTK_valid (cx_sm c)\<rparr> \<and> \<not> info_has (key_info_of data) WPA_KEY_INFO_ACK \<and>
      info_has (key_info_of data) WPA_KEY_INFO_MIC \<and> (sm_PTK_valid (cx_sm c) \<longrightarrow> wpa_verify_key_mic E (sm_PTK (cx_sm c)) data)"
    using 2 c1(1) by (auto simp: rx_mic_def Let_def split: if_splits)
  consider (header) "\<not> rx_header_ok (cx_sm c) data" | (state) "rx_header_ok (cx_sm c) data" "\<not> go1"
    | (mic) "rx_header_ok (cx_sm c) data" go1 "\<not> go2" | (go) "rx_header_ok (cx_sm c) data" go1 go2 by blast
  then show thesis
  proof cases
    case header
    then show thesis by (intro drop[of c]) (simp_all add: rx_front_def)
  next
    case state
    then show thesis by (intro drop[of c1]) (simp_all add: rx_front_def 1 c1)
  next
    case mic
    then show thesis by (intro drop[of c2]) (use c2 in \<open>simp_all add: rx_front_def 1 2\<close>)
  next
    case go
    have f: "rx_front E data c = rx_request data c2" using go 1 2 by (simp add: rx_front_def)
    show thesis
    proof (cases "info_has (key_info_of data) WPA_KEY_INFO_REQUEST")
      case False
      have u: "used_frame E (cx_sm c) data"
        using go go2 rx_state_check_go[of data c] 1 False by (simp add: used_frame_def)
      have s2: "cx_sm c2 = (cx_sm c)\<lparr>sm_MICVerified := sm_PTK_valid (cx_sm c)\<rparr>" using go2[OF go(3)] by (rule conjunct1)
      have r: "rx_request data c2 = (RX_store, upd_s (\<lambda>s. s\<lparr>sm_key_replay := (sm_key_replay s)[0 := (sm_key_replay s ! 0)\<lparr>rs_valid := False\<rparr>]\<rparr>) c2)"
        by (simp only: rx_request_def False if_False)
      show thesis by (rule reply[OF f[unfolded r] _ u False]) (simp_all add: c2(1) s2)
    next
      case True
      show thesis
      proof (cases "sm_PTK_valid (cx_sm c)")
        case False
        have s2: "cx_sm c2 = (cx_sm c)\<lparr>sm_MICVerified := False\<rparr>" using go2[OF go(3)] False by simp
        then have r: "rx_request data c2 = (RX_drop, c2)" using True by (simp only: rx_request_def if_True) simp
        show thesis by (rule drop[OF f[unfolded r] c2(1) disjI2[OF s2]])
      next
        case valid: True
        have u: "used_frame E (cx_sm c) data"
          using go go2 rx_state_check_go[of data c] 1 valid by (simp add: used_frame_def)
        have s2: "cx_sm c2 = (cx_sm c)\<lparr>sm_MICVerified := True\<rparr>" using go2[OF go(3)] valid by simp
        have r: "fst (rx_request data c2) \<noteq> RX_drop" "opened (cx_tr (snd (rx_request data c2))) = opened (cx_tr c)"
          "cx_sm (snd (rx_request data c2)) = request_station data (cx_sm c) \<or>
            cx_sm (snd (rx_request data c2)) = wpa_request_new_ptk (request_station data (cx_sm c)) \<and> fst (rx_request data c2) = RX_store"
          unfolding rx_request_def request_station_def Let_def using True s2 c2(1) by simp_all
        show thesis by (rule request[of "fst (rx_request data c2)", OF _ r(1) r(2) u True r(3)]) (simp add: f)
      qed
    qed
  qed
qed

text \<open>The first step after a reply: the reply is used up, or waits for the start of a handshake.\<close>

lemma first_step_done:
  assumes "no_request (cx_sm c)" "pairwise_reply (cx_sm c)" "sm_ptk_state (cx_sm c) = WPA_PTK_PTKINITNEGOTIATING"
    "sm_MICVerified (cx_sm c)"
  shows "sm_WPA_PTK_Step E c = sm_WPA_PTK_PTKINITDONE E c" "still (cx_sm (sm_WPA_PTK_Step E c))"
proof -
  show *: "sm_WPA_PTK_Step E c = sm_WPA_PTK_PTKINITDONE E c"
    using assms by (simp add: sm_WPA_PTK_Step_def Let_def no_request_def)
  show "still (cx_sm (sm_WPA_PTK_Step E c))" unfolding * by (simp add: ptk_after still_def pairwise_reply_def)
qed

lemma first_step_2_of_4:
  assumes "no_request ((cx_sm c)\<lparr>sm_PTKRequest := False\<rparr>)" "sm_PTKRequest (cx_sm c) \<Longrightarrow> \<not> sm_PTK_valid (cx_sm c)"
    "pairwise_reply (cx_sm c)" "sm_ptk_state (cx_sm c) \<in> {WPA_PTK_PTKSTART, WPA_PTK_PTKCALCNEGOTIATING}"
    "sm_MICVerified (cx_sm c) = sm_PTK_valid (cx_sm c)"
    "sm_ptk_state (cx_sm c) = WPA_PTK_PTKCALCNEGOTIATING \<Longrightarrow> \<not> sm_PTK_valid (cx_sm c)"
  shows "still (cx_sm (sm_WPA_PTK_Step E c))" "opened (cx_tr (sm_WPA_PTK_Step E c)) = opened (cx_tr c)"
proof -
  have *: "sm_WPA_PTK_Step E c = (if sm_PTKRequest (cx_sm c) then sm_WPA_PTK_PTKSTART E c else sm_WPA_PTK_PTKCALCNEGOTIATING E c)"
    using assms by (cases "sm_ptk_state (cx_sm c)") (simp_all add: sm_WPA_PTK_Step_def Let_def no_request_def)
  show "still (cx_sm (sm_WPA_PTK_Step E c))" "opened (cx_tr (sm_WPA_PTK_Step E c)) = opened (cx_tr c)"
    unfolding * using assms(2,5) PTKCALC_mic[of E c] by (auto simp: ptk_after still_def pairwise_reply_def)
qed

lemma PTKINITDONE_opens:
  "\<exists>as. opened (cx_tr (sm_WPA_PTK_PTKINITDONE E c)) = opened (cx_tr c) @ as \<and>
     (\<forall>a \<in> set as. a \<in> {A_set_eapol (sm_addr (cx_sm c)) WPA_EAPOL_portValid True, A_set_eapol (sm_addr (cx_sm c)) WPA_EAPOL_authorized True})"
  by (simp add: sm_WPA_PTK_PTKINITDONE_def ptk_entry_def Let_def callback_defs)

text \<open>Message 4/4 of the four-way handshake, as the station expects it.\<close>

definition expected_4_of_4 :: "wpa_env \<Rightarrow> wpa_state_machine \<Rightarrow> bytes \<Rightarrow> bool" where
  "expected_4_of_4 E s data \<longleftrightarrow> sm_ptk_state s = WPA_PTK_PTKINITNEGOTIATING \<and> sm_PTK_valid s \<and> rx_msg data = PAIRWISE_4 \<and>
     wpa_replay_counter_valid s (key_replay_counter data) \<and> wpa_verify_key_mic E (sm_PTK s) data"

definition opens_for :: "macaddr \<Rightarrow> wpa_world \<Rightarrow> wpa_world \<Rightarrow> bool" where
  "opens_for da w w' \<longleftrightarrow> (\<exists>as. opened (w_tr w') = opened (w_tr w) @ as \<and>
     (\<forall>a \<in> set as. a \<in> {A_set_eapol da WPA_EAPOL_portValid True, A_set_eapol da WPA_EAPOL_authorized True}))"

definition receive_safe :: "wpa_env \<Rightarrow> nat \<Rightarrow> bytes \<Rightarrow> wpa_world \<Rightarrow> wpa_world \<Rightarrow> bool" where
  "receive_safe E i data w w' \<longleftrightarrow> secured w' \<and>
     (if expected_4_of_4 E (sta w i) data then opens_for (sm_addr (sta w i)) w w' else opened (w_tr w') = opened (w_tr w))"

lemma secured_save:
  assumes "secured w" "rests w (save i c w)" "i \<in> set (w_list w)" "secure (cx_sm c)"
  shows "secured (save i c w)"
  using assms by (auto simp: secured_def rests_def save_def sta_def)

lemma gtk_rekey_opened: "opened (w_tr (wpa_gtk_rekey E w)) = opened (w_tr w)"
  by (simp add: wpa_gtk_rekey_def Let_def gtk_update_core)

lemma mic_failure_opened: "opened (w_tr (michael_mic_failure E local w)) = opened (w_tr w)"
proof -
  have drop: "opened (w_tr (fold (\<lambda>i w. countermeasures_drop (sm_addr (sta w i)) w) xs w')) = opened (w_tr w')" for xs w'
    by (induction xs arbitrary: w') (simp_all add: countermeasures_drop_def)
  have start: "opened (w_tr (ieee80211_tkip_countermeasures_start E w')) = opened (w_tr w')" for w'
    by (simp add: ieee80211_tkip_countermeasures_start_def Let_def drop gtk_rekey_opened wpa_auth_countermeasures_start_def)
  show ?thesis
    by (simp add: michael_mic_failure_def Let_def start wpa_auth_sta_local_mic_failure_report_def split: option.split)
qed

lemma countermeasures_sta: "sta (ieee80211_tkip_countermeasures_start E w) j = sta w j"
proof -
  have drop: "sta (fold (\<lambda>i w. countermeasures_drop (sm_addr (sta w i)) w) xs w') j = sta w' j" for xs w'
    by (induction xs arbitrary: w') (simp_all add: countermeasures_drop_def)
  show ?thesis
    by (simp add: ieee80211_tkip_countermeasures_start_def Let_def drop wpa_gtk_rekey_def wpa_auth_countermeasures_start_def)
qed

lemma mic_failure_sta: "ptk_view (sta (michael_mic_failure E local w) j) = ptk_view (sta w j)"
  by (simp add: michael_mic_failure_def Let_def countermeasures_sta wpa_auth_sta_local_mic_failure_report_def
      ptk_view_def pairwise_reply_def split: option.split)

lemma view_secure: "ptk_view s = ptk_view s' \<Longrightarrow> secure s = secure s'" and view_still: "ptk_view s = ptk_view s' \<Longrightarrow> still s = still s'"
  by (simp_all add: secure_def still_def no_request_def ptk_view_def)

lemma rx_store_sm:
  "snd (rx_store E data c) = c' \<Longrightarrow> opened (cx_tr c') = opened (cx_tr c)"
  "rx_store E data c = (False, c') \<Longrightarrow> cx_sm c' = (cx_sm c)\<lparr>sm_last_rx_eapol_key := []\<rparr>"
  "rx_store E data c = (True, c') \<Longrightarrow> cx_sm c' = (cx_sm c)\<lparr>sm_last_rx_eapol_key := data, sm_EAPOLKeyReceived := True,
     sm_EAPOLKeyPairwise := info_has (key_info_of data) WPA_KEY_INFO_KEY_TYPE,
     sm_EAPOLKeyRequest := info_has (key_info_of data) WPA_KEY_INFO_REQUEST, sm_SNonce := key_nonce data\<rparr>"
  by (auto simp: rx_store_def callback_defs split: if_splits)

lemma save_simps [simp]:
  "w_list (save i c w) = w_list w" "sta (save i c w) j = (if j = i then cx_sm c else sta w j)" "w_tr (save i c w) = cx_tr c"
  by (simp_all add: save_def sta_def)

text \<open>A frame that is not a reply of the pairwise handshake.\<close>

lemma receive_other:
  assumes "resting w" "wpa_fuel w \<le> n" "i \<in> set (w_list w)" "all_still w"
    "\<And>j. j \<in> set (w_list w) \<Longrightarrow> j \<noteq> i \<Longrightarrow> secure (sta w j)" "\<not> sm_Init (sta w i)"
    "info_has (key_info_of data) WPA_KEY_INFO_REQUEST \<or> \<not> info_has (key_info_of data) WPA_KEY_INFO_KEY_TYPE"
    "rx_store E data (load i w) = (True, c)"
  shows "secured (wpa_sm_step E n i (save i c w))" "opened (w_tr (wpa_sm_step E n i (save i c w))) = opened (w_tr w)"
proof -
  let ?w = "save i c w"
  note s = rx_store_sm(3)[OF assms(8)]
  have r: "rests w ?w" using rests_save[OF assms(1,3)] rx_mild(5)[of "load i w" E data] assms(8) by simp
  have rr: "resting ?w" "wpa_fuel ?w \<le> n" "i \<in> set (w_list ?w)" using r rests_fuel[OF r] assms(2,3) by (simp_all add: rests_def)
  have "still (sta w i)" using assms(3,4) by (simp add: all_still_def)
  then have "still (cx_sm c)" using assms(7) s by (auto simp: still_def pairwise_reply_def)
  then have a: "all_still ?w" using assms(4) by (simp add: all_still_def)
  have i: "\<not> sm_Init (cx_sm c)" using s assms(6) by simp
  have "opened (w_tr ?w) = opened (w_tr w)" using rx_store_sm(1)[of E data "load i w"] assms(8) by simp
  then show "secured (wpa_sm_step E n i ?w)" "opened (w_tr (wpa_sm_step E n i ?w)) = opened (w_tr w)"
    using secured_sm_step[OF rr a] assms(5) i by simp_all
qed

text \<open>Messages 2/4 and 4/4.\<close>

lemma reply_msg:
  assumes "used_frame E s data" "\<not> info_has (key_info_of data) WPA_KEY_INFO_REQUEST" "info_has (key_info_of data) WPA_KEY_INFO_KEY_TYPE"
  shows "rx_msg data = PAIRWISE_2 \<or> rx_msg data = PAIRWISE_4"
  using assms by (auto simp: used_frame_def rx_msg_def Let_def split: if_splits)

lemma header_replay:
  "rx_header_ok s data \<Longrightarrow> \<not> info_has (key_info_of data) WPA_KEY_INFO_REQUEST \<Longrightarrow> wpa_replay_counter_valid s (key_replay_counter data)"
  by (simp add: rx_header_ok_def)

lemma receive_reply:
  assumes w: "resting w" "wpa_fuel w \<le> n" "i \<in> set (w_list w)"
    and others: "\<And>j. j \<in> set (w_list w) \<Longrightarrow> j \<noteq> i \<Longrightarrow> secure (sta w j)"
    and first: "still (cx_sm (sm_WPA_PTK_Step E c))" "cx_sm c = (sta w i)\<lparr>sm_in_step_loop := True, sm_changed := False\<rparr>"
      "cx_tr c = w_tr w" "cx_gr c = w_groups (clear_changed i w) ! sm_group (sta w i)" "cx_au c = w_au w"
    and init: "\<not> sm_Init (sta w i)"
  shows "secured (wpa_sm_step E n i w)" "opened (w_tr (wpa_sm_step E n i w)) = opened (cx_tr (sm_WPA_PTK_Step E c))"
proof -
  have g: "good w" and l: "\<not> sm_in_step_loop (sta w i)" using w by (simp_all add: resting_def)
  obtain m where m: "n = Suc m" using w(2) by (cases n) (simp_all add: wpa_fuel_def)
  define v where "v = clear_changed i (set_sta i (\<lambda>s. s\<lparr>sm_in_step_loop := True\<rparr>) w)"
  have c: "load i v = c"
    using first(2-5) by (intro wpa_ctx.equality) (simp_all add: v_def clear_changed_def load_def)
  have v: "w_list v = w_list w" "\<And>j. j \<noteq> i \<Longrightarrow> sta v j = sta w j" by (simp_all add: v_def clear_changed_def)
  let ?v = "on_sta i (sm_WPA_PTK_Step E) v"
  have vs: "still (sta ?v j)" if "j \<in> set (w_list w)" for j
    using first(1) v(2)[of j] others[OF that] secure_still by (simp add: c)
  have q: "keeps_still ?v (wpa_sm_step E n i w)"
    unfolding m v_def using quiet_after_first[OF g w(3) l] .
  note s = settles_sm_step[OF w, where E = E]
  have lists: "w_list (wpa_sm_step E n i w) = w_list w" using q v(1) by (simp add: keeps_still_def)
  have i1: "sm_Init (sta ?v j) = sm_Init (sta w j)" for j
    using PTK_Step_fixed[of E c] first(2) v(2)[of j] by (simp add: c sm_fixed_def)
  show "opened (w_tr (wpa_sm_step E n i w)) = opened (cx_tr (sm_WPA_PTK_Step E c))"
    using q vs v(1) by (simp add: keeps_still_def c)
  show "secured (wpa_sm_step E n i w)"
    unfolding secured_def
  proof (intro conjI ballI)
    show "resting (wpa_sm_step E n i w)" using rests_sm_step[OF w(1,2)] by (simp add: rests_def)
    fix j assume "j \<in> set (w_list (wpa_sm_step E n i w))"
    then have j: "j \<in> set (w_list w)" using lists by simp
    have st: "still (sta (wpa_sm_step E n i w) j)" using q vs v(1) j by (simp add: keeps_still_def)
    have "sm_Init (sta (wpa_sm_step E n i w) j) = sm_Init (sta w j)" using q j v(1) i1[of j] by (simp add: keeps_still_def)
    then have "\<not> sm_Init (sta (wpa_sm_step E n i w) j)" using others[OF j] init secure_init by (cases "j = i") auto
    then show "secure (sta (wpa_sm_step E n i w) j)"
      using s(1) settled_secure[OF _ st] undisturbed_secure[OF s(2)[OF j] others[OF j] st] by (cases "j = i") auto
  qed
qed

lemma wpa_receive_eq:
  assumes "c_wpa (a_conf (w_au w)) \<noteq> 0" "w_sm w i \<noteq> None" "rx_front E data (load i w) = (what, c)"
    "rx_store E data (load i (rx_side E n i what (save i c w))) = (go, c')"
  shows "wpa_receive E n i data w = (if what = RX_drop then save i c w
    else if go then wpa_sm_step E n i (save i c' (rx_side E n i what (save i c w))) else save i c' (rx_side E n i what (save i c w)))"
  using assms by (auto simp: wpa_receive_def Let_def)

lemma request_secure:
  assumes "secure s" "sm_PTK_valid s"
  shows "secure (request_station data s)" "secure (wpa_request_new_ptk (request_station data s))"
  using assms by (auto simp: secure_def still_def request_station_def wpa_request_new_ptk_def no_request_def pairwise_reply_def)

lemma store_secure: "secure s \<Longrightarrow> secure (s\<lparr>sm_last_rx_eapol_key := k\<rparr>)"
  using view_secure[of s "s\<lparr>sm_last_rx_eapol_key := k\<rparr>"] by (simp add: ptk_view_def pairwise_reply_def)

text \<open>The side effects of a request.\<close>

lemma rx_side_secured:
  assumes "secured w" "wpa_fuel w \<le> n" "i \<in> set (w_list w)" "sm_PTK_valid (sta w i) \<or> what = RX_store"
  shows "secured (rx_side E n i what w)" "rests w (rx_side E n i what w)" "opened (w_tr (rx_side E n i what w)) = opened (w_tr w)"
proof -
  note w = secured_dest[OF assms(1)]
  have store: "rx_side E n i RX_drop w = w" "rx_side E n i RX_store w = w" by (simp_all add: rx_side_def)
  define v where "v = michael_mic_failure E None w"
  have v: "rests w v" "opened (w_tr v) = opened (w_tr w)" "\<And>j. secure (sta v j) = secure (sta w j)"
    unfolding v_def using rests_michael_mic_failure[OF w(1)] mic_failure_opened view_secure[OF mic_failure_sta] by blast+
  have rv: "resting v" "i \<in> set (w_list v)" "w_list v = w_list w" using v(1) assms(3) by (simp_all add: rests_def)
  have e: "rests v (on_sta i rx_error_report v)" using rests_on_sta[of v i rx_error_report] rv rx_mild(6) by blast
  have err: "secure (cx_sm (rx_error_report (load i v)))"
  proof -
    have "secure (sta v i)" using w(4) v(3) assms(3) by simp
    then show ?thesis
      by (auto simp: rx_error_report_def Let_def secure_def still_def wpa_request_new_ptk_def no_request_def pairwise_reply_def)
  qed
  have mic: "secured (on_sta i rx_error_report v)" "rests w (on_sta i rx_error_report v)" "opened (w_tr (on_sta i rx_error_report v)) = opened (w_tr w)"
    using e rests_trans[OF v(1) e] err w(4) v(2,3) rv(3) by (auto simp: secured_def rests_def rx_error_report_def Let_def)
  note k = calm_rekey_gtk[OF w(1) assms(2), of E] and q = quiet_rekey_gtk[OF w(2), of E n, unfolded keeps_still_def]
  have sec: "secure (sta (wpa_rekey_gtk E n w) j)" if "j \<in> set (w_list w)" for j
    using undisturbed_secure[of "sta w j" "sta (wpa_rekey_gtk E n w) j"] k q w(3,4) that secure_init
    by (auto simp: calm_def all_still_def)
  have rekey: "secured (wpa_rekey_gtk E n w)" "opened (w_tr (wpa_rekey_gtk E n w)) = opened (w_tr w)"
    using sec q w(3) calm_rests[OF w(1) k] by (simp_all add: secured_def all_still_def rests_def)
  show "secured (rx_side E n i what w)" "rests w (rx_side E n i what w)" "opened (w_tr (rx_side E n i what w)) = opened (w_tr w)"
    using store assms(1) mic rekey rests_refl[OF w(1)] rests_rekey_gtk[OF w(1) assms(2)]
    by (cases what; simp add: rx_side_def v_def[symmetric])+
qed

lemma receive_safe_quiet: "secured w' \<Longrightarrow> opened (w_tr w') = opened (w_tr w) \<Longrightarrow> receive_safe E i data w w'"
  by (simp add: receive_safe_def opens_for_def)

lemma drop_secure: "secure s \<Longrightarrow> s' = s \<or> s' = s\<lparr>sm_MICVerified := False\<rparr> \<Longrightarrow> secure s'"
proof (elim disjE)
  assume "secure s"
  then have "secure (s\<lparr>sm_MICVerified := False\<rparr>)" by (auto simp: secure_def still_def no_request_def pairwise_reply_def)
  then show "s' = s\<lparr>sm_MICVerified := False\<rparr> \<Longrightarrow> secure s'" by simp
qed simp

lemma drop_safe:
  assumes "secured w" "i \<in> set (w_list w)" "rests w (save i c w)" "opened (cx_tr c) = opened (w_tr w)"
    "cx_sm c = sta w i \<or> cx_sm c = (sta w i)\<lparr>sm_MICVerified := False\<rparr>"
  shows "receive_safe E i data w (save i c w)"
proof (rule receive_safe_quiet)
  show "secured (save i c w)"
    using secured_save[OF assms(1,3,2)] drop_secure[OF secured_dest(4)[OF assms(1,2)] assms(5)] by blast
qed (simp add: assms(4))

lemma request_safe:
  assumes "secured w" "wpa_fuel w \<le> n" "i \<in> set (w_list w)" "rests w (save i c w)" "opened (cx_tr c) = opened (w_tr w)"
    "sm_PTK_valid (sta w i)" "info_has (key_info_of data) WPA_KEY_INFO_REQUEST"
    "cx_sm c = request_station data (sta w i) \<or> cx_sm c = wpa_request_new_ptk (request_station data (sta w i)) \<and> what = RX_store"
    "rx_store E data (load i (rx_side E n i what (save i c w))) = (go, c')"
  defines "w2 \<equiv> rx_side E n i what (save i c w)"
  shows "receive_safe E i data w (if go then wpa_sm_step E n i (save i c' w2) else save i c' w2)"
proof -
  let ?w1 = "save i c w"
  note w = secured_dest[OF assms(1)]
  have "secure (cx_sm c)" using request_secure[OF w(4)[OF assms(3)] assms(6)] assms(8) by metis
  then have 1: "secured ?w1" using secured_save[OF assms(1,4,3)] by blast
  have f1: "wpa_fuel ?w1 \<le> n" "i \<in> set (w_list ?w1)" using rests_fuel[OF assms(4)] assms(2,3) by simp_all
  have "sm_PTK_valid (sta ?w1 i) \<or> what = RX_store" using assms(6,8) by (auto simp: request_station_def)
  note side = rx_side_secured[OF 1 f1 this, of E, folded w2_def]
  have f2: "wpa_fuel w2 \<le> n" "i \<in> set (w_list w2)" using rests_fuel[OF side(2)] f1 side(2) by (simp_all add: rests_def)
  note w2 = secured_dest[OF side(1)]
  have st: "rx_store E data (load i w2) = (go, c')" using assms(9) by (simp add: w2_def)
  have op: "opened (w_tr w2) = opened (w_tr w)" "opened (cx_tr c') = opened (w_tr w)"
    using side(3) assms(5) rx_store_sm(1)[of E data "load i w2" c'] st by simp_all
  show ?thesis
  proof (cases go)
    case True
    have a: "rx_store E data (load i w2) = (True, c')" using st True by simp
    show ?thesis using receive_other[OF w2(1) f2 w2(3) w2(4) secure_init[OF w2(4)[OF f2(2)]] disjI1[OF assms(7)] a]
      True op receive_safe_quiet by simp
  next
    case False
    have s: "cx_sm c' = (sta w2 i)\<lparr>sm_last_rx_eapol_key := []\<rparr>" using rx_store_sm(2)[of E data "load i w2" c'] st False by simp
    have "rests w2 (save i c' w2)" using rests_save[OF w2(1) f2(2)] rx_mild(5)[of "load i w2" E data] st by simp
    moreover have "secure (cx_sm c')" unfolding s by (rule store_secure[OF w2(4)[OF f2(2)]])
    ultimately have "secured (save i c' w2)" using secured_save[OF side(1) _ f2(2)] by blast
    then show ?thesis using False op receive_safe_quiet by simp
  qed
qed

definition reply_station :: "wpa_state_machine \<Rightarrow> wpa_state_machine" where
  "reply_station s = s\<lparr>sm_MICVerified := sm_PTK_valid s,
     sm_key_replay := (sm_key_replay s)[0 := (sm_key_replay s ! 0)\<lparr>rs_valid := False\<rparr>]\<rparr>"

lemma reply_secure: "secure s \<Longrightarrow> secure (reply_station s)"
  by (auto simp: reply_station_def secure_def still_def no_request_def pairwise_reply_def)

lemma pairwise_safe:
  assumes w: "resting w" "wpa_fuel w \<le> n" "i \<in> set (w_list w)"
    and others: "\<And>j. j \<in> set (w_list w) \<Longrightarrow> j \<noteq> i \<Longrightarrow> secure (sta w j)"
    and s: "secure s" "used_frame E s data" "\<not> info_has (key_info_of data) WPA_KEY_INFO_REQUEST" "info_has (key_info_of data) WPA_KEY_INFO_KEY_TYPE"
      "sta w i = (reply_station s)\<lparr>sm_last_rx_eapol_key := data, sm_EAPOLKeyReceived := True,
         sm_EAPOLKeyPairwise := info_has (key_info_of data) WPA_KEY_INFO_KEY_TYPE,
         sm_EAPOLKeyRequest := info_has (key_info_of data) WPA_KEY_INFO_REQUEST, sm_SNonce := key_nonce data\<rparr>"
  shows "secured (wpa_sm_step E n i w)"
    "if expected_4_of_4 E s data then opens_for (sm_addr s) w (wpa_sm_step E n i w) else opened (w_tr (wpa_sm_step E n i w)) = opened (w_tr w)"
proof -
  define c where "c = load i (clear_changed i (set_sta i (\<lambda>s. s\<lparr>sm_in_step_loop := True\<rparr>) w))"
  have c: "cx_sm c = (sta w i)\<lparr>sm_in_step_loop := True, sm_changed := False\<rparr>" "cx_tr c = w_tr w" "cx_au c = w_au w"
    "cx_gr c = w_groups (clear_changed i w) ! sm_group (sta w i)"
    by (simp_all add: c_def clear_changed_def)
  note cs = c(1)[unfolded s(5) reply_station_def]
  have rep: "pairwise_reply (cx_sm c)" "sm_MICVerified (cx_sm c) = sm_PTK_valid (cx_sm c)" "\<not> sm_Init (sta w i)"
    "sm_PTK_valid (cx_sm c) = sm_PTK_valid s" "sm_ptk_state (cx_sm c) = sm_ptk_state s" "sm_PTKRequest (cx_sm c) = sm_PTKRequest s"
    "no_request ((cx_sm c)\<lparr>sm_PTKRequest := False\<rparr>)" "sm_addr (cx_sm c) = sm_addr s"
    using s(1,3,4) by (simp_all add: cs s(5) reply_station_def pairwise_reply_def secure_def no_request_def)
  have two: "sm_PTKRequest s \<Longrightarrow> \<not> sm_PTK_valid s" "sm_ptk_state s = WPA_PTK_PTKCALCNEGOTIATING \<Longrightarrow> \<not> sm_PTK_valid s"
    using s(1) by (auto simp: secure_def still_def)
  consider (two) "rx_msg data = PAIRWISE_2" "sm_ptk_state s \<in> {WPA_PTK_PTKSTART, WPA_PTK_PTKCALCNEGOTIATING}"
    | (four) "rx_msg data = PAIRWISE_4" "sm_ptk_state s = WPA_PTK_PTKINITNEGOTIATING" "sm_PTK_valid s"
    using reply_msg[OF s(2-4)] s(2) by (auto simp: used_frame_def)
  then show "secured (wpa_sm_step E n i w)"
    "if expected_4_of_4 E s data then opens_for (sm_addr s) w (wpa_sm_step E n i w) else opened (w_tr (wpa_sm_step E n i w)) = opened (w_tr w)"
  proof (atomize (full), cases)
    case two': two
    note f = first_step_2_of_4[OF rep(7) _ rep(1) _ rep(2), of E]
    have f1: "still (cx_sm (sm_WPA_PTK_Step E c))" "opened (cx_tr (sm_WPA_PTK_Step E c)) = opened (cx_tr c)"
      using f two two'(2) rep(4-6) by auto
    note r = receive_reply[OF w others f1(1) c(1,2,4,3) rep(3)]
    have "\<not> expected_4_of_4 E s data" using two'(1) by (simp add: expected_4_of_4_def)
    then show "secured (wpa_sm_step E n i w) \<and> (if expected_4_of_4 E s data then opens_for (sm_addr s) w (wpa_sm_step E n i w)
      else opened (w_tr (wpa_sm_step E n i w)) = opened (w_tr w))"
      using r f1(2) c(2) by simp
  next
    case four
    have nr: "no_request (cx_sm c)" using rep(6,7) two(1) four(3) by (auto simp: no_request_def)
    have mic: "sm_MICVerified (cx_sm c)" using rep(2,4) four(3) by simp
    note f = first_step_done[OF nr rep(1) _ mic, of E]
    have st: "sm_ptk_state (cx_sm c) = WPA_PTK_PTKINITNEGOTIATING" using rep(5) four(2) by simp
    note r = receive_reply[OF w others f(2)[OF st] c(1,2,4,3) rep(3)]
    have "expected_4_of_4 E s data"
      using four s(2) header_replay[of s data] s(3) by (simp add: expected_4_of_4_def used_frame_def)
    then show "secured (wpa_sm_step E n i w) \<and> (if expected_4_of_4 E s data then opens_for (sm_addr s) w (wpa_sm_step E n i w)
      else opened (w_tr (wpa_sm_step E n i w)) = opened (w_tr w))"
      using r PTKINITDONE_opens[of E c] c(2) rep(8) by (simp add: opens_for_def f(1)[OF st])
  qed
qed

lemma reply_safe:
  assumes "secured w" "wpa_fuel w \<le> n" "i \<in> set (w_list w)" "rests w (save i c w)" "opened (cx_tr c) = opened (w_tr w)"
    "used_frame E (sta w i) data" "\<not> info_has (key_info_of data) WPA_KEY_INFO_REQUEST" "cx_sm c = reply_station (sta w i)"
    "rx_store E data (load i (save i c w)) = (go, c')"
  shows "receive_safe E i data w (if go then wpa_sm_step E n i (save i c' (save i c w)) else save i c' (save i c w))"
proof -
  define w1 where "w1 = save i c w"
  define w2 where "w2 = save i c' w1"
  note w = secured_dest[OF assms(1)]
  have 1: "secured w1" unfolding w1_def
    using secured_save[OF assms(1,4,3)] reply_secure[OF w(4)[OF assms(3)]] assms(8) by simp
  note d1 = secured_dest[OF 1]
  have f1: "wpa_fuel w1 \<le> n" "i \<in> set (w_list w1)" "sta w1 i = reply_station (sta w i)" "opened (w_tr w1) = opened (w_tr w)"
    using rests_fuel[OF assms(4)] assms(2,3,5,8) by (simp_all add: w1_def)
  have st: "rx_store E data (load i w1) = (go, c')" using assms(9) by (simp add: w1_def)
  have r2: "rests w1 w2" unfolding w2_def
    using rests_save[OF d1(1) f1(2)] rx_mild(5)[of "load i w1" E data] st by simp
  have f2: "resting w2" "wpa_fuel w2 \<le> n" "i \<in> set (w_list w2)" using r2 rests_fuel[OF r2] f1 by (simp_all add: rests_def)
  have op: "opened (w_tr w2) = opened (w_tr w)"
    using rx_store_sm(1)[of E data "load i w1" c'] st f1(4) by (simp add: w2_def)
  have oth: "secure (sta w2 j)" if "j \<in> set (w_list w2)" "j \<noteq> i" for j using that d1(4)[of j] by (simp add: w2_def)
  consider (fail) "\<not> go" | (group) go "\<not> info_has (key_info_of data) WPA_KEY_INFO_KEY_TYPE" | (pair) go "info_has (key_info_of data) WPA_KEY_INFO_KEY_TYPE"
    by blast
  then have "receive_safe E i data w (if go then wpa_sm_step E n i w2 else w2)"
  proof cases
    case fail
    have s: "cx_sm c' = (sta w1 i)\<lparr>sm_last_rx_eapol_key := []\<rparr>" using rx_store_sm(2)[of E data "load i w1" c'] st fail by simp
    have "secure (cx_sm c')" unfolding s by (rule store_secure[OF d1(4)[OF f1(2)]])
    then have "secured w2" unfolding w2_def using secured_save[OF 1 r2[unfolded w2_def] f1(2)] by blast
    then show ?thesis using fail op receive_safe_quiet by simp
  next
    case group
    have a: "rx_store E data (load i w1) = (True, c')" using st group(1) by simp
    show ?thesis
      using receive_other[OF d1(1) f1(1,2) d1(3) d1(4) secure_init[OF d1(4)[OF f1(2)]] disjI2[OF group(2)] a] group(1) f1(4)
        receive_safe_quiet by (simp add: w2_def)
  next
    case pair
    have s: "sta w2 i = (reply_station (sta w i))\<lparr>sm_last_rx_eapol_key := data, sm_EAPOLKeyReceived := True,
         sm_EAPOLKeyPairwise := info_has (key_info_of data) WPA_KEY_INFO_KEY_TYPE,
         sm_EAPOLKeyRequest := info_has (key_info_of data) WPA_KEY_INFO_REQUEST, sm_SNonce := key_nonce data\<rparr>"
      using rx_store_sm(3)[of E data "load i w1" c'] st pair(1) f1(3) by (simp add: w2_def)
    note p = pairwise_safe[OF f2 oth w(4)[OF assms(3)] assms(6,7) pair(2) s]
    show ?thesis using p pair(1) op unfolding receive_safe_def opens_for_def by (simp split: if_splits)
  qed
  then show ?thesis unfolding w1_def w2_def .
qed

lemma wpa_receive_secured:
  assumes "secured w" "wpa_fuel w \<le> n" "i \<in> set (w_list w)" "c_wpa (a_conf (w_au w)) \<noteq> 0"
  shows "receive_safe E i data w (wpa_receive E n i data w)"
proof -
  note w = secured_dest[OF assms(1)]
  have some: "w_sm w i \<noteq> None" using w(5)[of i] assms(3) by simp
  have save: "rests w (save i c w)" if "rx_front E data (load i w) = (what, c)" for what c
    using rests_save[OF w(1) assms(3)] rx_front_mild[of "load i w" E data] that by simp
  obtain what c where f: "rx_front E data (load i w) = (what, c)" by (cases "rx_front E data (load i w)")
  obtain go c' where g: "rx_store E data (load i (rx_side E n i what (save i c w))) = (go, c')"
    by (cases "rx_store E data (load i (rx_side E n i what (save i c w)))")
  note eq = wpa_receive_eq[OF assms(4) some f g]
  show ?thesis
  proof (cases rule: rx_front_cases[of E data "load i w"])
    case (drop c0)
    then show ?thesis using drop_safe[OF assms(1,3) save[OF drop(1)] drop(2)[simplified] drop(3)[simplified], of E data] eq f by simp
  next
    case (request what0 c0)
    have e: "what0 = what" "c0 = c" using request(1) f by simp_all
    have v: "sm_PTK_valid (sta w i)" using request(4,5) by (simp add: used_frame_def)
    note r = request_safe[OF assms(1-3) save[OF f] _ v request(5) _ g]
    show ?thesis using r request(2,3,6) eq by (simp add: e)
  next
    case (reply c0)
    have e: "what = RX_store" "c0 = c" using reply(1) f by simp_all
    have g': "rx_store E data (load i (save i c w)) = (go, c')" "rx_side E n i RX_store (save i c w) = save i c w"
      using g by (simp_all add: e rx_side_def)
    have s: "cx_sm c = reply_station (sta w i)" using reply(5) e by (simp add: reply_station_def)
    note r = reply_safe[OF assms(1-3) save[OF f] _ reply(3)[simplified] reply(4) s g'(1)]
    show ?thesis using r reply(2) eq g'(2) by (simp add: e split: if_splits)
  qed
qed

section \<open>The other inputs\<close>

lemma secured_cong:
  assumes "secured w" "resting w'" "w_list w' = w_list w" "\<And>j. j \<in> set (w_list w) \<Longrightarrow> ptk_view (sta w' j) = ptk_view (sta w j)"
  shows "secured w'"
  unfolding secured_def
proof (intro conjI ballI)
  fix j assume "j \<in> set (w_list w')"
  then have j: "j \<in> set (w_list w)" using assms(3) by simp
  show "secure (sta w' j)" using view_secure[OF assms(4)[OF j]] secured_dest(4)[OF assms(1) j] by simp
qed (rule assms(2))

text \<open>The machines of a station are started; the request for authentication is still to be handled.\<close>

lemma start_sm_secured:
  fixes E
  assumes "secured w" "wpa_fuel w \<le> n" "i \<in> set (w_list w)"
  defines "w' \<equiv> start_sm E n i w"
  shows "rests w w'" "all_still w'" "opened (w_tr w') = opened (w_tr w)"
    "\<And>j. j \<in> set (w_list w) \<Longrightarrow> j \<noteq> i \<Longrightarrow> secure (sta w' j)" "\<not> sm_Init (sta w' i)"
proof -
  note w = secured_dest[OF assms(1)]
  define w1 where "w1 = set_sta i (\<lambda>s. s\<lparr>sm_started := True, sm_Init := True\<rparr>) w"
  define w2 where "w2 = wpa_sm_step E n i w1"
  have r1: "rests w w1" unfolding w1_def by (rule rests_set_sta[OF w(1) assms(3)]) simp_all
  have f1: "resting w1" "wpa_fuel w1 \<le> n" "i \<in> set (w_list w1)" "good w1"
    using r1 rests_fuel[OF r1] assms(2,3) by (simp_all add: rests_def resting_def)
  have s1: "still (sta w1 j) = still (sta w j)" for j by (simp add: w1_def still_def pairwise_reply_def)
  have l1: "w_list w1 = w_list w" "opened (w_tr w1) = opened (w_tr w)" by (simp_all add: w1_def)
  note q = quiet_sm_step[OF f1(4), where E = E and n = n and i = i, folded w2_def, unfolded keeps_still_def l1]
  have s2: "\<And>j. j \<in> set (w_list w) \<Longrightarrow> still (sta w2 j)" "w_list w2 = w_list w" "opened (w_tr w2) = opened (w_tr w)"
    using q w(3) s1 by (simp_all add: all_still_def)
  have i2: "w_sm w2 i \<noteq> None"
    using rests_sm_step[OF f1(1,2), of E i] good_dest(6)[of w2 i] assms(3) s2(2) by (simp add: w2_def rests_def resting_def)
  have w': "w' = set_sta i (\<lambda>s. s\<lparr>sm_Init := False, sm_AuthenticationRequest := True\<rparr>) w2"
    using i2 by (auto simp: w'_def start_sm_def Let_def w1_def[symmetric] w2_def[symmetric])
  show "rests w w'" using rests_start_sm[OF w(1) assms(2,3)] by (simp add: w'_def)
  show "all_still w'" "opened (w_tr w') = opened (w_tr w)"
    using s2 assms(3) by (simp_all add: w' all_still_def) (auto simp: still_def pairwise_reply_def)
  show "\<not> sm_Init (sta w' i)" by (simp add: w')
  fix j assume j: "j \<in> set (w_list w)" "j \<noteq> i"
  have "undisturbed (sta w j) (sta w2 j)"
    using settles_sm_step(2)[OF f1(1-3), of j E] j by (simp add: w2_def[symmetric] l1) (simp add: w1_def)
  moreover have "\<not> sm_Init (sta w2 j)" using q j secure_init[OF w(4)[OF j(1)]] by (simp add: w1_def)
  ultimately have "secure (sta w2 j)" using undisturbed_secure[OF _ w(4)[OF j(1)] s2(1)[OF j(1)]] by blast
  then show "secure (sta w' j)" using j by (simp add: w')
qed

lemma secured_associated:
  assumes "secured w" "wpa_fuel w \<le> n"
  shows "secured (wpa_auth_sta_associated E n i w) \<and> opened (w_tr (wpa_auth_sta_associated E n i w)) = opened (w_tr w)"
proof (cases "i \<in> set (w_list w)")
  case True
  note w = secured_dest[OF assms(1)] and st = start_sm_secured[OF assms True, where E = E]
  have sec: "secure (sta w i)" using w(4)[OF True] .
  let ?f = "\<lambda>s. s\<lparr>sm_key_replay := sm_key_replay (fresh_sm []), sm_ReAuthenticationRequest := True\<rparr>"
  have "secured (wpa_sm_step E n i (set_sta i ?f w))" "opened (w_tr (wpa_sm_step E n i (set_sta i ?f w))) = opened (w_tr w)"
    by (rule secured_set_step[OF assms True rests_set_sta[OF w(1) True]];
      use secure_still[OF sec] secure_init[OF sec] in \<open>simp add: still_def pairwise_reply_def\<close>)+
  moreover have "secured (wpa_sm_step E n i (start_sm E n i w)) \<and> opened (w_tr (wpa_sm_step E n i (start_sm E n i w))) = opened (w_tr w)"
    using secured_sm_step[of "start_sm E n i w" n i E] st True rests_fuel[OF st(1)] assms(2) by (simp add: rests_def)
  ultimately show ?thesis using assms(1) by (auto simp: wpa_auth_sta_associated_def)
next
  case False
  then show ?thesis using assms(1) secured_dest(5)[OF assms(1), of i] by (simp add: wpa_auth_sta_associated_def)
qed

lemma event_station_still: "still s \<Longrightarrow> still (s\<lparr>sm_PTK_valid := False, sm_PTK := zero_ptk\<rparr>)"
  by (auto simp: still_def pairwise_reply_def)

lemma remove_ptk_still: "still (cx_sm c) \<Longrightarrow> still (cx_sm (wpa_remove_ptk E c))"
  by (auto simp: remove_ptk_after still_def pairwise_reply_def)

definition event_request :: "wpa_env \<Rightarrow> nat \<Rightarrow> nat \<Rightarrow> wpa_event \<Rightarrow> wpa_world \<Rightarrow> wpa_world" where
  "event_request E n i event w =
     (if event = WPA_DEAUTH \<or> event = WPA_DISASSOC then set_sta i (\<lambda>s. s\<lparr>sm_DeauthenticationRequest := True\<rparr>) w
      else if event = WPA_REAUTH \<or> event = WPA_REAUTH_EAPOL then
        if \<not> sm_started (sta w i) then start_sm E n i w
        else
          let w = (if sm_GUpdateStationKeys (sta w i)
                   then on_sta i (\<lambda>c. upd_s (\<lambda>s. s\<lparr>sm_PtkGroupInit := True\<rparr>) (group_update_done c)) w else w)
          in set_sta i (\<lambda>s. s\<lparr>sm_ReAuthenticationRequest := True\<rparr>) w
      else w)"

lemma event_request_secured:
  fixes E event
  assumes "secured w" "wpa_fuel w \<le> n" "i \<in> set (w_list w)"
  defines "w' \<equiv> event_request E n i event w"
  shows "rests w w' \<and> all_still w' \<and> opened (w_tr w') = opened (w_tr w) \<and> (\<forall>j \<in> set (w_list w). j \<noteq> i \<longrightarrow> secure (sta w' j)) \<and> \<not> sm_Init (sta w' i)"
proof -
  note w = secured_dest[OF assms(1)]
  have sec: "still (sta w i)" "\<not> sm_Init (sta w i)" using w(4)[OF assms(3)] secure_still secure_init by blast+
  let ?ok = "\<lambda>w'. rests w w' \<and> all_still w' \<and> opened (w_tr w') = opened (w_tr w) \<and> (\<forall>j \<in> set (w_list w). j \<noteq> i \<longrightarrow> secure (sta w' j)) \<and> \<not> sm_Init (sta w' i)"
  have start: "?ok (start_sm E n i w)" using start_sm_secured[OF assms(1-3), where E = E] by blast
  have same: "?ok w" using rests_refl[OF w(1)] w(3,4) sec(2) by simp
  have upd: "?ok (on_sta i (\<lambda>c. upd_s (\<lambda>s. s\<lparr>sm_PtkGroupInit := True\<rparr>) (group_update_done c)) w)"
  proof (intro conjI)
    show "rests w (on_sta i (\<lambda>c. upd_s (\<lambda>s. s\<lparr>sm_PtkGroupInit := True\<rparr>) (group_update_done c)) w)"
      by (rule rests_on_sta[OF w(1) assms(3)]) (simp add: mild_def group_update_done_def)
  qed (use w(3,4) sec in \<open>auto simp: all_still_def group_update_done_def still_def pairwise_reply_def\<close>)
  have flag: "?ok (set_sta i f v)" if "?ok v"
    "\<And>s. still (f s) = still s \<and> sm_Init (f s) = sm_Init s"
    "\<And>s. sm_group (f s) = sm_group s \<and> sm_pending_deinit (f s) = sm_pending_deinit s \<and> sm_in_step_loop (f s) = sm_in_step_loop s \<and>
      sm_ptk_group_state (f s) = sm_ptk_group_state s \<and> sm_GTimeoutCtr (f s) = sm_GTimeoutCtr s" for f v
  proof -
    have r: "rests w v" using that(1) by blast
    have v: "resting v" "i \<in> set (w_list v)" "w_list v = w_list w" using r assms(3) by (simp_all add: rests_def)
    have "rests w (set_sta i f v)" by (rule rests_trans[OF r rests_set_sta[OF v(1,2)]]) (use that(3) in simp_all)
    then show ?thesis using that(1,2) v(3) by (simp add: all_still_def)
  qed
  have s: "still (s\<lparr>sm_ReAuthenticationRequest := True\<rparr>) = still s" "still (s\<lparr>sm_DeauthenticationRequest := True\<rparr>) = still s" for s
    by (simp_all add: still_def pairwise_reply_def)
  have re: "?ok (set_sta i (\<lambda>s. s\<lparr>sm_ReAuthenticationRequest := True\<rparr>) v)" "?ok (set_sta i (\<lambda>s. s\<lparr>sm_DeauthenticationRequest := True\<rparr>) v)" if "?ok v" for v
    by (rule flag[OF that]; simp add: s)+
  show ?thesis
    unfolding w'_def event_request_def Let_def
    using start same re[OF same] re(1)[OF upd] by presburger
qed

lemma secured_sm_event:
  assumes "secured w" "wpa_fuel w \<le> n"
  shows "secured (wpa_auth_sm_event E n i event w) \<and> opened (w_tr (wpa_auth_sm_event E n i event w)) = opened (w_tr w)"
proof (cases "i \<in> set (w_list w)")
  case True
  define w1 where "w1 = event_request E n i event w"
  note 1 = event_request_secured[OF assms True, where E = E and event = event, folded w1_def]
  define w2 where "w2 = set_sta i (\<lambda>s. s\<lparr>sm_PTK_valid := False, sm_PTK := zero_ptk\<rparr>) w1"
  have r1: "resting w1" "i \<in> set (w_list w1)" "w_list w1 = w_list w" using 1 True by (simp_all add: rests_def)
  have 2: "rests w w2" unfolding w2_def by (rule rests_trans[OF conjunct1[OF 1] rests_set_sta[OF r1(1,2)]]) simp_all
  have r2: "resting w2" "i \<in> set (w_list w2)" "w_list w2 = w_list w" using 2 True by (simp_all add: rests_def)
  have s2: "all_still w2" "\<And>j. j \<in> set (w_list w) \<Longrightarrow> j \<noteq> i \<Longrightarrow> secure (sta w2 j)" "\<not> sm_Init (sta w2 i)" "opened (w_tr w2) = opened (w_tr w)"
    using 1 event_station_still r1(3) by (simp_all add: w2_def all_still_def)
  let ?w3 = "on_sta i (wpa_remove_ptk E) w2"
  have 3: "rests w ?w3" by (rule rests_trans[OF 2 rests_on_sta[OF r2(1,2)]]) (simp add: mild_def remove_ptk_after)
  have s3: "all_still ?w3" "\<And>j. j \<in> set (w_list w) \<Longrightarrow> j \<noteq> i \<Longrightarrow> secure (sta ?w3 j)" "\<not> sm_Init (sta ?w3 i)" "opened (w_tr ?w3) = opened (w_tr w)"
    using s2 remove_ptk_still[of "load i w2" E] r2 by (simp_all add: all_still_def remove_ptk_after)
  have step: "secured (wpa_sm_step E n i v) \<and> opened (w_tr (wpa_sm_step E n i v)) = opened (w_tr w)"
    if "rests w v" "all_still v" "\<And>j. j \<in> set (w_list w) \<Longrightarrow> j \<noteq> i \<Longrightarrow> secure (sta v j)" "\<not> sm_Init (sta v i)" "opened (w_tr v) = opened (w_tr w)" for v
    using secured_sm_step[of v n i E] that rests_fuel[OF that(1)] assms(2) True by (simp add: rests_def)
  have some: "w_sm w i \<noteq> None" "w_sm w1 i \<noteq> None"
    using secured_dest(5)[OF assms(1), of i] True good_dest(6)[of w1 i] r1 by (simp_all add: resting_def)
  have "wpa_auth_sm_event E n i event w = (if event \<noteq> WPA_REAUTH_EAPOL then wpa_sm_step E n i ?w3 else wpa_sm_step E n i w2)"
    unfolding wpa_auth_sm_event_def Let_def event_request_def[unfolded Let_def, symmetric] w1_def[symmetric]
    using some by (auto simp: w2_def[symmetric])
  then show ?thesis using step[OF 2 s2] step[OF 3 s3] by simp
next
  case False
  then show ?thesis using assms(1) secured_dest(5)[OF assms(1), of i] by (simp add: wpa_auth_sm_event_def)
qed

text \<open>Inputs that leave the pairwise machines alone.\<close>

lemma ptk_view_simps [simp]:
  "ptk_view (s\<lparr>sm_pmksa := p\<rparr>) = ptk_view s" "ptk_view (s\<lparr>sm_wpa_ie := ie\<rparr>) = ptk_view s" "ptk_view (s\<lparr>sm_pairwise := k\<rparr>) = ptk_view s"
  "ptk_view (s\<lparr>sm_wpa := v\<rparr>) = ptk_view s" "ptk_view (s\<lparr>sm_wpa_key_mgmt := k\<rparr>) = ptk_view s" "ptk_view (s\<lparr>sm_group := g\<rparr>) = ptk_view s"
  by (simp_all add: ptk_view_def pairwise_reply_def)

definition untouched :: "wpa_world \<Rightarrow> wpa_world \<Rightarrow> bool" where
  "untouched w w' \<longleftrightarrow> w_list w' = w_list w \<and> opened (w_tr w') = opened (w_tr w) \<and>
     (\<forall>j \<in> set (w_list w). ptk_view (sta w' j) = ptk_view (sta w j))"

lemma untouched_refl [simp]: "untouched w w" and untouched_trans: "untouched w1 w2 \<Longrightarrow> untouched w2 w3 \<Longrightarrow> untouched w1 w3"
  by (simp_all add: untouched_def)

lemma untouched_secured: "secured w \<Longrightarrow> resting w' \<Longrightarrow> untouched w w' \<Longrightarrow> secured w' \<and> opened (w_tr w') = opened (w_tr w)"
  using secured_cong[of w w'] by (simp add: untouched_def)

lemma untouched_set_cache: "untouched w (set_cache cache w)"
proof -
  have cb: "untouched w (fold (\<lambda>i. set_sta i (wpa_auth_pmksa_clear_cb entry)) xs w)" for entry xs w
  proof (induction xs arbitrary: w)
    case (Cons i xs)
    have "untouched w (set_sta i (wpa_auth_pmksa_clear_cb entry) w)"
      by (simp add: untouched_def wpa_auth_pmksa_clear_cb_def)
    then show ?case using untouched_trans[OF _ Cons.IH] by simp
  qed simp
  have "untouched w (fold wpa_auth_pmksa_free_cb es w)" for es w
  proof (induction es arbitrary: w)
    case (Cons e es)
    have "untouched w (wpa_auth_pmksa_free_cb e w)" by (simp add: wpa_auth_pmksa_free_cb_def cb)
    then show ?case using untouched_trans[OF _ Cons.IH] by simp
  qed simp
  note fold = this
  have "untouched w (w\<lparr>w_au := au\<rparr>)" for au by (simp add: untouched_def)
  then show ?thesis unfolding set_cache_def Let_def using fold untouched_trans by blast
qed

lemma validate_view:
  assumes "validate_body E mem before after ie c = Some (r, c')"
  shows "ptk_view (cx_sm c') = ptk_view (cx_sm c) \<and> opened (cx_tr c') = opened (cx_tr c)"
proof -
  let ?P = "\<lambda>c c'. ptk_view (cx_sm c') = ptk_view (cx_sm c) \<and> opened (cx_tr c') = opened (cx_tr c)"
  have 1: "validate_pmksa E mem before after data z = Some z' \<Longrightarrow> ?P z z'" for data z z'
    by (auto simp: validate_pmksa_def Let_def split: option.splits if_splits prod.splits)
  have 2: "validate_store E ie z = (r, c') \<Longrightarrow> ?P z c'" for z
    by (auto simp: validate_store_def Let_def callback_defs split: if_splits)
  obtain res data where p: "(if ie ! 0 = WLAN_EID_RSN then wpa_parse_wpa_ie_rsn ie else wpa_parse_wpa_ie_wpa ie) = (res, data)"
    by (cases "if ie ! 0 = WLAN_EID_RSN then wpa_parse_wpa_ie_rsn ie else wpa_parse_wpa_ie_wpa ie")
  show ?thesis
    using assms unfolding validate_body_def Let_def p prod.case
    by (auto split: if_splits dest!: 1 2)
qed

lemma untouched_validate:
  assumes "wpa_validate_wpa_ie E mem before after i ie w = Some (r, w')"
  shows "untouched w w'"
proof -
  have "untouched w (save i c w)" if "validate_body E mem before after x (load i w) = Some (r, c)" for x c
    using validate_view[OF that] by (simp add: untouched_def)
  then show ?thesis using assms by (auto simp: wpa_validate_wpa_ie_def split: if_splits option.splits)
qed

lemma group_init_opened: "opened (snd (wpa_group_init E ok au vid tr)) = opened tr"
proof -
  have "opened (snd (wpa_group_gtk_init E au g tr)) = opened tr" for g tr
    using gtk_update_core(2)[of E au] by (simp add: wpa_group_gtk_init_def Let_def split: prod.split) (metis snd_conv)
  then show ?thesis
    using init_gmk_core(2)[of E au] setkeysdone_fst(2)[of E au]
    by (simp add: wpa_group_init_def Let_def split: prod.split) (metis snd_conv)
qed

lemma untouched_set_vlan: "untouched w (wpa_auth_sta_set_vlan E ok i vid w)"
proof -
  have s: "untouched w (set_sta i (\<lambda>s. s\<lparr>sm_group := g\<rparr>) w')" if "w_sm w' = w_sm w" "w_list w' = w_list w" "opened (w_tr w') = opened (w_tr w)" for g w'
  proof -
    have "sta w' j = sta w j" for j using that(1) by (simp add: sta_def)
    then show ?thesis using that(2,3) by (simp add: untouched_def)
  qed
  have t: "untouched w (w\<lparr>w_tr := tr\<rparr>)" if "opened tr = opened (w_tr w)" for tr using that by (simp add: untouched_def)
  show ?thesis
    using group_init_opened[of E ok "w_au w" vid "w_tr w"]
    by (auto simp: wpa_auth_sta_set_vlan_def split: option.split prod.split intro!: s t)
qed

lemma untouched_gmk: "untouched w (wpa_rekey_gmk E w)"
  by (simp add: untouched_def wpa_rekey_gmk_def Let_def random_get_bytes_eq)

lemma untouched_mic_failure: "resting w \<Longrightarrow> untouched w (michael_mic_failure E local w)"
  using rests_michael_mic_failure[of w E local] mic_failure_opened mic_failure_sta by (simp add: untouched_def rests_def)

end
