(* ===== verification/Wpa_Auth_Safety.thy ===== *)
theory Wpa_Auth_Safety
  imports Wpa_Auth_Secure
begin

text \<open>
  The safety of the authenticator over all its inputs, and the properties of whole runs.
\<close>

section \<open>Groups and stations that come and go\<close>

lemma secured_calm:
  assumes "secured w" "resting w'" "keeps_still w w'" "calm {} w w'"
  shows "secured w' \<and> opened (w_tr w') = opened (w_tr w)"
proof -
  note w = secured_dest[OF assms(1)]
  have sec: "secure (sta w' j)" if "j \<in> set (w_list w)" for j
    using undisturbed_secure[of "sta w j" "sta w' j"] assms(3,4) w(3,4) that secure_init
    by (auto simp: calm_def all_still_def keeps_still_def)
  then show ?thesis using assms(2,3) w(3) by (simp add: secured_def all_still_def keeps_still_def)
qed

lemma secured_rekey_gtk:
  assumes "secured w" "wpa_fuel w \<le> n"
  shows "secured (wpa_rekey_gtk E n w) \<and> opened (w_tr (wpa_rekey_gtk E n w)) = opened (w_tr w)"
proof -
  note w = secured_dest[OF assms(1)] and k = calm_rekey_gtk[OF secured_dest(1)[OF assms(1)] assms(2), of E]
  show ?thesis using secured_calm[OF assms(1) _ quiet_rekey_gtk[OF w(2)] k] calm_rests[OF w(1) k] by (simp add: rests_def)
qed

lemma reconfig_group_opened:
  assumes "w_groups w \<noteq> []"
  shows "opened (w_tr (reconfig_group E n wconf w)) = opened (w_tr w)"
proof -
  have gtk: "opened (snd (wpa_group_gtk_init E au g tr)) = opened tr" for au g tr
    using gtk_update_core(2)[of E au] by (simp add: wpa_group_gtk_init_def Let_def split: prod.split) (metis snd_conv)
  let ?w = "set_group 0 (\<lambda>g. (wpa_group_set_key_len (c_wpa_group wconf) g)\<lparr>g_GInit := True\<rparr>) w"
  have g: "g_GInit (w_groups ?w ! 0)" using assms by simp
  have *: "reconfig_group E n wconf w = set_group 0 (\<lambda>g. g\<lparr>g_GInit := False\<rparr>) (on_group (wpa_group_gtk_init E) 0 ?w)"
    unfolding reconfig_group_def wpa_group_sm_step_def Let_def using g by (simp only: if_True)
  show ?thesis unfolding * by (simp add: gtk)
qed

lemma secured_reconfig:
  assumes "secured w" "wpa_fuel w \<le> n"
  shows "secured (wpa_reconfig E ok n wconf w) \<and> opened (w_tr (wpa_reconfig E ok n wconf w)) = opened (w_tr w)"
proof -
  define S where "S v \<longleftrightarrow> secured v \<and> wpa_fuel v \<le> n \<and> opened (w_tr v) = opened (w_tr w)" for v
  have au: "S (v\<lparr>w_au := x\<rparr>)" if "S v" for v x
  proof -
    have d: "resting v" using that secured_dest(1) by (simp add: S_def)
    note r = rests_other(2)[OF rests_refl[OF d], of x]
    have "secured (v\<lparr>w_au := x\<rparr>)"
      by (rule secured_cong[of v]) (use that r in \<open>simp_all add: S_def rests_def\<close>)
    then show ?thesis using that rests_fuel[OF r] by (simp add: S_def)
  qed
  have main: "S (wpa_group_sm_step E (sm_step_with (wpa_sm_loop E n)) 0 (reconfig_group E n wconf v))" if "S v" for v
  proof -
    define v1 where "v1 = reconfig_group E n wconf v"
    have v: "secured v" "wpa_fuel v \<le> n" using that by (simp_all add: S_def)
    note d = secured_dest[OF v(1)]
    have g0: "w_groups v \<noteq> []" using good_dest(1)[OF d(2)] by blast
    note s = reconfig_group_simps[OF g0, of E n wconf, folded v1_def]
    obtain gr where gr: "w_groups v1 = (w_groups v)[0 := gr]" "\<not> g_GInit gr" using s(1) by blast
    have r1: "resting v1" using resting_groups[OF d(1) s(2,3) gr] .
    then have 1: "rests v v1" using s gr by (simp add: rests_def)
    have "sta v1 j = sta v j" for j using s(2) by (simp add: sta_def)
    then have s1: "secured v1" using secured_cong[OF v(1) r1 s(3)] by simp
    have f1: "wpa_fuel v1 \<le> n" using rests_fuel[OF 1] v(2) by simp
    have o1: "opened (w_tr v1) = opened (w_tr v)" using reconfig_group_opened[OF g0] by (simp add: v1_def)
    have g1: "good v1" "all_idle v1" "0 < length (w_groups v1)"
      using r1 good_dest(1)[of v1] by (simp_all add: resting_def)
    have wt: "world_weight v1 \<le> n" using world_weight_fuel[of v1] f1 by linarith
    let ?v2 = "wpa_group_sm_step E (sm_step_with (wpa_sm_loop E n)) 0 v1"
    have c: "calm {} v1 ?v2" using group_sm_step_weight[OF wpa_step_ends g1 wt] by blast
    have k: "keeps_still v1 ?v2" using quiet_group_sm_step[OF g1(1,3)] .
    note r2 = calm_rests[OF r1 c]
    show ?thesis
      using secured_calm[OF s1 _ k c] r2 rests_fuel[OF r2] f1 o1 that unfolding v1_def[symmetric] S_def rests_def by simp
  qed
  have "S w" using assms by (simp add: S_def)
  note w1 = au[OF this]
  have "S (wpa_reconfig E ok n wconf w)"
    unfolding wpa_reconfig_def Let_def reconfig_group_def[symmetric]
    using w1 main[OF au[OF w1]] by (cases "wpa_auth_gen_wpa_ie ok wconf") (simp_all only: option.case)
  then show ?thesis by (simp add: S_def)
qed

lemma deinit_sta:
  assumes "\<not> sm_in_step_loop (sta w i)"
  shows "w_list (wpa_auth_sta_deinit i w) = (if w_sm w i = None then w_list w else filter (\<lambda>j. j \<noteq> i) (w_list w))"
    "j \<noteq> i \<Longrightarrow> sta (wpa_auth_sta_deinit i w) j = sta w j"
    "opened (w_tr (wpa_auth_sta_deinit i w)) = opened (w_tr w)"
  using assms by (auto simp: wpa_auth_sta_deinit_def wpa_free_sta_sm_def Let_def sta_def split: option.split)

lemma secured_deinit:
  assumes "secured w"
  shows "secured (wpa_auth_sta_deinit i w) \<and> opened (w_tr (wpa_auth_sta_deinit i w)) = opened (w_tr w)"
proof (cases "w_sm w i = None")
  case True
  then show ?thesis using assms by (simp add: wpa_auth_sta_deinit_def)
next
  case False
  note w = secured_dest[OF assms]
  have l: "\<not> sm_in_step_loop (sta w i)" using False w(1) w(5)[of i] by (auto simp: resting_def)
  show ?thesis
    using resting_deinit(1)[OF w(1), of i] deinit_sta[OF l] w(4) False by (auto simp: secured_def)
qed

lemma secured_sta_init: "secured w \<Longrightarrow> secured (wpa_auth_sta_init mem da w) \<and> opened (w_tr (wpa_auth_sta_init mem da w)) = opened (w_tr w)"
proof -
  assume w: "secured w"
  have f: "secure (fresh_sm da)" by (simp add: secure_def still_def no_request_def pairwise_reply_def fresh_sm_def)
  then show ?thesis
    using resting_sta_init[OF secured_dest(1)[OF w], of mem da] secured_dest(4)[OF w] w
    by (auto simp: wpa_auth_sta_init_def secured_def sta_def split: option.split)
qed


section \<open>Every input\<close>

text \<open>What an input may do to the ports: only a message 4/4 that the station expects opens one, and only
  the port of its station.\<close>

definition port_safe :: "wpa_env \<Rightarrow> 'e wpa_input \<Rightarrow> wpa_world \<Rightarrow> wpa_world \<Rightarrow> bool" where
  "port_safe E inp w w' \<longleftrightarrow> opened (w_tr w') = opened (w_tr w) \<or>
     (\<exists>i data. inp = In_receive i data \<and> i \<in> set (w_list w) \<and> expected_4_of_4 E (sta w i) data \<and> opens_for (sm_addr (sta w i)) w w')"

lemma port_safe_quiet: "secured w' \<and> opened (w_tr w') = opened (w_tr w) \<Longrightarrow> secured w' \<and> port_safe E inp w w'"
  by (simp add: port_safe_def)

lemma secured_receive:
  assumes "secured w" "wpa_fuel w \<le> n"
  shows "secured (wpa_receive E n i data w) \<and> port_safe E (In_receive i data) w (wpa_receive E n i data w)"
proof (cases "c_wpa (a_conf (w_au w)) = 0 \<or> w_sm w i = None")
  case False
  then have i: "i \<in> set (w_list w)" using secured_dest(5)[OF assms(1), of i] by blast
  show ?thesis
    using wpa_receive_secured[OF assms i, of E data] False i by (auto simp: receive_safe_def port_safe_def split: if_splits)
qed (use assms(1) in \<open>simp add: wpa_receive_def port_safe_def\<close>)

lemma secured_set_untouched:
  assumes "secured w" "i \<in> set (w_list w)" "rests w (set_sta i f w)" "ptk_view (f (sta w i)) = ptk_view (sta w i)"
  shows "secured (set_sta i f w) \<and> opened (w_tr (set_sta i f w)) = opened (w_tr w)"
  by (rule untouched_secured[OF assms(1)]) (use assms(3,4) in \<open>simp_all add: rests_def untouched_def\<close>)

lemma secured_other:
  assumes "secured w"
  shows "secured (w_act a w)" "secured (w\<lparr>w_hapd := h\<rparr>)"
  using untouched_secured[OF assms, of "w_act a w"] untouched_secured[OF assms, of "w\<lparr>w_hapd := h\<rparr>"]
    rests_other(1,3)[OF rests_refl[OF secured_dest(1)[OF assms]]] secured_cong[OF assms, of "w_act a w"]
  by (simp_all add: rests_def untouched_def)

lemma wpa_step_secured:
  assumes "secured w" "wpa_fuel w \<le> n" "wpa_step E n inp w = Some w'"
  shows "secured w' \<and> port_safe E inp w w'"
proof -
  note w = secured_dest[OF assms(1)]
  have set: "rests w (set_sta i f w)" if "i \<in> set (w_list w)"
    "\<And>s. sm_group (f s) = sm_group s \<and> sm_pending_deinit (f s) = sm_pending_deinit s \<and> sm_in_step_loop (f s) = sm_in_step_loop s \<and>
      sm_ptk_group_state (f s) = sm_ptk_group_state s \<and> sm_GTimeoutCtr (f s) = sm_GTimeoutCtr s" for i f
    by (rule rests_set_sta[OF w(1) that(1)]) (use that(2) in simp_all)
  have step: "secured (wpa_sm_step E n i (set_sta i f w)) \<and> opened (w_tr (wpa_sm_step E n i (set_sta i f w))) = opened (w_tr w)"
    if "w_sm w i \<noteq> None" "\<And>s. still s \<Longrightarrow> still (f s) \<and> sm_Init (f s) = sm_Init s"
      "\<And>s. sm_group (f s) = sm_group s \<and> sm_pending_deinit (f s) = sm_pending_deinit s \<and> sm_in_step_loop (f s) = sm_in_step_loop s \<and>
      sm_ptk_group_state (f s) = sm_ptk_group_state s \<and> sm_GTimeoutCtr (f s) = sm_GTimeoutCtr s" for i f
  proof -
    have i: "i \<in> set (w_list w)" using that(1) w(5)[of i] by blast
    show ?thesis
      using secured_set_step[OF assms(1,2) i set[OF i that(3)], of E] that(2)[OF secure_still[OF w(4)[OF i]]] secure_init[OF w(4)[OF i]] by blast
  qed
  have view: "secured (set_sta i f w) \<and> opened (w_tr (set_sta i f w)) = opened (w_tr w)"
    if "w_sm w i \<noteq> None" "\<And>s. ptk_view (f s) = ptk_view s"
      "\<And>s. sm_group (f s) = sm_group s \<and> sm_pending_deinit (f s) = sm_pending_deinit s \<and> sm_in_step_loop (f s) = sm_in_step_loop s \<and>
      sm_ptk_group_state (f s) = sm_ptk_group_state s \<and> sm_GTimeoutCtr (f s) = sm_GTimeoutCtr s" for i f
  proof -
    have i: "i \<in> set (w_list w)" using that(1) w(5)[of i] by blast
    show ?thesis using secured_set_untouched[OF assms(1) i set[OF i that(3)]] that(2) by blast
  qed
  have cache: "secured (set_cache c w) \<and> opened (w_tr (set_cache c w)) = opened (w_tr w)" for c
    using untouched_secured[OF assms(1) _ untouched_set_cache] rests_set_cache[OF w(1)] by (simp add: rests_def)
  note same = conjI[OF assms(1) refl]
  show ?thesis
  proof (cases inp)
    case (In_validate mem before after i ie)
    then obtain r where v: "wpa_validate_wpa_ie E mem before after i ie w = Some (r, w')" using assms(3) by auto
    show ?thesis
      using untouched_secured[OF assms(1) _ untouched_validate[OF v]] rests_validate[OF w(1) v] port_safe_quiet by (simp add: rests_def)
  next
    case (In_no_wpa i)
    then show ?thesis using assms(3) same view[of i "\<lambda>s. s\<lparr>sm_wpa_key_mgmt := 0\<rparr>"]
      by (intro port_safe_quiet) (auto simp: wpa_auth_sta_no_wpa_def split: option.splits)
  next
    case (In_send_eapol_timeout i)
    have "still s \<Longrightarrow> still (s\<lparr>sm_TimeoutEvt := True\<rparr>) \<and> sm_Init (s\<lparr>sm_TimeoutEvt := True\<rparr>) = sm_Init s" for s by (simp add: still_def pairwise_reply_def)
    then show ?thesis using In_send_eapol_timeout assms(3) same step[of i "\<lambda>s. s\<lparr>sm_TimeoutEvt := True\<rparr>"]
      by (intro port_safe_quiet) (auto simp: wpa_send_eapol_timeout_def split: option.splits)
  next
    case (In_call_step i)
    show ?thesis
    proof (cases "i \<in> set (w_list w)")
      case True
      then show ?thesis using In_call_step assms(3) secured_sm_step[OF w(1) assms(2) True w(3) w(4) secure_init[OF w(4)[OF True]], of E]
        by (intro port_safe_quiet) auto
    next
      case False
      then have "wpa_sm_step E n i w = w" using w(5)[of i] by (simp add: wpa_sm_step_def)
      then show ?thesis using In_call_step assms(3) same by (intro port_safe_quiet) auto
    qed
  next
    case (In_notify i)
    then show ?thesis using assms(3) same secured_other(1)[OF assms(1)]
      by (intro port_safe_quiet) (auto simp: wpa_auth_sm_notify_def split: option.splits)
  next
    case (In_rekey_ptk i)
    have "still s \<Longrightarrow> still (wpa_request_new_ptk s) \<and> sm_Init (wpa_request_new_ptk s) = sm_Init s" for s
      by (auto simp: still_def pairwise_reply_def wpa_request_new_ptk_def)
    then show ?thesis using In_rekey_ptk assms(3) same step[of i wpa_request_new_ptk]
      by (intro port_safe_quiet) (auto simp: wpa_rekey_ptk_def wpa_request_new_ptk_def split: option.splits)
  next
    case In_countermeasures_stop
    then show ?thesis using assms(3) secured_other(1)[OF secured_other(2)[OF assms(1)]]
      by (intro port_safe_quiet) (auto simp: ieee80211_tkip_countermeasures_stop_def)
  next
    case (In_pmksa_add mem now i pmk timeout eapol)
    then show ?thesis using assms(3) same cache
      by (intro port_safe_quiet) (auto simp: wpa_auth_pmksa_add_def split: option.splits if_splits)
  next
    case (In_clear_pmksa i entry)
    then show ?thesis using assms(3) same view[of i "\<lambda>s. s\<lparr>sm_pmksa := None\<rparr>"]
      by (intro port_safe_quiet) (auto simp: wpa_auth_sta_clear_pmksa_def split: option.splits if_splits)
  next
    case (In_receive i data)
    then show ?thesis using assms(3) secured_receive[OF assms(1,2)] by auto
  qed (use assms(3) secured_associated[OF assms(1,2)] secured_deinit[OF assms(1)] secured_sm_event[OF assms(1,2)]
    secured_rekey_gtk[OF assms(1,2)] secured_reconfig[OF assms(1,2)] secured_sta_init[OF assms(1)] cache
    untouched_secured[OF assms(1) _ untouched_set_vlan] resting_set_vlan[OF w(1)]
    untouched_secured[OF assms(1) _ untouched_gmk] rests_rekey_gmk[OF w(1)]
    untouched_secured[OF assms(1) _ untouched_mic_failure[OF w(1)]] rests_michael_mic_failure[OF w(1)]
    in \<open>auto simp: rests_def wpa_auth_pmksa_add_preauth_def pmksa_expire_timeout_def intro!: port_safe_quiet\<close>)
qed

lemma wpa_init_secured: "wpa_init E ok da wconf = Some w \<Longrightarrow> secured w"
  using resting_init[of E ok da wconf w] by (auto simp: secured_def wpa_init_def Let_def split: if_splits option.splits prod.splits)

lemma wpa_run_secured: "wpa_run inps w = Some w' \<Longrightarrow> secured w \<Longrightarrow> secured w'"
proof (induction inps arbitrary: w)
  case (Cons x inps)
  obtain E inp where x: "x = (E, inp)" by (cases x)
  with Cons.prems obtain w1 where w1: "wpa_step E (wpa_fuel w) inp w = Some w1" "wpa_run inps w1 = Some w'"
    by (auto simp: bind_eq_Some_conv)
  show ?case using Cons.IH[OF w1(2)] wpa_step_secured[OF Cons.prems(2) order_refl w1(1)] by simp
qed simp

end
