(* ===== verification/Wpa_Auth_Example.thy ===== *)
theory Wpa_Auth_Example
  imports Wpa_Auth_Safety
begin

text \<open>
  A concrete four-way handshake, evaluated: the world in which the properties of the authenticator are
  shown at work.
\<close>

lemma opens_code [code]:
  "opens a = (case a of A_set_eapol da var val \<Rightarrow> val \<and> (var = WPA_EAPOL_portValid \<or> var = WPA_EAPOL_authorized) | _ \<Rightarrow> False)"
  by (auto simp: opens_def split: wpa_act.split)

text \<open>An access point with a pre-shared key and CCMP, a station that associates and answers message 1/4,
  and primitives that return constant bytes.\<close>

definition ex_env :: wpa_env where
  "ex_env = \<lparr>E_get_eapol = (\<lambda>tr da v. 1), E_psks = (\<lambda>da. [replicate 32 1]), E_get_msk = (\<lambda>tr da. Some (replicate 64 3)),
     E_set_key = (\<lambda>tr. 0), E_get_seqnum = (\<lambda>tr idx. Some (replicate 8 0)), E_malloc = (\<lambda>tr. True),
     E_random = (\<lambda>tr n. (True, replicate n 7)), E_pool_ready = (\<lambda>tr. True), E_now = (0, 0), E_time = 100, E_ptr = replicate 4 0,
     E_stack = replicate 64 0, E_sha1_prf = (\<lambda>key label data n. Some (replicate n 5)), E_hmac_md5 = (\<lambda>key data. Some (replicate 16 8)),
     E_hmac_sha1 = (\<lambda>key data. Some (replicate 20 9)), E_aes_wrap = (\<lambda>key data. Some (replicate 8 0xa6 @ data)), E_rc4_skip = (\<lambda>key skip data. data)\<rparr>"

definition ex_conf :: wpa_auth_config where
  "ex_conf = \<lparr>c_wpa = WPA_PROTO_RSN, c_wpa_key_mgmt = WPA_KEY_MGMT_PSK, c_wpa_pairwise = 0, c_wpa_group = WPA_CIPHER_CCMP, c_wpa_group_rekey = 600,
     c_wpa_strict_rekey = False, c_wpa_gmk_rekey = 86400, c_wpa_ptk_rekey = 0, c_rsn_pairwise = WPA_CIPHER_CCMP, c_rsn_preauth = False, c_eapol_version = 2,
     c_peerkey = False, c_wmm_enabled = False, c_wmm_uapsd = 0, c_okc = False\<rparr>"

definition ex_ie :: bytes where
  "ex_ie = [0x30, 20, 1, 0, 0, 0x0f, 0xac, 4, 1, 0, 0, 0x0f, 0xac, 4, 1, 0, 0, 0x0f, 0xac, 2, 0, 0]"

definition ex_frame :: "u8 \<Rightarrow> bytes \<Rightarrow> bytes" where
  "ex_frame ctr data = memput (eapol_key_frame 1 2 0x010a 0 (replicate 7 0 @ [ctr]) (replicate 32 4) (replicate 16 0) (replicate 8 0) data) 81 (replicate 16 9)"

definition ex_mem :: pmksa_mem where "ex_mem = \<lparr>m_entry = Some 0, m_identity = True, m_class = 0\<rparr>"

definition ex_inputs :: "(wpa_env \<times> unit wpa_input) list" where
  "ex_inputs = [(ex_env, In_sta_init (Some 0) [2, 0, 0, 0, 0, 1]), (ex_env, In_validate ex_mem [] [] 0 (Some ex_ie)),
     (ex_env, In_associated 0), (ex_env, In_receive 0 (ex_frame 1 ex_ie))]"

definition ex_start :: "wpa_world option" where "ex_start = wpa_init ex_env True [2, 0, 0, 0, 0, 2] ex_conf"
definition ex_world :: wpa_world where "ex_world = the (Option.bind ex_start (wpa_run ex_inputs))"
definition ex_open :: wpa_world where "ex_open = wpa_receive ex_env (wpa_fuel ex_world) 0 (ex_frame 2 []) ex_world"

text \<open>The handshake, evaluated once.\<close>

lemma ex_eval:
  "map_option (\<lambda>w. (sm_ptk_state (sta w 0), w_list w, sm_addr (sta w 0),
     used_frame ex_env (sta w 0) (ex_frame 2 []) \<and> rx_msg (ex_frame 2 []) = PAIRWISE_4 \<and> c_wpa (a_conf (w_au w)) \<noteq> 0))
     (Option.bind ex_start (wpa_run ex_inputs)) =
   Some (WPA_PTK_PTKINITNEGOTIATING, [0], [2, 0, 0, 0, 0, 1], True)"
  by code_simp

lemma some_map: "map_option f x = Some y \<Longrightarrow> x = Some (the x)"
  by (cases x) simp_all

lemma ex_run: "wpa_init ex_env True [2, 0, 0, 0, 0, 2] ex_conf = Some (the ex_start)" "wpa_run ex_inputs (the ex_start) = Some ex_world"
proof -
  have 1: "Option.bind ex_start (wpa_run ex_inputs) = Some ex_world"
    using ex_eval[THEN some_map] by (simp only: ex_world_def)
  then obtain s where s: "ex_start = Some s" by (cases ex_start) simp_all
  then show "wpa_init ex_env True [2, 0, 0, 0, 0, 2] ex_conf = Some (the ex_start)" unfolding ex_start_def by simp
  show "wpa_run ex_inputs (the ex_start) = Some ex_world" using 1 unfolding s by simp
qed

lemma ex_facts:
  "sm_ptk_state (sta ex_world 0) = WPA_PTK_PTKINITNEGOTIATING" "w_list ex_world = [0]" "sm_addr (sta ex_world 0) = [2, 0, 0, 0, 0, 1]"
  "used_frame ex_env (sta ex_world 0) (ex_frame 2 [])" "rx_msg (ex_frame 2 []) = PAIRWISE_4"
  "c_wpa (a_conf (w_au ex_world)) \<noteq> 0"
proof -
  have "map_option f x = Some y \<Longrightarrow> f (the x) = y" for f :: "wpa_world \<Rightarrow> 'a" and x y by (cases x) simp_all
  from this[OF ex_eval, folded ex_world_def] show
    "sm_ptk_state (sta ex_world 0) = WPA_PTK_PTKINITNEGOTIATING" "w_list ex_world = [0]" "sm_addr (sta ex_world 0) = [2, 0, 0, 0, 0, 1]"
    "used_frame ex_env (sta ex_world 0) (ex_frame 2 [])" "rx_msg (ex_frame 2 []) = PAIRWISE_4"
    "c_wpa (a_conf (w_au ex_world)) \<noteq> 0" by simp_all
qed

end
