(* ===== verification/Wpa_Auth_Props.thy ===== *)
theory Wpa_Auth_Props
  imports Wpa_Auth_Example
begin

text \<open>
  The properties of the WPA authenticator over whole runs.
\<close>

section \<open>Message 4/4\<close>

lemma used_4_front:
  assumes "used_frame E (cx_sm c) data" "rx_msg data = PAIRWISE_4"
  shows "\<exists>c'. rx_front E data c = (RX_store, c') \<and> cx_sm c' = reply_station (cx_sm c) \<and> opened (cx_tr c') = opened (cx_tr c)"
proof -
  have r: "\<not> info_has (key_info_of data) WPA_KEY_INFO_REQUEST" using assms(2) by (auto simp: rx_msg_def Let_def split: if_splits)
  show ?thesis
    using assms r by (simp add: used_frame_def rx_front_def rx_state_check_def rx_mic_def rx_request_def Let_def reply_station_def)
qed

lemma PTKINITDONE_opens_port:
  assumes "\<And>tr. E_set_key E tr = 0"
  shows "\<exists>as. opened (cx_tr (sm_WPA_PTK_PTKINITDONE E c)) = opened (cx_tr c) @ as @ [A_set_eapol (sm_addr (cx_sm c)) WPA_EAPOL_portValid True]"
  using assms by (simp add: sm_WPA_PTK_PTKINITDONE_def ptk_entry_def Let_def callback_defs)

lemma receive_4_eq:
  assumes "secured w" "i \<in> set (w_list w)" "c_wpa (a_conf (w_au w)) \<noteq> 0" "used_frame E (sta w i) data" "rx_msg data = PAIRWISE_4"
    "\<And>tr. E_malloc E tr"
  shows "\<exists>w1. wpa_receive E n i data w = wpa_sm_step E n i w1 \<and> rests w w1 \<and> opened (w_tr w1) = opened (w_tr w) \<and>
    (\<forall>j. j \<noteq> i \<longrightarrow> sta w1 j = sta w j) \<and>
    sta w1 i = (reply_station (sta w i))\<lparr>sm_last_rx_eapol_key := data, sm_EAPOLKeyReceived := True,
         sm_EAPOLKeyPairwise := info_has (key_info_of data) WPA_KEY_INFO_KEY_TYPE,
         sm_EAPOLKeyRequest := info_has (key_info_of data) WPA_KEY_INFO_REQUEST, sm_SNonce := key_nonce data\<rparr>"
proof -
  note w = secured_dest[OF assms(1)]
  obtain c where f: "rx_front E data (load i w) = (RX_store, c)" "cx_sm c = reply_station (sta w i)" "opened (cx_tr c) = opened (w_tr w)"
    using used_4_front[of E "load i w" data] assms(4,5) by auto
  define w1 where "w1 = save i c w"
  have r1: "rests w w1" unfolding w1_def using rests_save[OF w(1) assms(2)] rx_front_mild[of "load i w" E data] f(1) by simp
  obtain go c' where g: "rx_store E data (load i w1) = (go, c')" by (cases "rx_store E data (load i w1)")
  have go: "go" using g assms(6) by (auto simp: rx_store_def os_malloc_def Let_def split: if_splits)
  have d1: "resting w1" "i \<in> set (w_list w1)" using r1 assms(2) by (simp_all add: rests_def)
  have r2: "rests w (save i c' w1)"
    using rests_trans[OF r1 rests_save[OF d1]] rx_mild(5)[of "load i w1" E data] g by simp
  have some: "w_sm w i \<noteq> None" using w(5)[of i] assms(2) by simp
  have s1: "sta w1 i = reply_station (sta w i)" using f(2) by (simp add: w1_def)
  have "wpa_receive E n i data w = wpa_sm_step E n i (save i c' w1)"
    using wpa_receive_eq[OF assms(3) some f(1)] g go by (simp add: rx_side_def w1_def)
  moreover have "opened (w_tr (save i c' w1)) = opened (w_tr w)"
    using rx_store_sm(1)[of E data "load i w1" c'] g f(3) by (simp add: w1_def)
  moreover have "cx_sm c' = (sta w1 i)\<lparr>sm_last_rx_eapol_key := data, sm_EAPOLKeyReceived := True,
         sm_EAPOLKeyPairwise := info_has (key_info_of data) WPA_KEY_INFO_KEY_TYPE,
         sm_EAPOLKeyRequest := info_has (key_info_of data) WPA_KEY_INFO_REQUEST, sm_SNonce := key_nonce data\<rparr>"
    using rx_store_sm(3)[of E data "load i w1" c'] g go by simp
  ultimately show ?thesis using r2 s1 by (intro exI[of _ "save i c' w1"]) (simp add: w1_def)
qed

lemma step_4_opens:
  assumes w: "resting w" "wpa_fuel w \<le> n" "i \<in> set (w_list w)" "\<And>j. j \<in> set (w_list w) \<Longrightarrow> j \<noteq> i \<Longrightarrow> secure (sta w j)"
    and s: "secure s" "used_frame E s data" "rx_msg data = PAIRWISE_4" "\<And>tr. E_set_key E tr = 0"
      "sta w i = (reply_station s)\<lparr>sm_last_rx_eapol_key := data, sm_EAPOLKeyReceived := True,
         sm_EAPOLKeyPairwise := info_has (key_info_of data) WPA_KEY_INFO_KEY_TYPE,
         sm_EAPOLKeyRequest := info_has (key_info_of data) WPA_KEY_INFO_REQUEST, sm_SNonce := key_nonce data\<rparr>"
  shows "\<exists>as. opened (w_tr (wpa_sm_step E n i w)) = opened (w_tr w) @ as @ [A_set_eapol (sm_addr s) WPA_EAPOL_portValid True]"
proof -
  define c where "c = load i (clear_changed i (set_sta i (\<lambda>s. s\<lparr>sm_in_step_loop := True\<rparr>) w))"
  have c: "cx_sm c = (sta w i)\<lparr>sm_in_step_loop := True, sm_changed := False\<rparr>" "cx_tr c = w_tr w" "cx_au c = w_au w"
    "cx_gr c = w_groups (clear_changed i w) ! sm_group (sta w i)"
    by (simp_all add: c_def clear_changed_def)
  note cs = c(1)[unfolded s(5) reply_station_def]
  have k: "\<not> info_has (key_info_of data) WPA_KEY_INFO_REQUEST" "info_has (key_info_of data) WPA_KEY_INFO_KEY_TYPE"
    using s(3) by (auto simp: rx_msg_def Let_def split: if_splits)
  have st: "sm_ptk_state s = WPA_PTK_PTKINITNEGOTIATING" "sm_PTK_valid s" using s(2,3) by (simp_all add: used_frame_def)
  have rep: "pairwise_reply (cx_sm c)" "sm_MICVerified (cx_sm c)" "\<not> sm_Init (sta w i)" "no_request (cx_sm c)"
    "sm_ptk_state (cx_sm c) = WPA_PTK_PTKINITNEGOTIATING" "sm_addr (cx_sm c) = sm_addr s"
    using s(1) k st by (auto simp: cs s(5) reply_station_def pairwise_reply_def secure_def no_request_def)
  note f = first_step_done[OF rep(4,1,5,2), of E]
  note r = receive_reply[OF w(1-4) f(2) c(1,2,4,3) rep(3)]
  show ?thesis using r(2) PTKINITDONE_opens_port[OF s(4), of c] c(2) rep(6) by (simp add: f(1))
qed

lemma receive_4_opens:
  assumes "secured w" "wpa_fuel w \<le> n" "i \<in> set (w_list w)" "c_wpa (a_conf (w_au w)) \<noteq> 0" "used_frame E (sta w i) data"
    "rx_msg data = PAIRWISE_4" "\<And>tr. E_malloc E tr" "\<And>tr. E_set_key E tr = 0"
  shows "\<exists>as. opened (w_tr (wpa_receive E n i data w)) = opened (w_tr w) @ as @ [A_set_eapol (sm_addr (sta w i)) WPA_EAPOL_portValid True]"
proof -
  note w = secured_dest[OF assms(1)]
  obtain w1 where w1: "wpa_receive E n i data w = wpa_sm_step E n i w1" "rests w w1" "opened (w_tr w1) = opened (w_tr w)"
    "\<And>j. j \<noteq> i \<Longrightarrow> sta w1 j = sta w j"
    "sta w1 i = (reply_station (sta w i))\<lparr>sm_last_rx_eapol_key := data, sm_EAPOLKeyReceived := True,
         sm_EAPOLKeyPairwise := info_has (key_info_of data) WPA_KEY_INFO_KEY_TYPE,
         sm_EAPOLKeyRequest := info_has (key_info_of data) WPA_KEY_INFO_REQUEST, sm_SNonce := key_nonce data\<rparr>"
    using receive_4_eq[OF assms(1,3-7), of n] by blast
  have d: "resting w1" "wpa_fuel w1 \<le> n" "i \<in> set (w_list w1)" "w_list w1 = w_list w"
    using w1(2) rests_fuel[OF w1(2)] assms(2,3) by (simp_all add: rests_def)
  have o: "secure (sta w1 j)" if "j \<in> set (w_list w1)" "j \<noteq> i" for j using that w1(4) w(4) d(4) by simp
  show ?thesis using step_4_opens[OF d(1-3) o w(4)[OF assms(3)] assms(5,6,8) w1(5)] w1(1,3) by simp
qed

section \<open>Safety\<close>

lemma reachable_secured: "wpa_init E0 ok da wconf = Some w0 \<Longrightarrow> wpa_run inps w0 = Some w \<Longrightarrow> secured w"
  using wpa_run_secured wpa_init_secured by blast

lemmas ex_secured = reachable_secured[OF ex_run]

text \<open>C1. In every run of the authenticator, whatever frames, events and time outs come in which order
  and whatever the callbacks answer, the port of a station is reported valid or authorized only while a
  frame of that station is received that is message 4/4 of the handshake: the station's machine has sent message 3/4,
  the replay counter of the frame is one the authenticator still waits for, and its MIC is right under
  the pairwise key that message 2/4 has confirmed. No other port is opened by it.\<close>

theorem wpa_port_opens_only_for_4_of_4:
  assumes "wpa_init E0 ok da wconf = Some w0" "wpa_run inps w0 = Some w" "wpa_step E (wpa_fuel w) inp w = Some w'"
    "opened (w_tr w') \<noteq> opened (w_tr w)"
  shows "\<exists>i data. inp = In_receive i data \<and> i \<in> set (w_list w) \<and> sm_ptk_state (sta w i) = WPA_PTK_PTKINITNEGOTIATING \<and>
    sm_PTK_valid (sta w i) \<and> rx_msg data = PAIRWISE_4 \<and> wpa_replay_counter_valid (sta w i) (key_replay_counter data) \<and>
    wpa_verify_key_mic E (sm_PTK (sta w i)) data \<and> opens_for (sm_addr (sta w i)) w w'"
  using wpa_step_secured[OF wpa_run_secured[OF assms(2) wpa_init_secured[OF assms(1)]] order_refl assms(3)] assms(4)
  by (auto simp: port_safe_def expected_4_of_4_def)

theorem wpa_port_opens_only_for_4_of_4_witness:
  "wpa_verify_key_mic ex_env (sm_PTK (sta ex_world 0)) (ex_frame 2 []) \<and> opens_for (sm_addr (sta ex_world 0)) ex_world ex_open"
proof -
  have o: "opened (w_tr ex_open) \<noteq> opened (w_tr ex_world)"
    unfolding ex_open_def
    using receive_4_opens[OF ex_secured order_refl, of 0 ex_env "ex_frame 2 []"] ex_facts by (auto simp: ex_env_def)
  have s: "wpa_step ex_env (wpa_fuel ex_world) (In_receive 0 (ex_frame 2 []) :: unit wpa_input) ex_world = Some ex_open"
    by (simp add: ex_open_def)
  show ?thesis using wpa_port_opens_only_for_4_of_4[OF ex_run s o] by auto
qed

section \<open>Liveness\<close>

text \<open>C3. The handshake completes. In every reachable world, a message 4/4 that passes the checks of the
  reception (state, replay counter, MIC under the confirmed key) makes the port of its station valid,
  if memory is left and the driver accepts the key.\<close>

theorem wpa_4_of_4_opens_port:
  assumes "wpa_init E0 ok da wconf = Some w0" "wpa_run inps w0 = Some w" "c_wpa (a_conf (w_au w)) \<noteq> 0"
    "i \<in> set (w_list w)" "used_frame E (sta w i) data" "rx_msg data = PAIRWISE_4"
    "\<And>tr. E_malloc E tr" "\<And>tr. E_set_key E tr = 0"
  shows "\<exists>w' as. wpa_step E (wpa_fuel w) (In_receive i data) w = Some w' \<and> \<not> w_stuck w' \<and>
    opened (w_tr w') = opened (w_tr w) @ as @ [A_set_eapol (sm_addr (sta w i)) WPA_EAPOL_portValid True]"
proof -
  note s = reachable_secured[OF assms(1,2)]
  let ?w = "wpa_receive E (wpa_fuel w) i data w"
  have "wpa_step E (wpa_fuel w) (In_receive i data) w = Some ?w" by simp
  moreover have "\<not> w_stuck ?w"
    using rests_receive[OF secured_dest(1)[OF s] order_refl] wpa_run_resting[OF assms(2)] resting_init[OF assms(1)] by (simp add: rests_def)
  ultimately show ?thesis using receive_4_opens[OF s order_refl assms(4,3,5-8)] by blast
qed

theorem wpa_4_of_4_opens_port_witness:
  "A_set_eapol [2, 0, 0, 0, 0, 1] WPA_EAPOL_portValid True \<in> set (opened (w_tr ex_open))"
  using wpa_4_of_4_opens_port[OF ex_run ex_facts(6), of 0 ex_env "ex_frame 2 []"] ex_facts
  by (auto simp: ex_env_def ex_open_def)

section \<open>Termination\<close>

lemma validate_pmksa_returns: "\<not> c_okc (a_conf (cx_au c)) \<Longrightarrow> \<exists>c'. validate_pmksa E mem before after data c = Some c'"
  by (auto simp: validate_pmksa_def Let_def split: option.split)

lemma validate_selected_conf [simp]: "a_conf (validate_selected rsn data au) = a_conf au"
  by (simp add: validate_selected_def)

lemma validate_body_returns: "\<not> c_okc (a_conf (cx_au c)) \<Longrightarrow> \<exists>r. validate_body E mem before after ie c = Some r"
proof -
  assume c: "\<not> c_okc (a_conf (cx_au c))"
  obtain res data where p: "(if ie ! 0 = WLAN_EID_RSN then wpa_parse_wpa_ie_rsn ie else wpa_parse_wpa_ie_wpa ie) = (res, data)"
    by (cases "if ie ! 0 = WLAN_EID_RSN then wpa_parse_wpa_ie_rsn ie else wpa_parse_wpa_ie_wpa ie")
  have v: "map_option f (validate_pmksa E mem before after data z) \<noteq> None" if "a_conf (cx_au z) = a_conf (cx_au c)" for f z
    using validate_pmksa_returns[of z E mem before after data] c that by auto
  have i: "(if b then x else y) \<noteq> None" if "x \<noteq> None" "y \<noteq> None" for b x y using that by simp
  have "validate_body E mem before after ie c \<noteq> None"
    unfolding validate_body_def Let_def p prod.case by (intro i v option.distinct(2)) simp_all
  then show ?thesis by blast
qed

lemma validate_returns: "\<not> c_okc (a_conf (w_au w)) \<Longrightarrow> \<exists>r. wpa_validate_wpa_ie E mem before after i ie w = Some r"
  using validate_body_returns[of "load i w" E mem before after]
  by (auto simp: wpa_validate_wpa_ie_def split: option.split)



end
