(* ===== verification/Wpa_Auth_Handlers.thy ===== *)
theory Wpa_Auth_Handlers
  imports Wpa_Auth_Safety
begin

text \<open>
  The interface between the handlers of the authenticator and what is kept by them. A relation between
  worlds that the single actions respect (\<open>station_actions\<close>) and that a few direct updates respect
  as well is respected by every handler. The interface \<open>handlers\<close> covers the inputs
  that neither receive a frame nor associate a station nor use the PMKSA cache; its extensions
  \<open>assoc_handlers\<close>, \<open>rx_handlers\<close> and \<open>cache_handlers\<close> add these inputs.
\<close>

section \<open>Direct updates\<close>

text \<open>The updates of a station that handlers make outside its machines.\<close>

definition control_updates :: "(wpa_state_machine \<Rightarrow> wpa_state_machine) set" where
  "control_updates = {\<lambda>s. s\<lparr>sm_started := True, sm_Init := True\<rparr>, \<lambda>s. s\<lparr>sm_Init := False, sm_AuthenticationRequest := True\<rparr>,
     \<lambda>s. s\<lparr>sm_DeauthenticationRequest := True\<rparr>, \<lambda>s. s\<lparr>sm_ReAuthenticationRequest := True\<rparr>, \<lambda>s. s\<lparr>sm_TimeoutEvt := True\<rparr>,
     \<lambda>s. s\<lparr>sm_PTK_valid := False, sm_PTK := zero_ptk\<rparr>, wpa_request_new_ptk, \<lambda>s. s\<lparr>sm_wpa_key_mgmt := 0\<rparr>,
     \<lambda>s. s\<lparr>sm_LocalMICFailures := sm_LocalMICFailures s + 1\<rparr>}"

lemma control_fixed:
  "f \<in> control_updates \<Longrightarrow> sm_group (f s) = sm_group s \<and> sm_pending_deinit (f s) = sm_pending_deinit s \<and>
    sm_in_step_loop (f s) = sm_in_step_loop s \<and> sm_ptk_group_state (f s) = sm_ptk_group_state s \<and> sm_GTimeoutCtr (f s) = sm_GTimeoutCtr s"
  by (auto simp: control_updates_def wpa_request_new_ptk_def)

lemma rests_control: "resting w \<Longrightarrow> i \<in> set (w_list w) \<Longrightarrow> f \<in> control_updates \<Longrightarrow> rests w (set_sta i f w)"
  using rests_set_sta[of w i f] control_fixed[of f "sta w i"] by blast

lemma reconfig_group_eq:
  assumes "w_groups w \<noteq> []"
  shows "reconfig_group E n wconf w = set_group 0 (\<lambda>g. g\<lparr>g_GInit := False\<rparr>) (on_group (wpa_group_gtk_init E) 0
    (set_group 0 (\<lambda>g. (wpa_group_set_key_len (c_wpa_group wconf) g)\<lparr>g_GInit := True\<rparr>) w))"
proof -
  have "g_GInit (w_groups (set_group 0 (\<lambda>g. (wpa_group_set_key_len (c_wpa_group wconf) g)\<lparr>g_GInit := True\<rparr>) w) ! 0)" using assms by simp
  then show ?thesis unfolding reconfig_group_def wpa_group_sm_step_def Let_def by (simp only: if_True)
qed

definition reset_replay :: "wpa_state_machine \<Rightarrow> wpa_state_machine" where
  "reset_replay s = s\<lparr>sm_key_replay := sm_key_replay (fresh_sm []), sm_ReAuthenticationRequest := True\<rparr>"

section \<open>Handlers outside the machines\<close>

text \<open>The part of a station that the PMKSA cache, the validation of its element and the choice of its
  VLAN leave alone.\<close>

definition sm_rest :: "wpa_state_machine \<Rightarrow> wpa_state_machine" where
  "sm_rest s = s\<lparr>sm_group := 0, sm_wpa_ie := None, sm_wpa := WPA_VERSION_NO_WPA, sm_pairwise := 0, sm_wpa_key_mgmt := 0, sm_pmksa := None\<rparr>"

definition outside :: "wpa_world \<Rightarrow> wpa_world \<Rightarrow> bool" where
  "outside w w' \<longleftrightarrow> w_list w' = w_list w \<and> (\<forall>j. sm_rest (sta w' j) = sm_rest (sta w j))"

lemma sm_rest_keeps:
  assumes "sm_rest s = sm_rest s'"
  shows "sm_key_replay s = sm_key_replay s'" "sm_ANonce s = sm_ANonce s'" "sm_PTK s = sm_PTK s'" "sm_addr s = sm_addr s'"
  using arg_cong[OF assms, of sm_key_replay] arg_cong[OF assms, of sm_ANonce] arg_cong[OF assms, of sm_PTK] arg_cong[OF assms, of sm_addr]
  by (simp_all add: sm_rest_def)

lemma outside_refl: "outside w w" and outside_trans: "outside w1 w2 \<Longrightarrow> outside w2 w3 \<Longrightarrow> outside w1 w3"
  by (simp_all add: outside_def)

lemma outside_sta: "sm_rest (f (sta w i)) = sm_rest (sta w i) \<Longrightarrow> outside w (set_sta i f w)"
  by (simp add: outside_def)

lemma outside_fold: "(\<And>x w. outside w (f x w)) \<Longrightarrow> outside w (fold f xs w)"
proof (induction xs arbitrary: w)
  case (Cons x xs)
  then show ?case using outside_trans[OF Cons.prems[of w x]] by simp
qed (simp add: outside_refl)

lemma outside_set_cache: "outside w (set_cache cache w)" and groups_set_cache: "w_groups (set_cache cache w) = w_groups w"
proof -
  have cb: "outside w (wpa_auth_pmksa_free_cb e w)" for e w
    unfolding wpa_auth_pmksa_free_cb_def
    by (intro outside_fold outside_sta) (simp add: wpa_auth_pmksa_clear_cb_def sm_rest_def)
  have "outside w (w\<lparr>w_au := au\<rparr>)" for au by (simp add: outside_def sta_def)
  then show "outside w (set_cache cache w)"
    unfolding set_cache_def Let_def using outside_fold[of wpa_auth_pmksa_free_cb, OF cb] outside_trans by blast
  have g: "w_groups (fold (\<lambda>i. set_sta i f) xs w) = w_groups w" for f xs w by (induction xs arbitrary: w) simp_all
  have "w_groups (fold wpa_auth_pmksa_free_cb es w) = w_groups w" for es w
    by (induction es arbitrary: w) (simp_all add: wpa_auth_pmksa_free_cb_def g)
  then show "w_groups (set_cache cache w) = w_groups w" by (simp add: set_cache_def Let_def)
qed

lemma validate_rest:
  assumes "validate_body E mem before after ie c = Some (r, c')"
  shows "sm_rest (cx_sm c') = sm_rest (cx_sm c) \<and> cx_gr c' = cx_gr c \<and> sm_group (cx_sm c') = sm_group (cx_sm c)"
proof -
  let ?P = "\<lambda>c c'. sm_rest (cx_sm c') = sm_rest (cx_sm c) \<and> cx_gr c' = cx_gr c \<and> sm_group (cx_sm c') = sm_group (cx_sm c)"
  have 1: "validate_pmksa E mem before after data z = Some z' \<Longrightarrow> ?P z z'" for data z z'
    by (auto simp: validate_pmksa_def Let_def sm_rest_def split: option.splits if_splits prod.splits)
  have 2: "validate_store E ie z = (r, c') \<Longrightarrow> ?P z c'" for z
    by (auto simp: validate_store_def Let_def callback_defs sm_rest_def split: if_splits)
  obtain res data where p: "(if ie ! 0 = WLAN_EID_RSN then wpa_parse_wpa_ie_rsn ie else wpa_parse_wpa_ie_wpa ie) = (res, data)"
    by (cases "if ie ! 0 = WLAN_EID_RSN then wpa_parse_wpa_ie_rsn ie else wpa_parse_wpa_ie_wpa ie")
  show ?thesis
    using assms unfolding validate_body_def Let_def p prod.case
    by (auto split: if_splits dest!: 1 2) (simp_all add: sm_rest_def)
qed

lemma outside_validate:
  assumes "wpa_validate_wpa_ie E mem before after i ie w = Some (r, w')"
  shows "outside w w'" "w_groups w' = w_groups w"
proof -
  have "outside w (save i c w) \<and> w_groups (save i c w) = w_groups w" if "validate_body E mem before after x (load i w) = Some (r, c)" for x c
    using validate_rest[OF that] by (auto simp: outside_def save_def sta_def)
  then show "outside w w'" "w_groups w' = w_groups w"
    using assms by (auto simp: wpa_validate_wpa_ie_def outside_refl split: if_splits option.splits)
qed

lemma outside_set_vlan: "outside w (wpa_auth_sta_set_vlan E alloc i vid w)"
proof -
  have "outside w (set_sta i (\<lambda>s. s\<lparr>sm_group := g\<rparr>) (w\<lparr>w_groups := gs, w_tr := tr\<rparr>))" for g gs tr by (simp add: outside_def sm_rest_def sta_def set_sta_def)
  moreover have "outside w (set_sta i (\<lambda>s. s\<lparr>sm_group := g\<rparr>) w)" for g by (rule outside_sta) (simp add: sm_rest_def)
  moreover have "outside w (w\<lparr>w_tr := tr\<rparr>)" for tr by (simp add: outside_def sta_def)
  ultimately show ?thesis by (simp add: wpa_auth_sta_set_vlan_def outside_refl split: option.split prod.split)
qed

section \<open>Kinds of inputs\<close>

text \<open>The inputs that neither add or remove a station, nor receive a frame, nor associate a station, nor
  use the PMKSA cache; and those that use the cache.\<close>

definition plain_input :: "'e wpa_input \<Rightarrow> bool" where
  "plain_input inp = (case inp of In_no_wpa _ \<Rightarrow> True | In_event _ _ \<Rightarrow> True | In_send_eapol_timeout _ \<Rightarrow> True | In_call_step _ \<Rightarrow> True
     | In_notify _ \<Rightarrow> True | In_rekey_ptk _ \<Rightarrow> True | In_rekey_gtk \<Rightarrow> True | In_rekey_gmk \<Rightarrow> True | In_mic_failure _ \<Rightarrow> True
     | In_countermeasures_stop \<Rightarrow> True | In_reconfig _ _ \<Rightarrow> True | In_set_vlan _ _ _ \<Rightarrow> True | _ \<Rightarrow> False)"

definition cache_input :: "'e wpa_input \<Rightarrow> bool" where
  "cache_input inp = (case inp of In_validate _ _ _ _ _ \<Rightarrow> True | In_pmksa_add _ _ _ _ _ _ \<Rightarrow> True | In_pmksa_add_preauth _ _ _ _ _ _ \<Rightarrow> True
     | In_pmksa_expire _ \<Rightarrow> True | In_clear_pmksa _ _ \<Rightarrow> True | _ \<Rightarrow> False)"

lemma input_cases:
  fixes inp :: "'e wpa_input"
  obtains (new) mem da where "inp = In_sta_init mem da" | (gone) i where "inp = In_deinit i" | (assoc) i where "inp = In_associated i"
  | (rx) i data where "inp = In_receive i data" | (other) "plain_input inp \<or> cache_input inp"
  by (cases inp) (auto simp: plain_input_def cache_input_def)

text \<open>Induction over a run from the start, when the surroundings satisfy \<open>Q\<close>.\<close>

lemma run_induct:
  fixes inps :: "(wpa_env \<times> 'e wpa_input) list"
  assumes "wpa_run inps w0 = Some w" "resting w0" "P w0" "\<forall>(E, inp) \<in> set inps. Q E"
    and "\<And>E (inp :: 'e wpa_input) w w'. Q E \<Longrightarrow> resting w \<Longrightarrow> P w \<Longrightarrow> wpa_step E (wpa_fuel w) inp w = Some w' \<Longrightarrow> P w'"
  shows "P w"
  using assms(1-4)
proof (induction inps arbitrary: w0)
  case (Cons x inps)
  obtain E inp where x: "x = (E, inp)" by (cases x)
  obtain w1 where w1: "wpa_step E (wpa_fuel w0) inp w0 = Some w1" "wpa_run inps w1 = Some w"
    using Cons.prems(1) by (auto simp: x bind_eq_Some_conv)
  have "resting w1" using wpa_step_resting[OF Cons.prems(2) order_refl w1(1)] by blast
  then show ?case using Cons.IH[OF w1(2)] assms(5)[OF _ Cons.prems(2,3) w1(1)] Cons.prems(4) by (simp add: x)
qed simp

text \<open>Stations come with \<open>In_sta_init\<close> only and keep their state when another one goes.\<close>

lemma init_station:
  assumes "resting w" "j \<in> set (w_list (wpa_auth_sta_init mem da w))"
  shows "j \<in> set (w_list w) \<and> sta (wpa_auth_sta_init mem da w) j = sta w j \<or>
    j \<notin> set (w_list w) \<and> sta (wpa_auth_sta_init mem da w) j = fresh_sm da"
  using assms good_dest(6)[of w j] by (auto simp: wpa_auth_sta_init_def sta_def resting_def split: option.splits if_splits)

lemma deinit_station:
  assumes "resting w" "j \<in> set (w_list (wpa_auth_sta_deinit i w))"
  shows "j \<in> set (w_list w)" "sta (wpa_auth_sta_deinit i w) j = sta w j"
proof -
  have "w_sm w i \<noteq> None \<Longrightarrow> \<not> sm_in_step_loop (sta w i)" using assms(1) good_dest(6)[of w i] by (auto simp: resting_def)
  moreover have "w_sm w i = None \<Longrightarrow> wpa_auth_sta_deinit i w = w" by (simp add: wpa_auth_sta_deinit_def)
  ultimately show "j \<in> set (w_list w)" "sta (wpa_auth_sta_deinit i w) j = sta w j"
    using assms(2) deinit_sta(1)[of w i] deinit_sta(2)[of w i j] by (cases "w_sm w i = None"; auto)+
qed

section \<open>Handlers without frames and without the cache\<close>

locale handlers = station_actions +
  assumes T_control: "resting w \<Longrightarrow> i \<in> set (w_list w) \<Longrightarrow> f \<in> control_updates \<Longrightarrow> T w (set_sta i f w)"
    and T_hapd: "T w (w\<lparr>w_hapd := h\<rparr>)"
    and T_act: "T w (w_act a w)"
    and T_au: "a_pmksa au = a_pmksa (w_au w) \<Longrightarrow> T w (w\<lparr>w_au := au\<rparr>)"
    and T_remove: "resting w \<Longrightarrow> i \<in> set (w_list w) \<Longrightarrow> T w (on_sta i (wpa_remove_ptk E) w)"
    and T_update_done: "resting w \<Longrightarrow> i \<in> set (w_list w) \<Longrightarrow>
      T w (on_sta i (\<lambda>c. upd_s (\<lambda>s. s\<lparr>sm_PtkGroupInit := True\<rparr>) (group_update_done c)) w)"
    and T_gtk_rekey: "resting w \<Longrightarrow> T w (wpa_gtk_rekey E w)"
    and T_gmk: "resting w \<Longrightarrow>
      T w (on_group (\<lambda>au g tr. case random_get_bytes E 32 tr of (_, gmk, tr) \<Rightarrow> (g\<lparr>g_GMK := gmk\<rparr>, tr)) 0 w)"
    and T_reconfig: "resting w \<Longrightarrow> T w (reconfig_group E n wconf w)"
    and T_vlan: "resting w \<Longrightarrow> T w (wpa_auth_sta_set_vlan E alloc i vid w)"
begin

definition fine :: "wpa_world \<Rightarrow> wpa_world \<Rightarrow> bool" where
  "fine w w' \<longleftrightarrow> rests w w' \<and> T w w'"

lemma fine_refl: "resting w \<Longrightarrow> fine w w"
  by (simp add: fine_def rests_refl T_refl)

lemma fine_trans: "fine w1 w2 \<Longrightarrow> fine w2 w3 \<Longrightarrow> fine w1 w3"
  using rests_trans T_trans unfolding fine_def by blast

lemma fine_dest: "fine w w' \<Longrightarrow> resting w' \<and> w_list w' = w_list w \<and> wpa_fuel w' = wpa_fuel w"
  using rests_fuel by (simp add: fine_def rests_def)

lemma fine_control: "resting w \<Longrightarrow> i \<in> set (w_list w) \<Longrightarrow> f \<in> control_updates \<Longrightarrow> fine w (set_sta i f w)"
  by (simp add: fine_def rests_control T_control)

lemma fine_other: "resting w \<Longrightarrow> fine w (w\<lparr>w_hapd := h\<rparr>)" "resting w \<Longrightarrow> fine w (w_act a w)"
  "resting w \<Longrightarrow> a_pmksa au = a_pmksa (w_au w) \<Longrightarrow> fine w (w\<lparr>w_au := au\<rparr>)"
  by (simp_all add: fine_def T_hapd T_act T_au rests_other[OF rests_refl])

lemma fine_sm_step: "resting w \<Longrightarrow> wpa_fuel w \<le> n \<Longrightarrow> fine w (wpa_sm_step E n i w)"
  using rests_sm_step[of w n E i] ok_sm_step[of w n i] by (simp add: fine_def ok_def resting_def)

lemma fine_rekey_gtk: "resting w \<Longrightarrow> wpa_fuel w \<le> n \<Longrightarrow> fine w (wpa_rekey_gtk E n w)"
  using rests_rekey_gtk[of w n E] ok_rekey_gtk[of w n] by (simp add: fine_def ok_def resting_def)

text \<open>Chains of actions: after a world that is fine, the next action.\<close>

lemma then_step: "fine w w' \<Longrightarrow> wpa_fuel w \<le> n \<Longrightarrow> fine w (wpa_sm_step E n i w')"
  using fine_trans fine_sm_step fine_dest by metis

lemma then_control: "fine w w' \<Longrightarrow> i \<in> set (w_list w) \<Longrightarrow> f \<in> control_updates \<Longrightarrow> fine w (set_sta i f w')"
  using fine_trans fine_control fine_dest by metis

lemma then_other: "fine w w' \<Longrightarrow> fine w (w'\<lparr>w_hapd := h\<rparr>)" "fine w w' \<Longrightarrow> fine w (w_act a w')"
  "fine w w' \<Longrightarrow> a_pmksa au = a_pmksa (w_au w') \<Longrightarrow> fine w (w'\<lparr>w_au := au\<rparr>)"
  using fine_trans fine_other fine_dest by metis+

lemma fine_gtk_rekey: "resting w \<Longrightarrow> fine w (wpa_gtk_rekey E w)"
  by (simp add: fine_def rests_gtk_rekey T_gtk_rekey)

lemma fine_countermeasures_start: "resting w \<Longrightarrow> fine w (ieee80211_tkip_countermeasures_start E w)"
proof -
  assume w: "resting w"
  have one: "fine w w' \<Longrightarrow> fine w (countermeasures_drop spa w')" for w' spa
    unfolding countermeasures_drop_def by (intro then_other)
  have drop: "fine w w' \<Longrightarrow> fine w (fold (\<lambda>i w. countermeasures_drop (sm_addr (sta w i)) w) xs w')" for w' xs
    by (induction xs arbitrary: w') (simp_all add: one)
  have 1: "fine w (w_act (A_countermeasures True)
      ((wpa_auth_countermeasures_start w)\<lparr>w_hapd := (w_hapd (wpa_auth_countermeasures_start w))\<lparr>h_tkip_countermeasures := True\<rparr>\<rparr>))"
    unfolding wpa_auth_countermeasures_start_def by (intro then_other fine_refl[OF w]) simp
  then show ?thesis
    unfolding ieee80211_tkip_countermeasures_start_def Let_def
    by (intro drop then_other(2) fine_trans[OF 1 fine_gtk_rekey]) (use fine_dest in blast)
qed

lemma fine_mic_failure: "resting w \<Longrightarrow> fine w (michael_mic_failure E local w)"
proof -
  assume w: "resting w"
  define w1 where "w1 = (case local of Some (Some i) \<Rightarrow> wpa_auth_sta_local_mic_failure_report i w | _ \<Rightarrow> w)"
  have g: "good w" using w by (simp add: resting_def)
  have 1: "fine w w1"
    using fine_refl[OF w] fine_control[OF w] good_dest(6)[OF g]
    by (auto simp: w1_def wpa_auth_sta_local_mic_failure_report_def control_updates_def split: option.split)
  have start: "fine w (ieee80211_tkip_countermeasures_start E w')" if "fine w w'" for w'
    using fine_trans[OF that fine_countermeasures_start] fine_dest[OF that] by blast
  show ?thesis
    unfolding michael_mic_failure_def Let_def w1_def[symmetric]
    using fine_refl[OF w] then_other(1)[OF 1] then_other(1)[OF then_other(1)[OF 1]]
      then_other(1)[OF start[OF then_other(1)[OF 1]]] by simp
qed

lemma fine_start_sm:
  assumes "resting w" "wpa_fuel w \<le> n" "i \<in> set (w_list w)"
  shows "fine w (start_sm E n i w)"
proof -
  let ?f = "\<lambda>s. s\<lparr>sm_started := True, sm_Init := True\<rparr>" and ?h = "\<lambda>s. s\<lparr>sm_Init := False, sm_AuthenticationRequest := True\<rparr>"
  have u: "?f \<in> control_updates" "?h \<in> control_updates" by (simp_all add: control_updates_def)
  have 1: "fine w (wpa_sm_step E n i (set_sta i ?f w))" using then_step[OF fine_control[OF assms(1,3) u(1)] assms(2)] .
  show ?thesis using 1 then_control[OF 1 assms(3) u(2)] by (simp add: start_sm_def Let_def split: option.split)
qed

lemma fine_event_request:
  assumes "resting w" "wpa_fuel w \<le> n" "i \<in> set (w_list w)"
  shows "fine w (event_request E n i event w)"
proof -
  have u: "(\<lambda>s. s\<lparr>sm_DeauthenticationRequest := True\<rparr>) \<in> control_updates" "(\<lambda>s. s\<lparr>sm_ReAuthenticationRequest := True\<rparr>) \<in> control_updates"
    by (simp_all add: control_updates_def)
  have upd: "fine w (on_sta i (\<lambda>c. upd_s (\<lambda>s. s\<lparr>sm_PtkGroupInit := True\<rparr>) (group_update_done c)) w)"
    unfolding fine_def using rests_on_sta[OF assms(1,3)] T_update_done[OF assms(1,3)] by (simp add: mild_def group_update_done_def)
  note r = fine_refl[OF assms(1)]
  show ?thesis
    unfolding event_request_def Let_def
    using fine_start_sm[OF assms] r then_control[OF r assms(3) u(1)] then_control[OF r assms(3) u(2)]
      then_control[OF upd assms(3) u(2)] by simp
qed

lemma fine_sm_event:
  assumes "resting w" "wpa_fuel w \<le> n"
  shows "fine w (wpa_auth_sm_event E n i event w)"
proof (cases "i \<in> set (w_list w)")
  case True
  have u: "(\<lambda>s. s\<lparr>sm_PTK_valid := False, sm_PTK := zero_ptk\<rparr>) \<in> control_updates" by (simp add: control_updates_def)
  define w1 where "w1 = event_request E n i event w"
  define w2 where "w2 = set_sta i (\<lambda>s. s\<lparr>sm_PTK_valid := False, sm_PTK := zero_ptk\<rparr>) w1"
  have 1: "fine w w1" unfolding w1_def by (rule fine_event_request[OF assms True])
  have 2: "fine w w2" unfolding w2_def by (rule then_control[OF 1 True u])
  have r2: "resting w2" "i \<in> set (w_list w2)" using fine_dest[OF 2] True by simp_all
  have 3: "fine w (on_sta i (wpa_remove_ptk E) w2)"
    using fine_trans[OF 2] rests_on_sta[OF r2] T_remove[OF r2] by (simp add: fine_def mild_def remove_ptk_after)
  have some: "w_sm w i \<noteq> None" "w_sm w1 i \<noteq> None"
    using True good_dest(6)[of w i] good_dest(6)[of w1 i] fine_dest[OF 1] assms(1) by (simp_all add: resting_def)
  have "wpa_auth_sm_event E n i event w =
      (if event \<noteq> WPA_REAUTH_EAPOL then wpa_sm_step E n i (on_sta i (wpa_remove_ptk E) w2) else wpa_sm_step E n i w2)"
    unfolding wpa_auth_sm_event_def Let_def event_request_def[unfolded Let_def, symmetric] w1_def[symmetric]
    using some by (auto simp: w2_def[symmetric])
  then show ?thesis using then_step[OF 2 assms(2)] then_step[OF 3 assms(2)] by simp
next
  case False
  then show ?thesis using good_dest(6)[of w i] assms(1) fine_refl[OF assms(1)] by (simp add: wpa_auth_sm_event_def resting_def)
qed

lemma fine_reconfig:
  assumes "resting w" "wpa_fuel w \<le> n"
  shows "fine w (wpa_reconfig E alloc n wconf w)"
proof -
  have main: "fine w (wpa_group_sm_step E (sm_step_with (wpa_sm_loop E n)) 0 (reconfig_group E n wconf w1))" if w1: "fine w w1" for w1
  proof -
    let ?w = "reconfig_group E n wconf w1"
    have r1: "resting w1" using fine_dest[OF w1] by blast
    have g0: "w_groups w1 \<noteq> []" using r1 good_dest(1)[of w1] by (simp add: resting_def)
    note s = reconfig_group_simps[OF g0, of E n wconf]
    obtain gr where gr: "w_groups ?w = (w_groups w1)[0 := gr]" "\<not> g_GInit gr" using s(1) by blast
    have 2: "fine w1 ?w" using resting_groups[OF r1 s(2,3) gr] s gr T_reconfig[OF r1] by (simp add: fine_def rests_def)
    have r2: "good ?w" "all_idle ?w" "resting ?w" "0 < length (w_groups ?w)"
      using fine_dest[OF 2] good_dest(1)[of ?w] by (simp_all add: resting_def)
    have "world_weight ?w \<le> n" using world_weight_fuel[of ?w] fine_dest[OF 2] fine_dest[OF w1] assms(2) by linarith
    then have "calm {} ?w (wpa_group_sm_step E (sm_step_with (wpa_sm_loop E n)) 0 ?w)"
      using group_sm_step_weight[OF wpa_step_ends r2(1,2,4)] by blast
    then have "fine ?w (wpa_group_sm_step E (sm_step_with (wpa_sm_loop E n)) 0 ?w)"
      using calm_rests[OF r2(3)] ok_group_sm_step[OF ok_step_with[OF ok_loop] r2(1,4), of n] by (simp add: fine_def ok_def)
    then show ?thesis using fine_trans[OF w1 fine_trans[OF 2]] by blast
  qed
  have w1: "fine w (w\<lparr>w_au := (w_au w)\<lparr>a_conf := wconf\<rparr>\<rparr>)" by (rule fine_other(3)[OF assms(1)]) simp
  have w2: "fine w (w\<lparr>w_au := (w_au w)\<lparr>a_conf := wconf, a_wpa_ie := ie\<rparr>\<rparr>)" for ie by (rule fine_other(3)[OF assms(1)]) simp
  show ?thesis
    unfolding wpa_reconfig_def Let_def reconfig_group_def[symmetric]
    using w1 main[OF w2] by (cases "wpa_auth_gen_wpa_ie alloc wconf") simp_all
qed

lemma fine_rekey_gmk: "resting w \<Longrightarrow> fine w (wpa_rekey_gmk E w)"
proof -
  assume w: "resting w"
  have "rests w (on_group (\<lambda>au g tr. case random_get_bytes E 32 tr of (_, gmk, tr) \<Rightarrow> (g\<lparr>g_GMK := gmk\<rparr>, tr)) 0 w)"
    by (rule rests_on_group[OF w]) (use w good_dest(1)[of w] in \<open>simp_all add: resting_def random_get_bytes_eq\<close>)
  then have "fine w (on_group (\<lambda>au g tr. case random_get_bytes E 32 tr of (_, gmk, tr) \<Rightarrow> (g\<lparr>g_GMK := gmk\<rparr>, tr)) 0 w)"
    using T_gmk[OF w] by (simp add: fine_def)
  then show ?thesis using then_other(2) unfolding wpa_rekey_gmk_def Let_def by presburger
qed

lemma plain_step:
  assumes "resting w" "wpa_fuel w \<le> n" "plain_input inp" "wpa_step E n inp w = Some w'"
  shows "T w w'"
proof -
  have f: "T w w'" if "fine w w'" using that by (simp add: fine_def)
  note refl = fine_refl[OF assms(1)]
  have mem: "w_sm w i \<noteq> None \<longleftrightarrow> i \<in> set (w_list w)" for i using good_dest(6)[of w i] assms(1) by (simp add: resting_def)
  have u: "(\<lambda>s. s\<lparr>sm_wpa_key_mgmt := 0\<rparr>) \<in> control_updates" "(\<lambda>s. s\<lparr>sm_TimeoutEvt := True\<rparr>) \<in> control_updates" "wpa_request_new_ptk \<in> control_updates"
    by (simp_all add: control_updates_def)
  show ?thesis
  proof (cases inp)
    case (In_no_wpa i)
    then show ?thesis using assms(4) refl fine_control[OF assms(1) _ u(1)] mem[of i]
      by (intro f) (auto simp: wpa_auth_sta_no_wpa_def split: option.splits)
  next
    case (In_send_eapol_timeout i)
    then show ?thesis using assms(4) refl then_step[OF fine_control[OF assms(1) _ u(2)] assms(2), of i i] mem[of i]
      by (intro f) (auto simp: wpa_send_eapol_timeout_def split: option.splits)
  next
    case (In_rekey_ptk i)
    then show ?thesis using assms(4) refl then_step[OF fine_control[OF assms(1) _ u(3)] assms(2), of i i] mem[of i]
      by (intro f) (auto simp: wpa_rekey_ptk_def split: option.splits)
  next
    case (In_notify i)
    then show ?thesis using assms(4) refl fine_other(2)[OF assms(1)]
      by (intro f) (auto simp: wpa_auth_sm_notify_def split: option.splits)
  next
    case In_countermeasures_stop
    then show ?thesis using assms(4) then_other(2)[OF fine_other(1)[OF assms(1)]]
      by (intro f) (auto simp: ieee80211_tkip_countermeasures_stop_def)
  next
    case (In_set_vlan alloc i vid)
    then show ?thesis using assms(4) T_vlan[OF assms(1)] by auto
  qed (use assms(3,4) f fine_sm_event[OF assms(1,2)] fine_sm_step[OF assms(1,2)] fine_rekey_gtk[OF assms(1,2)]
    fine_rekey_gmk[OF assms(1)] fine_mic_failure[OF assms(1)] fine_reconfig[OF assms(1,2)] in \<open>auto simp: plain_input_def\<close>)
qed

end

section \<open>Associations\<close>

locale assoc_handlers = handlers +
  fixes i :: nat
  assumes T_reset: "resting w \<Longrightarrow> i \<in> set (w_list w) \<Longrightarrow> T w (set_sta i reset_replay w)"
begin

lemma fine_associated:
  assumes "resting w" "wpa_fuel w \<le> n"
  shows "fine w (wpa_auth_sta_associated E n i w)"
proof (cases "i \<in> set (w_list w)")
  case True
  have "rests w (set_sta i reset_replay w)" by (rule rests_set_sta[OF assms(1) True]) (simp_all add: reset_replay_def)
  then have "fine w (set_sta i reset_replay w)" using T_reset[OF assms(1) True] by (simp add: fine_def)
  then have "fine w (wpa_sm_step E n i (set_sta i reset_replay w))" using then_step assms(2) by blast
  moreover have "fine w (wpa_sm_step E n i (start_sm E n i w))" using then_step[OF fine_start_sm[OF assms True] assms(2)] .
  ultimately show ?thesis
    using fine_refl[OF assms(1)] by (simp add: wpa_auth_sta_associated_def reset_replay_def[abs_def])
next
  case False
  then show ?thesis using good_dest(6)[of w i] assms(1) fine_refl[OF assms(1)] by (simp add: wpa_auth_sta_associated_def resting_def)
qed

lemma assoc_step:
  assumes "resting w" "wpa_fuel w \<le> n" "plain_input inp \<or> inp = In_associated i" "wpa_step E n inp w = Some w'"
  shows "T w w'"
  using assms(3)
proof (elim disjE)
  assume "plain_input inp"
  then show ?thesis using plain_step[OF assms(1,2) _ assms(4)] by blast
qed (use assms(4) fine_associated[OF assms(1,2)] in \<open>auto simp: fine_def\<close>)

end

section \<open>Frames\<close>

locale rx_handlers = handlers +
  fixes i :: nat
  assumes T_front: "resting w \<Longrightarrow> i \<in> set (w_list w) \<Longrightarrow> T w (save i (snd (rx_front E data (load i w))) w)"
    and T_store: "resting w \<Longrightarrow> i \<in> set (w_list w) \<Longrightarrow> EAPOL_KEY_LEN \<le> length data \<Longrightarrow> T w (save i (snd (rx_store E data (load i w))) w)"
    and T_error: "resting w \<Longrightarrow> i \<in> set (w_list w) \<Longrightarrow> T w (on_sta i rx_error_report w)"
begin

lemma front_length: "rx_front E data c = (what, c') \<Longrightarrow> what \<noteq> RX_drop \<Longrightarrow> EAPOL_KEY_LEN \<le> length data"
  by (auto simp: rx_front_def rx_header_ok_def split: if_splits)

lemma fine_side:
  assumes "resting w" "wpa_fuel w \<le> n" "i \<in> set (w_list w)"
  shows "fine w (rx_side E n i what w)"
proof -
  define v where "v = michael_mic_failure E None w"
  have v: "fine w v" unfolding v_def by (rule fine_mic_failure[OF assms(1)])
  have rv: "resting v" "i \<in> set (w_list v)" using fine_dest[OF v] assms(3) by simp_all
  have "fine v (on_sta i rx_error_report v)"
    using rests_on_sta[OF rv, of rx_error_report] rx_mild(6) T_error[OF rv] by (simp add: fine_def)
  then show ?thesis
    using fine_refl[OF assms(1)] fine_rekey_gtk[OF assms(1,2)] fine_trans[OF v]
    by (cases what) (simp_all add: rx_side_def v_def[symmetric])
qed

lemma fine_receive:
  assumes "resting w" "wpa_fuel w \<le> n"
  shows "fine w (wpa_receive E n i data w)"
proof (cases "c_wpa (a_conf (w_au w)) = 0 \<or> w_sm w i = None")
  case False
  have i: "i \<in> set (w_list w)" using False assms(1) good_dest(6)[of w i] by (auto simp: resting_def)
  obtain what c where f: "rx_front E data (load i w) = (what, c)" by (cases "rx_front E data (load i w)")
  define w1 where "w1 = save i c w"
  define w2 where "w2 = rx_side E n i what w1"
  have 1: "fine w w1"
    using rests_save[OF assms(1) i, of c] rx_front_mild[of "load i w" E data] T_front[OF assms(1) i, of data] f by (simp add: fine_def w1_def)
  have d1: "resting w1" "wpa_fuel w1 \<le> n" "i \<in> set (w_list w1)" using fine_dest[OF 1] assms(2) i by simp_all
  have 2: "fine w w2" unfolding w2_def using fine_trans[OF 1 fine_side[OF d1]] .
  have d2: "resting w2" "i \<in> set (w_list w2)" using fine_dest[OF 2] i by simp_all
  obtain go c' where s: "rx_store E data (load i w2) = (go, c')" by (cases "rx_store E data (load i w2)")
  have 3: "fine w (save i c' w2)" if "what \<noteq> RX_drop"
    using fine_trans[OF 2, of "save i c' w2"] rests_save[OF d2, of c'] rx_mild(5)[of "load i w2" E data] T_store[OF d2, of data] s
      front_length[OF f that] by (simp add: fine_def)
  show ?thesis
    using False f s 1 3 then_step[OF 3 assms(2)] wpa_receive_eq[of w i E data what c n go c'] by (simp add: w1_def[symmetric] w2_def[symmetric])
qed (simp add: wpa_receive_def fine_refl[OF assms(1)])

lemma rx_step:
  assumes "resting w" "wpa_fuel w \<le> n" "plain_input inp \<or> inp = In_receive i data" "wpa_step E n inp w = Some w'"
  shows "T w w'"
  using assms(3)
proof (elim disjE)
  assume "plain_input inp"
  then show ?thesis using plain_step[OF assms(1,2) _ assms(4)] by blast
qed (use assms(4) fine_receive[OF assms(1,2)] in \<open>auto simp: fine_def\<close>)

end

section \<open>Uses of the cache\<close>

locale cache_handlers = handlers +
  assumes T_cache: "resting w \<Longrightarrow> T w (set_cache cache w)"
    and T_validate: "resting w \<Longrightarrow> wpa_validate_wpa_ie E mem before after i ie w = Some (r, w') \<Longrightarrow> T w w'"
    and T_clear_pmksa: "resting w \<Longrightarrow> i \<in> set (w_list w) \<Longrightarrow> T w (set_sta i (\<lambda>s. s\<lparr>sm_pmksa := None\<rparr>) w)"
begin

lemma cache_step:
  assumes "resting w" "wpa_fuel w \<le> n" "plain_input inp \<or> cache_input inp" "wpa_step E n inp w = Some w'"
  shows "T w w'"
  using assms(3)
proof (elim disjE)
  assume "plain_input inp"
  then show ?thesis using plain_step[OF assms(1,2) _ assms(4)] by blast
next
  assume "cache_input inp"
  moreover have "i \<in> set (w_list w)" if "w_sm w i = Some s" for i s using that good_dest(6)[of w i] assms(1) by (simp add: resting_def)
  ultimately show ?thesis
    using assms(4) T_refl T_cache[OF assms(1)] T_validate[OF assms(1)] T_clear_pmksa[OF assms(1)]
    by (cases inp) (auto simp: cache_input_def wpa_auth_pmksa_add_def wpa_auth_pmksa_add_preauth_def pmksa_expire_timeout_def
      wpa_auth_sta_clear_pmksa_def split: option.splits if_splits)
qed

end

end
