(* ===== verification/Wpa_Auth_Replay.thy ===== *)
theory Wpa_Auth_Replay
  imports Wpa_Auth_Handlers Wpa_Auth_Example
begin

text \<open>
  The pending replay counters of a station. The code keeps the last four counters sent in an array with
  valid flags. The specification is a window: the last counter used and how many of the counters up to
  it may still be answered. Sending a frame moves the window on, accepting a reply closes it, a new
  association resets it.
\<close>

section \<open>The array\<close>

definition slots_ok :: "replay_slot list \<Rightarrow> bool" where
  "slots_ok slots \<longleftrightarrow> length slots = 4 \<and> (\<forall>s \<in> set slots. length (rs_counter s) = 8) \<and>
     (\<forall>i < 3. rs_valid (slots ! Suc i) \<longrightarrow> rs_counter (slots ! i) = inc_byte_array (rs_counter (slots ! Suc i)))"

datatype replay_event = R_send | R_reply | R_reset

fun slot_event :: "replay_event \<Rightarrow> replay_slot list \<Rightarrow> replay_slot list" where
  "slot_event R_send slots = next_key_replay slots"
| "slot_event R_reply slots = slots[0 := (slots ! 0)\<lparr>rs_valid := False\<rparr>]"
| "slot_event R_reset slots = sm_key_replay (fresh_sm [])"

lemma four_cases:
  assumes "length xs = 4"
  obtains a b c d where "xs = [a, b, c, d]"
  using assms by (auto simp: numeral_eq_Suc length_Suc_conv)

lemma slots_ok_four: "slots_ok [a, b, c, d] \<longleftrightarrow> (\<forall>s \<in> {a, b, c, d}. length (rs_counter s) = 8) \<and>
    (rs_valid b \<longrightarrow> rs_counter a = inc_byte_array (rs_counter b)) \<and> (rs_valid c \<longrightarrow> rs_counter b = inc_byte_array (rs_counter c)) \<and>
    (rs_valid d \<longrightarrow> rs_counter c = inc_byte_array (rs_counter d))"
proof -
  have "(\<forall>i < 3. P i) \<longleftrightarrow> P 0 \<and> P 1 \<and> P (2 :: nat)" for P by (auto simp: less_Suc_eq numeral_eq_Suc)
  then show ?thesis by (auto simp: slots_ok_def numeral_2_eq_2)
qed

lemma fresh_slots: "sm_key_replay (fresh_sm da) = replicate 4 \<lparr>rs_counter = replicate 8 0, rs_valid = False\<rparr>"
  by (simp add: fresh_sm_def RSNA_MAX_EAPOL_RETRIES_def)

lemma slots_ok_fresh [simp]: "slots_ok (sm_key_replay (fresh_sm da))"
  by (simp add: fresh_slots slots_ok_def)

lemma slots_ok_event: "slots_ok slots \<Longrightarrow> slots_ok (slot_event e slots)"
proof -
  assume ok: "slots_ok slots"
  then obtain a b c d where s: "slots = [a, b, c, d]" using four_cases unfolding slots_ok_def by blast
  show ?thesis using ok by (cases e) (auto simp: s slots_ok_four next_key_replay_def)
qed

lemma slots_ok_events: "slots_ok slots \<Longrightarrow> slots_ok (fold slot_event evs slots)"
  by (induction evs arbitrary: slots) (simp_all add: slots_ok_event)

section \<open>The window\<close>

type_synonym replay_window = "nat \<times> nat"

fun replay_next :: "replay_event \<Rightarrow> replay_window \<Rightarrow> replay_window" where
  "replay_next R_send (l, k) = ((l + 1) mod 2 ^ 64, min 4 (k + 1))"
| "replay_next R_reply (l, k) = (l, 0)"
| "replay_next R_reset (l, k) = (0, 0)"

definition window_accepts :: "replay_window \<Rightarrow> nat \<Rightarrow> bool" where
  "window_accepts win c \<longleftrightarrow> (\<exists>j < snd win. c = (fst win + 2 ^ 64 - j) mod 2 ^ 64)"

definition window_of :: "replay_slot list \<Rightarrow> replay_window" where
  "window_of slots = (be_val (rs_counter (slots ! 0)), length (takeWhile rs_valid slots))"

lemma be_val_8: "length c = 8 \<Longrightarrow> be_val c < 2 ^ 64"
  using be_val_bound[of c] by simp

lemma be_val_zeros: "be_val (replicate n 0) = 0"
  by (induction n) simp_all

lemma inc_8: "length c = 8 \<Longrightarrow> be_val (inc_byte_array c) = (be_val c + 1) mod 2 ^ 64"
  using be_val_inc[of c] by simp

lemma window_event: "slots_ok slots \<Longrightarrow> window_of (slot_event e slots) = replay_next e (window_of slots)"
proof -
  assume ok: "slots_ok slots"
  then obtain a b c d where s: "slots = [a, b, c, d]" using four_cases unfolding slots_ok_def by blast
  have "length (rs_counter a) = 8" using ok by (simp add: s slots_ok_four)
  moreover have "be_val (replicate 8 0) = 0" by (rule be_val_zeros)
  ultimately show ?thesis
    using inc_8[of "rs_counter a"]
    by (cases e) (auto simp: s window_of_def next_key_replay_def fresh_slots)
qed

lemma window_events: "slots_ok slots \<Longrightarrow> window_of (fold slot_event evs slots) = fold replay_next evs (window_of slots)"
  by (induction evs arbitrary: slots) (simp_all add: window_event slots_ok_event)

lemma window_back:
  assumes "b < (2 :: nat) ^ 64" "l = (b + 1) mod 2 ^ 64" "j < 2 ^ 64"
  shows "(l + 2 ^ 64 - (j + 1)) mod 2 ^ 64 = (b + 2 ^ 64 - j) mod 2 ^ 64"
proof (cases "b + 1 = 2 ^ 64")
  case True
  then have "b + 2 ^ 64 - j = 2 ^ 64 + (2 ^ 64 - 1 - j)" "l = 0" using assms by simp_all
  then show ?thesis using assms(3) by (simp only: mod_add_self1) simp
next
  case False
  then show ?thesis using assms by (simp add: add.commute)
qed

text \<open>The search in the array is the test of the window.\<close>

lemma loop_accepts:
  assumes "\<forall>s \<in> set slots. length (rs_counter s) = 8" "length slots \<le> 4"
    "\<And>i. Suc i < length slots \<Longrightarrow> rs_valid (slots ! Suc i) \<Longrightarrow> rs_counter (slots ! i) = inc_byte_array (rs_counter (slots ! Suc i))"
    "length c = 8"
  shows "replay_counter_loop c slots \<longleftrightarrow>
    (\<exists>j < length (takeWhile rs_valid slots). be_val c = (be_val (rs_counter (slots ! 0)) + 2 ^ 64 - j) mod 2 ^ 64)"
  using assms(1-3)
proof (induction slots)
  case (Cons s slots)
  have s8: "length (rs_counter s) = 8" "be_val (rs_counter s) < 2 ^ 64" using Cons.prems(1) be_val_8 by simp_all
  have eq: "c = rs_counter s \<longleftrightarrow> be_val c = be_val (rs_counter s)" using be_val_inj[of c "rs_counter s"] s8 assms(4) by auto
  let ?n = "length (takeWhile rs_valid slots)" and ?l = "be_val (rs_counter s)"
  have ih: "replay_counter_loop c slots \<longleftrightarrow> (\<exists>j < ?n. be_val c = (be_val (rs_counter (slots ! 0)) + 2 ^ 64 - j) mod 2 ^ 64)"
  proof (rule Cons.IH)
    show "rs_counter (slots ! i) = inc_byte_array (rs_counter (slots ! Suc i))" if "Suc i < length slots" "rs_valid (slots ! Suc i)" for i
      using Cons.prems(3)[of "Suc i"] that by simp
  qed (use Cons.prems(1,2) in simp_all)
  have shift: "(?l + 2 ^ 64 - Suc j) mod 2 ^ 64 = (be_val (rs_counter (slots ! 0)) + 2 ^ 64 - j) mod 2 ^ 64" if "j < ?n" for j
  proof -
    have v: "slots \<noteq> []" "rs_valid (slots ! 0)" using that by (cases slots; auto split: if_splits)+
    have l: "length (rs_counter (slots ! 0)) = 8" using Cons.prems(1) v(1) by (cases slots) auto
    have "rs_counter s = inc_byte_array (rs_counter (slots ! 0))" using Cons.prems(3)[of 0] v by (cases slots) simp_all
    then have i: "?l = (be_val (rs_counter (slots ! 0)) + 1) mod 2 ^ 64" using inc_8[OF l] by simp
    have "?n \<le> length slots" by (rule length_takeWhile_le)
    then have "j < 2 ^ 64" using that Cons.prems(2) by simp
    then show ?thesis using window_back[OF be_val_8[OF l] i] by simp
  qed
  have "(\<exists>j < Suc ?n. be_val c = (?l + 2 ^ 64 - j) mod 2 ^ 64) \<longleftrightarrow> be_val c = ?l \<or> (\<exists>j < ?n. be_val c = (?l + 2 ^ 64 - Suc j) mod 2 ^ 64)"
    using s8(2) by (auto simp: less_Suc_eq_0_disj)
  also have "\<dots> \<longleftrightarrow> be_val c = ?l \<or> replay_counter_loop c slots" unfolding ih using shift by auto
  finally show ?case using eq by simp
qed simp

lemma valid_window:
  assumes "slots_ok (sm_key_replay s)" "length c = 8"
  shows "wpa_replay_counter_valid s c \<longleftrightarrow> window_accepts (window_of (sm_key_replay s)) (be_val c)"
  using loop_accepts[of "sm_key_replay s" c] assms
  by (simp add: slots_ok_def wpa_replay_counter_valid_def window_accepts_def window_of_def)

section \<open>The events of a handler\<close>

text \<open>From one state of a station to the next the array changes by events of a given set.\<close>

definition slots_by :: "replay_event set \<Rightarrow> wpa_state_machine \<Rightarrow> wpa_state_machine \<Rightarrow> bool" where
  "slots_by L s s' \<longleftrightarrow> (\<exists>evs. set evs \<subseteq> L \<and> sm_key_replay s' = fold slot_event evs (sm_key_replay s))"

lemma slots_by_same: "sm_key_replay s' = sm_key_replay s \<Longrightarrow> slots_by L s s'"
  unfolding slots_by_def by (rule exI[of _ "[]"]) simp

lemma slots_by_one: "sm_key_replay s' = slot_event e (sm_key_replay s) \<Longrightarrow> e \<in> L \<Longrightarrow> slots_by L s s'"
  unfolding slots_by_def by (rule exI[of _ "[e]"]) simp

lemma slots_by_trans: "slots_by L s1 s2 \<Longrightarrow> slots_by L s2 s3 \<Longrightarrow> slots_by L s1 s3"
  unfolding slots_by_def
proof (elim exE conjE)
  fix evs evs' assume "set evs \<subseteq> L" "sm_key_replay s2 = fold slot_event evs (sm_key_replay s1)"
    "set evs' \<subseteq> L" "sm_key_replay s3 = fold slot_event evs' (sm_key_replay s2)"
  then show "\<exists>evs. set evs \<subseteq> L \<and> sm_key_replay s3 = fold slot_event evs (sm_key_replay s1)"
    by (intro exI[of _ "evs @ evs'"]) simp
qed

lemma slots_by_send:
  "sm_key_replay s' \<in> {sm_key_replay s, next_key_replay (sm_key_replay s)} \<Longrightarrow> slots_by (insert R_send L) s s'"
  using slots_by_same[of s' s] slots_by_one[of s' R_send s "insert R_send L"] by auto

text \<open>An entry action sends at most one frame.\<close>

lemma send_slots:
  "sm_key_replay (cx_sm c) = r \<Longrightarrow> sm_key_replay (sm_of (wpa_send_eapol E ki rsc nonce kde k encr) c) = r \<or>
    sm_key_replay (sm_of (wpa_send_eapol E ki rsc nonce kde k encr) c) = next_key_replay r"
  using replay_of_send by blast

lemma PTKSTART_slots: "sm_key_replay (sm_of (sm_WPA_PTK_PTKSTART E) c) \<in> {sm_key_replay (cx_sm c), next_key_replay (sm_key_replay (cx_sm c))}"
  by (auto simp: sm_of_def[of "sm_WPA_PTK_PTKSTART E"] sm_WPA_PTK_PTKSTART_def ptk_entry_def Let_def intro!: send_slots)

lemma PTKINITNEG_slots:
  "sm_key_replay (sm_of (sm_WPA_PTK_PTKINITNEGOTIATING E) c) \<in> {sm_key_replay (cx_sm c), next_key_replay (sm_key_replay (cx_sm c))}"
  by (auto simp: sm_of_def[of "sm_WPA_PTK_PTKINITNEGOTIATING E"] sm_WPA_PTK_PTKINITNEGOTIATING_def ptk_entry_def Let_def callback_defs intro!: send_slots)

lemma REKEYNEG_slots:
  "sm_key_replay (sm_of (sm_WPA_PTK_GROUP_REKEYNEGOTIATING E) c) \<in> {sm_key_replay (cx_sm c), next_key_replay (sm_key_replay (cx_sm c))}"
  by (auto simp: sm_of_def[of "sm_WPA_PTK_GROUP_REKEYNEGOTIATING E"] sm_WPA_PTK_GROUP_REKEYNEGOTIATING_def ptk_group_entry_def Let_def callback_defs intro!: send_slots)

lemma PTK_Step_slots: "slots_by (insert R_send L) (cx_sm c) (cx_sm (sm_WPA_PTK_Step E c))"
  by (rule PTK_Step_cases; rule slots_by_send; (simp add: ptk_after; fail | use PTKSTART_slots PTKINITNEG_slots in \<open>simp add: ptk_after\<close>))

lemma GROUP_Step_slots: "slots_by (insert R_send L) (cx_sm c) (cx_sm (sm_WPA_PTK_GROUP_Step E c))"
  by (rule GROUP_Step_cases; rule slots_by_send; (simp add: group_after; fail | use REKEYNEG_slots in \<open>simp add: group_after\<close>))

definition replays :: "(nat \<Rightarrow> replay_event set) \<Rightarrow> wpa_world \<Rightarrow> wpa_world \<Rightarrow> bool" where
  "replays L w w' \<longleftrightarrow> w_list w' = w_list w \<and> (\<forall>j \<in> set (w_list w). slots_by (insert R_send (L j)) (sta w j) (sta w' j))"

lemma replays_same:
  "w_list w' = w_list w \<Longrightarrow> (\<And>j. sm_key_replay (sta w' j) = sm_key_replay (sta w j)) \<Longrightarrow> replays L w w'"
  by (simp add: replays_def slots_by_same)

lemma replays_outside: "outside w w' \<Longrightarrow> replays L w w'"
  unfolding outside_def by (elim conjE, rule replays_same, assumption, rule sm_rest_keeps(1)) blast

lemma replays_sta: "slots_by (insert R_send (L i)) (sta w i) (cx_sm c) \<Longrightarrow> replays L w (save i c w)"
  by (simp add: replays_def slots_by_same)

interpretation replay: handlers E "replays L"
proof unfold_locales
  show "replays L w w" for w by (rule replays_same) simp_all
  show "replays L w1 w2 \<Longrightarrow> replays L w2 w3 \<Longrightarrow> replays L w1 w3" for w1 w2 w3
    using slots_by_trans by (auto simp: replays_def)
  show "replays L w (on_sta i (sm_WPA_PTK_Step E) w)" for w i
    unfolding on_sta_def using PTK_Step_slots[of "L i" "load i w" E] by (intro replays_sta) simp
  show "replays L w (on_sta i (sm_WPA_PTK_GROUP_Step E) w)" for w i
    unfolding on_sta_def using GROUP_Step_slots[of "L i" "load i w" E] by (intro replays_sta) simp
  show "replays L w (wpa_auth_sta_set_vlan E alloc i vid w)" for w alloc i vid by (rule replays_outside[OF outside_set_vlan])
  show "resting w \<Longrightarrow> replays L w (reconfig_group E n wconf w)" for w n wconf
    by (rule replays_same) (simp_all add: reconfig_group_eq resting_def good_def)
qed (auto intro!: replays_same simp: clear_changed_def flag_station_def setkeys_start_simps control_updates_def wpa_request_new_ptk_def
  remove_ptk_after group_update_done_def wpa_gtk_rekey_def Let_def)

interpretation replay_cache: cache_handlers E "replays L"
  by unfold_locales (auto intro: replays_outside[OF outside_set_cache] replays_outside[OF outside_validate(1)] replays_outside[OF outside_sta]
    simp: sm_rest_def)

interpretation replay_assoc: assoc_handlers E "replays ((\<lambda>_. {})(i := {R_reset}))" i
proof unfold_locales
  show "replays ((\<lambda>_. {})(i := {R_reset})) w (set_sta i reset_replay w)" for w
    using slots_by_one[of "reset_replay (sta w i)" R_reset "sta w i"] by (simp add: replays_def slots_by_same reset_replay_def)
qed

interpretation replay_rx: rx_handlers E "replays ((\<lambda>_. {})(i := {R_reply}))" i
proof unfold_locales
  show "replays ((\<lambda>_. {})(i := {R_reply})) w (save i (snd (rx_front E data (load i w))) w)" for w data
  proof (rule replays_sta, rule rx_front_cases[of E data "load i w"])
    fix c assume "rx_front E data (load i w) = (RX_store, c)"
      "cx_sm c = (cx_sm (load i w))\<lparr>sm_MICVerified := sm_PTK_valid (cx_sm (load i w)),
         sm_key_replay := (sm_key_replay (cx_sm (load i w)))[0 := (sm_key_replay (cx_sm (load i w)) ! 0)\<lparr>rs_valid := False\<rparr>]\<rparr>"
    then show "slots_by (insert R_send (((\<lambda>_. {})(i := {R_reply})) i)) (sta w i) (cx_sm (snd (rx_front E data (load i w))))"
      using slots_by_one[of "cx_sm c" R_reply "sta w i"] by simp
  qed (auto intro!: slots_by_same simp: request_station_def wpa_request_new_ptk_def)
qed (auto intro!: replays_same simp: rx_store_def callback_defs rx_error_report_def wpa_request_new_ptk_def Let_def)

section \<open>Refinement\<close>

text \<open>The events a station may see in an input.\<close>

fun replay_events :: "nat \<Rightarrow> 'e wpa_input \<Rightarrow> replay_event set" where
  "replay_events i (In_receive j data) = (if j = i then {R_send, R_reply} else {R_send})"
| "replay_events i (In_associated j) = (if j = i then {R_send, R_reset} else {R_send})"
| "replay_events i _ = {R_send}"

lemma step_slots:
  assumes "resting w" "wpa_fuel w \<le> n" "wpa_step E n inp w = Some w'" "i \<in> set (w_list w')"
  shows "i \<in> set (w_list w) \<and> slots_by (replay_events i inp) (sta w i) (sta w' i) \<or> (\<exists>da. i \<notin> set (w_list w) \<and> sta w' i = fresh_sm da)"
proof -
  have one: "i \<in> set (w_list w) \<and> slots_by (insert R_send (L i)) (sta w i) (sta w' i)" if "replays L w w'" for L
    using that assms(4) by (simp add: replays_def)
  show ?thesis
  proof (cases inp rule: input_cases)
    case (new m da)
    then show ?thesis using assms(3,4) init_station[OF assms(1), of i m da] slots_by_same[of "sta w' i" "sta w i"] by auto
  next
    case (gone j)
    then show ?thesis using assms(3,4) deinit_station[OF assms(1), of i j] by (auto intro: slots_by_same)
  next
    case (assoc j)
    then show ?thesis using one[OF replay_assoc.assoc_step[OF assms(1,2) disjI2[OF assoc] assms(3)]] by (auto split: if_splits)
  next
    case (rx j data)
    then show ?thesis using one[OF replay_rx.rx_step[OF assms(1,2) disjI2[OF rx] assms(3)]] by (auto split: if_splits)
  next
    case other
    then have "replay_events i inp = {R_send}" by (cases inp) (simp_all add: plain_input_def cache_input_def)
    then show ?thesis using one[OF replay_cache.cache_step[OF assms(1,2) other assms(3), of "\<lambda>_. {}"]] by simp
  qed
qed

definition replay_ok :: "wpa_world \<Rightarrow> bool" where
  "replay_ok w \<longleftrightarrow> (\<forall>i \<in> set (w_list w). slots_ok (sm_key_replay (sta w i)))"

lemma replay_ok_step:
  assumes "resting w" "replay_ok w" "wpa_fuel w \<le> n" "wpa_step E n inp w = Some w'"
  shows "replay_ok w'"
  unfolding replay_ok_def
proof
  fix i assume "i \<in> set (w_list w')"
  then show "slots_ok (sm_key_replay (sta w' i))"
    using step_slots[OF assms(1,3,4)] assms(2) slots_ok_events by (force simp: slots_by_def replay_ok_def)
qed

lemma init_empty: "wpa_init E alloc da wconf = Some w \<Longrightarrow> w_list w = []"
  by (auto simp: wpa_init_def Let_def split: if_splits option.splits prod.splits)

lemma run_replay_ok:
  assumes "wpa_init E0 alloc da wconf = Some w0" "wpa_run inps w0 = Some w"
  shows "replay_ok w"
proof (rule run_induct[OF assms(2), where Q = "\<lambda>_. True"])
  show "resting w0" using resting_init[OF assms(1)] by blast
  show "replay_ok w0" using init_empty[OF assms(1)] by (simp add: replay_ok_def)
  show "replay_ok w'" if "resting w" "replay_ok w" "wpa_step E (wpa_fuel w) inp w = Some w'" for E inp w w'
    using replay_ok_step[OF that(1,2) order_refl that(3)] .
qed auto


lemma ex_timeout_list: "w_list (wpa_send_eapol_timeout ex_env (wpa_fuel ex_world) 0 ex_world) = [0]"
proof -
  have "resting ex_world" using wpa_run_resting[OF ex_run(2)] resting_init[OF ex_run(1)] by blast
  then have "replays (\<lambda>_. {}) ex_world (wpa_send_eapol_timeout ex_env (wpa_fuel ex_world) 0 ex_world)"
    using replay.plain_step[OF _ order_refl, of ex_world "In_send_eapol_timeout 0"] by (simp add: plain_input_def)
  then show ?thesis by (simp add: replays_def ex_facts)
qed


end
