(* ===== verification/Wpa_Auth_Shapes.thy ===== *)
theory Wpa_Auth_Shapes
  imports Wpa_Auth_Replay
begin

text \<open>
  The buffers of the authenticator. The C structs hold arrays of fixed size, which the model keeps as
  lists; the sizes are an invariant of all runs, and with them the indices into the array of the two
  group keys are in range.
\<close>

section \<open>Sizes\<close>

definition station_sized :: "wpa_state_machine \<Rightarrow> bool" where
  "station_sized s \<longleftrightarrow> length (sm_ANonce s) = 32 \<and> length (sm_SNonce s) = 32 \<and> length (sm_PTK s) = 64 \<and>
     length (sm_req_replay_counter s) = 8"

definition counters_sized :: "wpa_group \<Rightarrow> bool" where
  "counters_sized g \<longleftrightarrow> length (g_Counter g) = 32 \<and> length (g_GNonce g) = 32 \<and> length (g_GMK g) = 32 \<and> g_GTK_len g \<le> 32"

definition group_sized :: "wpa_group \<Rightarrow> bool" where
  "group_sized g \<longleftrightarrow> counters_sized g \<and> length (g_GTK g) = 2 \<and> (\<forall>k \<in> set (g_GTK g). length k = 32) \<and>
     (g_GN g, g_GM g) \<in> {(1, 2), (2, 1)}"

lemmas sized_defs = group_sized_def counters_sized_def

text \<open>What is required of the surroundings: the primitives return as many bytes as asked for, and the
  pairwise key on the stack has its 64 bytes.\<close>

definition env_sized :: "wpa_env \<Rightarrow> bool" where
  "env_sized E \<longleftrightarrow> (\<forall>tr n. length (snd (E_random E tr n)) = n) \<and>
     (\<forall>key label data n k. E_sha1_prf E key label data n = Some k \<longrightarrow> length k = n) \<and> length (E_stack E) = 64"

lemma group_sized_simps [simp]:
  "group_sized (g\<lparr>g_GKeyDoneStations := k\<rparr>) = group_sized g" "group_sized (g\<lparr>g_changed := b\<rparr>) = group_sized g"
  "group_sized (g\<lparr>g_first_sta_seen := b\<rparr>) = group_sized g" "group_sized (g\<lparr>g_reject_4way_hs_for_entropy := b\<rparr>) = group_sized g"
  "group_sized (g\<lparr>g_GTKReKey := b\<rparr>) = group_sized g" "group_sized (g\<lparr>g_GInit := b\<rparr>) = group_sized g"
  "group_sized (g\<lparr>g_state := st\<rparr>) = group_sized g"
  by (simp_all add: sized_defs)

lemma group_sized_counter: "group_sized g \<Longrightarrow> length c = 32 \<Longrightarrow> group_sized (g\<lparr>g_Counter := c\<rparr>)"
  and group_sized_gmk: "group_sized g \<Longrightarrow> length c = 32 \<Longrightarrow> group_sized (g\<lparr>g_GMK := c\<rparr>)"
  and group_sized_swap: "group_sized g \<Longrightarrow> group_sized (g\<lparr>g_GM := g_GN g, g_GN := g_GM g\<rparr>)"
  and group_sized_len: "group_sized g \<Longrightarrow> group_sized (wpa_group_set_key_len cipher g)"
  by (auto simp: sized_defs wpa_group_set_key_len_def)

section \<open>Group keys\<close>

lemma random_sized: "env_sized E \<Longrightarrow> random_get_bytes E n tr = (r, bs, tr') \<Longrightarrow> length bs = n"
  by (auto simp: random_get_bytes_def Let_def env_sized_def split: prod.splits) (metis snd_conv)

lemma prf_sized: "env_sized E \<Longrightarrow> E_sha1_prf E key label data n = Some k \<Longrightarrow> length k = n"
  by (simp add: env_sized_def)

lemma init_gmk_counters:
  assumes "env_sized E" "counters_sized g"
  shows "counters_sized (fst (snd (wpa_group_init_gmk_and_counter E au g tr)))"
  unfolding wpa_group_init_gmk_and_counter_def Let_def
  using assms(2) random_sized[OF assms(1)] prf_sized[OF assms(1)]
  by (auto split: prod.split option.split simp: counters_sized_def)

lemma init_gmk_sized:
  assumes "env_sized E" "group_sized g"
  shows "group_sized (fst (snd (wpa_group_init_gmk_and_counter E au g tr)))"
  using init_gmk_counters[OF assms(1)] assms(2) unfolding group_sized_def
  by (simp add: wpa_group_init_gmk_and_counter_def random_get_bytes_eq Let_def split: option.split)

lemma gmk_to_gtk_sized: "env_sized E \<Longrightarrow> wpa_gmk_to_gtk E gmk label da gnonce n tr = (r, Some k, tr') \<Longrightarrow> length k = n"
  using prf_sized by (auto simp: wpa_gmk_to_gtk_def Let_def split: prod.splits option.splits)

lemma gtk_update_sized:
  assumes "env_sized E" "group_sized g"
  shows "group_sized (fst (snd (wpa_gtk_update E au g tr)))"
proof -
  let ?g = "g\<lparr>g_GNonce := g_Counter g, g_Counter := inc_byte_array (g_Counter g)\<rparr>"
  obtain r k tr' where k: "wpa_gmk_to_gtk E (g_GMK g) (ascii ''Group key expansion'') (a_addr au) (g_Counter g) (g_GTK_len g) tr = (r, k, tr')"
    by (metis prod_cases3)
  have g: "group_sized ?g" using assms(2) by (simp add: sized_defs)
  have i: "g_GN g - 1 < length (g_GTK g)" "length (g_GTK g ! (g_GN g - 1)) = 32"
    using assms(2) by (auto simp: sized_defs)
  have "length x \<le> 32" if "k = Some x" for x
    using gmk_to_gtk_sized[OF assms(1)] k that assms(2) by (auto simp: sized_defs)
  then show ?thesis
    using g i by (auto simp: wpa_gtk_update_def Let_def k sized_defs memput_def split: option.split dest!: set_list_update_cases)
qed

lemma setkeysdone_sized: "group_sized g \<Longrightarrow> group_sized (fst (wpa_group_setkeysdone E au g tr))"
  by (simp add: setkeysdone_fst)

lemma gtk_init_sized:
  assumes "env_sized E" "counters_sized g"
  shows "group_sized (fst (wpa_group_gtk_init E au g tr))"
proof -
  have "group_sized (g\<lparr>g_changed := False, g_state := WPA_GROUP_GTK_INIT, g_GTK := replicate 2 (replicate 32 0), g_GN := 1, g_GM := 2\<rparr>)"
    using assms(2) by (simp add: sized_defs)
  then show ?thesis using gtk_update_sized[OF assms(1)] by (simp add: wpa_group_gtk_init_def Let_def case_prod_beta)
qed

lemma group_init_sized:
  assumes "env_sized E" "wpa_group_init E alloc au vid tr = (Some g, tr')"
  shows "group_sized g"
proof -
  have z: "counters_sized (wpa_group_set_key_len cipher (zero_group vid))" for cipher
    by (simp add: wpa_group_set_key_len_def zero_group_def counters_sized_def)
  obtain r g1 tr1 where 1: "wpa_group_init_gmk_and_counter E au (wpa_group_set_key_len (c_wpa_group (a_conf au)) (zero_group vid)) tr = (r, g1, tr1)"
    by (metis prod_cases3)
  have "counters_sized (g1\<lparr>g_GInit := True\<rparr>)" using init_gmk_counters[OF assms(1) z, of au "c_wpa_group (a_conf au)" tr] 1 by (simp add: counters_sized_def)
  then have "group_sized (fst (wpa_group_gtk_init E au (g1\<lparr>g_GInit := True\<rparr>) tr1))" by (rule gtk_init_sized[OF assms(1)])
  then show ?thesis
    using assms(2) 1 setkeysdone_sized by (auto simp: wpa_group_init_def Let_def case_prod_beta split: if_splits)
qed

section \<open>The machines\<close>

text \<open>A frame leaves the size of the counter as it is.\<close>

lemma send_sized [simp]:
  "group_sized (g\<lparr>g_Counter := g_Counter (gr_of (wpa_send_eapol E ki rsc nonce kde k encr) c)\<rparr>)"
  if "group_sized g" "group_sized (cx_gr c)"
  using that counter_of_send[of E ki rsc nonce kde k encr c] by (auto simp: sized_defs)

definition ctx_sized :: "wpa_ctx \<Rightarrow> bool" where
  "ctx_sized c \<longleftrightarrow> station_sized (cx_sm c) \<and> group_sized (cx_gr c)"

lemma derive_ptk_sized:
  assumes "env_sized E"
  shows "length (wpa_derive_ptk E c pmk) = 64"
proof -
  have put: "length src \<le> length dst \<Longrightarrow> length (memput dst 0 src) = length dst" for src dst :: bytes by (simp add: memput_def)
  have "length (case E_sha1_prf E key label data n of Some k \<Rightarrow> k | None \<Rightarrow> []) \<le> n" for key label data n
    using prf_sized[OF assms, of key label data n] by (cases "E_sha1_prf E key label data n") auto
  then have "length (wpa_pmk_to_ptk (\<lambda>key label d n. case E_sha1_prf E key label d n of Some k \<Rightarrow> k | None \<Rightarrow> []) pmk label a1 a2 n1 n2 n) \<le> 64"
    if "n \<le> 64" for label a1 a2 n1 n2 n using that order_trans[of _ n 64] by (simp only: wpa_pmk_to_ptk_def Let_def)
  then show ?thesis
    unfolding wpa_derive_ptk_def Let_def using assms by (subst put) (simp_all add: env_sized_def)
qed

lemma AUTHENTICATION2_sized:
  assumes "env_sized E" "ctx_sized c"
  shows "ctx_sized (sm_WPA_PTK_AUTHENTICATION2 E c)"
proof -
  have "group_sized (cx_gr (wpa_group_first_station E (ptk_entry WPA_PTK_AUTHENTICATION2 c)))"
    using assms(2) init_gmk_sized[OF assms(1)] gtk_update_sized[OF assms(1)]
    by (simp add: wpa_group_first_station_def Let_def case_prod_beta ptk_entry_def ctx_sized_def)
  then show ?thesis
    using assms(2)
    by (simp add: sm_WPA_PTK_AUTHENTICATION2_def Let_def ctx_sized_def ptk_entry_def first_station_after station_sized_def sized_defs)
qed

lemma PTKCALC_sized:
  assumes "env_sized E" "ctx_sized c"
  shows "ctx_sized (sm_WPA_PTK_PTKCALCNEGOTIATING E c)"
  using assms(2) derive_ptk_sized[OF assms(1)]
  by (simp add: sm_WPA_PTK_PTKCALCNEGOTIATING_def Let_def ptk_entry_def ctx_sized_def station_sized_def split: option.split)

lemma sending_sized:
  assumes "ctx_sized c"
  shows "ctx_sized (sm_WPA_PTK_PTKSTART E c)" "ctx_sized (sm_WPA_PTK_PTKINITNEGOTIATING E c)"
    "ctx_sized (sm_WPA_PTK_GROUP_REKEYNEGOTIATING E c)"
  using assms
  by (simp_all add: sm_WPA_PTK_PTKSTART_def sm_WPA_PTK_PTKINITNEGOTIATING_def sm_WPA_PTK_GROUP_REKEYNEGOTIATING_def Let_def ptk_entry_def
      ptk_group_entry_def callback_defs ctx_sized_def station_sized_def)

lemma PTK_Step_sized: "env_sized E \<Longrightarrow> ctx_sized c \<Longrightarrow> ctx_sized (sm_WPA_PTK_Step E c)"
  by (rule PTK_Step_cases)
    (simp_all add: AUTHENTICATION2_sized PTKCALC_sized sending_sized, simp_all add: ctx_sized_def station_sized_def ptk_after zero_ptk_def)

lemma GROUP_Step_sized: "ctx_sized c \<Longrightarrow> ctx_sized (sm_WPA_PTK_GROUP_Step E c)"
  by (rule GROUP_Step_cases)
    (simp_all add: sending_sized, simp_all add: ctx_sized_def station_sized_def group_after)

section \<open>Every handler\<close>

definition world_sized :: "wpa_world \<Rightarrow> bool" where
  "world_sized w \<longleftrightarrow> (\<forall>i \<in> set (w_list w). station_sized (sta w i)) \<and> (\<forall>g \<in> set (w_groups w). group_sized g)"

definition sizes :: "wpa_env \<Rightarrow> wpa_world \<Rightarrow> wpa_world \<Rightarrow> bool" where
  "sizes E w w' \<longleftrightarrow> w_list w' = w_list w \<and> (env_sized E \<longrightarrow> world_sized w \<longrightarrow> world_sized w')"

lemma sizes_save:
  assumes "good w" "i \<in> set (w_list w)" "env_sized E \<Longrightarrow> ctx_sized (load i w) \<Longrightarrow> ctx_sized c"
  shows "sizes E w (save i c w)"
proof -
  have "w_groups (save i c w) = (w_groups w)[sm_group (cx_sm c) := cx_gr c]" by (simp add: save_def)
  then show ?thesis
    using assms(2,3) good_dest(3)[OF assms(1,2)]
    by (auto simp: sizes_def world_sized_def ctx_sized_def dest!: set_list_update_cases)
qed

lemma sizes_set_sta: "(station_sized (sta w i) \<Longrightarrow> station_sized (f (sta w i))) \<Longrightarrow> i \<in> set (w_list w) \<Longrightarrow> sizes E w (set_sta i f w)"
  by (auto simp: sizes_def world_sized_def)

lemma sizes_set_group:
  "g < length (w_groups w) \<Longrightarrow> (env_sized E \<Longrightarrow> group_sized (w_groups w ! g) \<Longrightarrow> group_sized (f (w_groups w ! g))) \<Longrightarrow> sizes E w (set_group g f w)"
  by (auto simp: sizes_def world_sized_def dest!: set_list_update_cases)

lemma sizes_on_group:
  "g < length (w_groups w) \<Longrightarrow> (env_sized E \<Longrightarrow> group_sized (w_groups w ! g) \<Longrightarrow> group_sized (fst (f (w_au w) (w_groups w ! g) (w_tr w)))) \<Longrightarrow>
    sizes E w (on_group f g w)"
  by (auto simp: sizes_def world_sized_def dest!: set_list_update_cases)

lemma sizes_trans: "sizes E w1 w2 \<Longrightarrow> sizes E w2 w3 \<Longrightarrow> sizes E w1 w3"
  by (auto simp: sizes_def)

lemma sizes_outside: "outside w w' \<Longrightarrow> w_groups w' = w_groups w \<Longrightarrow> sizes E w w'"
proof -
  assume o: "outside w w'" and g: "w_groups w' = w_groups w"
  have "station_sized (sta w' j) = station_sized (sta w j)" for j
  proof -
    have "station_sized (sm_rest s) = station_sized s" for s by (simp add: sm_rest_def station_sized_def)
    then show ?thesis using o unfolding outside_def by metis
  qed
  then show ?thesis using o g by (simp add: sizes_def world_sized_def outside_def)
qed

lemma sizes_other: "w_list w' = w_list w \<Longrightarrow> w_groups w' = w_groups w \<Longrightarrow> w_sm w' = w_sm w \<Longrightarrow> sizes E w w'"
  by (simp add: sizes_def world_sized_def sta_def)

lemma sizes_control: "f \<in> control_updates \<Longrightarrow> i \<in> set (w_list w) \<Longrightarrow> sizes E w (set_sta i f w)"
  by (rule sizes_set_sta) (auto simp: control_updates_def wpa_request_new_ptk_def station_sized_def zero_ptk_def)

lemma sizes_setkeys_start:
  assumes "g < length (w_groups w)"
  shows "sizes E w (setkeys_start E g w)"
proof -
  let ?w1 = "set_group g (\<lambda>gr. gr\<lparr>g_changed := True, g_state := WPA_GROUP_SETKEYS, g_GTKReKey := False, g_GM := g_GN gr, g_GN := g_GM gr\<rparr>) w"
  let ?w2 = "on_group (\<lambda>au gr tr. snd (wpa_gtk_update E au gr tr)) g ?w1"
  have 1: "sizes E w ?w1" by (rule sizes_set_group[OF assms]) (auto simp: sized_defs)
  have 2: "sizes E ?w1 ?w2" by (rule sizes_on_group) (use assms gtk_update_sized in auto)
  have 3: "sizes E ?w2 (set_group g (\<lambda>gr. gr\<lparr>g_GKeyDoneStations := 0\<rparr>) ?w2)" by (rule sizes_set_group) (use assms in auto)
  show ?thesis unfolding setkeys_start_def Let_def using sizes_trans[OF 1 2] sizes_trans[OF sizes_trans[OF 1 2] 3] by simp
qed

lemma sizes_gtk_rekey: "w_groups w \<noteq> [] \<Longrightarrow> sizes E w (wpa_gtk_rekey E w)"
proof -
  let ?one = "\<lambda>au gr tr. snd (wpa_gtk_update E au (gr\<lparr>g_GM := g_GN gr, g_GN := g_GM gr\<rparr>) tr)"
  have one: "sizes E w (on_group ?one 0 w)" if "w_groups w \<noteq> []" for w
    by (rule sizes_on_group) (use that gtk_update_sized group_sized_swap in auto)
  assume "w_groups w \<noteq> []"
  then show ?thesis unfolding wpa_gtk_rekey_def Let_def using sizes_trans[OF one one] by simp
qed

lemma sizes_reconfig_group:
  assumes "w_groups w \<noteq> []"
  shows "sizes E w (reconfig_group E n wconf w)"
proof -
  let ?w1 = "set_group 0 (\<lambda>g. (wpa_group_set_key_len (c_wpa_group wconf) g)\<lparr>g_GInit := True\<rparr>) w"
  let ?w2 = "on_group (wpa_group_gtk_init E) 0 ?w1"
  have 1: "sizes E w ?w1" by (rule sizes_set_group) (use assms group_sized_len in auto)
  have 2: "sizes E ?w1 ?w2" by (rule sizes_on_group) (use assms gtk_init_sized in \<open>auto simp: group_sized_def\<close>)
  have 3: "sizes E ?w2 (set_group 0 (\<lambda>g. g\<lparr>g_GInit := False\<rparr>) ?w2)" by (rule sizes_set_group) (use assms in auto)
  show ?thesis unfolding reconfig_group_eq[OF assms] using sizes_trans[OF sizes_trans[OF 1 2] 3] .
qed

lemma sizes_set_vlan: "sizes E w (wpa_auth_sta_set_vlan E alloc i vid w)"
proof -
  have s: "sizes E w (set_sta i (\<lambda>s. s\<lparr>sm_group := g\<rparr>) w)" for g by (auto simp: sizes_def world_sized_def station_sized_def)
  have "sizes E w (set_sta i (\<lambda>s. s\<lparr>sm_group := length (w_groups w)\<rparr>) (w\<lparr>w_groups := w_groups w @ [g], w_tr := tr\<rparr>))"
    if "wpa_group_init E alloc (w_au w) vid (w_tr w) = (Some g, tr)" for g tr
    using group_init_sized[OF _ that] by (auto simp: sizes_def world_sized_def station_sized_def sta_def set_sta_def)
  then show ?thesis using s sizes_other[of _ w]
    by (auto simp: wpa_auth_sta_set_vlan_def split: option.split prod.split)
qed

lemma sizes_clear: "good w \<Longrightarrow> i \<in> set (w_list w) \<Longrightarrow> sizes E w (clear_changed i w)"
  unfolding clear_changed_def
  by (rule sizes_trans[OF sizes_set_sta sizes_set_group]) (auto simp: station_sized_def good_def)

lemma sizes_flag: "good w \<Longrightarrow> i \<in> set (w_list w) \<Longrightarrow> sizes E w (flag_station i w)"
  unfolding flag_station_def Let_def
  by (rule sizes_trans[OF sizes_set_group sizes_set_sta]) (auto simp: station_sized_def good_dest(3))

interpretation sized: handlers E "sizes E"
proof unfold_locales
  show "sizes E w w" for w by (simp add: sizes_def)
  show "sizes E w1 w2 \<Longrightarrow> sizes E w2 w3 \<Longrightarrow> sizes E w1 w3" for w1 w2 w3 by (rule sizes_trans)
  show "good w \<Longrightarrow> i \<in> set (w_list w) \<Longrightarrow> sizes E w (on_sta i (sm_WPA_PTK_Step E) w)" for w i
    unfolding on_sta_def by (rule sizes_save) (use PTK_Step_sized in auto)
  show "good w \<Longrightarrow> i \<in> set (w_list w) \<Longrightarrow> sizes E w (on_sta i (sm_WPA_PTK_GROUP_Step E) w)" for w i
    unfolding on_sta_def by (rule sizes_save) (use GROUP_Step_sized in auto)
  show "good w \<Longrightarrow> g < length (w_groups w) \<Longrightarrow> sizes E w (on_group (wpa_group_setkeysdone E) g w)" for w g
    by (rule sizes_on_group) (simp_all add: setkeysdone_sized)
  show "resting w \<Longrightarrow> i \<in> set (w_list w) \<Longrightarrow> sizes E w (on_sta i (wpa_remove_ptk E) w)" for w i
    unfolding on_sta_def by (rule sizes_save) (auto simp: resting_def ctx_sized_def station_sized_def remove_ptk_after zero_ptk_def)
  show "resting w \<Longrightarrow> i \<in> set (w_list w) \<Longrightarrow> sizes E w (on_sta i (\<lambda>c. upd_s (\<lambda>s. s\<lparr>sm_PtkGroupInit := True\<rparr>) (group_update_done c)) w)" for w i
    unfolding on_sta_def by (rule sizes_save) (auto simp: resting_def ctx_sized_def station_sized_def group_update_done_def)
  show "resting w \<Longrightarrow> sizes E w (on_group (\<lambda>au g tr. case random_get_bytes E 32 tr of (_, gmk, tr) \<Rightarrow> (g\<lparr>g_GMK := gmk\<rparr>, tr)) 0 w)" for w
    by (rule sizes_on_group) (auto simp: resting_def good_def case_prod_beta random_get_bytes_eq env_sized_def intro!: group_sized_gmk)
  show "resting w \<Longrightarrow> sizes E w (wpa_gtk_rekey E w)" for w by (rule sizes_gtk_rekey) (simp add: resting_def good_def)
  show "resting w \<Longrightarrow> sizes E w (reconfig_group E n wconf w)" for w n wconf by (rule sizes_reconfig_group) (simp add: resting_def good_def)
qed (auto intro: sizes_other sizes_control sizes_setkeys_start sizes_set_vlan sizes_clear sizes_flag sizes_set_sta sizes_set_group simp: station_sized_def)

text \<open>Frames, associations and the cache.\<close>

lemma frame_fields: "EAPOL_KEY_LEN \<le> length data \<Longrightarrow> length (key_nonce data) = 32 \<and> length (key_replay_counter data) = 8"
  by (simp add: EAPOL_KEY_LEN_def key_nonce_def key_replay_counter_def)

lemma rx_front_group: "group_sized (cx_gr (snd (rx_front E data c))) = group_sized (cx_gr c)"
proof -
  have p: "group_sized (cx_gr (snd (rx_pairwise_2 data c))) = group_sized (cx_gr c)"
    by (simp add: rx_pairwise_2_def Let_def split: prod.split)
  have s: "group_sized (cx_gr (snd (rx_state_check data c))) = group_sized (cx_gr c)"
    by (simp add: rx_state_check_def p split: eapol_msg.split)
  have m: "cx_gr (snd (rx_mic E data c)) = cx_gr c" for c by (simp add: rx_mic_def Let_def)
  have r: "cx_gr (snd (rx_request data c)) = cx_gr c" for c by (simp add: rx_request_def Let_def)
  show ?thesis using s m r by (simp add: rx_front_def case_prod_beta)
qed

lemma rx_front_sized:
  assumes "ctx_sized c"
  shows "ctx_sized (snd (rx_front E data c))"
proof -
  have "station_sized (cx_sm (snd (rx_front E data c)))"
  proof (rule rx_front_cases[of E data c])
    fix what c' assume f: "rx_front E data c = (what, c')" "what \<noteq> RX_drop"
      "cx_sm c' = request_station data (cx_sm c) \<or> cx_sm c' = wpa_request_new_ptk (request_station data (cx_sm c)) \<and> what = RX_store"
    have "EAPOL_KEY_LEN \<le> length data" using f(1,2) by (auto simp: rx_front_def rx_header_ok_def split: if_splits)
    then show ?thesis
      using f(1,3) frame_fields[of data] assms by (auto simp: station_sized_def ctx_sized_def request_station_def wpa_request_new_ptk_def)
  qed (use assms in \<open>auto simp: station_sized_def ctx_sized_def\<close>)
  then show ?thesis using assms rx_front_group[of E data c] by (simp add: ctx_sized_def)
qed

interpretation sized_rx: rx_handlers E "sizes E" i
proof unfold_locales
  show "resting w \<Longrightarrow> i \<in> set (w_list w) \<Longrightarrow> sizes E w (save i (snd (rx_front E data (load i w))) w)" for w data
    by (rule sizes_save) (auto simp: resting_def intro: rx_front_sized)
  show "resting w \<Longrightarrow> i \<in> set (w_list w) \<Longrightarrow> EAPOL_KEY_LEN \<le> length data \<Longrightarrow> sizes E w (save i (snd (rx_store E data (load i w))) w)" for w data
    by (rule sizes_save) (use frame_fields[of data] in \<open>auto simp: resting_def rx_store_def callback_defs ctx_sized_def station_sized_def\<close>)
  show "resting w \<Longrightarrow> i \<in> set (w_list w) \<Longrightarrow> sizes E w (on_sta i rx_error_report w)" for w
    unfolding on_sta_def by (rule sizes_save)
      (auto simp: resting_def rx_error_report_def Let_def wpa_request_new_ptk_def ctx_sized_def station_sized_def)
qed

interpretation sized_assoc: assoc_handlers E "sizes E" i
  by unfold_locales (auto intro!: sizes_set_sta simp: reset_replay_def station_sized_def)

interpretation sized_cache: cache_handlers E "sizes E"
  by unfold_locales (auto intro: sizes_outside[OF outside_set_cache groups_set_cache] sizes_outside[OF outside_validate] sizes_set_sta
    simp: station_sized_def)

section \<open>Every run\<close>

lemma sized_step:
  assumes "env_sized E" "resting w" "world_sized w" "wpa_step E (wpa_fuel w) inp w = Some w'"
  shows "world_sized w'"
proof -
  have one: "world_sized w'" if "sizes E w w'" using that assms(1,3) by (simp add: sizes_def)
  show ?thesis
  proof (cases inp rule: input_cases)
    case (new m da)
    have "station_sized (fresh_sm da)" by (simp add: fresh_sm_def station_sized_def zero_ptk_def)
    moreover have "w_groups (wpa_auth_sta_init m da w) = w_groups w" by (simp add: wpa_auth_sta_init_def split: option.split)
    ultimately show ?thesis using new assms(3,4) init_station[OF assms(2), of _ m da] by (auto simp: world_sized_def) metis
  next
    case (gone i)
    have "w_sm w i \<noteq> None \<Longrightarrow> sm_group (sta w i) < length (w_groups w)" using assms(2) good_dest(3,6)[of w i] by (auto simp: resting_def)
    then have "\<forall>g \<in> set (w_groups (wpa_auth_sta_deinit i w)). group_sized g"
      using assms(3) by (auto simp: world_sized_def wpa_auth_sta_deinit_def wpa_free_sta_sm_def Let_def split: option.splits if_splits dest!: set_list_update_cases)
    then show ?thesis using gone assms(3,4) deinit_station[OF assms(2), of _ i] by (auto simp: world_sized_def)
  next
    case (assoc i)
    then show ?thesis using one[OF sized_assoc.assoc_step[OF assms(2) order_refl disjI2[OF assoc] assms(4)]] by blast
  next
    case (rx i data)
    then show ?thesis using one[OF sized_rx.rx_step[OF assms(2) order_refl disjI2[OF rx] assms(4)]] by blast
  next
    case other
    then show ?thesis using one[OF sized_cache.cache_step[OF assms(2) order_refl other assms(4)]] by blast
  qed
qed


lemma ex_env_sized: "env_sized ex_env"
  by (simp add: env_sized_def ex_env_def)


end
