(* ===== verification/Wpa_Auth_Pmksa.thy ===== *)
theory Wpa_Auth_Pmksa
  imports Wpa_Auth_Handlers Wpa_Auth_Example Pmksa_Cache_Props
begin

text \<open>
  The authenticator together with its PMKSA cache. A station that used a cached master key keeps a
  pointer to the entry; the entry may be freed by a later addition, by another station's
  authentication or by its expiration. The callback of the cache takes the pointer away first: in no
  reachable state does a station point to a freed entry.
\<close>

section \<open>What the cache frees\<close>

definition released :: "rsn_pmksa_cache \<Rightarrow> rsn_pmksa_cache \<Rightarrow> bool" where
  "released c c' \<longleftrightarrow> (\<exists>fs. freed c' = freed c @ fs \<and> dom (heap c) - set fs \<subseteq> dom (heap c'))"

lemma released_refl: "released c c"
  by (simp add: released_def)

lemma released_trans: "released c1 c2 \<Longrightarrow> released c2 c3 \<Longrightarrow> released c1 c3"
  unfolding released_def
proof (elim exE conjE)
  fix fs fs' assume "freed c2 = freed c1 @ fs" "dom (heap c1) - set fs \<subseteq> dom (heap c2)"
    "freed c3 = freed c2 @ fs'" "dom (heap c2) - set fs' \<subseteq> dom (heap c3)"
  then show "\<exists>fs. freed c3 = freed c1 @ fs \<and> dom (heap c1) - set fs \<subseteq> dom (heap c3)"
    by (intro exI[of _ "fs @ fs'"]) auto
qed

lemma released_same: "freed c' = freed c \<Longrightarrow> dom (heap c) \<subseteq> dom (heap c') \<Longrightarrow> released c c'"
  by (simp add: released_def)

lemma released_free: "released c (pmksa_cache_free_entry c e)"
  unfolding released_def by (rule exI[of _ "[e]"]) (auto simp: pmksa_cache_free_entry_def Let_def)

lemma released_link: "released c (pmksa_cache_link_entry c a e)"
  by (rule released_same) (auto simp: pmksa_cache_link_entry_def Let_def)

lemma released_expire_loop: "released c (pmksa_cache_expire_loop now c)"
proof (induction now c rule: pmksa_cache_expire_loop.induct)
  case (1 now c)
  have l: "released c (c\<lparr>pmksa := l\<rparr>)" for l by (rule released_same) simp_all
  show ?case
    using 1 released_trans[OF released_trans[OF l released_free]]
    by (subst pmksa_cache_expire_loop.simps) (auto intro: released_refl split: list.split)
qed

lemma released_expire: "released c (pmksa_cache_expire now c)"
proof -
  have "released c' (pmksa_cache_set_expiration now c')" for c'
    by (rule released_same) (simp_all add: pmksa_cache_set_expiration_def Let_def split: list.split)
  then show ?thesis unfolding pmksa_cache_expire_def using released_trans[OF released_expire_loop] by blast
qed

lemma released_add: "released c (snd (pmksa_cache_auth_add f mem now c pmk aa spa st eapol akmp))"
proof -
  have "released c (make_room c spa)"
    unfolding make_room_def Let_def
    by (auto intro: released_refl released_free released_trans[OF released_free released_free] split: option.split)
  then show ?thesis
    using released_trans[OF _ released_link] released_refl auth_add_eq[of pmk mem _ f now c aa spa st eapol akmp]
    by (cases "m_entry mem"; cases "length pmk \<le> 32") (auto simp: pmksa_cache_auth_add_def split: option.split)
qed

lemma okc_adds:
  "pmksa_cache_add_okc mem c old p = (Some e, c') \<Longrightarrow> released c c' \<and> e \<in> dom (heap c') \<and> (pmksa_wf c \<longrightarrow> fresh_mem c mem \<longrightarrow> pmksa_wf c')"
  using add_okc_wf[of c mem old p] released_link by (auto simp: pmksa_cache_add_okc_def split: option.splits)

lemma released_dom: "released c c' \<Longrightarrow> e \<in> dom (heap c) \<Longrightarrow> e \<notin> set (drop (length (freed c)) (freed c')) \<Longrightarrow> e \<in> dom (heap c')"
  by (auto simp: released_def)

section \<open>The pointers after a change of the cache\<close>

lemma clear_cb_fold:
  "sm_pmksa (sta (fold (\<lambda>i. set_sta i (wpa_auth_pmksa_clear_cb e)) xs w) j) =
    (if j \<in> set xs \<and> sm_pmksa (sta w j) = Some e then None else sm_pmksa (sta w j))"
  by (induction xs arbitrary: w) (auto simp: wpa_auth_pmksa_clear_cb_def)

lemma free_cb_list: "w_list (wpa_auth_pmksa_free_cb e w) = w_list w"
proof -
  have "w_list (fold (\<lambda>i. set_sta i f) xs w) = w_list w" for xs w f by (induction xs arbitrary: w) simp_all
  then show ?thesis by (simp add: wpa_auth_pmksa_free_cb_def)
qed

lemma free_cb_fold:
  "j \<in> set (w_list w) \<Longrightarrow> sm_pmksa (sta (fold wpa_auth_pmksa_free_cb es w) j) = Some e \<Longrightarrow> sm_pmksa (sta w j) = Some e \<and> e \<notin> set es"
proof (induction es arbitrary: w)
  case (Cons x es)
  have "sm_pmksa (sta (wpa_auth_pmksa_free_cb x w) j) = Some e \<and> e \<notin> set es"
    using Cons.IH[of "wpa_auth_pmksa_free_cb x w"] Cons.prems by (simp add: free_cb_list)
  then show ?case using Cons.prems(1) clear_cb_fold[of x "w_list w" w j] by (auto simp: wpa_auth_pmksa_free_cb_def split: if_splits)
qed simp

lemma set_cache_pmksa:
  assumes "j \<in> set (w_list w)" "sm_pmksa (sta (set_cache c w) j) = Some e"
  shows "sm_pmksa (sta w j) = Some e \<and> e \<notin> set (drop (length (freed (a_pmksa (w_au w)))) (freed c))"
proof -
  let ?w = "w\<lparr>w_au := (w_au w)\<lparr>a_pmksa := c\<rparr>\<rparr>"
  have "sm_pmksa (sta ?w j) = Some e \<and> e \<notin> set (drop (length (freed (a_pmksa (w_au w)))) (freed c))"
    using free_cb_fold[of j ?w] assms by (simp add: set_cache_def Let_def)
  then show ?thesis by (simp add: sta_def)
qed

lemma set_cache_au: "a_pmksa (w_au (set_cache c w)) = c" "w_list (set_cache c w) = w_list w"
proof -
  have "w_au (fold (\<lambda>i. set_sta i f) xs w) = w_au w" for xs w f by (induction xs arbitrary: w) simp_all
  then have "w_au (fold wpa_auth_pmksa_free_cb es w) = w_au w" for es w
    by (induction es arbitrary: w) (simp_all add: wpa_auth_pmksa_free_cb_def)
  then show "a_pmksa (w_au (set_cache c w)) = c" by (simp add: set_cache_def Let_def)
  show "w_list (set_cache c w) = w_list w" using outside_set_cache[of w c] by (simp add: outside_def)
qed

section \<open>Handlers that do not use the cache\<close>

definition same_pmksa :: "wpa_world \<Rightarrow> wpa_world \<Rightarrow> bool" where
  "same_pmksa w w' \<longleftrightarrow> w_list w' = w_list w \<and> a_pmksa (w_au w') = a_pmksa (w_au w) \<and>
     (\<forall>j \<in> set (w_list w). sm_pmksa (sta w' j) = sm_pmksa (sta w j))"

interpretation pointers: handlers E same_pmksa
proof unfold_locales
  show "same_pmksa w (on_sta i (sm_WPA_PTK_Step E) w)" for w i
    using PTK_Step_fixed[of E "load i w"] PTK_Step_auth[of E "load i w"] by (simp add: same_pmksa_def sm_fixed_def au_fixed_def)
  show "same_pmksa w (on_sta i (sm_WPA_PTK_GROUP_Step E) w)" for w i
    using GROUP_Step_fixed(1,3)[of E "load i w"] by (simp add: same_pmksa_def sm_fixed_def)
  show "resting w \<Longrightarrow> same_pmksa w (reconfig_group E n wconf w)" for w n wconf
    by (simp add: same_pmksa_def reconfig_group_eq resting_def good_def)
  show "same_pmksa w (wpa_auth_sta_set_vlan E alloc i vid w)" for w alloc i vid
    by (auto simp: same_pmksa_def wpa_auth_sta_set_vlan_def sta_def set_sta_def split: option.split prod.split)
qed (auto simp: same_pmksa_def clear_changed_def flag_station_def setkeys_start_simps control_updates_def wpa_request_new_ptk_def
  remove_ptk_after group_update_done_def wpa_gtk_rekey_def Let_def)

interpretation pointers_assoc: assoc_handlers E same_pmksa i
  by unfold_locales (simp add: same_pmksa_def reset_replay_def)

lemma rx_front_au: "cx_au (snd (rx_front E data c)) = cx_au c"
proof -
  have s: "cx_au (snd (rx_state_check data c)) = cx_au c"
    by (simp add: rx_state_check_def rx_pairwise_2_def Let_def split: eapol_msg.split prod.split)
  have m: "cx_au (snd (rx_mic E data c)) = cx_au c" for c by (simp add: rx_mic_def Let_def)
  have r: "cx_au (snd (rx_request data c)) = cx_au c" for c by (simp add: rx_request_def Let_def)
  show ?thesis using s m r by (simp add: rx_front_def case_prod_beta)
qed

lemma rx_front_pmksa: "sm_pmksa (cx_sm (snd (rx_front E data c))) = sm_pmksa (cx_sm c)"
  by (rule rx_front_cases[of E data c]) (auto simp: request_station_def wpa_request_new_ptk_def)

lemma save_au [simp]: "w_au (save i c w) = cx_au c"
  by (simp add: save_def)

interpretation pointers_rx: rx_handlers E same_pmksa i
proof unfold_locales
  show "same_pmksa w (save i (snd (rx_front E data (load i w))) w)" for w data
    using rx_front_au[of E data "load i w"] rx_front_pmksa[of E data "load i w"] by (simp add: same_pmksa_def)
qed (auto simp: same_pmksa_def rx_store_def callback_defs rx_error_report_def wpa_request_new_ptk_def Let_def)

section \<open>No dangling pointer\<close>

definition pmksa_safe :: "wpa_world \<Rightarrow> bool" where
  "pmksa_safe w \<longleftrightarrow> pmksa_wf (a_pmksa (w_au w)) \<and>
     (\<forall>i \<in> set (w_list w). \<forall>e. sm_pmksa (sta w i) = Some e \<longrightarrow> e \<in> dom (heap (a_pmksa (w_au w))))"

text \<open>The contract of the allocator: a new entry of the cache gets an address that is not in use.\<close>

fun fresh_input :: "'e wpa_input \<Rightarrow> wpa_world \<Rightarrow> bool" where
  "fresh_input (In_validate mem before after i ie) w = fresh_mem (a_pmksa (w_au w)) mem"
| "fresh_input (In_pmksa_add mem now i pmk st eapol) w = fresh_mem (a_pmksa (w_au w)) mem"
| "fresh_input (In_pmksa_add_preauth mem now pmk spa st eapol) w = fresh_mem (a_pmksa (w_au w)) mem"
| "fresh_input _ w = True"

fun fresh_run :: "(wpa_env \<times> 'e wpa_input) list \<Rightarrow> wpa_world \<Rightarrow> bool" where
  "fresh_run [] w = True"
| "fresh_run ((E, inp) # inps) w = (fresh_input inp w \<and>
     (case wpa_step E (wpa_fuel w) inp w of None \<Rightarrow> True | Some w' \<Rightarrow> fresh_run inps w'))"

lemma set_cache_safe:
  assumes "pmksa_safe w" "released (a_pmksa (w_au w)) c" "pmksa_wf c"
  shows "pmksa_safe (set_cache c w)"
  using assms set_cache_pmksa[of _ w c] released_dom[OF assms(2)] unfolding pmksa_safe_def set_cache_au by blast

lemma find_pmksa_dom: "pmksa_wf c \<Longrightarrow> find_pmksa c spa ids = Some e \<Longrightarrow> e \<in> dom (heap c)"
  by (induction ids) (auto split: option.splits dest: get_Some)

definition safe_after :: "rsn_pmksa_cache \<Rightarrow> wpa_ctx \<Rightarrow> bool" where
  "safe_after cache c \<longleftrightarrow> pmksa_wf (a_pmksa (cx_au c)) \<and> dom (heap cache) \<subseteq> dom (heap (a_pmksa (cx_au c))) \<and>
     (\<forall>e. sm_pmksa (cx_sm c) = Some e \<longrightarrow> e \<in> dom (heap (a_pmksa (cx_au c))))"

lemma validate_pmksa_safe:
  assumes "validate_pmksa E mem before after data c = Some c'" "pmksa_wf (a_pmksa (cx_au c))" "fresh_mem (a_pmksa (cx_au c)) mem"
  shows "safe_after (a_pmksa (cx_au c)) c'"
proof -
  have okc: "pmksa_wf x \<and> dom (heap (a_pmksa (cx_au c))) \<subseteq> dom (heap x) \<and> e \<in> dom (heap x)"
    if "pmksa_cache_add_okc mem (a_pmksa (cx_au c)) old p = (Some e, x)" for old p e x
    using add_okc_wf[OF assms(2,3), of old p] that by (auto simp: pmksa_cache_add_okc_def split: option.splits)
  have found: "find_pmksa (a_pmksa (cx_au c)) spa ids = Some e \<Longrightarrow> e \<in> dom (heap (a_pmksa (cx_au c)))" for spa ids e
    using find_pmksa_dom[OF assms(2)] .
  have none: "safe_after (a_pmksa (cx_au c)) z" if "a_pmksa (cx_au z) = a_pmksa (cx_au c)" "sm_pmksa (cx_sm z) = None" for z
    using that assms(2) by (simp add: safe_after_def)
  have some: "safe_after (a_pmksa (cx_au c)) z"
    if "find_pmksa (a_pmksa (cx_au c)) spa ids = Some e" "a_pmksa (cx_au z) = a_pmksa (cx_au c)" "sm_pmksa (cx_sm z) = Some e" for z spa ids e
    using that assms(2) found by (simp add: safe_after_def)
  have new: "safe_after (a_pmksa (cx_au c)) z"
    if "pmksa_cache_add_okc mem (a_pmksa (cx_au c)) old p = (Some e, x)" "a_pmksa (cx_au z) = x" "sm_pmksa (cx_sm z) = Some e" for z old p e x
    using okc[OF that(1)] that(2,3) by (simp add: safe_after_def)
  show ?thesis
    using assms(1) unfolding validate_pmksa_def Let_def
    by (auto split: option.splits if_splits prod.splits intro: none some new)
qed

lemma validate_body_safe:
  assumes "validate_body E mem before after ie c = Some (r, c')" "safe_after (a_pmksa (cx_au c)) c" "fresh_mem (a_pmksa (cx_au c)) mem"
  shows "safe_after (a_pmksa (cx_au c)) c'"
proof -
  have sel: "a_pmksa (validate_selected b d au) = a_pmksa au" for b d au by (simp add: validate_selected_def)
  have st: "validate_store E ie z = (r, c') \<Longrightarrow> \<forall>cache. safe_after cache z \<longrightarrow> safe_after cache c'" for z
    by (auto simp: safe_after_def validate_store_def Let_def callback_defs split: if_splits)
  have pm: "validate_pmksa E mem before after data z = Some z' \<Longrightarrow> a_pmksa (cx_au z) = a_pmksa (cx_au c) \<longrightarrow> safe_after (a_pmksa (cx_au c)) z'" for data z z'
    using validate_pmksa_safe[of E mem before after data z z'] assms(2,3) by (metis safe_after_def)
  obtain res data where p: "(if ie ! 0 = WLAN_EID_RSN then wpa_parse_wpa_ie_rsn ie else wpa_parse_wpa_ie_wpa ie) = (res, data)"
    by (cases "if ie ! 0 = WLAN_EID_RSN then wpa_parse_wpa_ie_rsn ie else wpa_parse_wpa_ie_wpa ie")
  have same: "safe_after (a_pmksa (cx_au c)) z" if "a_pmksa (cx_au z) = a_pmksa (cx_au c)" "sm_pmksa (cx_sm z) = sm_pmksa (cx_sm c)" for z
    using assms(2) that by (simp add: safe_after_def)
  show ?thesis
    using assms(1,2) unfolding validate_body_def Let_def p prod.case
    by (auto split: if_splits simp: sel intro: same dest!: pm st)
qed

lemma validate_safe:
  assumes "pmksa_safe w" "resting w" "wpa_validate_wpa_ie E mem before after i ie w = Some (r, w')" "fresh_mem (a_pmksa (w_au w)) mem"
  shows "pmksa_safe w'"
proof (cases "i \<in> set (w_list w)")
  case True
  have "pmksa_safe (save i c w)" if "validate_body E mem before after x (load i w) = Some (r, c)" for x c
  proof -
    have "safe_after (a_pmksa (w_au w)) (load i w)" using assms(1) True by (simp add: pmksa_safe_def safe_after_def)
    then have "safe_after (a_pmksa (w_au w)) c" using validate_body_safe[OF that] assms(4) by simp
    then show ?thesis using assms(1) unfolding pmksa_safe_def safe_after_def by (auto simp del: domIff simp: subset_iff)
  qed
  then show ?thesis using assms(1,3) by (auto simp: wpa_validate_wpa_ie_def split: if_splits option.splits)
next
  case False
  then show ?thesis using assms good_dest(6)[of w i] by (simp add: wpa_validate_wpa_ie_def resting_def)
qed

lemma cache_input_safe:
  assumes "pmksa_safe w" "resting w" "cache_input inp" "fresh_input inp w" "wpa_step E n inp w = Some w'"
  shows "pmksa_safe w'"
proof -
  have wf: "pmksa_wf (a_pmksa (w_au w))" using assms(1) by (simp add: pmksa_safe_def)
  have add: "pmksa_safe (set_cache (snd (pmksa_cache_auth_add f mem now (a_pmksa (w_au w)) pmk aa spa st eapol akmp)) w)"
    if "fresh_mem (a_pmksa (w_au w)) mem" for f mem now pmk aa spa st akmp and eapol :: "('e eapol_state_machine \<times> int) option"
    by (rule set_cache_safe[OF assms(1) released_add auth_add_wf[OF wf that]])
  have clear: "pmksa_safe (set_sta i (\<lambda>s. s\<lparr>sm_pmksa := None\<rparr>) w)" for i using assms(1) by (simp add: pmksa_safe_def)
  show ?thesis
    using assms(3-5) assms(1) add clear validate_safe[OF assms(1,2)] set_cache_safe[OF assms(1) released_expire expire_wf[OF wf]]
    by (cases inp) (auto simp: cache_input_def wpa_auth_pmksa_add_def wpa_auth_pmksa_add_preauth_def pmksa_expire_timeout_def
      wpa_auth_sta_clear_pmksa_def split: option.splits if_splits)
qed

lemma pmksa_safe_stations:
  assumes "pmksa_safe w" "w_au w' = w_au w"
    "\<And>j. j \<in> set (w_list w') \<Longrightarrow> j \<in> set (w_list w) \<and> sta w' j = sta w j \<or> sm_pmksa (sta w' j) = None"
  shows "pmksa_safe w'"
  using assms unfolding pmksa_safe_def by (metis option.distinct(1))

lemma pmksa_safe_step:
  assumes "pmksa_safe w" "resting w" "fresh_input inp w" "wpa_step E (wpa_fuel w) inp w = Some w'"
  shows "pmksa_safe w'"
proof -
  have same: "pmksa_safe w'" if "same_pmksa w w'" using that assms(1) by (simp add: pmksa_safe_def same_pmksa_def)
  show ?thesis
  proof (cases inp rule: input_cases)
    case (new m da)
    have "w_au (wpa_auth_sta_init m da w) = w_au w" by (simp add: wpa_auth_sta_init_def split: option.split)
    moreover have "sm_pmksa (fresh_sm da) = None" by (simp add: fresh_sm_def)
    ultimately show ?thesis using new assms(4) init_station[OF assms(2), of _ m da]
      by (intro pmksa_safe_stations[OF assms(1)]) (simp_all, metis)
  next
    case (gone i)
    have "w_au (wpa_auth_sta_deinit i w) = w_au w"
      by (simp add: wpa_auth_sta_deinit_def wpa_free_sta_sm_def Let_def split: option.split)
    then show ?thesis using gone assms(4) deinit_station[OF assms(2), of _ i] by (intro pmksa_safe_stations[OF assms(1)]) auto
  next
    case (assoc i)
    then show ?thesis using same[OF pointers_assoc.assoc_step[OF assms(2) order_refl disjI2[OF assoc] assms(4)]] by blast
  next
    case (rx i data)
    then show ?thesis using same[OF pointers_rx.rx_step[OF assms(2) order_refl disjI2[OF rx] assms(4)]] by blast
  next
    case other
    then show ?thesis
      using same[OF pointers.plain_step[OF assms(2) order_refl _ assms(4)]] cache_input_safe[OF assms(1,2) _ assms(3,4)] by blast
  qed
qed

lemma pmksa_safe_run: "wpa_run inps w = Some w' \<Longrightarrow> resting w \<Longrightarrow> pmksa_safe w \<Longrightarrow> fresh_run inps w \<Longrightarrow> pmksa_safe w'"
proof (induction inps arbitrary: w)
  case (Cons x inps)
  obtain E inp where x: "x = (E, inp)" by (cases x)
  obtain w1 where w1: "wpa_step E (wpa_fuel w) inp w = Some w1" "wpa_run inps w1 = Some w'"
    using Cons.prems(1) by (auto simp: x bind_eq_Some_conv)
  have f: "fresh_input inp w" "fresh_run inps w1" using Cons.prems(4) w1(1) by (simp_all add: x)
  show ?case
    using Cons.IH[OF w1(2) _ pmksa_safe_step[OF Cons.prems(3,2) f(1) w1(1)] f(2)] wpa_step_resting[OF Cons.prems(2) order_refl w1(1)] by blast
qed simp

text \<open>C14. No station points to a freed entry of the PMKSA cache. Whatever the inputs (stations that come and
  go, master keys added after authentication and pre-authentication, entries that expire or are replaced,
  opportunistic key caching), if the allocator gives a new entry an address that is not in use, then in every
  reachable state the cache is consistent and the entry that a station points to is in the cache.\<close>

theorem wpa_pmksa_not_dangling:
  assumes "wpa_init E0 ok da wconf = Some w0" "wpa_run inps w0 = Some w" "fresh_run inps w0"
  shows "pmksa_wf (a_pmksa (w_au w)) \<and>
    (\<forall>i \<in> set (w_list w). \<forall>e. sm_pmksa (sta w i) = Some e \<longrightarrow> e \<in> set (pmksa (a_pmksa (w_au w))) \<and> heap (a_pmksa (w_au w)) e \<noteq> None)"
proof -
  have "pmksa_safe w0"
    using assms(1) init_wf
    by (auto simp: pmksa_safe_def wpa_init_def pmksa_cache_auth_init_def pmksa_wf_def Let_def split: if_splits option.splits prod.splits)
  then have "pmksa_safe w" using pmksa_safe_run[OF assms(2) _ _ assms(3)] resting_init[OF assms(1)] by blast
  then show ?thesis using pmksa_wfD(2)[of "a_pmksa (w_au w)"] by (auto simp: pmksa_safe_def domIff)
qed

text \<open>A master key is cached for a station, which then presents its identifier; the entry expires.\<close>

definition ex_ie_pmkid :: bytes where
  "ex_ie_pmkid = [0x30, 38, 1, 0, 0, 0x0f, 0xac, 4, 1, 0, 0, 0x0f, 0xac, 4, 1, 0, 0, 0x0f, 0xac, 2, 0, 0, 1, 0] @ replicate 16 9"

definition ex_pmksa_inputs :: "(wpa_env \<times> unit wpa_input) list" where
  "ex_pmksa_inputs = [(ex_env, In_sta_init (Some 0) [2, 0, 0, 0, 0, 1]), (ex_env, In_validate ex_mem [] [] 0 (Some ex_ie)),
     (ex_env, In_pmksa_add \<lparr>m_entry = Some 5, m_identity = True, m_class = 0\<rparr> 100 0 (replicate 32 1) 0 None),
     (ex_env, In_validate ex_mem [] [] 0 (Some ex_ie_pmkid))]"

lemma ex_pmksa_eval:
  "map_option (\<lambda>w0. (fresh_run ex_pmksa_inputs w0, map_option (\<lambda>w. (w_list w, sm_pmksa (sta w 0))) (wpa_run ex_pmksa_inputs w0))) ex_start =
    Some (True, Some ([0], Some 5))"
  by code_simp

lemma wpa_pmksa_not_dangling_witness:
  "\<exists>w. wpa_run ex_pmksa_inputs (the ex_start) = Some w \<and> sm_pmksa (sta w 0) = Some 5 \<and> 5 \<in> set (pmksa (a_pmksa (w_au w))) \<and>
    heap (a_pmksa (w_au w)) 5 \<noteq> None"
proof -
  obtain s where s: "ex_start = Some s" using ex_run(1)[folded ex_start_def] by blast
  have e: "fresh_run ex_pmksa_inputs s" "map_option (\<lambda>w. (w_list w, sm_pmksa (sta w 0))) (wpa_run ex_pmksa_inputs s) = Some ([0], Some 5)"
    using ex_pmksa_eval unfolding s by (simp_all only: option.map option.inject prod.inject simp_thms)
  then obtain w where w: "wpa_run ex_pmksa_inputs s = Some w" "w_list w = [0]" "sm_pmksa (sta w 0) = Some 5" by auto
  have "wpa_init ex_env True [2, 0, 0, 0, 0, 2] ex_conf = Some s" using s unfolding ex_start_def .
  from wpa_pmksa_not_dangling[OF this w(1) e(1)] show ?thesis using w by (simp add: s)
qed

end
