(* ===== verification/Wpa_Auth_Frames.thy ===== *)
theory Wpa_Auth_Frames
  imports Wpa_Auth_Example
begin

unbundle bit_operations_syntax

text \<open>
  The EAPOL-Key frames that the authenticator sends, read back with the accessors a receiver uses: the
  fields are where they should be and the MIC verifies. And the first frame of a renewed handshake.
\<close>

section \<open>Fields of a frame\<close>

definition frame_parts_ok :: "bytes \<Rightarrow> bytes \<Rightarrow> bytes \<Rightarrow> bytes \<Rightarrow> bool" where
  "frame_parts_ok counter nonce iv rsc \<longleftrightarrow> length counter = 8 \<and> length nonce = 32 \<and> length iv = 16 \<and> length rsc = 8"

lemma frame_length:
  "frame_parts_ok counter nonce iv rsc \<Longrightarrow> length (eapol_key_frame version type info key_len counter nonce iv rsc data) = 99 + length data"
  by (simp add: eapol_key_frame_def frame_parts_ok_def)

lemma key_frame_fields:
  assumes "frame_parts_ok counter nonce iv rsc" "frame = eapol_key_frame version type info key_len counter nonce iv rsc data"
  shows "key_type frame = type" "key_info_of frame = info" "key_replay_counter frame = counter" "key_nonce frame = nonce"
    "key_mic frame = replicate 16 0" "length data < 2 ^ 16 \<Longrightarrow> key_data_length frame = length data"
    "length data < 2 ^ 16 \<Longrightarrow> key_data frame = data"
proof -
  have *: "frame = ([version, 3] @ WPA_PUT_BE16 (of_nat (95 + length data))) @ [type] @ WPA_PUT_BE16 info @ WPA_PUT_BE16 key_len @ counter @ nonce @ iv @ rsc @ replicate 8 0 @
     replicate 16 0 @ WPA_PUT_BE16 (of_nat (length data)) @ data" by (simp add: assms(2) eapol_key_frame_def)
  note l = assms(1)[unfolded frame_parts_ok_def]
  show "key_type frame = type" "key_info_of frame = info" "key_replay_counter frame = counter" "key_nonce frame = nonce"
    "key_mic frame = replicate 16 0"
    using l by (simp_all add: * key_type_def key_info_of_def key_replay_counter_def key_nonce_def key_mic_def nth_append)
  assume d: "length data < 2 ^ 16"
  have "key_data_length frame = unat (of_nat (length data) :: 16 word)"
    using l by (simp add: * key_data_length_def)
  then show "key_data_length frame = length data" using d by (simp add: unat_of_nat)
  then show "key_data frame = data" using l by (simp add: key_data_def *)
qed

text \<open>The frame with a MIC put in.\<close>

lemma mic_frame_fields:
  assumes "frame_parts_ok counter nonce iv rsc" "frame = eapol_key_frame version type info key_len counter nonce iv rsc data" "length mic = 16"
  shows "key_type (memput frame 81 mic) = type" "key_info_of (memput frame 81 mic) = info"
    "key_replay_counter (memput frame 81 mic) = counter" "key_nonce (memput frame 81 mic) = nonce" "key_mic (memput frame 81 mic) = mic"
    "memput (memput frame 81 mic) 81 (replicate 16 0) = frame"
    "length data < 2 ^ 16 \<Longrightarrow> key_data_length (memput frame 81 mic) = length data \<and> key_data (memput frame 81 mic) = data"
    "length (memput frame 81 mic) = 99 + length data"
proof -
  let ?front = "[version, 3] @ WPA_PUT_BE16 (of_nat (95 + length data)) @ [type] @ WPA_PUT_BE16 info @ WPA_PUT_BE16 key_len @ counter @ nonce @ iv @ rsc @ replicate 8 0"
  let ?rest = "WPA_PUT_BE16 (of_nat (length data)) @ data"
  note l = assms(1)[unfolded frame_parts_ok_def]
  have f: "frame = ?front @ replicate 16 0 @ ?rest" by (simp add: assms(2) eapol_key_frame_def)
  have n: "length ?front = 81" using l by simp
  have m: "memput (?front @ x @ ?rest) 81 y = ?front @ y @ ?rest" if "length x = 16" "length y = 16" for x y :: bytes
    using n that by (simp add: memput_def del: append_assoc add: append_assoc[symmetric])
  show "memput (memput frame 81 mic) 81 (replicate 16 0) = frame" using m assms(3) by (simp only: f length_replicate)
  have g: "memput frame 81 mic = ?front @ mic @ ?rest" using m assms(3) by (simp only: f length_replicate)
  show "length (memput frame 81 mic) = 99 + length data" unfolding g using l assms(3) by simp
  show "key_type (memput frame 81 mic) = type" "key_info_of (memput frame 81 mic) = info"
    "key_replay_counter (memput frame 81 mic) = counter" "key_nonce (memput frame 81 mic) = nonce" "key_mic (memput frame 81 mic) = mic"
    unfolding g using l assms(3)
    by (simp_all add: key_type_def key_info_of_def key_replay_counter_def key_nonce_def key_mic_def nth_append)
  assume d: "length data < 2 ^ 16"
  have "key_data_length (memput frame 81 mic) = unat (of_nat (length data) :: 16 word)"
    unfolding g using l assms(3) by (simp add: key_data_length_def)
  then have k: "key_data_length (memput frame 81 mic) = length data" using d by (simp add: unat_of_nat)
  moreover have "key_data (memput frame 81 mic) = data" unfolding key_data_def k unfolding g using l assms(3) by simp
  ultimately show "key_data_length (memput frame 81 mic) = length data \<and> key_data (memput frame 81 mic) = data" by blast
qed

section \<open>Frames sent\<close>

text \<open>What is required of the primitives: they answer, and with results of the documented length.\<close>

definition primitives_ok :: "wpa_env \<Rightarrow> bool" where
  "primitives_ok E \<longleftrightarrow> (\<forall>tr. E_malloc E tr) \<and> (\<forall>key d. \<exists>h. E_hmac_md5 E key d = Some h \<and> length h = 16) \<and>
     (\<forall>key d. \<exists>h. E_hmac_sha1 E key d = Some h \<and> length h = 20) \<and>
     (\<forall>key d. length d mod 8 = 0 \<longrightarrow> (\<exists>c. E_aes_wrap E key d = Some c \<and> length c = length d + 8)) \<and>
     (\<forall>key skip d. length (E_rc4_skip E key skip d) = length d)"

text \<open>The key descriptor version of a station.\<close>

definition desc_version :: "wpa_state_machine \<Rightarrow> u16" where
  "desc_version s = (if sm_pairwise s = WPA_CIPHER_CCMP then WPA_KEY_INFO_TYPE_HMAC_SHA1_AES else WPA_KEY_INFO_TYPE_HMAC_MD5_RC4)"

lemma mic_exists:
  assumes "primitives_ok E"
  obtains mic where "wpa_eapol_key_mic (E_hmac_md5 E) (E_hmac_sha1 E) key (desc_version s) buf = Some mic" "length mic = 16"
proof -
  obtain h where h: "E_hmac_md5 E key buf = Some h" "length h = 16" using assms unfolding primitives_ok_def by blast
  obtain k where k: "E_hmac_sha1 E key buf = Some k" "length k = 20" using assms unfolding primitives_ok_def by blast
  show thesis
    using that[of h] that[of "take 16 k"] h k
    by (cases "sm_pairwise s = WPA_CIPHER_CCMP")
      (simp_all add: desc_version_def wpa_eapol_key_mic_def WPA_KEY_INFO_TYPE_HMAC_SHA1_AES_def WPA_KEY_INFO_TYPE_HMAC_MD5_RC4_def)
qed

lemma wrap_ok: "primitives_ok E \<Longrightarrow> length d mod 8 = 0 \<Longrightarrow> \<exists>c. E_aes_wrap E key d = Some c \<and> length c = length d + 8"
  by (simp add: primitives_ok_def)

lemma protect_ok:
  assumes "primitives_ok E" "length (g_Counter (cx_gr c)) = 32"
  obtains data iv c' where "protect_key_data E v kde c = (Some (data, iv), c')" "length iv = 16" "length data \<le> length kde + 16" "cx_sm c' = cx_sm c"
    "cx_au c' = cx_au c"
proof (cases "v = WPA_KEY_INFO_TYPE_HMAC_SHA1_AES")
  case True
  define pad where "pad = (if length kde mod 8 = 0 then 0 else 8 - length kde mod 8)"
  define buf where "buf = kde @ (if pad = 0 then [] else 0xdd # replicate (pad - 1) 0)"
  have "(n + (if n mod 8 = 0 then 0 else 8 - n mod 8)) mod 8 = 0" for n :: nat by presburger
  moreover have len: "length buf = length kde + pad" by (simp add: buf_def)
  ultimately have "length buf mod 8 = 0" by (simp only: pad_def)
  from wrap_ok[OF assms(1) this] obtain d where d: "E_aes_wrap E (kek (sm_PTK (cx_sm c))) buf = Some d" "length d = length buf + 8" by blast
  have "pad \<le> 8" by (simp add: pad_def)
  then have "length d \<le> length kde + 16" using d(2) len by simp
  moreover have "protect_key_data E v kde c = (Some (d, replicate 16 0), act A_malloc c)"
    using d(1) assms(1) True
    by (simp only: protect_key_data_def callback_defs Let_def prod.case pad_def[symmetric] buf_def[symmetric] if_True)
      (simp add: primitives_ok_def)
  ultimately show thesis using that[of d "replicate 16 0" "act A_malloc c"] by simp
next
  case False
  then show thesis
    using that[of "E_rc4_skip E (drop 16 (g_Counter (cx_gr c)) @ kek (sm_PTK (cx_sm c))) 256 kde"
      "drop 16 (g_Counter (cx_gr c))" "upd_g (\<lambda>g. g\<lparr>g_Counter := inc_byte_array (g_Counter g)\<rparr>) (act A_malloc c)"] assms
    by (simp add: protect_key_data_def callback_defs Let_def primitives_ok_def)
qed

lemma info_has_or: "info_has (a OR b) f \<longleftrightarrow> info_has a f \<or> info_has b f"
  by (simp add: info_has_def bit.conj_disj_distrib2 or_eq_0_iff)

lemma low_bits: "(push_bit 4 x :: u16) AND WPA_KEY_INFO_TYPE_MASK = 0"
proof -
  have m: "WPA_KEY_INFO_TYPE_MASK = mask 3" by (simp add: WPA_KEY_INFO_TYPE_MASK_def mask_eq_exp_minus_1)
  show ?thesis unfolding m by (auto intro!: bit_word_eqI simp: bit_simps)
qed

lemma sent_version:
  assumes "ki AND WPA_KEY_INFO_TYPE_MASK = 0"
  shows "(ki OR desc_version s) AND WPA_KEY_INFO_TYPE_MASK = desc_version s"
    "((ki OR desc_version s) OR WPA_KEY_INFO_ENCR_KEY_DATA) AND WPA_KEY_INFO_TYPE_MASK = desc_version s"
    "((ki OR desc_version s) OR push_bit 4 k) AND WPA_KEY_INFO_TYPE_MASK = desc_version s"
proof -
  have v: "desc_version s AND WPA_KEY_INFO_TYPE_MASK = desc_version s"
    by (simp add: desc_version_def WPA_KEY_INFO_TYPE_HMAC_SHA1_AES_def WPA_KEY_INFO_TYPE_HMAC_MD5_RC4_def WPA_KEY_INFO_TYPE_MASK_def)
  have e: "WPA_KEY_INFO_ENCR_KEY_DATA AND WPA_KEY_INFO_TYPE_MASK = 0"
    by (simp add: WPA_KEY_INFO_ENCR_KEY_DATA_def WPA_KEY_INFO_TYPE_MASK_def)
  show "(ki OR desc_version s) AND WPA_KEY_INFO_TYPE_MASK = desc_version s"
    "((ki OR desc_version s) OR WPA_KEY_INFO_ENCR_KEY_DATA) AND WPA_KEY_INFO_TYPE_MASK = desc_version s"
    "((ki OR desc_version s) OR push_bit 4 k) AND WPA_KEY_INFO_TYPE_MASK = desc_version s"
    by (simp_all add: bit.conj_disj_distrib2 v e low_bits assms)
qed


definition ex_ctx :: wpa_ctx where
  "ex_ctx = \<lparr>cx_sm = (fresh_sm [2, 0, 0, 0, 0, 1])\<lparr>sm_PTK_valid := True, sm_wpa := WPA_VERSION_WPA2, sm_pairwise := WPA_CIPHER_CCMP\<rparr>,
     cx_gr = zero_group 0, cx_au = \<lparr>a_conf = ex_conf, a_addr = [2, 0, 0, 0, 0, 2], a_wpa_ie = [], a_pmksa = the (pmksa_cache_auth_init True),
       a_RemoteMICFailures = 0, a_AuthenticationSuiteSelected = 0, a_PairwiseCipherSelected = 0, a_GroupCipherSelected = 0,
       a_PMKIDUsed = replicate 16 0, a_CounterMeasuresInvoked = 0, a_4WayHandshakeFailures = 0\<rparr>, cx_tr = []\<rparr>"

lemma ex_primitives: "primitives_ok ex_env"
  by (simp add: primitives_ok_def ex_env_def)

lemma ex_ctx_sm: "sm_key_replay (cx_sm ex_ctx) = replicate 4 \<lparr>rs_counter = replicate 8 0, rs_valid = False\<rparr>" "sm_PTK_valid (cx_sm ex_ctx)"
  "sm_addr (cx_sm ex_ctx) = [2, 0, 0, 0, 0, 1]" "length (g_Counter (cx_gr ex_ctx)) = 32" "sm_ptk_state (cx_sm ex_ctx) = WPA_PTK_INITIALIZE"
  "sm_PTK (cx_sm ex_ctx) = zero_ptk"
  by (simp_all add: ex_ctx_def fresh_sm_def zero_group_def RSNA_MAX_EAPOL_RETRIES_def)


section \<open>Renewing the pairwise key\<close>

text \<open>C16. A renewal of the pairwise key. The request takes the machine to PTKSTART whatever its state: the
  nonce of the authenticator stays the one of the last handshake, and the retry counter goes on from its
  last value. If the last handshake used up its retransmissions of message 3/4, no frame is sent and the
  next step disconnects the station.\<close>

theorem ptk_rekey_start:
  assumes "\<not> sm_Init (cx_sm c)" "\<not> sm_Disconnect (cx_sm c)" "\<not> sm_DeauthenticationRequest (cx_sm c)" "\<not> sm_AuthenticationRequest (cx_sm c)"
    "\<not> sm_ReAuthenticationRequest (cx_sm c)" "sm_PTKRequest (cx_sm c)"
  shows "sm_ptk_state (cx_sm (sm_WPA_PTK_Step E c)) = WPA_PTK_PTKSTART \<and> sm_ANonce (cx_sm (sm_WPA_PTK_Step E c)) = sm_ANonce (cx_sm c) \<and>
    sm_TimeoutCtr (cx_sm (sm_WPA_PTK_Step E c)) = sm_TimeoutCtr (cx_sm c) + 1 \<and>
    (sm_TimeoutCtr (cx_sm c) \<ge> 4 \<longrightarrow> cx_tr (sm_WPA_PTK_Step E c) = cx_tr c \<and>
      (\<not> pairwise_reply (cx_sm c) \<longrightarrow>
        sm_ptk_state (cx_sm (sm_WPA_PTK_Step E (sm_WPA_PTK_Step E c))) = WPA_PTK_DISCONNECT \<and>
        cx_tr (sm_WPA_PTK_Step E (sm_WPA_PTK_Step E c)) = cx_tr c @ [A_disconnect (sm_addr (cx_sm c))]))"
proof -
  have s: "sm_WPA_PTK_Step E c = sm_WPA_PTK_PTKSTART E c" using assms by (simp add: sm_WPA_PTK_Step_def Let_def)
  note a = PTKSTART_after(1)[of E c]
  have f: "cx_tr (sm_WPA_PTK_PTKSTART E c) = cx_tr c" if "sm_TimeoutCtr (cx_sm c) \<ge> 4"
    using that by (simp add: sm_WPA_PTK_PTKSTART_def ptk_entry_def Let_def dot11RSNAConfigPairwiseUpdateCount_def)
  have d: "sm_WPA_PTK_Step E (sm_WPA_PTK_PTKSTART E c) = sm_WPA_PTK_DISCONNECT (count_4way_failure (sm_WPA_PTK_PTKSTART E c))"
    if "sm_TimeoutCtr (cx_sm c) \<ge> 4" "\<not> pairwise_reply (cx_sm c)"
    unfolding sm_WPA_PTK_Step_def[of E "sm_WPA_PTK_PTKSTART E c"] Let_def
    using that assms by (auto simp: a pairwise_reply_def dot11RSNAConfigPairwiseUpdateCount_def)
  show ?thesis
    unfolding s using f d
    by (auto simp: a DISCONNECT_after(1)) (simp add: sm_WPA_PTK_DISCONNECT_def wpa_sta_disconnect_def ptk_entry_def a)
qed

lemma ptk_rekey_start_witness:
  "cx_tr (sm_WPA_PTK_Step ex_env (sm_WPA_PTK_Step ex_env (upd_s (\<lambda>s. s\<lparr>sm_PTKRequest := True, sm_TimeoutCtr := 4\<rparr>) ex_ctx))) = [A_disconnect [2, 0, 0, 0, 0, 1]]"
proof -
  let ?c = "upd_s (\<lambda>s. s\<lparr>sm_PTKRequest := True, sm_TimeoutCtr := 4\<rparr>) ex_ctx"
  have "\<not> sm_Init (cx_sm ?c)" "\<not> sm_Disconnect (cx_sm ?c)" "\<not> sm_DeauthenticationRequest (cx_sm ?c)" "\<not> sm_AuthenticationRequest (cx_sm ?c)"
    "\<not> sm_ReAuthenticationRequest (cx_sm ?c)" "sm_PTKRequest (cx_sm ?c)" "sm_TimeoutCtr (cx_sm ?c) \<ge> 4" "\<not> pairwise_reply (cx_sm ?c)" "cx_tr ?c = []"
    by (simp_all add: ex_ctx_def fresh_sm_def pairwise_reply_def)
  with ptk_rekey_start[of ?c ex_env] show ?thesis by (simp add: ex_ctx_sm)
qed

end
