(* ===== verification/Hash_Stream.thy ===== *)
theory Hash_Stream
  imports Byte_Utils
begin

unbundle bit_operations_syntax

text \<open>
  What the hash functions under \<^verbatim>\<open>src/athr-hostap/src/crypto\<close> have in common: a compression function
  over blocks of 64 bytes, a count of bits in two words, and a buffer for the bytes of an incomplete
  block. The locale \<open>stream_hash\<close> is the contract of an update routine; its client lemma says that
  hashing a vector of areas is hashing their concatenation.
\<close>

section \<open>Words in memory\<close>

text \<open>
  The word at index \<open>i\<close> of a byte area and the bytes of a word, as the machine reads and writes them;
  \<open>be\<close> is whether it is big-endian, the \<^verbatim>\<open>WORDS_BIGENDIAN\<close> of the sources.
\<close>

definition word_at :: "bool \<Rightarrow> bytes \<Rightarrow> nat \<Rightarrow> u32" where
  "word_at be b i = (if be then WPA_GET_BE32 (take 4 (drop (4 * i) b)) else WPA_GET_LE32 (take 4 (drop (4 * i) b)))"

definition put_word :: "bool \<Rightarrow> u32 \<Rightarrow> bytes" where
  "put_word be w = (if be then WPA_PUT_BE32 w else WPA_PUT_LE32 w)"

section \<open>Blocks\<close>

text \<open>The complete blocks of a message through the compression function, and the bytes left over.\<close>

function absorb :: "('s \<Rightarrow> bytes \<Rightarrow> 's) \<Rightarrow> 's \<Rightarrow> bytes \<Rightarrow> 's \<times> bytes" where
  "absorb f s m = (if length m < 64 then (s, m) else absorb f (f s (take 64 m)) (drop 64 m))"
  by pat_completeness auto

termination
  by (relation "measure (\<lambda>(f, s, m). length m)") auto

declare absorb.simps [simp del]

lemma absorb_short [simp]: "length m < 64 \<Longrightarrow> absorb f s m = (s, m)"
  by (simp add: absorb.simps)

lemma absorb_block: "64 \<le> length m \<Longrightarrow> absorb f s m = absorb f (f s (take 64 m)) (drop 64 m)"
  by (subst absorb.simps) simp

lemma absorb_append: "absorb f s (m @ d) = (case absorb f s m of (s', r) \<Rightarrow> absorb f s' (r @ d))"
proof (induction f s m rule: absorb.induct)
  case (1 f s m)
  show ?case
  proof (cases "length m < 64")
    case False
    then show ?thesis using 1 by (simp add: absorb_block[of m] absorb_block[of "m @ d"])
  qed simp
qed

lemma length_absorb: "length (snd (absorb f s m)) = length m mod 64"
proof (induction f s m rule: absorb.induct)
  case (1 f s m)
  show ?case
  proof (cases "length m < 64")
    case False
    then show ?thesis using 1 le_mod_geq[of 64 "length m"] by (simp add: absorb_block[of m])
  qed simp
qed

lemma absorb_full: "length m mod 64 = 0 \<Longrightarrow> absorb f s m = (fst (absorb f s m), [])"
  using length_absorb[of f s m] by (cases "absorb f s m") simp

section \<open>The count of bits\<close>

definition cval :: "u32 \<times> u32 \<Rightarrow> nat" where "cval c = unat (fst c) + 2 ^ 32 * unat (snd c)"

lemma cval_bound: "cval c < 2 ^ 64"
  using unsigned_less[of "fst c", where ?'a = nat] unsigned_less[of "snd c", where ?'a = nat] by (simp add: cval_def)

lemma cval_inj: "cval (lo, hi) = v \<Longrightarrow> lo = of_nat v \<and> hi = of_nat (v div 2 ^ 32)"
  using unsigned_less[of lo, where ?'a = nat] unsigned_less[of hi, where ?'a = nat] by (auto simp: cval_def word_unat_eq_iff unat_of_nat)

lemma unat_push3: "unat (push_bit 3 (l :: u32)) = 8 * unat l mod 2 ^ 32"
  by (simp add: push_bit_eq_mult unat_word_ariths mult.commute)

lemma unat_drop29: "unat (drop_bit 29 (l :: u32)) = unat l div 2 ^ 29"
  unfolding unat_drop_bit_eq by (simp add: drop_bit_eq_div)

lemma less_iff_carry: "a + b < (b :: u32) \<longleftrightarrow> 2 ^ 32 \<le> unat a + unat b"
proof -
  have "unat (a + b) = (unat a + unat b) mod 2 ^ 32" by (simp add: unat_word_ariths)
  moreover have "unat a < 2 ^ 32" "unat b < 2 ^ 32" using unsigned_less[of a, where ?'a = nat] unsigned_less[of b, where ?'a = nat] by simp_all
  ultimately show ?thesis unfolding word_less_nat_alt by (auto simp: mod_if)
qed

text \<open>Two words with a carry are one counter of 64 bits.\<close>

lemma count_add:
  fixes lo hi l :: u32
  shows "cval (lo + push_bit 3 l, hi + (if 2 ^ 32 \<le> unat lo + unat (push_bit 3 l) then 1 else 0) + drop_bit 29 l) =
    (cval (lo, hi) + 8 * unat l) mod 2 ^ 64"
proof -
  let ?x = "unat (push_bit 3 l)" and ?h = "unat (drop_bit 29 l)" and ?c = "if 2 ^ 32 \<le> unat lo + unat (push_bit 3 l) then 1 else 0 :: nat"
  have x: "8 * unat l = ?x + 2 ^ 32 * ?h"
    using div_mult_mod_eq[of "8 * unat l" "2 ^ 32"] by (simp add: unat_push3 unat_drop29 flip: div_mult2_eq)
  have lo: "unat (lo + push_bit 3 l) + 2 ^ 32 * ?c = unat lo + ?x"
    using unsigned_less[of lo, where ?'a = nat] unsigned_less[of "push_bit 3 l", where ?'a = nat] by (auto simp: unat_word_ariths mod_if)
  have hi: "unat (hi + (if 2 ^ 32 \<le> unat lo + ?x then 1 else 0) + drop_bit 29 l) = (unat hi + ?c + ?h) mod 2 ^ 32"
    by (auto simp: unat_word_ariths mod_simps)
  have m: "(a + 2 ^ 32 * b) mod 2 ^ 64 = a + 2 ^ 32 * (b mod 2 ^ 32)" if "a < 2 ^ 32" for a b :: nat
    using that mod_mult2_eq[of "a + 2 ^ 32 * b" "2 ^ 32" "2 ^ 32"] by simp
  have "cval (lo, hi) + 8 * unat l = unat (lo + push_bit 3 l) + 2 ^ 32 * (unat hi + ?c + ?h)"
    unfolding cval_def x using lo by (simp add: algebra_simps)
  moreover have "unat (lo + push_bit 3 l) < 2 ^ 32" using unsigned_less[of "lo + push_bit 3 l", where ?'a = nat] by simp
  ultimately have "(cval (lo, hi) + 8 * unat l) mod 2 ^ 64 = unat (lo + push_bit 3 l) + 2 ^ 32 * ((unat hi + ?c + ?h) mod 2 ^ 32)"
    by (simp only: m)
  then show ?thesis unfolding cval_def fst_conv snd_conv hi by simp
qed

lemma count_low: "unat lo div 8 mod 64 = cval (lo, hi) div 8 mod 64"
proof -
  have "cval (lo, hi) div 8 = unat lo div 8 + 2 ^ 29 * unat hi" by (simp add: cval_def)
  then show ?thesis by (simp flip: mod_add_right_eq)
qed

lemma buffered: "unat (drop_bit 3 lo AND 63) = cval (lo, hi) div 8 mod 64"
proof -
  have m: "(63 :: u32) = mask 6" by (simp add: mask_eq_exp_minus_1)
  have "unat (drop_bit 3 lo AND 63) = take_bit 6 (drop_bit 3 (unat lo))"
    unfolding m take_bit_eq_mask[symmetric] unsigned_take_bit_eq unat_drop_bit_eq by simp
  then show ?thesis using count_low[of lo hi] by (simp add: take_bit_eq_mod drop_bit_eq_div)
qed

section \<open>Padding\<close>

text \<open>The zeros that bring \<open>n\<close> bytes to 56 bytes in the last block.\<close>

definition zeros :: "nat \<Rightarrow> nat" where "zeros n = (if n mod 64 \<le> 56 then 56 - n mod 64 else 120 - n mod 64)"

lemma zeros_step: "n mod 64 \<noteq> 56 \<Longrightarrow> zeros n = Suc (zeros (Suc n))"
proof -
  have "(if x \<le> 56 then 56 - x else 120 - x) = Suc (if y \<le> 56 then 56 - y else 120 - y)"
    if "x < 64" "x \<noteq> 56" "y = (if x = 63 then 0 else x + 1)" for x y :: nat
    using that by (simp split: if_splits; linarith)
  from this[of "n mod 64" "Suc n mod 64"] show "n mod 64 \<noteq> 56 \<Longrightarrow> ?thesis" unfolding zeros_def by (simp add: mod_Suc)
qed

lemma zeros_end: "n mod 64 = 56 \<Longrightarrow> zeros n = 0"
  by (simp add: zeros_def)

lemma pad_blocks: "(n + zeros n) mod 64 = 56"
proof -
  have "(n + zeros n) mod 64 = (n mod 64 + zeros n) mod 64" by (simp add: mod_simps)
  moreover have "n mod 64 < 64" by simp
  ultimately show ?thesis unfolding zeros_def by (simp split: if_splits)
qed

section \<open>Interface: a context that is fed areas of memory\<close>

text \<open>
  \<open>st\<close>, \<open>cnt\<close> and \<open>buf\<close> read the chaining value, the count and the buffer of a context; \<open>lim\<close> bounds
  the length of one area.
\<close>

locale stream_hash =
  fixes compress :: "'s \<Rightarrow> bytes \<Rightarrow> 's" and st :: "'c \<Rightarrow> 's" and cnt :: "'c \<Rightarrow> u32 \<times> u32" and buf :: "'c \<Rightarrow> bytes"
    and update :: "'c \<Rightarrow> bytes \<Rightarrow> 'c" and lim :: nat
  assumes update_blocks: "length (buf c) = 64 \<Longrightarrow> length d < lim \<Longrightarrow> j = cval (cnt c) div 8 mod 64 \<Longrightarrow>
      absorb compress (st c) (take j (buf c) @ d) = (st (update c d), take ((j + length d) mod 64) (buf (update c d)))"
    and update_count: "length d < lim \<Longrightarrow> cval (cnt (update c d)) = (cval (cnt c) + 8 * length d) mod 2 ^ 64"
    and update_buf: "length (buf c) = 64 \<Longrightarrow> length d < lim \<Longrightarrow> length (buf (update c d)) = 64"
begin

text \<open>The context has read the message \<open>m\<close> from the chaining value \<open>s\<close>.\<close>

definition has_read :: "'s \<Rightarrow> 'c \<Rightarrow> bytes \<Rightarrow> bool" where
  "has_read s c m \<longleftrightarrow> absorb compress s m = (st c, take (length m mod 64) (buf c)) \<and> cval (cnt c) = 8 * length m mod 2 ^ 64 \<and> length (buf c) = 64"

lemma has_read_start: "st c = s \<Longrightarrow> cval (cnt c) = 0 \<Longrightarrow> length (buf c) = 64 \<Longrightarrow> has_read s c []"
  by (simp add: has_read_def)

lemma read_position: "has_read s c m \<Longrightarrow> cval (cnt c) div 8 mod 64 = length m mod 64"
proof -
  assume "has_read s c m"
  then have "cval (cnt c) = 8 * (length m mod 2 ^ 61)" by (simp add: has_read_def mult_mod_right)
  then show ?thesis using mod_mod_cancel[of 64 "2 ^ 61" "length m"] by simp
qed

lemma has_read_update:
  assumes r: "has_read s c m" and d: "length d < lim"
  shows "has_read s (update c d) (m @ d)"
proof -
  have b: "length (buf c) = 64" using r by (simp add: has_read_def)
  have "absorb compress s (m @ d) = absorb compress (st c) (take (length m mod 64) (buf c) @ d)"
    using r absorb_append[of compress s m d] by (simp add: has_read_def)
  also have "\<dots> = (st (update c d), take ((length m + length d) mod 64) (buf (update c d)))"
    using update_blocks[OF b d] read_position[OF r] by (simp add: mod_simps)
  finally show ?thesis
    using update_count[OF d, of c] update_buf[OF b d] r by (simp add: has_read_def mod_simps distrib_left)
qed

lemma has_read_vector:
  assumes "has_read s c m" and "\<forall>d\<in>set ds. length d < lim"
  shows "has_read s (fold (\<lambda>d c. update c d) ds c) (m @ concat ds)"
  using assms
proof (induction ds arbitrary: c m)
  case (Cons d ds)
  then show ?case using Cons.IH[of "update c d" "m @ d"] has_read_update[of s c m d] by simp
qed simp

end

end
