(* ===== verification/Sha1.thy ===== *)
theory Sha1
  imports Hash_Stream
begin

unbundle bit_operations_syntax

text \<open>
  SHA-1 and what is built on it: \<^verbatim>\<open>sha1-internal.c\<close> and \<^verbatim>\<open>sha1.c\<close> of \<^verbatim>\<open>src/athr-hostap/src/crypto\<close>. The
  argument \<open>be\<close> is whether \<^verbatim>\<open>WORDS_BIGENDIAN\<close> is defined, which decides how the union of the transform
  reads a word and whether \<^verbatim>\<open>blk0\<close> swaps its bytes. Lengths and offsets are natural numbers: an area of
  memory is shorter than \<open>2 ^ 32 - 64\<close>, so that none of the additions of the update wraps. The
  unrolled rounds are folds over the round numbers; where the source renames the five variables from
  one round to the next, the tuple is rotated. The overwriting of local variables at the end of a function
  is left out.
\<close>

section \<open>The transform\<close>

type_synonym sha1_state = "u32 \<times> u32 \<times> u32 \<times> u32 \<times> u32"

definition rol :: "u32 \<Rightarrow> nat \<Rightarrow> u32" where "rol v bits = push_bit bits v OR drop_bit (32 - bits) v"

definition blk0 :: "bool \<Rightarrow> nat \<Rightarrow> u32 list \<Rightarrow> u32 list" where
  "blk0 be i l = (if be then l else l[i := (rol (l ! i) 24 AND 0xFF00FF00) OR (rol (l ! i) 8 AND 0x00FF00FF)])"

definition blk :: "nat \<Rightarrow> u32 list \<Rightarrow> u32 list" where
  "blk i l = l[i mod 16 := rol (l ! ((i + 13) mod 16) XOR l ! ((i + 8) mod 16) XOR l ! ((i + 2) mod 16) XOR l ! (i mod 16)) 1]"

fun R0 :: "bool \<Rightarrow> nat \<Rightarrow> u32 list \<times> sha1_state \<Rightarrow> u32 list \<times> sha1_state" where
  "R0 be i (l, v, w, x, y, z) =
     (let l = blk0 be i l; z = z + (((w AND (x XOR y)) XOR y) + l ! i + 0x5A827999 + rol v 5); w = rol w 30 in (l, z, v, w, x, y))"

fun R1 :: "nat \<Rightarrow> u32 list \<times> sha1_state \<Rightarrow> u32 list \<times> sha1_state" where
  "R1 i (l, v, w, x, y, z) =
     (let l = blk i l; z = z + (((w AND (x XOR y)) XOR y) + l ! (i mod 16) + 0x5A827999 + rol v 5); w = rol w 30 in (l, z, v, w, x, y))"

fun R2 :: "nat \<Rightarrow> u32 list \<times> sha1_state \<Rightarrow> u32 list \<times> sha1_state" where
  "R2 i (l, v, w, x, y, z) =
     (let l = blk i l; z = z + ((w XOR x XOR y) + l ! (i mod 16) + 0x6ED9EBA1 + rol v 5); w = rol w 30 in (l, z, v, w, x, y))"

fun R3 :: "nat \<Rightarrow> u32 list \<times> sha1_state \<Rightarrow> u32 list \<times> sha1_state" where
  "R3 i (l, v, w, x, y, z) =
     (let l = blk i l; z = z + ((((w OR x) AND y) OR (w AND x)) + l ! (i mod 16) + 0x8F1BBCDC + rol v 5); w = rol w 30 in (l, z, v, w, x, y))"

fun R4 :: "nat \<Rightarrow> u32 list \<times> sha1_state \<Rightarrow> u32 list \<times> sha1_state" where
  "R4 i (l, v, w, x, y, z) =
     (let l = blk i l; z = z + ((w XOR x XOR y) + l ! (i mod 16) + 0xCA62C1D6 + rol v 5); w = rol w 30 in (l, z, v, w, x, y))"

fun add_state :: "sha1_state \<Rightarrow> sha1_state \<Rightarrow> sha1_state" where
  "add_state (s0, s1, s2, s3, s4) (a, b, c, d, e) = (s0 + a, s1 + b, s2 + c, s3 + d, s4 + e)"

definition SHA1Transform :: "bool \<Rightarrow> sha1_state \<Rightarrow> bytes \<Rightarrow> sha1_state" where
  "SHA1Transform be state buffer =
     (case fold R4 [60..<80] (fold R3 [40..<60] (fold R2 [20..<40] (fold R1 [16..<20] (fold (R0 be) [0..<16]
         (map (word_at be buffer) [0..<16], state))))) of
        (block, abcde) \<Rightarrow> add_state state abcde)"

section \<open>The context\<close>

record SHA1Context =
  sha_state :: sha1_state
  sha_count :: "u32 \<times> u32"
  sha_buffer :: bytes

text \<open>\<open>junk\<close> is what the uninitialised buffer of a new context holds.\<close>

definition SHA1Init :: "(nat \<Rightarrow> u8) \<Rightarrow> SHA1Context" where
  "SHA1Init junk = \<lparr>sha_state = (0x67452301, 0xEFCDAB89, 0x98BADCFE, 0x10325476, 0xC3D2E1F0), sha_count = (0, 0), sha_buffer = map junk [0..<64]\<rparr>"

text \<open>The loop \<^verbatim>\<open>for ( ; i + 63 < len; i += 64)\<close>.\<close>

function sha1_blocks :: "bool \<Rightarrow> bytes \<Rightarrow> nat \<Rightarrow> sha1_state \<Rightarrow> nat \<times> sha1_state" where
  "sha1_blocks be data i s =
     (if i + 63 < length data then sha1_blocks be data (i + 64) (SHA1Transform be s (take 64 (drop i data))) else (i, s))"
  by pat_completeness auto

termination
  by (relation "measure (\<lambda>(be, data, i, s). length data - i)") auto

declare sha1_blocks.simps [simp del]

definition SHA1Update :: "bool \<Rightarrow> SHA1Context \<Rightarrow> bytes \<Rightarrow> SHA1Context" where
  "SHA1Update be ctx data =
     (let len = of_nat (length data) :: u32; (c0, c1) = sha_count ctx;
          j = unat (drop_bit 3 c0 AND 63);
          c0 = c0 + push_bit 3 len;
          c1 = (if c0 < push_bit 3 len then c1 + 1 else c1);
          c1 = c1 + drop_bit 29 len;
          ctx = ctx\<lparr>sha_count := (c0, c1)\<rparr>
      in if 63 < j + length data then
           let i = 64 - j;
               buffer = memput (sha_buffer ctx) j (take i data);
               (i, state) = sha1_blocks be data i (SHA1Transform be (sha_state ctx) buffer)
           in ctx\<lparr>sha_state := state, sha_buffer := memput buffer 0 (drop i data)\<rparr>
         else ctx\<lparr>sha_buffer := memput (sha_buffer ctx) j data\<rparr>)"

text \<open>The loop of the padding: it ends because the count grows by a byte each time.\<close>

definition pad_left :: "u32 \<Rightarrow> nat" where
  "pad_left c0 = (let n = unat c0 div 8 mod 64 in if n \<le> 56 then 56 - n else 120 - n)"

lemma masked_count: "(c0 AND 504 \<noteq> 448) \<longleftrightarrow> unat c0 div 8 mod 64 \<noteq> 56" for c0 :: u32
proof -
  have m: "(504 :: u32) = push_bit 3 (mask 6)" "(448 :: u32) = push_bit 3 56" by code_simp+
  have "c0 AND 504 = push_bit 3 (take_bit 6 (drop_bit 3 c0))"
    unfolding m(1) by (rule bit_word_eqI) (auto simp: bit_simps)
  moreover have "push_bit 3 (take_bit 6 (drop_bit 3 c0)) = push_bit 3 56 \<longleftrightarrow> take_bit 6 (drop_bit 3 c0) = 56"
  proof
    assume "push_bit 3 (take_bit 6 (drop_bit 3 c0)) = push_bit 3 (56 :: u32)"
    then have "drop_bit 3 (push_bit 3 (take_bit 6 (drop_bit 3 c0))) = drop_bit 3 (push_bit 3 (56 :: u32))" by simp
    moreover have "drop_bit 3 (push_bit 3 (take_bit 6 (drop_bit 3 c0))) = take_bit 6 (drop_bit 3 c0)"
      by (rule bit_word_eqI) (auto simp: bit_simps)
    moreover have "drop_bit 3 (push_bit 3 (56 :: u32)) = 56" by code_simp
    ultimately show "take_bit 6 (drop_bit 3 c0) = 56" by simp
  qed simp
  moreover have "unat (take_bit 6 (drop_bit 3 c0)) = unat c0 div 8 mod 64"
    unfolding unsigned_take_bit_eq unat_drop_bit_eq by (simp add: take_bit_eq_mod drop_bit_eq_div)
  ultimately show ?thesis unfolding m(2) by (simp add: word_unat_eq_iff)
qed

lemma pad_left_step: "c0 AND 504 \<noteq> 448 \<Longrightarrow> pad_left (c0 + 8) < pad_left c0"
proof -
  assume "c0 AND 504 \<noteq> 448"
  then have n: "unat c0 div 8 mod 64 \<noteq> 56" using masked_count[of c0] by blast
  have "unat (c0 + 8) div 8 mod 64 = (unat c0 div 8 + 1) mod 64"
  proof -
    have "unat (c0 + 8) = 8 * ((unat c0 + 8) div 8 mod 2 ^ 29) + (unat c0 + 8) mod 8"
      using mod_mult2_eq[of "unat c0 + 8" 8 "2 ^ 29"] by (simp add: unat_word_ariths)
    moreover have "(unat c0 + 8) div 8 = unat c0 div 8 + 1" by simp
    ultimately have "unat (c0 + 8) div 8 = (unat c0 div 8 + 1) mod 2 ^ 29" by simp
    then show ?thesis using mod_mod_cancel[of 64 "2 ^ 29" "unat c0 div 8 + 1"] by simp
  qed
  moreover have "(x + 1) mod 64 = (if x mod 64 = 63 then 0 else x mod 64 + 1)" for x :: nat by (simp add: mod_Suc)
  ultimately have "unat (c0 + 8) div 8 mod 64 = (if unat c0 div 8 mod 64 = 63 then 0 else unat c0 div 8 mod 64 + 1)" by simp
  moreover have "(if y \<le> 56 then 56 - y else 120 - y) < (if x \<le> 56 then 56 - x else 120 - x)"
    if "x < 64" "x \<noteq> 56" "y = (if x = 63 then 0 else x + 1)" for x y :: nat
    using that by (simp split: if_splits; linarith)
  ultimately show ?thesis using n unfolding pad_left_def Let_def by simp
qed

lemma count_update_byte: "fst (sha_count (SHA1Update be ctx [b])) = fst (sha_count ctx) + 8"
  by (simp add: SHA1Update_def Let_def split: prod.split)

function sha1_pad :: "bool \<Rightarrow> SHA1Context \<Rightarrow> SHA1Context" where
  "sha1_pad be ctx = (if fst (sha_count ctx) AND 504 \<noteq> 448 then sha1_pad be (SHA1Update be ctx [0]) else ctx)"
  by pat_completeness auto

termination
  by (relation "measure (\<lambda>(be, ctx). pad_left (fst (sha_count ctx)))") (auto simp: count_update_byte pad_left_step)

declare sha1_pad.simps [simp del]

definition SHA1Final :: "bool \<Rightarrow> SHA1Context \<Rightarrow> bytes \<times> SHA1Context" where
  "SHA1Final be ctx =
     (let (c0, c1) = sha_count ctx;
          finalcount = map (\<lambda>i. ucast (drop_bit ((3 - i mod 4) * 8) (if 4 \<le> i then c0 else c1) AND 255)) [0..<8];
          ctx = SHA1Update be ctx [0x80];
          ctx = sha1_pad be ctx;
          ctx = SHA1Update be ctx finalcount;
          (s0, s1, s2, s3, s4) = sha_state ctx;
          digest = map (\<lambda>i. ucast (drop_bit ((3 - i mod 4) * 8) ([s0, s1, s2, s3, s4] ! (i div 4)) AND 255)) [0..<20]
      in (digest, ctx\<lparr>sha_buffer := replicate 64 0, sha_state := (0, 0, 0, 0, 0), sha_count := (0, 0)\<rparr>))"

definition sha1_vector :: "bool \<Rightarrow> (nat \<Rightarrow> u8) \<Rightarrow> bytes list \<Rightarrow> int \<times> bytes" where
  "sha1_vector be junk elems = (0, fst (SHA1Final be (fold (\<lambda>d ctx. SHA1Update be ctx d) elems (SHA1Init junk))))"

end
