(* ===== verification/Sha1_Props.thy ===== *)
theory Sha1_Props
  imports Sha1
begin

unbundle bit_operations_syntax

text \<open>
  The SHA-1 of \<open>Sha1\<close> against the standard: the transform is the compression function of FIPS 180, the
  context is a stream in the sense of \<open>stream_hash\<close>, and the hash of a vector is the hash of the
  padded concatenation, on either byte order.
\<close>

section \<open>The compression function of FIPS 180\<close>

definition Ch :: "u32 \<Rightarrow> u32 \<Rightarrow> u32 \<Rightarrow> u32" where "Ch x y z = (x AND y) XOR (NOT x AND z)"
definition Parity :: "u32 \<Rightarrow> u32 \<Rightarrow> u32 \<Rightarrow> u32" where "Parity x y z = x XOR y XOR z"
definition Maj :: "u32 \<Rightarrow> u32 \<Rightarrow> u32 \<Rightarrow> u32" where "Maj x y z = (x AND y) XOR (x AND z) XOR (y AND z)"

definition fips_f :: "nat \<Rightarrow> u32 \<Rightarrow> u32 \<Rightarrow> u32 \<Rightarrow> u32" where
  "fips_f t = (if t < 20 then Ch else if t < 40 then Parity else if t < 60 then Maj else Parity)"

definition fips_K :: "nat \<Rightarrow> u32" where
  "fips_K t = (if t < 20 then 0x5a827999 else if t < 40 then 0x6ed9eba1 else if t < 60 then 0x8f1bbcdc else 0xca62c1d6)"

text \<open>The message schedule.\<close>

function fips_W :: "bytes \<Rightarrow> nat \<Rightarrow> u32" where
  "fips_W m t =
     (if t < 16 then WPA_GET_BE32 (take 4 (drop (4 * t) m))
      else rol (fips_W m (t - 3) XOR fips_W m (t - 8) XOR fips_W m (t - 14) XOR fips_W m (t - 16)) 1)"
  by pat_completeness auto

termination
  by (relation "measure (\<lambda>(m, t). t)") auto

declare fips_W.simps [simp del]

fun fips_round :: "bytes \<Rightarrow> nat \<Rightarrow> sha1_state \<Rightarrow> sha1_state" where
  "fips_round m t (a, b, c, d, e) = (rol a 5 + fips_f t b c d + e + fips_K t + fips_W m t, a, rol b 30, c, d)"

definition fips_compress :: "sha1_state \<Rightarrow> bytes \<Rightarrow> sha1_state" where
  "fips_compress H m = add_state H (fold (fips_round m) [0..<80] H)"

section \<open>The transform\<close>

text \<open>Before round \<open>t\<close>, the sixteen words of the block are the last ones of the schedule and words not yet read.\<close>

definition window :: "bool \<Rightarrow> bytes \<Rightarrow> nat \<Rightarrow> u32 list \<Rightarrow> bool" where
  "window be m t l \<longleftrightarrow> length l = 16 \<and> (\<forall>s. s < t \<and> t \<le> s + 16 \<longrightarrow> l ! (s mod 16) = fips_W m s) \<and>
     (\<forall>s. t \<le> s \<and> s < 16 \<longrightarrow> l ! s = word_at be m s)"

lemma window_start: "window be m 0 (map (word_at be m) [0..<16])"
  by (simp add: window_def)

lemma swapped: "rol (WPA_GET_LE32 b) 24 AND 0xFF00FF00 OR rol (WPA_GET_LE32 b) 8 AND 0x00FF00FF = WPA_GET_BE32 b"
proof -
  have m: "(0xFF00FF00 :: u32) = push_bit 24 (mask 8) OR push_bit 8 (mask 8)" "(0x00FF00FF :: u32) = push_bit 16 (mask 8) OR mask 8"
    by code_simp+
  have h: "\<not> bit x (16 + k)" "\<not> bit x (24 + k)" for x :: u8 and k using bit_u8_ge[of x "8 + k"] bit_u8_ge[of x "16 + k"] by simp_all
  show ?thesis unfolding m by (rule byte_wordI) (auto simp: rol_def byte_defs bit_simps bit_u8_ge h)
qed

lemma window_blk0:
  assumes w: "window be m t l" and t: "t < 16"
  shows "window be m (Suc t) (blk0 be t l)" "blk0 be t l ! t = fips_W m t"
proof -
  have l: "length l = 16" "l ! t = word_at be m t" using w t by (auto simp: window_def)
  show v: "blk0 be t l ! t = fips_W m t"
    using l t by (simp add: blk0_def word_at_def fips_W.simps swapped)
  have o: "s \<noteq> t \<Longrightarrow> blk0 be t l ! s = l ! s" for s by (simp add: blk0_def)
  have "blk0 be t l ! (s mod 16) = fips_W m s" if "s < Suc t" for s
    using that v o[of s] w t by (cases "s = t") (auto simp: window_def)
  then show "window be m (Suc t) (blk0 be t l)"
    using w o l(1) by (auto simp: window_def blk0_def)
qed

lemma window_blk:
  assumes w: "window be m t l" and t: "16 \<le> t"
  shows "window be m (Suc t) (blk t l)" "blk t l ! (t mod 16) = fips_W m t"
proof -
  have l: "length l = 16" and W: "s < t \<Longrightarrow> t \<le> s + 16 \<Longrightarrow> l ! (s mod 16) = fips_W m s" for s using w by (auto simp: window_def)
  obtain u where u: "t = u + 16" using t by (metis le_add_diff_inverse2)
  have e: "(t + 13) mod 16 = (t - 3) mod 16" "(t + 8) mod 16 = (t - 8) mod 16" "(t + 2) mod 16 = (t - 14) mod 16" "t mod 16 = (t - 16) mod 16"
    using mod_add_self2[of "u + 13" 16] mod_add_self2[of "u + 8" 16] mod_add_self2[of "u + 2" 16] unfolding u by (simp_all add: ac_simps)
  have r: "l ! ((t + 13) mod 16) = fips_W m (t - 3)" "l ! ((t + 8) mod 16) = fips_W m (t - 8)"
      "l ! ((t + 2) mod 16) = fips_W m (t - 14)" "l ! (t mod 16) = fips_W m (t - 16)"
    unfolding e by (rule W; use t in simp)+
  show v: "blk t l ! (t mod 16) = fips_W m t"
    unfolding blk_def r using l t by (simp add: fips_W.simps[of m t])
  have "blk t l ! (s mod 16) = fips_W m s" if "s < Suc t" "Suc t \<le> s + 16" for s
  proof (cases "s = t")
    case False
    then have "\<not> 16 dvd t - s" using that nat_dvd_not_less[of "t - s" 16] by simp
    then have "s mod 16 \<noteq> t mod 16" using that mod_eq_dvd_iff_nat[of s t 16] by auto
    then show ?thesis using that False W[of s] by (simp add: blk_def)
  qed (simp add: v)
  moreover have "length (blk t l) = 16" using l by (simp add: blk_def)
  ultimately show "window be m (Suc t) (blk t l)" using t by (auto simp: window_def)
qed

text \<open>A round of the source is a round of the standard.\<close>

lemma round_functions: "(w AND (x XOR y)) XOR y = Ch w x y" "((w OR x) AND y) OR (w AND x) = Maj w x y"
  by (rule bit_word_eqI; auto simp: Ch_def Maj_def bit_simps)+

lemma rounds_simulate:
  assumes w: "window be m t l"
  shows "t < 16 \<Longrightarrow> R0 be t (l, s) = (blk0 be t l, fips_round m t s)"
    "16 \<le> t \<Longrightarrow> t < 20 \<Longrightarrow> R1 t (l, s) = (blk t l, fips_round m t s)"
    "20 \<le> t \<Longrightarrow> t < 40 \<Longrightarrow> R2 t (l, s) = (blk t l, fips_round m t s)"
    "40 \<le> t \<Longrightarrow> t < 60 \<Longrightarrow> R3 t (l, s) = (blk t l, fips_round m t s)"
    "60 \<le> t \<Longrightarrow> R4 t (l, s) = (blk t l, fips_round m t s)"
  using window_blk0(2)[OF w] window_blk(2)[OF w]
  by (cases s; simp add: Let_def fips_f_def fips_K_def round_functions Parity_def add_ac)+

lemma phase:
  assumes R: "\<And>t l s. a \<le> t \<Longrightarrow> t < b \<Longrightarrow> window be m t l \<Longrightarrow> R t (l, s) = (g t l, fips_round m t s) \<and> window be m (Suc t) (g t l)"
    and ab: "a \<le> b" and w: "window be m a l"
  shows "\<exists>l'. fold R [a..<b] (l, s) = (l', fold (fips_round m) [a..<b] s) \<and> window be m b l'"
proof -
  have "\<exists>l'. fold R [a..<c] (l, s) = (l', fold (fips_round m) [a..<c] s) \<and> window be m c l'" if "a \<le> c" "c \<le> b" for c
    using that
  proof (induction rule: dec_induct)
    case base
    then show ?case using w by simp
  next
    case (step c)
    then obtain l' where "fold R [a..<c] (l, s) = (l', fold (fips_round m) [a..<c] s)" "window be m c l'" by auto
    then show ?case using step R[of c l' "fold (fips_round m) [a..<c] s"] by auto
  qed
  then show ?thesis using ab by simp
qed

lemma upt_80: "[0..<80] = [0..<16] @ [16..<20] @ [20..<40] @ [40..<60] @ [60..<80]"
  by code_simp

lemma transform_fips: "SHA1Transform be = fips_compress"
proof (intro ext)
  fix s m
  let ?f = "\<lambda>a b. fold (fips_round m) [a..<b]"
  obtain l1 where l1: "fold (R0 be) [0..<16] (map (word_at be m) [0..<16], s) = (l1, ?f 0 16 s)" "window be m 16 l1"
    using phase[of 0 16 be m "R0 be" "blk0 be" _ s, OF _ _ window_start] by (auto simp: rounds_simulate window_blk0 simp del: upt_rec_numeral)
  obtain l2 where l2: "fold R1 [16..<20] (l1, ?f 0 16 s) = (l2, ?f 16 20 (?f 0 16 s))" "window be m 20 l2"
    using phase[of 16 20 be m R1 blk _ "?f 0 16 s", OF _ _ l1(2)] by (auto simp: rounds_simulate window_blk simp del: upt_rec_numeral)
  obtain l3 where l3: "fold R2 [20..<40] (l2, ?f 16 20 (?f 0 16 s)) = (l3, ?f 20 40 (?f 16 20 (?f 0 16 s)))" "window be m 40 l3"
    using phase[of 20 40 be m R2 blk _ "?f 16 20 (?f 0 16 s)", OF _ _ l2(2)] by (auto simp: rounds_simulate window_blk simp del: upt_rec_numeral)
  obtain l4 where l4: "fold R3 [40..<60] (l3, ?f 20 40 (?f 16 20 (?f 0 16 s))) = (l4, ?f 40 60 (?f 20 40 (?f 16 20 (?f 0 16 s))))" "window be m 60 l4"
    using phase[of 40 60 be m R3 blk _ "?f 20 40 (?f 16 20 (?f 0 16 s))", OF _ _ l3(2)] by (auto simp: rounds_simulate window_blk simp del: upt_rec_numeral)
  obtain l5 where l5: "fold R4 [60..<80] (l4, ?f 40 60 (?f 20 40 (?f 16 20 (?f 0 16 s)))) = (l5, ?f 60 80 (?f 40 60 (?f 20 40 (?f 16 20 (?f 0 16 s)))))"
    using phase[of 60 80 be m R4 blk _ "?f 40 60 (?f 20 40 (?f 16 20 (?f 0 16 s)))", OF _ _ l4(2)] by (auto simp: rounds_simulate window_blk simp del: upt_rec_numeral)
  show "SHA1Transform be s m = fips_compress s m"
    unfolding SHA1Transform_def l1(1) l2(1) l3(1) l4(1) l5 fips_compress_def upt_80 by (simp only: prod.case fold_append comp_apply)
qed

section \<open>The context as a stream\<close>

lemma sha1_blocks_absorb:
  "absorb fips_compress s (drop i data) = (snd (sha1_blocks be data i s), drop (fst (sha1_blocks be data i s)) data)"
proof (induction be data i s rule: sha1_blocks.induct)
  case (1 be data i s)
  show ?case
  proof (cases "i + 63 < length data")
    case True
    then show ?thesis using 1 unfolding sha1_blocks.simps[of be data i s] by (simp add: absorb_block transform_fips add.commute)
  next
    case False
    then show ?thesis unfolding sha1_blocks.simps[of be data i s] by auto
  qed
qed

lemma memput_prefix: "j + length d \<le> length b \<Longrightarrow> take (j + length d) (memput b j d) = take j b @ d"
  by simp

lemma sha1_update_blocks:
  assumes b: "length (sha_buffer c) = 64" and j: "j = cval (sha_count c) div 8 mod 64"
  shows "absorb fips_compress (sha_state c) (take j (sha_buffer c) @ d) =
      (sha_state (SHA1Update be c d), take ((j + length d) mod 64) (sha_buffer (SHA1Update be c d)))"
    "length (sha_buffer (SHA1Update be c d)) = 64"
proof -
  obtain lo hi where c: "sha_count c = (lo, hi)" by (cases "sha_count c")
  have u: "unat (drop_bit 3 lo AND 63) = j" unfolding j c by (rule buffered)
  have j64: "j < 64" unfolding j by simp
  have "absorb fips_compress (sha_state c) (take j (sha_buffer c) @ d) =
      (sha_state (SHA1Update be c d), take ((j + length d) mod 64) (sha_buffer (SHA1Update be c d))) \<and>
      length (sha_buffer (SHA1Update be c d)) = 64"
  proof (cases "63 < j + length d")
    case True
    let ?b = "memput (sha_buffer c) j (take (64 - j) d)"
    let ?r = "sha1_blocks be d (64 - j) (fips_compress (sha_state c) ?b)"
    have t: "?b = take j (sha_buffer c) @ take (64 - j) d" using True j64 b by (simp add: memput_def)
    have "absorb fips_compress (sha_state c) (take j (sha_buffer c) @ d) = absorb fips_compress (fips_compress (sha_state c) ?b) (drop (64 - j) d)"
      using True j64 b unfolding t by (subst absorb_block) simp_all
    then have a: "absorb fips_compress (sha_state c) (take j (sha_buffer c) @ d) = (snd ?r, drop (fst ?r) d)"
      using sha1_blocks_absorb[of _ "64 - j" d be] by simp
    have "length (snd (absorb fips_compress (sha_state c) (take j (sha_buffer c) @ d))) = (j + length d) mod 64"
      unfolding length_absorb using b j64 by (simp add: min_def)
    then have l: "length (drop (fst ?r) d) = (j + length d) mod 64" unfolding a by simp
    moreover have "(j + length d) mod 64 < 64" by simp
    moreover have "sha_state (SHA1Update be c d) = snd ?r" "sha_buffer (SHA1Update be c d) = memput ?b 0 (drop (fst ?r) d)"
      using True by (simp_all add: SHA1Update_def c u transform_fips Let_def split_beta)
    moreover have "length ?b = 64" using t b j64 True by (auto simp: min_def)
    ultimately show ?thesis
      unfolding a using take_memput[of 0 "drop (fst ?r) d" ?b] by (simp del: length_drop)
  next
    case False
    then show ?thesis using b j64 by (simp add: SHA1Update_def c u Let_def split_beta)
  qed
  then show "absorb fips_compress (sha_state c) (take j (sha_buffer c) @ d) =
      (sha_state (SHA1Update be c d), take ((j + length d) mod 64) (sha_buffer (SHA1Update be c d)))"
    "length (sha_buffer (SHA1Update be c d)) = 64" by simp_all
qed

lemma sha1_update_count: "length d < 2 ^ 32 \<Longrightarrow> cval (sha_count (SHA1Update be c d)) = (cval (sha_count c) + 8 * length d) mod 2 ^ 64"
proof -
  assume d: "length d < 2 ^ 32"
  obtain lo hi where c: "sha_count c = (lo, hi)" by (cases "sha_count c")
  then show ?thesis
    using count_add[of lo "of_nat (length d)" hi] d
    by (simp add: SHA1Update_def Let_def split_beta unat_of_nat less_iff_carry split: if_splits)
qed

interpretation sha1: stream_hash fips_compress sha_state sha_count sha_buffer "SHA1Update be" "2 ^ 32 - 64" for be
  by unfold_locales (auto simp: sha1_update_count intro: sha1_update_blocks)

section \<open>The hash of a vector\<close>

text \<open>
  The padded message of FIPS 180: a bit 1, zeros up to 56 bytes in the last block, and the length of the
  message in bits as a big-endian number of 64 bits.
\<close>

definition fips_pad :: "bytes \<Rightarrow> bytes" where
  "fips_pad m = m @ [0x80] @ replicate (zeros (length m + 1)) 0 @
     WPA_PUT_BE32 (of_nat (8 * length m div 2 ^ 32)) @ WPA_PUT_BE32 (of_nat (8 * length m))"

definition fips_sha1 :: "bytes \<Rightarrow> bytes" where
  "fips_sha1 m =
     (case absorb fips_compress (0x67452301, 0xEFCDAB89, 0x98BADCFE, 0x10325476, 0xC3D2E1F0) (fips_pad m) of
        ((a, b, c, d, e), _) \<Rightarrow> WPA_PUT_BE32 a @ WPA_PUT_BE32 b @ WPA_PUT_BE32 c @ WPA_PUT_BE32 d @ WPA_PUT_BE32 e)"

lemma length_fips_pad: "length (fips_pad m) mod 64 = 0"
  using mod_add_left_eq[of "length m + 1 + zeros (length m + 1)" 64 8] pad_blocks[of "length m + 1"] by (simp add: fips_pad_def ac_simps)

lemma sha1_pad_reads: "sha1.has_read s c m \<Longrightarrow> sha1.has_read s (sha1_pad be c) (m @ replicate (zeros (length m)) 0)"
proof (induction be c arbitrary: m rule: sha1_pad.induct)
  case (1 be c)
  have "unat (fst (sha_count c)) div 8 mod 64 = length m mod 64"
    using sha1.read_position[OF 1(2)] count_low[of "fst (sha_count c)" "snd (sha_count c)"] by simp
  then have e: "fst (sha_count c) AND 504 \<noteq> 448 \<longleftrightarrow> length m mod 64 \<noteq> 56" using masked_count by simp
  show ?case
  proof (cases "length m mod 64 = 56")
    case True
    then show ?thesis using e 1(2) unfolding sha1_pad.simps[of be c] by (simp add: zeros_end)
  next
    case False
    then have "sha1.has_read s (SHA1Update be c [0]) (m @ [0])" using sha1.has_read_update[OF 1(2), of "[0]" be] by simp
    then have "sha1.has_read s (sha1_pad be (SHA1Update be c [0])) ((m @ [0]) @ replicate (zeros (length (m @ [0]))) 0)"
      using 1(1) e False by blast
    then show ?thesis using e False unfolding sha1_pad.simps[of be c] by (simp add: zeros_step)
  qed
qed

lemma be_bytes:
  "map (\<lambda>i. ucast (drop_bit ((3 - i mod 4) * 8) (if 4 \<le> i then c0 else c1) AND 255) :: u8) [0..<8] = WPA_PUT_BE32 c1 @ WPA_PUT_BE32 c0"
  "map (\<lambda>i. ucast (drop_bit ((3 - i mod 4) * 8) ([s0, s1, s2, s3, s4] ! (i div 4)) AND 255) :: u8) [0..<20] =
     WPA_PUT_BE32 s0 @ WPA_PUT_BE32 s1 @ WPA_PUT_BE32 s2 @ WPA_PUT_BE32 s3 @ WPA_PUT_BE32 s4" for c0 c1 s0 s1 s2 s3 s4 :: u32
proof -
  have u: "[0..<8] = [0, 1, 2, 3, 4, 5, 6, 7]" "[0..<20] = [0, 1, 2, 3, 4, 5, 6, 7, 8, 9, 10, 11, 12, 13, 14, 15, 16, 17, 18, 19]" by code_simp+
  show "map (\<lambda>i. ucast (drop_bit ((3 - i mod 4) * 8) (if 4 \<le> i then c0 else c1) AND 255) :: u8) [0..<8] = WPA_PUT_BE32 c1 @ WPA_PUT_BE32 c0"
    "map (\<lambda>i. ucast (drop_bit ((3 - i mod 4) * 8) ([s0, s1, s2, s3, s4] ! (i div 4)) AND 255) :: u8) [0..<20] =
       WPA_PUT_BE32 s0 @ WPA_PUT_BE32 s1 @ WPA_PUT_BE32 s2 @ WPA_PUT_BE32 s3 @ WPA_PUT_BE32 s4"
    unfolding u by (simp_all add: byte_defs)
qed

lemma sha1_final:
  assumes r: "sha1.has_read (0x67452301, 0xEFCDAB89, 0x98BADCFE, 0x10325476, 0xC3D2E1F0) c m" and m: "length m < 2 ^ 61"
  shows "fst (SHA1Final be c) = fips_sha1 m"
proof -
  let ?s = "(0x67452301, 0xEFCDAB89, 0x98BADCFE, 0x10325476, 0xC3D2E1F0) :: sha1_state"
  obtain c0 c1 where c: "sha_count c = (c0, c1)" by (cases "sha_count c")
  have "cval (c0, c1) = 8 * length m" using r m c by (simp add: sha1.has_read_def)
  from cval_inj[OF this] have l: "WPA_PUT_BE32 c1 @ WPA_PUT_BE32 c0 = WPA_PUT_BE32 (of_nat (8 * length m div 2 ^ 32)) @ WPA_PUT_BE32 (of_nat (8 * length m))" by simp
  let ?e = "SHA1Update be (sha1_pad be (SHA1Update be c [0x80])) (WPA_PUT_BE32 c1 @ WPA_PUT_BE32 c0)"
  have "sha1.has_read ?s (SHA1Update be c [0x80]) (m @ [0x80])" by (rule sha1.has_read_update[OF r]) simp
  from sha1.has_read_update[OF sha1_pad_reads[OF this, of be], of "WPA_PUT_BE32 c1 @ WPA_PUT_BE32 c0" be]
  have "sha1.has_read ?s ?e (fips_pad m)" unfolding l by (simp add: fips_pad_def)
  then have a: "absorb fips_compress ?s (fips_pad m) = (sha_state ?e, [])" by (simp add: sha1.has_read_def length_fips_pad)
  obtain s0 s1 s2 s3 s4 where s: "sha_state ?e = (s0, s1, s2, s3, s4)" by (cases "sha_state ?e")
  show ?thesis
    unfolding fips_sha1_def a SHA1Final_def Let_def c prod.case be_bytes s fst_conv ..
qed

lemma sha1_vector_fips:
  assumes "\<forall>d\<in>set elems. length d < 2 ^ 32 - 64" and "length (concat elems) < 2 ^ 61"
  shows "sha1_vector be junk elems = (0, fips_sha1 (concat elems))"
proof -
  have "sha1.has_read (0x67452301, 0xEFCDAB89, 0x98BADCFE, 0x10325476, 0xC3D2E1F0) (SHA1Init junk) []"
    by (intro sha1.has_read_start) (simp_all add: SHA1Init_def cval_def)
  from sha1.has_read_vector[OF this assms(1)] have "sha1.has_read (0x67452301, 0xEFCDAB89, 0x98BADCFE, 0x10325476, 0xC3D2E1F0)
      (fold (\<lambda>d ctx. SHA1Update be ctx d) elems (SHA1Init junk)) (concat elems)" by simp
  then show ?thesis unfolding sha1_vector_def using sha1_final assms(2) by simp
qed

lemma length_fips_sha1 [simp]: "length (fips_sha1 m) = 20"
  by (simp add: fips_sha1_def split: prod.split)

text \<open>C23. \<^verbatim>\<open>sha1_vector\<close> is SHA-1 of FIPS 180 applied to the concatenation of its areas, for areas of less than
  \<open>2 ^ 32 - 64\<close> bytes that together have less than \<open>2 ^ 61\<close>: however the message is split, on either byte order, and
  whatever the uninitialised buffer held.\<close>

theorem sha1_vector_is_fips180:
  assumes "\<forall>d\<in>set elems. length d < 2 ^ 32 - 64" and "length (concat elems) < 2 ^ 61"
  shows "sha1_vector be junk elems = (0, fips_sha1 (concat elems))"
  by (rule sha1_vector_fips[OF assms])

lemma sha1_vector_is_fips180_witness:
  "sha1_vector False (\<lambda>_. 7) [[0x61], [], [0x62, 0x63]] = (0, fips_sha1 (concat [[0x61], [], [0x62, 0x63]]))"
  by (rule sha1_vector_is_fips180) simp_all

end
