(* ===== verification/Md5.thy ===== *)
theory Md5
  imports Hash_Stream
begin

unbundle bit_operations_syntax

text \<open>
  MD5, \<^verbatim>\<open>src/athr-hostap/src/crypto/md5-internal.c\<close>. The argument \<open>be\<close> is whether \<^verbatim>\<open>WORDS_BIGENDIAN\<close> is
  defined: then \<^verbatim>\<open>byteReverse\<close> is a function, otherwise it is nothing. The buffer of the context is a byte
  area that the transform reads as sixteen words of the machine. The 64 steps of the transform are a
  table; where the source renames the four variables from one step to the next, the tuple is
  rotated.
\<close>

section \<open>The transform\<close>

type_synonym md5_state = "u32 \<times> u32 \<times> u32 \<times> u32"

definition F1 :: "u32 \<Rightarrow> u32 \<Rightarrow> u32 \<Rightarrow> u32" where "F1 x y z = z XOR (x AND (y XOR z))"
definition F2 :: "u32 \<Rightarrow> u32 \<Rightarrow> u32 \<Rightarrow> u32" where "F2 x y z = F1 z x y"
definition F3 :: "u32 \<Rightarrow> u32 \<Rightarrow> u32 \<Rightarrow> u32" where "F3 x y z = x XOR y XOR z"
definition F4 :: "u32 \<Rightarrow> u32 \<Rightarrow> u32 \<Rightarrow> u32" where "F4 x y z = y XOR (x OR NOT z)"

fun MD5STEP :: "(u32 \<Rightarrow> u32 \<Rightarrow> u32 \<Rightarrow> u32) \<Rightarrow> u32 \<Rightarrow> nat \<Rightarrow> md5_state \<Rightarrow> md5_state" where
  "MD5STEP f data s (w, x, y, z) =
     (let w = w + (f x y z + data); w = push_bit s w OR drop_bit (32 - s) w; w = w + x in (z, w, x, y))"

text \<open>For each step: the function, the index into the block, the constant and the shift.\<close>

definition md5_steps :: "((u32 \<Rightarrow> u32 \<Rightarrow> u32 \<Rightarrow> u32) \<times> nat \<times> u32 \<times> nat) list" where
  "md5_steps =
    [(F1, 0, 0xd76aa478, 7), (F1, 1, 0xe8c7b756, 12), (F1, 2, 0x242070db, 17), (F1, 3, 0xc1bdceee, 22),
     (F1, 4, 0xf57c0faf, 7), (F1, 5, 0x4787c62a, 12), (F1, 6, 0xa8304613, 17), (F1, 7, 0xfd469501, 22),
     (F1, 8, 0x698098d8, 7), (F1, 9, 0x8b44f7af, 12), (F1, 10, 0xffff5bb1, 17), (F1, 11, 0x895cd7be, 22),
     (F1, 12, 0x6b901122, 7), (F1, 13, 0xfd987193, 12), (F1, 14, 0xa679438e, 17), (F1, 15, 0x49b40821, 22),
     (F2, 1, 0xf61e2562, 5), (F2, 6, 0xc040b340, 9), (F2, 11, 0x265e5a51, 14), (F2, 0, 0xe9b6c7aa, 20),
     (F2, 5, 0xd62f105d, 5), (F2, 10, 0x02441453, 9), (F2, 15, 0xd8a1e681, 14), (F2, 4, 0xe7d3fbc8, 20),
     (F2, 9, 0x21e1cde6, 5), (F2, 14, 0xc33707d6, 9), (F2, 3, 0xf4d50d87, 14), (F2, 8, 0x455a14ed, 20),
     (F2, 13, 0xa9e3e905, 5), (F2, 2, 0xfcefa3f8, 9), (F2, 7, 0x676f02d9, 14), (F2, 12, 0x8d2a4c8a, 20),
     (F3, 5, 0xfffa3942, 4), (F3, 8, 0x8771f681, 11), (F3, 11, 0x6d9d6122, 16), (F3, 14, 0xfde5380c, 23),
     (F3, 1, 0xa4beea44, 4), (F3, 4, 0x4bdecfa9, 11), (F3, 7, 0xf6bb4b60, 16), (F3, 10, 0xbebfbc70, 23),
     (F3, 13, 0x289b7ec6, 4), (F3, 0, 0xeaa127fa, 11), (F3, 3, 0xd4ef3085, 16), (F3, 6, 0x04881d05, 23),
     (F3, 9, 0xd9d4d039, 4), (F3, 12, 0xe6db99e5, 11), (F3, 15, 0x1fa27cf8, 16), (F3, 2, 0xc4ac5665, 23),
     (F4, 0, 0xf4292244, 6), (F4, 7, 0x432aff97, 10), (F4, 14, 0xab9423a7, 15), (F4, 5, 0xfc93a039, 21),
     (F4, 12, 0x655b59c3, 6), (F4, 3, 0x8f0ccc92, 10), (F4, 10, 0xffeff47d, 15), (F4, 1, 0x85845dd1, 21),
     (F4, 8, 0x6fa87e4f, 6), (F4, 15, 0xfe2ce6e0, 10), (F4, 6, 0xa3014314, 15), (F4, 13, 0x4e0811a1, 21),
     (F4, 4, 0xf7537e82, 6), (F4, 11, 0xbd3af235, 10), (F4, 2, 0x2ad7d2bb, 15), (F4, 9, 0xeb86d391, 21)]"

fun md5_add :: "md5_state \<Rightarrow> md5_state \<Rightarrow> md5_state" where
  "md5_add (s0, s1, s2, s3) (a, b, c, d) = (s0 + a, s1 + b, s2 + c, s3 + d)"

definition MD5Transform :: "md5_state \<Rightarrow> u32 list \<Rightarrow> md5_state" where
  "MD5Transform buf inw = md5_add buf (fold (\<lambda>(f, k, t, s). MD5STEP f (inw ! k + t) s) md5_steps buf)"

section \<open>The context\<close>

record MD5Context =
  md_buf :: md5_state
  md_bits :: "u32 \<times> u32"
  md_in :: bytes

definition byteReverse :: "bool \<Rightarrow> bytes \<Rightarrow> nat \<Rightarrow> bytes" where
  "byteReverse be buf longs =
     (if be then concat (map (\<lambda>i. put_word be (WPA_GET_LE32 (take 4 (drop (4 * i) buf)))) [0..<longs]) @ drop (4 * longs) buf else buf)"

text \<open>\<open>junk\<close> is what the uninitialised buffer of a new context holds.\<close>

definition MD5Init :: "(nat \<Rightarrow> u8) \<Rightarrow> MD5Context" where
  "MD5Init junk = \<lparr>md_buf = (0x67452301, 0xefcdab89, 0x98badcfe, 0x10325476), md_bits = (0, 0), md_in = map junk [0..<64]\<rparr>"

text \<open>\<^verbatim>\<open>byteReverse(ctx->in, 16); MD5Transform(ctx->buf, (u32 *) ctx->in);\<close>\<close>

definition md5_block :: "bool \<Rightarrow> MD5Context \<Rightarrow> MD5Context" where
  "md5_block be ctx =
     (let ctx = ctx\<lparr>md_in := byteReverse be (md_in ctx) 16\<rparr>
      in ctx\<lparr>md_buf := MD5Transform (md_buf ctx) (map (word_at be (md_in ctx)) [0..<16])\<rparr>)"

text \<open>The loop over the complete blocks, and the copy of what is left.\<close>

function md5_chunks :: "bool \<Rightarrow> MD5Context \<Rightarrow> bytes \<Rightarrow> MD5Context" where
  "md5_chunks be ctx buf =
     (if 64 \<le> length buf then md5_chunks be (md5_block be (ctx\<lparr>md_in := memput (md_in ctx) 0 (take 64 buf)\<rparr>)) (drop 64 buf)
      else ctx\<lparr>md_in := memput (md_in ctx) 0 buf\<rparr>)"
  by pat_completeness auto

termination
  by (relation "measure (\<lambda>(be, ctx, buf). length buf)") auto

declare md5_chunks.simps [simp del]

definition MD5Update :: "bool \<Rightarrow> MD5Context \<Rightarrow> bytes \<Rightarrow> MD5Context" where
  "MD5Update be ctx buf =
     (let len = of_nat (length buf) :: u32; (t, b1) = md_bits ctx;
          b0 = t + push_bit 3 len;
          b1 = (if b0 < t then b1 + 1 else b1);
          b1 = b1 + drop_bit 29 len;
          ctx = ctx\<lparr>md_bits := (b0, b1)\<rparr>;
          t = unat (drop_bit 3 t AND 0x3f)
      in if t \<noteq> 0 then
           if length buf < 64 - t then ctx\<lparr>md_in := memput (md_in ctx) t buf\<rparr>
           else md5_chunks be (md5_block be (ctx\<lparr>md_in := memput (md_in ctx) t (take (64 - t) buf)\<rparr>)) (drop (64 - t) buf)
         else md5_chunks be ctx buf)"

text \<open>
  The last statement of \<^verbatim>\<open>MD5Final\<close> clears \<^verbatim>\<open>sizeof(ctx)\<close> bytes of the context, the size of the pointer: four
  bytes, the first word of \<^verbatim>\<open>ctx->buf\<close>.
\<close>

definition MD5Final :: "bool \<Rightarrow> MD5Context \<Rightarrow> bytes \<times> MD5Context" where
  "MD5Final be ctx =
     (let (b0, b1) = md_bits ctx;
          count = unat (drop_bit 3 b0 AND 0x3F);
          ctx = ctx\<lparr>md_in := (md_in ctx)[count := 0x80]\<rparr>;
          p = count + 1;
          count = 64 - 1 - count;
          ctx = (if count < 8 then
                   let ctx = md5_block be (ctx\<lparr>md_in := memput (md_in ctx) p (replicate count 0)\<rparr>)
                   in ctx\<lparr>md_in := memput (md_in ctx) 0 (replicate 56 0)\<rparr>
                 else ctx\<lparr>md_in := memput (md_in ctx) p (replicate (count - 8) 0)\<rparr>);
          ctx = ctx\<lparr>md_in := byteReverse be (md_in ctx) 14\<rparr>;
          ctx = ctx\<lparr>md_in := memput (md_in ctx) 56 (put_word be b0)\<rparr>;
          ctx = ctx\<lparr>md_in := memput (md_in ctx) 60 (put_word be b1)\<rparr>;
          ctx = ctx\<lparr>md_buf := MD5Transform (md_buf ctx) (map (word_at be (md_in ctx)) [0..<16])\<rparr>;
          (a, b, c, d) = md_buf ctx;
          digest = byteReverse be (put_word be a @ put_word be b @ put_word be c @ put_word be d) 4
      in (digest, ctx\<lparr>md_buf := (0, word_at be digest 1, word_at be digest 2, word_at be digest 3)\<rparr>))"

definition md5_vector :: "bool \<Rightarrow> (nat \<Rightarrow> u8) \<Rightarrow> bytes list \<Rightarrow> int \<times> bytes" where
  "md5_vector be junk elems = (0, fst (MD5Final be (fold (\<lambda>d ctx. MD5Update be ctx d) elems (MD5Init junk))))"

end
