(* ===== verification/Md5_Props.thy ===== *)
theory Md5_Props
  imports Md5
begin

unbundle bit_operations_syntax

text \<open>
  The MD5 of \<open>Md5\<close> against RFC 1321: the steps follow its index and shift rules with its round
  functions, the context is a stream in the sense of \<open>stream_hash\<close>, and the hash of a vector is the hash of
  the padded concatenation, on either byte order.
\<close>

section \<open>The compression function of RFC 1321\<close>

definition rfc_f :: "nat \<Rightarrow> u32 \<Rightarrow> u32 \<Rightarrow> u32 \<Rightarrow> u32" where
  "rfc_f i X Y Z =
     (if i < 16 then (X AND Y) OR (NOT X AND Z) else if i < 32 then (X AND Z) OR (Y AND NOT Z)
      else if i < 48 then X XOR Y XOR Z else Y XOR (X OR NOT Z))"

definition rfc_k :: "nat \<Rightarrow> nat" where
  "rfc_k i = (if i < 16 then i else if i < 32 then (1 + 5 * i) mod 16 else if i < 48 then (5 + 3 * i) mod 16 else 7 * i mod 16)"

definition rfc_s :: "nat \<Rightarrow> nat" where
  "rfc_s i = (if i < 16 then [7, 12, 17, 22] else if i < 32 then [5, 9, 14, 20] else if i < 48 then [4, 11, 16, 23] else [6, 10, 15, 21]) ! (i mod 4)"

text \<open>The constants \<open>T[i]\<close> of the RFC, the integer part of \<open>2 ^ 32\<close> times the sine of \<open>i\<close>, are taken from the table.\<close>

definition rfc_T :: "nat \<Rightarrow> u32" where "rfc_T i = fst (snd (snd (md5_steps ! i)))"

text \<open>\<open>[abcd k s i]\<close> is \<open>a = b + ((a + F(b,c,d) + X[k] + T[i]) <<< s)\<close>; then the registers are renamed.\<close>

fun md5_rfc_step :: "(nat \<Rightarrow> u32) \<Rightarrow> nat \<Rightarrow> md5_state \<Rightarrow> md5_state" where
  "md5_rfc_step X i (a, b, c, d) =
     (let v = a + rfc_f i b c d + X (rfc_k i) + rfc_T i in (d, b + (push_bit (rfc_s i) v OR drop_bit (32 - rfc_s i) v), b, c))"

definition le_word :: "bytes \<Rightarrow> nat \<Rightarrow> u32" where "le_word m i = WPA_GET_LE32 (take 4 (drop (4 * i) m))"

definition rfc_compress :: "md5_state \<Rightarrow> bytes \<Rightarrow> md5_state" where
  "rfc_compress H m = md5_add H (fold (md5_rfc_step (le_word m)) [0..<64] H)"

section \<open>The transform\<close>

lemma md5_functions: "F1 = rfc_f 0" "F2 = rfc_f 16" "F3 = rfc_f 32" "F4 = rfc_f 48"
  by (intro ext; simp add: F1_def F2_def F3_def F4_def rfc_f_def; (rule bit_word_eqI)?; auto simp: bit_simps)+

lemma rfc_f_round: "rfc_f i = rfc_f (16 * (i div 16))" if "i < 64"
proof -
  have "i < 16 \<and> i div 16 = 0 \<or> 16 \<le> i \<and> i < 32 \<and> i div 16 = 1 \<or> 32 \<le> i \<and> i < 48 \<and> i div 16 = 2 \<or> 48 \<le> i \<and> i div 16 = 3"
    using that by linarith
  then show ?thesis by (intro ext) (auto simp: rfc_f_def)
qed

text \<open>The rows of the table, without the functions, by their rules.\<close>

lemma table_rules: "map snd md5_steps = map (\<lambda>i. (rfc_k i, rfc_T i, rfc_s i)) [0..<64]"
  by code_simp

lemma table_functions: "map fst md5_steps = map (\<lambda>i. rfc_f (16 * (i div 16))) [0..<64]"
proof -
  have u: "[0..<64] = [0, 1, 2, 3, 4, 5, 6, 7, 8, 9, 10, 11, 12, 13, 14, 15, 16, 17, 18, 19, 20, 21, 22, 23, 24, 25, 26, 27, 28, 29, 30, 31,
    32, 33, 34, 35, 36, 37, 38, 39, 40, 41, 42, 43, 44, 45, 46, 47, 48, 49, 50, 51, 52, 53, 54, 55, 56, 57, 58, 59, 60, 61, 62, 63]" by code_simp
  show ?thesis unfolding u md5_steps_def by (simp add: md5_functions)
qed

lemma table: "md5_steps = map (\<lambda>i. (rfc_f i, rfc_k i, rfc_T i, rfc_s i)) [0..<64]"
proof (rule nth_equalityI)
  show l: "length md5_steps = length (map (\<lambda>i. (rfc_f i, rfc_k i, rfc_T i, rfc_s i)) [0..<64])" by (simp add: md5_steps_def)
  fix i assume "i < length md5_steps"
  then have i: "i < 64" "i < length md5_steps" using l by simp_all
  have "fst (md5_steps ! i) = rfc_f i" using arg_cong[OF table_functions, of "\<lambda>l. l ! i"] i rfc_f_round[of i] by simp
  moreover have "snd (md5_steps ! i) = (rfc_k i, rfc_T i, rfc_s i)" using arg_cong[OF table_rules, of "\<lambda>l. l ! i"] i by simp
  ultimately show "md5_steps ! i = map (\<lambda>i. (rfc_f i, rfc_k i, rfc_T i, rfc_s i)) [0..<64] ! i" using i by (simp add: prod_eq_iff)
qed

lemma rfc_k_less: "i < 64 \<Longrightarrow> rfc_k i < 16"
  by (simp add: rfc_k_def)

lemma transform_rfc: "MD5Transform H (map (le_word m) [0..<16]) = rfc_compress H m"
proof -
  have s: "(\<lambda>(f, k, t, s). MD5STEP f (map (le_word m) [0..<16] ! k + t) s) (rfc_f i, rfc_k i, rfc_T i, rfc_s i) s = md5_rfc_step (le_word m) i s"
    if "i < 64" for i s using rfc_k_less[OF that] by (cases s) (simp add: Let_def ac_simps)
  have "fold (\<lambda>(f, k, t, s). MD5STEP f (map (le_word m) [0..<16] ! k + t) s) md5_steps H =
      fold (\<lambda>i. (\<lambda>(f, k, t, s). MD5STEP f (map (le_word m) [0..<16] ! k + t) s) (rfc_f i, rfc_k i, rfc_T i, rfc_s i)) [0..<64] H"
    by (subst table) (simp only: fold_map comp_def)
  also have "\<dots> = fold (md5_rfc_step (le_word m)) [0..<64] H" by (rule fold_cong) (use s in \<open>auto intro!: ext\<close>)
  finally show ?thesis by (simp add: MD5Transform_def rfc_compress_def)
qed

section \<open>Words of the buffer\<close>

lemma nth_chunk: "\<forall>x\<in>set xs. length x = 4 \<Longrightarrow> i < length xs \<Longrightarrow> take 4 (drop (4 * i) (concat xs @ r)) = xs ! i"
proof (induction xs arbitrary: i)
  case (Cons x xs)
  then show ?case using Cons.IH[of "i - 1"] by (cases i) simp_all
qed simp

lemma length_put_word [simp]: "length (put_word be w) = 4"
  by (simp add: put_word_def)

lemma word_put: "take 4 (drop (4 * i) b) = put_word be w \<Longrightarrow> word_at be b i = w"
  by (simp add: word_at_def put_word_def split: if_splits)

lemma word_reversed: "i < n \<Longrightarrow> word_at be (byteReverse be b n) i = le_word b i"
proof (cases be)
  case True
  assume "i < n"
  then have "take 4 (drop (4 * i) (byteReverse be b n)) = put_word be (le_word b i)"
    using True nth_chunk[of "map (\<lambda>i. put_word be (WPA_GET_LE32 (take 4 (drop (4 * i) b)))) [0..<n]" i "drop (4 * n) b"]
    by (simp add: byteReverse_def le_word_def del: upt_Suc)
  then show ?thesis by (rule word_put)
qed (simp add: byteReverse_def word_at_def le_word_def)

lemma length_reversed: "4 * n \<le> length b \<Longrightarrow> length (byteReverse be b n) = length b"
proof -
  have "length (concat (map (\<lambda>i. put_word be' (g i)) xs)) = 4 * length xs" for be' and g :: "nat \<Rightarrow> u32" and xs by (induction xs) simp_all
  then show "4 * n \<le> length b \<Longrightarrow> ?thesis" by (simp add: byteReverse_def del: upt_Suc)
qed

text \<open>A block through the transform.\<close>

lemma md5_block_rfc:
  "md_buf (md5_block be c) = rfc_compress (md_buf c) (md_in c)" "md_bits (md5_block be c) = md_bits c"
  "length (md_in c) = 64 \<Longrightarrow> length (md_in (md5_block be c)) = 64"
proof -
  have e: "map (word_at be (byteReverse be (md_in c) 16)) [0..<16] = map (le_word (md_in c)) [0..<16]" by (rule map_cong) (simp_all add: word_reversed)
  show "md_buf (md5_block be c) = rfc_compress (md_buf c) (md_in c)" unfolding md5_block_def Let_def by simp (simp only: e transform_rfc)
qed (simp_all add: md5_block_def length_reversed)

section \<open>The context as a stream\<close>

lemma md5_chunks_absorb:
  "length (md_in c) = 64 \<Longrightarrow> absorb rfc_compress (md_buf c) d = (md_buf (md5_chunks be c d), take (length d mod 64) (md_in (md5_chunks be c d))) \<and>
     length (md_in (md5_chunks be c d)) = 64 \<and> md_bits (md5_chunks be c d) = md_bits c"
proof (induction be c d rule: md5_chunks.induct)
  case (1 be c d)
  show ?case
  proof (cases "64 \<le> length d")
    case True
    let ?c = "md5_block be (c\<lparr>md_in := memput (md_in c) 0 (take 64 d)\<rparr>)"
    have "memput (md_in c) 0 (take 64 d) = take 64 d" using True 1(2) by (simp add: memput_def)
    then have b: "md_buf ?c = rfc_compress (md_buf c) (take 64 d)" "length (md_in ?c) = 64" "md_bits ?c = md_bits c"
      using True md5_block_rfc[where be = be and c = "c\<lparr>md_in := memput (md_in c) 0 (take 64 d)\<rparr>"] by simp_all
    show ?thesis
      using True 1(1)[OF True b(2)] b le_mod_geq[of 64 "length d"] unfolding md5_chunks.simps[of be c d] by (simp add: absorb_block)
  next
    case False
    then show ?thesis using 1(2) take_memput[of 0 d "md_in c"] unfolding md5_chunks.simps[of be c d] by simp
  qed
qed

lemma md5_update_blocks:
  assumes b: "length (md_in c) = 64" and j: "j = cval (md_bits c) div 8 mod 64"
  shows "absorb rfc_compress (md_buf c) (take j (md_in c) @ d) =
      (md_buf (MD5Update be c d), take ((j + length d) mod 64) (md_in (MD5Update be c d)))"
    "length (md_in (MD5Update be c d)) = 64"
proof -
  obtain lo hi where c: "md_bits c = (lo, hi)" by (cases "md_bits c")
  have u: "unat (drop_bit 3 lo AND 0x3f) = j" unfolding j c by (rule buffered)
  have j64: "j < 64" unfolding j by simp
  obtain bits where "MD5Update be c d =
     (let ctx = c\<lparr>md_bits := bits\<rparr>
      in if j \<noteq> 0 then
           if length d < 64 - j then ctx\<lparr>md_in := memput (md_in ctx) j d\<rparr>
           else md5_chunks be (md5_block be (ctx\<lparr>md_in := memput (md_in ctx) j (take (64 - j) d)\<rparr>)) (drop (64 - j) d)
         else md5_chunks be ctx d)"
    unfolding MD5Update_def Let_def c prod.case u by blast
  note m = this[unfolded Let_def]
  have "absorb rfc_compress (md_buf c) (take j (md_in c) @ d) =
      (md_buf (MD5Update be c d), take ((j + length d) mod 64) (md_in (MD5Update be c d))) \<and> length (md_in (MD5Update be c d)) = 64"
  proof (cases "j = 0")
    case True
    then show ?thesis using md5_chunks_absorb[of "c\<lparr>md_bits := bits\<rparr>" d be] b unfolding m by simp
  next
    case False
    show ?thesis
    proof (cases "length d < 64 - j")
      case True
      then show ?thesis using False b j64 take_memput[of j d "md_in c"] unfolding m by simp
    next
      case long: False
      let ?b = "memput (md_in c) j (take (64 - j) d)"
      let ?c = "md5_block be (c\<lparr>md_bits := bits, md_in := ?b\<rparr>)"
      have t: "?b = take j (md_in c) @ take (64 - j) d" "length ?b = 64" using long j64 b by (auto simp: memput_def min_def)
      have "absorb rfc_compress (md_buf c) (take j (md_in c) @ d) = absorb rfc_compress (rfc_compress (md_buf c) ?b) (drop (64 - j) d)"
        using long j64 b unfolding t(1) by (subst absorb_block) simp_all
      moreover have "md_buf ?c = rfc_compress (md_buf c) ?b" "length (md_in ?c) = 64"
        using md5_block_rfc[where be = be and c = "c\<lparr>md_bits := bits, md_in := ?b\<rparr>"] t(2) by simp_all
      moreover have "(j + length d) mod 64 = (length d - (64 - j)) mod 64" using long j64 le_mod_geq[of 64 "j + length d"] by (simp add: add.commute)
      moreover have "md_in (c\<lparr>md_bits := bits\<rparr>) = md_in c" by simp
      ultimately show ?thesis using False long md5_chunks_absorb[of ?c "drop (64 - j) d" be] unfolding m by simp
    qed
  qed
  then show "absorb rfc_compress (md_buf c) (take j (md_in c) @ d) =
      (md_buf (MD5Update be c d), take ((j + length d) mod 64) (md_in (MD5Update be c d)))"
    "length (md_in (MD5Update be c d)) = 64" by simp_all
qed

lemma md5_update_count:
  assumes d: "length d < 2 ^ 32"
  shows "cval (md_bits (MD5Update be c d)) = (cval (md_bits c) + 8 * length d) mod 2 ^ 64"
proof -
  obtain lo hi where c: "md_bits c = (lo, hi)" by (cases "md_bits c")
  have k: "md_bits (md5_chunks be ctx d) = md_bits ctx" for ctx d
    by (induction be ctx d rule: md5_chunks.induct) (subst md5_chunks.simps, simp add: md5_block_rfc(2))
  let ?l = "of_nat (length d) :: u32"
  have b: "md_bits (MD5Update be c d) = (lo + push_bit 3 ?l, (if lo + push_bit 3 ?l < lo then hi + 1 else hi) + drop_bit 29 ?l)"
    unfolding MD5Update_def Let_def c prod.case by (simp add: k md5_block_rfc(2))
  have "lo + push_bit 3 ?l < lo \<longleftrightarrow> 2 ^ 32 \<le> unat lo + unat (push_bit 3 ?l)"
    using less_iff_carry[of "push_bit 3 ?l" lo] by (simp add: add.commute)
  then show ?thesis
    using count_add[of lo ?l hi] d unfolding b c by (simp add: unat_of_nat split: if_splits)
qed

interpretation md5: stream_hash rfc_compress md_buf md_bits md_in "MD5Update be" "2 ^ 32" for be
  by unfold_locales (auto simp: md5_update_count intro: md5_update_blocks)

section \<open>The hash of a vector\<close>

text \<open>
  The padded message of RFC 1321: as for SHA-1, but the length in bits is a little-endian number of 64
  bits, the low word first.
\<close>

definition rfc_pad :: "bytes \<Rightarrow> bytes" where
  "rfc_pad m = m @ [0x80] @ replicate (zeros (length m + 1)) 0 @
     WPA_PUT_LE32 (of_nat (8 * length m)) @ WPA_PUT_LE32 (of_nat (8 * length m div 2 ^ 32))"

definition rfc_md5 :: "bytes \<Rightarrow> bytes" where
  "rfc_md5 m =
     (case absorb rfc_compress (0x67452301, 0xefcdab89, 0x98badcfe, 0x10325476) (rfc_pad m) of
        ((a, b, c, d), _) \<Rightarrow> WPA_PUT_LE32 a @ WPA_PUT_LE32 b @ WPA_PUT_LE32 c @ WPA_PUT_LE32 d)"

text \<open>The words of a block whose first 56 bytes are reversed and whose last two words are stored as such.\<close>

lemma last_words:
  assumes b: "length b = 64"
  shows "map (word_at be (memput (memput (byteReverse be b 14) 56 (put_word be v)) 60 (put_word be w))) [0..<16] =
    map (le_word (take 56 b @ WPA_PUT_LE32 v @ WPA_PUT_LE32 w)) [0..<16]"
proof (rule map_cong)
  fix i assume "i \<in> set [0..<16]"
  then have "i < 14 \<or> i = 14 \<or> i = 15" by auto
  moreover have m: "memput (memput (byteReverse be b 14) 56 (put_word be v)) 60 (put_word be w) = take 56 (byteReverse be b 14) @ put_word be v @ put_word be w"
    using length_reversed[of 14 b be] b by (simp add: memput_def)
  moreover have l: "length (take 56 (byteReverse be b 14)) = 56" using length_reversed[of 14 b be] b by simp
  moreover have p: "take 4 (drop (4 * i) (take 56 y @ x)) = take 4 (drop (4 * i) y)" if "i < 14" "length y = 64" for x y :: bytes
    using that by (simp add: take_drop)
  moreover have "word_at be (take 56 (byteReverse be b 14) @ x) i = word_at be (byteReverse be b 14) i" if "i < 14" for x
    unfolding word_at_def p[OF that length_reversed[of 14 b be, simplified b, simplified]] ..
  moreover have "le_word (take 56 b @ x) i = le_word b i" if "i < 14" for x using that b by (simp add: le_word_def p del: take_append drop_append)
  moreover have "word_at be (x @ put_word be v @ put_word be w) 14 = v" "word_at be (x @ put_word be v @ put_word be w) 15 = w" if "length x = 56" for x
    using that by (intro word_put, simp)+
  moreover have "le_word (x @ WPA_PUT_LE32 v @ WPA_PUT_LE32 w) 14 = v" "le_word (x @ WPA_PUT_LE32 v @ WPA_PUT_LE32 w) 15 = w" if "length x = 56" for x
    using that by (simp_all add: le_word_def)
  ultimately show "word_at be (memput (memput (byteReverse be b 14) 56 (put_word be v)) 60 (put_word be w)) i =
      le_word (take 56 b @ WPA_PUT_LE32 v @ WPA_PUT_LE32 w) i" using b by (auto simp: word_reversed)
qed simp

text \<open>The digest in memory, whatever the byte order.\<close>

lemma digest_bytes: "byteReverse be (put_word be a @ put_word be b @ put_word be c @ put_word be d) 4 = WPA_PUT_LE32 a @ WPA_PUT_LE32 b @ WPA_PUT_LE32 c @ WPA_PUT_LE32 d"
proof -
  have u: "[0..<4] = [0, 1, 2, 3 :: nat]" by code_simp
  have r: "WPA_PUT_BE32 (WPA_GET_LE32 (WPA_PUT_BE32 w)) = WPA_PUT_LE32 w" for w
    unfolding byte_defs ff_mask by (simp, intro conjI; rule bit_word_eqI; auto simp: bit_simps)
  show ?thesis unfolding byteReverse_def u by (cases be) (simp_all add: put_word_def r)
qed

lemma list_put: "n < length b \<Longrightarrow> b[n := x] = memput b n [x]"
  by (simp add: memput_def upd_conv_take_nth_drop)

lemma md5_last_block:
  "length b = 64 \<Longrightarrow> n + 1 + k \<le> 64 \<Longrightarrow>
   take (n + 1 + k) (memput (b[n := 0x80]) (n + 1) (replicate k 0)) = take n b @ [0x80] @ replicate k 0"
  by (simp add: list_put memput_def)

lemma zeros_rest: "zeros (n + 1) = (if 63 - n mod 64 < 8 then 63 - n mod 64 + 56 else 55 - n mod 64)"
proof -
  have "(if y \<le> 56 then 56 - y else 120 - y) = (if 63 - x < 8 then 63 - x + 56 else 55 - x)"
    if "x < 64" "y = (if x = 63 then 0 else x + 1)" for x y :: nat
    using that by (simp split: if_splits; linarith)
  note rest = this
  show ?thesis unfolding zeros_def Suc_eq_plus1[symmetric] by (rule rest) (simp_all add: mod_Suc)
qed

text \<open>The context with the message padded up to the length field.\<close>

definition padded :: "bool \<Rightarrow> MD5Context \<Rightarrow> nat \<Rightarrow> MD5Context" where
  "padded be c n =
     (if 63 - n < 8 then
        let c = md5_block be (c\<lparr>md_in := memput ((md_in c)[n := 0x80]) (n + 1) (replicate (63 - n) 0)\<rparr>)
        in c\<lparr>md_in := memput (md_in c) 0 (replicate 56 0)\<rparr>
      else c\<lparr>md_in := memput ((md_in c)[n := 0x80]) (n + 1) (replicate (55 - n) 0)\<rparr>)"

lemma padded_absorb:
  assumes b: "length (md_in c) = 64" and n: "n < 64" and L: "length L = 8"
  shows "length (md_in (padded be c n)) = 64"
    "absorb rfc_compress (md_buf c) (take n (md_in c) @ [0x80] @ replicate (if 63 - n < 8 then 63 - n + 56 else 55 - n) 0 @ L) =
       (rfc_compress (md_buf (padded be c n)) (take 56 (md_in (padded be c n)) @ L), [])"
proof -
  have one: "absorb rfc_compress s x = (rfc_compress s x, [])" if "length x = 64" for s x using that by (simp add: absorb_block)
  have "length (md_in (padded be c n)) = 64 \<and>
    absorb rfc_compress (md_buf c) (take n (md_in c) @ [0x80] @ replicate (if 63 - n < 8 then 63 - n + 56 else 55 - n) 0 @ L) =
       (rfc_compress (md_buf (padded be c n)) (take 56 (md_in (padded be c n)) @ L), [])"
  proof (cases "63 - n < 8")
    case True
    let ?X = "memput ((md_in c)[n := 0x80]) (n + 1) (replicate (63 - n) 0)"
    have X: "?X = take n (md_in c) @ [0x80] @ replicate (63 - n) 0" "length ?X = 64" using md5_last_block[OF b, of n "63 - n"] b n by simp_all
    have i: "length (md_in (md5_block be (c\<lparr>md_in := ?X\<rparr>))) = 64" "md_buf (md5_block be (c\<lparr>md_in := ?X\<rparr>)) = rfc_compress (md_buf c) ?X"
      using md5_block_rfc[where be = be and c = "c\<lparr>md_in := ?X\<rparr>"] X(2) by simp_all
    have "take n (md_in c) @ [0x80] @ replicate (63 - n + 56) 0 @ L = ?X @ replicate 56 0 @ L" unfolding X(1) by (simp add: replicate_add)
    moreover have "absorb rfc_compress (md_buf c) (?X @ replicate 56 0 @ L) = (rfc_compress (rfc_compress (md_buf c) ?X) (replicate 56 0 @ L), [])"
      using one[OF X(2)] one[of "replicate 56 0 @ L"] L by (simp only: absorb_append[of _ _ ?X]) simp
    ultimately have "absorb rfc_compress (md_buf c) (take n (md_in c) @ [0x80] @ replicate (63 - n + 56) 0 @ L) =
        (rfc_compress (rfc_compress (md_buf c) ?X) (replicate 56 0 @ L), [])" by (simp only:)
    then show ?thesis
      using True i take_memput[of 0 "replicate 56 0" "md_in (md5_block be (c\<lparr>md_in := ?X\<rparr>))"] by (simp add: padded_def Let_def)
  next
    case False
    then show ?thesis
      using md5_last_block[OF b, of n "55 - n"] b n L one[of "take n (md_in c) @ 0x80 # replicate (55 - n) 0 @ L"] by (simp add: padded_def)
  qed
  then show "length (md_in (padded be c n)) = 64"
    "absorb rfc_compress (md_buf c) (take n (md_in c) @ [0x80] @ replicate (if 63 - n < 8 then 63 - n + 56 else 55 - n) 0 @ L) =
       (rfc_compress (md_buf (padded be c n)) (take 56 (md_in (padded be c n)) @ L), [])" by simp_all
qed

lemma md5_final:
  assumes r: "md5.has_read (0x67452301, 0xefcdab89, 0x98badcfe, 0x10325476) c m" and m: "length m < 2 ^ 61"
  shows "fst (MD5Final be c) = rfc_md5 m"
proof -
  let ?s = "(0x67452301, 0xefcdab89, 0x98badcfe, 0x10325476) :: md5_state" and ?n = "length m mod 64"
  obtain b0 b1 where c: "md_bits c = (b0, b1)" by (cases "md_bits c")
  let ?L = "WPA_PUT_LE32 b0 @ WPA_PUT_LE32 b1" and ?e = "padded be c ?n"
  have "cval (b0, b1) = 8 * length m" using r m c by (simp add: md5.has_read_def)
  from cval_inj[OF this] have L: "?L = WPA_PUT_LE32 (of_nat (8 * length m)) @ WPA_PUT_LE32 (of_nat (8 * length m div 2 ^ 32))" by simp
  have n: "unat (drop_bit 3 b0 AND 0x3F) = ?n" using buffered[of b0 b1] md5.read_position[OF r] c by simp
  have b: "length (md_in c) = 64" and a: "absorb rfc_compress ?s m = (md_buf c, take ?n (md_in c))" using r by (simp_all add: md5.has_read_def)
  note e = padded_absorb[OF b, of ?n ?L be]
  have p: "absorb rfc_compress ?s (rfc_pad m) = (rfc_compress (md_buf ?e) (take 56 (md_in ?e) @ ?L), [])"
    unfolding rfc_pad_def absorb_append[of rfc_compress ?s m] a L[symmetric] zeros_rest using e(2) by simp
  obtain w x y z where d: "rfc_compress (md_buf ?e) (take 56 (md_in ?e) @ ?L) = (w, x, y, z)"
    by (cases "rfc_compress (md_buf ?e) (take 56 (md_in ?e) @ ?L)")
  have "length (md_in ?e) = 64" using e(1) by simp
  from last_words[OF this] have t: "MD5Transform s (map (word_at be (memput (memput (byteReverse be (md_in ?e) 14) 56 (put_word be b0)) 60 (put_word be b1))) [0..<16]) =
      rfc_compress s (take 56 (md_in ?e) @ ?L)" for s by (simp only: transform_rfc)
  have "fst (MD5Final be c) = byteReverse be (put_word be w @ put_word be x @ put_word be y @ put_word be z) 4"
  proof -
    have "64 - 1 - ?n = 63 - ?n" "63 - ?n - 8 = 55 - ?n" by simp_all
    then have "fst (MD5Final be c) =
      (case MD5Transform (md_buf ?e) (map (word_at be (memput (memput (byteReverse be (md_in ?e) 14) 56 (put_word be b0)) 60 (put_word be b1))) [0..<16]) of
        (a, b, c, d) \<Rightarrow> byteReverse be (put_word be a @ put_word be b @ put_word be c @ put_word be d) 4)"
      unfolding MD5Final_def Let_def c prod.case n padded_def by (simp add: split_beta)
    then show ?thesis unfolding t d prod.case .
  qed
  then show ?thesis unfolding rfc_md5_def p d digest_bytes by simp
qed

lemma md5_vector_rfc:
  assumes "\<forall>d\<in>set elems. length d < 2 ^ 32" and "length (concat elems) < 2 ^ 61"
  shows "md5_vector be junk elems = (0, rfc_md5 (concat elems))"
proof -
  have "md5.has_read (0x67452301, 0xefcdab89, 0x98badcfe, 0x10325476) (MD5Init junk) []"
    by (intro md5.has_read_start) (simp_all add: MD5Init_def cval_def)
  from md5.has_read_vector[OF this assms(1)] have "md5.has_read (0x67452301, 0xefcdab89, 0x98badcfe, 0x10325476)
      (fold (\<lambda>d ctx. MD5Update be ctx d) elems (MD5Init junk)) (concat elems)" by simp
  then show ?thesis unfolding md5_vector_def using md5_final assms(2) by simp
qed

lemma length_rfc_md5 [simp]: "length (rfc_md5 m) = 16"
  by (simp add: rfc_md5_def split: prod.split)

text \<open>What the context still holds after the last statement of \<^verbatim>\<open>MD5Final\<close>: the count and three words of the digest.\<close>

lemma MD5Final_keeps:
  "md_bits (snd (MD5Final be c)) = md_bits c"
  "snd (md_buf (snd (MD5Final be c))) = (word_at be (fst (MD5Final be c)) 1, word_at be (fst (MD5Final be c)) 2, word_at be (fst (MD5Final be c)) 3)"
  by (simp_all add: MD5Final_def Let_def split_beta md5_block_rfc(2))



end
