(* ===== verification/Hmac.thy ===== *)
theory Hmac
  imports Sha1_Props Md5_Props
begin

unbundle bit_operations_syntax

text \<open>
  The keyed functions of \<^verbatim>\<open>sha1.c\<close>, \<^verbatim>\<open>md5.c\<close> and \<^verbatim>\<open>sha1-pbkdf2.c\<close> in \<^verbatim>\<open>src/athr-hostap/src/crypto\<close>: HMAC over a vector, the
  pseudo-random function of 802.11i and the derivation of a key from a passphrase. The two HMAC
  functions of the sources, over SHA-1 and over MD5, have one body, \<open>hmac_vector\<close>, which is proved against
  RFC 2104 once, over any hash that meets the contract \<open>vector_hash\<close>. \<open>None\<close> is the return value -1.
\<close>

section \<open>HMAC\<close>

text \<open>\<^verbatim>\<open>k_pad\<close>: the key in 64 bytes of zeros, xored with a byte.\<close>

definition k_pad :: "u8 \<Rightarrow> bytes \<Rightarrow> bytes" where "k_pad x key = map (\<lambda>b. b XOR x) (memput (replicate 64 0) 0 key)"

definition hmac_vector :: "(bytes list \<Rightarrow> int \<times> bytes) \<Rightarrow> bytes \<Rightarrow> bytes list \<Rightarrow> bytes option" where
  "hmac_vector hash_vector key elems =
     (if 5 < length elems then None
      else case (if 64 < length key then hash_vector [key] else (0, key)) of (ret, key) \<Rightarrow>
        if ret \<noteq> 0 then None
        else case hash_vector (k_pad 0x36 key # elems) of (ret, mac) \<Rightarrow>
          if ret \<noteq> 0 then None
          else case hash_vector [k_pad 0x5c key, mac] of (ret, mac) \<Rightarrow> if ret \<noteq> 0 then None else Some mac)"

text \<open>RFC 2104 over the hash \<open>h\<close> with blocks of 64 bytes.\<close>

definition rfc2104 :: "(bytes \<Rightarrow> bytes) \<Rightarrow> bytes \<Rightarrow> bytes \<Rightarrow> bytes" where
  "rfc2104 h key text =
     (let K = (if 64 < length key then h key else key); K = K @ replicate (64 - length K) 0
      in h (map (\<lambda>b. b XOR 0x5c) K @ h (map (\<lambda>b. b XOR 0x36) K @ text)))"

text \<open>A hash over a vector of areas that is the hash \<open>h\<close> of their concatenation, of \<open>mac_len\<close> bytes.\<close>

definition areas_ok :: "bytes list \<Rightarrow> bool" where
  "areas_ok ds \<longleftrightarrow> (\<forall>d\<in>set ds. length d < 2 ^ 32 - 64) \<and> length (concat ds) < 2 ^ 60"

locale vector_hash =
  fixes hash_vector :: "bytes list \<Rightarrow> int \<times> bytes" and h :: "bytes \<Rightarrow> bytes" and mac_len :: nat
  assumes vector_concat: "areas_ok ds \<Longrightarrow> hash_vector ds = (0, h (concat ds))"
    and h_length: "length (h m) = mac_len" and mac_len_block: "mac_len \<le> 64"
begin

lemma k_pad_short: "length key \<le> 64 \<Longrightarrow> k_pad x key = map (\<lambda>b. b XOR x) (key @ replicate (64 - length key) 0)"
  by (simp add: k_pad_def memput_def)

lemma vector_pad: "areas_ok ds \<Longrightarrow> length key \<le> 64 \<Longrightarrow> length (concat ds) < 2 ^ 59 \<Longrightarrow> hash_vector (k_pad x key # ds) = (0, h (k_pad x key @ concat ds))"
  using vector_concat[of "k_pad x key # ds"] by (simp add: areas_ok_def k_pad_short)

theorem hmac_rfc2104:
  assumes "length elems \<le> 5" and "areas_ok [key]" and "areas_ok elems" and "length (concat elems) < 2 ^ 59"
  shows "hmac_vector hash_vector key elems = Some (rfc2104 h key (concat elems))"
proof -
  let ?K = "if 64 < length key then h key else key"
  have K: "length ?K \<le> 64" using h_length mac_len_block by simp
  have "(if 64 < length key then hash_vector [key] else (0, key)) = (0, ?K)" using vector_concat[OF assms(2)] by simp
  moreover have "hash_vector (k_pad 0x36 ?K # elems) = (0, h (k_pad 0x36 ?K @ concat elems))" by (rule vector_pad[OF assms(3) K assms(4)])
  moreover have "hash_vector [k_pad 0x5c ?K, h m] = (0, h (k_pad 0x5c ?K @ h m))" for m
    using vector_pad[where ds = "[h m]" and key = ?K and x = "0x5c"] K h_length mac_len_block by (simp add: areas_ok_def)
  ultimately show ?thesis
    using assms(1) k_pad_short[OF K] unfolding hmac_vector_def rfc2104_def Let_def by simp
qed

lemma hmac_length: "length (rfc2104 h key m) = mac_len"
  by (simp add: rfc2104_def Let_def h_length)

end

section \<open>HMAC-SHA1\<close>

definition hmac_sha1_vector :: "bool \<Rightarrow> (nat \<Rightarrow> u8) \<Rightarrow> bytes \<Rightarrow> bytes list \<Rightarrow> bytes option" where
  "hmac_sha1_vector be junk key elems = hmac_vector (sha1_vector be junk) key elems"

definition hmac_sha1 :: "bool \<Rightarrow> (nat \<Rightarrow> u8) \<Rightarrow> bytes \<Rightarrow> bytes \<Rightarrow> bytes option" where
  "hmac_sha1 be junk key data = hmac_sha1_vector be junk key [data]"

interpretation hs: vector_hash "sha1_vector be junk" fips_sha1 20 for be junk
  by unfold_locales (simp_all add: sha1_vector_fips areas_ok_def)

section \<open>HMAC-MD5\<close>

definition hmac_md5_vector :: "bool \<Rightarrow> (nat \<Rightarrow> u8) \<Rightarrow> bytes \<Rightarrow> bytes list \<Rightarrow> bytes option" where
  "hmac_md5_vector be junk key elems = hmac_vector (md5_vector be junk) key elems"

definition hmac_md5 :: "bool \<Rightarrow> (nat \<Rightarrow> u8) \<Rightarrow> bytes \<Rightarrow> bytes \<Rightarrow> bytes option" where
  "hmac_md5 be junk key data = hmac_md5_vector be junk key [data]"

interpretation hm: vector_hash "md5_vector be junk" rfc_md5 16 for be junk
  by unfold_locales (fastforce simp: areas_ok_def intro!: md5_vector_rfc, simp_all)

lemma hmac_md5_rfc2104:
  "length elems \<le> 5 \<Longrightarrow> areas_ok [key] \<Longrightarrow> areas_ok elems \<Longrightarrow> length (concat elems) < 2 ^ 59 \<Longrightarrow>
   hmac_md5_vector be junk key elems = Some (rfc2104 rfc_md5 key (concat elems))"
  unfolding hmac_md5_vector_def by (rule hm.hmac_rfc2104)

section \<open>The pseudo-random function of 802.11i\<close>

function sha1_prf_loop :: "bool \<Rightarrow> (nat \<Rightarrow> u8) \<Rightarrow> bytes \<Rightarrow> bytes \<Rightarrow> bytes \<Rightarrow> u8 \<Rightarrow> nat \<Rightarrow> bytes option" where
  "sha1_prf_loop be junk key label data counter left =
     (if left = 0 then Some []
      else case hmac_sha1_vector be junk key [label @ [0], data, [counter]] of
             None \<Rightarrow> None
           | Some hash \<Rightarrow>
               if 20 \<le> left then map_option ((@) hash) (sha1_prf_loop be junk key label data (counter + 1) (left - 20))
               else Some (take left hash))"
  by pat_completeness auto

termination
  by (relation "measure (\<lambda>(be, junk, key, label, data, counter, left). left)") auto

declare sha1_prf_loop.simps [simp del]

definition sha1_prf :: "bool \<Rightarrow> (nat \<Rightarrow> u8) \<Rightarrow> bytes \<Rightarrow> bytes \<Rightarrow> bytes \<Rightarrow> nat \<Rightarrow> bytes option" where
  "sha1_prf be junk key label data buf_len = sha1_prf_loop be junk key label data 0 buf_len"

section \<open>Keys from a passphrase\<close>

text \<open>The loop of \<^verbatim>\<open>pbkdf2_sha1_f\<close> with \<open>n\<close> iterations left.\<close>

fun pbkdf2_iter :: "bool \<Rightarrow> (nat \<Rightarrow> u8) \<Rightarrow> bytes \<Rightarrow> nat \<Rightarrow> bytes \<Rightarrow> bytes \<Rightarrow> bytes option" where
  "pbkdf2_iter be junk passphrase 0 tmp digest = Some digest"
| "pbkdf2_iter be junk passphrase (Suc n) tmp digest =
     (case hmac_sha1 be junk passphrase tmp of
        None \<Rightarrow> None
      | Some tmp2 \<Rightarrow> pbkdf2_iter be junk passphrase n tmp2 (map2 (XOR) digest tmp2))"

definition pbkdf2_sha1_f :: "bool \<Rightarrow> (nat \<Rightarrow> u8) \<Rightarrow> bytes \<Rightarrow> bytes \<Rightarrow> int \<Rightarrow> u32 \<Rightarrow> bytes option" where
  "pbkdf2_sha1_f be junk passphrase ssid iterations count =
     (let count_buf = [ucast (drop_bit 24 count AND 0xff), ucast (drop_bit 16 count AND 0xff), ucast (drop_bit 8 count AND 0xff), ucast (count AND 0xff)]
      in case hmac_sha1_vector be junk passphrase [ssid, count_buf] of
           None \<Rightarrow> None
         | Some tmp \<Rightarrow> pbkdf2_iter be junk passphrase (nat (iterations - 1)) tmp tmp)"

function pbkdf2_loop :: "bool \<Rightarrow> (nat \<Rightarrow> u8) \<Rightarrow> bytes \<Rightarrow> bytes \<Rightarrow> int \<Rightarrow> u32 \<Rightarrow> nat \<Rightarrow> bytes option" where
  "pbkdf2_loop be junk passphrase ssid iterations count left =
     (if left = 0 then Some []
      else let count = count + 1
           in case pbkdf2_sha1_f be junk passphrase ssid iterations count of
                None \<Rightarrow> None
              | Some digest \<Rightarrow>
                  let plen = (if 20 < left then 20 else left)
                  in map_option ((@) (take plen digest)) (pbkdf2_loop be junk passphrase ssid iterations count (left - plen)))"
  by pat_completeness auto

termination
  by (relation "measure (\<lambda>(be, junk, passphrase, ssid, iterations, count, left). left)") auto

declare pbkdf2_loop.simps [simp del]

definition pbkdf2_sha1 :: "bool \<Rightarrow> (nat \<Rightarrow> u8) \<Rightarrow> bytes \<Rightarrow> bytes \<Rightarrow> int \<Rightarrow> nat \<Rightarrow> bytes option" where
  "pbkdf2_sha1 be junk passphrase ssid iterations buflen = pbkdf2_loop be junk passphrase ssid iterations 0 buflen"

section \<open>The standards\<close>

abbreviation hmac :: "bytes \<Rightarrow> bytes \<Rightarrow> bytes" where "hmac \<equiv> rfc2104 fips_sha1"

lemma hmac_sha1_rfc2104:
  "length elems \<le> 5 \<Longrightarrow> areas_ok [key] \<Longrightarrow> areas_ok elems \<Longrightarrow> length (concat elems) < 2 ^ 59 \<Longrightarrow>
   hmac_sha1_vector be junk key elems = Some (hmac key (concat elems))"
  unfolding hmac_sha1_vector_def by (rule hs.hmac_rfc2104)

text \<open>PRF of 802.11i, 8.5.1.1: blocks of HMAC-SHA1 over the label, a zero, the data and the number of the block.\<close>

definition prf_block :: "bytes \<Rightarrow> bytes \<Rightarrow> bytes \<Rightarrow> u8 \<Rightarrow> bytes" where
  "prf_block key label data i = hmac key (label @ [0] @ data @ [i])"

definition ieee_prf :: "bytes \<Rightarrow> bytes \<Rightarrow> bytes \<Rightarrow> nat \<Rightarrow> bytes" where
  "ieee_prf key label data n = take n (concat (map (\<lambda>i. prf_block key label data (of_nat i)) [0..<n div 20 + 1]))"

text \<open>PKCS 5: \<open>T\<^sub>i\<close> is the sum of \<open>c\<close> iterations of the HMAC over the salt and the number of the block.\<close>

fun pkcs5_U :: "bytes \<Rightarrow> bytes \<Rightarrow> u32 \<Rightarrow> nat \<Rightarrow> bytes" where
  "pkcs5_U P S i 0 = hmac P (S @ WPA_PUT_BE32 i)"
| "pkcs5_U P S i (Suc c) = hmac P (pkcs5_U P S i c)"

definition pkcs5_F :: "bytes \<Rightarrow> bytes \<Rightarrow> nat \<Rightarrow> u32 \<Rightarrow> bytes" where
  "pkcs5_F P S c i = fold (\<lambda>k d. map2 (XOR) d (pkcs5_U P S i k)) [1..<c] (pkcs5_U P S i 0)"

definition pkcs5_dk :: "bytes \<Rightarrow> bytes \<Rightarrow> nat \<Rightarrow> nat \<Rightarrow> bytes" where
  "pkcs5_dk P S c n = take n (concat (map (\<lambda>i. pkcs5_F P S c (of_nat i + 1)) [0..<n div 20 + 1]))"

section \<open>The routines meet them\<close>

text \<open>The numbered blocks a loop produces until \<open>left\<close> bytes are there.\<close>

definition blocks_upto :: "(nat \<Rightarrow> bytes) \<Rightarrow> nat \<Rightarrow> bytes" where
  "blocks_upto T left = take left (concat (map T [0..<left div 20 + 1]))"

lemma blocks_step:
  assumes T: "\<And>i. length (T i) = 20"
  shows "blocks_upto T 0 = []"
    "left < 20 \<Longrightarrow> blocks_upto T left = take left (T 0)"
    "20 \<le> left \<Longrightarrow> blocks_upto T left = T 0 @ blocks_upto (\<lambda>i. T (Suc i)) (left - 20)"
proof -
  show "blocks_upto T 0 = []" "left < 20 \<Longrightarrow> blocks_upto T left = take left (T 0)" by (simp_all add: blocks_upto_def)
  assume l: "20 \<le> left"
  then have "left div 20 + 1 = Suc ((left - 20) div 20 + 1)" using le_div_geq[of 20 left] by simp
  moreover have "[0..<Suc n] = 0 # map Suc [0..<n]" for n by (simp add: upt_conv_Cons map_Suc_upt del: upt_Suc)
  ultimately have "[0..<left div 20 + 1] = 0 # map Suc [0..<(left - 20) div 20 + 1]" by metis
  then show "blocks_upto T left = T 0 @ blocks_upto (\<lambda>i. T (Suc i)) (left - 20)"
    using l T[of 0] by (simp add: blocks_upto_def comp_def del: upt_Suc)
qed

lemma length_prf_block [simp]: "length (prf_block key label data i) = 20"
  by (simp add: prf_block_def hs.hmac_length)

lemma sha1_prf_loop_blocks:
  assumes k: "length key < 2 ^ 31" "length label < 2 ^ 31" "length data < 2 ^ 31"
  shows "sha1_prf_loop be junk key label data c left = Some (blocks_upto (\<lambda>i. prf_block key label data (c + of_nat i)) left)"
proof (induction left arbitrary: c rule: less_induct)
  case (less left)
  have h: "hmac_sha1_vector be junk key [label @ [0], data, [c]] = Some (prf_block key label data c)"
    using k by (subst hmac_sha1_rfc2104) (simp_all add: areas_ok_def prf_block_def)
  note step = blocks_step(2,3)[where left = left and T = "\<lambda>i. prf_block key label data (c + of_nat i)"]
  show ?case
  proof (cases "left < 20")
    case True
    then show ?thesis using step by (subst sha1_prf_loop.simps) (simp add: h)
  next
    case False
    then have "sha1_prf_loop be junk key label data (c + 1) (left - 20) =
        Some (blocks_upto (\<lambda>i. prf_block key label data (c + of_nat (Suc i))) (left - 20))"
      using less[of "left - 20" "c + 1"] by (simp add: add.assoc)
    then show ?thesis using False step by (subst sha1_prf_loop.simps) (simp add: h)
  qed
qed

lemma sha1_prf_ieee:
  assumes "length key < 2 ^ 31" "length label < 2 ^ 31" "length data < 2 ^ 31"
  shows "sha1_prf be junk key label data n = Some (ieee_prf key label data n)"
  using sha1_prf_loop_blocks[OF assms, of be junk 0 n] by (simp add: sha1_prf_def ieee_prf_def blocks_upto_def)

lemma length_blocks_upto: "(\<And>i. length (T i) = 20) \<Longrightarrow> length (blocks_upto T n) = n"
proof (induction n arbitrary: T rule: less_induct)
  case (less n)
  show ?case
  proof (cases "n < 20")
    case False
    then show ?thesis using blocks_step(3)[OF less(2), of n] less(1)[of "n - 20" "\<lambda>i. T (Suc i)"] less(2) by simp
  qed (use less(2) in \<open>simp add: blocks_step(2)[OF less(2)]\<close>)
qed

lemma length_ieee_prf [simp]: "length (ieee_prf key label data n) = n"
  using length_blocks_upto[of "\<lambda>i. prf_block key label data (of_nat i)" n] by (simp add: ieee_prf_def blocks_upto_def)

lemma length_pkcs5_U [simp]: "length (pkcs5_U P S i c) = 20"
  by (cases c) (simp_all add: hs.hmac_length)

lemma length_pkcs5_F [simp]: "length (pkcs5_F P S c i) = 20"
proof -
  have "length d = 20 \<Longrightarrow> length (fold (\<lambda>k d. map2 (XOR) d (pkcs5_U P S i k)) ks d) = 20" for ks d
    by (induction ks arbitrary: d) simp_all
  then show ?thesis by (simp add: pkcs5_F_def del: pkcs5_U.simps)
qed

lemma pbkdf2_iter_sum:
  assumes "length P < 2 ^ 31"
  shows "pbkdf2_iter be junk P n (pkcs5_U P S i k) d = Some (fold (\<lambda>k d. map2 (XOR) d (pkcs5_U P S i k)) [Suc k..<Suc k + n] d)"
proof (induction n arbitrary: k d)
  case (Suc n)
  have "hmac_sha1 be junk P (pkcs5_U P S i k) = Some (pkcs5_U P S i (Suc k))"
    unfolding hmac_sha1_def using assms by (subst hmac_sha1_rfc2104) (simp_all add: areas_ok_def)
  then show ?case using Suc[of "Suc k"] by (simp add: upt_conv_Cons[of "Suc k"] del: upt_Suc pkcs5_U.simps)
qed simp

lemma pbkdf2_f_pkcs5:
  assumes "length P < 2 ^ 31" "length S < 2 ^ 31" "1 \<le> c"
  shows "pbkdf2_sha1_f be junk P S (int c) i = Some (pkcs5_F P S c i)"
proof -
  have "hmac_sha1_vector be junk P [S, WPA_PUT_BE32 i] = Some (pkcs5_U P S i 0)"
    using assms by (subst hmac_sha1_rfc2104) (simp_all add: areas_ok_def)
  moreover have "nat (int c - 1) = c - 1" by simp
  ultimately show ?thesis
    using pbkdf2_iter_sum[OF assms(1), of be junk "c - 1" S i 0] assms(3)
    by (simp add: pbkdf2_sha1_f_def pkcs5_F_def byte_defs del: pkcs5_U.simps)
qed

lemma pbkdf2_loop_blocks:
  assumes k: "length P < 2 ^ 31" "length S < 2 ^ 31" "1 \<le> c"
  shows "pbkdf2_loop be junk P S (int c) count left = Some (blocks_upto (\<lambda>i. pkcs5_F P S c (count + 1 + of_nat i)) left)"
proof (induction left arbitrary: count rule: less_induct)
  case (less left)
  note step = blocks_step(2,3)[where left = left and T = "\<lambda>i. pkcs5_F P S c (count + 1 + of_nat i)"]
  show ?case
  proof (cases "left < 20")
    case True
    then show ?thesis
      using step by (subst pbkdf2_loop.simps) (simp add: pbkdf2_f_pkcs5[OF k] pbkdf2_loop.simps[of _ _ _ _ _ _ 0])
  next
    case False
    then have "pbkdf2_loop be junk P S (int c) (count + 1) (left - 20) =
        Some (blocks_upto (\<lambda>i. pkcs5_F P S c (count + 1 + of_nat (Suc i))) (left - 20))"
      using less[of "left - 20" "count + 1"] by (simp add: add.assoc add.left_commute)
    moreover have "(if 20 < left then 20 else left) = 20" using False by simp
    ultimately show ?thesis
      using False step(2) by (subst pbkdf2_loop.simps) (simp only: Let_def pbkdf2_f_pkcs5[OF k] option.case option.map, simp)
  qed
qed

lemma pbkdf2_pkcs5:
  assumes "length P < 2 ^ 31" "length S < 2 ^ 31" "1 \<le> c"
  shows "pbkdf2_sha1 be junk P S (int c) n = Some (pkcs5_dk P S c n)"
  using pbkdf2_loop_blocks[OF assms, of be junk 0 n] by (simp add: pbkdf2_sha1_def pkcs5_dk_def blocks_upto_def add.commute)

section \<open>Properties\<close>

text \<open>C25. HMAC over a vector: with more than five areas both functions report an error; otherwise they compute the HMAC
  of RFC 2104 over the concatenation of the areas, with SHA-1 and with MD5, also for keys longer than a block.\<close>

theorem hmac_vectors_are_rfc2104:
  assumes "length key < 2 ^ 31" and "\<forall>d\<in>set elems. length d < 2 ^ 31"
  shows "hmac_sha1_vector be junk key elems = (if 5 < length elems then None else Some (rfc2104 fips_sha1 key (concat elems))) \<and>
    hmac_md5_vector be junk key elems = (if 5 < length elems then None else Some (rfc2104 rfc_md5 key (concat elems)))"
proof (cases "5 < length elems")
  case True
  then show ?thesis by (simp add: hmac_sha1_vector_def hmac_md5_vector_def hmac_vector_def)
next
  case False
  have "length (concat ds) \<le> length ds * 2 ^ 31" if "\<forall>d\<in>set ds. length d < 2 ^ 31" for ds :: "bytes list"
    using that by (induction ds) auto
  from this[OF assms(2)] have "length (concat elems) \<le> 5 * 2 ^ 31" using False by simp
  then have "areas_ok elems" "length (concat elems) < 2 ^ 59" "areas_ok [key]" using assms by (fastforce simp: areas_ok_def)+
  then show ?thesis using False hmac_sha1_rfc2104[of elems key] hmac_md5_rfc2104[of elems key] by simp
qed

lemma hmac_vectors_are_rfc2104_witness:
  "hmac_sha1_vector True (\<lambda>_. 0) [1, 2] [[3], [4]] = Some (rfc2104 fips_sha1 [1, 2] [3, 4]) \<and>
   hmac_md5_vector True (\<lambda>_. 0) [1, 2] [[3], [4]] = Some (rfc2104 rfc_md5 [1, 2] [3, 4])"
  using hmac_vectors_are_rfc2104[of "[1, 2]" "[[3], [4]]" True "\<lambda>_. 0"] by simp

text \<open>C26. The key derivations: \<^verbatim>\<open>sha1_prf\<close> is the pseudo-random function of IEEE 802.11i, and \<^verbatim>\<open>pbkdf2_sha1\<close>, by which a
  passphrase becomes a pre-shared key, is PBKDF2 of PKCS 5, for any number of iterations and any length.\<close>

theorem sha1_key_derivation_standard:
  assumes "length key < 2 ^ 31" "length label < 2 ^ 31" "length data < 2 ^ 31" "1 \<le> iterations"
  shows "sha1_prf be junk key label data n = Some (ieee_prf key label data n) \<and>
    pbkdf2_sha1 be junk key data (int iterations) n = Some (pkcs5_dk key data iterations n)"
  using sha1_prf_ieee[OF assms(1-3)] pbkdf2_pkcs5[OF assms(1,3,4)] by simp

lemma sha1_key_derivation_standard_witness:
  "sha1_prf False (\<lambda>_. 0) [1] [2] [3] 48 = Some (ieee_prf [1] [2] [3] 48) \<and>
   pbkdf2_sha1 False (\<lambda>_. 0) [1] [3] (int 4096) 48 = Some (pkcs5_dk [1] [3] 4096 48)"
  by (rule sha1_key_derivation_standard) simp_all

end
