(* ===== verification/Rc4.thy ===== *)
theory Rc4
  imports Byte_Utils
begin

unbundle bit_operations_syntax

text \<open>
  The stream cipher of \<^verbatim>\<open>src/athr-hostap/src/crypto/rc4.c\<close>. The permutation \<^verbatim>\<open>S\<close> is a list of 256 bytes, \<^verbatim>\<open>i\<close> and
  \<^verbatim>\<open>j\<close> are words of 32 bits. The data is changed in place; the result is its new contents. The return
  value is always 0.
\<close>

section \<open>The routine\<close>

type_synonym rc4_state = "bytes \<times> u32 \<times> u32"

definition S_SWAP :: "bytes \<Rightarrow> nat \<Rightarrow> nat \<Rightarrow> bytes" where "S_SWAP S a b = S[a := S ! b, b := S ! a]"

text \<open>One pass of the loop that mixes the key in; \<^verbatim>\<open>kpos\<close> is the position in the key.\<close>

fun rc4_key_step :: "bytes \<Rightarrow> nat \<Rightarrow> bytes \<times> u32 \<times> nat \<Rightarrow> bytes \<times> u32 \<times> nat" where
  "rc4_key_step key i (S, j, kpos) =
     (let j = (j + ucast (S ! i) + ucast (key ! kpos)) AND 0xff;
          kpos = kpos + 1;
          kpos = (if length key \<le> kpos then 0 else kpos)
      in (S_SWAP S i (unat j), j, kpos))"

definition rc4_setup :: "bytes \<Rightarrow> bytes" where
  "rc4_setup key = fst (fold (rc4_key_step key) [0..<256] (map of_nat [0..<256], 0, 0))"

text \<open>The step that the loops over the skipped bytes and over the data share.\<close>

fun rc4_step :: "rc4_state \<Rightarrow> rc4_state" where
  "rc4_step (S, i, j) =
     (let i = (i + 1) AND 0xff; j = (j + ucast (S ! unat i)) AND 0xff in (S_SWAP S (unat i) (unat j), i, j))"

fun rc4_byte :: "rc4_state \<Rightarrow> u8" where
  "rc4_byte (S, i, j) = S ! unat ((ucast (S ! unat i) + ucast (S ! unat j) :: u32) AND 0xff)"

fun rc4_apply :: "rc4_state \<Rightarrow> bytes \<Rightarrow> bytes" where
  "rc4_apply s [] = []"
| "rc4_apply s (b # bs) = (let s = rc4_step s in (b XOR rc4_byte s) # rc4_apply s bs)"

definition rc4_skip :: "bytes \<Rightarrow> nat \<Rightarrow> bytes \<Rightarrow> bytes" where
  "rc4_skip key skip data = rc4_apply ((rc4_step ^^ skip) (rc4_setup key, 0, 0)) data"

section \<open>The key stream\<close>

fun keystream :: "rc4_state \<Rightarrow> nat \<Rightarrow> bytes" where
  "keystream s 0 = []"
| "keystream s (Suc n) = rc4_byte (rc4_step s) # keystream (rc4_step s) n"

lemma length_keystream [simp]: "length (keystream s n) = n"
  by (induction n arbitrary: s) simp_all

lemma rc4_apply_xor: "rc4_apply s d = map2 (XOR) d (keystream s (length d))"
  by (induction d arbitrary: s) (simp_all add: Let_def)

lemma length_rc4_skip [simp]: "length (rc4_skip key skip d) = length d"
  by (simp add: rc4_skip_def rc4_apply_xor)

lemma rc4_apply_twice: "rc4_apply s (rc4_apply s d) = d"
  by (induction d arbitrary: s) (simp_all add: Let_def xor.assoc)

lemma rc4_apply_append: "rc4_apply s (d @ e) = rc4_apply s d @ rc4_apply ((rc4_step ^^ length d) s) e"
  by (induction d arbitrary: s) (simp_all add: Let_def funpow_swap1)

section \<open>The permutation\<close>

text \<open>Each byte once; then every index of the routine is inside the table.\<close>

definition perm :: "bytes \<Rightarrow> bool" where "perm S \<longleftrightarrow> length S = 256 \<and> distinct S"

lemma perm_start: "perm (map of_nat [0..<256])"
proof -
  have "inj_on (of_nat :: nat \<Rightarrow> u8) {0..<256}"
    by (rule inj_onI) (simp add: of_nat_eq_iff word_of_nat_eq_iff take_bit_nat_eq_self)
  then show ?thesis by (simp add: perm_def distinct_map del: upt_rec_numeral)
qed

lemma masked_index: "unat (x AND 0xff :: u32) < 256"
  using take_bit_nat_less_exp[of 8 "unat x"] by (simp add: ff_mask unsigned_take_bit_eq flip: take_bit_eq_mask)

lemma perm_swap: "perm S \<Longrightarrow> a < 256 \<Longrightarrow> b < 256 \<Longrightarrow> perm (S_SWAP S a b)"
  by (simp add: perm_def S_SWAP_def)

lemma perm_all: "perm S \<Longrightarrow> set S = UNIV"
  by (rule card_subset_eq) (simp_all add: perm_def distinct_card card_word)

lemma key_step_perm: "perm (fst s) \<Longrightarrow> i < 256 \<Longrightarrow> perm (fst (rc4_key_step key i s))"
  by (cases s) (simp add: Let_def perm_swap masked_index)

lemma setup_perm: "perm (rc4_setup key)"
proof -
  have "\<forall>i\<in>set is. i < 256 \<Longrightarrow> perm (fst s) \<Longrightarrow> perm (fst (fold (rc4_key_step key) is s))" for "is" s
    by (induction "is" arbitrary: s) (simp_all add: key_step_perm)
  then show ?thesis by (simp add: rc4_setup_def perm_start del: upt_rec_numeral)
qed

lemma step_perm: "perm (fst s) \<Longrightarrow> perm (fst (rc4_step s))"
  by (cases s) (simp add: Let_def perm_swap masked_index)

lemma steps_perm: "perm (fst s) \<Longrightarrow> perm (fst ((rc4_step ^^ n) s))"
  by (induction n) (simp_all add: step_perm)

end
