(* ===== verification/Aes_Tables.thy ===== *)
theory Aes_Tables
  imports Aes_Internal
begin

unbundle bit_operations_syntax

text \<open>
  What the tables of \<open>Aes_Internal\<close> are: \<^verbatim>\<open>Td4s\<close> is the inverse of the substitution in \<^verbatim>\<open>Te0\<close>, both
  \<^verbatim>\<open>Te0\<close> and \<^verbatim>\<open>Td0\<close> are linear functions of it, and the second undoes the first. This is the part of
  the proof that is computed over the tables; the rest is the algebra of the rounds.
\<close>

section \<open>Bytes of a word\<close>

definition byte_of :: "nat \<Rightarrow> u32 \<Rightarrow> u8" where "byte_of k w = ucast (drop_bit (8 * k) w)"

definition pack :: "u8 \<Rightarrow> u8 \<Rightarrow> u8 \<Rightarrow> u8 \<Rightarrow> u32" where
  "pack a b c d = push_bit 24 (ucast a) XOR push_bit 16 (ucast b) XOR push_bit 8 (ucast c) XOR ucast d"

lemma pack_bytes: "pack (byte_of 3 w) (byte_of 2 w) (byte_of 1 w) (byte_of 0 w) = w"
  by (rule byte_wordI) (auto simp: pack_def byte_of_def bit_simps)

lemma high_bit: "8 \<le> k \<Longrightarrow> \<not> bit (b :: u8) k"
  using bit_imp_le_length[of b k] by auto

lemma byte_pack:
  "byte_of 3 (pack a b c d) = a" "byte_of 2 (pack a b c d) = b" "byte_of 1 (pack a b c d) = c" "byte_of 0 (pack a b c d) = d"
  by (auto intro!: bit_word_eqI simp: pack_def byte_of_def bit_simps high_bit)

lemma byte_xor: "byte_of k (v XOR w) = byte_of k v XOR byte_of k w"
  by (rule bit_word_eqI) (auto simp: byte_of_def bit_simps)

lemma GETU32_pack: "GETU32 p = pack (p ! 0) (p ! 1) (p ! 2) (p ! 3)"
  by (simp add: GETU32_def pack_def)

lemma PUTU32_bytes: "PUTU32 w = [byte_of 3 w, byte_of 2 w, byte_of 1 w, byte_of 0 w]"
  by (simp add: PUTU32_def byte_of_def)

lemma low_byte: "unat (w AND 0xff :: u32) = unat (ucast w :: u8)"
proof -
  have "(w AND 0xff) = ucast (ucast w :: u8)"
  proof (rule bit_word_eqI)
    have m: "(0xff :: u32) = mask 8" by (simp add: mask_eq_exp_minus_1)
    show "bit (w AND 0xff) n = bit (ucast (ucast w :: u8) :: u32) n" if "n < LENGTH(32)" for n
      using that unfolding m by (auto simp: bit_simps)
  qed
  moreover have "unat (ucast x :: u32) = unat x" for x :: u8
    by (simp add: unsigned_ucast_eq take_bit_nat_eq_self[OF less_le_trans[OF unsigned_less]])
  ultimately show ?thesis by simp
qed

section \<open>The tables\<close>

definition sbox :: "u8 \<Rightarrow> u8" where "sbox x = byte_of 1 (Te0 ! unat x)"

text \<open>A linear function of a byte, given by its values at the eight bits.\<close>

fun columns :: "u32 \<times> u32 \<times> u32 \<times> u32 \<times> u32 \<times> u32 \<times> u32 \<times> u32 \<Rightarrow> u8 \<Rightarrow> u32" where
  "columns (c0, c1, c2, c3, c4, c5, c6, c7) y = (if bit y 0 then c0 else 0) XOR (if bit y 1 then c1 else 0) XOR (if bit y 2 then c2 else 0) XOR
    (if bit y 3 then c3 else 0) XOR (if bit y 4 then c4 else 0) XOR (if bit y 5 then c5 else 0) XOR
    (if bit y 6 then c6 else 0) XOR (if bit y 7 then c7 else 0)"

text \<open>A byte times the column of the mixing and of its inverse.\<close>

definition mix_column :: "u8 \<Rightarrow> u32" where
  "mix_column = columns (0x02010103, 0x04020206, 0x0804040c, 0x10080818, 0x20101030, 0x40202060, 0x804040c0, 0x1b80809b)"

definition inv_column :: "u8 \<Rightarrow> u32" where
  "inv_column = columns (0x0e090d0b, 0x1c121a16, 0x3824342c, 0x70486858, 0xe090d0b0, 0xdb3bbb7b, 0xad766df6, 0x41ecdaf7)"

definition inv_mix :: "u32 \<Rightarrow> u32" where
  "inv_mix w = inv_column (byte_of 3 w) XOR rotr (inv_column (byte_of 2 w)) 8 XOR rotr (inv_column (byte_of 1 w)) 16 XOR
     rotr (inv_column (byte_of 0 w)) 24"

lemma table_lengths: "length Te0 = 256" "length Td0 = 256" "length Td4s = 256"
  by (simp_all add: Te0_def Td0_def Td4s_def)

lemma Td0_column: "Td0 = map inv_column Td4s"
  by code_simp

lemma Te0_column: "Te0 = map (\<lambda>w. mix_column (byte_of 1 w)) Te0"
  by code_simp

lemma Te0_middle: "map (byte_of 2) Te0 = map (byte_of 1) Te0"
  by code_simp

lemma Td4s_inverts: "map (\<lambda>w. Td4s ! unat (byte_of 1 w)) Te0 = map of_nat [0..<256]"
  by code_simp

section \<open>Linearity\<close>

lemma columns_xor:
  "columns (c0, c1, c2, c3, c4, c5, c6, c7) (x XOR y) = columns (c0, c1, c2, c3, c4, c5, c6, c7) x XOR columns (c0, c1, c2, c3, c4, c5, c6, c7) y"
proof -
  have b: "(if bit (x XOR y) k then a else 0) = (if bit x k then a else 0) XOR (if bit y k then a else (0 :: u32))" for k a
    by (simp add: bit_xor_iff)
  show ?thesis by (simp only: columns.simps b ac_simps)
qed

lemma rotr_bit: "n < 32 \<Longrightarrow> k < 32 \<Longrightarrow> bit (rotr w k) n = bit w (if k + n < 32 then k + n else k + n - 32)"
proof -
  assume k: "n < 32" "k < 32"
  have "\<not> bit w (k + n)" if "32 \<le> k + n" using that bit_imp_le_length[of w "k + n"] by auto
  then show ?thesis using k by (auto simp: rotr_def bit_simps add.commute)
qed

lemma rotr_xor: "rotr (v XOR w) k = rotr v k XOR rotr w k" if "k < 32"
  using that by (auto intro!: bit_word_eqI simp: rotr_bit bit_simps)

lemma inv_column_xor: "inv_column (x XOR y) = inv_column x XOR inv_column y"
  unfolding inv_column_def by (rule columns_xor)

lemma inv_mix_xor: "inv_mix (v XOR w) = inv_mix v XOR inv_mix w"
  by (simp add: inv_mix_def byte_xor inv_column_xor rotr_xor ac_simps)

lemma inv_mix_columns:
  "inv_mix (columns (c0, c1, c2, c3, c4, c5, c6, c7) y) =
    columns (inv_mix c0, inv_mix c1, inv_mix c2, inv_mix c3, inv_mix c4, inv_mix c5, inv_mix c6, inv_mix c7) y"
proof -
  have "inv_mix 0 = 0" by code_simp
  then have "inv_mix (if b then c else 0) = (if b then inv_mix c else 0)" for b c by simp
  then show ?thesis by (simp only: columns.simps inv_mix_xor)
qed

lemma inv_mix_basis:
  "inv_mix 0x02010103 = push_bit 24 1" "inv_mix 0x04020206 = push_bit 25 1" "inv_mix 0x0804040c = push_bit 26 1"
  "inv_mix 0x10080818 = push_bit 27 1" "inv_mix 0x20101030 = push_bit 28 1" "inv_mix 0x40202060 = push_bit 29 1"
  "inv_mix 0x804040c0 = push_bit 30 1" "inv_mix 0x1b80809b = push_bit 31 1"
  by code_simp+

text \<open>The table of the encryption undone.\<close>

lemma top_byte: "columns (push_bit 24 1, push_bit 25 1, push_bit 26 1, push_bit 27 1, push_bit 28 1, push_bit 29 1, push_bit 30 1, push_bit 31 1) y =
    push_bit 24 (ucast y)"
proof (rule bit_word_eqI)
  fix n assume n: "n < LENGTH(32)"
  have one: "bit (if b then push_bit k 1 else 0 :: u32) n \<longleftrightarrow> b \<and> n = k" for b k using n by (auto simp: bit_simps)
  have "n < 24 \<or> n = 24 \<or> n = 25 \<or> n = 26 \<or> n = 27 \<or> n = 28 \<or> n = 29 \<or> n = 30 \<or> n = 31" using n by auto
  then show "bit (columns (push_bit 24 1, push_bit 25 1, push_bit 26 1, push_bit 27 1, push_bit 28 1, push_bit 29 1, push_bit 30 1, push_bit 31 1) y) n =
      bit (push_bit 24 (ucast y) :: u32) n"
    unfolding columns.simps bit_xor_iff one by (elim disjE) (simp_all add: bit_simps)
qed

lemma inv_mix_column: "inv_mix (mix_column y) = push_bit 24 (ucast y)"
  unfolding mix_column_def inv_mix_columns inv_mix_basis by (rule top_byte)

lemma unat_u8: "unat (x :: u8) < 256"
  using unsigned_less[of x] by simp

lemma map_nth_eq: "map f xs = map g ys \<Longrightarrow> n < length xs \<Longrightarrow> f (xs ! n) = g (ys ! n)"
  by (metis length_map nth_map)

lemma te0_sbox: "Te0 ! unat x = mix_column (sbox x)"
  unfolding sbox_def using unat_u8[of x] arg_cong[OF Te0_column, of "\<lambda>l. l ! unat x"] table_lengths(1) nth_map[of "unat x" Te0] by metis

lemma sbox_middle: "byte_of 2 (Te0 ! unat x) = sbox x"
  unfolding sbox_def by (rule map_nth_eq[OF Te0_middle]) (simp add: table_lengths unat_u8)

lemma td4s_sbox: "Td4s ! unat (sbox x) = x"
proof -
  have "Td4s ! unat (byte_of 1 (Te0 ! unat x)) = of_nat ([0..<256] ! unat x)"
    by (rule map_nth_eq[OF Td4s_inverts]) (simp add: table_lengths unat_u8)
  then show ?thesis using unat_u8[of x] by (simp add: sbox_def)
qed

lemma td0_sbox: "Td0 ! unat (sbox x) = inv_column x"
  unfolding Td0_column using td4s_sbox[of x] by (simp add: table_lengths unat_u8)

end
