(* ===== verification/Aes_Props.thy ===== *)
theory Aes_Props
  imports Aes_Tables
begin

unbundle bit_operations_syntax

text \<open>
  The decryption of \<open>Aes_Internal\<close> inverts its encryption, by the algebra of the rounds over the facts
  of \<open>Aes_Tables\<close>.
\<close>

section \<open>Rounds\<close>

lemma byte_drop: "byte_of 0 (drop_bit 24 w) = byte_of 3 w" "byte_of 0 (drop_bit 16 w) = byte_of 2 w" "byte_of 0 (drop_bit 8 w) = byte_of 1 w"
  by (simp_all add: byte_of_def)

lemma te0_byte: "te0 w = mix_column (sbox (byte_of 0 w))"
  by (simp add: te0_def low_byte byte_of_def te0_sbox)

lemma td0_byte: "td0 w = Td0 ! unat (byte_of 0 w)"
  by (simp add: td0_def low_byte byte_of_def)

lemma td4s_byte: "td4s w = ucast (Td4s ! unat (byte_of 0 w))"
  by (simp add: td4s_def low_byte byte_of_def)

text \<open>The mixing of the four bytes of a column, and the substituted bytes in shifted rows.\<close>

definition mix :: "u32 \<Rightarrow> u32" where
  "mix w = mix_column (byte_of 3 w) XOR rotr (mix_column (byte_of 2 w)) 8 XOR rotr (mix_column (byte_of 1 w)) 16 XOR
     rotr (mix_column (byte_of 0 w)) 24"

fun shift_sub :: "aes_state \<Rightarrow> aes_state" where
  "shift_sub (s0, s1, s2, s3) =
     (pack (sbox (byte_of 3 s0)) (sbox (byte_of 2 s1)) (sbox (byte_of 1 s2)) (sbox (byte_of 0 s3)),
      pack (sbox (byte_of 3 s1)) (sbox (byte_of 2 s2)) (sbox (byte_of 1 s3)) (sbox (byte_of 0 s0)),
      pack (sbox (byte_of 3 s2)) (sbox (byte_of 2 s3)) (sbox (byte_of 1 s0)) (sbox (byte_of 0 s1)),
      pack (sbox (byte_of 3 s3)) (sbox (byte_of 2 s0)) (sbox (byte_of 1 s1)) (sbox (byte_of 0 s2)))"

lemma inv_mix_rotr: "inv_mix (rotr w 8) = rotr (inv_mix w) 8" "inv_mix (rotr w 16) = rotr (inv_mix w) 16" "inv_mix (rotr w 24) = rotr (inv_mix w) 24"
proof -
  have b: "byte_of 3 (rotr w 8) = byte_of 0 w" "byte_of 2 (rotr w 8) = byte_of 3 w" "byte_of 1 (rotr w 8) = byte_of 2 w" "byte_of 0 (rotr w 8) = byte_of 1 w" for w
    by (auto intro!: bit_word_eqI simp: byte_of_def bit_simps rotr_bit)
  have rr: "rotr (rotr w 8) 8 = rotr w 16" "rotr (rotr w 16) 8 = rotr w 24" "rotr (rotr w 24) 8 = w" for w
    by (rule bit_word_eqI; auto simp: rotr_bit split: if_splits; fail)+
  have 8: "inv_mix (rotr w 8) = rotr (inv_mix w) 8" for w by (simp add: inv_mix_def b rotr_xor rr ac_simps del: One_nat_def)
  show "inv_mix (rotr w 8) = rotr (inv_mix w) 8" by (rule 8)
  show "inv_mix (rotr w 16) = rotr (inv_mix w) 16" using 8[of "rotr w 8"] 8[of w] by (simp add: rr)
  show "inv_mix (rotr w 24) = rotr (inv_mix w) 24" using 8[of "rotr w 16"] 8[of "rotr w 8"] 8[of w] by (simp add: rr)
qed

lemma inv_mix_mix: "inv_mix (mix w) = w"
proof -
  have "rotr (push_bit 24 (ucast x)) 8 = push_bit 16 (ucast x)" "rotr (push_bit 24 (ucast x)) 16 = push_bit 8 (ucast x)"
    "rotr (push_bit 24 (ucast x)) 24 = ucast x" for x :: u8
    by (rule bit_word_eqI; auto simp: rotr_bit bit_simps high_bit split: if_splits; fail)+
  then show ?thesis using pack_bytes[of w] by (simp add: mix_def inv_mix_xor inv_mix_rotr inv_mix_column pack_def)
qed


text \<open>The steps of a round on the four words of the state.\<close>

fun add_key :: "u32 list \<Rightarrow> nat \<Rightarrow> aes_state \<Rightarrow> aes_state" where
  "add_key rk i (s0, s1, s2, s3) = (s0 XOR rk ! (4 * i), s1 XOR rk ! (4 * i + 1), s2 XOR rk ! (4 * i + 2), s3 XOR rk ! (4 * i + 3))"

fun on_words :: "(u32 \<Rightarrow> u32) \<Rightarrow> aes_state \<Rightarrow> aes_state" where
  "on_words f (s0, s1, s2, s3) = (f s0, f s1, f s2, f s3)"

lemma enc_round_steps: "enc_round rk i s = add_key rk i (on_words mix (shift_sub s))"
  by (cases s) (simp add: TE0_def TE1_def TE2_def TE3_def te0_byte byte_drop mix_def byte_pack ac_simps del: One_nat_def)

lemma dec_round_shift: "dec_round rk i (shift_sub s) = add_key rk i (on_words inv_mix s)"
  by (cases s) (simp add: TD0_def TD1_def TD2_def TD3_def td0_byte byte_drop byte_pack td0_sbox inv_mix_def ac_simps del: One_nat_def)

lemma dec_last_shift: "dec_last rk (shift_sub s) = add_key rk 0 s"
proof -
  have w: "push_bit 24 (ucast (byte_of 3 w)) XOR push_bit 16 (ucast (byte_of 2 w)) XOR push_bit 8 (ucast (byte_of 1 w)) XOR
      ucast (byte_of 0 w) XOR k = w XOR k" for w k
    using arg_cong[OF pack_bytes[of w], of "\<lambda>x. x XOR k"] by (simp add: pack_def xor.assoc)
  show ?thesis
    by (cases s) (simp add: TD41_def TD42_def TD43_def TD44_def td4s_byte byte_drop byte_pack td4s_sbox w del: One_nat_def add_2_eq_Suc')
qed

text \<open>The masked lookups of the last round are the bytes of the substitution.\<close>

lemma masked_te0:
  "push_bit 8 (te0 w) AND 0xff000000 = push_bit 24 (ucast (sbox (byte_of 0 w)))"
  "te0 w AND 0x00ff0000 = push_bit 16 (ucast (sbox (byte_of 0 w)))"
  "te0 w AND 0x0000ff00 = push_bit 8 (ucast (sbox (byte_of 0 w)))"
  "drop_bit 8 (te0 w) AND 0x000000ff = ucast (sbox (byte_of 0 w))"
proof -
  have m: "(0xff000000 :: u32) = push_bit 24 (mask 8)" "(0x00ff0000 :: u32) = push_bit 16 (mask 8)"
    "(0x0000ff00 :: u32) = push_bit 8 (mask 8)" "(0xff :: u32) = mask 8"
    by code_simp+
  define v where "v = te0 w"
  have s: "sbox (byte_of 0 w) = byte_of 1 v" "sbox (byte_of 0 w) = byte_of 2 v"
    unfolding v_def te0_def low_byte using sbox_middle[of "byte_of 0 w"] sbox_def[of "byte_of 0 w"] by (simp_all add: byte_of_def)
  show "push_bit 8 (te0 w) AND 0xff000000 = push_bit 24 (ucast (sbox (byte_of 0 w)))"
    unfolding m v_def[symmetric] s(2) by (rule bit_word_eqI) (auto simp: byte_of_def bit_simps)
  show "te0 w AND 0x00ff0000 = push_bit 16 (ucast (sbox (byte_of 0 w)))"
    unfolding m v_def[symmetric] s(2) by (rule bit_word_eqI) (auto simp: byte_of_def bit_simps)
  show "te0 w AND 0x0000ff00 = push_bit 8 (ucast (sbox (byte_of 0 w)))"
    unfolding m v_def[symmetric] s(1) by (rule bit_word_eqI) (auto simp: byte_of_def bit_simps)
  show "drop_bit 8 (te0 w) AND 0x000000ff = ucast (sbox (byte_of 0 w))"
    unfolding m v_def[symmetric] s(1) by (rule bit_word_eqI) (auto simp: byte_of_def bit_simps)
qed

lemma enc_last_steps: "enc_last rk s = add_key rk 0 (shift_sub s)"
  by (cases s) (simp add: TE41_def TE42_def TE43_def TE44_def masked_te0 byte_drop pack_def ac_simps del: One_nat_def add_2_eq_Suc')

section \<open>Key schedules\<close>

lemma length_key_setup: "length rk = 4 * i + 4 \<Longrightarrow> length (key_setup_round i rk) = 4 * Suc i + 4"
  by (simp add: key_setup_round_def Let_def)

lemma length_rounds: "length rk = 4 * i + 4 \<Longrightarrow> length (fold key_setup_round [i..<i + n] rk) = 4 * (i + n) + 4"
proof (induction n)
  case (Suc n)
  then show ?case using length_key_setup[of "fold key_setup_round [i..<i + n] rk" "i + n"] by simp
qed simp

lemma length_enc_schedule: "length (rijndaelKeySetupEnc k) = 44"
  using length_rounds[of _ 0 10] by (simp add: rijndaelKeySetupEnc_def)

text \<open>The words of the inverted schedule.\<close>

definition group_rev :: "nat \<Rightarrow> nat" where "group_rev m = 40 - 4 * (m div 4) + m mod 4"

lemma TE4_byte: "TE4 (ucast b) = ucast (sbox b)" for b :: u8
proof -
  have "ucast b AND 0xff = (ucast b :: u32)" "byte_of 0 (ucast b) = b"
    by (rule bit_word_eqI; auto simp: ff_mask byte_of_def bit_simps dest: bit_imp_le_length; fail)+
  then show ?thesis using masked_te0(4)[of "ucast b"] by (simp add: te0_def TE4_def)
qed

lemma inv_mix_word: "inv_mix_word w = inv_mix w"
proof -
  have "byte_of 0 (ucast b) = b" for b :: u8 by (rule bit_word_eqI) (auto simp: byte_of_def bit_simps)
  then have t: "td0 (TE4 (ucast b)) = inv_column b" for b :: u8 by (simp add: TE4_byte td0_byte td0_sbox)
  have "drop_bit 24 w = ucast (byte_of 3 w)" "drop_bit 16 w AND 0xff = ucast (byte_of 2 w)" "drop_bit 8 w AND 0xff = ucast (byte_of 1 w)"
    "w AND 0xff = ucast (byte_of 0 w)"
    by (rule bit_word_eqI; auto simp: ff_mask byte_of_def bit_simps high_bit dest: bit_imp_le_length; fail)+
  then show ?thesis
    by (simp add: inv_mix_word_def inv_mix_def TD0_low_def TD1_low_def TD2_low_def TD3_low_def t del: One_nat_def)
qed

lemma nth_swap:
  "a < length rk \<Longrightarrow> b < length rk \<Longrightarrow> swap_words a b rk ! m = (if m = b then rk ! a else if m = a then rk ! b else rk ! m)"
  by (simp add: swap_words_def nth_list_update)

lemma length_swap [simp]: "length (swap_words a b rk) = length rk"
  by (simp add: swap_words_def)

lemma length_invert_order [simp]: "length (invert_order i j rk) = length rk"
  by (induction i j rk rule: invert_order.induct) (subst invert_order.simps, simp)

lemma swap_groups_nth:
  assumes "r < 4" "4 * a + 4 \<le> length rk" "4 * b + 4 \<le> length rk"
  shows "swap_words (4 * a + 3) (4 * b + 3) (swap_words (4 * a + 2) (4 * b + 2) (swap_words (4 * a + 1) (4 * b + 1)
      (swap_words (4 * a) (4 * b) rk))) ! (4 * c + r) = rk ! (4 * (if c = b then a else if c = a then b else c) + r)"
proof -
  have w: "4 * c + r = 4 * x + y \<longleftrightarrow> c = x \<and> r = y" if "y < 4" for x y using assms(1) that by presburger
  have "4 * c + r = 4 * x \<longleftrightarrow> c = x \<and> r = 0" for x using w[of 0 x] by simp
  moreover have "r = 0 \<or> r = 1 \<or> r = 2 \<or> r = 3" using assms(1) by auto
  ultimately show ?thesis using assms w[of 1] w[of 2] w[of 3] by (auto simp: nth_swap)
qed

lemma invert_order_groups:
  "r < 4 \<Longrightarrow> 4 * b + 4 \<le> length rk \<Longrightarrow>
   invert_order (4 * a) (4 * b) rk ! (4 * c + r) = rk ! (4 * (if a \<le> c \<and> c \<le> b then a + b - c else c) + r)"
proof (induction "b - a" arbitrary: a b rk rule: less_induct)
  case less
  show ?case
  proof (cases "a < b")
    case True
    define rk' where "rk' = swap_words (4 * a + 3) (4 * b + 3) (swap_words (4 * a + 2) (4 * b + 2) (swap_words (4 * a + 1) (4 * b + 1)
      (swap_words (4 * a) (4 * b) rk)))"
    have "invert_order (4 * a) (4 * b) rk = invert_order (4 * Suc a) (4 * (b - 1)) rk'"
      using True by (subst invert_order.simps) (simp add: rk'_def right_diff_distrib' add.commute)
    then have "invert_order (4 * a) (4 * b) rk ! (4 * c + r) = rk' ! (4 * (if Suc a \<le> c \<and> c \<le> b - 1 then Suc a + (b - 1) - c else c) + r)"
      using less.hyps[of "b - 1" "Suc a" rk'] less.prems True by (simp add: rk'_def)
    also have "\<dots> = rk ! (4 * (if a \<le> c \<and> c \<le> b then a + b - c else c) + r)"
      unfolding rk'_def using less.prems True by (subst swap_groups_nth) (auto intro!: arg_cong[where f = "(!) rk"])
    finally show ?thesis .
  next
    case False
    then have "(if a \<le> c \<and> c \<le> b then a + b - c else c) = c" by auto
    with False show ?thesis by (subst invert_order.simps) simp
  qed
qed

lemma invert_order_nth: "length rk = 44 \<Longrightarrow> m < 44 \<Longrightarrow> invert_order 0 40 rk ! m = rk ! group_rev m"
  using invert_order_groups[of "m mod 4" 10 rk 0 "m div 4"] by (auto simp: group_rev_def right_diff_distrib')

lemma nth_map_words:
  "distinct ms \<Longrightarrow> \<forall>m\<in>set ms. m < length rk \<Longrightarrow>
   fold (\<lambda>m rk. rk[m := f (rk ! m)]) ms rk ! n = (if n \<in> set ms then f (rk ! n) else rk ! n)"
proof (induction ms arbitrary: rk)
  case (Cons m ms)
  then have "fold (\<lambda>m rk. rk[m := f (rk ! m)]) ms (rk[m := f (rk ! m)]) ! n =
      (if n \<in> set ms then f (rk[m := f (rk ! m)] ! n) else rk[m := f (rk ! m)] ! n)" by simp
  then show ?case using Cons.prems by (auto simp: nth_list_update)
qed simp

lemma fold_nested: "fold (\<lambda>i. fold (g i) (h i)) is s = fold (\<lambda>(i, j). g i j) (concat (map (\<lambda>i. map (Pair i) (h i)) is)) s"
  by (induction "is" arbitrary: s) (simp_all add: fold_map comp_def)

lemma dec_schedule:
  assumes m: "m < 44"
  shows "rijndaelKeySetupDec k ! m = (if 4 \<le> m \<and> m < 40 then inv_mix else id) (rijndaelKeySetupEnc k ! group_rev m)"
proof -
  have c: "map (\<lambda>(i, j). 4 * i + j) (concat (map (\<lambda>i. map (Pair i) [0..<4]) [1..<10])) = [4..<40]" by code_simp
  have "rijndaelKeySetupDec k = fold (\<lambda>(i, j) rk. rk[4 * i + j := inv_mix_word (rk ! (4 * i + j))])
      (concat (map (\<lambda>i. map (Pair i) [0..<4]) [1..<10])) (invert_order 0 40 (rijndaelKeySetupEnc k))"
    unfolding rijndaelKeySetupDec_def Let_def by (simp only: fold_nested)
  also have "\<dots> = fold (\<lambda>m rk. rk[m := inv_mix_word (rk ! m)]) [4..<40] (invert_order 0 40 (rijndaelKeySetupEnc k))"
    unfolding c[symmetric] fold_map by (simp add: comp_def case_prod_unfold)
  finally have d: "rijndaelKeySetupDec k = \<dots>" .
  show ?thesis
    unfolding d by (subst nth_map_words) (use m in \<open>simp_all add: length_enc_schedule invert_order_nth inv_mix_word del: upt_conv_Cons_Cons upt_rec_numeral\<close>)
qed

section \<open>The round trip\<close>

text \<open>The state of the encryption after \<open>n\<close> rounds, and of the decryption.\<close>

fun enc_rounds :: "u32 list \<Rightarrow> nat \<Rightarrow> aes_state \<Rightarrow> aes_state" where
  "enc_rounds rk 0 s = s"
| "enc_rounds rk (Suc n) s = enc_round rk (Suc n) (enc_rounds rk n s)"

fun dec_rounds :: "u32 list \<Rightarrow> nat \<Rightarrow> aes_state \<Rightarrow> aes_state" where
  "dec_rounds rk 0 s = s"
| "dec_rounds rk (Suc n) s = dec_round rk (Suc n) (dec_rounds rk n s)"

lemma round_drop: "8 * m \<le> length rk \<Longrightarrow> enc_round (drop (8 * m) rk) i s = enc_round rk (2 * m + i) s"
  "8 * m \<le> length rk \<Longrightarrow> dec_round (drop (8 * m) rk) i s = dec_round rk (2 * m + i) s"
  by (cases s; simp add: add.assoc)+

lemma enc_loop_rounds: "8 * (m + Suc r) \<le> length rk \<Longrightarrow>
   enc_loop (Suc r) (drop (8 * m) rk) (enc_rounds rk (2 * m) s) = (drop (8 * (m + Suc r)) rk, enc_rounds rk (2 * (m + r) + 1) s)"
proof (induction r arbitrary: m)
  case 0
  then show ?case using round_drop(1)[of m rk 1] by (simp add: Let_def add.commute)
next
  case (Suc r)
  have "enc_loop (Suc (Suc r)) (drop (8 * m) rk) (enc_rounds rk (2 * m) s) =
      enc_loop (Suc r) (drop (8 * Suc m) rk) (enc_rounds rk (2 * Suc m) s)"
    using Suc.prems round_drop(1)[of m rk 1] round_drop(1)[of "Suc m" rk 0]
    by (subst enc_loop.simps(2)) (simp add: Let_def add.commute del: enc_loop.simps)
  then show ?case using Suc.IH[of "Suc m"] Suc.prems by simp
qed

lemma dec_loop_rounds: "8 * (m + Suc r) \<le> length rk \<Longrightarrow>
   dec_loop (Suc r) (drop (8 * m) rk) (dec_rounds rk (2 * m) s) = (drop (8 * (m + Suc r)) rk, dec_rounds rk (2 * (m + r) + 1) s)"
proof (induction r arbitrary: m)
  case 0
  then show ?case using round_drop(2)[of m rk 1] by (simp add: Let_def add.commute)
next
  case (Suc r)
  have "dec_loop (Suc (Suc r)) (drop (8 * m) rk) (dec_rounds rk (2 * m) s) =
      dec_loop (Suc r) (drop (8 * Suc m) rk) (dec_rounds rk (2 * Suc m) s)"
    using Suc.prems round_drop(2)[of m rk 1] round_drop(2)[of "Suc m" rk 0]
    by (subst dec_loop.simps(2)) (simp add: Let_def add.commute del: dec_loop.simps)
  then show ?case using Suc.IH[of "Suc m"] Suc.prems by simp
qed

lemma loops:
  "length rk = 44 \<Longrightarrow> enc_loop 5 rk s = (drop 40 rk, enc_rounds rk 9 s)" "length rk = 44 \<Longrightarrow> dec_loop 5 rk s = (drop 40 rk, dec_rounds rk 9 s)"
  using enc_loop_rounds[of 0 4 rk s] dec_loop_rounds[of 0 4 rk s] by simp_all

lemma length_dec_schedule: "length (rijndaelKeySetupDec k) = 44"
proof -
  have "length (fold (\<lambda>m rk. rk[4 * i + m := f (rk ! (4 * i + m))]) ms rk) = length rk" for i f ms and rk :: "u32 list"
    by (induction ms arbitrary: rk) simp_all
  then have "length (fold (\<lambda>i rk. fold (\<lambda>j rk. rk[4 * i + j := inv_mix_word (rk ! (4 * i + j))]) [0..<4] rk) ms rk) = length rk" for ms rk
    by (induction ms arbitrary: rk) simp_all
  then show ?thesis by (simp add: rijndaelKeySetupDec_def Let_def length_enc_schedule)
qed

text \<open>One round of the decryption takes back one of the encryption.\<close>

lemma group_rev_word: "r < 4 \<Longrightarrow> group_rev (4 * i + r) = 40 - 4 * i + r"
  by (simp add: group_rev_def)

lemma keys_cancel:
  assumes i: "1 \<le> i" "i \<le> 9"
  shows "add_key (rijndaelKeySetupDec k) i (on_words inv_mix (add_key (rijndaelKeySetupEnc k) (10 - i) (on_words mix s))) = s"
proof -
  have "rijndaelKeySetupDec k ! (4 * i + r) = inv_mix (rijndaelKeySetupEnc k ! (4 * (10 - i) + r))" if "r < 4" for r
    using dec_schedule[of "4 * i + r" k] that i by (simp add: group_rev_word right_diff_distrib')
  from this[of 0] this[of 1] this[of 2] this[of 3] show ?thesis
    by (cases s) (simp add: inv_mix_xor inv_mix_mix xor.assoc)
qed

lemma ends_cancel:
  "add_key (rijndaelKeySetupDec k) 0 (add_key (rijndaelKeySetupEnc k) 10 s) = s"
  "add_key (rijndaelKeySetupDec k) 10 (add_key (rijndaelKeySetupEnc k) 0 s) = s"
proof -
  have "rijndaelKeySetupDec k ! r = rijndaelKeySetupEnc k ! (40 + r)" "rijndaelKeySetupDec k ! (40 + r) = rijndaelKeySetupEnc k ! r" if "r < 4" for r
    using dec_schedule[of r k] dec_schedule[of "40 + r" k] that group_rev_word[of r 10] group_rev_word[of r 0] by simp_all
  note this(1)[of 0] this(1)[of 1] this(1)[of 2] this(1)[of 3] this(2)[of 0] this(2)[of 1] this(2)[of 2] this(2)[of 3]
  then show "add_key (rijndaelKeySetupDec k) 0 (add_key (rijndaelKeySetupEnc k) 10 s) = s"
    "add_key (rijndaelKeySetupDec k) 10 (add_key (rijndaelKeySetupEnc k) 0 s) = s"
    by (cases s; simp add: xor.assoc numeral_2_eq_2 del: One_nat_def)+
qed

lemma dec_rounds_back:
  "n \<le> 9 \<Longrightarrow> dec_rounds (rijndaelKeySetupDec k) n (shift_sub (enc_rounds (rijndaelKeySetupEnc k) 9 s)) =
     shift_sub (enc_rounds (rijndaelKeySetupEnc k) (9 - n) s)"
proof (induction n)
  case (Suc n)
  have e: "9 - n = Suc (9 - Suc n)" "10 - Suc n = Suc (9 - Suc n)" using Suc.prems by simp_all
  show ?case
    using Suc keys_cancel[of "Suc n" k "shift_sub (enc_rounds (rijndaelKeySetupEnc k) (9 - Suc n) s)"]
    by (simp add: dec_round_shift enc_round_steps e del: add_key.simps)
qed simp

lemma block_in_out: "block_in rk (block_out s) = add_key rk 0 s"
  by (cases s) (simp add: block_in_def PUTU32_bytes GETU32_pack pack_bytes del: One_nat_def add_2_eq_Suc')

lemma block_out_in: "length p = 16 \<Longrightarrow> add_key rk 0 (GETU32 p, GETU32 (drop 4 p), GETU32 (drop 8 p), GETU32 (drop 12 p)) = block_in rk p"
  by (simp add: block_in_def del: One_nat_def add_2_eq_Suc')

lemma block_words:
  assumes "length p = 16"
  shows "block_out (GETU32 p, GETU32 (drop 4 p), GETU32 (drop 8 p), GETU32 (drop 12 p)) = p"
proof -
  obtain b0 b1 b2 b3 b4 b5 b6 b7 b8 b9 b10 b11 b12 b13 b14 b15
    where "p = [b0, b1, b2, b3, b4, b5, b6, b7, b8, b9, b10, b11, b12, b13, b14, b15]"
    using assms by (auto simp: numeral_eq_Suc length_Suc_conv)
  then show ?thesis by (simp add: PUTU32_bytes GETU32_pack byte_pack del: One_nat_def)
qed

lemma length_block_out [simp]: "length (block_out s) = 16"
  by (cases s) (simp add: PUTU32_def)

lemma length_aes [simp]: "length (rijndaelEncrypt rk p) = 16" "length (rijndaelDecrypt rk p) = 16"
  by (simp_all add: rijndaelEncrypt_def rijndaelDecrypt_def split: prod.split)

lemma add_key_drop: "40 \<le> length rk \<Longrightarrow> add_key (drop 40 rk) 0 s = add_key rk 10 s"
  by (cases s) simp

lemma decrypt_encrypt: 
  assumes p: "length p = 16"
  shows "rijndaelDecrypt (rijndaelKeySetupDec k) (rijndaelEncrypt (rijndaelKeySetupEnc k) p) = p"
proof -
  define w where "w = (GETU32 p, GETU32 (drop 4 p), GETU32 (drop 8 p), GETU32 (drop 12 p))"
  define s where "s = enc_rounds (rijndaelKeySetupEnc k) 9 (add_key (rijndaelKeySetupEnc k) 0 w)"
  have "rijndaelEncrypt (rijndaelKeySetupEnc k) p = block_out (add_key (rijndaelKeySetupEnc k) 10 (shift_sub s))"
    unfolding rijndaelEncrypt_def s_def w_def
    by (simp add: loops length_enc_schedule block_out_in[OF p] enc_last_steps add_key_drop del: add_key.simps shift_sub.simps)
  then have "block_in (rijndaelKeySetupDec k) (rijndaelEncrypt (rijndaelKeySetupEnc k) p) = shift_sub s"
    by (simp add: block_in_out ends_cancel del: add_key.simps shift_sub.simps)
  then have "rijndaelDecrypt (rijndaelKeySetupDec k) (rijndaelEncrypt (rijndaelKeySetupEnc k) p) = block_out w"
    unfolding rijndaelDecrypt_def
    by (simp add: loops length_dec_schedule s_def dec_rounds_back dec_last_shift add_key_drop ends_cancel del: add_key.simps shift_sub.simps)
  then show ?thesis using block_words[OF p] w_def by simp
qed

text \<open>An injective function of the finitely many blocks is onto, so the other composition is the identity too.\<close>

lemma encrypt_decrypt:
  assumes c: "length c = 16"
  shows "rijndaelEncrypt (rijndaelKeySetupEnc k) (rijndaelDecrypt (rijndaelKeySetupDec k) c) = c"
proof -
  let ?B = "{p :: bytes. length p = 16}"
  let ?e = "rijndaelEncrypt (rijndaelKeySetupEnc k)"
  have "finite ?B" using finite_lists_length_eq[of "UNIV :: u8 set" 16] by simp
  moreover have "?e ` ?B \<subseteq> ?B" by auto
  moreover have "inj_on ?e ?B" by (rule inj_on_inverseI[of _ "rijndaelDecrypt (rijndaelKeySetupDec k)"]) (simp add: decrypt_encrypt)
  ultimately have "?e ` ?B = ?B" by (rule endo_inj_surj)
  then obtain p where "length p = 16" "c = ?e p" using c by auto
  then show ?thesis by (simp add: decrypt_encrypt)
qed

interpretation aes_block: codec "rijndaelEncrypt (rijndaelKeySetupEnc k)" "\<lambda>c. Some (rijndaelDecrypt (rijndaelKeySetupDec k) c)" "\<lambda>p. length p = 16" for k
  by unfold_locales (simp add: decrypt_encrypt)

text \<open>C22. The block cipher: for a key of 16 bytes both contexts can be set up, and on blocks of 16 bytes decryption
  undoes encryption and encryption undoes decryption.\<close>

theorem aes_block_roundtrip:
  assumes "length key = 16" "length p = 16" "length c = 16"
  shows "\<exists>ek dk. aes_encrypt_init True key (length key) = Some ek \<and> aes_decrypt_init True key (length key) = Some dk \<and>
    aes_decrypt dk (aes_encrypt ek p) = p \<and> aes_encrypt ek (aes_decrypt dk c) = c"
  using assms by (simp add: aes_encrypt_init_def aes_decrypt_init_def aes_encrypt_def aes_decrypt_def decrypt_encrypt encrypt_decrypt)

lemma aes_block_roundtrip_witness:
  "\<exists>ek dk. aes_encrypt_init True (replicate 16 1) (length (replicate 16 (1 :: u8))) = Some ek \<and>
    aes_decrypt_init True (replicate 16 1) (length (replicate 16 (1 :: u8))) = Some dk \<and>
    aes_decrypt dk (aes_encrypt ek (replicate 16 2)) = replicate 16 2 \<and> aes_encrypt ek (aes_decrypt dk (replicate 16 3)) = replicate 16 3"
  by (rule aes_block_roundtrip) simp_all

end
