(* ===== verification/Aes_Wrap.thy ===== *)
theory Aes_Wrap
  imports Aes_Props
begin

unbundle bit_operations_syntax

text \<open>
  The key wrap of \<^verbatim>\<open>src/athr-hostap/src/crypto/aes-wrap.c\<close> and its inverse in \<^verbatim>\<open>aes-unwrap.c\<close>, over the
  AES of \<open>Aes_Internal\<close>. Both run in the buffer of the caller: the wrapped key is \<^verbatim>\<open>a\<close>, eight bytes,
  followed by the \<^verbatim>\<open>n\<close> units of \<^verbatim>\<open>r\<close>. A result is the return value and the final contents of the
  buffer. \<open>mem\<close> is whether the allocation of the AES context succeeds.
\<close>

section \<open>The routines\<close>

definition wrap_step :: "u32 list \<Rightarrow> nat \<Rightarrow> nat \<Rightarrow> nat \<Rightarrow> bytes \<Rightarrow> bytes" where
  "wrap_step ctx n j i cipher =
     (let b = take 8 cipher @ take 8 (drop (8 * i) cipher);
          b = aes_encrypt ctx b;
          a = take 8 b;
          a = a[7 := a ! 7 XOR of_nat (n * j + i)]
      in memput (memput cipher 0 a) (8 * i) (drop 8 b))"

definition aes_wrap :: "bool \<Rightarrow> bytes \<Rightarrow> nat \<Rightarrow> bytes \<Rightarrow> int \<times> bytes" where
  "aes_wrap mem kek n plain =
     (let cipher = replicate 8 0xa6 @ take (8 * n) plain
      in case aes_encrypt_init mem kek 16 of
           None \<Rightarrow> (-1, cipher)
         | Some ctx \<Rightarrow> (0, fold (\<lambda>j. fold (wrap_step ctx n j) [1..<Suc n]) [0..<6] cipher))"

definition unwrap_step :: "u32 list \<Rightarrow> nat \<Rightarrow> nat \<Rightarrow> nat \<Rightarrow> bytes \<times> bytes \<Rightarrow> bytes \<times> bytes" where
  "unwrap_step ctx n j i s =
     (case s of (a, plain) \<Rightarrow>
        let b = a[7 := a ! 7 XOR of_nat (n * j + i)] @ take 8 (drop (8 * (i - 1)) plain);
            b = aes_decrypt ctx b
        in (take 8 b, memput plain (8 * (i - 1)) (drop 8 b)))"

definition aes_unwrap :: "bool \<Rightarrow> bytes \<Rightarrow> nat \<Rightarrow> bytes \<Rightarrow> int \<times> bytes" where
  "aes_unwrap mem kek n cipher =
     (let a = take 8 cipher; plain = take (8 * n) (drop 8 cipher)
      in case aes_decrypt_init mem kek 16 of
           None \<Rightarrow> (-1, plain)
         | Some ctx \<Rightarrow>
             (case fold (\<lambda>j. fold (unwrap_step ctx n j) (rev [1..<Suc n])) (rev [0..<6]) (a, plain) of
                (a, plain) \<Rightarrow> (if \<exists>i<8. a ! i \<noteq> 0xa6 then -1 else 0, plain)))"

section \<open>One step and its inverse\<close>

text \<open>The buffers the routines have in common: eight bytes and \<open>n\<close> units.\<close>

fun units :: "nat \<Rightarrow> bytes \<times> bytes \<Rightarrow> bool" where
  "units n (a, r) \<longleftrightarrow> length a = 8 \<and> length r = 8 * n"

lemma memput_append: "length a = 8 \<Longrightarrow> length a' = 8 \<Longrightarrow> memput (memput (a @ r) 0 a') (8 + 8 * i) x = a' @ memput r (8 * i) x"
  by (auto simp: memput_def)

text \<open>A step of the wrapping on the two parts of its buffer.\<close>

definition wrap_pair :: "u32 list \<Rightarrow> nat \<Rightarrow> nat \<Rightarrow> nat \<Rightarrow> bytes \<times> bytes \<Rightarrow> bytes \<times> bytes" where
  "wrap_pair ctx n j i s =
     (case s of (a, r) \<Rightarrow>
        let b = aes_encrypt ctx (a @ take 8 (drop (8 * (i - 1)) r))
        in ((take 8 b)[7 := take 8 b ! 7 XOR of_nat (n * j + i)], memput r (8 * (i - 1)) (drop 8 b)))"

lemma wrap_step_pair:
  "units n (a, r) \<Longrightarrow> 1 \<le> i \<Longrightarrow> wrap_step ctx n j i (a @ r) = (case wrap_pair ctx n j i (a, r) of (a', r') \<Rightarrow> a' @ r')"
  by (cases i) (simp_all add: wrap_step_def wrap_pair_def memput_append Let_def aes_encrypt_def)

lemma unit_fits: "1 \<le> i \<Longrightarrow> i \<le> n \<Longrightarrow> 8 * (i - 1) + 8 \<le> 8 * n" for i n :: nat
  by simp

lemma wrap_pair_units: "units n s \<Longrightarrow> 1 \<le> i \<Longrightarrow> i \<le> n \<Longrightarrow> units n (wrap_pair ctx n j i s)"
  using unit_fits[of i n] by (cases s) (simp add: wrap_pair_def Let_def aes_encrypt_def)

lemma unwrap_units: "units n s \<Longrightarrow> 1 \<le> i \<Longrightarrow> i \<le> n \<Longrightarrow> units n (unwrap_step ctx n j i s)"
  using unit_fits[of i n] by (cases s) (simp add: unwrap_step_def Let_def aes_decrypt_def)

lemma memput_read: "off + 8 \<le> length r \<Longrightarrow> length x = 8 \<Longrightarrow> take 8 (drop off (memput r off x)) = x"
  by (simp add: memput_def)

lemma memput_back: "off + 8 \<le> length r \<Longrightarrow> length x = 8 \<Longrightarrow> memput (memput r off x) off (take 8 (drop off r)) = r"
  by (simp add: memput_def min_def) (metis add.commute append_take_drop_id drop_drop)

lemma tag_twice: "length a = 8 \<Longrightarrow> a[7 := a ! 7 XOR t, 7 := a[7 := a ! 7 XOR t] ! 7 XOR t] = a" for a :: bytes
  by (simp add: xor.assoc)

lemma unwrap_wrap_step:
  assumes s: "units n s" and i: "1 \<le> i" "i \<le> n"
  shows "unwrap_step (rijndaelKeySetupDec k) n j i (wrap_pair (rijndaelKeySetupEnc k) n j i s) = s"
proof (cases s)
  case (Pair a r)
  then have l: "length a = 8" "length r = 8 * n" using s by simp_all
  let ?m = "8 * (i - 1)"
  define b where "b = rijndaelEncrypt (rijndaelKeySetupEnc k) (a @ take 8 (drop ?m r))"
  have b: "length b = 16" and d: "rijndaelDecrypt (rijndaelKeySetupDec k) b = a @ take 8 (drop ?m r)"
    using l i unit_fits[OF i] by (auto simp: b_def decrypt_encrypt)
  have t: "(take 8 b)[7 := x XOR t, 7 := ((take 8 b)[7 := x XOR t]) ! 7 XOR t] = take 8 b" if "x = take 8 b ! 7" for x t
    using tag_twice[of "take 8 b" t] b that by simp
  have "wrap_pair (rijndaelKeySetupEnc k) n j i s =
      ((take 8 b)[7 := take 8 b ! 7 XOR of_nat (n * j + i)], memput r ?m (drop 8 b))"
    by (simp only: wrap_pair_def Pair prod.case Let_def aes_encrypt_def b_def)
  then show ?thesis
    using b l unit_fits[OF i]
    by (simp only: unwrap_step_def prod.case Let_def aes_decrypt_def t memput_read append_take_drop_id d length_drop)
      (simp add: Pair memput_back)
qed

lemma wrap_unwrap_step:
  assumes s: "units n s" and i: "1 \<le> i" "i \<le> n"
  shows "wrap_pair (rijndaelKeySetupEnc k) n j i (unwrap_step (rijndaelKeySetupDec k) n j i s) = s"
proof (cases s)
  case (Pair a r)
  then have l: "length a = 8" "length r = 8 * n" using s by simp_all
  let ?m = "8 * (i - 1)" and ?a = "a[7 := a ! 7 XOR of_nat (n * j + i)]"
  define b where "b = rijndaelDecrypt (rijndaelKeySetupDec k) (?a @ take 8 (drop ?m r))"
  have b: "length b = 16" and e: "rijndaelEncrypt (rijndaelKeySetupEnc k) b = ?a @ take 8 (drop ?m r)"
    using l i unit_fits[OF i] by (auto simp: b_def encrypt_decrypt)
  have "unwrap_step (rijndaelKeySetupDec k) n j i s = (take 8 b, memput r ?m (drop 8 b))"
    by (simp only: unwrap_step_def Pair prod.case Let_def aes_decrypt_def b_def)
  moreover have "take 8 (?a @ take 8 (drop ?m r)) = ?a" "drop 8 (?a @ take 8 (drop ?m r)) = take 8 (drop ?m r)"
    using l by simp_all
  ultimately show ?thesis
    using b l unit_fits[OF i] tag_twice[OF l(1), of "of_nat (n * j + i)"]
    by (simp only: wrap_pair_def prod.case Let_def aes_encrypt_def memput_read append_take_drop_id e length_drop)
      (simp add: Pair memput_back)
qed

section \<open>The loops\<close>

lemma fold_undo:
  assumes "\<And>x s. x \<in> set xs \<Longrightarrow> P s \<Longrightarrow> P (f x s) \<and> g x (f x s) = s" and "P s"
  shows "P (fold f xs s)" "fold g (rev xs) (fold f xs s) = s"
proof -
  have "P (fold f xs s) \<and> fold g (rev xs) (fold f xs s) = s"
    using assms by (induction xs arbitrary: s) simp_all
  then show "P (fold f xs s)" "fold g (rev xs) (fold f xs s) = s" by simp_all
qed

definition steps :: "nat \<Rightarrow> (nat \<times> nat) list" where
  "steps n = concat (map (\<lambda>j. map (Pair j) [1..<Suc n]) [0..<6])"

lemma steps_range: "(j, i) \<in> set (steps n) \<Longrightarrow> 1 \<le> i \<and> i \<le> n"
  by (auto simp: steps_def)

lemma wrap_loop:
  "units n (a, r) \<Longrightarrow> fold (\<lambda>j. fold (wrap_step ctx n j) [1..<Suc n]) [0..<6] (a @ r) =
     (case fold (\<lambda>(j, i). wrap_pair ctx n j i) (steps n) (a, r) of (a', r') \<Rightarrow> a' @ r')"
proof -
  have l: "\<forall>(j, i) \<in> set xs. 1 \<le> i \<and> i \<le> n \<Longrightarrow> units n s \<Longrightarrow>
      fold (\<lambda>(j, i). wrap_step ctx n j i) xs (fst s @ snd s) =
      fst (fold (\<lambda>(j, i). wrap_pair ctx n j i) xs s) @ snd (fold (\<lambda>(j, i). wrap_pair ctx n j i) xs s)" for xs s
  proof (induction xs arbitrary: s)
    case (Cons x xs)
    obtain j i where x: "x = (j, i)" by (cases x)
    have "wrap_step ctx n j i (fst s @ snd s) = fst (wrap_pair ctx n j i s) @ snd (wrap_pair ctx n j i s)"
      using wrap_step_pair[of n "fst s" "snd s" i ctx j] Cons.prems x by (simp add: case_prod_unfold)
    then show ?case using Cons.IH[of "wrap_pair ctx n j i s"] Cons.prems wrap_pair_units[of n s i ctx j] x by simp
  qed simp
  have "\<forall>(j, i) \<in> set (steps n). 1 \<le> i \<and> i \<le> n" using steps_range by blast
  note l = l[OF this, of "(a, r)", unfolded fst_conv snd_conv]
  have "fold (\<lambda>j. fold (wrap_step ctx n j) [1..<Suc n]) [0..<6] s = fold (\<lambda>(j, i). wrap_step ctx n j i) (steps n) s" for s
    unfolding fold_nested steps_def ..
  then show "units n (a, r) \<Longrightarrow> ?thesis" using l by (simp only: split_beta)
qed

lemma unwrap_loop:
  "fold (\<lambda>j. fold (unwrap_step ctx n j) (rev [1..<Suc n])) (rev [0..<6]) s = fold (\<lambda>(j, i). unwrap_step ctx n j i) (rev (steps n)) s"
  unfolding fold_nested steps_def rev_concat by (simp only: rev_map map_map comp_def)

definition wraps :: "bytes \<Rightarrow> nat \<Rightarrow> bytes \<times> bytes \<Rightarrow> bytes \<times> bytes" where
  "wraps k n = fold (\<lambda>(j, i). wrap_pair (rijndaelKeySetupEnc k) n j i) (steps n)"

definition unwraps :: "bytes \<Rightarrow> nat \<Rightarrow> bytes \<times> bytes \<Rightarrow> bytes \<times> bytes" where
  "unwraps k n = fold (\<lambda>(j, i). unwrap_step (rijndaelKeySetupDec k) n j i) (rev (steps n))"

lemma wrap_undone: "units n s \<Longrightarrow> units n (wraps k n s)" "units n s \<Longrightarrow> unwraps k n (wraps k n s) = s"
proof -
  have w: "units n ((\<lambda>(j, i). wrap_pair (rijndaelKeySetupEnc k) n j i) x s) \<and>
      (\<lambda>(j, i). unwrap_step (rijndaelKeySetupDec k) n j i) x ((\<lambda>(j, i). wrap_pair (rijndaelKeySetupEnc k) n j i) x s) = s"
    if "x \<in> set (steps n)" "units n s" for x s
    using that by (cases x rule: prod.exhaust) (simp only: prod.case wrap_pair_units unwrap_wrap_step steps_range simp_thms)
  note undo = fold_undo[where P = "units n" and f = "\<lambda>(j, i). wrap_pair (rijndaelKeySetupEnc k) n j i" and g = "\<lambda>(j, i). unwrap_step (rijndaelKeySetupDec k) n j i" and xs = "steps n", OF w]
  show "units n s \<Longrightarrow> units n (wraps k n s)" unfolding wraps_def by (rule undo(1))
  show "units n s \<Longrightarrow> unwraps k n (wraps k n s) = s" unfolding wraps_def unwraps_def by (rule undo(2))
qed

lemma unwrap_undone: "units n s \<Longrightarrow> units n (unwraps k n s)" "units n s \<Longrightarrow> wraps k n (unwraps k n s) = s"
proof -
  have w: "units n ((\<lambda>(j, i). unwrap_step (rijndaelKeySetupDec k) n j i) x s) \<and>
      (\<lambda>(j, i). wrap_pair (rijndaelKeySetupEnc k) n j i) x ((\<lambda>(j, i). unwrap_step (rijndaelKeySetupDec k) n j i) x s) = s"
    if "x \<in> set (rev (steps n))" "units n s" for x s
    using that by (cases x rule: prod.exhaust) (simp only: prod.case set_rev unwrap_units wrap_unwrap_step steps_range simp_thms)
  note undo = fold_undo[where P = "units n" and f = "\<lambda>(j, i). unwrap_step (rijndaelKeySetupDec k) n j i" and g = "\<lambda>(j, i). wrap_pair (rijndaelKeySetupEnc k) n j i" and xs = "rev (steps n)", OF w]
  show "units n s \<Longrightarrow> units n (unwraps k n s)" unfolding unwraps_def by (rule undo(1))
  show "units n s \<Longrightarrow> wraps k n (unwraps k n s) = s"
    using undo(2) unfolding wraps_def unwraps_def by simp
qed

lemma aes_wrap_units: "length p = 8 * n \<Longrightarrow> aes_wrap True k n p = (0, (case wraps k n (replicate 8 0xa6, p) of (a, r) \<Rightarrow> a @ r))"
  by (simp add: aes_wrap_def aes_encrypt_init_def wrap_loop wraps_def del: upt_Suc One_nat_def)

lemma aes_unwrap_units:
  "length c = 8 * n + 8 \<Longrightarrow> aes_unwrap True k n c =
     (case unwraps k n (take 8 c, drop 8 c) of (a, p) \<Rightarrow> (if a = replicate 8 0xa6 then 0 else -1, p))"
proof -
  assume c: "length c = 8 * n + 8"
  obtain a p where u: "unwraps k n (take 8 c, drop 8 c) = (a, p)" by (cases "unwraps k n (take 8 c, drop 8 c)")
  have "length a = 8" using unwrap_undone(1)[of n "(take 8 c, drop 8 c)" k] c u by simp
  then have "(\<exists>i<8. a ! i \<noteq> 0xa6) \<longleftrightarrow> a \<noteq> replicate 8 0xa6" by (auto simp: list_eq_iff_nth_eq)
  then show ?thesis
    using c u by (simp add: aes_unwrap_def aes_decrypt_init_def unwrap_loop unwraps_def del: upt_Suc One_nat_def)
qed

text \<open>Unwrapping accepts exactly what wrapping produces.\<close>

lemma unwrap_exact:
  assumes p: "length p = 8 * n" and c: "length c = 8 * n + 8"
  shows "aes_unwrap True k n c = (0, p) \<longleftrightarrow> aes_wrap True k n p = (0, c)"
proof
  assume "aes_unwrap True k n c = (0, p)"
  then have "unwraps k n (take 8 c, drop 8 c) = (replicate 8 0xa6, p)" using aes_unwrap_units[OF c] by (auto split: prod.splits if_splits)
  then have "wraps k n (replicate 8 0xa6, p) = (take 8 c, drop 8 c)" using unwrap_undone(2)[of n "(take 8 c, drop 8 c)" k] c by simp
  then show "aes_wrap True k n p = (0, c)" using aes_wrap_units[OF p] by simp
next
  assume w: "aes_wrap True k n p = (0, c)"
  obtain a r where u: "wraps k n (replicate 8 0xa6, p) = (a, r)" by (cases "wraps k n (replicate 8 0xa6, p)")
  have "units n (a, r)" using wrap_undone(1)[of n "(replicate 8 0xa6, p)" k] p u by simp
  moreover have "c = a @ r" using w aes_wrap_units[OF p] u by simp
  ultimately have "unwraps k n (take 8 c, drop 8 c) = (replicate 8 0xa6, p)" using wrap_undone(2)[of n "(replicate 8 0xa6, p)" k] p u by simp
  then show "aes_unwrap True k n c = (0, p)" using aes_unwrap_units[OF c] by simp
qed

section \<open>The algorithm of RFC 3394\<close>

text \<open>
  Section 2.2.1 of the RFC, over any block cipher: \<open>A\<close> is a 64 bit register, \<open>R\<close> the registers \<open>R[1]\<close> to \<open>R[n]\<close>,
  and the counter \<open>t\<close> is xored to the whole of \<open>A\<close>.
\<close>

definition be64 :: "nat \<Rightarrow> bytes" where "be64 t = map (\<lambda>i. of_nat (t div 256 ^ i)) [7, 6, 5, 4, 3, 2, 1, 0]"

definition rfc3394_step :: "(bytes \<Rightarrow> bytes) \<Rightarrow> nat \<Rightarrow> nat \<times> nat \<Rightarrow> bytes \<times> bytes list \<Rightarrow> bytes \<times> bytes list" where
  "rfc3394_step aes n ji s =
     (case ji of (j, i) \<Rightarrow> case s of (A, R) \<Rightarrow>
        let B = aes (A @ R ! (i - 1))
        in (map2 (XOR) (take 8 B) (be64 (n * j + i)), R[i - 1 := drop 8 B]))"

definition rfc3394_wrap :: "(bytes \<Rightarrow> bytes) \<Rightarrow> bytes list \<Rightarrow> bytes" where
  "rfc3394_wrap aes P =
     (case fold (rfc3394_step aes (length P)) [(j, i). j \<leftarrow> [0..<6], i \<leftarrow> [1..<Suc (length P)]] (replicate 8 0xa6, P) of
        (A, R) \<Rightarrow> A @ concat R)"

lemma be64_small: "t < 256 \<Longrightarrow> be64 t = [0, 0, 0, 0, 0, 0, 0, of_nat t]"
  by (simp add: be64_def)

lemma xor_be64:
  assumes "length a = 8" "t < 256"
  shows "map2 (XOR) a (be64 t) = a[7 := a ! 7 XOR of_nat t]"
proof -
  obtain b0 b1 b2 b3 b4 b5 b6 b7 where "a = [b0, b1, b2, b3, b4, b5, b6, b7]"
    using assms(1) by (auto simp: numeral_eq_Suc length_Suc_conv)
  then show ?thesis by (simp add: be64_small[OF assms(2)])
qed

lemma unit_of_concat:
  "\<forall>x\<in>set R. length x = 8 \<Longrightarrow> i < length R \<Longrightarrow> take 8 (drop (8 * i) (concat R)) = R ! i"
  "\<forall>x\<in>set R. length x = 8 \<Longrightarrow> i < length R \<Longrightarrow> memput (concat R) (8 * i) x = concat (R[i := x])" if "length x = 8"
proof (induction R arbitrary: i)
  case (Cons y R)
  case 1 then show ?case using Cons(1)[of "i - 1"] by (cases i) simp_all
  case 2 then show ?case using Cons(2)[of "i - 1"] that by (cases i) (simp_all add: memput_def add.commute)
qed simp_all

lemma wrap_pair_rfc:
  assumes "length a = 8" "length R = n" "\<forall>x\<in>set R. length x = 8" "1 \<le> i" "i \<le> n" "n * j + i < 256"
  shows "wrap_pair ctx n j i (a, concat R) = (case rfc3394_step (aes_encrypt ctx) n (j, i) (a, R) of (a', R') \<Rightarrow> (a', concat R'))"
  using assms unit_of_concat[of "drop 8 (aes_encrypt ctx (a @ R ! (i - 1)))" R "i - 1"]
    xor_be64[of "take 8 (aes_encrypt ctx (a @ R ! (i - 1)))" "n * j + i"]
  by (simp add: wrap_pair_def rfc3394_step_def Let_def aes_encrypt_def del: of_nat_add of_nat_mult)

lemma rfc3394_step_shape:
  "length (fst s) = 8 \<Longrightarrow> length (snd s) = n \<Longrightarrow> \<forall>x\<in>set (snd s). length x = 8 \<Longrightarrow>
   case rfc3394_step (aes_encrypt ctx) n ji s of (a', R') \<Rightarrow> length a' = 8 \<and> length R' = n \<and> (\<forall>x\<in>set R'. length x = 8)"
  by (auto simp: rfc3394_step_def Let_def aes_encrypt_def be64_def split: prod.splits dest!: subsetD[OF set_update_subset_insert])

lemma wrap_fold_rfc:
  "\<forall>(j, i)\<in>set xs. 1 \<le> i \<and> i \<le> n \<and> n * j + i < 256 \<Longrightarrow> length a = 8 \<Longrightarrow> length R = n \<Longrightarrow> \<forall>x\<in>set R. length x = 8 \<Longrightarrow>
   fold (\<lambda>(j, i). wrap_pair ctx n j i) xs (a, concat R) = (case fold (rfc3394_step (aes_encrypt ctx) n) xs (a, R) of (a', R') \<Rightarrow> (a', concat R'))"
proof (induction xs arbitrary: a R)
  case (Cons x xs)
  obtain j i where x: "x = (j, i)" by (cases x)
  obtain a' R' where s: "rfc3394_step (aes_encrypt ctx) n x (a, R) = (a', R')" by (cases "rfc3394_step (aes_encrypt ctx) n x (a, R)")
  then show ?case
    using Cons.prems Cons.IH[of a' R'] rfc3394_step_shape[of "(a, R)" n ctx x] wrap_pair_rfc[of a R n i j ctx] x by simp
qed simp

lemma aes_wrap_rfc:
  assumes n: "6 * length P < 256" and P: "\<forall>x\<in>set P. length x = 8"
  shows "aes_wrap True k (length P) (concat P) = (0, rfc3394_wrap (aes_encrypt (rijndaelKeySetupEnc k)) P)"
proof -
  have c: "length (concat P) = 8 * length P" using P by (induction P) simp_all
  have "length P * j + i < 256" if "(j, i) \<in> set (steps (length P))" for j i
  proof -
    have "j \<le> 5" "i \<le> length P" using that by (auto simp: steps_def)
    then have "length P * j + i \<le> length P * 5 + length P" by (intro add_mono mult_le_mono2)
    then show ?thesis using n by simp
  qed
  then have "\<forall>(j, i)\<in>set (steps (length P)). 1 \<le> i \<and> i \<le> length P \<and> length P * j + i < 256" using steps_range by blast
  from wrap_fold_rfc[OF this, of "replicate 8 0xa6" P "rijndaelKeySetupEnc k"]
  show ?thesis unfolding aes_wrap_units[OF c] wraps_def rfc3394_wrap_def using P
    by (simp add: steps_def split_beta del: upt_Suc)
qed

section \<open>Properties\<close>

interpretation key_wrap: codec "\<lambda>p. snd (aes_wrap True k n p)" "\<lambda>c. case aes_unwrap True k n c of (r, p) \<Rightarrow> if r = 0 then Some p else None"
    "\<lambda>p. length p = 8 * n" for k n
proof
  fix p :: bytes assume p: "length p = 8 * n"
  obtain a r where w: "wraps k n (replicate 8 0xa6, p) = (a, r)" by (cases "wraps k n (replicate 8 0xa6, p)")
  have "units n (a, r)" using wrap_undone(1)[of n "(replicate 8 0xa6, p)" k] p w by simp
  then have c: "length (a @ r) = 8 * n + 8" and e: "aes_wrap True k n p = (0, a @ r)" using aes_wrap_units[OF p, of k] w by simp_all
  then show "(case aes_unwrap True k n (snd (aes_wrap True k n p)) of (r, p) \<Rightarrow> if r = 0 then Some p else None) = Some p"
    using unwrap_exact[OF p c, of k] by simp
qed

text \<open>C20. The key wrap: \<^verbatim>\<open>aes_unwrap\<close> accepts a buffer of \<open>n + 1\<close> units exactly if it is what \<^verbatim>\<open>aes_wrap\<close> makes of
  some \<open>n\<close> units, and then returns these: nothing else is accepted, nothing wrapped is lost.\<close>

theorem aes_unwrap_exact:
  assumes "length p = 8 * n" and "length c = 8 * n + 8"
  shows "aes_unwrap True kek n c = (0, p) \<longleftrightarrow> aes_wrap True kek n p = (0, c)"
  by (rule unwrap_exact[OF assms])

lemma aes_unwrap_exact_witness:
  "aes_unwrap True (replicate 16 1) 2 (replicate 24 2) = (0, replicate 16 3) \<longleftrightarrow> aes_wrap True (replicate 16 1) 2 (replicate 16 3) = (0, replicate 24 2)"
  by (rule aes_unwrap_exact) simp_all

text \<open>C21. For keys of at most 42 units \<^verbatim>\<open>aes_wrap\<close> is the key wrap of RFC 3394 with AES: there the counter \<open>t\<close> fits in
  the byte it is xored to.\<close>

theorem aes_wrap_is_rfc3394:
  assumes "length P \<le> 42" and "\<forall>x\<in>set P. length x = 8"
  shows "aes_wrap True kek (length P) (concat P) = (0, rfc3394_wrap (rijndaelEncrypt (rijndaelKeySetupEnc kek)) P)"
proof -
  have "aes_encrypt ctx = rijndaelEncrypt ctx" for ctx by (simp add: aes_encrypt_def fun_eq_iff)
  then show ?thesis using aes_wrap_rfc[of P kek] assms by simp
qed

lemma aes_wrap_is_rfc3394_witness:
  "aes_wrap True (replicate 16 1) (length [replicate 8 (2 :: u8), replicate 8 3]) (concat [replicate 8 2, replicate 8 3]) =
    (0, rfc3394_wrap (rijndaelEncrypt (rijndaelKeySetupEnc (replicate 16 1))) [replicate 8 2, replicate 8 3])"
  by (rule aes_wrap_is_rfc3394) simp_all

end
