(* ===== verification/Crypto_Env.thy ===== *)
theory Crypto_Env
  imports Hmac Rc4 Aes_Wrap Wpa_Auth_Frames Wpa_Auth_Shapes
begin

unbundle bit_operations_syntax

text \<open>
  The WPA authenticator over the cryptography of the repository: the primitives that the model of
  \<^verbatim>\<open>wpa_auth.c\<close> takes as parameters are instantiated with the routines of \<^verbatim>\<open>src/athr-hostap/src/crypto\<close>. What the
  theorems about the authenticator require of the primitives is proved of these, and the frames are
  described by the standards.
\<close>

section \<open>The environment\<close>

text \<open>The calls of \<^verbatim>\<open>wpa_auth.c\<close>; \<open>mem\<close> is whether the allocation of an AES context succeeds.\<close>

definition with_crypto :: "bool \<Rightarrow> (nat \<Rightarrow> u8) \<Rightarrow> bool \<Rightarrow> wpa_env \<Rightarrow> wpa_env" where
  "with_crypto be junk mem E = E\<lparr>
     E_sha1_prf := sha1_prf be junk,
     E_hmac_md5 := hmac_md5 be junk,
     E_hmac_sha1 := hmac_sha1 be junk,
     E_aes_wrap := (\<lambda>k data. case aes_wrap mem k (length data div 8) data of (ret, cipher) \<Rightarrow> if ret \<noteq> 0 then None else Some cipher),
     E_rc4_skip := rc4_skip\<rparr>"

lemma with_crypto_simps [simp]:
  "E_sha1_prf (with_crypto be junk mem E) = sha1_prf be junk" "E_hmac_md5 (with_crypto be junk mem E) = hmac_md5 be junk"
  "E_hmac_sha1 (with_crypto be junk mem E) = hmac_sha1 be junk" "E_rc4_skip (with_crypto be junk mem E) = rc4_skip"
  "E_malloc (with_crypto be junk mem E) = E_malloc E" "E_random (with_crypto be junk mem E) = E_random E"
  "E_stack (with_crypto be junk mem E) = E_stack E"
  "E_aes_wrap (with_crypto be junk mem E) k data =
     (case aes_wrap mem k (length data div 8) data of (ret, cipher) \<Rightarrow> if ret \<noteq> 0 then None else Some cipher)"
  by (simp_all add: with_crypto_def)

section \<open>The primitives answer with the right lengths\<close>

lemma md5_vector_total: "\<exists>d. md5_vector be junk ds = (0, d) \<and> length d = 16"
  by (simp add: md5_vector_def MD5Final_def Let_def split_beta digest_bytes)

lemma sha1_vector_total: "\<exists>d. sha1_vector be junk ds = (0, d) \<and> length d = 20"
  by (simp add: sha1_vector_def SHA1Final_def Let_def split_beta)

lemma hmac_vector_total:
  assumes "\<And>ds. \<exists>d. vec ds = (0, d) \<and> length d = n" and "length elems \<le> 5"
  shows "\<exists>h. hmac_vector vec key elems = Some h \<and> length h = n"
proof -
  obtain K where "(if 64 < length key then vec [key] else (0, key)) = (0, K)" using assms(1)[of "[key]"] by (cases "64 < length key") auto
  moreover obtain d where "vec (k_pad 0x36 K # elems) = (0, d)" using assms(1) by blast
  moreover obtain h where "vec [k_pad 0x5c K, d] = (0, h)" "length h = n" using assms(1) by blast
  ultimately show ?thesis using assms(2) unfolding hmac_vector_def by simp
qed

lemma hmac_sha1_total: "length elems \<le> 5 \<Longrightarrow> \<exists>h. hmac_sha1_vector be junk key elems = Some h \<and> length h = 20"
  unfolding hmac_sha1_vector_def by (rule hmac_vector_total) (rule sha1_vector_total)

lemma hmac_md5_total: "length elems \<le> 5 \<Longrightarrow> \<exists>h. hmac_md5_vector be junk key elems = Some h \<and> length h = 16"
  unfolding hmac_md5_vector_def by (rule hmac_vector_total) (rule md5_vector_total)

lemma sha1_prf_loop_total: "\<exists>k. sha1_prf_loop be junk key label data c left = Some k \<and> length k = left"
proof (induction left arbitrary: c rule: less_induct)
  case (less left)
  obtain h where h: "hmac_sha1_vector be junk key [label @ [0], data, [c]] = Some h" "length h = 20"
    using hmac_sha1_total[of "[label @ [0], data, [c]]" be junk key] by auto
  show ?case
  proof (cases "20 \<le> left")
    case True
    then obtain k where "sha1_prf_loop be junk key label data (c + 1) (left - 20) = Some k" "length k = left - 20"
      using less[of "left - 20" "c + 1"] by auto
    then show ?thesis using True h by (subst sha1_prf_loop.simps) simp
  next
    case False
    then show ?thesis using h by (subst sha1_prf_loop.simps) simp
  qed
qed

lemma aes_wrap_total:
  assumes "length d mod 8 = 0"
  shows "\<exists>c. aes_wrap True k (length d div 8) d = (0, c) \<and> length c = length d + 8"
proof -
  have d: "length d = 8 * (length d div 8)" using assms by auto
  obtain a r where w: "wraps k (length d div 8) (replicate 8 0xa6, d) = (a, r)" by (cases "wraps k (length d div 8) (replicate 8 0xa6, d)")
  have "units (length d div 8) (a, r)" using wrap_undone(1)[of "length d div 8" "(replicate 8 0xa6, d)" k] d w by simp
  then show ?thesis using aes_wrap_units[OF d, of k] w d by simp
qed

lemma with_crypto_ok:
  assumes "\<forall>tr. E_malloc E tr"
  shows "primitives_ok (with_crypto be junk True E)"
proof -
  have h: "\<exists>h. hmac_md5 be junk key d = Some h \<and> length h = 16" "\<exists>h. hmac_sha1 be junk key d = Some h \<and> length h = 20" for key d
    by (simp_all add: hmac_md5_def hmac_sha1_def hmac_md5_total hmac_sha1_total)
  have w: "\<exists>w. E_aes_wrap (with_crypto be junk True E) k d = Some w \<and> length w = length d + 8" if "length d mod 8 = 0" for k d
    using aes_wrap_total[OF that, of k] by auto
  show ?thesis
    unfolding primitives_ok_def with_crypto_simps(2-5) using assms h w by (intro conjI allI impI) (blast | simp only: length_rc4_skip)+
qed

lemma with_crypto_sized: "\<forall>tr n. length (snd (E_random E tr n)) = n \<Longrightarrow> length (E_stack E) = 64 \<Longrightarrow> env_sized (with_crypto be junk mem E)"
proof -
  have "length k = n" if "sha1_prf be junk key label data n = Some k" for key label data n k
    using sha1_prf_loop_total[of be junk key label data 0 n] that by (simp add: sha1_prf_def)
  then show "\<forall>tr n. length (snd (E_random E tr n)) = n \<Longrightarrow> length (E_stack E) = 64 \<Longrightarrow> ?thesis" by (simp add: env_sized_def)
qed

text \<open>C17. The cryptographic routines of the repository meet what the authenticator requires of them, as long as
  memory can be allocated and the random source fills its buffers: MICs and wrapped keys are always produced and have
  the lengths the code expects, and derived keys have the length asked for.\<close>

theorem crypto_meets_contract:
  assumes "\<forall>tr. E_malloc E tr" "\<forall>tr n. length (snd (E_random E tr n)) = n" "length (E_stack E) = 64"
  shows "primitives_ok (with_crypto be junk True E) \<and> env_sized (with_crypto be junk True E)"
  using with_crypto_ok[OF assms(1)] with_crypto_sized[OF assms(2,3)] by simp

lemma crypto_meets_contract_witness:
  "primitives_ok (with_crypto True (\<lambda>_. 0) True ex_env) \<and> env_sized (with_crypto True (\<lambda>_. 0) True ex_env)"
  by (rule crypto_meets_contract) (simp_all add: ex_env_def)

section \<open>Frames under the standards\<close>

text \<open>The MIC of a frame: HMAC-MD5, or the first 16 bytes of HMAC-SHA1, by the descriptor version.\<close>

definition standard_mic :: "bytes \<Rightarrow> u16 \<Rightarrow> bytes \<Rightarrow> bytes option" where
  "standard_mic key version frame =
     (if version = 1 then Some (rfc2104 rfc_md5 key frame) else if version = 2 then Some (take 16 (rfc2104 fips_sha1 key frame)) else None)"

lemma length_kck: "length (kck ptk) \<le> 16"
  by (simp add: kck_def)

lemma mic_standard:
  assumes "length frame < 2 ^ 31"
  shows "wpa_eapol_key_mic (hmac_md5 be junk) (hmac_sha1 be junk) (kck ptk) version frame = standard_mic (kck ptk) version frame"
proof -
  have "areas_ok [kck ptk]" "areas_ok [frame]" using length_kck[of ptk] assms by (simp_all add: areas_ok_def)
  then have "hmac_md5 be junk (kck ptk) frame = Some (rfc2104 rfc_md5 (kck ptk) frame)"
    "hmac_sha1 be junk (kck ptk) frame = Some (rfc2104 fips_sha1 (kck ptk) frame)"
    using hmac_md5_rfc2104[of "[frame]" "kck ptk"] hmac_sha1_rfc2104[of "[frame]" "kck ptk"] assms by (simp_all add: hmac_md5_def hmac_sha1_def)
  then show ?thesis by (simp add: wpa_eapol_key_mic_def standard_mic_def)
qed



text \<open>The key data wrapped by the authenticator: what it unwraps to.\<close>

lemma protect_unwraps:
  assumes "E_malloc E (cx_tr c @ [A_malloc])"
  obtains data pad where
    "protect_key_data (with_crypto be junk True E) WPA_KEY_INFO_TYPE_HMAC_SHA1_AES kde c = (Some (data, replicate 16 0), act A_malloc c)"
    "length data = length kde + length pad + 8" "length data mod 8 = 0" "length pad < 8" "key_data_pad pad"
    "aes_unwrap True (kek (sm_PTK (cx_sm c))) (length data div 8 - 1) data = (0, kde @ pad)"
proof -
  define rem where "rem = (if length kde mod 8 = 0 then 0 else 8 - length kde mod 8)"
  define pad :: bytes where "pad = (if rem = 0 then [] else 0xdd # replicate (rem - 1) 0)"
  let ?k = "kek (sm_PTK (cx_sm c))" and ?b = "kde @ pad"
  have "(n + (if n mod 8 = 0 then 0 else 8 - n mod 8)) mod 8 = 0" for n :: nat by presburger
  then have m: "length ?b mod 8 = 0" by (simp add: pad_def rem_def)
  obtain w where w: "aes_wrap True ?k (length ?b div 8) ?b = (0, w)" "length w = length ?b + 8" using aes_wrap_total[OF m] by blast
  have p: "protect_key_data (with_crypto be junk True E) WPA_KEY_INFO_TYPE_HMAC_SHA1_AES kde c = (Some (w, replicate 16 0), act A_malloc c)"
    using assms w(1) unfolding protect_key_data_def Let_def callback_defs rem_def[symmetric] pad_def[symmetric] by simp
  have "length ?b = 8 * (length ?b div 8)" using m by auto
  then have "aes_unwrap True ?k (length ?b div 8) w = (0, ?b)" "length w div 8 - 1 = length ?b div 8" using w unwrap_exact[of ?b "length ?b div 8" w ?k] by simp_all
  then have "aes_unwrap True ?k (length w div 8 - 1) w = (0, ?b)" by simp
  moreover have "length pad < 8" "key_data_pad pad" by (auto simp: pad_def rem_def key_data_pad_def)
  moreover have "length w mod 8 = 0" using w(2) m by presburger
  ultimately show thesis using that p w(2) by simp
qed

text \<open>C18. Key data that the authenticator protects is recovered by the other end with the routines of the same
  library: with the AES descriptor version \<^verbatim>\<open>aes_unwrap\<close> accepts it under the key encryption key and returns the
  key data and its padding; otherwise \<^verbatim>\<open>rc4_skip\<close> with the IV of the frame and the key returns the key data.\<close>

theorem wpa_key_data_recovered:
  assumes "protect_key_data (with_crypto be junk True E) version kde c = (Some (data, iv), c')"
  shows "if version = WPA_KEY_INFO_TYPE_HMAC_SHA1_AES
    then \<exists>pad. aes_unwrap True (kek (sm_PTK (cx_sm c))) (length data div 8 - 1) data = (0, kde @ pad) \<and> length pad < 8
    else rc4_skip (iv @ kek (sm_PTK (cx_sm c))) 256 data = kde"
proof (cases "version = WPA_KEY_INFO_TYPE_HMAC_SHA1_AES")
  case True
  have "E_malloc E (cx_tr c @ [A_malloc])" using assms by (auto simp: protect_key_data_def callback_defs split: if_splits)
  then obtain w pad where w: "protect_key_data (with_crypto be junk True E) version kde c = (Some (w, replicate 16 0), act A_malloc c)" "length pad < 8"
    "aes_unwrap True (kek (sm_PTK (cx_sm c))) (length w div 8 - 1) w = (0, kde @ pad)"
    unfolding True by (rule protect_unwraps)
  then have "data = w" using assms by simp
  then show ?thesis using True w(2,3) by auto
next
  case False
  then show ?thesis
    using assms by (auto simp: protect_key_data_def Let_def callback_defs rc4_skip_def rc4_apply_twice split: if_splits)
qed

lemma wpa_key_data_recovered_witness:
  "\<exists>data iv c'. protect_key_data (with_crypto True (\<lambda>_. 0) True ex_env) WPA_KEY_INFO_TYPE_HMAC_MD5_RC4 [1, 2, 3] ex_ctx = (Some (data, iv), c') \<and>
     rc4_skip (iv @ kek (sm_PTK (cx_sm ex_ctx))) 256 data = [1, 2, 3]"
proof -
  have v: "WPA_KEY_INFO_TYPE_HMAC_MD5_RC4 \<noteq> WPA_KEY_INFO_TYPE_HMAC_SHA1_AES"
    by (simp add: WPA_KEY_INFO_TYPE_HMAC_MD5_RC4_def WPA_KEY_INFO_TYPE_HMAC_SHA1_AES_def)
  moreover have "E_malloc ex_env tr" for tr by (simp add: ex_env_def)
  ultimately obtain data iv c' where p: "protect_key_data (with_crypto True (\<lambda>_. 0) True ex_env) WPA_KEY_INFO_TYPE_HMAC_MD5_RC4 [1, 2, 3] ex_ctx = (Some (data, iv), c')"
    by (simp add: protect_key_data_def callback_defs Let_def)
  show ?thesis using wpa_key_data_recovered[OF p] p v by auto
qed

end
