(* ===== verification/Supp_State.thy ===== *)
theory Supp_State
  imports Wpa_Auth
begin

unbundle bit_operations_syntax

text \<open>
  The state of the station side of the WPA protocol, \<^verbatim>\<open>struct wpa_sm\<close> of
  \<^verbatim>\<open>src/athr-hostap/src/rsn_supp/wpa_i.h\<close>, and the PMKSA cache of the station,
  \<^verbatim>\<open>src/athr-hostap/src/rsn_supp/pmksa_cache.c\<close>, in the build without \<^verbatim>\<open>CONFIG_IEEE80211R\<close>,
  \<^verbatim>\<open>CONFIG_IEEE80211W\<close>, \<^verbatim>\<open>CONFIG_PEERKEY\<close> and \<^verbatim>\<open>CONFIG_TDLS\<close>.

  The cache is the list of its entries; the address of an entry is the field \<open>p_addr\<close>, and a pointer to
  an entry is an address. \<open>sc_next\<close> is the next address the allocator hands out. The trace \<open>sc_tr\<close> is a
  ghost with the calls of the callbacks of \<^verbatim>\<open>struct wpa_sm_ctx\<close>, of the EAPOL machine and of the event
  loop, in order. What this code answers is an argument \<open>E\<close>, each answer a function of the trace so far.
\<close>

section \<open>Data\<close>

datatype wpa_states =
    WPA_DISCONNECTED | WPA_INTERFACE_DISABLED | WPA_INACTIVE | WPA_SCANNING | WPA_AUTHENTICATING | WPA_ASSOCIATING
  | WPA_ASSOCIATED | WPA_4WAY_HANDSHAKE | WPA_GROUP_HANDSHAKE | WPA_COMPLETED

definition PMK_LEN :: nat where "PMK_LEN = 32"
definition WLAN_REASON_UNSPECIFIED :: int where "WLAN_REASON_UNSPECIFIED = 1"
definition WLAN_REASON_IE_IN_4WAY_DIFFERS :: int where "WLAN_REASON_IE_IN_4WAY_DIFFERS = 17"
definition MLME_SETPROTECTION_PROTECT_TYPE_RX :: int where "MLME_SETPROTECTION_PROTECT_TYPE_RX = 1"
definition MLME_SETPROTECTION_PROTECT_TYPE_RX_TX :: int where "MLME_SETPROTECTION_PROTECT_TYPE_RX_TX = 3"
definition MLME_SETPROTECTION_KEY_TYPE_PAIRWISE :: int where "MLME_SETPROTECTION_KEY_TYPE_PAIRWISE = 1"

text \<open>An entry of the cache; \<open>p_pmk\<close> is the array of 32 bytes.\<close>

record supp_pmksa_entry =
  p_addr :: nat
  p_pmkid :: bytes
  p_pmk :: bytes
  p_pmk_len :: nat
  p_expiration :: int
  p_akmp :: int
  p_aa :: macaddr
  p_reauth_time :: int
  p_network_ctx :: "nat option"
  p_opportunistic :: bool

text \<open>\<^verbatim>\<open>struct wpa_sm\<close>, with the cache it points to. \<open>w_eapol\<close> and \<open>w_preauth_eapol\<close> tell whether the
  pointers are set; an element is \<^term>\<open>None\<close> for a NULL pointer.\<close>

record wpa_sm =
  w_pmk :: bytes
  w_pmk_len :: nat
  w_ptk :: bytes
  w_tptk :: bytes
  w_ptk_set :: bool
  w_tptk_set :: bool
  w_snonce :: bytes
  w_anonce :: bytes
  w_renew_snonce :: bool
  w_rx_replay_counter :: bytes
  w_rx_replay_counter_set :: bool
  w_request_counter :: bytes
  w_eapol :: bool
  w_pmksa :: "supp_pmksa_entry list"
  w_pmksa_count :: int
  w_cur_pmksa :: "nat option"
  w_preauth_bssid :: macaddr
  w_preauth_eapol :: bool
  w_network_ctx :: "nat option"
  w_peerkey_enabled :: bool
  w_allowed_pairwise_cipher :: int
  w_proactive_key_caching :: bool
  w_eap_workaround :: int
  w_ssid :: bytes
  w_wpa_ptk_rekey :: int
  w_own_addr :: macaddr
  w_bssid :: macaddr
  w_PMKLifetime :: u32
  w_PMKReauthThreshold :: u32
  w_SATimeout :: u32
  w_4WayHandshakeFailures :: u32
  w_proto :: int
  w_pairwise_cipher :: int
  w_group_cipher :: int
  w_key_mgmt :: int
  w_rsn_enabled :: bool
  w_mfp :: int
  w_assoc_wpa_ie :: "bytes option"
  w_ap_wpa_ie :: "bytes option"
  w_ap_rsn_ie :: "bytes option"

datatype supp_timeout = ST_pmksa_expire | ST_pmksa_reauth | ST_start_preauth | ST_rekey_ptk | ST_preauth_timeout

datatype supp_notice =
    N_tx_eapol_key | N_cached | N_portValid bool | N_eap_success bool | N_lower_layer_success | N_request_reauth
  | N_preauth_deinit

text \<open>The calls the trace records. \<open>S_set_key\<close> has the algorithm, the address, the key index, the transmit
  flag, the sequence counter and the key.\<close>

datatype supp_act =
    S_set_state wpa_states
  | S_deauthenticate int
  | S_disassociate int
  | S_set_key wpa_alg "macaddr option" int bool bytes bytes
  | S_get_bssid
  | S_get_beacon_ie
  | S_ether_send macaddr bytes
  | S_cancel_auth_timeout
  | S_add_pmkid macaddr bytes
  | S_remove_pmkid macaddr bytes
  | S_setprotection macaddr int int
  | S_notify supp_notice
  | S_register supp_timeout int
  | S_cancel supp_timeout
  | S_malloc
  | S_random nat
  | S_get_key nat

record supp_env =
  SE_get_state :: "supp_act list \<Rightarrow> wpa_states"
  SE_set_key :: "supp_act list \<Rightarrow> int"
  SE_network_ctx :: "supp_act list \<Rightarrow> nat option"
  SE_bssid :: "supp_act list \<Rightarrow> macaddr option"
  SE_beacon_ie :: "supp_act list \<Rightarrow> (bytes option \<times> bytes option) option"
  SE_malloc :: "supp_act list \<Rightarrow> bool"
  SE_random :: "supp_act list \<Rightarrow> nat \<Rightarrow> bool \<times> bytes"
  SE_eapol_key :: "supp_act list \<Rightarrow> bytes option"
  SE_eapol_version :: u8
  SE_now :: int
  SE_sha1_prf :: "bytes \<Rightarrow> bytes \<Rightarrow> bytes \<Rightarrow> nat \<Rightarrow> bytes option"
  SE_hmac_md5 :: "bytes \<Rightarrow> bytes \<Rightarrow> bytes option"
  SE_hmac_sha1 :: "bytes \<Rightarrow> bytes \<Rightarrow> bytes option"
  SE_aes_unwrap :: "bytes \<Rightarrow> nat \<Rightarrow> bytes \<Rightarrow> bytes option"
  SE_rc4_skip :: "bytes \<Rightarrow> nat \<Rightarrow> bytes \<Rightarrow> bytes"
  SE_stack :: bytes

record supp_ctx =
  sc_sm :: wpa_sm
  sc_tr :: "supp_act list"
  sc_next :: nat

definition upd_w :: "(wpa_sm \<Rightarrow> wpa_sm) \<Rightarrow> supp_ctx \<Rightarrow> supp_ctx" where
  "upd_w f c = c\<lparr>sc_sm := f (sc_sm c)\<rparr>"

definition call :: "supp_act \<Rightarrow> supp_ctx \<Rightarrow> supp_ctx" where
  "call a c = c\<lparr>sc_tr := sc_tr c @ [a]\<rparr>"

definition supp_malloc :: "supp_env \<Rightarrow> supp_ctx \<Rightarrow> bool \<times> supp_ctx" where
  "supp_malloc E c = (let c = call S_malloc c in (SE_malloc E (sc_tr c), c))"

text \<open>\<^verbatim>\<open>wpa_sm_set_key\<close>: the answer of the driver is negative for a failure.\<close>

definition wpa_sm_set_key ::
  "supp_env \<Rightarrow> wpa_alg \<Rightarrow> macaddr option \<Rightarrow> int \<Rightarrow> bool \<Rightarrow> bytes \<Rightarrow> bytes \<Rightarrow> supp_ctx \<Rightarrow> int \<times> supp_ctx" where
  "wpa_sm_set_key E alg da idx tx seq key c =
     (let c = call (S_set_key alg da idx tx seq key) c in (SE_set_key E (sc_tr c), c))"

definition wpa_sm_deauthenticate :: "int \<Rightarrow> supp_ctx \<Rightarrow> supp_ctx" where
  "wpa_sm_deauthenticate reason c = call (S_deauthenticate reason) c"

section \<open>The PMKSA cache of the station\<close>

definition supp_pmksa_max_entries :: int where "supp_pmksa_max_entries = 32"

text \<open>The entry at an address.\<close>

definition supp_deref :: "wpa_sm \<Rightarrow> nat \<Rightarrow> supp_pmksa_entry option" where
  "supp_deref sm a = List.find (\<lambda>e. p_addr e = a) (w_pmksa sm)"

text \<open>The entry \<^verbatim>\<open>cur_pmksa\<close> points to.\<close>

definition supp_current :: "wpa_sm \<Rightarrow> supp_pmksa_entry option" where
  "supp_current sm = Option.bind (w_cur_pmksa sm) (supp_deref sm)"

text \<open>\<^verbatim>\<open>wpa_sm_pmksa_free_cb\<close>, the callback for an entry that is removed.\<close>

definition wpa_sm_pmksa_free_cb :: "supp_pmksa_entry \<Rightarrow> bool \<Rightarrow> supp_ctx \<Rightarrow> supp_ctx" where
  "wpa_sm_pmksa_free_cb entry replace c =
     (let sm = sc_sm c in
      if w_cur_pmksa sm = Some (p_addr entry) \<or>
        w_pmk_len sm = p_pmk_len entry \<and> take (w_pmk_len sm) (w_pmk sm) = take (w_pmk_len sm) (p_pmk entry)
      then
        let c = upd_w (\<lambda>s. s\<lparr>w_cur_pmksa := None\<rparr>) c in
        if replace then c
        else wpa_sm_deauthenticate WLAN_REASON_UNSPECIFIED (upd_w (\<lambda>s. s\<lparr>w_pmk := replicate PMK_LEN 0\<rparr>) c)
      else c)"

definition supp_pmksa_free_entry :: "supp_pmksa_entry \<Rightarrow> bool \<Rightarrow> supp_ctx \<Rightarrow> supp_ctx" where
  "supp_pmksa_free_entry entry replace c =
     wpa_sm_pmksa_free_cb entry replace (upd_w (\<lambda>s. s\<lparr>w_pmksa_count := w_pmksa_count s - 1\<rparr>) c)"

text \<open>\<^verbatim>\<open>pmksa_cache_get\<close>; a NULL argument matches every entry.\<close>

definition supp_entry_matches :: "macaddr option \<Rightarrow> bytes option \<Rightarrow> supp_pmksa_entry \<Rightarrow> bool" where
  "supp_entry_matches aa pmkid e \<longleftrightarrow>
     (case aa of None \<Rightarrow> True | Some a \<Rightarrow> p_aa e = a) \<and> (case pmkid of None \<Rightarrow> True | Some p \<Rightarrow> p_pmkid e = p)"

definition supp_pmksa_get :: "wpa_sm \<Rightarrow> macaddr option \<Rightarrow> bytes option \<Rightarrow> nat option" where
  "supp_pmksa_get sm aa pmkid = map_option p_addr (List.find (supp_entry_matches aa pmkid) (w_pmksa sm))"

definition supp_pmksa_set_expiration :: "supp_env \<Rightarrow> supp_ctx \<Rightarrow> supp_ctx" where
  "supp_pmksa_set_expiration E c =
     (let c = call (S_cancel ST_pmksa_reauth) (call (S_cancel ST_pmksa_expire) c) in
      case w_pmksa (sc_sm c) of
        [] \<Rightarrow> c
      | e # _ \<Rightarrow>
          let sec = p_expiration e - SE_now E;
              sec = (if sec < 0 then 0 else sec);
              c = call (S_register ST_pmksa_expire (sec + 1)) c;
              entry = (if w_cur_pmksa (sc_sm c) \<noteq> None then w_cur_pmksa (sc_sm c)
                       else supp_pmksa_get (sc_sm c) (Some (w_bssid (sc_sm c))) None)
          in if entry \<noteq> None then
               let sec = p_reauth_time e - SE_now E;
                   sec = (if sec < 0 then 0 else sec)
               in call (S_register ST_pmksa_reauth sec) c
             else c)"

text \<open>The loop of \<^verbatim>\<open>pmksa_cache_expire\<close>, over the entries of the cache.\<close>

fun supp_expire_loop :: "supp_env \<Rightarrow> supp_pmksa_entry list \<Rightarrow> supp_ctx \<Rightarrow> supp_ctx" where
  "supp_expire_loop E [] c = c"
| "supp_expire_loop E (e # es) c =
     (if p_expiration e \<le> SE_now E
      then supp_expire_loop E es (supp_pmksa_free_entry e False (upd_w (\<lambda>s. s\<lparr>w_pmksa := es\<rparr>) c))
      else c)"

definition supp_pmksa_expire :: "supp_env \<Rightarrow> supp_ctx \<Rightarrow> supp_ctx" where
  "supp_pmksa_expire E c = supp_pmksa_set_expiration E (supp_expire_loop E (w_pmksa (sc_sm c)) c)"

definition supp_pmksa_reauth :: "supp_ctx \<Rightarrow> supp_ctx" where
  "supp_pmksa_reauth c = call (S_notify N_request_reauth) (upd_w (\<lambda>s. s\<lparr>w_cur_pmksa := None\<rparr>) c)"

text \<open>\<^verbatim>\<open>rsn_pmkid\<close> leaves what the stack holds if the HMAC fails.\<close>

definition supp_pmkid :: "supp_env \<Rightarrow> bytes \<Rightarrow> macaddr \<Rightarrow> macaddr \<Rightarrow> bytes" where
  "supp_pmkid E pmk aa spa =
     rsn_pmkid (\<lambda>key d. case SE_hmac_sha1 E key d of Some h \<Rightarrow> h | None \<Rightarrow> SE_stack E) pmk aa spa"

definition supp_new_entry ::
  "supp_env \<Rightarrow> wpa_sm \<Rightarrow> nat \<Rightarrow> bytes \<Rightarrow> macaddr \<Rightarrow> macaddr \<Rightarrow> nat option \<Rightarrow> int \<Rightarrow> supp_pmksa_entry" where
  "supp_new_entry E sm a pmk aa spa nctx akmp =
     \<lparr>p_addr = a, p_pmkid = supp_pmkid E pmk aa spa, p_pmk = memput (replicate PMK_LEN 0) 0 pmk, p_pmk_len = length pmk,
      p_expiration = SE_now E + uint (w_PMKLifetime sm), p_akmp = akmp, p_aa = aa,
      p_reauth_time = SE_now E + uint (w_PMKLifetime sm * w_PMKReauthThreshold sm div 100), p_network_ctx = nctx, p_opportunistic = False\<rparr>"

text \<open>The loop for an old entry of the same authenticator: it is unlinked and freed. \<open>old\<close> is the entry.\<close>

definition supp_replace_old :: "supp_pmksa_entry \<Rightarrow> supp_ctx \<Rightarrow> supp_ctx" where
  "supp_replace_old old c =
     (let c = upd_w (\<lambda>s. s\<lparr>w_pmksa := remove1 old (w_pmksa s)\<rparr>) c;
          c = (if w_cur_pmksa (sc_sm c) = Some (p_addr old) then upd_w (\<lambda>s. s\<lparr>w_cur_pmksa := None\<rparr>) c else c)
      in supp_pmksa_free_entry old True c)"

text \<open>The oldest entry is removed if the cache is full.\<close>

definition supp_make_room :: "supp_ctx \<Rightarrow> supp_ctx" where
  "supp_make_room c =
     (case w_pmksa (sc_sm c) of
        [] \<Rightarrow> c
      | e # es \<Rightarrow>
          if w_pmksa_count (sc_sm c) \<ge> supp_pmksa_max_entries
          then supp_pmksa_free_entry e False (call (S_remove_pmkid (p_aa e) (p_pmkid e)) (upd_w (\<lambda>s. s\<lparr>w_pmksa := es\<rparr>) c))
          else c)"

text \<open>The new entry is linked in the order of expiration.\<close>

definition supp_link_entry :: "supp_env \<Rightarrow> supp_pmksa_entry \<Rightarrow> supp_ctx \<Rightarrow> supp_ctx" where
  "supp_link_entry E entry c =
     (let before = takeWhile (\<lambda>p. \<not> p_expiration p > p_expiration entry) (w_pmksa (sc_sm c));
          after = dropWhile (\<lambda>p. \<not> p_expiration p > p_expiration entry) (w_pmksa (sc_sm c));
          c = upd_w (\<lambda>s. s\<lparr>w_pmksa := before @ entry # after\<rparr>) c;
          c = (if before = [] then supp_pmksa_set_expiration E c else c);
          c = upd_w (\<lambda>s. s\<lparr>w_pmksa_count := w_pmksa_count s + 1\<rparr>) c
      in call (S_add_pmkid (p_aa entry) (p_pmkid entry)) c)"

text \<open>\<^verbatim>\<open>pmksa_cache_add\<close>: the address of the entry and the state; \<open>pmk\<close> has \<^verbatim>\<open>pmk_len\<close> bytes.\<close>

definition supp_pmksa_add ::
  "supp_env \<Rightarrow> bytes \<Rightarrow> macaddr \<Rightarrow> macaddr \<Rightarrow> nat option \<Rightarrow> int \<Rightarrow> supp_ctx \<Rightarrow> nat option \<times> supp_ctx" where
  "supp_pmksa_add E pmk aa spa nctx akmp c =
     (if length pmk > PMK_LEN then (None, c)
      else case supp_malloc E c of (ok, c) \<Rightarrow>
        if \<not> ok then (None, c)
        else
          let entry = supp_new_entry E (sc_sm c) (sc_next c) pmk aa spa nctx akmp;
              c = c\<lparr>sc_next := Suc (sc_next c)\<rparr>
          in case List.find (\<lambda>p. p_aa p = aa) (w_pmksa (sc_sm c)) of
               Some pos \<Rightarrow>
                 if p_pmk_len pos = length pmk \<and> take (length pmk) (p_pmk pos) = pmk \<and> p_pmkid pos = p_pmkid entry
                 then (Some (p_addr pos), c)
                 else (Some (p_addr entry), supp_link_entry E entry (supp_make_room (supp_replace_old pos c)))
             | None \<Rightarrow> (Some (p_addr entry), supp_link_entry E entry (supp_make_room c)))"

text \<open>Assignments through a pointer to an entry.\<close>

definition supp_store :: "nat \<Rightarrow> (supp_pmksa_entry \<Rightarrow> supp_pmksa_entry) \<Rightarrow> supp_ctx \<Rightarrow> supp_ctx" where
  "supp_store a f c = upd_w (\<lambda>s. s\<lparr>w_pmksa := map (\<lambda>e. if p_addr e = a then f e else e) (w_pmksa s)\<rparr>) c"

text \<open>\<^verbatim>\<open>pmksa_cache_clone_entry\<close>. The result is \<^term>\<open>None\<close> if the function reads an entry that has been freed:
  the old entry is read after the new one was added.\<close>

definition supp_pmksa_clone_entry :: "supp_env \<Rightarrow> supp_pmksa_entry \<Rightarrow> macaddr \<Rightarrow> supp_ctx \<Rightarrow> (nat option \<times> supp_ctx) option" where
  "supp_pmksa_clone_entry E old aa c =
     (case supp_pmksa_add E (take (p_pmk_len old) (p_pmk old)) aa (w_own_addr (sc_sm c)) (p_network_ctx old) (p_akmp old) c of
        (None, c) \<Rightarrow> Some (None, c)
      | (Some a, c) \<Rightarrow>
          (case supp_deref (sc_sm c) (p_addr old) of
             None \<Rightarrow> None
           | Some old \<Rightarrow> Some (Some a, supp_store a (\<lambda>e. e\<lparr>p_expiration := p_expiration old, p_opportunistic := True\<rparr>) c)))"

definition supp_pmksa_get_opportunistic :: "supp_env \<Rightarrow> nat option \<Rightarrow> macaddr \<Rightarrow> supp_ctx \<Rightarrow> (nat option \<times> supp_ctx) option" where
  "supp_pmksa_get_opportunistic E nctx aa c =
     (if nctx = None then Some (None, c)
      else case List.find (\<lambda>e. p_network_ctx e = nctx) (w_pmksa (sc_sm c)) of
        None \<Rightarrow> Some (None, c)
      | Some entry \<Rightarrow> supp_pmksa_clone_entry E entry aa c)"

definition supp_pmksa_notify_reconfig :: "supp_ctx \<Rightarrow> supp_ctx" where
  "supp_pmksa_notify_reconfig c = upd_w (\<lambda>s. s\<lparr>w_pmksa := map (\<lambda>e. e\<lparr>p_network_ctx := None\<rparr>) (w_pmksa s)\<rparr>) c"

definition supp_pmksa_clear_current :: "supp_ctx \<Rightarrow> supp_ctx" where
  "supp_pmksa_clear_current c = upd_w (\<lambda>s. s\<lparr>w_cur_pmksa := None\<rparr>) c"

text \<open>\<^verbatim>\<open>pmksa_cache_set_current\<close>: the return value and the state, or \<^term>\<open>None\<close> after a read of a freed entry.\<close>

definition supp_pmksa_set_current ::
  "supp_env \<Rightarrow> bytes option \<Rightarrow> macaddr option \<Rightarrow> nat option \<Rightarrow> bool \<Rightarrow> supp_ctx \<Rightarrow> (int \<times> supp_ctx) option" where
  "supp_pmksa_set_current E pmkid bssid nctx try_opportunistic c =
     (let c = upd_w (\<lambda>s. s\<lparr>w_cur_pmksa := None\<rparr>) c;
          c = (if pmkid \<noteq> None then upd_w (\<lambda>s. s\<lparr>w_cur_pmksa := supp_pmksa_get s None pmkid\<rparr>) c else c);
          c = (if w_cur_pmksa (sc_sm c) = None \<and> bssid \<noteq> None
               then upd_w (\<lambda>s. s\<lparr>w_cur_pmksa := supp_pmksa_get s bssid None\<rparr>) c else c)
      in case (if w_cur_pmksa (sc_sm c) = None \<and> try_opportunistic then
                 (case bssid of None \<Rightarrow> Some c
                  | Some aa \<Rightarrow> map_option (\<lambda>(e, c). upd_w (\<lambda>s. s\<lparr>w_cur_pmksa := e\<rparr>) c) (supp_pmksa_get_opportunistic E nctx aa c))
               else Some c) of
           None \<Rightarrow> None
         | Some c \<Rightarrow> Some (if w_cur_pmksa (sc_sm c) \<noteq> None then 0 else -1, c))"

end
