(* ===== verification/Supp_Ie.thy ===== *)
theory Supp_Ie
  imports Supp_State
begin

unbundle bit_operations_syntax

text \<open>
  The elements of the station, \<^verbatim>\<open>src/athr-hostap/src/rsn_supp/wpa_ie.c\<close>: the WPA or RSN element that the
  station puts in its association request and in message 2/4, and the parser for the key data of the
  frames it receives. The element that is generated is parsed back to the selected suites, and the key
  data that the authenticator sends in message 3/4 is taken apart into its parts.
\<close>

section \<open>Generating\<close>

definition wpa_parse_wpa_ie :: "bytes \<Rightarrow> int \<times> wpa_ie_data" where
  "wpa_parse_wpa_ie wpa_ie =
     (if length wpa_ie \<ge> 1 \<and> wpa_ie ! 0 = WLAN_EID_RSN then wpa_parse_wpa_ie_rsn wpa_ie else wpa_parse_wpa_ie_wpa wpa_ie)"

definition supp_wpa_akm_table :: "(int \<times> u32) list" where
  "supp_wpa_akm_table = [(WPA_KEY_MGMT_IEEE8021X, WPA_AUTH_KEY_MGMT_UNSPEC_802_1X),
     (WPA_KEY_MGMT_PSK, WPA_AUTH_KEY_MGMT_PSK_OVER_802_1X), (WPA_KEY_MGMT_WPA_NONE, WPA_AUTH_KEY_MGMT_NONE)]"

text \<open>The element written into a buffer of the given size, or \<^term>\<open>None\<close> for the return value -1. A chain
  of comparisons with the known suites is a lookup in a table.\<close>

definition wpa_gen_wpa_ie_wpa :: "nat \<Rightarrow> int \<Rightarrow> int \<Rightarrow> int \<Rightarrow> bytes option" where
  "wpa_gen_wpa_ie_wpa wpa_ie_len pairwise_cipher group_cipher key_mgmt =
     (if wpa_ie_len < 8 + 4 + 2 + 4 + 2 + 4 then None
      else case group_selector wpa_group_table group_cipher of
        None \<Rightarrow> None
      | Some g \<Rightarrow>
          (case map_of wpa_cipher_table pairwise_cipher of
             None \<Rightarrow> None
           | Some p \<Rightarrow>
               (case map_of supp_wpa_akm_table key_mgmt of
                  None \<Rightarrow> None
                | Some a \<Rightarrow>
                    let body = WPA_PUT_BE32 WPA_OUI_TYPE @ WPA_PUT_LE16 WPA_VERSION @ WPA_PUT_BE32 g @ [1, 0] @ WPA_PUT_BE32 p @
                          [1, 0] @ WPA_PUT_BE32 a
                    in Some (WLAN_EID_VENDOR_SPECIFIC # of_nat (length body) # body))))"

definition wpa_gen_wpa_ie_rsn :: "nat \<Rightarrow> int \<Rightarrow> int \<Rightarrow> int \<Rightarrow> wpa_sm \<Rightarrow> bytes option" where
  "wpa_gen_wpa_ie_rsn rsn_ie_len pairwise_cipher group_cipher key_mgmt sm =
     (if rsn_ie_len < 4 + 4 + 2 + 4 + 2 + 4 + 2 + (if w_cur_pmksa sm \<noteq> None then 2 + PMKID_LEN else 0) then None
      else case group_selector rsn_group_table group_cipher of
        None \<Rightarrow> None
      | Some g \<Rightarrow>
          (case map_of rsn_cipher_table pairwise_cipher of
             None \<Rightarrow> None
           | Some p \<Rightarrow>
               (case map_of rsn_akm_table key_mgmt of
                  None \<Rightarrow> None
                | Some a \<Rightarrow>
                    let body = WPA_PUT_LE16 RSN_VERSION @ WPA_PUT_BE32 g @ [1, 0] @ WPA_PUT_BE32 p @ [1, 0] @ WPA_PUT_BE32 a @
                          WPA_PUT_LE16 0 @ (case supp_current sm of None \<Rightarrow> [] | Some e \<Rightarrow> [1, 0] @ p_pmkid e)
                    in Some (WLAN_EID_RSN # of_nat (length body) # body))))"

definition wpa_gen_wpa_ie :: "wpa_sm \<Rightarrow> nat \<Rightarrow> bytes option" where
  "wpa_gen_wpa_ie sm wpa_ie_len =
     (if w_proto sm = WPA_PROTO_RSN
      then wpa_gen_wpa_ie_rsn wpa_ie_len (w_pairwise_cipher sm) (w_group_cipher sm) (w_key_mgmt sm) sm
      else wpa_gen_wpa_ie_wpa wpa_ie_len (w_pairwise_cipher sm) (w_group_cipher sm) (w_key_mgmt sm))"

section \<open>Parsing key data\<close>

text \<open>The elements are kept with their two header bytes, the key data encapsulations without header and
  selector.\<close>

record supp_ie_parse =
  i_wpa_ie :: "bytes option"
  i_rsn_ie :: "bytes option"
  i_pmkid :: "bytes option"
  i_gtk :: "bytes option"
  i_mac_addr :: "bytes option"
  i_mdie :: "bytes option"
  i_ftie :: "bytes option"
  i_reassoc_deadline :: "bytes option"
  i_key_lifetime :: "bytes option"
  i_lnkid :: "bytes option"
  i_ext_capab :: "bytes option"

definition no_ies :: supp_ie_parse where
  "no_ies = \<lparr>i_wpa_ie = None, i_rsn_ie = None, i_pmkid = None, i_gtk = None, i_mac_addr = None, i_mdie = None, i_ftie = None,
     i_reassoc_deadline = None, i_key_lifetime = None, i_lnkid = None, i_ext_capab = None\<rparr>"

definition WLAN_EID_EXT_CAPAB :: u8 where "WLAN_EID_EXT_CAPAB = 127"
definition WLAN_TIMEOUT_REASSOC_DEADLINE :: u8 where "WLAN_TIMEOUT_REASSOC_DEADLINE = 1"
definition WLAN_TIMEOUT_KEY_LIFETIME :: u8 where "WLAN_TIMEOUT_KEY_LIFETIME = 2"

text \<open>\<open>pos\<close> is the rest of the key data from the element on; the first result tells whether the end mark was found.\<close>

definition supp_parse_generic :: "bytes \<Rightarrow> supp_ie_parse \<Rightarrow> bool \<times> supp_ie_parse" where
  "supp_parse_generic pos ie =
     (let n = unat (pos ! 1); body = take n (drop 2 pos); kde = take (n - 4) (drop 6 pos) in
      if n = 0 then (True, ie)
      else if n \<ge> 6 \<and> WPA_GET_BE32 body = WPA_OUI_TYPE \<and> pos ! 6 = 1 \<and> pos ! 7 = 0
        then (False, ie\<lparr>i_wpa_ie := Some (take (n + 2) pos)\<rparr>)
      else if 5 < length pos \<and> n \<ge> 4 + PMKID_LEN \<and> WPA_GET_BE32 body = RSN_KEY_DATA_PMKID
        then (False, ie\<lparr>i_pmkid := Some (take PMKID_LEN kde)\<rparr>)
      else if n > 4 + 2 \<and> WPA_GET_BE32 body = RSN_KEY_DATA_GROUPKEY
        then (False, ie\<lparr>i_gtk := Some kde\<rparr>)
      else if n > 4 + 2 \<and> WPA_GET_BE32 body = RSN_KEY_DATA_MAC_ADDR
        then (False, ie\<lparr>i_mac_addr := Some kde\<rparr>)
      else (False, ie))"

text \<open>What the loop stores for an element \<open>el\<close> that is not vendor specific.\<close>

definition supp_parse_elem :: "bytes \<Rightarrow> supp_ie_parse \<Rightarrow> supp_ie_parse" where
  "supp_parse_elem el ie =
     (if el ! 0 = WLAN_EID_RSN then ie\<lparr>i_rsn_ie := Some el\<rparr>
      else if el ! 0 = WLAN_EID_MOBILITY_DOMAIN then ie\<lparr>i_mdie := Some el\<rparr>
      else if el ! 0 = WLAN_EID_FAST_BSS_TRANSITION then ie\<lparr>i_ftie := Some el\<rparr>
      else if el ! 0 = WLAN_EID_TIMEOUT_INTERVAL \<and> el ! 1 \<ge> 5 then
        (if el ! 2 = WLAN_TIMEOUT_REASSOC_DEADLINE then ie\<lparr>i_reassoc_deadline := Some el\<rparr>
         else if el ! 2 = WLAN_TIMEOUT_KEY_LIFETIME then ie\<lparr>i_key_lifetime := Some el\<rparr>
         else ie)
      else if el ! 0 = WLAN_EID_LINK_ID then ie\<lparr>i_lnkid := Some el\<rparr>
      else if el ! 0 = WLAN_EID_EXT_CAPAB then ie\<lparr>i_ext_capab := Some el\<rparr>
      else ie)"

fun supp_parse_loop :: "bytes \<Rightarrow> supp_ie_parse \<Rightarrow> int \<times> supp_ie_parse" where
  "supp_parse_loop (eid # elen # pos) ie =
     (if eid = 0xdd \<and> elen = 0 then (0, ie)
      else if unat elen > length pos then (-1, ie)
      else if eid = WLAN_EID_VENDOR_SPECIFIC then
        (case supp_parse_generic (eid # elen # pos) ie of
           (stop, ie) \<Rightarrow> if stop then (0, ie) else supp_parse_loop (drop (unat elen) pos) ie)
      else supp_parse_loop (drop (unat elen) pos) (supp_parse_elem (eid # elen # take (unat elen) pos) ie))"
| "supp_parse_loop pos ie = (0, ie)"

definition wpa_supplicant_parse_ies :: "bytes \<Rightarrow> int \<times> supp_ie_parse" where
  "wpa_supplicant_parse_ies buf = supp_parse_loop buf no_ies"

section \<open>The generated element\<close>

lemma put_one: "[1, 0] @ WPA_PUT_BE32 s = put_suites [s]"
  by (simp add: put_suites_def WPA_PUT_LE16_def)

lemma table_bits:
  "map_of rsn_cipher_table c = Some s \<Longrightarrow> suite_bits rsn_selector_to_bitfield [s] = c"
  "map_of wpa_cipher_table c = Some s \<Longrightarrow> suite_bits wpa_selector_to_bitfield [s] = c"
  "map_of rsn_akm_table c = Some s \<Longrightarrow> suite_bits rsn_key_mgmt_to_bitfield [s] = c"
  "map_of supp_wpa_akm_table c = Some s \<Longrightarrow> suite_bits wpa_key_mgmt_to_bitfield [s] = c"
  by (auto simp: suite_tables supp_wpa_akm_table_def suite_bits_def conv_defs split: if_splits)

lemma gen_rsn_parsed:
  assumes "wpa_gen_wpa_ie_rsn len pw gr akm sm = Some ie" "\<forall>e \<in> set_option (supp_current sm). length (p_pmkid e) = PMKID_LEN"
  shows "wpa_parse_wpa_ie ie = (0, rsn_ie_defaults\<lparr>d_group_cipher := gr, d_pairwise_cipher := pw, d_key_mgmt := akm,
    d_num_pmkid := (if supp_current sm = None then 0 else 1), d_pmkid := map_option p_pmkid (supp_current sm)\<rparr>)"
proof -
  obtain g p a where s: "group_selector rsn_group_table gr = Some g" "map_of rsn_cipher_table pw = Some p" "map_of rsn_akm_table akm = Some a"
    using assms(1) by (auto simp: wpa_gen_wpa_ie_rsn_def split: option.splits if_splits)
  define rest where "rest = WPA_PUT_LE16 0 @ (case supp_current sm of None \<Rightarrow> [] | Some e \<Rightarrow> WPA_PUT_LE16 1 @ p_pmkid e)"
  define body where "body = WPA_PUT_BE32 g @ put_suites [p] @ put_suites [a] @ rest"
  have one: "[1, 0] @ x = WPA_PUT_LE16 1 @ x" for x by (simp add: WPA_PUT_LE16_def)
  have ie: "ie = WLAN_EID_RSN # of_nat (2 + length body) # WPA_PUT_LE16 RSN_VERSION @ body"
    using assms(1) s unfolding wpa_gen_wpa_ie_rsn_def body_def rest_def put_one[symmetric] one[symmetric]
    by (auto simp: Let_def split: if_splits option.splits)
  have "length body \<le> 44" using assms(2) by (auto simp: body_def rest_def length_put_suites PMKID_LEN_def split: option.splits)
  then have "wpa_parse_wpa_ie ie = parse_suite_fields rsn_selector_to_bitfield rsn_key_mgmt_to_bitfield parse_rsn_tail body rsn_ie_defaults"
    unfolding ie by (simp add: wpa_parse_wpa_ie_def rsn_hdr_parse[simplified])
  also have "\<dots> = parse_rsn_tail rest (rsn_ie_defaults\<lparr>d_group_cipher := gr, d_pairwise_cipher := pw, d_key_mgmt := akm\<rparr>)"
    unfolding body_def by (subst parse_suite_fields_put) (simp_all add: table_bits(1)[OF s(2)] table_bits(3)[OF s(3)] group_selector_inv(1)[OF s(1)])
  finally show ?thesis using assms(2) unfolding rest_def
    by (auto simp: parse_rsn_tail_def PMKID_LEN_def rsn_ie_defaults_def split: option.splits)
qed

lemma gen_wpa_parsed:
  assumes "wpa_gen_wpa_ie_wpa len pw gr akm = Some ie"
  shows "wpa_parse_wpa_ie ie = (0, wpa_ie_defaults\<lparr>d_group_cipher := gr, d_pairwise_cipher := pw, d_key_mgmt := akm\<rparr>)"
proof -
  obtain g p a where s: "group_selector wpa_group_table gr = Some g" "map_of wpa_cipher_table pw = Some p" "map_of supp_wpa_akm_table akm = Some a"
    using assms by (auto simp: wpa_gen_wpa_ie_wpa_def split: option.splits if_splits)
  define body where "body = WPA_PUT_BE32 g @ put_suites [p] @ put_suites [a] @ []"
  have ie: "ie = WLAN_EID_VENDOR_SPECIFIC # of_nat (6 + length body) # WPA_PUT_BE32 WPA_OUI_TYPE @ WPA_PUT_LE16 WPA_VERSION @ body"
    using assms s unfolding wpa_gen_wpa_ie_wpa_def body_def put_one[symmetric] by (auto simp: Let_def split: if_splits)
  have "length body \<le> 16" by (simp add: body_def length_put_suites)
  then have "wpa_parse_wpa_ie ie = parse_suite_fields wpa_selector_to_bitfield wpa_key_mgmt_to_bitfield parse_wpa_tail body wpa_ie_defaults"
    unfolding ie by (simp add: wpa_parse_wpa_ie_def eid_defs wpa_hdr_parse[simplified eid_defs, simplified])
  also have "\<dots> = parse_wpa_tail [] (wpa_ie_defaults\<lparr>d_group_cipher := gr, d_pairwise_cipher := pw, d_key_mgmt := akm\<rparr>)"
    unfolding body_def by (subst parse_suite_fields_put) (simp_all add: table_bits(2)[OF s(2)] table_bits(4)[OF s(3)] group_selector_inv(2)[OF s(1)])
  finally show ?thesis by (simp add: parse_wpa_tail_def)
qed

section \<open>Key data of the authenticator\<close>

lemma supp_parse_pad: "key_data_pad pad \<Longrightarrow> supp_parse_loop pad ie = (0, ie)"
proof -
  have "supp_parse_loop (0xdd # replicate n 0) ie = (0, ie)" for n by (cases n) simp_all
  then show "key_data_pad pad \<Longrightarrow> supp_parse_loop pad ie = (0, ie)" by (auto simp: key_data_pad_def)
qed

lemma supp_parse_rsn:
  "length rsn < 256 \<Longrightarrow> supp_parse_loop (WLAN_EID_RSN # of_nat (length rsn) # rsn @ pos) ie =
     supp_parse_loop pos (ie\<lparr>i_rsn_ie := Some (WLAN_EID_RSN # of_nat (length rsn) # rsn)\<rparr>)"
  by (simp add: eid_defs supp_parse_elem_def)

lemma supp_parse_gtk:
  assumes "length key < 252" "2 < length key"
  shows "supp_parse_loop (WLAN_EID_VENDOR_SPECIFIC # of_nat (4 + length key) # WPA_PUT_BE32 RSN_KEY_DATA_GROUPKEY @ key @ pos) ie =
     supp_parse_loop pos (ie\<lparr>i_gtk := Some key\<rparr>)"
proof -
  have n: "unat (4 + of_nat (length key) :: u8) = 4 + length key"
    using unat_len_u8[of "4 + length key"] assms(1) by simp
  then have "(4 + of_nat (length key) :: u8) \<noteq> 0" by (metis add_is_0 unat_0 zero_neq_numeral)
  with n assms(2) show ?thesis
    by (simp add: supp_parse_generic_def Let_def eid_defs selector_defs)
qed

lemma supp_parse_pmkid:
  assumes "length pmkid = PMKID_LEN"
  shows "supp_parse_loop ([WLAN_EID_VENDOR_SPECIFIC, 20] @ WPA_PUT_BE32 RSN_KEY_DATA_PMKID @ pmkid) ie = (0, ie\<lparr>i_pmkid := Some pmkid\<rparr>)"
  using assms by (simp add: supp_parse_generic_def Let_def eid_defs selector_defs PMKID_LEN_def)

text \<open>The key data of message 3/4: an RSN element, a group key and the padding of the key wrap.\<close>

lemma supp_parse_message_3:
  assumes "length rsn < 256" "gtk \<noteq> []" "length gtk \<le> 32" "key_data_pad pad"
  shows "wpa_supplicant_parse_ies ((WLAN_EID_RSN # of_nat (length rsn) # rsn) @ wpa_add_kde RSN_KEY_DATA_GROUPKEY [keyid, 0] gtk @ pad) =
    (0, no_ies\<lparr>i_rsn_ie := Some (WLAN_EID_RSN # of_nat (length rsn) # rsn), i_gtk := Some ([keyid, 0] @ gtk)\<rparr>)"
proof -
  have "wpa_add_kde RSN_KEY_DATA_GROUPKEY [keyid, 0] gtk @ pad =
      WLAN_EID_VENDOR_SPECIFIC # of_nat (4 + length ([keyid, 0] @ gtk)) # WPA_PUT_BE32 RSN_KEY_DATA_GROUPKEY @ ([keyid, 0] @ gtk) @ pad"
    by (simp add: wpa_add_kde_def)
  moreover have "length ([keyid, 0] @ gtk) < 252" "2 < length ([keyid, 0] @ gtk)" using assms by auto
  ultimately show ?thesis
    using supp_parse_rsn[OF assms(1)] supp_parse_gtk[of "[keyid, 0] @ gtk"] supp_parse_pad[OF assms(4)]
    by (simp add: wpa_supplicant_parse_ies_def del: of_nat_add length_append of_nat_Suc)
qed

end
