(* ===== verification/Wpa_Supp.thy ===== *)
theory Wpa_Supp
  imports Supp_Ie
begin

unbundle bit_operations_syntax

text \<open>
  The station side of the key handshakes, \<^verbatim>\<open>src/athr-hostap/src/rsn_supp/wpa.c\<close>: the frames the station
  sends, the handlers of the messages 1/4 and 3/4 of the four-way handshake and 1/2 of the group key
  handshake, the checks and the dispatch of \<^verbatim>\<open>wpa_sm_rx_eapol\<close>, and the functions that configure the
  machine. The build is the one without \<^verbatim>\<open>CONFIG_IEEE80211R\<close>, \<^verbatim>\<open>CONFIG_IEEE80211W\<close>, \<^verbatim>\<open>CONFIG_PEERKEY\<close> and
  \<^verbatim>\<open>CONFIG_TDLS\<close>. A received frame is its bytes; the handlers run on the copy \<open>tmp\<close> in which the MIC has
  been recomputed and the key data decrypted.
\<close>

section \<open>Sending\<close>

definition WPA_KEY_INFO_TYPE_AES_128_CMAC :: u16 where "WPA_KEY_INFO_TYPE_AES_128_CMAC = 3"
definition WPA_KEY_INFO_KEY_INDEX_MASK :: u16 where "WPA_KEY_INFO_KEY_INDEX_MASK = 0x30"
definition WPA_KEY_INFO_TXRX :: u16 where "WPA_KEY_INFO_TXRX = 0x40"

definition key_length_field :: "bytes \<Rightarrow> u16" where "key_length_field data = WPA_GET_BE16 (drop 7 data)"
definition key_iv :: "bytes \<Rightarrow> bytes" where "key_iv data = take 16 (drop 49 data)"
definition key_rsc :: "bytes \<Rightarrow> bytes" where "key_rsc data = take 8 (drop 65 data)"

definition is_zero_ether_addr :: "macaddr \<Rightarrow> bool" where "is_zero_ether_addr a \<longleftrightarrow> (\<forall>b \<in> set (take 6 a). b = 0)"

text \<open>\<open>mic\<close> tells whether the pointer to the MIC field is given.\<close>

definition wpa_eapol_key_send :: "supp_env \<Rightarrow> bytes \<Rightarrow> u16 \<Rightarrow> macaddr \<Rightarrow> bytes \<Rightarrow> bool \<Rightarrow> supp_ctx \<Rightarrow> supp_ctx" where
  "wpa_eapol_key_send E key ver dest msg mic c =
     (let (dest, c) =
        (if is_zero_ether_addr dest \<and> is_zero_ether_addr (w_bssid (sc_sm c)) then
           let c = call S_get_bssid c in
           case SE_bssid E (sc_tr c) of None \<Rightarrow> (dest, c) | Some b \<Rightarrow> (b, upd_w (\<lambda>s. s\<lparr>w_bssid := b\<rparr>) c)
         else (dest, c))
      in case (if mic then map_option (memput msg 81) (wpa_eapol_key_mic (SE_hmac_md5 E) (SE_hmac_sha1 E) key ver msg) else Some msg) of
           None \<Rightarrow> c
         | Some msg \<Rightarrow> call (S_notify N_tx_eapol_key) (call (S_ether_send dest msg) c))"

text \<open>A reply as the functions below fill it in, or \<^term>\<open>None\<close> if \<^verbatim>\<open>wpa_sm_alloc_eapol\<close> fails; fields that
  are not set stay zero.\<close>

definition supp_reply ::
  "supp_env \<Rightarrow> u16 \<Rightarrow> u16 \<Rightarrow> bytes \<Rightarrow> bytes \<Rightarrow> bytes \<Rightarrow> supp_ctx \<Rightarrow> bytes option \<times> supp_ctx" where
  "supp_reply E info key_len counter nonce data c =
     (case supp_malloc E c of (ok, c) \<Rightarrow>
        (if ok then Some (eapol_key_frame (SE_eapol_version E) (if w_proto (sc_sm c) = WPA_PROTO_RSN then 2 else 254) info key_len
            counter nonce (replicate 16 0) (replicate 8 0) data) else None, c))"

text \<open>The key length of a reply: zero for RSN, copied for WPA.\<close>

definition reply_key_length :: "wpa_sm \<Rightarrow> bytes \<Rightarrow> u16" where
  "reply_key_length sm key = (if w_proto sm = WPA_PROTO_RSN then 0 else key_length_field key)"

text \<open>The key information of a request.\<close>

definition key_request_info :: "wpa_sm \<Rightarrow> u16 \<Rightarrow> bool \<Rightarrow> bool \<Rightarrow> u16" where
  "key_request_info sm ver err pw =
     (let key_info = WPA_KEY_INFO_REQUEST OR ver;
          key_info = (if w_ptk_set sm then key_info OR WPA_KEY_INFO_MIC else key_info);
          key_info = (if err then key_info OR WPA_KEY_INFO_ERROR else key_info);
          key_info = (if pw then key_info OR WPA_KEY_INFO_KEY_TYPE else key_info)
      in key_info)"

definition wpa_sm_key_request :: "supp_env \<Rightarrow> bool \<Rightarrow> bool \<Rightarrow> supp_ctx \<Rightarrow> supp_ctx" where
  "wpa_sm_key_request E err pw c =
     (let sm = sc_sm c;
          ver = (if wpa_key_mgmt_ft (w_key_mgmt sm) \<or> wpa_key_mgmt_sha256 (w_key_mgmt sm) then WPA_KEY_INFO_TYPE_AES_128_CMAC
                 else if w_pairwise_cipher sm = WPA_CIPHER_CCMP then WPA_KEY_INFO_TYPE_HMAC_SHA1_AES
                 else WPA_KEY_INFO_TYPE_HMAC_MD5_RC4);
          c = call S_get_bssid c
      in case SE_bssid E (sc_tr c) of
           None \<Rightarrow> c
         | Some bssid \<Rightarrow>
             let key_info = key_request_info sm ver err pw
             in case supp_reply E key_info 0 (w_request_counter sm) (replicate 32 0) [] c of
                  (None, c) \<Rightarrow> c
                | (Some rbuf, c) \<Rightarrow>
                    let c = upd_w (\<lambda>s. s\<lparr>w_request_counter := inc_byte_array (w_request_counter s)\<rparr>) c
                    in wpa_eapol_key_send E (kck (w_ptk (sc_sm c))) ver bssid rbuf (info_has key_info WPA_KEY_INFO_MIC) c)"

definition wpa_sm_rekey_ptk :: "supp_env \<Rightarrow> supp_ctx \<Rightarrow> supp_ctx" where
  "wpa_sm_rekey_ptk E c = wpa_sm_key_request E False True c"

definition wpa_supplicant_send_2_of_4 ::
  "supp_env \<Rightarrow> macaddr \<Rightarrow> bytes \<Rightarrow> u16 \<Rightarrow> bytes \<Rightarrow> bytes option \<Rightarrow> bytes \<Rightarrow> supp_ctx \<Rightarrow> int \<times> supp_ctx" where
  "wpa_supplicant_send_2_of_4 E dst key ver nonce wpa_ie ptk c =
     (case wpa_ie of
        None \<Rightarrow> (-1, c)
      | Some wpa_ie \<Rightarrow>
          (case supp_reply E (ver OR WPA_KEY_INFO_KEY_TYPE OR WPA_KEY_INFO_MIC) (reply_key_length (sc_sm c) key)
              (key_replay_counter key) nonce wpa_ie c of
             (None, c) \<Rightarrow> (-1, c)
           | (Some rbuf, c) \<Rightarrow> (0, wpa_eapol_key_send E (kck ptk) ver dst rbuf True c)))"

definition wpa_supplicant_send_4_of_4 ::
  "supp_env \<Rightarrow> macaddr \<Rightarrow> bytes \<Rightarrow> u16 \<Rightarrow> u16 \<Rightarrow> bytes \<Rightarrow> bytes \<Rightarrow> supp_ctx \<Rightarrow> int \<times> supp_ctx" where
  "wpa_supplicant_send_4_of_4 E dst key ver key_info kde ptk c =
     (let key_info = key_info AND WPA_KEY_INFO_SECURE;
          key_info = key_info OR ver OR WPA_KEY_INFO_KEY_TYPE OR WPA_KEY_INFO_MIC
      in case supp_reply E key_info (reply_key_length (sc_sm c) key) (key_replay_counter key) (replicate 32 0) kde c of
           (None, c) \<Rightarrow> (-1, c)
         | (Some rbuf, c) \<Rightarrow> (0, wpa_eapol_key_send E (kck ptk) ver dst rbuf True c))"

definition wpa_supplicant_send_2_of_2 :: "supp_env \<Rightarrow> bytes \<Rightarrow> u16 \<Rightarrow> u16 \<Rightarrow> supp_ctx \<Rightarrow> int \<times> supp_ctx" where
  "wpa_supplicant_send_2_of_2 E key ver key_info c =
     (let key_info = key_info AND WPA_KEY_INFO_KEY_INDEX_MASK;
          key_info = key_info OR ver OR WPA_KEY_INFO_MIC OR WPA_KEY_INFO_SECURE
      in case supp_reply E key_info (reply_key_length (sc_sm c) key) (key_replay_counter key) (replicate 32 0) [] c of
           (None, c) \<Rightarrow> (-1, c)
         | (Some rbuf, c) \<Rightarrow> (0, wpa_eapol_key_send E (kck (w_ptk (sc_sm c))) ver (w_bssid (sc_sm c)) rbuf True c))"

section \<open>Message 1 of 4\<close>

definition wpa_sm_set_pmk_from_pmksa :: "supp_ctx \<Rightarrow> supp_ctx" where
  "wpa_sm_set_pmk_from_pmksa c =
     (case supp_current (sc_sm c) of
        Some e \<Rightarrow> upd_w (\<lambda>s. s\<lparr>w_pmk_len := p_pmk_len e, w_pmk := memput (w_pmk s) 0 (take (p_pmk_len e) (p_pmk e))\<rparr>) c
      | None \<Rightarrow> upd_w (\<lambda>s. s\<lparr>w_pmk_len := PMK_LEN, w_pmk := replicate PMK_LEN 0\<rparr>) c)"

text \<open>\<^verbatim>\<open>eapol_sm_get_key\<close>: the return value, what is copied and the state. \<open>SE_eapol_key\<close> is the key data of the EAP
  method, if there is any.\<close>

definition eapol_sm_get_key :: "supp_env \<Rightarrow> nat \<Rightarrow> supp_ctx \<Rightarrow> int \<times> bytes \<times> supp_ctx" where
  "eapol_sm_get_key E len c =
     (let c = call (S_get_key len) c in
      case SE_eapol_key E (sc_tr c) of
        None \<Rightarrow> (-1, [], c)
      | Some eap_key \<Rightarrow> if len > length eap_key then (int (length eap_key), [], c) else (0, take len eap_key, c))"

text \<open>The branch that takes the PMK from the EAPOL machine; the first result is whether caching is given up, the
  second whether the function returns -1.\<close>

definition pmk_from_eapol :: "supp_env \<Rightarrow> macaddr \<Rightarrow> bytes option \<Rightarrow> bool \<Rightarrow> supp_ctx \<Rightarrow> bool \<times> bool \<times> supp_ctx" where
  "pmk_from_eapol E src_addr pmkid abort_cached c =
     (case (case eapol_sm_get_key E PMK_LEN c of (res, key, c) \<Rightarrow>
              if res \<noteq> 0 then (case eapol_sm_get_key E 16 c of (res, key, c) \<Rightarrow> (res, key, 16, c)) else (res, key, PMK_LEN, c)) of
        (res, key, pmk_len, c) \<Rightarrow>
        if res = 0 then
          let c = upd_w (\<lambda>s. s\<lparr>w_pmk := memput (w_pmk s) 0 key, w_pmk_len := pmk_len\<rparr>) c;
              sm = sc_sm c;
              c = (if w_proto sm = WPA_PROTO_RSN
                   then snd (supp_pmksa_add E (take pmk_len (w_pmk sm)) src_addr (w_own_addr sm) (w_network_ctx sm) (w_key_mgmt sm) c) else c)
          in (if w_cur_pmksa (sc_sm c) = None \<and> pmkid \<noteq> None \<and> supp_pmksa_get (sc_sm c) (Some src_addr) pmkid \<noteq> None
              then False else abort_cached, False, c)
        else if w_cur_pmksa (sc_sm c) \<noteq> None then (True, False, upd_w (\<lambda>s. s\<lparr>w_cur_pmksa := None\<rparr>) c)
        else (abort_cached, \<not> abort_cached, c))"

definition wpa_supplicant_get_pmk :: "supp_env \<Rightarrow> macaddr \<Rightarrow> bytes option \<Rightarrow> supp_ctx \<Rightarrow> int \<times> supp_ctx" where
  "wpa_supplicant_get_pmk E src_addr pmkid c =
     (let (abort_cached, c) =
        (if pmkid \<noteq> None \<and> w_cur_pmksa (sc_sm c) = None then
           let cur = supp_pmksa_get (sc_sm c) (Some src_addr) pmkid
           in (cur = None, upd_w (\<lambda>s. s\<lparr>w_cur_pmksa := cur\<rparr>) c)
         else (False, c));
        (abort_cached, failed, c) =
        (if pmkid \<noteq> None \<and> pmkid = map_option p_pmkid (supp_current (sc_sm c))
         then (abort_cached, False, call (S_notify N_cached) (wpa_sm_set_pmk_from_pmksa c))
         else if wpa_key_mgmt_wpa_ieee8021x (w_key_mgmt (sc_sm c)) \<and> w_eapol (sc_sm c)
         then pmk_from_eapol E src_addr pmkid abort_cached c
         else (abort_cached, False, c))
      in if failed then (-1, c)
         else if abort_cached \<and> wpa_key_mgmt_wpa_ieee8021x (w_key_mgmt (sc_sm c)) then
           (case supp_malloc E c of (ok, c) \<Rightarrow>
              if ok then (-2, call (S_ether_send (w_bssid (sc_sm c)) [SE_eapol_version E, 1, 0, 0]) c) else (-1, c))
         else (0, c))"

definition supp_derive_ptk :: "supp_env \<Rightarrow> bytes \<Rightarrow> wpa_sm \<Rightarrow> bytes" where
  "supp_derive_ptk E key sm =
     memput (w_tptk sm) 0
       (wpa_pmk_to_ptk (\<lambda>key label d n. case SE_sha1_prf E key label d n of Some k \<Rightarrow> k | None \<Rightarrow> [])
          (take (w_pmk_len sm) (w_pmk sm)) (ascii ''Pairwise key expansion'') (w_own_addr sm) (w_bssid sm) (w_snonce sm) (key_nonce key)
          (if w_pairwise_cipher sm = WPA_CIPHER_CCMP then 48 else 64))"

text \<open>The Michael keys of the two directions are exchanged.\<close>

definition swap_mic_keys :: "bytes \<Rightarrow> bytes" where
  "swap_mic_keys ptk = take 48 ptk @ take 8 (drop 56 ptk) @ take 8 (drop 48 ptk)"

definition supp_failed :: "supp_ctx \<Rightarrow> supp_ctx" where
  "supp_failed c = wpa_sm_deauthenticate WLAN_REASON_UNSPECIFIED c"

text \<open>A new nonce if one is due; the first result is whether the random source failed.\<close>

definition renew_snonce :: "supp_env \<Rightarrow> supp_ctx \<Rightarrow> bool \<times> supp_ctx" where
  "renew_snonce E c =
     (if w_renew_snonce (sc_sm c) then
        let c = call (S_random 32) c in
        case SE_random E (sc_tr c) 32 of (ok, bs) \<Rightarrow>
          let c = upd_w (\<lambda>s. s\<lparr>w_snonce := bs\<rparr>) c in
          if ok then (False, upd_w (\<lambda>s. s\<lparr>w_renew_snonce := False\<rparr>) c) else (True, c)
      else (False, c))"

definition wpa_supplicant_process_1_of_4 :: "supp_env \<Rightarrow> macaddr \<Rightarrow> bytes \<Rightarrow> u16 \<Rightarrow> supp_ctx \<Rightarrow> supp_ctx" where
  "wpa_supplicant_process_1_of_4 E src_addr key ver c =
     (if SE_network_ctx E (sc_tr c) = None then c
      else
        let c = call (S_set_state WPA_4WAY_HANDSHAKE) c;
            ie = (if w_proto (sc_sm c) = WPA_PROTO_RSN then snd (wpa_supplicant_parse_ies (key_data key)) else no_ies)
        in case wpa_supplicant_get_pmk E src_addr (i_pmkid ie) c of (res, c) \<Rightarrow>
           if res = -2 then c
           else if res \<noteq> 0 then supp_failed c
           else case renew_snonce E c of (err, c) \<Rightarrow>
             if err then supp_failed c
             else
               let c = upd_w (\<lambda>s. s\<lparr>w_tptk := swap_mic_keys (supp_derive_ptk E key s), w_tptk_set := True\<rparr>) c;
                   sm = sc_sm c
               in case wpa_supplicant_send_2_of_4 E (w_bssid sm) key ver (w_snonce sm) (w_assoc_wpa_ie sm) (w_tptk sm) c of
                    (ret, c) \<Rightarrow> if ret \<noteq> 0 then supp_failed c else upd_w (\<lambda>s. s\<lparr>w_anonce := key_nonce key\<rparr>) c)"

section \<open>Keys for the driver\<close>

definition wpa_supplicant_key_neg_complete :: "macaddr \<Rightarrow> bool \<Rightarrow> supp_ctx \<Rightarrow> supp_ctx" where
  "wpa_supplicant_key_neg_complete da secure c =
     (let c = call (S_set_state WPA_COMPLETED) (call S_cancel_auth_timeout c);
          c = (if secure then
                 let c = call (S_setprotection da MLME_SETPROTECTION_PROTECT_TYPE_RX_TX MLME_SETPROTECTION_KEY_TYPE_PAIRWISE) c;
                     c = call (S_notify (N_portValid True)) c;
                     c = (if wpa_key_mgmt_wpa_psk (w_key_mgmt (sc_sm c)) then call (S_notify (N_eap_success True)) c else c)
                 in call (S_register ST_start_preauth 1) c
               else c)
      in case supp_current (sc_sm c) of
           None \<Rightarrow> c
         | Some e \<Rightarrow> if p_opportunistic e then supp_store (p_addr e) (\<lambda>e. e\<lparr>p_opportunistic := False\<rparr>) c else c)"

definition wpa_supplicant_install_ptk :: "supp_env \<Rightarrow> bytes \<Rightarrow> supp_ctx \<Rightarrow> int \<times> supp_ctx" where
  "wpa_supplicant_install_ptk E key c =
     (let sm = sc_sm c in
      if w_pairwise_cipher sm = WPA_CIPHER_NONE then (0, c)
      else if w_pairwise_cipher sm \<noteq> WPA_CIPHER_CCMP \<and> w_pairwise_cipher sm \<noteq> WPA_CIPHER_TKIP then (-1, c)
      else
        let ccmp = (w_pairwise_cipher sm = WPA_CIPHER_CCMP);
            rsc = (if w_proto sm = WPA_PROTO_RSN then replicate 8 0 else key_rsc key)
        in case wpa_sm_set_key E (if ccmp then WPA_ALG_CCMP else WPA_ALG_TKIP) (Some (w_bssid sm)) 0 True (take 6 rsc)
               (take (if ccmp then 16 else 32) (drop 32 (w_ptk sm))) c of
             (ret, c) \<Rightarrow>
               if ret < 0 then (-1, c)
               else if w_wpa_ptk_rekey sm \<noteq> 0
               then (0, call (S_register ST_rekey_ptk (w_wpa_ptk_rekey sm)) (call (S_cancel ST_rekey_ptk) c))
               else (0, c))"

text \<open>The length of the sequence counter and the algorithm, or \<^term>\<open>None\<close> for the return value -1.\<close>

definition wpa_supplicant_check_group_cipher :: "int \<Rightarrow> int \<Rightarrow> int \<Rightarrow> (nat \<times> wpa_alg) option" where
  "wpa_supplicant_check_group_cipher group_cipher keylen maxkeylen =
     (if group_cipher = WPA_CIPHER_CCMP then if keylen \<noteq> 16 \<or> maxkeylen < 16 then None else Some (6, WPA_ALG_CCMP)
      else if group_cipher = WPA_CIPHER_TKIP then if keylen \<noteq> 32 \<or> maxkeylen < 32 then None else Some (6, WPA_ALG_TKIP)
      else if group_cipher = WPA_CIPHER_WEP104 then if keylen \<noteq> 13 \<or> maxkeylen < 13 then None else Some (0, WPA_ALG_WEP)
      else if group_cipher = WPA_CIPHER_WEP40 then if keylen \<noteq> 5 \<or> maxkeylen < 5 then None else Some (0, WPA_ALG_WEP)
      else None)"

record wpa_gtk_data =
  gd_alg :: wpa_alg
  gd_tx :: bool
  gd_key_rsc_len :: nat
  gd_keyidx :: int
  gd_gtk :: bytes
  gd_gtk_len :: nat

definition wpa_supplicant_install_gtk :: "supp_env \<Rightarrow> wpa_gtk_data \<Rightarrow> bytes \<Rightarrow> supp_ctx \<Rightarrow> int \<times> supp_ctx" where
  "wpa_supplicant_install_gtk E gd rsc c =
     (let sm = sc_sm c;
          g = gd_gtk gd;
          gtk = (if w_group_cipher sm = WPA_CIPHER_TKIP then take 16 g @ take 8 (drop 24 g) @ take 8 (drop 16 g) else g);
          none = (w_pairwise_cipher sm = WPA_CIPHER_NONE)
      in case wpa_sm_set_key E (gd_alg gd) (if none then None else Some (replicate 6 0xff)) (gd_keyidx gd)
             (if none then True else gd_tx gd) (take (gd_key_rsc_len gd) rsc) (take (gd_gtk_len gd) gtk) c of
           (ret, c) \<Rightarrow> (if ret < 0 then -1 else 0, c))"

definition wpa_supplicant_gtk_tx_bit_workaround :: "wpa_sm \<Rightarrow> bool \<Rightarrow> bool" where
  "wpa_supplicant_gtk_tx_bit_workaround sm tx = (if tx \<and> w_pairwise_cipher sm \<noteq> WPA_CIPHER_NONE then False else tx)"

text \<open>The fields that a group key encapsulation gives, its two header bytes included.\<close>

definition gtk_of_kde :: "wpa_sm \<Rightarrow> bytes \<Rightarrow> nat \<times> wpa_alg \<Rightarrow> wpa_gtk_data" where
  "gtk_of_kde sm gtk = (\<lambda>(rsc_len, alg).
     \<lparr>gd_alg = alg, gd_tx = wpa_supplicant_gtk_tx_bit_workaround sm (gtk ! 0 AND 4 \<noteq> 0), gd_key_rsc_len = rsc_len,
      gd_keyidx = uint (gtk ! 0 AND 3), gd_gtk = memput (replicate 32 0) 0 (drop 2 gtk), gd_gtk_len = length gtk - 2\<rparr>)"

definition wpa_supplicant_pairwise_gtk :: "supp_env \<Rightarrow> bytes \<Rightarrow> bytes \<Rightarrow> u16 \<Rightarrow> supp_ctx \<Rightarrow> int \<times> supp_ctx" where
  "wpa_supplicant_pairwise_gtk E key gtk key_info c =
     (if length gtk < 2 \<or> length gtk - 2 > 32 then (-1, c)
      else
        let gtk_len = int (length gtk - 2) in
        case wpa_supplicant_check_group_cipher (w_group_cipher (sc_sm c)) gtk_len gtk_len of
          None \<Rightarrow> (-1, c)
        | Some x \<Rightarrow>
            (case wpa_supplicant_install_gtk E (gtk_of_kde (sc_sm c) gtk x) (key_rsc key) c of
               (ret, c) \<Rightarrow>
                 if ret \<noteq> 0 then (-1, c)
                 else (0, wpa_supplicant_key_neg_complete (w_bssid (sc_sm c)) (info_has key_info WPA_KEY_INFO_SECURE) c)))"

section \<open>Message 3 of 4\<close>

definition wpa_report_ie_mismatch :: "supp_ctx \<Rightarrow> supp_ctx" where
  "wpa_report_ie_mismatch c = call (S_disassociate WLAN_REASON_IE_IN_4WAY_DIFFERS) c"

text \<open>The elements of the access point are looked up again if none is known.\<close>

definition supp_beacon_ies :: "supp_env \<Rightarrow> supp_ctx \<Rightarrow> supp_ctx" where
  "supp_beacon_ies E c =
     (if w_ap_wpa_ie (sc_sm c) = None \<and> w_ap_rsn_ie (sc_sm c) = None then
        let c = call S_get_beacon_ie c in
        case SE_beacon_ie E (sc_tr c) of
          None \<Rightarrow> c
        | Some (wpa, rsn) \<Rightarrow> upd_w (\<lambda>s. s\<lparr>w_ap_wpa_ie := wpa, w_ap_rsn_ie := rsn\<rparr>) c
      else c)"

definition supp_ie_mismatch :: "wpa_sm \<Rightarrow> supp_ie_parse \<Rightarrow> bool" where
  "supp_ie_mismatch sm ie \<longleftrightarrow>
     (i_wpa_ie ie = None \<and> i_rsn_ie ie = None \<and> (w_ap_wpa_ie sm \<noteq> None \<or> w_ap_rsn_ie sm \<noteq> None)) \<or>
     (i_wpa_ie ie \<noteq> None \<and> w_ap_wpa_ie sm \<noteq> None \<and> i_wpa_ie ie \<noteq> w_ap_wpa_ie sm) \<or>
     (i_rsn_ie ie \<noteq> None \<and> w_ap_rsn_ie sm \<noteq> None \<and> wpa_compare_rsn_ie (w_ap_rsn_ie sm) (i_rsn_ie ie) \<noteq> 0) \<or>
     (w_proto sm = WPA_PROTO_WPA \<and> i_rsn_ie ie \<noteq> None \<and> w_ap_rsn_ie sm = None \<and> w_rsn_enabled sm)"

definition wpa_supplicant_validate_ie :: "supp_env \<Rightarrow> supp_ie_parse \<Rightarrow> supp_ctx \<Rightarrow> int \<times> supp_ctx" where
  "wpa_supplicant_validate_ie E ie c =
     (let c = supp_beacon_ies E c in
      if supp_ie_mismatch (sc_sm c) ie then (-1, wpa_report_ie_mismatch c) else (0, c))"

text \<open>What follows the transmission of message 4/4.\<close>

definition supp_finish_3_of_4 :: "supp_env \<Rightarrow> bytes \<Rightarrow> u16 \<Rightarrow> supp_ie_parse \<Rightarrow> supp_ctx \<Rightarrow> supp_ctx" where
  "supp_finish_3_of_4 E key key_info ie c =
     (let c = upd_w (\<lambda>s. s\<lparr>w_renew_snonce := True\<rparr>) c
      in case (if info_has key_info WPA_KEY_INFO_INSTALL then wpa_supplicant_install_ptk E key c else (0, c)) of (ret, c) \<Rightarrow>
         if ret \<noteq> 0 then supp_failed c
         else
           let c = (if info_has key_info WPA_KEY_INFO_SECURE then
                      call (S_notify (N_portValid True))
                        (call (S_setprotection (w_bssid (sc_sm c)) MLME_SETPROTECTION_PROTECT_TYPE_RX MLME_SETPROTECTION_KEY_TYPE_PAIRWISE) c)
                    else c);
               c = call (S_set_state WPA_GROUP_HANDSHAKE) c
           in case i_gtk ie of
                None \<Rightarrow> c
              | Some gtk \<Rightarrow> (case wpa_supplicant_pairwise_gtk E key gtk key_info c of (ret, c) \<Rightarrow> if ret < 0 then supp_failed c else c))"

definition wpa_supplicant_process_3_of_4 :: "supp_env \<Rightarrow> bytes \<Rightarrow> u16 \<Rightarrow> supp_ctx \<Rightarrow> supp_ctx" where
  "wpa_supplicant_process_3_of_4 E key ver c =
     (let c = call (S_set_state WPA_4WAY_HANDSHAKE) c;
          key_info = key_info_of key;
          ie = snd (wpa_supplicant_parse_ies (key_data key))
      in if i_gtk ie \<noteq> None \<and> \<not> info_has key_info WPA_KEY_INFO_ENCR_KEY_DATA then supp_failed c
         else case wpa_supplicant_validate_ie E ie c of (ret, c) \<Rightarrow>
           if ret < 0 then supp_failed c
           else if w_anonce (sc_sm c) \<noteq> key_nonce key then supp_failed c
           else if w_pairwise_cipher (sc_sm c) = WPA_CIPHER_CCMP \<and> key_length_field key \<noteq> 16 then supp_failed c
           else if w_pairwise_cipher (sc_sm c) = WPA_CIPHER_TKIP \<and> key_length_field key \<noteq> 32 then supp_failed c
           else case wpa_supplicant_send_4_of_4 E (w_bssid (sc_sm c)) key ver key_info [] (w_ptk (sc_sm c)) c of (ret, c) \<Rightarrow>
             if ret \<noteq> 0 then supp_failed c else supp_finish_3_of_4 E key key_info ie c)"

section \<open>Message 1 of 2\<close>

text \<open>The group key, or \<^term>\<open>None\<close> for the return value -1.\<close>

definition wpa_supplicant_process_1_of_2_rsn :: "wpa_sm \<Rightarrow> bytes \<Rightarrow> u16 \<Rightarrow> wpa_gtk_data option" where
  "wpa_supplicant_process_1_of_2_rsn sm keydata key_info =
     (case i_gtk (snd (wpa_supplicant_parse_ies keydata)) of
        None \<Rightarrow> None
      | Some gtk \<Rightarrow>
          if \<not> info_has key_info WPA_KEY_INFO_ENCR_KEY_DATA then None
          else case wpa_supplicant_check_group_cipher (w_group_cipher sm) (int (length gtk) - 2) (int (length gtk) - 2) of
            None \<Rightarrow> None
          | Some x \<Rightarrow> if length gtk - 2 > 32 then None else Some (gtk_of_kde sm gtk x))"

definition wpa_supplicant_process_1_of_2_wpa :: "supp_env \<Rightarrow> wpa_sm \<Rightarrow> bytes \<Rightarrow> u16 \<Rightarrow> nat \<Rightarrow> u16 \<Rightarrow> wpa_gtk_data option" where
  "wpa_supplicant_process_1_of_2_wpa E sm key key_info extra_len ver =
     (let gtk_len = key_length_field key;
          keydatalen = key_data_length key;
          aes = (ver = WPA_KEY_INFO_TYPE_HMAC_SHA1_AES);
          maxkeylen = (if aes then keydatalen - 8 else keydatalen)
      in if keydatalen > extra_len then None
         else if aes \<and> keydatalen < 8 then None
         else case wpa_supplicant_check_group_cipher (w_group_cipher sm) (uint gtk_len) (int maxkeylen) of
           None \<Rightarrow> None
         | Some (rsc_len, alg) \<Rightarrow>
             (case (if ver = WPA_KEY_INFO_TYPE_HMAC_MD5_RC4 then
                      if keydatalen > 32 then None else Some (SE_rc4_skip E (key_iv key @ kek (w_ptk sm)) 256 (key_data key))
                    else if aes then
                      if keydatalen mod 8 \<noteq> 0 then None
                      else if maxkeylen > 32 then None
                      else SE_aes_unwrap E (kek (w_ptk sm)) (maxkeylen div 8) (key_data key)
                    else None) of
                None \<Rightarrow> None
              | Some gtk \<Rightarrow>
                  Some \<lparr>gd_alg = alg, gd_tx = wpa_supplicant_gtk_tx_bit_workaround sm (info_has key_info WPA_KEY_INFO_TXRX),
                    gd_key_rsc_len = rsc_len, gd_keyidx = uint (drop_bit 4 (key_info AND WPA_KEY_INFO_KEY_INDEX_MASK)),
                    gd_gtk = memput (replicate 32 0) 0 gtk, gd_gtk_len = unat gtk_len\<rparr>))"

definition wpa_supplicant_process_1_of_2 :: "supp_env \<Rightarrow> bytes \<Rightarrow> nat \<Rightarrow> u16 \<Rightarrow> supp_ctx \<Rightarrow> supp_ctx" where
  "wpa_supplicant_process_1_of_2 E key extra_len ver c =
     (let rekey = (SE_get_state E (sc_tr c) = WPA_COMPLETED);
          key_info = key_info_of key;
          gd = (if w_proto (sc_sm c) = WPA_PROTO_RSN then wpa_supplicant_process_1_of_2_rsn (sc_sm c) (key_data key) key_info
                else wpa_supplicant_process_1_of_2_wpa E (sc_sm c) key key_info extra_len ver);
          c = call (S_set_state WPA_GROUP_HANDSHAKE) c
      in case gd of
           None \<Rightarrow> supp_failed c
         | Some gd \<Rightarrow>
             (case wpa_supplicant_install_gtk E gd (key_rsc key) c of (ret, c) \<Rightarrow>
                if ret \<noteq> 0 then supp_failed c
                else case wpa_supplicant_send_2_of_2 E key ver key_info c of (ret, c) \<Rightarrow>
                  if ret \<noteq> 0 then supp_failed c
                  else if rekey then call (S_set_state WPA_COMPLETED) (call S_cancel_auth_timeout c)
                  else wpa_supplicant_key_neg_complete (w_bssid (sc_sm c)) (info_has key_info WPA_KEY_INFO_SECURE) c))"

section \<open>Receiving\<close>

text \<open>The frame with its MIC field recomputed over the first \<open>len\<close> bytes; an error leaves the field zero.\<close>

definition recompute_mic :: "supp_env \<Rightarrow> bytes \<Rightarrow> u16 \<Rightarrow> nat \<Rightarrow> bytes \<Rightarrow> bytes" where
  "recompute_mic E key ver len tmp =
     (let tmp = memput tmp 81 (replicate 16 0) in
      case wpa_eapol_key_mic (SE_hmac_md5 E) (SE_hmac_sha1 E) key ver (take len tmp) of
        None \<Rightarrow> tmp
      | Some mic \<Rightarrow> memput tmp 81 mic)"

definition wpa_supplicant_verify_eapol_key_mic :: "supp_env \<Rightarrow> u16 \<Rightarrow> nat \<Rightarrow> bytes \<Rightarrow> supp_ctx \<Rightarrow> bool \<times> bytes \<times> supp_ctx" where
  "wpa_supplicant_verify_eapol_key_mic E ver len tmp c =
     (let mic = key_mic tmp;
          (ok, tmp, c) =
            (if w_tptk_set (sc_sm c) then
               let tmp = recompute_mic E (kck (w_tptk (sc_sm c))) ver len tmp in
               if mic \<noteq> key_mic tmp then (False, tmp, c)
               else (True, tmp, upd_w (\<lambda>s. s\<lparr>w_tptk_set := False, w_ptk_set := True, w_ptk := w_tptk s\<rparr>) c)
             else (False, tmp, c));
          (ok, tmp) =
            (if \<not> ok \<and> w_ptk_set (sc_sm c) then
               let tmp = recompute_mic E (kck (w_ptk (sc_sm c))) ver len tmp in (mic = key_mic tmp, tmp)
             else (ok, tmp))
      in if \<not> ok then (False, tmp, c)
         else (True, tmp, upd_w (\<lambda>s. s\<lparr>w_rx_replay_counter := key_replay_counter tmp, w_rx_replay_counter_set := True\<rparr>) c))"

text \<open>Whether the decryption succeeds, the frame and the state. \<^term>\<open>None\<close> is an access outside the copy of the
  frame: \<^verbatim>\<open>aes_unwrap\<close> reads as many units as it is told.\<close>

definition wpa_supplicant_decrypt_key_data :: "supp_env \<Rightarrow> u16 \<Rightarrow> bytes \<Rightarrow> supp_ctx \<Rightarrow> (bool \<times> bytes \<times> supp_ctx) option" where
  "wpa_supplicant_decrypt_key_data E ver tmp c =
     (let keydatalen = (WPA_GET_BE16 (drop 97 tmp) :: u16); key = kek (w_ptk (sc_sm c)) in
      if \<not> w_ptk_set (sc_sm c) then Some (False, tmp, c)
      else if ver = WPA_KEY_INFO_TYPE_HMAC_MD5_RC4
      then Some (True, memput tmp 99 (SE_rc4_skip E (key_iv tmp @ key) 256 (key_data tmp)), c)
      else if ver = WPA_KEY_INFO_TYPE_HMAC_SHA1_AES \<or> ver = WPA_KEY_INFO_TYPE_AES_128_CMAC then
        if unat keydatalen mod 8 \<noteq> 0 then Some (False, tmp, c)
        else
          let keydatalen = keydatalen - 8; n = unat keydatalen div 8 in
          case supp_malloc E c of (ok, c) \<Rightarrow>
            if \<not> ok then Some (False, tmp, c)
            else if 99 + 8 * (n + 1) > length tmp then None
            else (case SE_aes_unwrap E key n (take (8 * (n + 1)) (drop 99 tmp)) of
                    None \<Rightarrow> Some (False, tmp, c)
                  | Some buf \<Rightarrow> Some (True, memput (memput tmp 99 (take (unat keydatalen) buf)) 97 (WPA_PUT_BE16 keydatalen), c))
      else Some (False, tmp, c))"

definition wpa_sm_aborted_cached :: "supp_ctx \<Rightarrow> supp_ctx" where
  "wpa_sm_aborted_cached c = (if w_cur_pmksa (sc_sm c) \<noteq> None then upd_w (\<lambda>s. s\<lparr>w_cur_pmksa := None\<rparr>) c else c)"

text \<open>The frames that are not for this function: the return value is 0.\<close>

definition supp_not_for_us :: "bytes \<Rightarrow> bool" where
  "supp_not_for_us tmp \<longleftrightarrow>
     (let plen = unat (WPA_GET_BE16 (drop 2 tmp)) in
      tmp ! 1 \<noteq> 3 \<or> plen > length tmp - 4 \<or> plen < 95 \<or> (key_type tmp \<noteq> 254 \<and> key_type tmp \<noteq> 2))"

text \<open>The frames that are dropped before the MIC is looked at: the return value is -1.\<close>

definition supp_dropped :: "wpa_sm \<Rightarrow> bytes \<Rightarrow> bool" where
  "supp_dropped sm tmp \<longleftrightarrow>
     (let key_info = key_info_of tmp; ver = key_info AND WPA_KEY_INFO_TYPE_MASK in
      (ver \<noteq> WPA_KEY_INFO_TYPE_HMAC_MD5_RC4 \<and> ver \<noteq> WPA_KEY_INFO_TYPE_HMAC_SHA1_AES) \<or>
      (w_pairwise_cipher sm = WPA_CIPHER_CCMP \<and> ver \<noteq> WPA_KEY_INFO_TYPE_HMAC_SHA1_AES \<and>
         \<not> (w_group_cipher sm \<noteq> WPA_CIPHER_CCMP \<and> \<not> info_has key_info WPA_KEY_INFO_KEY_TYPE)) \<or>
      (w_rx_replay_counter_set sm \<and> memcmp (key_replay_counter tmp) (w_rx_replay_counter sm) \<le> 0) \<or>
      \<not> info_has key_info (WPA_KEY_INFO_ACK OR WPA_KEY_INFO_SMK_MESSAGE) \<or>
      info_has key_info WPA_KEY_INFO_REQUEST)"

text \<open>The dispatch at the end. Without \<^verbatim>\<open>CONFIG_PEERKEY\<close> the handler of an SMK message is empty.\<close>

definition supp_dispatch :: "supp_env \<Rightarrow> macaddr \<Rightarrow> u16 \<Rightarrow> u16 \<Rightarrow> bytes \<Rightarrow> supp_ctx \<Rightarrow> int \<times> supp_ctx" where
  "supp_dispatch E src_addr key_info ver tmp c =
     (if info_has key_info WPA_KEY_INFO_KEY_TYPE then
        if info_has key_info WPA_KEY_INFO_KEY_INDEX_MASK then (-1, c)
        else if info_has key_info WPA_KEY_INFO_MIC then (1, wpa_supplicant_process_3_of_4 E tmp ver c)
        else (1, wpa_supplicant_process_1_of_4 E src_addr tmp ver c)
      else if info_has key_info WPA_KEY_INFO_SMK_MESSAGE then (1, c)
      else if info_has key_info WPA_KEY_INFO_MIC then (1, wpa_supplicant_process_1_of_2 E tmp (key_data_length tmp) ver c)
      else (1, c))"

text \<open>What follows the check of the MIC. \<open>extra\<close> is the room for key data in the frame.\<close>

definition supp_after_mic :: "supp_env \<Rightarrow> macaddr \<Rightarrow> u16 \<Rightarrow> u16 \<Rightarrow> nat \<Rightarrow> bytes \<Rightarrow> supp_ctx \<Rightarrow> (int \<times> supp_ctx) option" where
  "supp_after_mic E src_addr key_info ver extra tmp c =
     (if key_data_length tmp > extra then Some (-1, c)
      else case (if w_proto (sc_sm c) = WPA_PROTO_RSN \<and> info_has key_info WPA_KEY_INFO_ENCR_KEY_DATA
                 then wpa_supplicant_decrypt_key_data E ver tmp c else Some (True, tmp, c)) of
        None \<Rightarrow> None
      | Some (ok, tmp, c) \<Rightarrow> if \<not> ok then Some (-1, c) else Some (supp_dispatch E src_addr key_info ver tmp c))"

text \<open>\<^verbatim>\<open>wpa_sm_rx_eapol\<close>: the return value and the state, or \<^term>\<open>None\<close> after an access outside the copy of the frame.\<close>

definition wpa_sm_rx_eapol :: "supp_env \<Rightarrow> macaddr \<Rightarrow> bytes \<Rightarrow> supp_ctx \<Rightarrow> (int \<times> supp_ctx) option" where
  "wpa_sm_rx_eapol E src_addr buf c =
     (if length buf < 99 then Some (0, c)
      else case supp_malloc E c of (ok, c) \<Rightarrow>
        if \<not> ok then Some (-1, c)
        else if supp_not_for_us buf then Some (0, c)
        else
          let c = call (S_notify N_lower_layer_success) c;
              data_len = unat (WPA_GET_BE16 (drop 2 buf)) + 4;
              key_info = key_info_of buf;
              ver = key_info AND WPA_KEY_INFO_TYPE_MASK
          in if supp_dropped (sc_sm c) buf then Some (-1, c)
             else case (if info_has key_info WPA_KEY_INFO_MIC then wpa_supplicant_verify_eapol_key_mic E ver data_len buf c
                        else (True, buf, c)) of (ok, tmp, c) \<Rightarrow>
               if \<not> ok then Some (-1, c) else supp_after_mic E src_addr key_info ver (data_len - 4 - 95) tmp c)"

section \<open>Configuration and events\<close>

definition rsn_preauth_deinit :: "supp_ctx \<Rightarrow> supp_ctx" where
  "rsn_preauth_deinit c =
     (if \<not> w_preauth_eapol (sc_sm c) then c
      else upd_w (\<lambda>s. s\<lparr>w_preauth_eapol := False, w_preauth_bssid := replicate 6 0\<rparr>)
             (call (S_notify N_preauth_deinit) (call (S_cancel ST_preauth_timeout) c)))"

definition wpa_sm_notify_assoc :: "macaddr \<Rightarrow> supp_ctx \<Rightarrow> supp_ctx" where
  "wpa_sm_notify_assoc bssid c =
     (let c = upd_w (\<lambda>s. s\<lparr>w_bssid := bssid, w_rx_replay_counter := replicate 8 0, w_rx_replay_counter_set := False,
            w_renew_snonce := True\<rparr>) c;
          c = (if w_preauth_bssid (sc_sm c) = bssid then rsn_preauth_deinit c else c)
      in upd_w (\<lambda>s. s\<lparr>w_ptk_set := False, w_tptk_set := False\<rparr>) c)"

definition wpa_sm_notify_disassoc :: "supp_env \<Rightarrow> supp_ctx \<Rightarrow> supp_ctx" where
  "wpa_sm_notify_disassoc E c =
     (let c = rsn_preauth_deinit c in
      if SE_get_state E (sc_tr c) = WPA_4WAY_HANDSHAKE
      then upd_w (\<lambda>s. s\<lparr>w_4WayHandshakeFailures := w_4WayHandshakeFailures s + 1\<rparr>) c else c)"

definition wpa_sm_set_pmk :: "bytes \<Rightarrow> supp_ctx \<Rightarrow> supp_ctx" where
  "wpa_sm_set_pmk pmk c = upd_w (\<lambda>s. s\<lparr>w_pmk_len := length pmk, w_pmk := memput (w_pmk s) 0 pmk\<rparr>) c"

record rsn_supp_config =
  rc_network_ctx :: "nat option"
  rc_peerkey_enabled :: bool
  rc_allowed_pairwise_cipher :: int
  rc_proactive_key_caching :: bool
  rc_eap_workaround :: int
  rc_ssid :: "bytes option"
  rc_wpa_ptk_rekey :: int

definition wpa_sm_set_config :: "rsn_supp_config option \<Rightarrow> supp_ctx \<Rightarrow> supp_ctx" where
  "wpa_sm_set_config config c =
     (let c = (case config of
          Some rc \<Rightarrow> upd_w (\<lambda>s. s\<lparr>w_network_ctx := rc_network_ctx rc, w_peerkey_enabled := rc_peerkey_enabled rc,
              w_allowed_pairwise_cipher := rc_allowed_pairwise_cipher rc, w_proactive_key_caching := rc_proactive_key_caching rc,
              w_eap_workaround := rc_eap_workaround rc, w_ssid := (case rc_ssid rc of None \<Rightarrow> [] | Some ssid \<Rightarrow> ssid),
              w_wpa_ptk_rekey := rc_wpa_ptk_rekey rc\<rparr>) c
        | None \<Rightarrow> upd_w (\<lambda>s. s\<lparr>w_network_ctx := None, w_peerkey_enabled := False, w_allowed_pairwise_cipher := 0,
              w_proactive_key_caching := False, w_eap_workaround := 0, w_ssid := [], w_wpa_ptk_rekey := 0\<rparr>) c)
      in if (case config of None \<Rightarrow> True | Some rc \<Rightarrow> rc_network_ctx rc \<noteq> w_network_ctx (sc_sm c))
         then supp_pmksa_notify_reconfig c else c)"

datatype wpa_sm_conf_params =
    RSNA_PMK_LIFETIME | RSNA_PMK_REAUTH_THRESHOLD | RSNA_SA_TIMEOUT | WPA_PARAM_PROTO | WPA_PARAM_PAIRWISE | WPA_PARAM_GROUP
  | WPA_PARAM_KEY_MGMT | WPA_PARAM_MGMT_GROUP | WPA_PARAM_RSN_ENABLED | WPA_PARAM_MFP

definition wpa_sm_set_param :: "wpa_sm_conf_params \<Rightarrow> u32 \<Rightarrow> wpa_sm \<Rightarrow> int \<times> wpa_sm" where
  "wpa_sm_set_param param val sm =
     (case param of
        RSNA_PMK_LIFETIME \<Rightarrow> if val > 0 then (0, sm\<lparr>w_PMKLifetime := val\<rparr>) else (-1, sm)
      | RSNA_PMK_REAUTH_THRESHOLD \<Rightarrow> if val > 0 \<and> val \<le> 100 then (0, sm\<lparr>w_PMKReauthThreshold := val\<rparr>) else (-1, sm)
      | RSNA_SA_TIMEOUT \<Rightarrow> if val > 0 then (0, sm\<lparr>w_SATimeout := val\<rparr>) else (-1, sm)
      | WPA_PARAM_PROTO \<Rightarrow> (0, sm\<lparr>w_proto := uint val\<rparr>)
      | WPA_PARAM_PAIRWISE \<Rightarrow> (0, sm\<lparr>w_pairwise_cipher := uint val\<rparr>)
      | WPA_PARAM_GROUP \<Rightarrow> (0, sm\<lparr>w_group_cipher := uint val\<rparr>)
      | WPA_PARAM_KEY_MGMT \<Rightarrow> (0, sm\<lparr>w_key_mgmt := uint val\<rparr>)
      | WPA_PARAM_MGMT_GROUP \<Rightarrow> (0, sm)
      | WPA_PARAM_RSN_ENABLED \<Rightarrow> (0, sm\<lparr>w_rsn_enabled := (val \<noteq> 0)\<rparr>)
      | WPA_PARAM_MFP \<Rightarrow> (0, sm\<lparr>w_mfp := sint val\<rparr>))"

text \<open>An element given to the machine replaces the stored one; the first result is the return value.\<close>

definition supp_set_ie :: "supp_env \<Rightarrow> (bytes option \<Rightarrow> wpa_sm \<Rightarrow> wpa_sm) \<Rightarrow> bytes option \<Rightarrow> supp_ctx \<Rightarrow> int \<times> supp_ctx" where
  "supp_set_ie E put ie c =
     (case ie of
        None \<Rightarrow> (0, upd_w (put None) c)
      | Some ie \<Rightarrow>
          if ie = [] then (0, upd_w (put None) c)
          else case supp_malloc E c of (ok, c) \<Rightarrow> if ok then (0, upd_w (put (Some ie)) c) else (-1, upd_w (put None) c))"

definition wpa_sm_set_assoc_wpa_ie :: "supp_env \<Rightarrow> bytes option \<Rightarrow> supp_ctx \<Rightarrow> int \<times> supp_ctx" where
  "wpa_sm_set_assoc_wpa_ie E = supp_set_ie E (\<lambda>ie s. s\<lparr>w_assoc_wpa_ie := ie\<rparr>)"

definition wpa_sm_set_ap_wpa_ie :: "supp_env \<Rightarrow> bytes option \<Rightarrow> supp_ctx \<Rightarrow> int \<times> supp_ctx" where
  "wpa_sm_set_ap_wpa_ie E = supp_set_ie E (\<lambda>ie s. s\<lparr>w_ap_wpa_ie := ie\<rparr>)"

definition wpa_sm_set_ap_rsn_ie :: "supp_env \<Rightarrow> bytes option \<Rightarrow> supp_ctx \<Rightarrow> int \<times> supp_ctx" where
  "wpa_sm_set_ap_rsn_ie E = supp_set_ie E (\<lambda>ie s. s\<lparr>w_ap_rsn_ie := ie\<rparr>)"

text \<open>The element in the buffer of the caller, or \<^term>\<open>None\<close> for the return value -1.\<close>

definition wpa_sm_set_assoc_wpa_ie_default :: "supp_env \<Rightarrow> nat \<Rightarrow> supp_ctx \<Rightarrow> bytes option \<times> supp_ctx" where
  "wpa_sm_set_assoc_wpa_ie_default E wpa_ie_len c =
     (case wpa_gen_wpa_ie (sc_sm c) wpa_ie_len of
        None \<Rightarrow> (None, c)
      | Some ie \<Rightarrow>
          if w_assoc_wpa_ie (sc_sm c) = None then
            (case supp_malloc E c of (ok, c) \<Rightarrow>
               if ok then (Some ie, upd_w (\<lambda>s. s\<lparr>w_assoc_wpa_ie := Some ie\<rparr>) c) else (None, c))
          else (Some ie, c))"

definition wpa_sm_drop_sa :: "supp_ctx \<Rightarrow> supp_ctx" where
  "wpa_sm_drop_sa c =
     upd_w (\<lambda>s. s\<lparr>w_ptk_set := False, w_tptk_set := False, w_pmk := replicate PMK_LEN 0, w_ptk := replicate 64 0, w_tptk := replicate 64 0\<rparr>) c"

text \<open>The machine that \<^verbatim>\<open>wpa_sm_init\<close> allocates.\<close>

definition wpa_sm_init :: wpa_sm where
  "wpa_sm_init = \<lparr>w_pmk = replicate PMK_LEN 0, w_pmk_len = 0, w_ptk = replicate 64 0, w_tptk = replicate 64 0, w_ptk_set = False,
     w_tptk_set = False, w_snonce = replicate 32 0, w_anonce = replicate 32 0, w_renew_snonce = True, w_rx_replay_counter = replicate 8 0,
     w_rx_replay_counter_set = False, w_request_counter = replicate 8 0, w_eapol = False, w_pmksa = [], w_pmksa_count = 0,
     w_cur_pmksa = None, w_preauth_bssid = replicate 6 0, w_preauth_eapol = False, w_network_ctx = None, w_peerkey_enabled = False,
     w_allowed_pairwise_cipher = 0, w_proactive_key_caching = False, w_eap_workaround = 0, w_ssid = [], w_wpa_ptk_rekey = 0,
     w_own_addr = replicate 6 0, w_bssid = replicate 6 0, w_PMKLifetime = 43200, w_PMKReauthThreshold = 70, w_SATimeout = 60,
     w_4WayHandshakeFailures = 0, w_proto = 0, w_pairwise_cipher = 0, w_group_cipher = 0, w_key_mgmt = 0, w_rsn_enabled = False,
     w_mfp = 0, w_assoc_wpa_ie = None, w_ap_wpa_ie = None, w_ap_rsn_ie = None\<rparr>"

end
