(* ===== verification/Supp_Lemmas.thy ===== *)
theory Supp_Lemmas
  imports Wpa_Supp
begin

unbundle bit_operations_syntax

text \<open>
  What the functions of the station leave alone. The pairwise key in use and the last replay counter
  are changed only by the check of a MIC, and keys reach the driver only from the handlers of message 3/4
  and of message 1/2.
\<close>

section \<open>Calls and updates\<close>

lemma supp_ctx_simps [simp]:
  "sc_sm (call a c) = sc_sm c" "sc_tr (call a c) = sc_tr c @ [a]" "sc_next (call a c) = sc_next c"
  "sc_sm (upd_w f c) = f (sc_sm c)" "sc_tr (upd_w f c) = sc_tr c" "sc_next (upd_w f c) = sc_next c"
  by (simp_all add: call_def upd_w_def)

lemma supp_malloc_eq: "supp_malloc E c = (SE_malloc E (sc_tr c @ [S_malloc]), call S_malloc c)"
  by (simp add: supp_malloc_def)

definition core :: "wpa_sm \<Rightarrow> bytes \<times> bool \<times> bytes \<times> bool" where
  "core sm = (w_ptk sm, w_ptk_set sm, w_rx_replay_counter sm, w_rx_replay_counter_set sm)"

fun is_set_key :: "supp_act \<Rightarrow> bool" where
  "is_set_key (S_set_key _ _ _ _ _ _) = True"
| "is_set_key _ = False"

definition set_keys :: "supp_act list \<Rightarrow> supp_act list" where
  "set_keys tr = filter is_set_key tr"

lemma set_keys_append [simp]: "set_keys (xs @ ys) = set_keys xs @ set_keys ys"
  by (simp add: set_keys_def)

lemma set_keys_one [simp]: "set_keys [a] = (if is_set_key a then [a] else [])"
  by (simp add: set_keys_def)

text \<open>A step that neither changes the keys in use nor hands a key to the driver.\<close>

definition quiet :: "supp_ctx \<Rightarrow> supp_ctx \<Rightarrow> bool" where
  "quiet c c' \<longleftrightarrow> core (sc_sm c') = core (sc_sm c) \<and> set_keys (sc_tr c') = set_keys (sc_tr c)"

named_theorems quiets

lemma quiet_refl [quiets]: "quiet c c"
  by (simp add: quiet_def)

lemma quiet_trans [trans]: "quiet a b \<Longrightarrow> quiet b c \<Longrightarrow> quiet a c"
  by (simp add: quiet_def)

lemma quiet_call [quiets]: "\<not> is_set_key a \<Longrightarrow> quiet c d \<Longrightarrow> quiet c (call a d)"
  by (simp add: quiet_def)

lemma quiet_upd [quiets]: "core (f (sc_sm d)) = core (sc_sm d) \<Longrightarrow> quiet c d \<Longrightarrow> quiet c (upd_w f d)"
  by (simp add: quiet_def)

lemma quiet_next [quiets]: "quiet c d \<Longrightarrow> quiet c (d\<lparr>sc_next := n\<rparr>)"
  by (simp add: quiet_def)

lemma core_upd [simp]:
  "core (s\<lparr>w_tptk := b1\<rparr>) = core s" "core (s\<lparr>w_tptk_set := v\<rparr>) = core s" "core (s\<lparr>w_pmk := b\<rparr>) = core s" "core (s\<lparr>w_pmk_len := n\<rparr>) = core s"
  "core (s\<lparr>w_snonce := b\<rparr>) = core s" "core (s\<lparr>w_anonce := b\<rparr>) = core s" "core (s\<lparr>w_renew_snonce := v\<rparr>) = core s" "core (s\<lparr>w_bssid := b\<rparr>) = core s"
  "core (s\<lparr>w_pmksa := es\<rparr>) = core s" "core (s\<lparr>w_pmksa_count := i\<rparr>) = core s" "core (s\<lparr>w_cur_pmksa := p\<rparr>) = core s"
  "core (s\<lparr>w_ap_wpa_ie := x\<rparr>) = core s" "core (s\<lparr>w_ap_rsn_ie := x\<rparr>) = core s"
  by (simp_all add: core_def)

section \<open>The cache is quiet\<close>

lemma quiet_free_entry [quiets]: "quiet c d \<Longrightarrow> quiet c (supp_pmksa_free_entry e r d)"
  unfolding supp_pmksa_free_entry_def wpa_sm_pmksa_free_cb_def wpa_sm_deauthenticate_def Let_def
  by (auto intro!: quiets)

lemma quiet_set_expiration [quiets]: "quiet c d \<Longrightarrow> quiet c (supp_pmksa_set_expiration E d)"
  unfolding supp_pmksa_set_expiration_def Let_def by (auto intro!: quiets split: list.split)

lemma quiet_store [quiets]: "quiet c d \<Longrightarrow> quiet c (supp_store a f d)"
  unfolding supp_store_def by (auto intro!: quiets)

lemma quiet_link [quiets]: "quiet c d \<Longrightarrow> quiet c (supp_link_entry E e d)"
  unfolding supp_link_entry_def Let_def by (auto intro!: quiets)

lemma quiet_room [quiets]: "quiet c d \<Longrightarrow> quiet c (supp_make_room d)"
  unfolding supp_make_room_def by (auto intro!: quiets split: list.split)

lemma quiet_replace [quiets]: "quiet c d \<Longrightarrow> quiet c (supp_replace_old e d)"
  unfolding supp_replace_old_def Let_def by (auto intro!: quiets)

lemma quiet_add [quiets]: "quiet c d \<Longrightarrow> quiet c (snd (supp_pmksa_add E pmk aa spa nctx akmp d))"
  unfolding supp_pmksa_add_def Let_def supp_malloc_eq prod.case
  by (simp split: option.split) (auto intro!: quiets)

section \<open>Frames and keys\<close>

lemma quiet_key_send [quiets]: "quiet c d \<Longrightarrow> quiet c (wpa_eapol_key_send E key ver dest msg mic d)"
  unfolding wpa_eapol_key_send_def Let_def by (auto intro!: quiets split: option.split)

lemma quiet_send_2_of_4 [quiets]: "quiet c d \<Longrightarrow> quiet c (snd (wpa_supplicant_send_2_of_4 E dst key ver nonce ie ptk d))"
  unfolding wpa_supplicant_send_2_of_4_def supp_reply_def supp_malloc_eq prod.case by (auto intro!: quiets split: option.split)

lemma quiet_send_4_of_4 [quiets]: "quiet c d \<Longrightarrow> quiet c (snd (wpa_supplicant_send_4_of_4 E dst key ver info kde ptk d))"
  unfolding wpa_supplicant_send_4_of_4_def supp_reply_def supp_malloc_eq prod.case Let_def by (auto intro!: quiets)

lemma quiet_send_2_of_2 [quiets]: "quiet c d \<Longrightarrow> quiet c (snd (wpa_supplicant_send_2_of_2 E key ver info d))"
  unfolding wpa_supplicant_send_2_of_2_def supp_reply_def supp_malloc_eq prod.case Let_def by (auto intro!: quiets)

lemma quiet_failed [quiets]: "quiet c d \<Longrightarrow> quiet c (supp_failed d)"
  unfolding supp_failed_def wpa_sm_deauthenticate_def by (auto intro!: quiets)

lemma quiet_get_key: "eapol_sm_get_key E n d = (r, k, d') \<Longrightarrow> quiet c d \<Longrightarrow> quiet c d'"
  unfolding eapol_sm_get_key_def Let_def by (auto intro!: quiets split: option.splits if_splits)

lemma quiet_from_eapol: "pmk_from_eapol E src pmkid ab d = (ab', f, d') \<Longrightarrow> quiet c d \<Longrightarrow> quiet c d'"
  unfolding pmk_from_eapol_def Let_def
  by (auto split: prod.splits option.splits if_splits intro!: quiets elim!: quiet_get_key)

lemma quiet_set_pmk [quiets]: "quiet c d \<Longrightarrow> quiet c (wpa_sm_set_pmk_from_pmksa d)"
  unfolding wpa_sm_set_pmk_from_pmksa_def by (auto intro!: quiets split: option.split)

lemma quiet_get_pmk: "wpa_supplicant_get_pmk E src pmkid d = (r, d') \<Longrightarrow> quiet c d \<Longrightarrow> quiet c d'"
  unfolding wpa_supplicant_get_pmk_def Let_def supp_malloc_eq
  by (auto split: prod.splits if_splits intro!: quiets elim!: quiet_from_eapol)

lemma quiet_renew: "renew_snonce E d = (r, d') \<Longrightarrow> quiet c d \<Longrightarrow> quiet c d'"
  unfolding renew_snonce_def Let_def by (auto split: prod.splits if_splits intro!: quiets)

lemma quiet_1_of_4: "quiet c (wpa_supplicant_process_1_of_4 E src key ver c)"
proof -
  define c1 where "c1 = call (S_set_state WPA_4WAY_HANDSHAKE) c"
  define ie where "ie = (if w_proto (sc_sm c1) = WPA_PROTO_RSN then snd (wpa_supplicant_parse_ies (key_data key)) else no_ies)"
  obtain res c2 where g: "wpa_supplicant_get_pmk E src (i_pmkid ie) c1 = (res, c2)" by fastforce
  obtain err c3 where r: "renew_snonce E c2 = (err, c3)" by fastforce
  define c4 where "c4 = upd_w (\<lambda>s. s\<lparr>w_tptk := swap_mic_keys (supp_derive_ptk E key s), w_tptk_set := True\<rparr>) c3"
  define s where "s = wpa_supplicant_send_2_of_4 E (w_bssid (sc_sm c4)) key ver (w_snonce (sc_sm c4)) (w_assoc_wpa_ie (sc_sm c4)) (w_tptk (sc_sm c4)) c4"
  have q2: "quiet c c2" by (rule quiet_get_pmk[OF g]) (auto simp: c1_def intro!: quiets)
  have q3: "quiet c c3" by (rule quiet_renew[OF r q2])
  have "quiet c c4" unfolding c4_def by (rule quiet_upd[OF _ q3]) simp
  then have q5: "quiet c (snd s)" unfolding s_def by (rule quiet_send_2_of_4)
  have "wpa_supplicant_process_1_of_4 E src key ver c =
    (if SE_network_ctx E (sc_tr c) = None then c else if res = - 2 then c2 else if res \<noteq> 0 then supp_failed c2 else if err then supp_failed c3
     else if fst s \<noteq> 0 then supp_failed (snd s) else upd_w (\<lambda>s. s\<lparr>w_anonce := key_nonce key\<rparr>) (snd s))"
    unfolding wpa_supplicant_process_1_of_4_def Let_def c1_def[symmetric] ie_def[symmetric] g prod.case r c4_def[symmetric] s_def[symmetric]
    by (simp add: split_beta)
  then show ?thesis using q2 q3 q5 by (auto intro!: quiets)
qed

end
