(* ===== verification/Supp_Safety.thy ===== *)
theory Supp_Safety
  imports Supp_Lemmas
begin

unbundle bit_operations_syntax

text \<open>
  Safety of the station side: the pairwise key, the replay counter and the keys in the driver change only
  for a frame with a right MIC and a new replay counter, a frame that was accepted is never accepted
  again, and the one case in which a received frame makes the code read outside its copy of the frame.
\<close>

section \<open>The handlers that install keys\<close>

lemma core_install_ptk: "wpa_supplicant_install_ptk E key c = (r, c') \<Longrightarrow> core (sc_sm c') = core (sc_sm c)"
  unfolding wpa_supplicant_install_ptk_def wpa_sm_set_key_def Let_def by (auto split: if_splits)

lemma core_install_gtk: "wpa_supplicant_install_gtk E gd rsc c = (r, c') \<Longrightarrow> core (sc_sm c') = core (sc_sm c)"
  unfolding wpa_supplicant_install_gtk_def wpa_sm_set_key_def Let_def by auto

lemma core_neg_complete: "core (sc_sm (wpa_supplicant_key_neg_complete da sec c)) = core (sc_sm c)"
  unfolding wpa_supplicant_key_neg_complete_def Let_def supp_store_def by (auto split: option.split)

lemma core_pairwise_gtk: "wpa_supplicant_pairwise_gtk E key gtk info c = (r, c') \<Longrightarrow> core (sc_sm c') = core (sc_sm c)"
  unfolding wpa_supplicant_pairwise_gtk_def Let_def
  by (auto split: if_splits option.splits prod.splits simp: core_neg_complete dest: core_install_gtk)

lemma core_quiet: "quiet c c' \<Longrightarrow> core (sc_sm c') = core (sc_sm c)"
  by (simp add: quiet_def)

lemma core_failed [simp]: "core (sc_sm (supp_failed c)) = core (sc_sm c)"
  by (simp add: supp_failed_def wpa_sm_deauthenticate_def)

lemma core_finish: "core (sc_sm (supp_finish_3_of_4 E key info ie c)) = core (sc_sm c)"
  unfolding supp_finish_3_of_4_def Let_def
  by (auto split: if_splits option.splits prod.splits dest!: core_install_ptk core_pairwise_gtk)

lemma core_beacon: "core (sc_sm (supp_beacon_ies E c)) = core (sc_sm c)"
  unfolding supp_beacon_ies_def Let_def by (auto split: option.split)

lemma core_send: "wpa_supplicant_send_4_of_4 E dst key ver info kde ptk c = (r, c') \<Longrightarrow> core (sc_sm c') = core (sc_sm c)"
  "wpa_supplicant_send_2_of_2 E key ver info c = (r, c') \<Longrightarrow> core (sc_sm c') = core (sc_sm c)"
  using core_quiet[OF quiet_send_4_of_4[OF quiet_refl]] core_quiet[OF quiet_send_2_of_2[OF quiet_refl]] by (metis snd_conv)+

lemma core_3_of_4: "core (sc_sm (wpa_supplicant_process_3_of_4 E key ver c)) = core (sc_sm c)"
  unfolding wpa_supplicant_process_3_of_4_def Let_def wpa_supplicant_validate_ie_def wpa_report_ie_mismatch_def
  by (auto split: prod.splits if_splits simp: core_beacon core_finish dest!: core_send(1))

lemma core_1_of_2: "core (sc_sm (wpa_supplicant_process_1_of_2 E key len ver c)) = core (sc_sm c)"
  unfolding wpa_supplicant_process_1_of_2_def Let_def
  by (auto split: prod.splits option.splits simp: core_neg_complete dest!: core_send(2) core_install_gtk)

lemma core_dispatch: "supp_dispatch E src info ver tmp c = (r, c') \<Longrightarrow> core (sc_sm c') = core (sc_sm c)"
  unfolding supp_dispatch_def using quiet_1_of_4 by (auto split: if_splits simp: core_3_of_4 core_1_of_2 core_quiet)

lemma dispatch_no_mic: "supp_dispatch E src info ver tmp c = (r, c') \<Longrightarrow> \<not> info_has info WPA_KEY_INFO_MIC \<Longrightarrow> quiet c c'"
  unfolding supp_dispatch_def using quiet_1_of_4 by (auto split: if_splits simp: quiet_refl)

lemma quiet_decrypt: "wpa_supplicant_decrypt_key_data E ver tmp c = Some (ok, tmp', c') \<Longrightarrow> quiet c c'"
  unfolding wpa_supplicant_decrypt_key_data_def Let_def supp_malloc_eq
  by (auto split: if_splits option.splits intro!: quiets)

section \<open>The MIC\<close>

text \<open>The keyed hashes of the library answer, with results of the documented length.\<close>

definition supp_hmac_ok :: "supp_env \<Rightarrow> bool" where
  "supp_hmac_ok E \<longleftrightarrow> (\<forall>key d. \<exists>h. SE_hmac_md5 E key d = Some h \<and> length h = 16) \<and> (\<forall>key d. \<exists>h. SE_hmac_sha1 E key d = Some h \<and> length h = 20)"

text \<open>The MIC of the first \<open>len\<close> bytes of a frame, as the receiver computes it.\<close>

definition frame_mic :: "supp_env \<Rightarrow> bytes \<Rightarrow> u16 \<Rightarrow> nat \<Rightarrow> bytes \<Rightarrow> bytes option" where
  "frame_mic E ptk ver len buf = wpa_eapol_key_mic (SE_hmac_md5 E) (SE_hmac_sha1 E) (kck ptk) ver (take len (memput buf 81 (replicate 16 0)))"

lemma frame_mic_Some:
  assumes "supp_hmac_ok E" "ver = WPA_KEY_INFO_TYPE_HMAC_MD5_RC4 \<or> ver = WPA_KEY_INFO_TYPE_HMAC_SHA1_AES"
  obtains m where "frame_mic E ptk ver len buf = Some m" "length m = 16"
proof -
  let ?b = "take len (memput buf 81 (replicate 16 0))"
  obtain h where "SE_hmac_md5 E (kck ptk) ?b = Some h" "length h = 16" using assms(1) unfolding supp_hmac_ok_def by blast
  moreover obtain k where "SE_hmac_sha1 E (kck ptk) ?b = Some k" "length k = 20" using assms(1) unfolding supp_hmac_ok_def by blast
  ultimately show thesis
    using that assms(2)
    by (auto simp: frame_mic_def wpa_eapol_key_mic_def WPA_KEY_INFO_TYPE_HMAC_SHA1_AES_def WPA_KEY_INFO_TYPE_HMAC_MD5_RC4_def)
qed

lemma memput_twice: "off + length x \<le> length buf \<Longrightarrow> length x = length y \<Longrightarrow> memput (memput buf off x) off y = memput buf off y"
  by (simp add: memput_def)

lemma recompute_eq:
  assumes "frame_mic E ptk ver len buf = Some m" "length m = 16" "97 \<le> length buf"
  shows "recompute_mic E (kck ptk) ver len buf = memput buf 81 m"
  using assms by (simp add: recompute_mic_def frame_mic_def Let_def memput_twice)

lemma mic_of_memput: "97 \<le> length buf \<Longrightarrow> length m = 16 \<Longrightarrow> key_mic (memput buf 81 m) = m"
  by (simp add: key_mic_def memput_def)

lemma frame_mic_memput: "97 \<le> length buf \<Longrightarrow> length m = 16 \<Longrightarrow> frame_mic E ptk ver len (memput buf 81 m) = frame_mic E ptk ver len buf"
  by (simp add: frame_mic_def memput_twice)

lemma counter_memput: "97 \<le> length buf \<Longrightarrow> key_replay_counter (memput buf 81 m) = key_replay_counter buf"
  by (simp add: key_replay_counter_def memput_def drop_take)

text \<open>The check: the temporary key is tried first, then the key in use. The copy of the frame differs from the
  frame at most in its MIC field.\<close>

definition knows_new :: "supp_env \<Rightarrow> u16 \<Rightarrow> nat \<Rightarrow> bytes \<Rightarrow> wpa_sm \<Rightarrow> bool" where
  "knows_new E ver len buf sm \<longleftrightarrow> w_tptk_set sm \<and> frame_mic E (w_tptk sm) ver len buf = Some (key_mic buf)"

definition knows_old :: "supp_env \<Rightarrow> u16 \<Rightarrow> nat \<Rightarrow> bytes \<Rightarrow> wpa_sm \<Rightarrow> bool" where
  "knows_old E ver len buf sm \<longleftrightarrow> w_ptk_set sm \<and> frame_mic E (w_ptk sm) ver len buf = Some (key_mic buf)"

definition supp_verified :: "bool \<Rightarrow> bytes \<Rightarrow> supp_ctx \<Rightarrow> supp_ctx" where
  "supp_verified new buf c = upd_w (\<lambda>s. s\<lparr>w_rx_replay_counter := key_replay_counter buf, w_rx_replay_counter_set := True\<rparr>)
     (if new then upd_w (\<lambda>s. s\<lparr>w_tptk_set := False, w_ptk_set := True, w_ptk := w_tptk s\<rparr>) c else c)"

lemmas mic_check_defs = wpa_supplicant_verify_eapol_key_mic_def knows_new_def knows_old_def supp_verified_def

lemma verify_mic_eq:
  assumes "supp_hmac_ok E" "ver = WPA_KEY_INFO_TYPE_HMAC_MD5_RC4 \<or> ver = WPA_KEY_INFO_TYPE_HMAC_SHA1_AES" "97 \<le> length buf"
  obtains m where "length m = 16" "wpa_supplicant_verify_eapol_key_mic E ver len buf c =
    (if knows_new E ver len buf (sc_sm c) \<or> knows_old E ver len buf (sc_sm c)
     then (True, memput buf 81 m, supp_verified (knows_new E ver len buf (sc_sm c)) buf c) else (False, memput buf 81 m, c))"
proof -
  obtain mt where mt: "frame_mic E (w_tptk (sc_sm c)) ver len buf = Some mt" "length mt = 16" by (rule frame_mic_Some[OF assms(1,2)])
  obtain mp where mp: "frame_mic E (w_ptk (sc_sm c)) ver len buf = Some mp" "length mp = 16" by (rule frame_mic_Some[OF assms(1,2)])
  note r = recompute_eq[OF mt assms(3)] recompute_eq[OF mp assms(3)]
  have r3: "recompute_mic E (kck (w_ptk (sc_sm c))) ver len (memput buf 81 mt) = memput buf 81 mp"
    using recompute_eq[of E "w_ptk (sc_sm c)" ver len "memput buf 81 mt" mp] mp mt assms(3) by (simp add: frame_mic_memput memput_twice)
  have l: "length (key_mic buf) = 16" using assms(3) by (simp add: key_mic_def)
  have "key_mic buf @ drop 97 buf = drop 81 buf" using append_take_drop_id[of 16 "drop 81 buf"] by (simp add: key_mic_def)
  then have same: "memput buf 81 (key_mic buf) = buf" by (simp add: memput_def l)
  consider "w_tptk_set (sc_sm c)" "mt = key_mic buf" | "w_tptk_set (sc_sm c)" "mt \<noteq> key_mic buf" | "\<not> w_tptk_set (sc_sm c)" by blast
  then show thesis
  proof cases
    case 1
    show thesis by (rule that[of mt])
      (use 1 mt mp r assms(3) in \<open>simp_all add: mic_check_defs Let_def mic_of_memput counter_memput\<close>)
  next
    case 2
    show thesis by (rule that[of "if w_ptk_set (sc_sm c) then mp else mt"])
      (use 2 mt mp r r3 assms(3) in \<open>auto simp: mic_check_defs Let_def mic_of_memput counter_memput\<close>)
  next
    case 3
    show thesis by (rule that[of "if w_ptk_set (sc_sm c) then mp else key_mic buf"])
      (use 3 mt mp r assms(3) same in \<open>auto simp: mic_check_defs Let_def mic_of_memput counter_memput l\<close>)
  qed
qed

section \<open>Receiving\<close>

lemma memcmp_be_val:
  "length a = length b \<Longrightarrow> (memcmp a b < 0 \<longleftrightarrow> be_val a < be_val b) \<and> (memcmp a b = 0 \<longleftrightarrow> be_val a = be_val b)"
proof (induction a b rule: memcmp.induct)
  case (1 x xs y ys)
  have b: "be_val xs < 256 ^ length ys" "be_val ys < 256 ^ length ys" using be_val_bound[of xs] be_val_bound[of ys] 1(2) by simp_all
  have w: "unat x < unat y \<Longrightarrow> unat x * 256 ^ length ys + be_val xs < unat y * 256 ^ length ys + be_val ys"
    "unat y < unat x \<Longrightarrow> unat y * 256 ^ length ys + be_val ys < unat x * 256 ^ length ys + be_val xs"
    using b mult_le_mono1[of "Suc (unat x)" "unat y" "256 ^ length ys"] mult_le_mono1[of "Suc (unat y)" "unat x" "256 ^ length ys"] by auto
  show ?case
    using 1 w by (auto simp: word_less_nat_alt not_less dest!: order_antisym)
qed simp_all

text \<open>The frame carries the MIC that belongs to a key the station holds.\<close>

definition supp_authentic :: "supp_env \<Rightarrow> bytes \<Rightarrow> wpa_sm \<Rightarrow> bytes \<Rightarrow> bool" where
  "supp_authentic E buf sm key \<longleftrightarrow> (w_tptk_set sm \<and> key = w_tptk sm \<or> w_ptk_set sm \<and> key = w_ptk sm) \<and>
     info_has (key_info_of buf) WPA_KEY_INFO_MIC \<and>
     frame_mic E key (key_info_of buf AND WPA_KEY_INFO_TYPE_MASK) (unat (WPA_GET_BE16 (drop 2 buf)) + 4) buf = Some (key_mic buf)"

definition supp_entered :: "supp_ctx \<Rightarrow> supp_ctx" where
  "supp_entered c = call (S_notify N_lower_layer_success) (call S_malloc c)"

lemma entered [simp]: "sc_sm (supp_entered c) = sc_sm c" "quiet c (supp_entered c)"
  by (auto simp: supp_entered_def intro!: quiets)

lemma dropped_version:
  "\<not> supp_dropped sm buf \<Longrightarrow> key_info_of buf AND WPA_KEY_INFO_TYPE_MASK = WPA_KEY_INFO_TYPE_HMAC_MD5_RC4 \<or>
    key_info_of buf AND WPA_KEY_INFO_TYPE_MASK = WPA_KEY_INFO_TYPE_HMAC_SHA1_AES"
  unfolding supp_dropped_def Let_def by blast

lemma dropped_counter:
  assumes "\<not> supp_dropped sm buf" "w_rx_replay_counter_set sm" "length (w_rx_replay_counter sm) = 8" "99 \<le> length buf"
  shows "be_val (w_rx_replay_counter sm) < be_val (key_replay_counter buf)"
proof -
  have l: "length (key_replay_counter buf) = length (w_rx_replay_counter sm)" using assms(3,4) by (simp add: key_replay_counter_def)
  have "\<not> memcmp (key_replay_counter buf) (w_rx_replay_counter sm) \<le> 0" using assms(1,2) unfolding supp_dropped_def Let_def by blast
  then show ?thesis using memcmp_be_val[OF l] by linarith
qed

text \<open>The function by its stages: a frame that fails the first checks has no effect, and one that is not quiet
  passed all of them.\<close>

definition supp_rx_rest :: "supp_env \<Rightarrow> macaddr \<Rightarrow> bytes \<Rightarrow> bool \<times> bytes \<times> supp_ctx \<Rightarrow> (int \<times> supp_ctx) option" where
  "supp_rx_rest E src buf = (\<lambda>(ok, tmp, c). if \<not> ok then Some (-1, c) else
     supp_after_mic E src (key_info_of buf) (key_info_of buf AND WPA_KEY_INFO_TYPE_MASK) (unat (WPA_GET_BE16 (drop 2 buf) :: u16) - 95) tmp c)"

lemma rx_eq:
  assumes "99 \<le> length buf" "SE_malloc E (sc_tr c @ [S_malloc])" "\<not> supp_not_for_us buf" "\<not> supp_dropped (sc_sm c) buf"
  shows "wpa_sm_rx_eapol E src buf c =
    supp_rx_rest E src buf (if info_has (key_info_of buf) WPA_KEY_INFO_MIC
      then wpa_supplicant_verify_eapol_key_mic E (key_info_of buf AND WPA_KEY_INFO_TYPE_MASK) (unat (WPA_GET_BE16 (drop 2 buf) :: u16) + 4) buf (supp_entered c)
      else (True, buf, supp_entered c))"
  using assms unfolding wpa_sm_rx_eapol_def supp_rx_rest_def Let_def supp_malloc_eq prod.case supp_entered_def diff_add_inverse2 by simp

lemma rx_early:
  assumes "\<not> (99 \<le> length buf \<and> SE_malloc E (sc_tr c @ [S_malloc]) \<and> \<not> supp_not_for_us buf \<and> \<not> supp_dropped (sc_sm c) buf)"
  shows "\<exists>ret c'. wpa_sm_rx_eapol E src buf c = Some (ret, c') \<and> ret \<le> 0 \<and> sc_sm c' = sc_sm c \<and> quiet c c'"
  using assms unfolding wpa_sm_rx_eapol_def Let_def supp_malloc_eq prod.case by (auto intro!: quiets)

lemma after_mic:
  assumes "supp_after_mic E src info ver n tmp c = Some (ret, c')"
  shows "core (sc_sm c') = core (sc_sm c)" "\<not> info_has info WPA_KEY_INFO_MIC \<Longrightarrow> quiet c c'"
proof -
  have d: "core (sc_sm c') = core (sc_sm c) \<and> (info_has info WPA_KEY_INFO_MIC \<or> quiet c c')"
    if "supp_dispatch E src info ver t d = (ret, c')" "quiet c d" for t d
    using that core_dispatch[OF that(1)] dispatch_no_mic[OF that(1)] by (auto simp: core_quiet intro: quiet_trans)
  have "core (sc_sm c') = core (sc_sm c) \<and> (info_has info WPA_KEY_INFO_MIC \<or> quiet c c')"
    using assms unfolding supp_after_mic_def
    by (auto split: if_splits option.splits dest!: quiet_decrypt dest: d simp: quiet_refl core_quiet)
  then show "core (sc_sm c') = core (sc_sm c)" "\<not> info_has info WPA_KEY_INFO_MIC \<Longrightarrow> quiet c c'" by blast+
qed

lemma verify_entered:
  assumes "supp_hmac_ok E" "\<not> supp_dropped (sc_sm c) buf" "99 \<le> length buf" "ver = key_info_of buf AND WPA_KEY_INFO_TYPE_MASK"
  obtains m where "length m = 16" "wpa_supplicant_verify_eapol_key_mic E ver len buf (supp_entered c) =
    (if knows_new E ver len buf (sc_sm c) \<or> knows_old E ver len buf (sc_sm c)
     then (True, memput buf 81 m, supp_verified (knows_new E ver len buf (sc_sm c)) buf (supp_entered c)) else (False, memput buf 81 m, supp_entered c))"
proof -
  have v: "ver = WPA_KEY_INFO_TYPE_HMAC_MD5_RC4 \<or> ver = WPA_KEY_INFO_TYPE_HMAC_SHA1_AES"
    unfolding assms(4) by (rule dropped_version[OF assms(2)])
  have l: "97 \<le> length buf" using assms(3) by simp
  show thesis by (rule verify_mic_eq[OF assms(1) v l, of len "supp_entered c"]) (unfold entered(1), rule that)
qed

lemma rx_cases:
  assumes "supp_hmac_ok E" "wpa_sm_rx_eapol E src buf c = Some (ret, c')" "\<not> quiet c c'"
  obtains "99 \<le> length buf" "\<not> supp_dropped (sc_sm c) buf" "\<exists>key. supp_authentic E buf (sc_sm c) key \<and> core (sc_sm c') = (key, True, key_replay_counter buf, True)"
proof -
  let ?i = "key_info_of buf" and ?v = "key_info_of buf AND WPA_KEY_INFO_TYPE_MASK" and ?n = "unat (WPA_GET_BE16 (drop 2 buf) :: u16) + 4"
  have p: "99 \<le> length buf" "SE_malloc E (sc_tr c @ [S_malloc])" "\<not> supp_not_for_us buf" "\<not> supp_dropped (sc_sm c) buf"
    using rx_early[of buf E c src] assms(2,3) by auto
  note rx = assms(2)[unfolded rx_eq[OF p]]
  have mic: "info_has ?i WPA_KEY_INFO_MIC"
  proof (rule ccontr)
    assume n: "\<not> info_has ?i WPA_KEY_INFO_MIC"
    then have "quiet (supp_entered c) c'" using rx after_mic(2) unfolding supp_rx_rest_def by simp
    then show False using assms(3) quiet_trans[OF entered(2)] by blast
  qed
  obtain m where m: "wpa_supplicant_verify_eapol_key_mic E ?v ?n buf (supp_entered c) =
    (if knows_new E ?v ?n buf (sc_sm c) \<or> knows_old E ?v ?n buf (sc_sm c)
     then (True, memput buf 81 m, supp_verified (knows_new E ?v ?n buf (sc_sm c)) buf (supp_entered c)) else (False, memput buf 81 m, supp_entered c))"
    by (rule verify_entered[OF assms(1) p(4,1) refl])
  have k: "knows_new E ?v ?n buf (sc_sm c) \<or> knows_old E ?v ?n buf (sc_sm c)"
    using rx mic m assms(3) by (auto simp: supp_rx_rest_def split: if_splits)
  have "core (sc_sm c') = core (sc_sm (supp_verified (knows_new E ?v ?n buf (sc_sm c)) buf (supp_entered c)))"
    using rx mic m k after_mic(1) unfolding supp_rx_rest_def by simp
  then have "\<exists>key. supp_authentic E buf (sc_sm c) key \<and> core (sc_sm c') = (key, True, key_replay_counter buf, True)"
    using k mic by (auto simp: supp_authentic_def core_def knows_new_def knows_old_def supp_verified_def)
  with that p show thesis by blast
qed

lemma rx_authentic:
  assumes "supp_hmac_ok E" "length (w_rx_replay_counter (sc_sm c)) = 8" "wpa_sm_rx_eapol E src buf c = Some (ret, c')" "\<not> quiet c c'"
  shows "\<exists>key. supp_authentic E buf (sc_sm c) key \<and> core (sc_sm c') = (key, True, key_replay_counter buf, True) \<and>
    (w_rx_replay_counter_set (sc_sm c) \<longrightarrow> be_val (w_rx_replay_counter (sc_sm c)) < be_val (key_replay_counter buf))"
  by (rule rx_cases[OF assms(1,3,4)]) (use dropped_counter[of "sc_sm c" buf] assms(2) in blast)

text \<open>C8. The keys of the station are only changed by authentic frames. If a received frame changes the pairwise key
  in use or the last replay counter, or makes the station hand any key to the driver, then it has a MIC,
  the MIC is right for a key the station holds, either the one derived from the last message 1/4 or the one in
  use, that key is the one in use afterwards, and the replay counter of the frame is larger than that of
  every frame accepted since the association.\<close>

theorem supp_keys_authenticated:
  assumes "supp_hmac_ok E" "length (w_rx_replay_counter (sc_sm c)) = 8" "wpa_sm_rx_eapol E src buf c = Some (ret, c')"
    "core (sc_sm c') \<noteq> core (sc_sm c) \<or> set_keys (sc_tr c') \<noteq> set_keys (sc_tr c)"
  shows "\<exists>key. supp_authentic E buf (sc_sm c) key \<and> w_ptk (sc_sm c') = key \<and> w_ptk_set (sc_sm c') \<and>
    w_rx_replay_counter (sc_sm c') = key_replay_counter buf \<and> w_rx_replay_counter_set (sc_sm c') \<and>
    (w_rx_replay_counter_set (sc_sm c) \<longrightarrow> be_val (w_rx_replay_counter (sc_sm c)) < be_val (key_replay_counter buf))"
  using rx_authentic[OF assms(1-3)] assms(4) by (auto simp: quiet_def core_def)

text \<open>A station that waits for message 3/4, and such a message; the hashes are constant.\<close>

definition ex_supp_env :: supp_env where
  "ex_supp_env = \<lparr>SE_get_state = (\<lambda>_. WPA_4WAY_HANDSHAKE), SE_set_key = (\<lambda>_. 0), SE_network_ctx = (\<lambda>_. Some 0), SE_bssid = (\<lambda>_. None),
     SE_beacon_ie = (\<lambda>_. None), SE_malloc = (\<lambda>_. True), SE_random = (\<lambda>_ n. (True, replicate n 4)), SE_eapol_key = (\<lambda>_. None),
     SE_eapol_version = 2, SE_now = 0, SE_sha1_prf = (\<lambda>_ _ _ n. Some (replicate n 5)), SE_hmac_md5 = (\<lambda>_ _. Some (replicate 16 6)),
     SE_hmac_sha1 = (\<lambda>_ _. Some (replicate 20 7)), SE_aes_unwrap = (\<lambda>_ n d. Some (take (8 * n) (drop 8 d))), SE_rc4_skip = (\<lambda>_ _ d. d),
     SE_stack = replicate 20 0\<rparr>"

definition ex_supp_ctx :: supp_ctx where
  "ex_supp_ctx = \<lparr>sc_sm = wpa_sm_init\<lparr>w_tptk := replicate 64 9, w_tptk_set := True, w_proto := WPA_PROTO_RSN, w_pairwise_cipher := WPA_CIPHER_CCMP,
     w_group_cipher := WPA_CIPHER_CCMP, w_key_mgmt := WPA_KEY_MGMT_PSK, w_anonce := replicate 32 3, w_bssid := [2, 0, 0, 0, 0, 2]\<rparr>, sc_tr = [], sc_next = 0\<rparr>"

definition ex_supp_frame :: "u8 \<Rightarrow> bytes" where
  "ex_supp_frame n = memput (eapol_key_frame 2 2 0x13ca 16 (replicate 7 0 @ [n]) (replicate 32 3) (replicate 16 0) (replicate 8 0)
     (replicate 8 0 @ [48, 2, 1, 0, 0xdd, 22, 0, 0x0f, 0xac, 1, 1, 0] @ replicate 16 8 @ [0xdd, 0, 0, 0])) 81 (replicate 16 7)"

lemma ex_supp_hmac: "supp_hmac_ok ex_supp_env"
  by (simp add: supp_hmac_ok_def ex_supp_env_def)

lemma ex_supp_counter: "length (w_rx_replay_counter (sc_sm ex_supp_ctx)) = 8" "w_ptk_set (sc_sm ex_supp_ctx) = False"
  by (simp_all add: ex_supp_ctx_def wpa_sm_init_def)

lemma ex_supp_rx:
  obtains c' where "wpa_sm_rx_eapol ex_supp_env [] (ex_supp_frame 1) ex_supp_ctx = Some (1, c')" "w_ptk_set (sc_sm c')" "length (set_keys (sc_tr c')) = 2"
proof -
  have "map_option (\<lambda>(r, c). (r, w_ptk_set (sc_sm c), length (set_keys (sc_tr c)))) (wpa_sm_rx_eapol ex_supp_env [] (ex_supp_frame 1) ex_supp_ctx) = Some (1, True, 2)"
    by code_simp
  then show thesis using that by auto
qed

lemma supp_keys_authenticated_witness:
  "\<exists>c' key. wpa_sm_rx_eapol ex_supp_env [] (ex_supp_frame 1) ex_supp_ctx = Some (1, c') \<and> supp_authentic ex_supp_env (ex_supp_frame 1) (sc_sm ex_supp_ctx) key \<and>
    w_ptk (sc_sm c') = key"
proof -
  obtain c' where r: "wpa_sm_rx_eapol ex_supp_env [] (ex_supp_frame 1) ex_supp_ctx = Some (1, c')" "w_ptk_set (sc_sm c')" by (rule ex_supp_rx)
  then have "core (sc_sm c') \<noteq> core (sc_sm ex_supp_ctx)" using ex_supp_counter(2) by (auto simp: core_def)
  with supp_keys_authenticated[OF ex_supp_hmac ex_supp_counter(1) r(1)] r(1) show ?thesis by blast
qed

section \<open>No frame is accepted twice\<close>

lemma quiet_reply: "supp_reply E info len ctr nonce data d = (r, d') \<Longrightarrow> quiet c d \<Longrightarrow> quiet c d'"
  unfolding supp_reply_def supp_malloc_eq by (auto intro!: quiets)

lemma quiet_key_request [quiets]: "quiet c d \<Longrightarrow> quiet c (wpa_sm_key_request E err pw d)"
  unfolding wpa_sm_key_request_def Let_def
  by (auto simp only: split: option.split prod.split) (auto intro!: quiets simp: core_def elim!: quiet_reply)

lemma quiet_expire_loop [quiets]: "quiet c d \<Longrightarrow> quiet c (supp_expire_loop E es d)"
proof (induction es arbitrary: d)
  case (Cons e es)
  have "quiet c (supp_pmksa_free_entry e False (upd_w (\<lambda>s. s\<lparr>w_pmksa := es\<rparr>) d))" using Cons(2) by (intro quiets) simp
  then show ?case using Cons by simp
qed simp

lemma quiet_preauth_deinit [quiets]: "quiet c d \<Longrightarrow> quiet c (rsn_preauth_deinit d)"
  unfolding rsn_preauth_deinit_def by (auto intro!: quiets simp: core_def)

text \<open>What happens to the station between two associations.\<close>

inductive supp_step :: "supp_env \<Rightarrow> supp_ctx \<Rightarrow> supp_ctx \<Rightarrow> bool" for E where
  frame: "wpa_sm_rx_eapol E src buf c = Some (ret, c') \<Longrightarrow> supp_step E c c'"
| key_request: "supp_step E c (wpa_sm_key_request E err pw c)"
| rekey: "supp_step E c (wpa_sm_rekey_ptk E c)"
| expire: "supp_step E c (supp_pmksa_expire E c)"
| reauth: "supp_step E c (supp_pmksa_reauth c)"
| aborted: "supp_step E c (wpa_sm_aborted_cached c)"
| disassoc: "supp_step E c (wpa_sm_notify_disassoc E c)"

inductive_cases supp_stepE: "supp_step E c c'"

lemma step_quiet_or_frame:
  assumes "supp_step E c c'"
  shows "quiet c c' \<or> (\<exists>src buf ret. wpa_sm_rx_eapol E src buf c = Some (ret, c') \<and> \<not> quiet c c')"
  using assms
  by (cases rule: supp_step.cases)
    (auto intro!: quiets simp: wpa_sm_rekey_ptk_def supp_pmksa_expire_def supp_pmksa_reauth_def wpa_sm_aborted_cached_def
      wpa_sm_notify_disassoc_def core_def Let_def)

definition counter_from :: "nat \<Rightarrow> wpa_sm \<Rightarrow> bool" where
  "counter_from n sm \<longleftrightarrow> length (w_rx_replay_counter sm) = 8 \<and> w_rx_replay_counter_set sm \<and> n \<le> be_val (w_rx_replay_counter sm)"

lemma counter_step:
  assumes "supp_hmac_ok E" "supp_step E c c'" "counter_from n (sc_sm c)"
  shows "counter_from n (sc_sm c')"
proof (cases "quiet c c'")
  case True
  then show ?thesis using assms(3) by (simp add: quiet_def counter_from_def core_def)
next
  case False
  then obtain src buf ret where r: "wpa_sm_rx_eapol E src buf c = Some (ret, c')" using step_quiet_or_frame[OF assms(2)] by blast
  have l: "99 \<le> length buf" using rx_cases[OF assms(1) r False] by blast
  have "length (w_rx_replay_counter (sc_sm c)) = 8" "w_rx_replay_counter_set (sc_sm c)" using assms(3) by (simp_all add: counter_from_def)
  with rx_authentic[OF assms(1) _ r False] obtain key where
    "core (sc_sm c') = (key, True, key_replay_counter buf, True)" "be_val (w_rx_replay_counter (sc_sm c)) < be_val (key_replay_counter buf)" by blast
  then show ?thesis using assms(3) l by (auto simp: counter_from_def core_def key_replay_counter_def)
qed

lemma counter_steps: "(supp_step E)\<^sup>*\<^sup>* c c' \<Longrightarrow> supp_hmac_ok E \<Longrightarrow> counter_from n (sc_sm c) \<Longrightarrow> counter_from n (sc_sm c')"
  by (induction rule: rtranclp_induct) (auto dest: counter_step)

lemma old_counter_dropped:
  assumes "counter_from n (sc_sm c)" "be_val (key_replay_counter buf) \<le> n"
  shows "\<exists>ret c'. wpa_sm_rx_eapol E src buf c = Some (ret, c') \<and> ret \<le> 0 \<and> sc_sm c' = sc_sm c"
proof (cases "99 \<le> length buf")
  case True
  have d: "supp_dropped (sc_sm c) buf"
  proof (rule ccontr)
    assume "\<not> supp_dropped (sc_sm c) buf"
    from dropped_counter[OF this] show False using assms True by (simp add: counter_from_def)
  qed
  show ?thesis using rx_early[of buf E c src] d by auto
qed (use rx_early[of buf E c src] in auto)



section \<open>Access outside the frame\<close>

lemma memput_mic_fields:
  assumes "99 \<le> length buf" "length m = 16"
  shows "length (memput buf 81 m) = length buf" "key_data_length (memput buf 81 m) = key_data_length buf"
    "WPA_GET_BE16 (drop 97 (memput buf 81 m)) = WPA_GET_BE16 (drop 97 buf)"
proof -
  have d: "drop 97 (memput buf 81 m) = drop 97 buf" using assms by (simp add: memput_def)
  show "length (memput buf 81 m) = length buf" using assms by simp
  show "key_data_length (memput buf 81 m) = key_data_length buf" "WPA_GET_BE16 (drop 97 (memput buf 81 m)) = WPA_GET_BE16 (drop 97 buf)"
    unfolding key_data_length_def d by simp_all
qed

text \<open>The length after the eight bytes of the key wrap are subtracted wraps around for no key data.\<close>

lemma units_read:
  fixes k :: u16
  assumes "unat k mod 8 = 0"
  shows "8 * (unat (k - 8) div 8 + 1) = (if k = 0 then 65536 else unat k)"
proof (cases "k = 0")
  case False
  then have "8 \<le> unat k" using assms by (metis One_nat_def Suc_leI dvd_imp_le mod_0_imp_dvd neq0_conv unat_eq_zero)
  then have "unat (k - 8) = unat k - 8" by (simp add: unat_sub word_le_nat_alt)
  then show ?thesis using False assms \<open>8 \<le> unat k\<close> by auto
qed simp

lemma decrypt_outside:
  assumes "\<And>tr. SE_malloc E tr" "99 + key_data_length tmp \<le> length tmp" "length tmp < 65635"
    "ver = WPA_KEY_INFO_TYPE_HMAC_MD5_RC4 \<or> ver = WPA_KEY_INFO_TYPE_HMAC_SHA1_AES"
  shows "wpa_supplicant_decrypt_key_data E ver tmp c = None \<longleftrightarrow>
    w_ptk_set (sc_sm c) \<and> ver = WPA_KEY_INFO_TYPE_HMAC_SHA1_AES \<and> key_data_length tmp = 0"
proof -
  let ?k = "WPA_GET_BE16 (drop 97 tmp) :: u16"
  have z: "key_data_length tmp = 0 \<longleftrightarrow> ?k = 0" by (simp add: key_data_length_def unat_eq_zero)
  have r: "length tmp < 99 + 8 * (unat (?k - 8) div 8 + 1) \<longleftrightarrow> key_data_length tmp = 0" if "unat ?k mod 8 = 0"
    unfolding units_read[OF that] using assms(2,3) by (auto simp: z) (auto simp: key_data_length_def)
  show ?thesis
    using assms(1,4) r z unfolding wpa_supplicant_decrypt_key_data_def Let_def supp_malloc_eq
    by (auto split: option.split simp: WPA_KEY_INFO_TYPE_HMAC_SHA1_AES_def WPA_KEY_INFO_TYPE_HMAC_MD5_RC4_def)
qed

lemma not_for_us_length:
  assumes "\<not> supp_not_for_us buf" "99 \<le> length buf"
  shows "95 \<le> unat (WPA_GET_BE16 (drop 2 buf) :: u16)" "unat (WPA_GET_BE16 (drop 2 buf) :: u16) + 4 \<le> length buf"
  using assms by (auto simp: supp_not_for_us_def Let_def)

lemma after_mic_outside:
  assumes "\<And>tr. SE_malloc E tr" "99 \<le> length buf" "\<not> supp_not_for_us buf"
    "ver = WPA_KEY_INFO_TYPE_HMAC_MD5_RC4 \<or> ver = WPA_KEY_INFO_TYPE_HMAC_SHA1_AES" "length buf < 65635"
    "length tmp = length buf" "key_data_length tmp = key_data_length buf"
  shows "supp_after_mic E src info ver (unat (WPA_GET_BE16 (drop 2 buf) :: u16) - 95) tmp d = None \<longleftrightarrow>
    w_proto (sc_sm d) = WPA_PROTO_RSN \<and> info_has info WPA_KEY_INFO_ENCR_KEY_DATA \<and> ver = WPA_KEY_INFO_TYPE_HMAC_SHA1_AES \<and>
    key_data_length buf = 0 \<and> w_ptk_set (sc_sm d)"
proof (cases "key_data_length tmp > unat (WPA_GET_BE16 (drop 2 buf) :: u16) - 95")
  case False
  then have "99 + key_data_length tmp \<le> length tmp" using not_for_us_length[OF assms(3,2)] assms(6) by linarith
  moreover have "length tmp < 65635" using assms(5,6) by simp
  ultimately show ?thesis
    using decrypt_outside[OF assms(1) _ _ assms(4), of tmp d] False assms(7) by (auto simp: supp_after_mic_def split: option.split)
qed (use assms(7) in \<open>simp add: supp_after_mic_def\<close>)

text \<open>C11. The receiver reads outside its copy of a frame in exactly one case: a frame for an RSN station with
  encrypted key data of length zero and descriptor version 2 that passes the checks made before decryption; there
  the length minus the eight bytes of the key wrap wraps around to 65528. The MIC is checked before only if
  the frame says that it has one, so a frame without MIC gets there as soon as the station has a pairwise key.\<close>

theorem supp_rx_reads_outside:
  assumes "supp_hmac_ok E" "\<And>tr. SE_malloc E tr" "length buf < 65635"
  shows "wpa_sm_rx_eapol E src buf c = None \<longleftrightarrow>
    99 \<le> length buf \<and> \<not> supp_not_for_us buf \<and> \<not> supp_dropped (sc_sm c) buf \<and> w_proto (sc_sm c) = WPA_PROTO_RSN \<and>
    info_has (key_info_of buf) WPA_KEY_INFO_ENCR_KEY_DATA \<and>
    key_info_of buf AND WPA_KEY_INFO_TYPE_MASK = WPA_KEY_INFO_TYPE_HMAC_SHA1_AES \<and> key_data_length buf = 0 \<and>
    (if info_has (key_info_of buf) WPA_KEY_INFO_MIC then \<exists>key. supp_authentic E buf (sc_sm c) key else w_ptk_set (sc_sm c))"
proof (cases "99 \<le> length buf \<and> \<not> supp_not_for_us buf \<and> \<not> supp_dropped (sc_sm c) buf")
  case False
  then show ?thesis using rx_early[of buf E c src] by auto
next
  case True
  let ?i = "key_info_of buf" and ?v = "key_info_of buf AND WPA_KEY_INFO_TYPE_MASK" and ?n = "unat (WPA_GET_BE16 (drop 2 buf) :: u16) + 4"
  have p: "99 \<le> length buf" "SE_malloc E (sc_tr c @ [S_malloc])" "\<not> supp_not_for_us buf" "\<not> supp_dropped (sc_sm c) buf"
    using True assms(2) by auto
  note fin = after_mic_outside[OF assms(2) p(1,3) dropped_version[OF p(4)] assms(3)]
  show ?thesis
  proof (cases "info_has ?i WPA_KEY_INFO_MIC")
    case mic: True
    obtain m where m: "length m = 16" "wpa_supplicant_verify_eapol_key_mic E ?v ?n buf (supp_entered c) =
      (if knows_new E ?v ?n buf (sc_sm c) \<or> knows_old E ?v ?n buf (sc_sm c)
       then (True, memput buf 81 m, supp_verified (knows_new E ?v ?n buf (sc_sm c)) buf (supp_entered c)) else (False, memput buf 81 m, supp_entered c))"
      by (rule verify_entered[OF assms(1) p(4,1) refl])
    have a: "(\<exists>key. supp_authentic E buf (sc_sm c) key) \<longleftrightarrow> knows_new E ?v ?n buf (sc_sm c) \<or> knows_old E ?v ?n buf (sc_sm c)"
      using mic by (auto simp: supp_authentic_def knows_new_def knows_old_def)
    have s: "w_proto (sc_sm (supp_verified x buf (supp_entered c))) = w_proto (sc_sm c)"
      "w_ptk_set (sc_sm (supp_verified x buf (supp_entered c))) \<longleftrightarrow> x \<or> w_ptk_set (sc_sm c)" for x by (simp_all add: supp_verified_def)
    show ?thesis
      unfolding rx_eq[OF p] using p mic m(2) a fin[OF memput_mic_fields(1,2)[OF p(1) m(1)]]
      by (auto simp: supp_rx_rest_def s knows_old_def)
  next
    case False
    then show ?thesis unfolding rx_eq[OF p] using p fin[of buf, where d = "supp_entered c"] by (auto simp: supp_rx_rest_def)
  qed
qed

text \<open>A frame of 99 bytes without MIC.\<close>

lemma supp_rx_reads_outside_witness:
  "wpa_sm_rx_eapol ex_supp_env [] (eapol_key_frame 2 2 0x108a 16 (replicate 8 1) (replicate 32 0) (replicate 16 0) (replicate 8 0) [])
     (upd_w (\<lambda>s. s\<lparr>w_ptk_set := True\<rparr>) ex_supp_ctx) = None"
proof -
  let ?f = "eapol_key_frame 2 2 0x108a 16 (replicate 8 1) (replicate 32 0) (replicate 16 0) (replicate 8 0) []" and ?c = "upd_w (\<lambda>s. s\<lparr>w_ptk_set := True\<rparr>) ex_supp_ctx"
  have "99 \<le> length ?f \<and> length ?f < 65635 \<and> \<not> supp_not_for_us ?f \<and> \<not> supp_dropped (sc_sm ?c) ?f \<and> w_proto (sc_sm ?c) = WPA_PROTO_RSN \<and>
    info_has (key_info_of ?f) WPA_KEY_INFO_ENCR_KEY_DATA \<and> key_info_of ?f AND WPA_KEY_INFO_TYPE_MASK = WPA_KEY_INFO_TYPE_HMAC_SHA1_AES \<and>
    key_data_length ?f = 0 \<and> \<not> info_has (key_info_of ?f) WPA_KEY_INFO_MIC \<and> w_ptk_set (sc_sm ?c)" by code_simp
  moreover have "SE_malloc ex_supp_env tr" for tr by (simp add: ex_supp_env_def)
  ultimately show ?thesis using supp_rx_reads_outside[OF ex_supp_hmac, of ?f "[]" ?c] by auto
qed

end
