(* ===== verification/Supp_Pmksa.thy ===== *)
theory Supp_Pmksa
  imports Supp_Safety
begin

unbundle bit_operations_syntax

text \<open>
  The PMKSA cache of the station: after any operation of the station its counter is the number of
  entries, there is at most one entry for an access point and at most 32 in all, and the pointer to the current
  entry is NULL or points to an entry of the cache. The exception is the entry that is cloned for
  opportunistic key caching, which may have been freed when it is read.
\<close>

section \<open>The invariant\<close>

definition entries_ok :: "supp_pmksa_entry list \<Rightarrow> nat \<Rightarrow> bool" where
  "entries_ok es n \<longleftrightarrow> distinct (map p_addr es) \<and> distinct (map p_aa es) \<and>
     (\<forall>e \<in> set es. p_addr e < n \<and> length (p_pmk e) = PMK_LEN \<and> p_pmk_len e \<le> PMK_LEN)"

definition supp_cache_ok :: "supp_ctx \<Rightarrow> bool" where
  "supp_cache_ok c \<longleftrightarrow> entries_ok (w_pmksa (sc_sm c)) (sc_next c) \<and> w_pmksa_count (sc_sm c) = int (length (w_pmksa (sc_sm c))) \<and>
     w_pmksa_count (sc_sm c) \<le> supp_pmksa_max_entries \<and> (\<forall>a \<in> set_option (w_cur_pmksa (sc_sm c)). a \<in> p_addr ` set (w_pmksa (sc_sm c)))"

definition cache_view :: "wpa_sm \<Rightarrow> supp_pmksa_entry list \<times> int \<times> nat option" where
  "cache_view sm = (w_pmksa sm, w_pmksa_count sm, w_cur_pmksa sm)"

named_theorems cache_rules

lemma cache_call [cache_rules]: "supp_cache_ok c \<Longrightarrow> supp_cache_ok (call a c)"
  by (simp add: supp_cache_ok_def)

lemma cache_upd [cache_rules]: "cache_view (f (sc_sm c)) = cache_view (sc_sm c) \<Longrightarrow> supp_cache_ok c \<Longrightarrow> supp_cache_ok (upd_w f c)"
  by (simp add: supp_cache_ok_def cache_view_def)

lemma cache_clear [cache_rules]: "supp_cache_ok c \<Longrightarrow> supp_cache_ok (upd_w (\<lambda>s. s\<lparr>w_cur_pmksa := None\<rparr>) c)"
  by (simp add: supp_cache_ok_def)

section \<open>The operations of the cache\<close>

lemma cache_free:
  assumes "entries_ok (w_pmksa (sc_sm c)) (sc_next c)" "w_pmksa_count (sc_sm c) = int (length (w_pmksa (sc_sm c))) + 1"
    "w_pmksa_count (sc_sm c) \<le> supp_pmksa_max_entries"
    "\<forall>a \<in> set_option (w_cur_pmksa (sc_sm c)). a \<in> insert (p_addr e) (p_addr ` set (w_pmksa (sc_sm c)))"
  shows "supp_cache_ok (supp_pmksa_free_entry e r c)"
  using assms
  by (auto simp: supp_cache_ok_def supp_pmksa_free_entry_def wpa_sm_pmksa_free_cb_def Let_def wpa_sm_deauthenticate_def)

lemma entries_ok_mono: "entries_ok es n \<Longrightarrow> n \<le> m \<Longrightarrow> entries_ok es m"
  by (auto simp: entries_ok_def)

lemma entries_ok_tl: "entries_ok (e # es) n \<Longrightarrow> entries_ok es n"
  by (simp add: entries_ok_def)

lemma entries_ok_remove1: "entries_ok es n \<Longrightarrow> entries_ok (remove1 e es) n"
  by (auto simp: entries_ok_def distinct_map intro: inj_on_subset dest: set_remove1_subset[THEN subsetD])

lemma cache_expire_loop:
  "supp_cache_ok c \<Longrightarrow> w_pmksa (sc_sm c) = es \<Longrightarrow> supp_cache_ok (supp_expire_loop E es c)"
proof (induction es arbitrary: c)
  case (Cons e es)
  let ?d = "upd_w (\<lambda>s. s\<lparr>w_pmksa := es\<rparr>) c" and ?f = "supp_pmksa_free_entry e False (upd_w (\<lambda>s. s\<lparr>w_pmksa := es\<rparr>) c)"
  have "supp_cache_ok ?f"
    by (rule cache_free) (use Cons(2,3) in \<open>auto simp: supp_cache_ok_def dest: entries_ok_tl\<close>)
  moreover have "w_pmksa (sc_sm ?f) = es"
    by (simp add: supp_pmksa_free_entry_def wpa_sm_pmksa_free_cb_def Let_def wpa_sm_deauthenticate_def)
  ultimately show ?case using Cons by simp
qed simp

lemma cache_set_expiration [cache_rules]: "supp_cache_ok c \<Longrightarrow> supp_cache_ok (supp_pmksa_set_expiration E c)"
  unfolding supp_pmksa_set_expiration_def Let_def by (auto intro!: cache_rules split: list.split)

lemma cache_expire: "supp_cache_ok c \<Longrightarrow> supp_cache_ok (supp_pmksa_expire E c)"
  unfolding supp_pmksa_expire_def by (intro cache_set_expiration cache_expire_loop) simp_all

lemma cache_replace:
  assumes "supp_cache_ok c" "old \<in> set (w_pmksa (sc_sm c))"
  shows "supp_cache_ok (supp_replace_old old c) \<and> w_pmksa (sc_sm (supp_replace_old old c)) = remove1 old (w_pmksa (sc_sm c)) \<and>
    sc_next (supp_replace_old old c) = sc_next c"
proof -
  have l: "length (w_pmksa (sc_sm c)) = Suc (length (remove1 old (w_pmksa (sc_sm c))))"
    using length_pos_if_in_set[OF assms(2)] assms(2) by (simp add: length_remove1)
  have s: "set (w_pmksa (sc_sm c)) = insert old (set (remove1 old (w_pmksa (sc_sm c))))"
    using assms(1) assms(2) by (auto simp: supp_cache_ok_def entries_ok_def distinct_map)
  have "supp_cache_ok (supp_replace_old old c)"
    unfolding supp_replace_old_def Let_def
    by (rule cache_free) (use assms(1) l s in \<open>auto simp: supp_cache_ok_def intro: entries_ok_remove1\<close>)
  then show ?thesis
    by (simp add: supp_replace_old_def supp_pmksa_free_entry_def wpa_sm_pmksa_free_cb_def Let_def wpa_sm_deauthenticate_def)
qed

lemma make_room_eq:
  assumes "supp_cache_ok c"
  shows "supp_cache_ok (supp_make_room c)" "sc_next (supp_make_room c) = sc_next c"
    "w_pmksa (sc_sm (supp_make_room c)) = (if length (w_pmksa (sc_sm c)) = 32 then tl (w_pmksa (sc_sm c)) else w_pmksa (sc_sm c))"
    "length (w_pmksa (sc_sm (supp_make_room c))) < 32"
proof -
  have n: "int (length (w_pmksa (sc_sm c))) = w_pmksa_count (sc_sm c)" "length (w_pmksa (sc_sm c)) \<le> 32"
    using assms by (auto simp: supp_cache_ok_def supp_pmksa_max_entries_def)
  show "supp_cache_ok (supp_make_room c)"
  proof (cases "w_pmksa (sc_sm c)")
    case (Cons e es)
    show ?thesis
    proof (cases "w_pmksa_count (sc_sm c) \<ge> supp_pmksa_max_entries")
      case True
      have "supp_cache_ok (supp_pmksa_free_entry e False (call (S_remove_pmkid (p_aa e) (p_pmkid e)) (upd_w (\<lambda>s. s\<lparr>w_pmksa := es\<rparr>) c)))"
        by (rule cache_free) (use assms Cons in \<open>auto simp: supp_cache_ok_def dest: entries_ok_tl\<close>)
      then show ?thesis using True Cons by (simp add: supp_make_room_def)
    qed (use assms Cons in \<open>simp add: supp_make_room_def\<close>)
  qed (use assms in \<open>simp add: supp_make_room_def\<close>)
  show "sc_next (supp_make_room c) = sc_next c"
    "w_pmksa (sc_sm (supp_make_room c)) = (if length (w_pmksa (sc_sm c)) = 32 then tl (w_pmksa (sc_sm c)) else w_pmksa (sc_sm c))"
    "length (w_pmksa (sc_sm (supp_make_room c))) < 32"
    using n by (auto simp: supp_make_room_def supp_pmksa_free_entry_def wpa_sm_pmksa_free_cb_def Let_def wpa_sm_deauthenticate_def
        supp_pmksa_max_entries_def split: list.split)
qed

lemma set_expiration_sm [simp]: "sc_sm (supp_pmksa_set_expiration E c) = sc_sm c" "sc_next (supp_pmksa_set_expiration E c) = sc_next c"
  by (auto simp: supp_pmksa_set_expiration_def Let_def split: list.split)

lemma entries_ok_insert:
  assumes "entries_ok (xs @ ys) n" "p_addr e < n" "p_addr e \<notin> p_addr ` set (xs @ ys)" "p_aa e \<notin> p_aa ` set (xs @ ys)"
    "length (p_pmk e) = PMK_LEN" "p_pmk_len e \<le> PMK_LEN"
  shows "entries_ok (xs @ e # ys) n"
  using assms by (auto simp: entries_ok_def)

lemma link_ok:
  assumes "supp_cache_ok c" "length (w_pmksa (sc_sm c)) < 32" "p_addr e < sc_next c" "p_addr e \<notin> p_addr ` set (w_pmksa (sc_sm c))"
    "p_aa e \<notin> p_aa ` set (w_pmksa (sc_sm c))" "length (p_pmk e) = PMK_LEN" "p_pmk_len e \<le> PMK_LEN"
  shows "supp_cache_ok (supp_link_entry E e c)" "set (w_pmksa (sc_sm (supp_link_entry E e c))) = insert e (set (w_pmksa (sc_sm c)))"
proof -
  let ?P = "\<lambda>p. \<not> p_expiration p > p_expiration e" and ?l = "w_pmksa (sc_sm c)"
  have w: "takeWhile ?P ?l @ dropWhile ?P ?l = ?l" by simp
  have "length (takeWhile ?P ?l) + length (dropWhile ?P ?l) = length ?l" by (metis length_append w)
  then have n: "int (length (takeWhile ?P ?l @ e # dropWhile ?P ?l)) = int (length ?l) + 1" by simp
  have s: "set (takeWhile ?P ?l @ e # dropWhile ?P ?l) = insert e (set ?l)" using set_append[of "takeWhile ?P ?l" "dropWhile ?P ?l", unfolded w] by auto
  have o: "entries_ok (takeWhile ?P ?l @ e # dropWhile ?P ?l) (sc_next c)"
    by (rule entries_ok_insert) (use assms in \<open>simp_all add: supp_cache_ok_def\<close>)
  have f: "w_pmksa (sc_sm (supp_link_entry E e c)) = takeWhile ?P ?l @ e # dropWhile ?P ?l" "sc_next (supp_link_entry E e c) = sc_next c"
    "w_pmksa_count (sc_sm (supp_link_entry E e c)) = w_pmksa_count (sc_sm c) + 1" "w_cur_pmksa (sc_sm (supp_link_entry E e c)) = w_cur_pmksa (sc_sm c)"
    by (simp_all add: supp_link_entry_def Let_def)
  show "set (w_pmksa (sc_sm (supp_link_entry E e c))) = insert e (set ?l)" unfolding f s ..
  show "supp_cache_ok (supp_link_entry E e c)"
    unfolding supp_cache_ok_def f s using assms(1,2) o n by (auto simp: supp_cache_ok_def supp_pmksa_max_entries_def)
qed

lemma find_Some: "List.find P xs = Some x \<Longrightarrow> x \<in> set xs \<and> P x"
  by (auto simp: find_Some_iff)

lemma find_None: "List.find P xs = None \<Longrightarrow> \<forall>x \<in> set xs. \<not> P x"
  by (simp add: find_None_iff)

text \<open>Adding an entry: the entry whose address is returned is in the cache. \<open>gone\<close> are the entries that were removed.\<close>

lemma supp_add_ok:
  assumes "supp_cache_ok c" "supp_pmksa_add E pmk aa spa nctx akmp c = (r, c')"
  shows "supp_cache_ok c'" "\<forall>a \<in> set_option r. a \<in> p_addr ` set (w_pmksa (sc_sm c'))"
proof -
  define c1 where "c1 = (call S_malloc c)\<lparr>sc_next := Suc (sc_next c)\<rparr>"
  define e where "e = supp_new_entry E (sc_sm c) (sc_next c) pmk aa spa nctx akmp"
  have c1: "supp_cache_ok c1" "sc_sm c1 = sc_sm c" "sc_next c1 = Suc (sc_next c)"
    using assms(1) entries_ok_mono[of "w_pmksa (sc_sm c)" "sc_next c"] by (auto simp: c1_def supp_cache_ok_def)
  have fresh: "p_addr e \<notin> p_addr ` set (w_pmksa (sc_sm c))" using assms(1) by (auto simp: e_def supp_new_entry_def supp_cache_ok_def entries_ok_def)
  have new: "supp_cache_ok (supp_link_entry E e (supp_make_room d)) \<and> p_addr e \<in> p_addr ` set (w_pmksa (sc_sm (supp_link_entry E e (supp_make_room d))))"
    if d: "supp_cache_ok d" "sc_next d = Suc (sc_next c)" "set (w_pmksa (sc_sm d)) \<subseteq> set (w_pmksa (sc_sm c))" "aa \<notin> p_aa ` set (w_pmksa (sc_sm d))"
      "length pmk \<le> PMK_LEN" for d
  proof -
    have sub: "set (w_pmksa (sc_sm (supp_make_room d))) \<subseteq> set (w_pmksa (sc_sm d))"
      using make_room_eq(3)[OF d(1)] by (auto dest: list.set_sel(2)[rotated])
    have p: "p_addr e < sc_next (supp_make_room d)" "length (p_pmk e) = PMK_LEN" "p_pmk_len e \<le> PMK_LEN" "p_aa e = aa"
      using make_room_eq(2)[OF d(1)] d(2,5) by (auto simp: e_def supp_new_entry_def)
    have q: "p_addr e \<notin> p_addr ` set (w_pmksa (sc_sm (supp_make_room d)))" "p_aa e \<notin> p_aa ` set (w_pmksa (sc_sm (supp_make_room d)))"
      using sub d(3,4) fresh p(4) by auto
    from link_ok[OF make_room_eq(1)[OF d(1)] make_room_eq(4)[OF d(1)] p(1) q p(2,3)] show ?thesis by auto
  qed
  have "supp_cache_ok c' \<and> (\<forall>a \<in> set_option r. a \<in> p_addr ` set (w_pmksa (sc_sm c')))"
  proof (cases "length pmk > PMK_LEN \<or> \<not> SE_malloc E (sc_tr c @ [S_malloc])")
    case True
    then show ?thesis using assms by (auto simp: supp_pmksa_add_def supp_malloc_eq intro!: cache_rules split: if_splits)
  next
    case False
    then have l: "length pmk \<le> PMK_LEN" by simp
    have a: "(case List.find (\<lambda>p. p_aa p = aa) (w_pmksa (sc_sm c1)) of
               Some pos \<Rightarrow>
                 if p_pmk_len pos = length pmk \<and> take (length pmk) (p_pmk pos) = pmk \<and> p_pmkid pos = p_pmkid e
                 then (Some (p_addr pos), c1)
                 else (Some (p_addr e), supp_link_entry E e (supp_make_room (supp_replace_old pos c1)))
             | None \<Rightarrow> (Some (p_addr e), supp_link_entry E e (supp_make_room c1))) = (r, c')"
      using assms(2) False unfolding supp_pmksa_add_def supp_malloc_eq Let_def prod.case supp_ctx_simps c1_def e_def by simp
    show ?thesis
    proof (cases "List.find (\<lambda>p. p_aa p = aa) (w_pmksa (sc_sm c1))")
      case None
      have "aa \<notin> p_aa ` set (w_pmksa (sc_sm c1))" using find_None[OF None] by auto
      with new[OF c1(1)] c1 l a None show ?thesis by auto
    next
      case (Some pos)
      note pos = find_Some[OF Some]
      note rep = cache_replace[OF c1(1) conjunct1[OF pos]]
      have d: "distinct (w_pmksa (sc_sm c1))" "inj_on p_aa (set (w_pmksa (sc_sm c1)))"
        using c1(1) by (auto simp: supp_cache_ok_def entries_ok_def distinct_map)
      have "aa \<notin> p_aa ` set (remove1 pos (w_pmksa (sc_sm c1)))" using pos d by (auto dest: inj_onD)
      with new[of "supp_replace_old pos c1"] rep c1 l a Some pos set_remove1_subset[of pos "w_pmksa (sc_sm c1)"] show ?thesis
        by (auto split: if_splits)
    qed
  qed
  then show "supp_cache_ok c'" "\<forall>a \<in> set_option r. a \<in> p_addr ` set (w_pmksa (sc_sm c'))" by auto
qed

lemma get_in: "supp_pmksa_get sm aa pmkid = Some a \<Longrightarrow> a \<in> p_addr ` set (w_pmksa sm)"
  by (auto simp: supp_pmksa_get_def dest: find_Some)

lemma get_current [simp]: "supp_pmksa_get (s\<lparr>w_cur_pmksa := v\<rparr>) aa pmkid = supp_pmksa_get s aa pmkid"
  by (simp add: supp_pmksa_get_def)

lemma cache_current [cache_rules]:
  "supp_cache_ok c \<Longrightarrow> \<forall>a \<in> set_option (v (sc_sm c)). a \<in> p_addr ` set (w_pmksa (sc_sm c)) \<Longrightarrow>
    supp_cache_ok (upd_w (\<lambda>s. s\<lparr>w_cur_pmksa := v s\<rparr>) c)"
  by (simp add: supp_cache_ok_def)

lemma store_addrs:
  assumes "\<And>e. p_addr (f e) = p_addr e"
  shows "p_addr ` set (w_pmksa (sc_sm (supp_store a f c))) = p_addr ` set (w_pmksa (sc_sm c))"
proof -
  have "map p_addr (map (\<lambda>e. if p_addr e = a then f e else e) es) = map p_addr es" for es using assms by simp
  then show ?thesis unfolding supp_store_def by (simp only: supp_ctx_simps set_map[symmetric]) simp
qed

lemma cache_store [cache_rules]:
  assumes "supp_cache_ok c" "\<And>e. p_addr (f e) = p_addr e \<and> p_aa (f e) = p_aa e \<and> p_pmk (f e) = p_pmk e \<and> p_pmk_len (f e) = p_pmk_len e"
  shows "supp_cache_ok (supp_store a f c)"
proof -
  let ?g = "\<lambda>e. if p_addr e = a then f e else e"
  have m: "map p_addr (map ?g es) = map p_addr es" "map p_aa (map ?g es) = map p_aa es" for es using assms(2) by simp_all
  have "entries_ok (map ?g es) n" if "entries_ok es n" for es n
    using that unfolding entries_ok_def m using assms(2) by auto
  then have "entries_ok (w_pmksa (sc_sm (supp_store a f c))) (sc_next (supp_store a f c))"
    using assms(1) by (simp add: supp_cache_ok_def supp_store_def)
  then show ?thesis using assms(1) store_addrs[of f a c] assms(2) by (simp add: supp_cache_ok_def) (simp add: supp_store_def)
qed

lemma cache_clone:
  assumes "supp_cache_ok c" "supp_pmksa_clone_entry E old aa c = Some (r, c')"
  shows "supp_cache_ok c'" "\<forall>a \<in> set_option r. a \<in> p_addr ` set (w_pmksa (sc_sm c'))"
proof -
  obtain x d where a: "supp_pmksa_add E (take (p_pmk_len old) (p_pmk old)) aa (w_own_addr (sc_sm c)) (p_network_ctx old) (p_akmp old) c = (x, d)" by fastforce
  note ok = supp_add_ok[OF assms(1) a]
  note s = store_addrs[of "\<lambda>e. e\<lparr>p_expiration := t, p_opportunistic := True\<rparr>" for t, simplified]
  show "supp_cache_ok c'" "\<forall>a \<in> set_option r. a \<in> p_addr ` set (w_pmksa (sc_sm c'))"
    using assms(2) ok s unfolding supp_pmksa_clone_entry_def a prod.case
    by (auto split: option.splits intro!: cache_rules)
qed

lemma cache_set_current:
  assumes "supp_cache_ok c" "supp_pmksa_set_current E pmkid bssid nctx try c = Some (r, c')"
  shows "supp_cache_ok c'"
proof -
  define c1 where "c1 = (let c = upd_w (\<lambda>s. s\<lparr>w_cur_pmksa := None\<rparr>) c;
          c = (if pmkid \<noteq> None then upd_w (\<lambda>s. s\<lparr>w_cur_pmksa := supp_pmksa_get s None pmkid\<rparr>) c else c)
      in if w_cur_pmksa (sc_sm c) = None \<and> bssid \<noteq> None then upd_w (\<lambda>s. s\<lparr>w_cur_pmksa := supp_pmksa_get s bssid None\<rparr>) c else c)"
  have c1: "supp_cache_ok c1"
    using assms(1) unfolding c1_def Let_def by (auto intro!: cache_rules dest: get_in)
  have o: "supp_cache_ok (upd_w (\<lambda>s. s\<lparr>w_cur_pmksa := e\<rparr>) d)" if "supp_pmksa_get_opportunistic E nctx aa c1 = Some (e, d)" for aa e d
    using that c1 cache_clone[OF c1] unfolding supp_pmksa_get_opportunistic_def
    by (auto split: if_splits option.splits intro!: cache_rules)
  show ?thesis
    using assms(2) c1 o unfolding supp_pmksa_set_current_def Let_def c1_def[unfolded Let_def, symmetric]
    by (auto split: if_splits option.splits)
qed

section \<open>The station keeps its cache\<close>

lemma cache_key_send [cache_rules]: "supp_cache_ok c \<Longrightarrow> supp_cache_ok (wpa_eapol_key_send E key ver dest msg mic c)"
  unfolding wpa_eapol_key_send_def Let_def by (auto intro!: cache_rules simp: cache_view_def split: option.split)

lemma cache_reply: "supp_reply E info len ctr nonce data c = (r, c') \<Longrightarrow> supp_cache_ok c \<Longrightarrow> supp_cache_ok c'"
  unfolding supp_reply_def supp_malloc_eq by (auto intro!: cache_rules)

lemma cache_send:
  "wpa_supplicant_send_2_of_4 E dst key ver nonce ie ptk c = (r, c') \<Longrightarrow> supp_cache_ok c \<Longrightarrow> supp_cache_ok c'"
  "wpa_supplicant_send_4_of_4 E dst key ver info kde ptk c = (r, c') \<Longrightarrow> supp_cache_ok c \<Longrightarrow> supp_cache_ok c'"
  "wpa_supplicant_send_2_of_2 E key ver info c = (r, c') \<Longrightarrow> supp_cache_ok c \<Longrightarrow> supp_cache_ok c'"
  unfolding wpa_supplicant_send_2_of_4_def wpa_supplicant_send_4_of_4_def wpa_supplicant_send_2_of_2_def Let_def
  by (auto split: option.splits prod.splits intro!: cache_rules dest!: cache_reply)

lemma cache_failed [cache_rules]: "supp_cache_ok c \<Longrightarrow> supp_cache_ok (supp_failed c)"
  unfolding supp_failed_def wpa_sm_deauthenticate_def by (auto intro!: cache_rules)

lemma cache_get_key: "eapol_sm_get_key E n c = (r, k, c') \<Longrightarrow> supp_cache_ok c \<Longrightarrow> supp_cache_ok c'"
  unfolding eapol_sm_get_key_def Let_def by (auto intro!: cache_rules split: option.splits if_splits)

lemma cache_add [cache_rules]: "supp_cache_ok c \<Longrightarrow> supp_cache_ok (snd (supp_pmksa_add E pmk aa spa nctx akmp c))"
  by (metis prod.collapse supp_add_ok(1))

lemma cache_from_eapol: "pmk_from_eapol E src pmkid ab c = (ab', f, c') \<Longrightarrow> supp_cache_ok c \<Longrightarrow> supp_cache_ok c'"
  unfolding pmk_from_eapol_def Let_def
  by (auto split: prod.splits option.splits if_splits intro!: cache_rules simp: cache_view_def dest!: cache_get_key)

lemma cache_set_pmk [cache_rules]: "supp_cache_ok c \<Longrightarrow> supp_cache_ok (wpa_sm_set_pmk_from_pmksa c)"
  unfolding wpa_sm_set_pmk_from_pmksa_def by (auto intro!: cache_rules simp: cache_view_def split: option.split)

lemma cache_get_pmk: "wpa_supplicant_get_pmk E src pmkid c = (r, c') \<Longrightarrow> supp_cache_ok c \<Longrightarrow> supp_cache_ok c'"
  unfolding wpa_supplicant_get_pmk_def Let_def supp_malloc_eq
  by (auto split: prod.splits if_splits intro!: cache_rules dest: get_in dest!: cache_from_eapol)

lemma cache_renew: "renew_snonce E c = (r, c') \<Longrightarrow> supp_cache_ok c \<Longrightarrow> supp_cache_ok c'"
  unfolding renew_snonce_def Let_def by (auto split: prod.splits if_splits intro!: cache_rules simp: cache_view_def)

lemma cache_1_of_4 [cache_rules]:
  assumes "supp_cache_ok c"
  shows "supp_cache_ok (wpa_supplicant_process_1_of_4 E src key ver c)"
proof -
  define c1 where "c1 = call (S_set_state WPA_4WAY_HANDSHAKE) c"
  define ie where "ie = (if w_proto (sc_sm c1) = WPA_PROTO_RSN then snd (wpa_supplicant_parse_ies (key_data key)) else no_ies)"
  obtain res c2 where g: "wpa_supplicant_get_pmk E src (i_pmkid ie) c1 = (res, c2)" by fastforce
  obtain err c3 where r: "renew_snonce E c2 = (err, c3)" by fastforce
  define c4 where "c4 = upd_w (\<lambda>s. s\<lparr>w_tptk := swap_mic_keys (supp_derive_ptk E key s), w_tptk_set := True\<rparr>) c3"
  obtain ret c5 where s: "wpa_supplicant_send_2_of_4 E (w_bssid (sc_sm c4)) key ver (w_snonce (sc_sm c4)) (w_assoc_wpa_ie (sc_sm c4)) (w_tptk (sc_sm c4)) c4 = (ret, c5)"
    by fastforce
  have q2: "supp_cache_ok c2" by (rule cache_get_pmk[OF g]) (auto simp: c1_def assms intro!: cache_rules)
  have q3: "supp_cache_ok c3" by (rule cache_renew[OF r q2])
  have "supp_cache_ok c4" unfolding c4_def by (rule cache_upd[OF _ q3]) (simp add: cache_view_def)
  then have q5: "supp_cache_ok c5" by (rule cache_send(1)[OF s])
  show ?thesis
    unfolding wpa_supplicant_process_1_of_4_def Let_def c1_def[symmetric] ie_def[symmetric] g prod.case r c4_def[symmetric] s
    using assms q2 q3 q5 by (auto intro!: cache_rules simp: cache_view_def)
qed

lemma cache_set_key: "wpa_sm_set_key E alg da idx tx seq key c = (r, c') \<Longrightarrow> supp_cache_ok c \<Longrightarrow> supp_cache_ok c'"
  unfolding wpa_sm_set_key_def Let_def by (auto intro!: cache_rules)

lemma cache_install_ptk: "wpa_supplicant_install_ptk E key c = (r, c') \<Longrightarrow> supp_cache_ok c \<Longrightarrow> supp_cache_ok c'"
  unfolding wpa_supplicant_install_ptk_def Let_def by (auto split: if_splits prod.splits intro!: cache_rules dest!: cache_set_key)

lemma cache_install_gtk: "wpa_supplicant_install_gtk E gd rsc c = (r, c') \<Longrightarrow> supp_cache_ok c \<Longrightarrow> supp_cache_ok c'"
  unfolding wpa_supplicant_install_gtk_def Let_def by (auto split: prod.splits dest!: cache_set_key)

lemma cache_neg_complete [cache_rules]: "supp_cache_ok c \<Longrightarrow> supp_cache_ok (wpa_supplicant_key_neg_complete da secure c)"
  unfolding wpa_supplicant_key_neg_complete_def Let_def by (auto intro!: cache_rules split: option.split)

lemma cache_pairwise_gtk: "wpa_supplicant_pairwise_gtk E key gtk info c = (r, c') \<Longrightarrow> supp_cache_ok c \<Longrightarrow> supp_cache_ok c'"
  unfolding wpa_supplicant_pairwise_gtk_def Let_def
  by (auto split: if_splits option.splits prod.splits intro!: cache_rules dest!: cache_install_gtk)

lemma cache_finish [cache_rules]:
  assumes "supp_cache_ok c"
  shows "supp_cache_ok (supp_finish_3_of_4 E key info ie c)"
proof -
  define c1 where "c1 = upd_w (\<lambda>s. s\<lparr>w_renew_snonce := True\<rparr>) c"
  obtain ret c2 where i: "(if info_has info WPA_KEY_INFO_INSTALL then wpa_supplicant_install_ptk E key c1 else (0, c1)) = (ret, c2)" by fastforce
  define c3 where "c3 = (if info_has info WPA_KEY_INFO_SECURE then
      call (S_notify (N_portValid True)) (call (S_setprotection (w_bssid (sc_sm c2)) MLME_SETPROTECTION_PROTECT_TYPE_RX MLME_SETPROTECTION_KEY_TYPE_PAIRWISE) c2)
    else c2)"
  define c4 where "c4 = call (S_set_state WPA_GROUP_HANDSHAKE) c3"
  have "supp_cache_ok c1" unfolding c1_def by (rule cache_upd[OF _ assms]) (simp add: cache_view_def)
  then have c2: "supp_cache_ok c2" using i cache_install_ptk by (auto split: if_splits)
  then have c4: "supp_cache_ok c4" by (auto simp: c4_def c3_def intro!: cache_rules)
  have g: "supp_cache_ok (snd (wpa_supplicant_pairwise_gtk E key gtk info c4))" for gtk by (metis prod.collapse cache_pairwise_gtk c4)
  show ?thesis
    unfolding supp_finish_3_of_4_def Let_def c1_def[symmetric] i prod.case c3_def[symmetric] c4_def[symmetric]
    using c2 c4 g by (auto split: option.split simp: split_beta intro!: cache_rules)
qed

lemma cache_validate: "wpa_supplicant_validate_ie E ie c = (r, c') \<Longrightarrow> supp_cache_ok c \<Longrightarrow> supp_cache_ok c'"
  unfolding wpa_supplicant_validate_ie_def supp_beacon_ies_def wpa_report_ie_mismatch_def Let_def
  by (auto split: if_splits option.splits intro!: cache_rules simp: cache_view_def)

lemma cache_3_of_4 [cache_rules]: "supp_cache_ok c \<Longrightarrow> supp_cache_ok (wpa_supplicant_process_3_of_4 E key ver c)"
  unfolding wpa_supplicant_process_3_of_4_def Let_def
  by (auto split: prod.splits intro!: cache_rules dest!: cache_validate cache_send(2))

lemma cache_1_of_2 [cache_rules]: "supp_cache_ok c \<Longrightarrow> supp_cache_ok (wpa_supplicant_process_1_of_2 E key len ver c)"
  unfolding wpa_supplicant_process_1_of_2_def Let_def
  by (auto split: prod.splits option.splits intro!: cache_rules dest!: cache_install_gtk cache_send(3))

lemma cache_verify: "wpa_supplicant_verify_eapol_key_mic E ver len tmp c = (ok, tmp', c') \<Longrightarrow> supp_cache_ok c \<Longrightarrow> supp_cache_ok c'"
  unfolding wpa_supplicant_verify_eapol_key_mic_def Let_def
  by (auto split: if_splits prod.splits intro!: cache_rules simp: cache_view_def)

lemma cache_decrypt: "wpa_supplicant_decrypt_key_data E ver tmp c = Some (ok, tmp', c') \<Longrightarrow> supp_cache_ok c \<Longrightarrow> supp_cache_ok c'"
  unfolding wpa_supplicant_decrypt_key_data_def Let_def supp_malloc_eq by (auto split: if_splits option.splits intro!: cache_rules)

lemma cache_dispatch: "supp_dispatch E src info ver tmp c = (r, c') \<Longrightarrow> supp_cache_ok c \<Longrightarrow> supp_cache_ok c'"
  unfolding supp_dispatch_def by (auto split: if_splits intro!: cache_rules)

lemma cache_after_mic: "supp_after_mic E src info ver n tmp c = Some (r, c') \<Longrightarrow> supp_cache_ok c \<Longrightarrow> supp_cache_ok c'"
  unfolding supp_after_mic_def by (auto split: if_splits option.splits dest!: cache_decrypt cache_dispatch)

lemma cache_rx:
  assumes "wpa_sm_rx_eapol E src buf c = Some (r, c')" "supp_cache_ok c"
  shows "supp_cache_ok c'"
proof -
  have "supp_cache_ok (call S_malloc c)" "supp_cache_ok (call (S_notify N_lower_layer_success) (call S_malloc c))" using assms(2) by (auto intro!: cache_rules)
  then show ?thesis
    using assms unfolding wpa_sm_rx_eapol_def Let_def supp_malloc_eq prod.case
    by (auto split: if_splits prod.splits dest!: cache_after_mic dest: cache_verify)
qed

section \<open>Runs of the station\<close>

text \<open>Everything that can happen to the machine: the steps between associations, and the calls of its owner.\<close>

inductive supp_event :: "supp_env \<Rightarrow> supp_ctx \<Rightarrow> supp_ctx \<Rightarrow> bool" for E where
  step: "supp_step E c c' \<Longrightarrow> supp_event E c c'"
| assoc: "supp_event E c (wpa_sm_notify_assoc bssid c)"
| set_pmk: "supp_event E c (wpa_sm_set_pmk pmk c)"
| set_config: "supp_event E c (wpa_sm_set_config config c)"
| set_current: "supp_pmksa_set_current E pmkid bssid' nctx try c = Some (ret, c') \<Longrightarrow> supp_event E c c'"
| clear_current: "supp_event E c (supp_pmksa_clear_current c)"
| set_param: "wpa_sm_set_param param val (sc_sm c) = (ret, sm) \<Longrightarrow> supp_event E c (c\<lparr>sc_sm := sm\<rparr>)"
| own_ie: "wpa_sm_set_assoc_wpa_ie E ie c = (ret, c') \<Longrightarrow> supp_event E c c'"
| own_ie_default: "wpa_sm_set_assoc_wpa_ie_default E len c = (ie', c') \<Longrightarrow> supp_event E c c'"
| ap_wpa_ie: "wpa_sm_set_ap_wpa_ie E ie c = (ret, c') \<Longrightarrow> supp_event E c c'"
| ap_rsn_ie: "wpa_sm_set_ap_rsn_ie E ie c = (ret, c') \<Longrightarrow> supp_event E c c'"
| drop_sa: "supp_event E c (wpa_sm_drop_sa c)"

lemma cache_key_request [cache_rules]: "supp_cache_ok c \<Longrightarrow> supp_cache_ok (wpa_sm_key_request E err pw c)"
  unfolding wpa_sm_key_request_def Let_def
  by (auto simp only: split: option.split prod.split) (auto intro!: cache_rules simp: cache_view_def dest!: cache_reply)

lemma cache_preauth [cache_rules]: "supp_cache_ok c \<Longrightarrow> supp_cache_ok (rsn_preauth_deinit c)"
  unfolding rsn_preauth_deinit_def by (auto intro!: cache_rules simp: cache_view_def)

lemma cache_supp_step: "supp_step E c c' \<Longrightarrow> supp_cache_ok c \<Longrightarrow> supp_cache_ok c'"
  by (erule supp_step.cases)
    (auto intro!: cache_rules cache_expire dest: cache_rx simp: wpa_sm_rekey_ptk_def supp_pmksa_reauth_def wpa_sm_aborted_cached_def
      wpa_sm_notify_disassoc_def cache_view_def Let_def)

lemma entries_ok_reconfig: "entries_ok es n \<Longrightarrow> entries_ok (map (\<lambda>e. e\<lparr>p_network_ctx := x\<rparr>) es) n"
  by (simp add: entries_ok_def comp_def)

lemma cache_reconfig [cache_rules]: "supp_cache_ok c \<Longrightarrow> supp_cache_ok (supp_pmksa_notify_reconfig c)"
  by (auto simp: supp_cache_ok_def supp_pmksa_notify_reconfig_def entries_ok_reconfig image_image)

lemma cache_set_ie:
  assumes "\<And>ie s. cache_view (put ie s) = cache_view s" "supp_set_ie E put ie c = (r, c')" "supp_cache_ok c"
  shows "supp_cache_ok c'"
  using assms unfolding supp_set_ie_def supp_malloc_eq by (auto split: option.splits if_splits intro!: cache_rules)

lemma cache_ies:
  "wpa_sm_set_assoc_wpa_ie E ie c = (r, c') \<Longrightarrow> supp_cache_ok c \<Longrightarrow> supp_cache_ok c'"
  "wpa_sm_set_ap_wpa_ie E ie c = (r, c') \<Longrightarrow> supp_cache_ok c \<Longrightarrow> supp_cache_ok c'"
  "wpa_sm_set_ap_rsn_ie E ie c = (r, c') \<Longrightarrow> supp_cache_ok c \<Longrightarrow> supp_cache_ok c'"
  unfolding wpa_sm_set_assoc_wpa_ie_def wpa_sm_set_ap_wpa_ie_def wpa_sm_set_ap_rsn_ie_def
  using cache_set_ie[of "\<lambda>ie s. s\<lparr>w_assoc_wpa_ie := ie\<rparr>" E ie c r c'] cache_set_ie[of "\<lambda>ie s. s\<lparr>w_ap_wpa_ie := ie\<rparr>" E ie c r c']
    cache_set_ie[of "\<lambda>ie s. s\<lparr>w_ap_rsn_ie := ie\<rparr>" E ie c r c'] by (simp_all add: cache_view_def)

lemma cache_default: "wpa_sm_set_assoc_wpa_ie_default E len c = (r, c') \<Longrightarrow> supp_cache_ok c \<Longrightarrow> supp_cache_ok c'"
  unfolding wpa_sm_set_assoc_wpa_ie_default_def supp_malloc_eq
  by (auto split: option.splits if_splits intro!: cache_rules simp: cache_view_def)

lemma cache_param: "wpa_sm_set_param p v (sc_sm c) = (r, sm) \<Longrightarrow> supp_cache_ok c \<Longrightarrow> supp_cache_ok (c\<lparr>sc_sm := sm\<rparr>)"
  unfolding wpa_sm_set_param_def by (auto split: wpa_sm_conf_params.splits if_splits simp: supp_cache_ok_def)

lemma cache_config: "supp_cache_ok c \<Longrightarrow> supp_cache_ok (wpa_sm_set_config config c)"
  unfolding wpa_sm_set_config_def Let_def by (auto split: option.split intro!: cache_rules simp: cache_view_def)

lemma cache_assoc: "supp_cache_ok c \<Longrightarrow> supp_cache_ok (wpa_sm_notify_assoc bssid c)"
  unfolding wpa_sm_notify_assoc_def Let_def by (auto intro!: cache_rules simp: cache_view_def)

lemma cache_event: "supp_event E c c' \<Longrightarrow> supp_cache_ok c \<Longrightarrow> supp_cache_ok c'"
  by (induction rule: supp_event.induct)
    (auto intro: cache_supp_step cache_assoc cache_config cache_set_current cache_param cache_ies cache_default
      intro!: cache_rules simp: wpa_sm_set_pmk_def supp_pmksa_clear_current_def wpa_sm_drop_sa_def cache_view_def)

definition supp_start :: supp_ctx where "supp_start = \<lparr>sc_sm = wpa_sm_init, sc_tr = [], sc_next = 0\<rparr>"

lemma cache_start: "supp_cache_ok supp_start"
  by (simp add: supp_start_def wpa_sm_init_def supp_cache_ok_def entries_ok_def supp_pmksa_max_entries_def)

lemma cache_run: "(supp_event E)\<^sup>*\<^sup>* supp_start c \<Longrightarrow> supp_cache_ok c"
  by (induction rule: rtranclp_induct) (auto intro: cache_event cache_start)


section \<open>Opportunistic key caching\<close>

lemma find_hd: "List.find P (x # xs) = Some y \<Longrightarrow> (P x \<longleftrightarrow> y = x)"
  by (auto split: if_splits dest: find_Some)

lemma add_new_entries:
  assumes "supp_cache_ok c" "\<And>tr. SE_malloc E tr" "aa \<notin> p_aa ` set (w_pmksa (sc_sm c))" "length pmk \<le> PMK_LEN"
  obtains e c' where "supp_pmksa_add E pmk aa spa nctx akmp c = (Some (p_addr e), c')" "p_addr e \<notin> p_addr ` set (w_pmksa (sc_sm c))"
    "set (w_pmksa (sc_sm c')) = insert e (set (if length (w_pmksa (sc_sm c)) = 32 then tl (w_pmksa (sc_sm c)) else w_pmksa (sc_sm c)))"
proof -
  define c1 where "c1 = (call S_malloc c)\<lparr>sc_next := Suc (sc_next c)\<rparr>"
  define e where "e = supp_new_entry E (sc_sm c) (sc_next c) pmk aa spa nctx akmp"
  have c1: "supp_cache_ok c1" "sc_sm c1 = sc_sm c"
    using assms(1) entries_ok_mono[of "w_pmksa (sc_sm c)" "sc_next c"] by (auto simp: c1_def supp_cache_ok_def)
  have f: "List.find (\<lambda>p. p_aa p = aa) (w_pmksa (sc_sm c)) = None" using assms(3) by (auto simp: find_None_iff)
  have a: "supp_pmksa_add E pmk aa spa nctx akmp c = (Some (p_addr e), supp_link_entry E e (supp_make_room c1))"
    using assms(2,4) f unfolding supp_pmksa_add_def supp_malloc_eq Let_def prod.case supp_ctx_simps c1_def e_def by simp
  note r = make_room_eq[OF c1(1), unfolded c1(2)]
  have fresh: "p_addr e \<notin> p_addr ` set (w_pmksa (sc_sm c))" using assms(1) by (auto simp: e_def supp_new_entry_def supp_cache_ok_def entries_ok_def)
  have sub: "set (w_pmksa (sc_sm (supp_make_room c1))) \<subseteq> set (w_pmksa (sc_sm c))" using r(3) by (auto dest: list.set_sel(2)[rotated])
  have p: "p_addr e < sc_next (supp_make_room c1)" "length (p_pmk e) = PMK_LEN" "p_pmk_len e \<le> PMK_LEN" "p_aa e = aa"
    using r(2) assms(4) by (auto simp: e_def supp_new_entry_def c1_def)
  have q: "p_addr e \<notin> p_addr ` set (w_pmksa (sc_sm (supp_make_room c1)))" "p_aa e \<notin> p_aa ` set (w_pmksa (sc_sm (supp_make_room c1)))"
    using sub fresh assms(3) p(4) by auto
  from link_ok(2)[OF r(1,4) p(1) q p(2,3), where E = E] that[OF a fresh] r(3) show thesis by simp
qed


definition ex_full :: supp_ctx where
  "ex_full = \<lparr>sc_sm = wpa_sm_init\<lparr>w_pmksa := map (\<lambda>i. supp_new_entry ex_supp_env wpa_sm_init i [] [of_nat i] [] (Some 7) 1) [0..<32], w_pmksa_count := 32\<rparr>,
     sc_tr = [], sc_next = 32\<rparr>"



end
