(* ===== verification/Handshake.thy ===== *)
theory Handshake
  imports Crypto_Env Supp_Safety
begin

unbundle bit_operations_syntax

text \<open>
  The two ends of the four-way handshake put together: the frames that the authenticator of \<open>Wpa_Auth\<close> sends are
  received by the station of \<open>Wpa_Supp\<close>, and its replies go back. Both run the cryptographic routines of
  the repository, possibly on machines of different byte order.
\<close>

section \<open>Frames\<close>

text \<open>A key frame from its fields, with the MIC and what follows it.\<close>

definition frame_bytes :: "u8 \<Rightarrow> u8 \<Rightarrow> u16 \<Rightarrow> u16 \<Rightarrow> bytes \<Rightarrow> bytes \<Rightarrow> bytes \<Rightarrow> bytes \<Rightarrow> nat \<Rightarrow> bytes \<Rightarrow> bytes \<Rightarrow> bytes" where
  "frame_bytes version type info key_len counter nonce iv rsc plen mic rest =
     [version, 3] @ WPA_PUT_BE16 (of_nat plen) @ [type] @ WPA_PUT_BE16 info @ WPA_PUT_BE16 key_len @ counter @ nonce @ iv @ rsc @ replicate 8 0 @
     mic @ rest"

lemma eapol_key_frame_bytes:
  "eapol_key_frame version type info key_len counter nonce iv rsc data =
     frame_bytes version type info key_len counter nonce iv rsc (95 + length data) (replicate 16 0) (WPA_PUT_BE16 (of_nat (length data)) @ data)"
  by (simp add: eapol_key_frame_def frame_bytes_def)

lemma frame_bytes_fields:
  assumes "frame_parts_ok counter nonce iv rsc" "length mic = 16" and f: "f = frame_bytes version type info key_len counter nonce iv rsc plen mic rest"
  shows "length f = 97 + length rest" "f ! 1 = 3" "WPA_GET_BE16 (drop 2 f) = of_nat plen" "key_type f = type" "key_info_of f = info"
    "key_length_field f = key_len" "key_replay_counter f = counter" "key_nonce f = nonce" "key_iv f = iv" "key_rsc f = rsc" "key_mic f = mic"
    "drop 97 f = rest"
  using assms(1,2) unfolding f frame_bytes_def frame_parts_ok_def
  by (simp_all add: key_type_def key_info_of_def key_length_field_def key_replay_counter_def key_nonce_def key_iv_def key_rsc_def key_mic_def nth_append)

lemma frame_bytes_mic:
  assumes "frame_parts_ok counter nonce iv rsc" "length mic = 16" "length mic' = 16"
  shows "memput (frame_bytes version type info key_len counter nonce iv rsc plen mic rest) 81 mic' =
    frame_bytes version type info key_len counter nonce iv rsc plen mic' rest"
proof -
  let ?front = "[version, 3] @ WPA_PUT_BE16 (of_nat plen) @ [type] @ WPA_PUT_BE16 info @ WPA_PUT_BE16 key_len @ counter @ nonce @ iv @ rsc @ replicate 8 0"
  have "length ?front = 81" using assms(1) by (simp add: frame_parts_ok_def)
  then have "memput (?front @ mic @ rest) 81 mic' = ?front @ mic' @ rest"
    using assms(2,3) by (simp add: memput_def del: append_assoc add: append_assoc[symmetric])
  then show ?thesis by (simp add: frame_bytes_def)
qed

lemma frame_bytes_data:
  assumes "frame_parts_ok counter nonce iv rsc" "length mic = 16" "length data < 2 ^ 16"
    and f: "f = frame_bytes version type info key_len counter nonce iv rsc plen mic (WPA_PUT_BE16 (of_nat (length data)) @ data @ after)"
  shows "key_data_length f = length data" "key_data f = data" "drop 99 f = data @ after" "WPA_GET_BE16 (drop 97 f) = of_nat (length data)"
proof -
  have d: "drop 97 f = WPA_PUT_BE16 (of_nat (length data)) @ data @ after" by (rule frame_bytes_fields(12)[OF assms(1,2) f])
  then show "WPA_GET_BE16 (drop 97 f) = of_nat (length data)" by simp
  then show k: "key_data_length f = length data" using assms(3) by (simp add: key_data_length_def unat_of_nat)
  have "drop 2 (drop 97 f) = data @ after" unfolding d by simp
  then show "drop 99 f = data @ after" by simp
  then show "key_data f = data" by (simp add: key_data_def k)
qed

section \<open>The station over the cryptography of the repository\<close>

definition supp_crypto :: "bool \<Rightarrow> (nat \<Rightarrow> u8) \<Rightarrow> supp_env \<Rightarrow> supp_env" where
  "supp_crypto be junk E = E\<lparr>SE_sha1_prf := sha1_prf be junk, SE_hmac_md5 := hmac_md5 be junk, SE_hmac_sha1 := hmac_sha1 be junk,
     SE_aes_unwrap := (\<lambda>k n d. case aes_unwrap True k n d of (ret, plain) \<Rightarrow> if ret \<noteq> 0 then None else Some plain), SE_rc4_skip := rc4_skip\<rparr>"

lemma supp_crypto_simps [simp]:
  "SE_sha1_prf (supp_crypto be junk E) = sha1_prf be junk" "SE_hmac_md5 (supp_crypto be junk E) = hmac_md5 be junk"
  "SE_hmac_sha1 (supp_crypto be junk E) = hmac_sha1 be junk" "SE_rc4_skip (supp_crypto be junk E) = rc4_skip"
  "SE_aes_unwrap (supp_crypto be junk E) k n d = (case aes_unwrap True k n d of (ret, plain) \<Rightarrow> if ret \<noteq> 0 then None else Some plain)"
  "SE_malloc (supp_crypto be junk E) = SE_malloc E" "SE_set_key (supp_crypto be junk E) = SE_set_key E" "SE_random (supp_crypto be junk E) = SE_random E"
  "SE_network_ctx (supp_crypto be junk E) = SE_network_ctx E" "SE_eapol_version (supp_crypto be junk E) = SE_eapol_version E"
  "SE_beacon_ie (supp_crypto be junk E) = SE_beacon_ie E"
  by (simp_all add: supp_crypto_def)

lemma supp_crypto_hmac: "supp_hmac_ok (supp_crypto be junk E)"
  by (simp add: supp_hmac_ok_def hmac_md5_def hmac_sha1_def hmac_md5_total hmac_sha1_total)

text \<open>Both ends compute the same MIC and the same keys, those of the standards.\<close>

lemma frame_mic_standard:
  "length f < 2 ^ 31 \<Longrightarrow> len = length f \<Longrightarrow> 97 \<le> length f \<Longrightarrow>
   frame_mic (supp_crypto be junk E) ptk ver len f = standard_mic (kck ptk) ver (memput f 81 (replicate 16 0))"
  by (simp add: frame_mic_def mic_standard)

lemma standard_mic_length: "standard_mic key ver f = Some mic \<Longrightarrow> length mic = 16"
  using hm.hmac_length hs.hmac_length by (auto simp: standard_mic_def split: if_splits)

text \<open>A frame of the station with the MIC of the standard is accepted by the authenticator.\<close>

lemma frame_verifies:
  assumes "frame_parts_ok counter nonce iv rsc" "frame = eapol_key_frame version type info key_len counter nonce iv rsc data" "length data < 2 ^ 16"
    "info AND WPA_KEY_INFO_TYPE_MASK = ver" "standard_mic (kck ptk) ver frame = Some mic"
  shows "wpa_verify_key_mic (with_crypto be junk mem E) ptk (memput frame 81 mic)"
proof -
  note f = mic_frame_fields[OF assms(1,2) standard_mic_length[OF assms(5)]]
  have "length frame < 2 ^ 31" using assms(1,3) by (simp add: assms(2) eapol_key_frame_def frame_parts_ok_def)
  then show ?thesis unfolding wpa_verify_key_mic_def f(2,5,6,8) assms(4) using assms(5) by (simp add: EAPOL_KEY_LEN_def mic_standard)
qed

section \<open>The handler of message 3\<close>

lemma info_3: "info_has 0x13ca WPA_KEY_INFO_ENCR_KEY_DATA" "info_has 0x13ca WPA_KEY_INFO_INSTALL" "info_has 0x13ca WPA_KEY_INFO_SECURE"
  "info_has 0x13ca WPA_KEY_INFO_MIC" "info_has 0x13ca WPA_KEY_INFO_KEY_TYPE" "\<not> info_has 0x13ca WPA_KEY_INFO_KEY_INDEX_MASK"
  "info_has 0x13ca (WPA_KEY_INFO_ACK OR WPA_KEY_INFO_SMK_MESSAGE)" "\<not> info_has 0x13ca WPA_KEY_INFO_REQUEST"
  "0x13ca AND WPA_KEY_INFO_TYPE_MASK = WPA_KEY_INFO_TYPE_HMAC_SHA1_AES"
  "0x13ca AND WPA_KEY_INFO_SECURE OR WPA_KEY_INFO_TYPE_HMAC_SHA1_AES OR WPA_KEY_INFO_KEY_TYPE OR WPA_KEY_INFO_MIC = 0x30a"
  by code_simp+

lemma info_4: "(0x30a :: u16) AND WPA_KEY_INFO_TYPE_MASK = WPA_KEY_INFO_TYPE_HMAC_SHA1_AES"
  by code_simp

text \<open>The two keys for the driver: the temporal key and the group key.\<close>

definition installed :: "macaddr \<Rightarrow> bytes \<Rightarrow> int \<Rightarrow> bytes \<Rightarrow> bytes \<Rightarrow> supp_act list" where
  "installed bssid ptk idx rsc gtk = [S_set_key WPA_ALG_CCMP (Some bssid) 0 True (replicate 6 0) (take 16 (drop 32 ptk)),
     S_set_key WPA_ALG_CCMP (Some (replicate 6 0xff)) idx False (take 6 rsc) gtk]"

text \<open>A station with CCMP that knows the access point.\<close>

definition ccmp_station :: "wpa_sm \<Rightarrow> bool" where
  "ccmp_station sm \<longleftrightarrow> w_proto sm = WPA_PROTO_RSN \<and> w_pairwise_cipher sm = WPA_CIPHER_CCMP \<and> w_group_cipher sm = WPA_CIPHER_CCMP \<and>
     \<not> is_zero_ether_addr (w_bssid sm) \<and> w_cur_pmksa sm = None"

definition add_tr :: "supp_act list \<Rightarrow> supp_ctx \<Rightarrow> supp_ctx" where
  "add_tr tr c = c\<lparr>sc_tr := sc_tr c @ tr\<rparr>"

lemma add_tr_simps [simp]:
  "add_tr u (add_tr v c) = add_tr (v @ u) c" "sc_sm (add_tr tr c) = sc_sm c" "sc_tr (add_tr tr c) = sc_tr c @ tr" "add_tr [] c = c"
  by (simp_all add: add_tr_def)

lemma call_add_tr: "call a c = add_tr [a] c"
  by (simp add: call_def add_tr_def)

lemma set_keys_cases [simp]: "set_keys [] = []" "set_keys (a # tr) = (if is_set_key a then a # set_keys tr else set_keys tr)"
  by (simp_all add: set_keys_def)

lemma install_ptk_ccmp:
  assumes "ccmp_station (sc_sm c)" "\<And>tr. SE_set_key E tr = 0"
  obtains tr where "wpa_supplicant_install_ptk E key c = (0, add_tr tr c)"
    "set_keys tr = [S_set_key WPA_ALG_CCMP (Some (w_bssid (sc_sm c))) 0 True (replicate 6 0) (take 16 (drop 32 (w_ptk (sc_sm c))))]"
proof -
  let ?k = "S_set_key WPA_ALG_CCMP (Some (w_bssid (sc_sm c))) 0 True (replicate 6 0) (take 16 (drop 32 (w_ptk (sc_sm c))))"
  let ?tr = "?k # (if w_wpa_ptk_rekey (sc_sm c) \<noteq> 0 then [S_cancel ST_rekey_ptk, S_register ST_rekey_ptk (w_wpa_ptk_rekey (sc_sm c))] else [])"
  have n: "WPA_CIPHER_CCMP \<noteq> WPA_CIPHER_NONE" by (simp add: wpa_const_defs)
  show thesis
    by (rule that[of ?tr])
      (use assms n in \<open>simp_all add: wpa_supplicant_install_ptk_def ccmp_station_def wpa_sm_set_key_def Let_def call_add_tr\<close>)
qed

definition complete_acts :: "wpa_sm \<Rightarrow> macaddr \<Rightarrow> bool \<Rightarrow> supp_act list" where
  "complete_acts sm da sec = [S_cancel_auth_timeout, S_set_state WPA_COMPLETED] @ (if sec then
     [S_setprotection da MLME_SETPROTECTION_PROTECT_TYPE_RX_TX MLME_SETPROTECTION_KEY_TYPE_PAIRWISE, S_notify (N_portValid True)] @
     (if wpa_key_mgmt_wpa_psk (w_key_mgmt sm) then [S_notify (N_eap_success True)] else []) @ [S_register ST_start_preauth 1] else [])"

lemma neg_complete_eq: "w_cur_pmksa (sc_sm c) = None \<Longrightarrow> wpa_supplicant_key_neg_complete da sec c = add_tr (complete_acts (sc_sm c) da sec) c"
  by (simp add: wpa_supplicant_key_neg_complete_def supp_current_def complete_acts_def Let_def call_add_tr)

lemma pairwise_gtk_ccmp:
  assumes "ccmp_station (sc_sm c)" "\<And>tr. SE_set_key E tr = 0" "length gtk = 16" "k AND 4 = 0"
  obtains tr where "wpa_supplicant_pairwise_gtk E key ([k, 0] @ gtk) info c = (0, add_tr tr c)"
    "set_keys tr = [S_set_key WPA_ALG_CCMP (Some (replicate 6 0xff)) (uint (k AND 3)) False (take 6 (key_rsc key)) gtk]" "S_set_state WPA_COMPLETED \<in> set tr"
proof -
  let ?k = "S_set_key WPA_ALG_CCMP (Some (replicate 6 0xff)) (uint (k AND 3)) False (take 6 (key_rsc key)) gtk"
  let ?tr = "?k # complete_acts (sc_sm c) (w_bssid (sc_sm c)) (info_has info WPA_KEY_INFO_SECURE)"
  have g: "take 16 (memput (replicate 32 0) 0 gtk) = gtk" using assms(3) by (simp add: memput_def)
  have n: "WPA_CIPHER_CCMP \<noteq> WPA_CIPHER_NONE" "WPA_CIPHER_CCMP \<noteq> WPA_CIPHER_TKIP" by (simp_all add: wpa_const_defs)
  have i: "wpa_supplicant_install_gtk E (gtk_of_kde (sc_sm c) ([k, 0] @ gtk) (6, WPA_ALG_CCMP)) (key_rsc key) c = (0, add_tr [?k] c)"
    using assms g n by (simp add: wpa_supplicant_install_gtk_def gtk_of_kde_def wpa_supplicant_gtk_tx_bit_workaround_def ccmp_station_def
        wpa_sm_set_key_def Let_def call_add_tr)
  have cg: "wpa_supplicant_check_group_cipher (w_group_cipher (sc_sm c)) (int (length ([k, 0] @ gtk) - 2)) (int (length ([k, 0] @ gtk) - 2)) = Some (6, WPA_ALG_CCMP)"
    using assms(1,3) by (simp add: wpa_supplicant_check_group_cipher_def ccmp_station_def)
  have l: "\<not> (length ([k, 0] @ gtk) < 2 \<or> length ([k, 0] @ gtk) - 2 > 32)" using assms(3) by simp
  have c: "w_cur_pmksa (sc_sm c) = None" using assms(1) by (simp add: ccmp_station_def)
  have "wpa_supplicant_pairwise_gtk E key ([k, 0] @ gtk) info c = (0, add_tr ?tr c)"
    unfolding wpa_supplicant_pairwise_gtk_def Let_def cg using l i by (simp add: neg_complete_eq c)
  moreover have "set_keys (complete_acts sm da s) = []" for sm da s by (simp add: complete_acts_def)
  ultimately show thesis using that[of ?tr] by (simp add: complete_acts_def)
qed

lemma finish_3_ccmp:
  assumes "ccmp_station (sc_sm c)" "\<And>tr. SE_set_key E tr = 0" "length gtk = 16" "k AND 4 = 0" "i_gtk ie = Some ([k, 0] @ gtk)"
  obtains tr where "supp_finish_3_of_4 E key 0x13ca ie c = add_tr tr (upd_w (\<lambda>s. s\<lparr>w_renew_snonce := True\<rparr>) c)"
    "set_keys tr = installed (w_bssid (sc_sm c)) (w_ptk (sc_sm c)) (uint (k AND 3)) (key_rsc key) gtk" "S_set_state WPA_COMPLETED \<in> set tr"
proof -
  let ?c = "upd_w (\<lambda>s. s\<lparr>w_renew_snonce := True\<rparr>) c"
  have s: "ccmp_station (sc_sm ?c)" using assms(1) by (simp add: ccmp_station_def)
  obtain t1 where t1: "wpa_supplicant_install_ptk E key ?c = (0, add_tr t1 ?c)"
    "set_keys t1 = [S_set_key WPA_ALG_CCMP (Some (w_bssid (sc_sm ?c))) 0 True (replicate 6 0) (take 16 (drop 32 (w_ptk (sc_sm ?c))))]"
    by (rule install_ptk_ccmp[OF s assms(2)])
  let ?t2 = "t1 @ [S_setprotection (w_bssid (sc_sm c)) MLME_SETPROTECTION_PROTECT_TYPE_RX MLME_SETPROTECTION_KEY_TYPE_PAIRWISE, S_notify (N_portValid True),
    S_set_state WPA_GROUP_HANDSHAKE]"
  have s2: "ccmp_station (sc_sm (add_tr ?t2 ?c))" using s by simp
  obtain t3 where t3: "wpa_supplicant_pairwise_gtk E key ([k, 0] @ gtk) 0x13ca (add_tr ?t2 ?c) = (0, add_tr t3 (add_tr ?t2 ?c))"
    "set_keys t3 = [S_set_key WPA_ALG_CCMP (Some (replicate 6 0xff)) (uint (k AND 3)) False (take 6 (key_rsc key)) gtk]" "S_set_state WPA_COMPLETED \<in> set t3"
    by (rule pairwise_gtk_ccmp[OF s2 assms(2-4)])
  show thesis
    by (rule that[of "?t2 @ t3"])
      (use t1 t3 assms(5) in \<open>simp_all add: supp_finish_3_of_4_def Let_def info_3 call_add_tr installed_def\<close>)
qed

text \<open>Message 4/4: the reply of a station to a frame with key information \<open>0x13ca\<close>.\<close>

definition message_4 :: "supp_env \<Rightarrow> bytes \<Rightarrow> bytes" where
  "message_4 E counter = eapol_key_frame (SE_eapol_version E) 2 0x30a 0 counter (replicate 32 0) (replicate 16 0) (replicate 8 0) []"

lemma process_3_ccmp:
  assumes "ccmp_station (sc_sm c)" "\<And>tr. SE_set_key E tr = 0" "\<And>tr. SE_malloc E tr" "length gtk = 16" "k AND 4 = 0"
    "key_info_of f = 0x13ca" "key_length_field f = 16" "key_nonce f = w_anonce (sc_sm c)"
    "wpa_supplicant_parse_ies (key_data f) = (0, no_ies\<lparr>i_rsn_ie := Some rsn, i_gtk := Some ([k, 0] @ gtk)\<rparr>)" "w_ap_rsn_ie (sc_sm c) = Some rsn"
    "wpa_eapol_key_mic (SE_hmac_md5 E) (SE_hmac_sha1 E) (kck (w_ptk (sc_sm c))) WPA_KEY_INFO_TYPE_HMAC_SHA1_AES (message_4 E (key_replay_counter f)) = Some mic"
  obtains tr where "wpa_supplicant_process_3_of_4 E f WPA_KEY_INFO_TYPE_HMAC_SHA1_AES c = add_tr tr (upd_w (\<lambda>s. s\<lparr>w_renew_snonce := True\<rparr>) c)"
    "set_keys tr = installed (w_bssid (sc_sm c)) (w_ptk (sc_sm c)) (uint (k AND 3)) (key_rsc f) gtk" "S_set_state WPA_COMPLETED \<in> set tr"
    "S_ether_send (w_bssid (sc_sm c)) (memput (message_4 E (key_replay_counter f)) 81 mic) \<in> set tr"
proof -
  let ?ie = "no_ies\<lparr>i_rsn_ie := Some rsn, i_gtk := Some ([k, 0] @ gtk)\<rparr>"
  let ?t1 = "[S_set_state WPA_4WAY_HANDSHAKE]" and ?t2 = "[S_malloc, S_ether_send (w_bssid (sc_sm c)) (memput (message_4 E (key_replay_counter f)) 81 mic), S_notify N_tx_eapol_key]"
  note st = assms(1)[unfolded ccmp_station_def]
  have v: "wpa_supplicant_validate_ie E ?ie (add_tr ?t1 c) = (0, add_tr ?t1 c)"
    using st assms(10) by (simp add: wpa_supplicant_validate_ie_def supp_beacon_ies_def supp_ie_mismatch_def Let_def no_ies_def wpa_compare_rsn_ie_def
        WPA_PROTO_RSN_def WPA_PROTO_WPA_def)
  have s: "wpa_supplicant_send_4_of_4 E (w_bssid (sc_sm c)) f WPA_KEY_INFO_TYPE_HMAC_SHA1_AES 0x13ca [] (w_ptk (sc_sm c)) (add_tr ?t1 c) = (0, add_tr (?t1 @ ?t2) c)"
    using st assms(3,11) unfolding wpa_supplicant_send_4_of_4_def Let_def info_3(10) supp_reply_def supp_malloc_eq prod.case reply_key_length_def
    by (simp add: message_4_def[symmetric] wpa_eapol_key_send_def Let_def call_add_tr)
  have q: "ccmp_station (sc_sm (add_tr (?t1 @ ?t2) c))" using assms(1) by simp
  obtain t3 where t3: "supp_finish_3_of_4 E f 0x13ca ?ie (add_tr (?t1 @ ?t2) c) = add_tr t3 (upd_w (\<lambda>s. s\<lparr>w_renew_snonce := True\<rparr>) (add_tr (?t1 @ ?t2) c))"
    "set_keys t3 = installed (w_bssid (sc_sm c)) (w_ptk (sc_sm c)) (uint (k AND 3)) (key_rsc f) gtk" "S_set_state WPA_COMPLETED \<in> set t3"
    by (rule finish_3_ccmp[OF q assms(2,4,5), of ?ie f]) simp_all
  have "wpa_supplicant_process_3_of_4 E f WPA_KEY_INFO_TYPE_HMAC_SHA1_AES c = add_tr t3 (upd_w (\<lambda>s. s\<lparr>w_renew_snonce := True\<rparr>) (add_tr (?t1 @ ?t2) c))"
    unfolding wpa_supplicant_process_3_of_4_def Let_def call_add_tr assms(6,9) snd_conv
    using v s t3(1) st assms(7,8) by (simp add: info_3 wpa_const_defs)
  also have "\<dots> = add_tr (?t1 @ ?t2 @ t3) (upd_w (\<lambda>s. s\<lparr>w_renew_snonce := True\<rparr>) c)" by (simp add: add_tr_def upd_w_def)
  finally show thesis by (rule that) (use t3 in simp_all)
qed

section \<open>Key data of message 3\<close>

lemma frame_bytes_decrypted:
  assumes "frame_parts_ok counter nonce iv rsc" "length mic = 16" "length b \<le> length data"
  shows "memput (memput (frame_bytes version type info key_len counter nonce iv rsc plen mic (WPA_PUT_BE16 x @ data)) 99 b) 97 (WPA_PUT_BE16 y) =
    frame_bytes version type info key_len counter nonce iv rsc plen mic (WPA_PUT_BE16 y @ b @ drop (length b) data)"
proof -
  let ?front = "[version, 3] @ WPA_PUT_BE16 (of_nat plen) @ [type] @ WPA_PUT_BE16 info @ WPA_PUT_BE16 key_len @ counter @ nonce @ iv @ rsc @ replicate 8 0 @ mic"
  have f: "length ?front = 97" using assms(1,2) by (simp add: frame_parts_ok_def)
  have *: "memput (memput (fr @ WPA_PUT_BE16 x @ data) 99 b) 97 (WPA_PUT_BE16 y) = fr @ WPA_PUT_BE16 y @ b @ drop (length b) data" if "length fr = 97" for fr
    using that by (simp add: memput_def)
  show ?thesis using *[OF f] by (simp add: frame_bytes_def)
qed

lemma decrypt_ccmp:
  assumes "w_ptk_set (sc_sm c)" "SE_malloc T (sc_tr c @ [S_malloc])" "frame_parts_ok counter nonce iv rsc" "length mic = 16"
    "length data = length b + 8" "length data mod 8 = 0" "length data < 2 ^ 16" "aes_unwrap True (kek (w_ptk (sc_sm c))) (length data div 8 - 1) data = (0, b)"
  shows "wpa_supplicant_decrypt_key_data (supp_crypto be junk T) WPA_KEY_INFO_TYPE_HMAC_SHA1_AES
      (frame_bytes version type info key_len counter nonce iv rsc plen mic (WPA_PUT_BE16 (of_nat (length data)) @ data)) c =
    Some (True, frame_bytes version type info key_len counter nonce iv rsc plen mic (WPA_PUT_BE16 (of_nat (length b)) @ b @ drop (length b) data), call S_malloc c)"
proof -
  let ?f = "frame_bytes version type info key_len counter nonce iv rsc plen mic (WPA_PUT_BE16 (of_nat (length data)) @ data)"
  note d = frame_bytes_data[OF assms(3,4,7) refl, of version type info key_len plen "[]", unfolded append_Nil2]
  have l: "length ?f = 99 + length data" using frame_bytes_fields(1)[OF assms(3,4) refl] by simp
  have k: "(of_nat (length data) :: u16) - 8 = of_nat (length b)" using assms(5) by simp
  have u: "unat (of_nat (length data) :: u16) = length data" "unat (of_nat (length b) :: u16) = length b" using assms(5,7) by (simp_all only: unat_of_nat) simp_all
  have n: "length b div 8 = length data div 8 - 1" "8 * (length data div 8 - 1 + 1) = length data" "length b \<le> length data" using assms(5,6) by auto
  have v: "WPA_KEY_INFO_TYPE_HMAC_SHA1_AES \<noteq> WPA_KEY_INFO_TYPE_HMAC_MD5_RC4" by (simp add: WPA_KEY_INFO_TYPE_HMAC_MD5_RC4_def WPA_KEY_INFO_TYPE_HMAC_SHA1_AES_def)
  show ?thesis
    unfolding wpa_supplicant_decrypt_key_data_def Let_def d(4) k u n(1,2) supp_malloc_eq prod.case d(3) l
    using assms(1-4,6,8) v n(3) by (simp add: frame_bytes_decrypted)
qed

section \<open>Message 3 from the authenticator\<close>

text \<open>An authenticator that is about to send message 3/4 to a WPA2 station with CCMP, with the element \<open>rsn\<close> as its only one.\<close>

definition auth_ready :: "wpa_env \<Rightarrow> bytes \<Rightarrow> wpa_ctx \<Rightarrow> bool" where
  "auth_ready E rsn c \<longleftrightarrow> (\<forall>tr. E_malloc E tr) \<and> (\<forall>tr i r. E_get_seqnum E tr i = Some r \<longrightarrow> length r = 8) \<and>
     sm_wpa (cx_sm c) = WPA_VERSION_WPA2 \<and> sm_pairwise (cx_sm c) = WPA_CIPHER_CCMP \<and> sm_PTK_valid (cx_sm c) \<and>
     sm_key_replay (cx_sm c) \<noteq> [] \<and> length (rs_counter (hd (sm_key_replay (cx_sm c)))) = 8 \<and>
     length (sm_ANonce (cx_sm c)) = 32 \<and> length (current_gtk (cx_gr c)) = 16 \<and>
     a_wpa_ie (cx_au c) = WLAN_EID_RSN # of_nat (length rsn) # rsn \<and> length rsn < 256"

definition message_3 :: "wpa_env \<Rightarrow> wpa_ctx \<Rightarrow> bytes \<Rightarrow> bytes \<Rightarrow> bytes" where
  "message_3 E c mic data = frame_bytes (c_eapol_version (a_conf (cx_au c))) 2 0x13ca 16 (inc_byte_array (rs_counter (hd (sm_key_replay (cx_sm c)))))
     (sm_ANonce (cx_sm c)) (replicate 16 0) (group_rsc E c) (95 + length data) mic (WPA_PUT_BE16 (of_nat (length data)) @ data)"

lemma seqnum_crypto [simp]: "E_get_seqnum (with_crypto be junk mem E) = E_get_seqnum E" "group_rsc (with_crypto be junk mem E) c = group_rsc E c"
  by (simp_all add: with_crypto_def group_rsc_def)

lemma message_3_info:
  "WPA_KEY_INFO_SECURE OR WPA_KEY_INFO_MIC OR WPA_KEY_INFO_ACK OR WPA_KEY_INFO_INSTALL OR WPA_KEY_INFO_KEY_TYPE OR
    WPA_KEY_INFO_TYPE_HMAC_SHA1_AES OR WPA_KEY_INFO_ENCR_KEY_DATA = 0x13ca"
  "info_has (WPA_KEY_INFO_SECURE OR WPA_KEY_INFO_MIC OR WPA_KEY_INFO_ACK OR WPA_KEY_INFO_INSTALL OR WPA_KEY_INFO_KEY_TYPE) WPA_KEY_INFO_KEY_TYPE"
  by code_simp+

lemma message_3_parts:
  assumes "auth_ready E rsn c"
  shows "frame_parts_ok (inc_byte_array (rs_counter (hd (sm_key_replay (cx_sm c))))) (sm_ANonce (cx_sm c)) (replicate 16 0) (group_rsc E c)"
  using assms by (auto simp: auth_ready_def frame_parts_ok_def group_rsc_def split: option.split)

lemma mic_2_Some: "\<exists>mic. standard_mic key WPA_KEY_INFO_TYPE_HMAC_SHA1_AES f = Some mic"
  by (simp add: standard_mic_def WPA_KEY_INFO_TYPE_HMAC_SHA1_AES_def)

lemma message_3_sent:
  fixes be junk
  assumes r: "auth_ready E rsn c" and t: "sm_TimeoutCtr (cx_sm c) < dot11RSNAConfigPairwiseUpdateCount"
  defines "c' \<equiv> sm_WPA_PTK_PTKINITNEGOTIATING (with_crypto be junk True E) c"
  obtains data pad mic tr where
    "cx_tr c' = cx_tr c @ tr" "A_send_eapol (sm_addr (cx_sm c)) (message_3 E c mic data) (sm_pairwise_set (cx_sm c)) \<in> set tr"
    "cx_gr c' = cx_gr c" "cx_au c' = cx_au c"
    "cx_sm c' = (cx_sm c)\<lparr>sm_changed := True, sm_ptk_state := WPA_PTK_PTKINITNEGOTIATING, sm_TimeoutEvt := False,
       sm_TimeoutCtr := sm_TimeoutCtr (cx_sm c) + 1, sm_key_replay := next_key_replay (sm_key_replay (cx_sm c))\<rparr>"
    "length data = length (a_wpa_ie (cx_au c) @ gtk_kde (cx_gr c)) + length pad + 8" "length data mod 8 = 0" "length data < 400" "key_data_pad pad"
    "aes_unwrap True (kek (sm_PTK (cx_sm c))) (length data div 8 - 1) data = (0, (a_wpa_ie (cx_au c) @ gtk_kde (cx_gr c)) @ pad)"
    "standard_mic (kck (sm_PTK (cx_sm c))) WPA_KEY_INFO_TYPE_HMAC_SHA1_AES (message_3 E c (replicate 16 0) data) = Some mic"
proof -
  note a = r[unfolded auth_ready_def]
  let ?E = "with_crypto be junk True E" and ?kde = "a_wpa_ie (cx_au c) @ gtk_kde (cx_gr c)"
  let ?ki = "WPA_KEY_INFO_SECURE OR WPA_KEY_INFO_MIC OR WPA_KEY_INFO_ACK OR WPA_KEY_INFO_INSTALL OR WPA_KEY_INFO_KEY_TYPE"
  define c1 where "c1 = act A_malloc (upd_s (\<lambda>s. s\<lparr>sm_TimeoutEvt := False, sm_TimeoutCtr := sm_TimeoutCtr s + 1\<rparr>) (ptk_entry WPA_PTK_PTKINITNEGOTIATING c))"
  define c2 where "c2 = upd_s (\<lambda>s. s\<lparr>sm_key_replay := next_key_replay (sm_key_replay s)\<rparr>) (act A_malloc c1)"
  obtain data pad where d: "protect_key_data ?E WPA_KEY_INFO_TYPE_HMAC_SHA1_AES ?kde c2 = (Some (data, replicate 16 0), act A_malloc c2)"
    "length data = length ?kde + length pad + 8" "length data mod 8 = 0" "length pad < 8" "key_data_pad pad"
    "aes_unwrap True (kek (sm_PTK (cx_sm c2))) (length data div 8 - 1) data = (0, ?kde @ pad)"
    by (rule protect_unwraps[of E c2 be junk ?kde]) (use a in simp)
  have l: "length data < 400" using d(2,4) a by (simp add: gtk_kde_def wpa_add_kde_def)
  let ?f = "message_3 E c (replicate 16 0) data"
  obtain mic where m: "standard_mic (kck (sm_PTK (cx_sm c))) WPA_KEY_INFO_TYPE_HMAC_SHA1_AES ?f = Some mic" using mic_2_Some by blast
  have lf: "length ?f < 2 ^ 31" using frame_bytes_fields(1)[OF message_3_parts[OF r] length_replicate refl] l by (simp add: message_3_def)
  have s: "wpa_send_frame ?E ?ki (Some (group_rsc E c)) (Some (sm_ANonce (cx_sm c1))) ?kde (g_GN (cx_gr c1)) True c1 =
      act (A_send_eapol (sm_addr (cx_sm c)) (message_3 E c mic data) (sm_pairwise_set (cx_sm c)))
        (wpa_auth_set_eapol WPA_EAPOL_inc_EapolFramesTx True (act A_malloc c2))"
  proof -
    have sm1: "sm_wpa (cx_sm c1) = WPA_VERSION_WPA2" "sm_pairwise (cx_sm c1) = WPA_CIPHER_CCMP" "cx_au c1 = cx_au c" "sm_ANonce (cx_sm c1) = sm_ANonce (cx_sm c)"
      using a by (simp_all add: c1_def ptk_entry_def)
    have sm2: "sm_PTK_valid (cx_sm c2)" "cx_au c2 = cx_au c" "sm_PTK (cx_sm c2) = sm_PTK (cx_sm c)" "sm_addr (cx_sm c2) = sm_addr (cx_sm c)"
      "sm_pairwise_set (cx_sm c2) = sm_pairwise_set (cx_sm c)"
      "rs_counter (hd (sm_key_replay (cx_sm c2))) = inc_byte_array (rs_counter (hd (sm_key_replay (cx_sm c))))"
      using a by (simp_all add: c1_def c2_def ptk_entry_def next_key_replay_def)
    have k: "key_length_of WPA_CIPHER_CCMP = 16" by (simp add: key_length_of_def)
    have f: "eapol_key_frame (c_eapol_version (a_conf (cx_au c))) 2 0x13ca 16 (inc_byte_array (rs_counter (hd (sm_key_replay (cx_sm c)))))
        (sm_ANonce (cx_sm c)) (replicate 16 0) (group_rsc E c) data = ?f"
      by (simp only: eapol_key_frame_bytes message_3_def)
    have mm: "memput ?f 81 mic = message_3 E c mic data"
      unfolding message_3_def by (rule frame_bytes_mic[OF message_3_parts[OF r] length_replicate standard_mic_length[OF m]])
    show ?thesis
      unfolding wpa_send_frame_def Let_def os_malloc_eq prod.case sm1 simp_thms if_True if_False
      using a d(1) by (simp add: c2_def[symmetric] message_3_info or.assoc sm2 k f info_3 mic_standard[OF lf] m mm)
  qed
  have c': "c' = act (A_register (T_send_eapol (sm_addr (cx_sm c))) (if sm_TimeoutCtr (cx_sm c) = 0 then eapol_key_timeout_first else eapol_key_timeout_subseq))
      (act (A_send_eapol (sm_addr (cx_sm c)) (message_3 E c mic data) (sm_pairwise_set (cx_sm c)))
        (wpa_auth_set_eapol WPA_EAPOL_inc_EapolFramesTx True (act A_malloc c2)))"
  proof -
    have h: "sm_wpa (cx_sm c1) = WPA_VERSION_WPA2" "own_wpa_ie c1 = a_wpa_ie (cx_au c)" "cx_gr c1 = cx_gr c"
      using a by (simp_all add: c1_def ptk_entry_def own_wpa_ie_def Let_def)
    show ?thesis
      unfolding c'_def sm_WPA_PTK_PTKINITNEGOTIATING_def Let_def os_malloc_eq prod.case c1_def[symmetric]
      using a t s h by (simp add: wpa_send_eapol_def Let_def c1_def c2_def ptk_entry_def message_3_info group_rsc_def not_less)
  qed
  show thesis
    by (rule that[of "[A_malloc, A_malloc, A_malloc, A_set_eapol (sm_addr (cx_sm c)) WPA_EAPOL_inc_EapolFramesTx True,
        A_send_eapol (sm_addr (cx_sm c)) (message_3 E c mic data) (sm_pairwise_set (cx_sm c)), _]", OF _ _ _ _ _ d(2,3) l d(5)])
      (use d(6) m in \<open>simp_all add: c' c1_def c2_def ptk_entry_def wpa_auth_set_eapol_def\<close>)
qed

section \<open>Message 3 at the station\<close>

text \<open>A station in the same handshake: it waits for message 3/4 with the key of message 1/4, or it has the key in use already.\<close>

definition in_step :: "supp_env \<Rightarrow> wpa_ctx \<Rightarrow> supp_ctx \<Rightarrow> bool" where
  "in_step T c d \<longleftrightarrow> (\<forall>tr. SE_malloc T tr) \<and> (\<forall>tr. SE_set_key T tr = 0) \<and> ccmp_station (sc_sm d) \<and>
     w_ap_rsn_ie (sc_sm d) = Some (a_wpa_ie (cx_au c)) \<and> w_anonce (sc_sm d) = sm_ANonce (cx_sm c) \<and>
     (if w_tptk_set (sc_sm d) then take 48 (w_tptk (sc_sm d)) = take 48 (sm_PTK (cx_sm c))
      else w_ptk_set (sc_sm d) \<and> take 48 (w_ptk (sc_sm d)) = take 48 (sm_PTK (cx_sm c))) \<and>
     length (w_rx_replay_counter (sc_sm d)) = 8 \<and>
     (w_rx_replay_counter_set (sc_sm d) \<longrightarrow> be_val (w_rx_replay_counter (sc_sm d)) \<le> be_val (rs_counter (hd (sm_key_replay (cx_sm c)))))"

text \<open>The station after it has accepted a message 3/4.\<close>

definition accepted :: "bytes \<Rightarrow> supp_ctx \<Rightarrow> supp_ctx" where
  "accepted counter d = upd_w (\<lambda>s. s\<lparr>w_tptk_set := False, w_ptk_set := True, w_ptk := (if w_tptk_set s then w_tptk s else w_ptk s),
     w_rx_replay_counter := counter, w_rx_replay_counter_set := True, w_renew_snonce := True\<rparr>) d"

lemma same_keys:
  assumes "take 48 p = take 48 q"
  shows "kck p = kck q" "kek p = kek q" "take 16 (drop 32 p) = take 16 (drop 32 q)"
proof -
  have t: "take n (drop m p) = take n (drop m q)" if "m + n \<le> 48" for n m
  proof -
    have "min n (48 - m) = n" using that by simp
    then show ?thesis using arg_cong[OF assms, of "\<lambda>x. take n (drop m x)"] by (simp add: drop_take)
  qed
  show "kck p = kck q" using t[of 0 16] by (simp add: kck_def)
  show "kek p = kek q" using t[of 16 16] by (simp add: kek_def)
  show "take 16 (drop 32 p) = take 16 (drop 32 q)" using t[of 32 16] by simp
qed

lemma counter_increases:
  assumes "length x = 8" "length y = 8" "be_val x \<le> be_val y" "be_val y + 1 < 2 ^ 64"
  shows "\<not> memcmp (inc_byte_array y) x \<le> 0"
proof -
  have "be_val (inc_byte_array y) = be_val y + 1" using assms(2,4) by (simp add: be_val_inc)
  then show ?thesis using memcmp_be_val[of "inc_byte_array y" x] assms(1-3) by auto
qed

lemma message_3_passes:
  assumes "auth_ready E rsn c" "in_step T c d" "be_val (rs_counter (hd (sm_key_replay (cx_sm c)))) + 1 < 2 ^ 64" "length data < 400" "length mic = 16"
    and f: "f = message_3 E c mic data"
  shows "\<not> supp_not_for_us f" "\<not> supp_dropped (sc_sm d) f"
proof -
  note fb = frame_bytes_fields[OF message_3_parts[OF assms(1)] assms(5) f[unfolded message_3_def]]
  have u: "unat (95 + of_nat (length data) :: u16) = 95 + length data"
    using assms(4) unat_of_nat[of "95 + length data", where 'a = 16] by simp
  show "\<not> supp_not_for_us f" using fb u by (simp add: supp_not_for_us_def Let_def)
  have "w_rx_replay_counter_set (sc_sm d) \<Longrightarrow> \<not> memcmp (key_replay_counter f) (w_rx_replay_counter (sc_sm d)) \<le> 0"
    unfolding fb(7) using counter_increases assms(1-3) by (simp add: auth_ready_def in_step_def)
  then show "\<not> supp_dropped (sc_sm d) f" unfolding supp_dropped_def Let_def fb(5) info_3 by (simp add: info_3)
qed

text \<open>The key that the station tries first, and its state when the MIC has been verified with it.\<close>

definition trial_key :: "wpa_sm \<Rightarrow> bytes" where
  "trial_key sm = (if w_tptk_set sm then w_tptk sm else w_ptk sm)"

lemma trial_key_same: "in_step T c d \<Longrightarrow> take 48 (trial_key (sc_sm d)) = take 48 (sm_PTK (cx_sm c))"
  by (simp add: in_step_def trial_key_def split: if_splits)

lemma verified_station:
  assumes "in_step T c d" and v: "d1 = supp_verified (w_tptk_set (sc_sm d)) f (supp_entered d)"
  shows "w_ptk (sc_sm d1) = trial_key (sc_sm d)" "w_ptk_set (sc_sm d1)" "ccmp_station (sc_sm d1)" "w_anonce (sc_sm d1) = sm_ANonce (cx_sm c)"
    "w_bssid (sc_sm d1) = w_bssid (sc_sm d)" "w_ap_rsn_ie (sc_sm d1) = Some (a_wpa_ie (cx_au c))"
    "upd_w (\<lambda>s. s\<lparr>w_renew_snonce := True\<rparr>) (call S_malloc d1) = add_tr [S_malloc, S_notify N_lower_layer_success, S_malloc] (accepted (key_replay_counter f) d)"
proof -
  note i = assms(1)[unfolded in_step_def]
  show "w_ptk (sc_sm d1) = trial_key (sc_sm d)" "w_ptk_set (sc_sm d1)" "ccmp_station (sc_sm d1)" "w_anonce (sc_sm d1) = sm_ANonce (cx_sm c)"
    "w_bssid (sc_sm d1) = w_bssid (sc_sm d)" "w_ap_rsn_ie (sc_sm d1) = Some (a_wpa_ie (cx_au c))"
    using i by (auto simp: v trial_key_def supp_verified_def ccmp_station_def split: if_splits)
  show "upd_w (\<lambda>s. s\<lparr>w_renew_snonce := True\<rparr>) (call S_malloc d1) = add_tr [S_malloc, S_notify N_lower_layer_success, S_malloc] (accepted (key_replay_counter f) d)"
    using i by (auto simp: v supp_verified_def supp_entered_def accepted_def upd_w_def add_tr_def call_def intro!: supp_ctx.equality wpa_sm.equality)
qed

lemma message_3_verified:
  assumes r: "auth_ready E rsn c" and s: "in_step T c d" and n: "be_val (rs_counter (hd (sm_key_replay (cx_sm c)))) + 1 < 2 ^ 64" and l: "length data < 400"
    and m: "standard_mic (kck (sm_PTK (cx_sm c))) WPA_KEY_INFO_TYPE_HMAC_SHA1_AES (message_3 E c (replicate 16 0) data) = Some mic"
  obtains m2 where "length m2 = 16" "wpa_sm_rx_eapol (supp_crypto be junk T) src (message_3 E c mic data) d =
    supp_after_mic (supp_crypto be junk T) src 0x13ca WPA_KEY_INFO_TYPE_HMAC_SHA1_AES (length data) (message_3 E c m2 data)
      (supp_verified (w_tptk_set (sc_sm d)) (message_3 E c mic data) (supp_entered d))"
proof -
  let ?T = "supp_crypto be junk T" and ?f = "message_3 E c mic data" and ?v = WPA_KEY_INFO_TYPE_HMAC_SHA1_AES
  note i = s[unfolded in_step_def] and parts = message_3_parts[OF r] and m16 = standard_mic_length[OF m]
  note fb = frame_bytes_fields[OF parts m16 message_3_def]
  have len: "99 \<le> length ?f" "97 \<le> length ?f" "length ?f < 2 ^ 31" using fb(1) l by simp_all
  have u: "unat (WPA_GET_BE16 (drop 2 ?f) :: u16) = 95 + length data" unfolding fb(3)
    using l unat_of_nat[of "95 + length data", where 'a = 16] by simp
  have lf: "95 + length data + 4 = length ?f" using fb(1) by simp
  note pass = message_3_passes[OF r s n l m16 refl]
  have mic: "frame_mic ?T (trial_key (sc_sm d)) ?v (length ?f) ?f = Some (key_mic ?f)"
    unfolding frame_mic_standard[OF len(3) refl len(2)] same_keys(1)[OF trial_key_same[OF s]] fb(11)
    using m frame_bytes_mic[OF parts m16 length_replicate] by (simp add: message_3_def)
  have known: "knows_new ?T ?v (length ?f) ?f (sc_sm d) \<longleftrightarrow> w_tptk_set (sc_sm d)" "knows_new ?T ?v (length ?f) ?f (sc_sm d) \<or> knows_old ?T ?v (length ?f) ?f (sc_sm d)"
    using mic i by (auto simp: knows_new_def knows_old_def trial_key_def split: if_splits)
  have v: "?v = key_info_of ?f AND WPA_KEY_INFO_TYPE_MASK" by (simp add: fb(5) info_3)
  obtain m2 where m2: "length m2 = 16" "wpa_supplicant_verify_eapol_key_mic ?T ?v (length ?f) ?f (supp_entered d) =
      (True, memput ?f 81 m2, supp_verified (w_tptk_set (sc_sm d)) ?f (supp_entered d))"
    using verify_entered[OF supp_crypto_hmac pass(2) len(1) v, of be junk T "length ?f"] known by (metis (full_types))
  have tmp: "memput ?f 81 m2 = message_3 E c m2 data" unfolding message_3_def by (rule frame_bytes_mic[OF parts m16 m2(1)])
  have alloc: "SE_malloc ?T (sc_tr d @ [S_malloc])" using i by simp
  show thesis
    by (rule that[OF m2(1)], unfold rx_eq[OF len(1) alloc pass] supp_rx_rest_def fb(5) info_3 u lf m2(2)) (simp add: info_3 m2(2) tmp)
qed

text \<open>The frame with its key data decrypted, as the handler of message 3/4 gets it.\<close>

lemma message_3_handled:
  assumes r: "auth_ready E rsn c" and s: "in_step T c d" and n: "be_val (rs_counter (hd (sm_key_replay (cx_sm c)))) + 1 < 2 ^ 64"
    and d: "length data = length b + 8" "length data mod 8 = 0" "length data < 400" "aes_unwrap True (kek (sm_PTK (cx_sm c))) (length data div 8 - 1) data = (0, b)"
    and m: "standard_mic (kck (sm_PTK (cx_sm c))) WPA_KEY_INFO_TYPE_HMAC_SHA1_AES (message_3 E c (replicate 16 0) data) = Some mic"
    and d1: "d1 = supp_verified (w_tptk_set (sc_sm d)) (message_3 E c mic data) (supp_entered d)"
  obtains f where "wpa_sm_rx_eapol (supp_crypto be junk T) src (message_3 E c mic data) d =
      Some (1, wpa_supplicant_process_3_of_4 (supp_crypto be junk T) f WPA_KEY_INFO_TYPE_HMAC_SHA1_AES (call S_malloc d1))"
    "key_info_of f = 0x13ca" "key_length_field f = 16" "key_replay_counter f = inc_byte_array (rs_counter (hd (sm_key_replay (cx_sm c))))"
    "key_nonce f = sm_ANonce (cx_sm c)" "key_rsc f = group_rsc E c" "key_data f = b"
proof -
  let ?T = "supp_crypto be junk T" and ?v = WPA_KEY_INFO_TYPE_HMAC_SHA1_AES
  note parts = message_3_parts[OF r] and sm = verified_station[OF s d1]
  obtain m2 where m2: "length m2 = 16" "wpa_sm_rx_eapol ?T src (message_3 E c mic data) d = supp_after_mic ?T src 0x13ca ?v (length data) (message_3 E c m2 data) d1"
    unfolding d1 by (rule message_3_verified[OF r s n d(3) m, of be junk src])
  define f where "f = frame_bytes (c_eapol_version (a_conf (cx_au c))) 2 0x13ca 16 (inc_byte_array (rs_counter (hd (sm_key_replay (cx_sm c))))) (sm_ANonce (cx_sm c))
    (replicate 16 0) (group_rsc E c) (95 + length data) m2 (WPA_PUT_BE16 (of_nat (length b)) @ b @ drop (length b) data)"
  have l: "length data < 2 ^ 16" "length b < 2 ^ 16" using d(1,3) by simp_all
  have ub: "aes_unwrap True (kek (w_ptk (sc_sm d1))) (length data div 8 - 1) data = (0, b)" using d(4) sm(1) same_keys(2)[OF trial_key_same[OF s]] by simp
  have dec: "wpa_supplicant_decrypt_key_data ?T ?v (message_3 E c m2 data) d1 = Some (True, f, call S_malloc d1)"
    unfolding message_3_def f_def by (rule decrypt_ccmp[OF sm(2) _ parts m2(1) d(1,2) l(1) ub]) (use s in \<open>simp add: in_step_def\<close>)
  have kd: "key_data_length (message_3 E c m2 data) = length data"
    using frame_bytes_data(1)[OF parts m2(1) l(1) refl, where after = "[]"] by (simp add: message_3_def)
  note fb = frame_bytes_fields[OF parts m2(1) f_def]
  have "wpa_sm_rx_eapol ?T src (message_3 E c mic data) d = Some (1, wpa_supplicant_process_3_of_4 ?T f ?v (call S_malloc d1))"
    unfolding m2(2) using sm(3) by (simp add: info_3 supp_after_mic_def kd dec supp_dispatch_def ccmp_station_def)
  moreover have "key_data f = b" by (rule frame_bytes_data(2)[OF parts m2(1) l(2) f_def])
  ultimately show thesis using that fb by simp
qed

lemma message_3_accepted:
  assumes r: "auth_ready E rsn c" and s: "in_step T c d" and n: "be_val (rs_counter (hd (sm_key_replay (cx_sm c)))) + 1 < 2 ^ 64"
    and d: "length data = length (a_wpa_ie (cx_au c) @ gtk_kde (cx_gr c)) + length pad + 8" "length data mod 8 = 0" "length data < 400" "key_data_pad pad"
      "aes_unwrap True (kek (sm_PTK (cx_sm c))) (length data div 8 - 1) data = (0, (a_wpa_ie (cx_au c) @ gtk_kde (cx_gr c)) @ pad)"
    and m: "standard_mic (kck (sm_PTK (cx_sm c))) WPA_KEY_INFO_TYPE_HMAC_SHA1_AES (message_3 E c (replicate 16 0) data) = Some mic"
  obtains tr mic4 where
    "wpa_sm_rx_eapol (supp_crypto be junk T) src (message_3 E c mic data) d = Some (1, add_tr tr (accepted (inc_byte_array (rs_counter (hd (sm_key_replay (cx_sm c))))) d))"
    "set_keys tr = installed (w_bssid (sc_sm d)) (sm_PTK (cx_sm c)) (uint (of_nat (g_GN (cx_gr c)) AND 3 :: u8)) (group_rsc E c) (current_gtk (cx_gr c))"
    "S_set_state WPA_COMPLETED \<in> set tr"
    "S_ether_send (w_bssid (sc_sm d)) (memput (message_4 T (inc_byte_array (rs_counter (hd (sm_key_replay (cx_sm c)))))) 81 mic4) \<in> set tr"
    "standard_mic (kck (sm_PTK (cx_sm c))) WPA_KEY_INFO_TYPE_HMAC_SHA1_AES (message_4 T (inc_byte_array (rs_counter (hd (sm_key_replay (cx_sm c)))))) = Some mic4"
proof -
  let ?T = "supp_crypto be junk T" and ?v = WPA_KEY_INFO_TYPE_HMAC_SHA1_AES and ?b = "(a_wpa_ie (cx_au c) @ gtk_kde (cx_gr c)) @ pad"
  let ?ctr = "inc_byte_array (rs_counter (hd (sm_key_replay (cx_sm c))))"
  define d1 where "d1 = supp_verified (w_tptk_set (sc_sm d)) (message_3 E c mic data) (supp_entered d)"
  define d2 where "d2 = call S_malloc d1"
  note sm = verified_station[OF s d1_def] and same = same_keys[OF trial_key_same[OF s]]
  have lb: "length data = length ?b + 8" using d(1) by simp
  obtain f where rx: "wpa_sm_rx_eapol ?T src (message_3 E c mic data) d = Some (1, wpa_supplicant_process_3_of_4 ?T f ?v d2)"
    and f: "key_info_of f = 0x13ca" "key_length_field f = 16" "key_replay_counter f = ?ctr" "key_nonce f = sm_ANonce (cx_sm c)" "key_rsc f = group_rsc E c" "key_data f = ?b"
    unfolding d2_def by (rule message_3_handled[OF r s n lb d(2,3,5) m d1_def, of be junk src])
  have gtk: "length (current_gtk (cx_gr c)) = 16" and rsn: "a_wpa_ie (cx_au c) = WLAN_EID_RSN # of_nat (length rsn) # rsn" "length rsn < 256"
    using r by (simp_all add: auth_ready_def)
  define k :: u8 where "k = of_nat (g_GN (cx_gr c)) AND 3"
  have k: "k AND 4 = 0" "k AND 3 = k" by (simp_all add: k_def and.assoc)
  have "current_gtk (cx_gr c) \<noteq> []" "length (current_gtk (cx_gr c)) \<le> 32" using gtk by auto
  then have ies: "wpa_supplicant_parse_ies (key_data f) = (0, no_ies\<lparr>i_rsn_ie := Some (a_wpa_ie (cx_au c)), i_gtk := Some ([k, 0] @ current_gtk (cx_gr c))\<rparr>)"
    using supp_parse_message_3[OF rsn(2) _ _ d(4), of "current_gtk (cx_gr c)" k] f(6) by (auto simp: gtk_kde_def k_def[symmetric] rsn(1))
  obtain mic4 where mic4: "standard_mic (kck (sm_PTK (cx_sm c))) ?v (message_4 T ?ctr) = Some mic4" using mic_2_Some by blast
  have "length (message_4 T ?ctr) = 99" using r by (simp add: message_4_def eapol_key_frame_def auth_ready_def)
  then have w: "wpa_eapol_key_mic (SE_hmac_md5 ?T) (SE_hmac_sha1 ?T) (kck (w_ptk (sc_sm d2))) ?v (message_4 ?T (key_replay_counter f)) = Some mic4"
    using mic4 same(1) sm(1) f(3) by (simp add: mic_standard message_4_def d2_def)
  have ok: "ccmp_station (sc_sm d2)" "\<And>tr. SE_set_key ?T tr = 0" "\<And>tr. SE_malloc ?T tr" "key_nonce f = w_anonce (sc_sm d2)" "w_ap_rsn_ie (sc_sm d2) = Some (a_wpa_ie (cx_au c))"
    using s f(4) sm by (simp_all add: in_step_def d2_def)
  obtain tr where tr: "wpa_supplicant_process_3_of_4 ?T f ?v d2 = add_tr tr (upd_w (\<lambda>s. s\<lparr>w_renew_snonce := True\<rparr>) d2)"
    "set_keys tr = installed (w_bssid (sc_sm d2)) (w_ptk (sc_sm d2)) (uint (k AND 3)) (key_rsc f) (current_gtk (cx_gr c))" "S_set_state WPA_COMPLETED \<in> set tr"
    "S_ether_send (w_bssid (sc_sm d2)) (memput (message_4 ?T (key_replay_counter f)) 81 mic4) \<in> set tr"
    by (rule process_3_ccmp[OF ok(1-3) gtk k(1) f(1,2) ok(4) ies ok(5) w])
  have ctr: "key_replay_counter (message_3 E c mic data) = ?ctr" by (rule frame_bytes_fields(7)[OF message_3_parts[OF r] standard_mic_length[OF m] message_3_def])
  show thesis
    by (rule that[OF _ _ _ _ mic4, of "[S_malloc, S_notify N_lower_layer_success, S_malloc] @ tr"])
      (use rx tr sm(7)[folded d2_def, unfolded ctr] same(3) sm(1,5) f(3,5) k in \<open>simp_all add: installed_def k_def message_4_def d2_def\<close>)
qed

lemma message_3_exchange:
  fixes be junk
  assumes r: "auth_ready E rsn c" and s: "in_step T c d" and t: "sm_TimeoutCtr (cx_sm c) < dot11RSNAConfigPairwiseUpdateCount"
    and n: "be_val (rs_counter (hd (sm_key_replay (cx_sm c)))) + 1 < 2 ^ 64"
  defines "c' \<equiv> sm_WPA_PTK_PTKINITNEGOTIATING (with_crypto be junk True E) c"
  obtains frame reply tr tr' where
    "cx_tr c' = cx_tr c @ tr" "A_send_eapol (sm_addr (cx_sm c)) frame (sm_pairwise_set (cx_sm c)) \<in> set tr"
    "wpa_sm_rx_eapol (supp_crypto be' junk' T) src frame d = Some (1, add_tr tr' (accepted (inc_byte_array (rs_counter (hd (sm_key_replay (cx_sm c))))) d))"
    "set_keys tr' = installed (w_bssid (sc_sm d)) (sm_PTK (cx_sm c)) (uint (of_nat (g_GN (cx_gr c)) AND 3 :: u8)) (group_rsc E c) (current_gtk (cx_gr c))"
    "S_set_state WPA_COMPLETED \<in> set tr'" "S_ether_send (w_bssid (sc_sm d)) reply \<in> set tr'"
    "key_info_of reply = 0x30a" "wpa_verify_key_mic (with_crypto be junk True E) (sm_PTK (cx_sm c)) reply"
    "wpa_replay_counter_valid (cx_sm c') (key_replay_counter reply)"
    "auth_ready E rsn c'" "in_step T c' (add_tr tr' (accepted (inc_byte_array (rs_counter (hd (sm_key_replay (cx_sm c))))) d))"
    "sm_PTK (cx_sm c') = sm_PTK (cx_sm c)" "cx_gr c' = cx_gr c" "sm_addr (cx_sm c') = sm_addr (cx_sm c)" "sm_pairwise_set (cx_sm c') = sm_pairwise_set (cx_sm c)"
    "sm_TimeoutCtr (cx_sm c') = sm_TimeoutCtr (cx_sm c) + 1" "rs_counter (hd (sm_key_replay (cx_sm c'))) = inc_byte_array (rs_counter (hd (sm_key_replay (cx_sm c))))"
proof -
  let ?ctr = "inc_byte_array (rs_counter (hd (sm_key_replay (cx_sm c))))" and ?v = WPA_KEY_INFO_TYPE_HMAC_SHA1_AES
  obtain data pad mic tr where m: "cx_tr c' = cx_tr c @ tr" "A_send_eapol (sm_addr (cx_sm c)) (message_3 E c mic data) (sm_pairwise_set (cx_sm c)) \<in> set tr"
    "cx_gr c' = cx_gr c" "cx_au c' = cx_au c"
    "cx_sm c' = (cx_sm c)\<lparr>sm_changed := True, sm_ptk_state := WPA_PTK_PTKINITNEGOTIATING, sm_TimeoutEvt := False,
       sm_TimeoutCtr := sm_TimeoutCtr (cx_sm c) + 1, sm_key_replay := next_key_replay (sm_key_replay (cx_sm c))\<rparr>"
    and d: "length data = length (a_wpa_ie (cx_au c) @ gtk_kde (cx_gr c)) + length pad + 8" "length data mod 8 = 0" "length data < 400" "key_data_pad pad"
    "aes_unwrap True (kek (sm_PTK (cx_sm c))) (length data div 8 - 1) data = (0, (a_wpa_ie (cx_au c) @ gtk_kde (cx_gr c)) @ pad)"
    "standard_mic (kck (sm_PTK (cx_sm c))) ?v (message_3 E c (replicate 16 0) data) = Some mic"
    unfolding c'_def by (rule message_3_sent[OF r t, of be junk])
  obtain tr' mic4 where x: "wpa_sm_rx_eapol (supp_crypto be' junk' T) src (message_3 E c mic data) d = Some (1, add_tr tr' (accepted ?ctr d))"
    "set_keys tr' = installed (w_bssid (sc_sm d)) (sm_PTK (cx_sm c)) (uint (of_nat (g_GN (cx_gr c)) AND 3 :: u8)) (group_rsc E c) (current_gtk (cx_gr c))"
    "S_set_state WPA_COMPLETED \<in> set tr'" "S_ether_send (w_bssid (sc_sm d)) (memput (message_4 T ?ctr) 81 mic4) \<in> set tr'"
    and m4: "standard_mic (kck (sm_PTK (cx_sm c))) ?v (message_4 T ?ctr) = Some mic4"
    by (rule message_3_accepted[OF r s n d])
  have parts: "frame_parts_ok ?ctr (replicate 32 0) (replicate 16 0) (replicate 8 0)" using r by (simp add: frame_parts_ok_def auth_ready_def)
  note f = mic_frame_fields[OF parts message_4_def standard_mic_length[OF m4]]
  have hd: "rs_counter (hd (sm_key_replay (cx_sm c'))) = ?ctr" using m(5) by (simp add: next_key_replay_def)
  have "wpa_verify_key_mic (with_crypto be junk True E) (sm_PTK (cx_sm c)) (memput (message_4 T ?ctr) 81 mic4)"
    by (rule frame_verifies[OF parts message_4_def _ info_4 m4]) simp
  moreover have "wpa_replay_counter_valid (cx_sm c') (key_replay_counter (memput (message_4 T ?ctr) 81 mic4))"
    using f(3) m(5) by (simp add: wpa_replay_counter_valid_def next_key_replay_def)
  moreover have "auth_ready E rsn c'" using r m by (simp add: auth_ready_def next_key_replay_def)
  moreover have "in_step T c' (add_tr tr' (accepted ?ctr d))"
    using s m hd r by (auto simp: in_step_def accepted_def ccmp_station_def auth_ready_def split: if_splits)
  ultimately show thesis by (intro that[OF m(1,2) x]) (use f m hd in simp_all)
qed

section \<open>The end of the handshake\<close>

text \<open>C7. Message 3/4 completes the handshake. The authenticator and the station of the repository run on machines
  of any byte order with the cryptography of the repository, and are in the same handshake of a WPA2 association with
  CCMP. Then the frame that the authenticator sends when it enters PTKINITNEGOTIATING is accepted by the station,
  which hands to its driver the temporal key of the authenticator's pairwise key and the group key of the authenticator with its
  index and sequence counter, and no other key; the station declares the connection complete and sends
  message 4/4, whose MIC the authenticator verifies and whose replay counter it is waiting for.\<close>

theorem handshake_completes:
  assumes "auth_ready E rsn c" "in_step T c d" "sm_TimeoutCtr (cx_sm c) < dot11RSNAConfigPairwiseUpdateCount"
    "be_val (rs_counter (hd (sm_key_replay (cx_sm c)))) + 1 < 2 ^ 64"
    and c': "c' = sm_WPA_PTK_PTKINITNEGOTIATING (with_crypto be junk True E) c"
  shows "\<exists>frame reply d'. A_send_eapol (sm_addr (cx_sm c)) frame (sm_pairwise_set (cx_sm c)) \<in> set (drop (length (cx_tr c)) (cx_tr c')) \<and>
    wpa_sm_rx_eapol (supp_crypto be' junk' T) src frame d = Some (1, d') \<and>
    set_keys (sc_tr d') = set_keys (sc_tr d) @
      installed (w_bssid (sc_sm d)) (sm_PTK (cx_sm c)) (uint (of_nat (g_GN (cx_gr c)) AND 3 :: u8)) (group_rsc E c) (current_gtk (cx_gr c)) \<and>
    S_set_state WPA_COMPLETED \<in> set (drop (length (sc_tr d)) (sc_tr d')) \<and>
    S_ether_send (w_bssid (sc_sm d)) reply \<in> set (drop (length (sc_tr d)) (sc_tr d')) \<and>
    key_info_of reply = 0x30a \<and> wpa_verify_key_mic (with_crypto be junk True E) (sm_PTK (cx_sm c')) reply \<and>
    wpa_replay_counter_valid (cx_sm c') (key_replay_counter reply)"
proof -
  let ?d = "accepted (inc_byte_array (rs_counter (hd (sm_key_replay (cx_sm c))))) d"
  obtain frame reply tr tr' where x: "cx_tr c' = cx_tr c @ tr" "A_send_eapol (sm_addr (cx_sm c)) frame (sm_pairwise_set (cx_sm c)) \<in> set tr"
    "wpa_sm_rx_eapol (supp_crypto be' junk' T) src frame d = Some (1, add_tr tr' ?d)"
    "set_keys tr' = installed (w_bssid (sc_sm d)) (sm_PTK (cx_sm c)) (uint (of_nat (g_GN (cx_gr c)) AND 3 :: u8)) (group_rsc E c) (current_gtk (cx_gr c))"
    "S_set_state WPA_COMPLETED \<in> set tr'" "S_ether_send (w_bssid (sc_sm d)) reply \<in> set tr'"
    "key_info_of reply = 0x30a" "wpa_verify_key_mic (with_crypto be junk True E) (sm_PTK (cx_sm c)) reply"
    "wpa_replay_counter_valid (cx_sm c') (key_replay_counter reply)" "sm_PTK (cx_sm c') = sm_PTK (cx_sm c)"
    unfolding c' by (rule message_3_exchange[OF assms(1-4), of be junk be' junk' src])
  have "sc_tr ?d = sc_tr d" by (simp add: accepted_def)
  then show ?thesis using x by (intro exI[of _ frame] exI[of _ reply] exI[of _ "add_tr tr' ?d"]) simp
qed

text \<open>C10. Message 3/4 sent again reinstalls the pairwise key. When the authenticator does not receive message 4/4 and enters
  PTKINITNEGOTIATING once more, the station accepts the second frame as it did the first, and hands the same
  pairwise key to its driver a second time, with the sequence counter back at zero.\<close>

theorem message_3_again_reinstalls:
  assumes "auth_ready E rsn c" "in_step T c d" "sm_TimeoutCtr (cx_sm c) + 1 < dot11RSNAConfigPairwiseUpdateCount"
    "be_val (rs_counter (hd (sm_key_replay (cx_sm c)))) + 2 < 2 ^ 64"
    and c1: "c1 = sm_WPA_PTK_PTKINITNEGOTIATING (with_crypto be junk True E) c" and c2: "c2 = sm_WPA_PTK_PTKINITNEGOTIATING (with_crypto be junk True E) c1"
  shows "\<exists>frame1 frame2 d1 d2 gtk idx.
    A_send_eapol (sm_addr (cx_sm c)) frame1 (sm_pairwise_set (cx_sm c)) \<in> set (drop (length (cx_tr c)) (cx_tr c1)) \<and>
    A_send_eapol (sm_addr (cx_sm c)) frame2 (sm_pairwise_set (cx_sm c)) \<in> set (drop (length (cx_tr c1)) (cx_tr c2)) \<and>
    wpa_sm_rx_eapol (supp_crypto be' junk' T) src frame1 d = Some (1, d1) \<and> wpa_sm_rx_eapol (supp_crypto be' junk' T) src frame2 d1 = Some (1, d2) \<and>
    set_keys (sc_tr d1) = set_keys (sc_tr d) @
      [S_set_key WPA_ALG_CCMP (Some (w_bssid (sc_sm d))) 0 True (replicate 6 0) (take 16 (drop 32 (sm_PTK (cx_sm c)))),
       S_set_key WPA_ALG_CCMP (Some (replicate 6 0xff)) idx False (take 6 (group_rsc E c)) gtk] \<and>
    set_keys (sc_tr d2) = set_keys (sc_tr d1) @
      [S_set_key WPA_ALG_CCMP (Some (w_bssid (sc_sm d))) 0 True (replicate 6 0) (take 16 (drop 32 (sm_PTK (cx_sm c)))),
       S_set_key WPA_ALG_CCMP (Some (replicate 6 0xff)) idx False (take 6 (group_rsc E c1)) gtk]"
proof -
  let ?ctr = "inc_byte_array (rs_counter (hd (sm_key_replay (cx_sm c))))"
  let ?i = "uint (of_nat (g_GN (cx_gr c)) AND 3 :: u8)" and ?g = "current_gtk (cx_gr c)"
  have n1: "sm_TimeoutCtr (cx_sm c) < dot11RSNAConfigPairwiseUpdateCount" "be_val (rs_counter (hd (sm_key_replay (cx_sm c)))) + 1 < 2 ^ 64" using assms(3,4) by simp_all
  obtain frame1 tr1 t1 where x: "cx_tr c1 = cx_tr c @ tr1" "A_send_eapol (sm_addr (cx_sm c)) frame1 (sm_pairwise_set (cx_sm c)) \<in> set tr1"
    "wpa_sm_rx_eapol (supp_crypto be' junk' T) src frame1 d = Some (1, add_tr t1 (accepted ?ctr d))"
    "set_keys t1 = installed (w_bssid (sc_sm d)) (sm_PTK (cx_sm c)) ?i (group_rsc E c) ?g"
    and r: "auth_ready E rsn c1" "in_step T c1 (add_tr t1 (accepted ?ctr d))"
    and k: "sm_PTK (cx_sm c1) = sm_PTK (cx_sm c)" "cx_gr c1 = cx_gr c" "sm_addr (cx_sm c1) = sm_addr (cx_sm c)" "sm_pairwise_set (cx_sm c1) = sm_pairwise_set (cx_sm c)"
    "sm_TimeoutCtr (cx_sm c1) = sm_TimeoutCtr (cx_sm c) + 1" "rs_counter (hd (sm_key_replay (cx_sm c1))) = ?ctr"
    unfolding c1 by (rule message_3_exchange[OF assms(1,2) n1, of be junk be' junk' src])
  define d1 where "d1 = add_tr t1 (accepted ?ctr d)"
  have "length (rs_counter (hd (sm_key_replay (cx_sm c)))) = 8" using assms(1) by (simp add: auth_ready_def)
  then have n2: "be_val (rs_counter (hd (sm_key_replay (cx_sm c1)))) + 1 < 2 ^ 64" using assms(4) k(6) by (simp add: be_val_inc)
  obtain frame2 tr2 t2 where y: "cx_tr c2 = cx_tr c1 @ tr2" "A_send_eapol (sm_addr (cx_sm c1)) frame2 (sm_pairwise_set (cx_sm c1)) \<in> set tr2"
    "wpa_sm_rx_eapol (supp_crypto be' junk' T) src frame2 d1 = Some (1, add_tr t2 (accepted (inc_byte_array (rs_counter (hd (sm_key_replay (cx_sm c1))))) d1))"
    "set_keys t2 = installed (w_bssid (sc_sm d1)) (sm_PTK (cx_sm c1)) (uint (of_nat (g_GN (cx_gr c1)) AND 3 :: u8)) (group_rsc E c1) (current_gtk (cx_gr c1))"
    unfolding c2 d1_def by (rule message_3_exchange[OF r _ n2, of be junk be' junk' src]) (use assms(3) k(5) in simp)
  have tr: "sc_tr (accepted ctr z) = sc_tr z" "w_bssid (sc_sm d1) = w_bssid (sc_sm d)" "sc_tr d1 = sc_tr d @ t1" for ctr z by (simp_all add: accepted_def d1_def)
  show ?thesis
    by (intro exI[of _ frame1] exI[of _ frame2] exI[of _ d1] exI[of _ "add_tr t2 (accepted (inc_byte_array (rs_counter (hd (sm_key_replay (cx_sm c1))))) d1)"]
          exI[of _ ?g] exI[of _ ?i])
      (use x y k tr in \<open>simp add: installed_def d1_def[symmetric]\<close>)
qed

text \<open>A concrete pair for the witnesses.\<close>

definition ex_rsn :: bytes where "ex_rsn = [1, 0, 0, 15, 172, 4, 1, 0, 0, 15, 172, 4, 1, 0, 0, 15, 172, 2, 0, 0]"

definition ex_hs_ctx :: wpa_ctx where
  "ex_hs_ctx = ex_ctx\<lparr>cx_sm := (cx_sm ex_ctx)\<lparr>sm_ANonce := replicate 32 7, sm_wpa_key_mgmt := WPA_KEY_MGMT_PSK\<rparr>,
     cx_gr := (cx_gr ex_ctx)\<lparr>g_GN := 1, g_GTK_len := 16, g_GTK := [replicate 32 9, replicate 32 8]\<rparr>,
     cx_au := (cx_au ex_ctx)\<lparr>a_wpa_ie := WLAN_EID_RSN # of_nat (length ex_rsn) # ex_rsn\<rparr>\<rparr>"

definition ex_hs_sta :: supp_ctx where
  "ex_hs_sta = \<lparr>sc_sm = wpa_sm_init\<lparr>w_proto := WPA_PROTO_RSN, w_pairwise_cipher := WPA_CIPHER_CCMP, w_group_cipher := WPA_CIPHER_CCMP,
     w_key_mgmt := WPA_KEY_MGMT_PSK, w_own_addr := [2, 0, 0, 0, 0, 1], w_bssid := [2, 0, 0, 0, 0, 2], w_pmk_len := 32, w_pmk := replicate 32 5,
     w_assoc_wpa_ie := Some (WLAN_EID_RSN # of_nat (length ex_rsn) # ex_rsn), w_anonce := replicate 32 7, w_tptk_set := True,
     w_ap_rsn_ie := Some (WLAN_EID_RSN # of_nat (length ex_rsn) # ex_rsn)\<rparr>, sc_tr = [], sc_next = 0\<rparr>"

lemma ex_hs_ready: "auth_ready ex_env ex_rsn ex_hs_ctx" "in_step ex_supp_env ex_hs_ctx ex_hs_sta"
proof -
  note defs = ex_hs_ctx_def ex_ctx_def fresh_sm_def zero_group_def
  show "auth_ready ex_env ex_rsn ex_hs_ctx"
    by (simp add: auth_ready_def ex_env_def defs current_gtk_def ex_rsn_def RSNA_MAX_EAPOL_RETRIES_def)
  have "hd (replicate 4 x) = x" for x :: replay_slot by (simp add: numeral_eq_Suc)
  then show "in_step ex_supp_env ex_hs_ctx ex_hs_sta"
    by (simp add: in_step_def ex_supp_env_def ex_hs_sta_def defs wpa_sm_init_def ccmp_station_def is_zero_ether_addr_def zero_ptk_def)
qed

lemma ex_hs_counter: "be_val (rs_counter (hd (sm_key_replay (cx_sm ex_hs_ctx)))) + 2 < 2 ^ 64" "sm_TimeoutCtr (cx_sm ex_hs_ctx) + 1 < dot11RSNAConfigPairwiseUpdateCount"
proof -
  have "rs_counter (hd (sm_key_replay (cx_sm ex_hs_ctx))) = replicate 8 0"
    by (simp add: ex_hs_ctx_def ex_ctx_def fresh_sm_def RSNA_MAX_EAPOL_RETRIES_def numeral_eq_Suc)
  moreover have "be_val (replicate n 0) = 0" for n by (induction n) simp_all
  ultimately show "be_val (rs_counter (hd (sm_key_replay (cx_sm ex_hs_ctx)))) + 2 < 2 ^ 64" by simp
  show "sm_TimeoutCtr (cx_sm ex_hs_ctx) + 1 < dot11RSNAConfigPairwiseUpdateCount"
    by (simp add: ex_hs_ctx_def ex_ctx_def fresh_sm_def dot11RSNAConfigPairwiseUpdateCount_def)
qed

lemma ex_hs_trace: "sc_tr ex_hs_sta = []"
  by (simp add: ex_hs_sta_def)

lemma handshake_completes_witness:
  "\<exists>frame d'. wpa_sm_rx_eapol (supp_crypto False (\<lambda>_. 0) ex_supp_env) [2, 0, 0, 0, 0, 2] frame ex_hs_sta = Some (1, d') \<and> length (set_keys (sc_tr d')) = 2"
proof -
  let ?T = "supp_crypto False (\<lambda>_. 0) ex_supp_env"
  have n: "sm_TimeoutCtr (cx_sm ex_hs_ctx) < dot11RSNAConfigPairwiseUpdateCount" "be_val (rs_counter (hd (sm_key_replay (cx_sm ex_hs_ctx)))) + 1 < 2 ^ 64"
    using ex_hs_counter by simp_all
  obtain frame d' where x: "wpa_sm_rx_eapol ?T [2, 0, 0, 0, 0, 2] frame ex_hs_sta = Some (1, d')"
    "set_keys (sc_tr d') = set_keys (sc_tr ex_hs_sta) @ installed (w_bssid (sc_sm ex_hs_sta)) (sm_PTK (cx_sm ex_hs_ctx))
       (uint (of_nat (g_GN (cx_gr ex_hs_ctx)) AND 3 :: u8)) (group_rsc ex_env ex_hs_ctx) (current_gtk (cx_gr ex_hs_ctx))"
    using handshake_completes[OF ex_hs_ready n refl, of True "\<lambda>_. 0" False "\<lambda>_. 0" "[2, 0, 0, 0, 0, 2]"] by blast
  have "length (set_keys (sc_tr d')) = 2" unfolding x(2) by (simp add: ex_hs_trace installed_def)
  with x(1) show ?thesis by blast
qed

lemma message_3_again_reinstalls_witness:
  "\<exists>frame1 frame2 d1 d2. wpa_sm_rx_eapol (supp_crypto False (\<lambda>_. 0) ex_supp_env) [2, 0, 0, 0, 0, 2] frame1 ex_hs_sta = Some (1, d1) \<and>
     wpa_sm_rx_eapol (supp_crypto False (\<lambda>_. 0) ex_supp_env) [2, 0, 0, 0, 0, 2] frame2 d1 = Some (1, d2) \<and> length (set_keys (sc_tr d2)) = 4"
proof -
  let ?T = "supp_crypto False (\<lambda>_. 0) ex_supp_env"
  obtain frame1 frame2 d1 d2 k1 k2 k3 k4 where x: "wpa_sm_rx_eapol ?T [2, 0, 0, 0, 0, 2] frame1 ex_hs_sta = Some (1, d1)"
    "wpa_sm_rx_eapol ?T [2, 0, 0, 0, 0, 2] frame2 d1 = Some (1, d2)"
    "set_keys (sc_tr d1) = set_keys (sc_tr ex_hs_sta) @ [k1, k2]" "set_keys (sc_tr d2) = set_keys (sc_tr d1) @ [k3, k4]"
    using message_3_again_reinstalls[OF ex_hs_ready ex_hs_counter(2,1) refl refl, of True "\<lambda>_. 0" False "\<lambda>_. 0" "[2, 0, 0, 0, 0, 2]"] by blast
  have "length (set_keys (sc_tr d2)) = 4" unfolding x(4,3) by (simp add: ex_hs_trace)
  with x(1,2) show ?thesis by blast
qed

end
