(* ===== verification/Handshake_Start.thy ===== *)
theory Handshake_Start
  imports Handshake
begin

unbundle bit_operations_syntax

text \<open>
  The first half of the four-way handshake: message 1/4 of the authenticator, the answer of the station and the
  derivation of the pairwise key at both ends, for a network with a pre-shared key.
\<close>

section \<open>The two ends before the handshake\<close>

text \<open>An authenticator that is about to send message 1/4 to a station with the pre-shared key \<open>pmk\<close>: but for the pairwise key it
  is as message 3/4 requires.\<close>

definition auth_start :: "wpa_env \<Rightarrow> bytes \<Rightarrow> bytes \<Rightarrow> wpa_ctx \<Rightarrow> bool" where
  "auth_start E rsn pmk c \<longleftrightarrow> auth_ready E rsn (upd_s (\<lambda>s. s\<lparr>sm_PTK_valid := True\<rparr>) c) \<and>
     wpa_key_mgmt_wpa_psk (sm_wpa_key_mgmt (cx_sm c)) \<and> E_psks E (sm_addr (cx_sm c)) = [pmk] \<and> length pmk = 32 \<and>
     length (a_addr (cx_au c)) = 6 \<and> length (sm_addr (cx_sm c)) = 6"

text \<open>The station that has associated with it: the addresses, the key and the element of the access point are the same.\<close>

definition sta_start :: "supp_env \<Rightarrow> wpa_ctx \<Rightarrow> bytes \<Rightarrow> bytes \<Rightarrow> supp_ctx \<Rightarrow> bool" where
  "sta_start T c pmk ie d \<longleftrightarrow> (\<forall>tr. SE_malloc T tr) \<and> (\<forall>tr. SE_set_key T tr = 0) \<and> (\<forall>tr. SE_network_ctx T tr \<noteq> None) \<and>
     (\<forall>tr. \<exists>bs. SE_random T tr 32 = (True, bs) \<and> length bs = 32) \<and> ccmp_station (sc_sm d) \<and> wpa_key_mgmt_wpa_psk (w_key_mgmt (sc_sm d)) \<and>
     w_ap_rsn_ie (sc_sm d) = Some (a_wpa_ie (cx_au c)) \<and> w_assoc_wpa_ie (sc_sm d) = Some ie \<and> length ie < 258 \<and>
     take (w_pmk_len (sc_sm d)) (w_pmk (sc_sm d)) = pmk \<and> w_own_addr (sc_sm d) = sm_addr (cx_sm c) \<and> w_bssid (sc_sm d) = a_addr (cx_au c) \<and>
     length (w_snonce (sc_sm d)) = 32 \<and> length (w_rx_replay_counter (sc_sm d)) = 8 \<and>
     (w_rx_replay_counter_set (sc_sm d) \<longrightarrow> be_val (w_rx_replay_counter (sc_sm d)) \<le> be_val (rs_counter (hd (sm_key_replay (cx_sm c)))))"

section \<open>Message 1\<close>

definition message_1 :: "wpa_ctx \<Rightarrow> bytes" where
  "message_1 c = eapol_key_frame (c_eapol_version (a_conf (cx_au c))) 2 0x8a 16 (inc_byte_array (rs_counter (hd (sm_key_replay (cx_sm c)))))
     (sm_ANonce (cx_sm c)) (replicate 16 0) (replicate 8 0) []"

lemma info_1:
  "WPA_KEY_INFO_ACK OR WPA_KEY_INFO_KEY_TYPE OR WPA_KEY_INFO_TYPE_HMAC_SHA1_AES = 0x8a" "info_has (WPA_KEY_INFO_ACK OR WPA_KEY_INFO_KEY_TYPE) WPA_KEY_INFO_KEY_TYPE"
  "\<not> info_has 0x8a WPA_KEY_INFO_MIC" "\<not> info_has 0x8a WPA_KEY_INFO_ENCR_KEY_DATA" "info_has 0x8a WPA_KEY_INFO_KEY_TYPE"
  "\<not> info_has 0x8a WPA_KEY_INFO_KEY_INDEX_MASK" "info_has 0x8a (WPA_KEY_INFO_ACK OR WPA_KEY_INFO_SMK_MESSAGE)" "\<not> info_has 0x8a WPA_KEY_INFO_REQUEST"
  "0x8a AND WPA_KEY_INFO_TYPE_MASK = WPA_KEY_INFO_TYPE_HMAC_SHA1_AES"
  by code_simp+

lemma message_1_sent:
  fixes be junk
  assumes r: "auth_start E rsn pmk c" and t: "sm_TimeoutCtr (cx_sm c) < dot11RSNAConfigPairwiseUpdateCount"
  defines "c' \<equiv> sm_WPA_PTK_PTKSTART (with_crypto be junk True E) c"
  obtains tr where "cx_tr c' = cx_tr c @ tr" "A_send_eapol (sm_addr (cx_sm c)) (message_1 c) (sm_pairwise_set (cx_sm c)) \<in> set tr"
    "cx_gr c' = cx_gr c" "cx_au c' = cx_au c"
    "cx_sm c' = (cx_sm c)\<lparr>sm_changed := True, sm_ptk_state := WPA_PTK_PTKSTART, sm_PTKRequest := False, sm_TimeoutEvt := False,
       sm_TimeoutCtr := sm_TimeoutCtr (cx_sm c) + 1, sm_key_replay := next_key_replay (sm_key_replay (cx_sm c))\<rparr>"
proof -
  note a = r[unfolded auth_start_def auth_ready_def]
  define c1 where "c1 = upd_s (\<lambda>s. s\<lparr>sm_PTKRequest := False, sm_TimeoutEvt := False, sm_TimeoutCtr := sm_TimeoutCtr s + 1\<rparr>) (ptk_entry WPA_PTK_PTKSTART c)"
  define c2 where "c2 = upd_s (\<lambda>s. s\<lparr>sm_key_replay := next_key_replay (sm_key_replay s)\<rparr>) (act A_malloc c1)"
  have p: "pmkid_kde (with_crypto be junk True E) c1 = []" using a by (simp add: pmkid_kde_def Let_def c1_def ptk_entry_def psk_not_ieee8021x)
  have k: "key_length_of WPA_CIPHER_CCMP = 16" by (simp add: key_length_of_def)
  have "wpa_send_frame (with_crypto be junk True E) (WPA_KEY_INFO_ACK OR WPA_KEY_INFO_KEY_TYPE) None (Some (sm_ANonce (cx_sm c1))) [] 0 False c1 =
      act (A_send_eapol (sm_addr (cx_sm c)) (message_1 c) (sm_pairwise_set (cx_sm c))) (wpa_auth_set_eapol WPA_EAPOL_inc_EapolFramesTx True c2)"
    unfolding wpa_send_frame_def Let_def os_malloc_eq prod.case
    using a by (simp add: c1_def c2_def ptk_entry_def info_1 or.assoc k message_1_def next_key_replay_def)
  then have c': "c' = act (A_register (T_send_eapol (sm_addr (cx_sm c))) (if sm_TimeoutCtr (cx_sm c) = 0 then eapol_key_timeout_first else eapol_key_timeout_subseq))
      (act (A_send_eapol (sm_addr (cx_sm c)) (message_1 c) (sm_pairwise_set (cx_sm c))) (wpa_auth_set_eapol WPA_EAPOL_inc_EapolFramesTx True c2))"
    unfolding c'_def sm_WPA_PTK_PTKSTART_def Let_def c1_def[symmetric] p
    using t by (simp add: wpa_send_eapol_def Let_def c1_def c2_def ptk_entry_def info_1 not_less)
  show thesis
    by (rule that[of "[A_malloc, A_set_eapol (sm_addr (cx_sm c)) WPA_EAPOL_inc_EapolFramesTx True,
        A_send_eapol (sm_addr (cx_sm c)) (message_1 c) (sm_pairwise_set (cx_sm c)), _]"])
      (simp_all add: c' c1_def c2_def ptk_entry_def wpa_auth_set_eapol_def)
qed

section \<open>The keys of both ends\<close>

text \<open>The 48 bytes that both ends use of the pairwise key, by the standard.\<close>

definition ptk_48 :: "bytes \<Rightarrow> macaddr \<Rightarrow> macaddr \<Rightarrow> bytes \<Rightarrow> bytes \<Rightarrow> bytes" where
  "ptk_48 pmk aa spa anonce snonce = wpa_pmk_to_ptk ieee_prf pmk (ascii ''Pairwise key expansion'') aa spa anonce snonce 48"

lemma length_ascii [simp]: "length (ascii s) = length s"
  by (simp add: ascii_def)

lemma ptk_standard:
  assumes "length pmk = 32" "length a1 = 6" "length a2 = 6" "length n1 = 32" "length n2 = 32"
  shows "wpa_pmk_to_ptk (\<lambda>key label d n. case sha1_prf be junk key label d n of Some k \<Rightarrow> k | None \<Rightarrow> []) pmk (ascii ''Pairwise key expansion'') a1 a2 n1 n2 48 =
    ptk_48 pmk a1 a2 n1 n2"
  using assms by (simp add: wpa_pmk_to_ptk_def ptk_48_def Let_def sha1_prf_ieee)

lemma length_ptk_48:
  assumes "length pmk = 32" "length a1 = 6" "length a2 = 6" "length n1 = 32" "length n2 = 32"
  shows "length (ptk_48 pmk a1 a2 n1 n2) = 48"
proof -
  have "length (ieee_prf pmk (ascii ''Pairwise key expansion'') x 48) = 48" if "length x < 2 ^ 31" for x
    using sha1_prf_ieee[of pmk "ascii ''Pairwise key expansion''" x True "\<lambda>_. 0" 48] sha1_prf_loop_total[of True "\<lambda>_. 0" pmk "ascii ''Pairwise key expansion''" x 0 48] assms(1) that
    by (auto simp: sha1_prf_def)
  then show ?thesis using assms by (simp add: ptk_48_def wpa_pmk_to_ptk_def Let_def)
qed

section \<open>Message 2\<close>

definition message_2 :: "supp_env \<Rightarrow> bytes \<Rightarrow> bytes \<Rightarrow> bytes \<Rightarrow> bytes" where
  "message_2 T counter snonce ie = eapol_key_frame (SE_eapol_version T) 2 0x10a 0 counter snonce (replicate 16 0) (replicate 8 0) ie"

lemma info_2: "WPA_KEY_INFO_TYPE_HMAC_SHA1_AES OR WPA_KEY_INFO_KEY_TYPE OR WPA_KEY_INFO_MIC = 0x10a"
  "(0x10a :: u16) AND WPA_KEY_INFO_TYPE_MASK = WPA_KEY_INFO_TYPE_HMAC_SHA1_AES"
  by code_simp+

lemma renew_ok:
  assumes "\<forall>tr. \<exists>bs. SE_random T tr 32 = (True, bs) \<and> length bs = 32" "length (w_snonce (sc_sm d)) = 32"
  obtains n tr where "renew_snonce (supp_crypto be junk T) d = (False, add_tr tr (upd_w (\<lambda>s. s\<lparr>w_snonce := n, w_renew_snonce := False\<rparr>) d))" "length n = 32"
proof (cases "w_renew_snonce (sc_sm d)")
  case True
  obtain bs where "SE_random T (sc_tr d @ [S_random 32]) 32 = (True, bs)" "length bs = 32" using assms(1) by blast
  with True show thesis
    by (intro that[of "[S_random 32]" bs]) (simp_all add: renew_snonce_def Let_def call_add_tr add_tr_def upd_w_def)
next
  case False
  then show thesis
    by (intro that[of "[]" "w_snonce (sc_sm d)"]) (use assms(2) in \<open>auto simp: renew_snonce_def upd_w_def intro!: supp_ctx.equality wpa_sm.equality\<close>)
qed

text \<open>The station after message 1/4.\<close>

definition answered :: "bytes \<Rightarrow> bytes \<Rightarrow> bytes \<Rightarrow> supp_ctx \<Rightarrow> supp_ctx" where
  "answered tptk snonce anonce d = upd_w (\<lambda>s. s\<lparr>w_snonce := snonce, w_renew_snonce := False, w_tptk := tptk, w_tptk_set := True, w_anonce := anonce\<rparr>) d"

lemma process_1_psk:
  assumes s: "sta_start T c pmk ie d" and f: "key_data f = []" "key_nonce f = anonce" "length anonce = 32" "length pmk = 32" "length (w_own_addr (sc_sm d)) = 6" "length (w_bssid (sc_sm d)) = 6"
    "length (key_replay_counter f) = 8"
  obtains n tptk mic tr where
    "wpa_supplicant_process_1_of_4 (supp_crypto be junk T) src f WPA_KEY_INFO_TYPE_HMAC_SHA1_AES d = add_tr tr (answered tptk n anonce d)" "length n = 32"
    "take 48 tptk = ptk_48 pmk (w_own_addr (sc_sm d)) (w_bssid (sc_sm d)) n anonce"
    "S_ether_send (w_bssid (sc_sm d)) (memput (message_2 T (key_replay_counter f) n ie) 81 mic) \<in> set tr"
    "standard_mic (kck tptk) WPA_KEY_INFO_TYPE_HMAC_SHA1_AES (message_2 T (key_replay_counter f) n ie) = Some mic"
proof -
  note a = s[unfolded sta_start_def ccmp_station_def]
  let ?T = "supp_crypto be junk T" and ?v = WPA_KEY_INFO_TYPE_HMAC_SHA1_AES
  define d1 where "d1 = add_tr [S_set_state WPA_4WAY_HANDSHAKE] d"
  obtain n t where n: "renew_snonce ?T d1 = (False, add_tr t (upd_w (\<lambda>s. s\<lparr>w_snonce := n, w_renew_snonce := False\<rparr>) d1))" "length n = 32"
    by (rule renew_ok[of T d1 be junk]) (use a in \<open>simp_all add: d1_def\<close>)
  define d2 where "d2 = add_tr t (upd_w (\<lambda>s. s\<lparr>w_snonce := n, w_renew_snonce := False\<rparr>) d1)"
  define tptk where "tptk = swap_mic_keys (supp_derive_ptk ?T f (sc_sm d2))"
  define d3 where "d3 = upd_w (\<lambda>s. s\<lparr>w_tptk := tptk, w_tptk_set := True\<rparr>) d2"
  let ?m = "message_2 T (key_replay_counter f) n ie"
  obtain mic where mic: "standard_mic (kck tptk) ?v ?m = Some mic" using mic_2_Some by blast
  let ?t2 = "[S_malloc, S_ether_send (w_bssid (sc_sm d)) (memput ?m 81 mic), S_notify N_tx_eapol_key]"
  have len: "length ?m < 2 ^ 31" using n(2) f a by (simp add: message_2_def eapol_key_frame_def)
  have sm: "sc_sm d3 = (sc_sm d)\<lparr>w_snonce := n, w_renew_snonce := False, w_tptk := tptk, w_tptk_set := True\<rparr>"
    by (simp add: d3_def d2_def d1_def)
  have get: "wpa_supplicant_get_pmk ?T src None d1 = (0, d1)"
    using a psk_not_ieee8021x by (simp add: wpa_supplicant_get_pmk_def d1_def Let_def)
  have z: "\<not> is_zero_ether_addr (w_bssid (sc_sm d))" "w_proto (sc_sm d) = WPA_PROTO_RSN" "w_assoc_wpa_ie (sc_sm d) = Some ie" "\<forall>tr. SE_malloc T tr"
    using a by blast+
  have send: "wpa_supplicant_send_2_of_4 ?T (w_bssid (sc_sm d3)) f ?v (w_snonce (sc_sm d3)) (w_assoc_wpa_ie (sc_sm d3)) (w_tptk (sc_sm d3)) d3 = (0, add_tr ?t2 d3)"
    using z len mic unfolding wpa_supplicant_send_2_of_4_def supp_reply_def supp_malloc_eq prod.case reply_key_length_def info_2
    by (simp add: sm message_2_def[symmetric] wpa_eapol_key_send_def Let_def call_add_tr mic_standard)
  have "wpa_supplicant_process_1_of_4 ?T src f ?v d = upd_w (\<lambda>s. s\<lparr>w_anonce := key_nonce f\<rparr>) (add_tr ?t2 d3)"
  proof -
    have w: "upd_w (\<lambda>s. s\<lparr>w_tptk := swap_mic_keys (supp_derive_ptk ?T f s), w_tptk_set := True\<rparr>) d2 = d3" by (simp add: upd_w_def d3_def tptk_def)
    have ctx: "SE_network_ctx ?T (sc_tr d) \<noteq> None" and no: "i_pmkid (snd (wpa_supplicant_parse_ies (key_data f))) = None"
      using a f(1) by (auto simp: wpa_supplicant_parse_ies_def no_ies_def)
    have p: "i_pmkid (if w_proto (sc_sm d1) = WPA_PROTO_RSN then snd (wpa_supplicant_parse_ies (key_data f)) else no_ies) = None" using no by (simp add: no_ies_def)
    show ?thesis
      unfolding wpa_supplicant_process_1_of_4_def Let_def call_add_tr d1_def[symmetric] p get prod.case n(1)[folded d2_def] w send using ctx by auto
  qed
  also have "\<dots> = add_tr ([S_set_state WPA_4WAY_HANDSHAKE] @ t @ ?t2) (answered tptk n anonce d)"
    using f(2) by (simp add: d3_def d2_def d1_def answered_def add_tr_def upd_w_def)
  finally have p: "wpa_supplicant_process_1_of_4 ?T src f ?v d = add_tr ([S_set_state WPA_4WAY_HANDSHAKE] @ t @ ?t2) (answered tptk n anonce d)" .
  have "supp_derive_ptk ?T f (sc_sm d2) = memput (w_tptk (sc_sm d)) 0 (ptk_48 pmk (w_own_addr (sc_sm d)) (w_bssid (sc_sm d)) n anonce)"
    using a f n(2) ptk_standard[of pmk "w_own_addr (sc_sm d)" "w_bssid (sc_sm d)" n anonce be junk] by (simp add: supp_derive_ptk_def d2_def d1_def)
  then have k: "take 48 tptk = ptk_48 pmk (w_own_addr (sc_sm d)) (w_bssid (sc_sm d)) n anonce"
    using length_ptk_48[OF f(4,5,6) n(2) f(3)] by (simp add: tptk_def swap_mic_keys_def memput_def)
  show thesis by (rule that[OF p n(2) k _ mic]) simp
qed

lemma message_1_answered:
  assumes r: "auth_start E rsn pmk c" and s: "sta_start T c pmk ie d" and n: "be_val (rs_counter (hd (sm_key_replay (cx_sm c)))) + 1 < 2 ^ 64"
  obtains n tptk mic tr where "wpa_sm_rx_eapol (supp_crypto be junk T) src (message_1 c) d = Some (1, add_tr tr (answered tptk n (sm_ANonce (cx_sm c)) d))" "length n = 32"
    "take 48 tptk = ptk_48 pmk (sm_addr (cx_sm c)) (a_addr (cx_au c)) n (sm_ANonce (cx_sm c))"
    "S_ether_send (w_bssid (sc_sm d)) (memput (message_2 T (inc_byte_array (rs_counter (hd (sm_key_replay (cx_sm c))))) n ie) 81 mic) \<in> set tr"
    "standard_mic (kck tptk) WPA_KEY_INFO_TYPE_HMAC_SHA1_AES (message_2 T (inc_byte_array (rs_counter (hd (sm_key_replay (cx_sm c))))) n ie) = Some mic"
proof -
  note a = r[unfolded auth_start_def auth_ready_def] and i = s[unfolded sta_start_def]
  let ?f = "message_1 c" and ?T = "supp_crypto be junk T" and ?ctr = "inc_byte_array (rs_counter (hd (sm_key_replay (cx_sm c))))"
  have parts: "frame_parts_ok ?ctr (sm_ANonce (cx_sm c)) (replicate 16 0) (replicate 8 0)" using a by (simp add: frame_parts_ok_def)
  note fb = frame_bytes_fields[OF parts length_replicate message_1_def[unfolded eapol_key_frame_bytes]]
  have "?f = frame_bytes (c_eapol_version (a_conf (cx_au c))) 2 0x8a 16 ?ctr (sm_ANonce (cx_sm c)) (replicate 16 0) (replicate 8 0) 95 (replicate 16 0)
      (WPA_PUT_BE16 (of_nat (length ([] :: bytes))) @ [] @ [])"
    by (simp add: message_1_def eapol_key_frame_bytes)
  from frame_bytes_data(1,2)[OF parts length_replicate _ this] have fd: "key_data_length ?f = 0" "key_data ?f = []" by simp_all
  have s1: "sta_start T c pmk ie (supp_entered d)" using s by (simp add: sta_start_def)
  have len: "99 \<le> length ?f" using fb(1) by simp
  have alloc: "SE_malloc ?T (sc_tr d @ [S_malloc])" using i by simp
  have us: "\<not> supp_not_for_us ?f" using fb by (simp add: supp_not_for_us_def Let_def)
  have "w_rx_replay_counter_set (sc_sm d) \<Longrightarrow> \<not> memcmp (key_replay_counter ?f) (w_rx_replay_counter (sc_sm d)) \<le> 0"
    unfolding fb(7) using counter_increases a i n by simp
  then have dr: "\<not> supp_dropped (sc_sm d) ?f" unfolding supp_dropped_def Let_def fb(5) info_1 by (simp add: info_1)
  have rx: "wpa_sm_rx_eapol ?T src ?f d = Some (1, wpa_supplicant_process_1_of_4 ?T src ?f WPA_KEY_INFO_TYPE_HMAC_SHA1_AES (supp_entered d))"
    unfolding rx_eq[OF len alloc us dr] supp_rx_rest_def fb(5) using fd by (simp add: info_1 supp_after_mic_def supp_dispatch_def)
  obtain n tptk mic tr where p: "wpa_supplicant_process_1_of_4 ?T src ?f WPA_KEY_INFO_TYPE_HMAC_SHA1_AES (supp_entered d) =
      add_tr tr (answered tptk n (sm_ANonce (cx_sm c)) (supp_entered d))" "length n = 32"
    "take 48 tptk = ptk_48 pmk (w_own_addr (sc_sm (supp_entered d))) (w_bssid (sc_sm (supp_entered d))) n (sm_ANonce (cx_sm c))"
    "S_ether_send (w_bssid (sc_sm (supp_entered d))) (memput (message_2 T (key_replay_counter ?f) n ie) 81 mic) \<in> set tr"
    "standard_mic (kck tptk) WPA_KEY_INFO_TYPE_HMAC_SHA1_AES (message_2 T (key_replay_counter ?f) n ie) = Some mic"
    by (rule process_1_psk[OF s1 fd(2) fb(8), of be junk src]) (use a i fb(7) in simp_all)
  have "add_tr tr (answered tptk n (sm_ANonce (cx_sm c)) (supp_entered d)) =
      add_tr ([S_malloc, S_notify N_lower_layer_success] @ tr) (answered tptk n (sm_ANonce (cx_sm c)) d)"
    by (simp add: answered_def supp_entered_def add_tr_def upd_w_def call_def)
  with rx p(1) have "wpa_sm_rx_eapol ?T src ?f d = Some (1, add_tr ([S_malloc, S_notify N_lower_layer_success] @ tr) (answered tptk n (sm_ANonce (cx_sm c)) d))" by simp
  then show thesis by (rule that) (use p i fb(7) in simp_all)
qed

section \<open>The pairwise key at the authenticator\<close>

lemma psks_crypto [simp]: "E_psks (with_crypto be junk mem E) = E_psks E"
  by (simp add: with_crypto_def)

lemma ptk_calculated:
  assumes r: "auth_start E rsn pmk c" and e: "cx_sm c' = (cx_sm c)\<lparr>sm_changed := b1, sm_ptk_state := st, sm_PTKRequest := b2, sm_TimeoutEvt := b3,
      sm_TimeoutCtr := n, sm_key_replay := sl\<rparr>" "cx_au c' = cx_au c"
    and f: "key_nonce reply = snonce" "length snonce = 32" "take 48 ptk = ptk_48 pmk (sm_addr (cx_sm c)) (a_addr (cx_au c)) snonce (sm_ANonce (cx_sm c))"
    "\<And>q. kck q = kck ptk \<Longrightarrow> wpa_verify_key_mic (with_crypto be junk True E) q reply"
  defines "z \<equiv> sm_WPA_PTK_PTKCALCNEGOTIATING (with_crypto be junk True E) (snd (rx_store (with_crypto be junk True E) reply c'))"
  shows "take 48 (sm_PTK (cx_sm z)) = take 48 ptk" "sm_MICVerified (cx_sm z)" "sm_PTK_valid (cx_sm z)" "sm_wpa (cx_sm z) = sm_wpa (cx_sm c)"
    "sm_pairwise (cx_sm z) = sm_pairwise (cx_sm c)" "sm_key_replay (cx_sm z) = sl" "sm_ANonce (cx_sm z) = sm_ANonce (cx_sm c)" "cx_gr z = cx_gr c'" "cx_au z = cx_au c"
proof -
  let ?E = "with_crypto be junk True E"
  note a = r[unfolded auth_start_def auth_ready_def]
  define c1 where "c1 = snd (rx_store ?E reply c')"
  define c2 where "c2 = upd_s (\<lambda>s. s\<lparr>sm_EAPOLKeyReceived := False\<rparr>) (ptk_entry WPA_PTK_PTKCALCNEGOTIATING c1)"
  have c1: "c1 = upd_s (\<lambda>s. s\<lparr>sm_last_rx_eapol_key := reply, sm_EAPOLKeyReceived := True, sm_EAPOLKeyPairwise := info_has (key_info_of reply) WPA_KEY_INFO_KEY_TYPE,
      sm_EAPOLKeyRequest := info_has (key_info_of reply) WPA_KEY_INFO_REQUEST, sm_SNonce := key_nonce reply\<rparr>) (act A_malloc c')"
    using a unfolding c1_def rx_store_def os_malloc_eq by simp
  have sm: "sm_addr (cx_sm c2) = sm_addr (cx_sm c)" "sm_wpa_key_mgmt (cx_sm c2) = sm_wpa_key_mgmt (cx_sm c)" "sm_last_rx_eapol_key (cx_sm c2) = reply"
    "sm_SNonce (cx_sm c2) = snonce" "sm_ANonce (cx_sm c2) = sm_ANonce (cx_sm c)" "sm_pairwise (cx_sm c2) = WPA_CIPHER_CCMP" "cx_au c2 = cx_au c"
    "sm_wpa (cx_sm c2) = sm_wpa (cx_sm c)" "sm_key_replay (cx_sm c2) = sl"
    using a e f(1) by (simp_all add: c2_def c1 ptk_entry_def)
  have l: "length pmk = 32" "length (sm_addr (cx_sm c)) = 6" "length (a_addr (cx_au c)) = 6" "length (sm_ANonce (cx_sm c)) = 32" using a by simp_all
  have "wpa_derive_ptk ?E c2 pmk = memput (E_stack E) 0 (ptk_48 pmk (a_addr (cx_au c)) (sm_addr (cx_sm c)) (sm_ANonce (cx_sm c)) snonce)"
    using ptk_standard[OF l(1,3,2,4) f(2), of be junk] by (simp add: wpa_derive_ptk_def Let_def sm)
  also have "ptk_48 pmk (a_addr (cx_au c)) (sm_addr (cx_sm c)) (sm_ANonce (cx_sm c)) snonce = take 48 ptk"
    unfolding f(3) ptk_48_def by (rule wpa_pmk_to_ptk_agree) (use l f(2) in simp_all)
  finally have k: "take 48 (wpa_derive_ptk ?E c2 pmk) = take 48 ptk"
    using length_ptk_48[OF l(1,2,3) f(2) l(4)] f(3) by (simp add: memput_def)
  have v: "wpa_verify_key_mic ?E (wpa_derive_ptk ?E c2 pmk) reply" by (rule f(4)) (rule same_keys(1)[OF k])
  have "find_pmk ?E c2 (if wpa_key_mgmt_wpa_psk (sm_wpa_key_mgmt (cx_sm c2)) then E_psks ?E (sm_addr (cx_sm c2)) else [sm_PMK (cx_sm c2)]) = Some pmk"
    using a v by (simp add: sm)
  then have z: "z = upd_s (\<lambda>s. s\<lparr>sm_MICVerified := True, sm_PTK := wpa_derive_ptk ?E c2 pmk, sm_PTK_valid := True\<rparr>)
      (upd_s (\<lambda>s. s\<lparr>sm_PMK := pmk\<rparr>) (act (A_cancel (T_send_eapol (sm_addr (cx_sm c2)))) c2))"
    unfolding z_def c1_def[symmetric] sm_WPA_PTK_PTKCALCNEGOTIATING_def Let_def c2_def[symmetric] using a by (simp add: sm)
  have gr: "cx_gr c2 = cx_gr c'" by (simp add: c2_def c1 ptk_entry_def)
  show "take 48 (sm_PTK (cx_sm z)) = take 48 ptk" "sm_MICVerified (cx_sm z)" "sm_PTK_valid (cx_sm z)" "sm_wpa (cx_sm z) = sm_wpa (cx_sm c)"
    "sm_pairwise (cx_sm z) = sm_pairwise (cx_sm c)" "sm_key_replay (cx_sm z) = sl" "sm_ANonce (cx_sm z) = sm_ANonce (cx_sm c)" "cx_gr z = cx_gr c'" "cx_au z = cx_au c"
    using k sm gr a by (simp_all add: z)
qed

section \<open>Both ends agree\<close>

text \<open>C6. Messages 1/4 and 2/4 make both ends agree on the pairwise key. The authenticator and a station that has associated
  with it, on machines of any byte order, share a pre-shared key. Then the station answers the frame that the authenticator
  sends when it enters PTKSTART with a message 2/4 that carries its own element and a replay counter the
  authenticator is waiting for; when the authenticator has stored that message, PTKCALCNEGOTIATING finds its MIC right, and
  the parts of the pairwise key used for MICs, key data and traffic are the same at both ends. Both are then as
  message 3/4 requires.\<close>

theorem handshake_key_agreement:
  assumes r: "auth_start E rsn pmk c" and s: "sta_start T c pmk ie d" and t: "sm_TimeoutCtr (cx_sm c) < dot11RSNAConfigPairwiseUpdateCount"
    and n: "be_val (rs_counter (hd (sm_key_replay (cx_sm c)))) + 1 < 2 ^ 64"
    and c1: "c1 = sm_WPA_PTK_PTKSTART (with_crypto be junk True E) c"
  shows "\<exists>frame reply d' c2. A_send_eapol (sm_addr (cx_sm c)) frame (sm_pairwise_set (cx_sm c)) \<in> set (drop (length (cx_tr c)) (cx_tr c1)) \<and>
    wpa_sm_rx_eapol (supp_crypto be' junk' T) src frame d = Some (1, d') \<and>
    S_ether_send (w_bssid (sc_sm d)) reply \<in> set (drop (length (sc_tr d)) (sc_tr d')) \<and> key_data reply = ie \<and>
    wpa_replay_counter_valid (cx_sm c1) (key_replay_counter reply) \<and>
    c2 = sm_WPA_PTK_PTKCALCNEGOTIATING (with_crypto be junk True E) (snd (rx_store (with_crypto be junk True E) reply c1)) \<and>
    sm_MICVerified (cx_sm c2) \<and> w_tptk_set (sc_sm d') \<and> take 48 (w_tptk (sc_sm d')) = take 48 (sm_PTK (cx_sm c2)) \<and>
    auth_ready E rsn c2 \<and> in_step T c2 d'"
proof -
  let ?E = "with_crypto be junk True E" and ?T = "supp_crypto be' junk' T" and ?ctr = "inc_byte_array (rs_counter (hd (sm_key_replay (cx_sm c))))"
  note a = r[unfolded auth_start_def auth_ready_def] and i = s[unfolded sta_start_def]
  obtain tr where m: "cx_tr c1 = cx_tr c @ tr" "A_send_eapol (sm_addr (cx_sm c)) (message_1 c) (sm_pairwise_set (cx_sm c)) \<in> set tr"
    "cx_gr c1 = cx_gr c" "cx_au c1 = cx_au c"
    "cx_sm c1 = (cx_sm c)\<lparr>sm_changed := True, sm_ptk_state := WPA_PTK_PTKSTART, sm_PTKRequest := False, sm_TimeoutEvt := False,
       sm_TimeoutCtr := sm_TimeoutCtr (cx_sm c) + 1, sm_key_replay := next_key_replay (sm_key_replay (cx_sm c))\<rparr>"
    unfolding c1 by (rule message_1_sent[OF r t, of be junk])
  obtain snonce tptk mic tr' where x: "wpa_sm_rx_eapol ?T src (message_1 c) d = Some (1, add_tr tr' (answered tptk snonce (sm_ANonce (cx_sm c)) d))"
    "length snonce = 32" "take 48 tptk = ptk_48 pmk (sm_addr (cx_sm c)) (a_addr (cx_au c)) snonce (sm_ANonce (cx_sm c))"
    "S_ether_send (w_bssid (sc_sm d)) (memput (message_2 T ?ctr snonce ie) 81 mic) \<in> set tr'"
    "standard_mic (kck tptk) WPA_KEY_INFO_TYPE_HMAC_SHA1_AES (message_2 T ?ctr snonce ie) = Some mic"
    by (rule message_1_answered[OF r s n])
  let ?d = "add_tr tr' (answered tptk snonce (sm_ANonce (cx_sm c)) d)" and ?reply = "memput (message_2 T ?ctr snonce ie) 81 mic"
  have parts: "frame_parts_ok ?ctr snonce (replicate 16 0) (replicate 8 0)" using a x(2) by (simp add: frame_parts_ok_def)
  note f = mic_frame_fields[OF parts message_2_def standard_mic_length[OF x(5)]]
  have ie: "length ie < 2 ^ 16" using i by simp
  have v: "wpa_verify_key_mic ?E q ?reply" if "kck q = kck tptk" for q
    by (rule frame_verifies[OF parts message_2_def ie info_2(2)]) (use x(5) that in simp)
  define c2 where "c2 = sm_WPA_PTK_PTKCALCNEGOTIATING ?E (snd (rx_store ?E ?reply c1))"
  note z = ptk_calculated[OF r m(5,4) f(4) x(2,3) v, folded c2_def]
  have "auth_ready E rsn c2" unfolding auth_ready_def using a z m(3) by (auto simp: next_key_replay_def)
  moreover have "be_val ?ctr = be_val (rs_counter (hd (sm_key_replay (cx_sm c)))) + 1" using n a by (simp add: be_val_inc)
  then have "in_step T c2 ?d" unfolding in_step_def using i z by (auto simp: answered_def ccmp_station_def next_key_replay_def)
  moreover have "wpa_replay_counter_valid (cx_sm c1) (key_replay_counter ?reply)"
    using f(3) m(5) by (simp add: wpa_replay_counter_valid_def next_key_replay_def)
  ultimately show ?thesis
    by (intro exI[of _ "message_1 c"] exI[of _ ?reply] exI[of _ ?d] exI[of _ c2])
      (use m x z(1,2) f(7)[OF ie] in \<open>simp add: c2_def[symmetric] answered_def\<close>)
qed

lemma ex_hs_start: "auth_start (ex_env\<lparr>E_psks := \<lambda>_. [replicate 32 5]\<rparr>) ex_rsn (replicate 32 5) ex_hs_ctx"
    "sta_start ex_supp_env ex_hs_ctx (replicate 32 5) (WLAN_EID_RSN # of_nat (length ex_rsn) # ex_rsn) ex_hs_sta"
proof -
  note defs = ex_hs_ctx_def ex_ctx_def fresh_sm_def zero_group_def
  have psk: "wpa_key_mgmt_wpa_psk WPA_KEY_MGMT_PSK" by (simp add: wpa_key_mgmt_defs wpa_const_defs)
  have "auth_ready (ex_env\<lparr>E_psks := x\<rparr>) ex_rsn (upd_s (\<lambda>s. s\<lparr>sm_PTK_valid := True\<rparr>) ex_hs_ctx)" for x
    using ex_hs_ready(1) by (simp add: auth_ready_def)
  then show "auth_start (ex_env\<lparr>E_psks := \<lambda>_. [replicate 32 5]\<rparr>) ex_rsn (replicate 32 5) ex_hs_ctx"
    using psk by (simp add: auth_start_def defs)
  show "sta_start ex_supp_env ex_hs_ctx (replicate 32 5) (WLAN_EID_RSN # of_nat (length ex_rsn) # ex_rsn) ex_hs_sta"
    using ex_hs_ready(2) psk by (simp add: sta_start_def in_step_def ex_supp_env_def ex_hs_sta_def wpa_sm_init_def defs ex_rsn_def)
qed

lemma handshake_key_agreement_witness:
  "\<exists>frame d'. wpa_sm_rx_eapol (supp_crypto False (\<lambda>_. 0) ex_supp_env) [2, 0, 0, 0, 0, 2] frame ex_hs_sta = Some (1, d') \<and> w_tptk_set (sc_sm d')"
proof -
  have n: "sm_TimeoutCtr (cx_sm ex_hs_ctx) < dot11RSNAConfigPairwiseUpdateCount" "be_val (rs_counter (hd (sm_key_replay (cx_sm ex_hs_ctx)))) + 1 < 2 ^ 64"
    using ex_hs_counter by simp_all
  show ?thesis using handshake_key_agreement[OF ex_hs_start n refl, of True "\<lambda>_. 0" False "\<lambda>_. 0" "[2, 0, 0, 0, 0, 2]"] by blast
qed

end
