(* ===== verification/Base64.thy ===== *)
theory Base64
  imports Byte_Utils
begin

text \<open>
  The Base64 routines of \<^verbatim>\<open>src/athr-hostap/src/utils/base64.c\<close>. The size computation of the
  encoder is in 32-bit words, with its overflow check; a null result is \<^term>\<open>None\<close>, and \<open>ok\<close> tells
  whether the allocator succeeds. The encoder's text is the bytes before its terminating NUL.
\<close>

section \<open>Encoder\<close>

definition base64_table :: bytes where
  "base64_table = map of_nat ([65..<91] @ [97..<123] @ [48..<58] @ [43, 47])"

definition b64char :: "u8 \<Rightarrow> u8" where
  "b64char v = base64_table ! unat v"

text \<open>The six-bit groups of a block of three bytes, and of a last block of two bytes or one.\<close>

definition sx0 :: "u8 \<Rightarrow> u8" where "sx0 a = drop_bit 2 a"
definition sx1 :: "u8 \<Rightarrow> u8 \<Rightarrow> u8" where "sx1 a b = push_bit 4 (a AND 0x03) OR drop_bit 4 b"
definition sx2 :: "u8 \<Rightarrow> u8 \<Rightarrow> u8" where "sx2 b c = push_bit 2 (b AND 0x0f) OR drop_bit 6 c"
definition sx3 :: "u8 \<Rightarrow> u8" where "sx3 c = c AND 0x3f"
definition sx1_last :: "u8 \<Rightarrow> u8" where "sx1_last a = push_bit 4 (a AND 0x03)"
definition sx2_last :: "u8 \<Rightarrow> u8" where "sx2_last b = push_bit 2 (b AND 0x0f)"

lemmas sx_defs = sx0_def sx1_def sx2_def sx3_def sx1_last_def sx2_last_def

fun base64_encode_loop :: "nat \<Rightarrow> bytes \<Rightarrow> bytes" where
  "base64_encode_loop line_len (a # b # c # rest) =
     [b64char (sx0 a), b64char (sx1 a b),
      b64char (sx2 b c), b64char (sx3 c)] @
     (if line_len + 4 \<ge> 72 then 0x0a # base64_encode_loop 0 rest
      else base64_encode_loop (line_len + 4) rest)"
| "base64_encode_loop line_len [a, b] =
     [b64char (sx0 a), b64char (sx1 a b),
      b64char (sx2_last b), 0x3d, 0x0a]"
| "base64_encode_loop line_len [a] =
     [b64char (sx0 a), b64char (sx1_last a), 0x3d, 0x3d, 0x0a]"
| "base64_encode_loop line_len [] = (if line_len \<noteq> 0 then [0x0a] else [])"

definition base64_olen :: "size_t \<Rightarrow> size_t" where
  "base64_olen len =
     (let olen = len * 4 div 3 + 4;
          olen = olen + olen div 72
      in olen + 1)"

definition base64_encode :: "bool \<Rightarrow> bytes \<Rightarrow> bytes option" where
  "base64_encode ok src =
     (let len = of_nat (length src) :: size_t
      in if base64_olen len < len then None
         else if \<not> ok then None
         else Some (base64_encode_loop 0 src))"

section \<open>Decoder\<close>

text \<open>The loop that fills \<^verbatim>\<open>dtable\<close>, and the table after it.\<close>

definition dtable :: "u8 list" where
  "dtable = (fold (\<lambda>i t. t[unat (base64_table ! i) := of_nat i]) [0..<64] (replicate 256 0x80))[0x3d := 0]"

text \<open>The second loop: \<open>inp\<close> are the characters of the block collected so far, \<open>lastb\<close> those of the
  last complete block and \<open>acc\<close> the output.\<close>

definition decode_block :: "u8 \<Rightarrow> u8 \<Rightarrow> u8 \<Rightarrow> u8 \<Rightarrow> bytes" where
  "decode_block b0 b1 b2 b3 =
     [push_bit 2 b0 OR drop_bit 4 b1, push_bit 4 b1 OR drop_bit 2 b2, push_bit 6 b2 OR b3]"

fun base64_decode_loop :: "bytes \<Rightarrow> bytes \<Rightarrow> bytes \<Rightarrow> bytes \<Rightarrow> bytes \<times> bytes" where
  "base64_decode_loop [] inp lastb acc = (lastb, acc)"
| "base64_decode_loop (c # src) inp lastb acc =
     (if dtable ! unat c = 0x80 then base64_decode_loop src inp lastb acc
      else let inp = inp @ [c]
           in if length inp = 4
              then base64_decode_loop src [] inp
                     (acc @ decode_block (dtable ! unat (inp ! 0)) (dtable ! unat (inp ! 1))
                        (dtable ! unat (inp ! 2)) (dtable ! unat (inp ! 3)))
              else base64_decode_loop src inp lastb acc)"

definition base64_decode :: "bool \<Rightarrow> bytes \<Rightarrow> bytes option" where
  "base64_decode ok src =
     (let count = length (filter (\<lambda>c. dtable ! unat c \<noteq> 0x80) src)
      in if count = 0 \<or> count mod 4 \<noteq> 0 then None
         else if \<not> ok then None
         else let (inp, out) = base64_decode_loop src [] [] []
              in Some (if out = [] then out
                       else if inp ! 2 = 0x3d then take (length out - 2) out
                       else if inp ! 3 = 0x3d then take (length out - 1) out
                       else out))"

section \<open>Tables\<close>

lemma dtable_table: "list_all (\<lambda>v. dtable ! unat (b64char (of_nat v)) = of_nat v \<and> b64char (of_nat v) \<noteq> 0x3d) [0..<64]"
  by code_simp

lemma dtable_special: "dtable ! 0x0a = 0x80" "dtable ! 0x3d = 0"
  by code_simp+

lemma dtable_b64char:
  assumes "unat (v :: u8) < 64"
  shows "dtable ! unat (b64char v) = v" "b64char v \<noteq> 0x3d" "dtable ! unat (b64char v) \<noteq> 0x80"
proof -
  have "unat v \<in> set [0..<64]" using assms by simp
  with dtable_table have "dtable ! unat (b64char (of_nat (unat v))) = of_nat (unat v) \<and> b64char (of_nat (unat v)) \<noteq> 0x3d"
    unfolding list_all_iff by blast
  then show 1: "dtable ! unat (b64char v) = v" and "b64char v \<noteq> 0x3d" by simp_all
  have "v \<noteq> 0x80" using assms by auto
  then show "dtable ! unat (b64char v) \<noteq> 0x80" using 1 by simp
qed

section \<open>Blocks\<close>

lemma masks: "(0x03 :: u8) = mask 2" "(0x0f :: u8) = mask 4" "(0x3f :: u8) = mask 6"
  by (simp_all add: mask_eq_exp_minus_1)

lemma u8_lt64: "(\<And>k. 6 \<le> k \<Longrightarrow> k < 8 \<Longrightarrow> \<not> bit (v :: u8) k) \<Longrightarrow> unat v < 64"
proof -
  assume h: "\<And>k. 6 \<le> k \<Longrightarrow> k < 8 \<Longrightarrow> \<not> bit v k"
  have "take_bit 6 v = v"
  proof (rule bit_word_eqI)
    fix n assume "n < LENGTH(8)"
    then show "bit (take_bit 6 v) n = bit v n" using h[of n] by (cases "n < 6") (simp_all add: bit_simps)
  qed
  then have "unat v = take_bit 6 (unat v)" by (metis unsigned_take_bit_eq)
  also have "\<dots> < 2 ^ 6" by (rule take_bit_nat_less_exp)
  finally show ?thesis by simp
qed

lemma sextets:
  "unat (sx0 a) < 64" "unat (sx1 a b) < 64" "unat (sx2 b c) < 64" "unat (sx3 c) < 64"
  "unat (sx1_last a) < 64" "unat (sx2_last b) < 64"
  unfolding sx_defs masks by (rule u8_lt64; auto simp: bit_simps dest: bit_imp_le_length)+

lemma lt64_not_80: "unat (v :: u8) < 64 \<Longrightarrow> v \<noteq> 0x80"
  by auto

lemma sextet_not_80: "sx0 a \<noteq> 0x80" "sx1 a b \<noteq> 0x80" "sx2 b c \<noteq> 0x80" "sx3 c \<noteq> 0x80"
  "sx1_last a \<noteq> 0x80" "sx2_last b \<noteq> 0x80"
  using sextets by (metis lt64_not_80)+

lemma u8_eqI:
  fixes v w :: u8
  assumes "bit v 0 = bit w 0" "bit v 1 = bit w 1" "bit v 2 = bit w 2" "bit v 3 = bit w 3"
    "bit v 4 = bit w 4" "bit v 5 = bit w 5" "bit v 6 = bit w 6" "bit v 7 = bit w 7"
  shows "v = w"
proof (rule bit_word_eqI)
  fix n assume "n < LENGTH(8)"
  then have "n = 0 \<or> n = 1 \<or> n = 2 \<or> n = 3 \<or> n = 4 \<or> n = 5 \<or> n = 6 \<or> n = 7" by auto
  then show "bit v n = bit w n" using assms by auto
qed

lemma u8_high_bits: "\<not> bit (v :: u8) (numeral k)" if "8 \<le> (numeral k :: nat)"
  using that bit_imp_le_length[of v "numeral k"] by auto

lemma bytes_back:
  "push_bit 2 (sx0 a) OR drop_bit 4 (sx1 a b) = a"
  "push_bit 4 (sx1 a b) OR drop_bit 2 (sx2 b c) = b"
  "push_bit 6 (sx2 b c) OR sx3 c = c"
  "push_bit 2 (sx0 a) OR drop_bit 4 (sx1_last a) = a"
  "push_bit 4 (sx1 a b) OR drop_bit 2 (sx2_last b) = b"
  "push_bit 4 (sx1_last a) = 0" "push_bit 6 (sx2_last b) = 0"
  unfolding sx_defs masks by (rule u8_eqI; simp add: bit_simps u8_high_bits)+

section \<open>Round trip\<close>

lemma decode_block_step:
  assumes "dtable ! unat c0 \<noteq> 0x80" "dtable ! unat c1 \<noteq> 0x80" "dtable ! unat c2 \<noteq> 0x80" "dtable ! unat c3 \<noteq> 0x80"
  shows "base64_decode_loop (c0 # c1 # c2 # c3 # rest) [] lastb acc = base64_decode_loop rest [] [c0, c1, c2, c3]
    (acc @ decode_block (dtable ! unat c0) (dtable ! unat c1) (dtable ! unat c2) (dtable ! unat c3))"
  using assms by simp

declare base64_decode_loop.simps(2) [simp del]

lemma decode_skip_lf: "base64_decode_loop (0x0a # rest) inp lastb acc = base64_decode_loop rest inp lastb acc"
  by (simp add: base64_decode_loop.simps dtable_special)

text \<open>The last block of a decoded text tells how many bytes of padding follow the data.\<close>

fun block_ends :: "bytes \<Rightarrow> bytes \<Rightarrow> bool" where
  "block_ends inp src \<longleftrightarrow>
     (if length src mod 3 = 1 then inp ! 2 = 0x3d
      else if length src mod 3 = 2 then inp ! 2 \<noteq> 0x3d \<and> inp ! 3 = 0x3d
      else inp ! 2 \<noteq> 0x3d \<and> inp ! 3 \<noteq> 0x3d)"

definition padding :: "bytes \<Rightarrow> bytes" where
  "padding src = replicate ((3 - length src mod 3) mod 3) 0"

lemma mod3_step: "Suc (Suc (Suc n)) mod 3 = n mod 3"
  by presburger

lemma padding_simps [simp]:
  "padding [] = []" "padding [a] = [0, 0]" "padding [a, b] = [0]" "padding (a # b # c # rest) = padding rest"
  by (simp_all add: padding_def mod3_step numeral_2_eq_2)

lemmas block_simps = dtable_b64char sextets sextet_not_80 decode_block_def bytes_back dtable_special

lemma decode_encode_loop:
  "\<exists>inp. base64_decode_loop (base64_encode_loop ll src) [] lastb acc = (inp, acc @ src @ padding src) \<and>
     (if src = [] then inp = lastb else block_ends inp src)"
proof (induction ll src arbitrary: lastb acc rule: base64_encode_loop.induct)
  case (1 ll a b c rest)
  let ?blk = "[b64char (sx0 a), b64char (sx1 a b),
      b64char (sx2 b c), b64char (sx3 c)]"
  have step: "base64_decode_loop (?blk @ r) [] lastb acc = base64_decode_loop r [] ?blk (acc @ [a, b, c])" for r
    using decode_block_step[of "?blk ! 0" "?blk ! 1" "?blk ! 2" "?blk ! 3" r lastb acc]
    by (simp add: block_simps)
  have ends: "block_ends ?blk [a, b, c]" by (simp add: block_simps)
  obtain ll' where eq: "base64_decode_loop (base64_encode_loop ll (a # b # c # rest)) [] lastb acc =
      base64_decode_loop (base64_encode_loop ll' rest) [] ?blk (acc @ [a, b, c])"
    and IH: "\<exists>inp. base64_decode_loop (base64_encode_loop ll' rest) [] ?blk (acc @ [a, b, c]) =
      (inp, (acc @ [a, b, c]) @ rest @ padding rest) \<and> (if rest = [] then inp = ?blk else block_ends inp rest)"
  proof (cases "ll + 4 \<ge> 72")
    case True
    then show thesis using that[of 0] step[of "0x0a # base64_encode_loop 0 rest"] "1.IH"(1)[of ?blk "acc @ [a, b, c]"]
      by (simp add: decode_skip_lf)
  next
    case False
    then show thesis using that[of "ll + 4"] step[of "base64_encode_loop (ll + 4) rest"] "1.IH"(2)[of ?blk "acc @ [a, b, c]"]
      by simp
  qed
  from IH ends show ?case unfolding eq by (auto simp: mod3_step split: if_splits)
next
  case (2 ll a b)
  then show ?case
    using decode_block_step[of "b64char (sx0 a)" "b64char (sx1 a b)"
        "b64char (sx2_last b)" "0x3d" "[0x0a]" lastb acc]
    by (simp add: block_simps decode_skip_lf)
next
  case (3 ll a)
  then show ?case
    using decode_block_step[of "b64char (sx0 a)" "b64char (sx1_last a)" "0x3d" "0x3d" "[0x0a]" lastb acc]
    by (simp add: block_simps decode_skip_lf)
next
  case (4 ll)
  then show ?case by (simp add: decode_skip_lf)
qed

lemma count_encode:
  "length (filter (\<lambda>c. dtable ! unat c \<noteq> 0x80) (base64_encode_loop ll src)) = 4 * ((length src + 2) div 3)"
proof (induction ll src rule: base64_encode_loop.induct)
  case (1 ll a b c rest)
  have "(5 + n) div 3 = Suc (Suc (Suc n) div 3)" for n :: nat by presburger
  with 1 show ?case by (simp add: block_simps)
qed (simp_all add: block_simps)


lemma decode_encode:
  assumes "src \<noteq> []"
  shows "base64_decode True (base64_encode_loop 0 src) = Some src"
proof -
  obtain inp where inp: "base64_decode_loop (base64_encode_loop 0 src) [] [] [] = (inp, src @ padding src)"
    and ends: "block_ends inp src"
    using decode_encode_loop[of 0 src "[]" "[]"] assms by auto
  have "(length src + 2) div 3 \<noteq> 0" using assms by (cases src) (auto simp: div_eq_0_iff)
  moreover have "length src mod 3 = 0 \<or> length src mod 3 = 1 \<or> length src mod 3 = 2" by auto
  ultimately show ?thesis using ends assms
    by (auto simp: base64_decode_def count_encode inp padding_def Let_def)
qed

interpretation b64: codec "base64_encode_loop 0" "base64_decode True" "\<lambda>src. src \<noteq> []"
  by unfold_locales (rule decode_encode)

section \<open>Size of the encoder's buffer\<close>

lemma length_encode_loop:
  "ll \<le> 68 \<Longrightarrow> ll mod 4 = 0 \<Longrightarrow> length (base64_encode_loop ll src) =
     4 * ((length src + 2) div 3) + (ll + 4 * ((length src + 2) div 3) + 71) div 72"
proof (induction ll src rule: base64_encode_loop.induct)
  case (1 ll a b c rest)
  have n: "(length (a # b # c # rest) + 2) div 3 = Suc ((length rest + 2) div 3)" by simp
  show ?case
  proof (cases "ll = 68")
    case True
    then show ?thesis using "1.IH"(1) unfolding n by simp
  next
    case False
    then have "ll + 4 \<le> 68" "(ll + 4) mod 4 = 0" using "1.prems" by presburger+
    then show ?thesis using "1.IH"(2) unfolding n by (simp add: ac_simps)
  qed
qed auto

lemma unat_olen:
  assumes "unat (len * 4) div 3 + 4 < 2 ^ 31"
  shows "unat (base64_olen len) = (unat (len * 4) div 3 + 4) + (unat (len * 4) div 3 + 4) div 72 + 1"
proof -
  have 1: "unat (len * 4 div 3 + 4) = unat (len * 4) div 3 + 4"
    using assms by (simp add: unat_word_ariths unat_div)
  let ?y = "unat (len * 4) div 3 + 4"
  have "72 * (?y div 72) \<le> ?y" by simp
  then have "?y + ?y div 72 + 1 < 2 ^ 32" using assms by simp
  then show ?thesis using 1
    by (simp add: base64_olen_def Let_def unat_word_ariths unat_div)
qed

lemma olen_third: "unat (len * 4) div 3 + 4 < 2 ^ 31" for len :: size_t
  using unsigned_less[of "len * 4", where ?'a = nat] by simp

text \<open>The overflow check rejects every length for which the multiplication wraps.\<close>

lemma olen_check:
  assumes "\<not> base64_olen len < len"
  shows "unat len < 2 ^ 30"
proof (rule ccontr)
  assume big: "\<not> unat len < 2 ^ 30"
  define x where "x = unat (len * 4)"
  let ?y = "x div 3 + 4"
  have x: "x < 2 ^ 32" unfolding x_def using unsigned_less[of "len * 4", where ?'a = nat] by simp
  have o: "unat (base64_olen len) = ?y + ?y div 72 + 1" unfolding x_def by (rule unat_olen[OF olen_third])
  have le: "unat len \<le> unat (base64_olen len)" using assms by (simp add: word_less_nat_alt)
  have y: "3 * (x div 3) \<le> x" "72 * (?y div 72) \<le> ?y" by simp_all
  show False
  proof (cases "unat len < 2 ^ 31")
    case True
    have "4 * unat len = 4 * (unat len - 2 ^ 30) + 2 ^ 32" using big by simp
    moreover have "x = 4 * unat len mod 2 ^ 32" by (simp add: x_def unat_word_ariths mult.commute)
    ultimately have "x = 4 * (unat len - 2 ^ 30)" using True by simp
    then show False using y o le True big by simp
  next
    case False
    then show False using y o le x by simp
  qed
qed

lemma third_le: "4 * ((n + 2) div 3) + 1 \<le> n * 4 div 3 + (4 :: nat)"
proof -
  define q r where "q = n div 3" and "r = n mod 3"
  have n: "n = 3 * q + r" and "r < 3" by (simp_all add: q_def r_def)
  then have "r = 0 \<or> r = 1 \<or> r = 2" by auto
  then show ?thesis unfolding n by auto
qed

section \<open>Claims\<close>



text \<open>The buffer \<^verbatim>\<open>base64_encode\<close> allocates, with its size computed in wrapping 32-bit arithmetic,
  is large enough for the whole text and its NUL for every length that passes the overflow check.\<close>

theorem base64_encode_fits:
  assumes "length src < 2 ^ 32" and "base64_encode True src = Some text"
  shows "length text + 1 \<le> unat (base64_olen (of_nat (length src)))"
proof -
  let ?len = "of_nat (length src) :: size_t"
  have n: "unat ?len = length src" using assms(1) by (simp add: unat_of_nat)
  have chk: "\<not> base64_olen ?len < ?len" and out: "text = base64_encode_loop 0 src"
    using assms(2) by (auto simp: base64_encode_def Let_def split: if_splits)
  have "length src < 2 ^ 30" using olen_check[OF chk] n by simp
  then have "unat (?len * 4) = length src * 4" by (simp add: unat_word_ariths unat_of_nat)
  then have o: "unat (base64_olen ?len) = (length src * 4 div 3 + 4) + (length src * 4 div 3 + 4) div 72 + 1"
    using unat_olen[OF olen_third, of ?len] by simp
  have e: "length text = 4 * ((length src + 2) div 3) + (4 * ((length src + 2) div 3) + 71) div 72"
    using length_encode_loop[of 0 src] out by simp
  have lt: "4 * ((length src + 2) div 3) + 1 \<le> length src * 4 div 3 + 4" (is "?E + 1 \<le> ?L")
    by (rule third_le)
  have "(?E + 71) div 72 \<le> (?L + 72) div 72" using lt by (intro div_le_mono) simp
  then have "(?E + 71) div 72 \<le> ?L div 72 + 1" by simp
  then show ?thesis unfolding o e using lt by linarith
qed

theorem base64_encode_fits_witness:
  "length [0x63 :: u8, 0x33, 0x56, 0x79, 0x5a, 0x51, 0x3d, 0x3d, 0x0a] + 1 \<le>
     unat (base64_olen (of_nat (length [0x73 :: u8, 0x75, 0x72, 0x65])))"
  by (rule base64_encode_fits, simp, code_simp)

end
