(* ===== verification/Spec2Isabelle.thy ===== *)
theory Spec2Isabelle
  imports Ieee8021x_Props Pmksa_Cache_Props Wpa_Auth_Props Wpa_Auth_Replay Wpa_Auth_Shapes Wpa_Auth_Pmksa Wpa_Auth_Frames Crypto_Env Supp_Pmksa Handshake_Start Base64
begin

text \<open>
  \<^bold>\<open>The authenticator of an access point and the WPA machine of a station.\<close> The repository holds the user space programs of a wireless
  access point. The program verified here is hostapd in \<^verbatim>\<open>src/athr-hostap/\<close>: the access control of
  IEEE 802.1X, the key handshakes of WPA and RSN, the cache of master keys, and the parsers and
  printers they use; and, of the wpa_supplicant that shares its sources, the WPA state machine of the station with
  its cache of master keys. The other directories are older copies of the same program
  (\<^verbatim>\<open>src/hostap-0.7.1\<close>, \<^verbatim>\<open>src/hostap-0.7.2\<close>, \<^verbatim>\<open>src/wpa2\<close>), vendor tools and register tables.

  \<^bold>\<open>Parts and their interplay.\<close> A station that associates gets two state machines. The 802.1X machine
  (\<^verbatim>\<open>eapol_auth_sm.c\<close>) lets the station run EAP and decides whether its port is authorized; hostapd owns it
  (\<^verbatim>\<open>ieee802_1x.c\<close>) and passes its decisions to the driver. The WPA machine (\<^verbatim>\<open>wpa_auth.c\<close>) checks the RSN
  element of the association (\<^verbatim>\<open>wpa_auth_ie.c\<close>), takes the master key from EAP, from a pre-shared key or from
  the PMKSA cache (\<^verbatim>\<open>pmksa_cache_auth.c\<close>), runs the four-way handshake and the group key handshake over EAPOL-Key frames,
  and tells the 802.1X machine through \<^verbatim>\<open>wpa_auth_set_eapol\<close> that the port is valid. A Michael MIC failure starts the
  countermeasures (\<^verbatim>\<open>tkip_countermeasures.c\<close>), which renew the group keys. On the other side of the air a station answers the
  EAPOL-Key frames (\<^verbatim>\<open>rsn_supp/wpa.c\<close>): it derives the pairwise key from message 1/4, proves that it has it, and hands the
  pairwise and group keys to its driver when message 3/4 is authentic; its own cache (\<^verbatim>\<open>rsn_supp/pmksa_cache.c\<close>) holds the
  master keys of the access points it has met.

  \<^bold>\<open>Theories.\<close>
  \<^item> \<open>Hostap_Prelude\<close>: machine types, memory writes, C strings, the value of a big-endian number, and the
    interfaces \<open>codec\<close> (what is encoded is decoded to itself) and \<open>step_inv\<close> (what every event keeps, a run keeps).
  \<^item> \<open>Byte_Utils\<close> (\<^verbatim>\<open>utils/common.c\<close>, \<^verbatim>\<open>common.h\<close>), \<open>Wpabuf\<close> (\<^verbatim>\<open>utils/wpabuf.c\<close>, sizes are 32 bit words,
    an overflow check that fails is \<open>Abort\<close>), \<open>Base64\<close> (\<^verbatim>\<open>utils/base64.c\<close>).
  \<^item> \<open>Ieee80211_Elems\<close> (\<^verbatim>\<open>common/ieee802_11_common.c\<close>), \<open>Wpa_Defs\<close> (\<^verbatim>\<open>common/defs.h\<close>), \<open>Wpa_Ie\<close>
    (\<^verbatim>\<open>common/wpa_common.c\<close>, \<^verbatim>\<open>ap/wpa_auth_ie.c\<close>): information elements and key data.
  \<^item> \<open>Eapol_Auth\<close> (\<^verbatim>\<open>eapol_auth/eapol_auth_sm.c\<close>): one record for \<^verbatim>\<open>struct eapol_state_machine\<close>, one function per
    state entry and per machine step, the run loop with its limit of 100 rounds. \<open>Eapol_Auth_Props\<close> states the
    contract of the owner as the interfaces \<open>eapol_owner\<close> and its extensions, and proves in them what the machines
    promise; \<open>Ieee8021x\<close> (\<^verbatim>\<open>ap/ieee802_1x.c\<close>) is that owner and \<open>Ieee8021x_Props\<close> interprets the interfaces on it.
  \<^item> \<open>Pmksa_Cache\<close> (\<^verbatim>\<open>ap/pmksa_cache_auth.c\<close>): entries in an explicit heap, so that freed memory is visible;
    \<open>Pmksa_Cache_Props\<close> has the invariant of the list and the hash chains.
  \<^item> \<open>Wpa_Auth\<close> and \<open>Wpa_Auth_Run\<close> (\<^verbatim>\<open>ap/wpa_auth.c\<close>, \<^verbatim>\<open>ap/tkip_countermeasures.c\<close>): the records of the C structs, one
    function per state entry, machine step and handler; \<open>Wpa_Auth_Events\<close> has \<^verbatim>\<open>wpa_validate_wpa_ie\<close> and the
    machine \<open>wpa_step\<close> whose inputs are the calls of hostapd and the time outs.
  \<^item> \<open>Wpa_Auth_Lemmas\<close>, \<open>Wpa_Auth_Lift\<close>, \<open>Wpa_Auth_Handlers\<close>: what the entry actions change, and the interfaces
    \<open>station_actions\<close>, \<open>handlers\<close>, \<open>assoc_handlers\<close>, \<open>rx_handlers\<close>, \<open>cache_handlers\<close> that lift a relation from
    single actions to loops and whole handlers. Their interpretations are the proofs of the theories that follow.
  \<^item> \<open>Wpa_Auth_Term\<close>, \<open>Wpa_Auth_Inputs\<close> (the loops end), \<open>Wpa_Auth_Secure\<close>, \<open>Wpa_Auth_Safety\<close>, \<open>Wpa_Auth_Props\<close>
    (who opens the port), \<open>Wpa_Auth_Replay\<close> (the array of replay counters refines a window), \<open>Wpa_Auth_Shapes\<close>
    (sizes of the buffers), \<open>Wpa_Auth_Pmksa\<close> (the authenticator with its cache: no dangling pointer),
    \<open>Wpa_Auth_Frames\<close> (frames sent, renewal of the pairwise key), \<open>Wpa_Auth_Example\<close> (an evaluated handshake for the witnesses).
  \<^item> \<open>Aes_Internal\<close> (\<^verbatim>\<open>crypto/aes-internal.c\<close>, \<^verbatim>\<open>-enc.c\<close>, \<^verbatim>\<open>-dec.c\<close>, \<^verbatim>\<open>aes_i.h\<close>), \<open>Aes_Tables\<close> (what the tables are), \<open>Aes_Props\<close>
    (the rounds are inverse), \<open>Aes_Wrap\<close> (\<^verbatim>\<open>crypto/aes-wrap.c\<close>, \<^verbatim>\<open>aes-unwrap.c\<close>), \<open>Rc4\<close> (\<^verbatim>\<open>crypto/rc4.c\<close>).
  \<^item> \<open>Hash_Stream\<close>: the interface \<open>stream_hash\<close> of a context that is fed areas of memory, interpreted for \<open>Sha1\<close>
    (\<^verbatim>\<open>crypto/sha1-internal.c\<close>) in \<open>Sha1_Props\<close> and for \<open>Md5\<close> (\<^verbatim>\<open>crypto/md5-internal.c\<close>) in \<open>Md5_Props\<close>; both are proved equal to their
    standards. \<open>Hmac\<close> (\<^verbatim>\<open>crypto/sha1.c\<close>, \<^verbatim>\<open>md5.c\<close>, \<^verbatim>\<open>sha1-pbkdf2.c\<close>) proves HMAC once over the interface \<open>vector_hash\<close>, and the
    key derivations. \<open>Crypto_Env\<close> puts these routines in the place of the primitives of the authenticator.
  \<^item> \<open>Supp_State\<close> (\<^verbatim>\<open>rsn_supp/wpa_i.h\<close>, \<^verbatim>\<open>pmksa_cache.c\<close>): \<^verbatim>\<open>struct wpa_sm\<close> and the cache of the station, a list of entries with
    addresses; \<open>Supp_Ie\<close> (\<^verbatim>\<open>rsn_supp/wpa_ie.c\<close>): the element of the station and the parser for key data; \<open>Wpa_Supp\<close>
    (\<^verbatim>\<open>rsn_supp/wpa.c\<close>): the receiver of EAPOL-Key frames, the handlers of the messages, requests and configuration.
  \<^item> \<open>Supp_Lemmas\<close> (what leaves the keys alone), \<open>Supp_Safety\<close> (keys change only for authentic and fresh frames, the reads outside a
    frame), \<open>Supp_Pmksa\<close> (the cache of the station is consistent, the read of a freed entry).
  \<^item> \<open>Handshake\<close>, \<open>Handshake_Start\<close>: the authenticator and the station together, each frame that one sends given to the other,
    over the cryptography of the repository (\<open>with_crypto\<close>, \<open>supp_crypto\<close>), for WPA2 with CCMP and, in the first half, a pre-shared key.

  \<^bold>\<open>State and effects.\<close> Operations take and return records. Callbacks, the event loop, the driver and the allocator are
  arguments of the model: their answers come from a record of functions (\<open>wpa_env\<close>, the environment of \<open>Eapol_Auth\<close>) that may
  depend on everything called before, and the calls are recorded in a trace. In \<open>wpa_world\<close> a pointer to a station or a group
  is a number; groups are in the order of creation. The callbacks of the authenticator do not call it back in this model; in
  hostapd some of them run the 802.1X machine, which defers its answer to the event loop (\<^verbatim>\<open>wpa_auth_sm_notify\<close>, an input here).
  Hash, cipher and key wrap functions are fields of \<open>wpa_env\<close>, so that the theorems about the authenticator hold for any
  library it is built with; \<open>with_crypto\<close> fills them with the internal routines of the repository. Memory that C leaves uninitialised
  and the byte order of the machine are arguments, and the theorems hold for all their values.

  \<^bold>\<open>Loops and fuel.\<close> Loops over data are structural recursions; the expiry loop of the cache is a \<open>function\<close> with a
  measure; \<^verbatim>\<open>pmksa_cache_get_okc\<close> is a \<open>partial_function\<close> since it may run forever. The loops of \<^verbatim>\<open>wpa_sm_step\<close> and of the group
  key update call each other and carry fuel. A world in which fuel ran out is marked \<open>w_stuck\<close>. \<open>wpa_fuel\<close> is
  \<open>1 + 57 n + (3 + 7 n) g\<close> for \<open>n\<close> stations and \<open>g\<close> groups: a station can change its state at most 57 times before it waits for
  an event (\<open>sm_weight\<close>), a group at most \<open>3 + 7 n\<close> times, and \<open>Wpa_Auth_Term\<close> shows that no loop uses more, so no reachable
  world is stuck.

  \<^bold>\<open>What is shown.\<close> A port opens only for a message 4/4 with the right MIC, replay counter and state, and such a message
  opens it; without EAP success or without the approval of the WPA machine an 802.1X port stays closed. Every input is
  handled to its end. The replay counters refine a window over 64 bit numbers; buffers keep their sizes; no station
  points to a freed cache entry; the cache finds exactly its live entries. The hash functions, HMAC, the key derivations and
  the key wrap are those of the standards, what is encrypted or wrapped is recovered, and with them the MIC check accepts exactly the
  frames of the standard. Both ends of the four-way handshake derive the
  same pairwise key, message 2/4 and message 4/4 of the station are accepted, and message 3/4 makes it install the keys of the
  authenticator. A station changes its keys only for a frame with the right MIC and a new replay counter, and the
  pointer to its current cache entry never dangles. Parsers invert printers, buffers are not overrun,
  retry counters are bounded. Other theorems show defects: an overflow check that wraps, an expiry timer
  that is never armed, a search that hangs, a cache that exceeds its limit, a renewal of the pairwise key that keeps the nonce
  and may disconnect at once; on the station a length that wraps around, a read of
  a freed cache entry and a pairwise key that is installed again for a repeated message.

  \<^bold>\<open>Not modelled.\<close> The build options 802.11r, 802.11w and PeerKey (\<^verbatim>\<open>wpa_auth_ft.c\<close>, \<^verbatim>\<open>peerkey_auth.c\<close> and their branches); debug
  output, MIB printing, the configuration and control interfaces; SHA-256 and the
  cryptography that only EAP methods use; drivers, RADIUS, EAP methods, TLS, WPS, P2P and the management
  frames, which call the modelled parts or are called through parameters; of the supplicant everything but the WPA machine, its elements and its
  cache, with the EAPOL machine as a parameter; the older copies of the program and the vendor
  tools outside \<^verbatim>\<open>src/athr-hostap/\<close>.
\<close>

end
